(* ===== verification/Prelude.thy ===== *)
theory Prelude
  imports Complex_Main "HOL-Library.AList" "HOL-Library.Char_ord" "HOL-Library.List_Lexorder"
    "HOL-Library.Product_Lexorder" "HOL-Library.Multiset"
begin

text \<open>
  Shared vocabulary of the development: the arithmetic, the string operations and the container
  operations of Python and its standard library that the backend uses, with the generic lemmas the
  component theories share.

  A Python \<open>float\<close> is a \<^typ>\<open>real\<close>: every arithmetic operation of the code is the exact one, and
  the places where the code itself rounds (\<open>round(x, n)\<close>, \<open>format(x, ".nf")\<close>) are written out.
  A Python \<open>dict\<close> is an association list in insertion order, written with the library's
  \<^const>\<open>AList.update\<close>, which keeps the position of a key that is already present and appends a
  new one, as a Python dict does.
\<close>

named_theorems num_simps \<open>evaluation of rounding and formatting on closed numbers\<close>
named_theorems dict_simps \<open>facts about insertion-ordered dictionaries\<close>

subsection \<open>Results\<close>

type_synonym ('e, 'a) res = "'e + 'a"

definition bind_res :: "('e, 'a) res \<Rightarrow> ('a \<Rightarrow> ('e, 'b) res) \<Rightarrow> ('e, 'b) res" where
  "bind_res m f = (case m of Inl e \<Rightarrow> Inl e | Inr a \<Rightarrow> f a)"

lemma bind_res_simps [simp]:
  "bind_res (Inl e) f = Inl e"
  "bind_res (Inr a) f = f a"
  by (simp_all add: bind_res_def)

lemma bind_res_Inr_iff: "bind_res m f = Inr b \<longleftrightarrow> (\<exists>a. m = Inr a \<and> f a = Inr b)"
  by (cases m) auto

fun map_res :: "('a \<Rightarrow> ('e, 'b) res) \<Rightarrow> 'a list \<Rightarrow> ('e, 'b list) res" where
  "map_res f [] = Inr []"
| "map_res f (x # xs) = bind_res (f x) (\<lambda>y. bind_res (map_res f xs) (\<lambda>ys. Inr (y # ys)))"

lemma map_res_total: "(\<And>x. x \<in> set xs \<Longrightarrow> f x = Inr (g x)) \<Longrightarrow> map_res f xs = Inr (map g xs)"
  by (induction xs) auto

lemma map_res_Inr_length: "map_res f xs = Inr ys \<Longrightarrow> length ys = length xs"
  by (induction xs arbitrary: ys) (auto simp: bind_res_Inr_iff)

lemma map_res_Inr_nth: "map_res f xs = Inr ys \<Longrightarrow> i < length xs \<Longrightarrow> f (xs ! i) = Inr (ys ! i)"
  by (induction xs arbitrary: ys i) (auto simp: bind_res_Inr_iff nth_Cons split: nat.splits)

subsection \<open>Rounding: \<open>round(x, n)\<close>\<close>

text \<open>Round half to even, as Python's \<open>round\<close> does.\<close>

definition round_half_even :: "real \<Rightarrow> int" where
  "round_half_even x =
     (let f = \<lfloor>x\<rfloor>; d = x - of_int f
      in if d < 1 / 2 then f else if 1 / 2 < d then f + 1 else if even f then f else f + 1)"

definition py_round :: "nat \<Rightarrow> real \<Rightarrow> real" where
  "py_round n x = of_int (round_half_even (x * 10 ^ n)) / 10 ^ n"

lemma round_half_even_bounds:
  "of_int (round_half_even x) - x \<le> 1 / 2 \<and> x - of_int (round_half_even x) \<le> 1 / 2"
proof -
  define d where "d = x - of_int \<lfloor>x\<rfloor>"
  have "0 \<le> d" and "d < 1" unfolding d_def by linarith+
  moreover have "of_int (round_half_even x) - x = (if d < 1 / 2 then - d else if 1 / 2 < d then 1 - d
      else if even \<lfloor>x\<rfloor> then - d else 1 - d)"
    by (simp add: round_half_even_def Let_def flip: d_def) (simp add: d_def)
  ultimately show ?thesis by (auto split: if_splits)
qed

lemma round_half_even_of_int [simp]: "round_half_even (of_int k) = k"
  by (simp add: round_half_even_def)

lemma round_half_even_0 [simp]: "round_half_even 0 = 0"
  by (simp add: round_half_even_def)

lemma round_half_even_mono: "x \<le> y \<Longrightarrow> round_half_even x \<le> round_half_even y"
proof -
  assume le: "x \<le> y"
  show ?thesis
  proof (cases "\<lfloor>x\<rfloor> = \<lfloor>y\<rfloor>")
    case True
    with le show ?thesis by (auto simp: round_half_even_def Let_def)
  next
    case False
    from le have "\<lfloor>x\<rfloor> \<le> \<lfloor>y\<rfloor>" by (rule floor_mono)
    with False have "\<lfloor>x\<rfloor> + 1 \<le> \<lfloor>y\<rfloor>" by simp
    moreover have "round_half_even x \<le> \<lfloor>x\<rfloor> + 1" by (simp add: round_half_even_def Let_def)
    moreover have "\<lfloor>y\<rfloor> \<le> round_half_even y" by (simp add: round_half_even_def Let_def)
    ultimately show ?thesis by simp
  qed
qed

lemma py_round_mono: "x \<le> y \<Longrightarrow> py_round n x \<le> py_round n y"
  by (simp add: py_round_def divide_right_mono round_half_even_mono)

lemma py_round_0 [simp]: "py_round n 0 = 0"
  by (simp add: py_round_def)

lemma py_round_decimal [simp]: "py_round n (of_int k / 10 ^ n) = of_int k / 10 ^ n"
  by (simp add: py_round_def)

lemma py_round_of_int [simp]: "py_round n (of_int k) = of_int k"
  using py_round_decimal [of n "k * 10 ^ n"] by simp

lemma py_round_numeral [simp]: "py_round n (numeral k) = numeral k"
  using py_round_of_int [of n "numeral k"] by simp

lemma py_round_1 [simp]: "py_round n 1 = 1"
  using py_round_of_int [of n 1] by simp

lemma py_round_idem [simp]: "py_round n (py_round n x) = py_round n x"
  by (simp add: py_round_def [of n x])

lemma py_round_nonneg: "0 \<le> x \<Longrightarrow> 0 \<le> py_round n x"
  using py_round_mono [of 0 x n] by simp

lemma py_round_nonpos: "x \<le> 0 \<Longrightarrow> py_round n x \<le> 0"
  using py_round_mono [of x 0 n] by simp

lemma py_round_le_int: "x \<le> of_int k \<Longrightarrow> py_round n x \<le> of_int k"
  using py_round_mono [of x "of_int k" n] by simp

lemma py_round_ge_int: "of_int k \<le> x \<Longrightarrow> of_int k \<le> py_round n x"
  using py_round_mono [of "of_int k" x n] by simp

lemma py_round_le_numeral: "x \<le> numeral k \<Longrightarrow> py_round n x \<le> numeral k"
  using py_round_le_int [of x "numeral k" n] by simp

lemma py_round_le_1: "x \<le> 1 \<Longrightarrow> py_round n x \<le> 1"
  using py_round_le_int [of x 1 n] by simp

lemma py_round_error: "\<bar>py_round n x - x\<bar> \<le> 1 / (2 * 10 ^ n)"
proof -
  let ?k = "round_half_even (x * 10 ^ n)"
  have b: "\<bar>of_int ?k - x * 10 ^ n\<bar> \<le> 1 / 2"
    using round_half_even_bounds [of "x * 10 ^ n"] by linarith
  have "py_round n x - x = (of_int ?k - x * 10 ^ n) / 10 ^ n"
    by (simp add: py_round_def field_simps)
  then have "\<bar>py_round n x - x\<bar> = \<bar>of_int ?k - x * 10 ^ n\<bar> / 10 ^ n" by simp
  also have "\<dots> \<le> (1 / 2) / 10 ^ n" using b by (intro divide_right_mono) auto
  finally show ?thesis by simp
qed

text \<open>\<open>int(x)\<close> of a float truncates towards zero.\<close>

definition py_trunc :: "real \<Rightarrow> int" where
  "py_trunc x = (if x < 0 then - \<lfloor>- x\<rfloor> else \<lfloor>x\<rfloor>)"

lemma py_trunc_of_int [simp]: "py_trunc (of_int k) = k"
  by (simp add: py_trunc_def)

subsection \<open>Formatting numbers: \<open>str(n)\<close> and \<open>format(x, ".nf")\<close>\<close>

definition digit_char :: "nat \<Rightarrow> char" where
  "digit_char n = char_of (48 + n)"

fun show_nat :: "nat \<Rightarrow> string" where
  "show_nat n = (if n < 10 then [digit_char n] else show_nat (n div 10) @ [digit_char (n mod 10)])"

declare show_nat.simps [simp del]

definition show_int :: "int \<Rightarrow> string" where
  "show_int k = (if k < 0 then ''-'' @ show_nat (nat (- k)) else show_nat (nat k))"

text \<open>\<open>pad_digits d n\<close>: the last \<open>d\<close> decimal digits of \<open>n\<close>, zero-padded.\<close>

fun pad_digits :: "nat \<Rightarrow> nat \<Rightarrow> string" where
  "pad_digits 0 n = []"
| "pad_digits (Suc d) n = pad_digits d (n div 10) @ [digit_char (n mod 10)]"

definition fmt_fixed :: "nat \<Rightarrow> real \<Rightarrow> string" where
  "fmt_fixed d x =
     (let k = nat (round_half_even (\<bar>x\<bar> * 10 ^ d))
      in (if x < 0 then ''-'' else []) @ show_nat (k div 10 ^ d)
         @ (if d = 0 then [] else ''.'' @ pad_digits d k))"

text \<open>\<open>format(x, ".n%")\<close>.\<close>

definition fmt_percent :: "nat \<Rightarrow> real \<Rightarrow> string" where
  "fmt_percent d x = fmt_fixed d (x * 100) @ ''%''"

text \<open>\<open>format(x, "+.2f")\<close>.\<close>

definition fmt_signed :: "nat \<Rightarrow> real \<Rightarrow> string" where
  "fmt_signed d x = (if x < 0 then [] else ''+'') @ fmt_fixed d x"

definition join_with :: "string \<Rightarrow> string list \<Rightarrow> string" where
  "join_with sep xs = (case xs of [] \<Rightarrow> [] | y # ys \<Rightarrow> y @ concat (map (\<lambda>s. sep @ s) ys))"

subsection \<open>Strings\<close>

text \<open>Characters are Latin-1 code points. \<open>str.strip\<close> removes Unicode white space at both ends.\<close>

definition is_space :: "char \<Rightarrow> bool" where
  "is_space c = (of_char c \<in> {9, 10, 11, 12, 13, 28, 29, 30, 31, 32, 133, 160 :: nat})"

definition strip :: "string \<Rightarrow> string" where
  "strip s = rev (dropWhile is_space (rev (dropWhile is_space s)))"

definition lower_char :: "char \<Rightarrow> char" where
  "lower_char c = (let n = of_char c :: nat
     in if 65 \<le> n \<and> n \<le> 90 \<or> 192 \<le> n \<and> n \<le> 222 \<and> n \<noteq> 215 then char_of (n + 32) else c)"

definition str_lower :: "string \<Rightarrow> string" where
  "str_lower s = map lower_char s"

definition replace_char :: "char \<Rightarrow> string \<Rightarrow> string \<Rightarrow> string" where
  "replace_char c r s = concat (map (\<lambda>d. if d = c then r else [d]) s)"

text \<open>\<open>w in s\<close> on strings.\<close>

fun contains_word :: "string \<Rightarrow> string \<Rightarrow> bool" where
  "contains_word w [] = (w = [])"
| "contains_word w (c # cs) = (take (length w) (c # cs) = w \<or> contains_word w cs)"

lemma contains_word_split: "contains_word w s \<Longrightarrow> \<exists>a b. s = a @ w @ b"
proof (induction s)
  case (Cons c s)
  show ?case
  proof (cases "take (length w) (c # s) = w")
    case True
    then have "c # s = [] @ w @ drop (length w) (c # s)" by (metis append_Nil append_take_drop_id)
    then show ?thesis by blast
  next
    case False
    then obtain a b where "s = a @ w @ b" using Cons by auto
    then have "c # s = (c # a) @ w @ b" by simp
    then show ?thesis by blast
  qed
qed simp

text \<open>\<open>a or b\<close> on strings and optional strings.\<close>

definition or_str :: "string \<Rightarrow> string \<Rightarrow> string" where
  "or_str a b = (if a = [] then b else a)"

definition opt_str :: "string option \<Rightarrow> string" where
  "opt_str a = (case a of None \<Rightarrow> [] | Some s \<Rightarrow> s)"

subsection \<open>Insertion-ordered dictionaries\<close>

type_synonym ('k, 'v) dict = "('k \<times> 'v) list"

definition dict_get :: "('k, 'v) dict \<Rightarrow> 'k \<Rightarrow> 'v option" where
  "dict_get d k = map_of d k"

lemma set_update: "p \<in> set (AList.update k v d) \<Longrightarrow> p = (k, v) \<or> p \<in> set d"
  by (induction d) (auto split: if_splits)

text \<open>\<open>d.setdefault(k, []).append(v)\<close>.\<close>

definition dict_append :: "'k \<Rightarrow> 'v \<Rightarrow> ('k, 'v list) dict \<Rightarrow> ('k, 'v list) dict" where
  "dict_append k v d = AList.update k ((case map_of d k of None \<Rightarrow> [] | Some vs \<Rightarrow> vs) @ [v]) d"

text \<open>\<open>d[k] = d.get(k, 0) + n\<close>.\<close>

definition dict_add :: "'k \<Rightarrow> nat \<Rightarrow> ('k, nat) dict \<Rightarrow> ('k, nat) dict" where
  "dict_add k n d = AList.update k ((case map_of d k of None \<Rightarrow> 0 | Some c \<Rightarrow> c) + n) d"

fun group_by_key :: "('a \<Rightarrow> 'k) \<Rightarrow> 'a list \<Rightarrow> ('k, 'a list) dict \<Rightarrow> ('k, 'a list) dict" where
  "group_by_key f [] d = d"
| "group_by_key f (x # xs) d = group_by_key f xs (dict_append (f x) x d)"

lemma distinct_keys_dict_append [dict_simps]:
  "distinct (map fst d) \<Longrightarrow> distinct (map fst (dict_append k v d))"
  by (simp add: dict_append_def distinct_update)

lemma map_of_dict_append [dict_simps]:
  "map_of (dict_append k v d) j =
     (if j = k then Some ((case map_of d k of None \<Rightarrow> [] | Some vs \<Rightarrow> vs) @ [v]) else map_of d j)"
  by (simp add: dict_append_def update_conv')

lemma distinct_keys_group [dict_simps]:
  "distinct (map fst d) \<Longrightarrow> distinct (map fst (group_by_key f xs d))"
  by (induction xs arbitrary: d) (simp_all add: dict_simps)

lemma map_of_group_gen:
  "map_of (group_by_key f xs d) k =
     (case map_of d k of
        None \<Rightarrow> (if filter (\<lambda>x. f x = k) xs = [] then None else Some (filter (\<lambda>x. f x = k) xs))
      | Some vs \<Rightarrow> Some (vs @ filter (\<lambda>x. f x = k) xs))"
  by (induction xs arbitrary: d) (auto simp: dict_simps split: option.splits)

lemma map_of_group:
  "map_of (group_by_key f xs []) k =
     (if filter (\<lambda>x. f x = k) xs = [] then None else Some (filter (\<lambda>x. f x = k) xs))"
  by (simp add: map_of_group_gen)

lemma mem_group_iff:
  "(k, vs) \<in> set (group_by_key f xs []) \<longleftrightarrow> vs = filter (\<lambda>x. f x = k) xs \<and> vs \<noteq> []"
proof -
  have "(k, vs) \<in> set (group_by_key f xs []) \<longleftrightarrow> map_of (group_by_key f xs []) k = Some vs"
    using distinct_keys_group [of "[]" f xs] by (simp add: eq_commute)
  then show ?thesis by (auto simp: map_of_group split: if_splits)
qed

subsection \<open>\<open>max(xs, key=f)\<close> and stable sorting\<close>

text \<open>Python's \<open>max\<close> returns the first maximal element.\<close>

fun max_by_from :: "('a \<Rightarrow> 'b::linorder) \<Rightarrow> 'a \<Rightarrow> 'a list \<Rightarrow> 'a" where
  "max_by_from f m [] = m"
| "max_by_from f m (x # xs) = max_by_from f (if f m < f x then x else m) xs"

fun max_by :: "('a \<Rightarrow> 'b::linorder) \<Rightarrow> 'a list \<Rightarrow> 'a option" where
  "max_by f [] = None"
| "max_by f (x # xs) = Some (max_by_from f x xs)"

lemma max_by_from_mem: "max_by_from f m xs \<in> insert m (set xs)"
proof (induction xs arbitrary: m)
  case (Cons x xs)
  show ?case using Cons.IH [of "if f m < f x then x else m"] by (auto split: if_splits)
qed simp

lemma max_by_from_ge: "x \<in> insert m (set xs) \<Longrightarrow> f x \<le> f (max_by_from f m xs)"
proof (induction xs arbitrary: m x)
  case Nil
  then show ?case by simp
next
  case (Cons y ys)
  let ?m = "if f m < f y then y else m"
  have "f ?m \<le> f (max_by_from f ?m ys)" by (rule Cons.IH) simp
  moreover have "f m \<le> f ?m" "f y \<le> f ?m" by auto
  ultimately show ?case using Cons.IH [of x ?m] Cons.prems by (auto intro: order_trans)
qed

lemma max_by_Some: "max_by f xs = Some m \<Longrightarrow> m \<in> set xs \<and> (\<forall>x\<in>set xs. f x \<le> f m)"
proof (cases xs)
  case (Cons y ys)
  assume "max_by f xs = Some m"
  with Cons have m: "m = max_by_from f y ys" by simp
  then show ?thesis
    using Cons max_by_from_mem [of f y ys] max_by_from_ge [of _ y ys f] by auto
qed simp

lemma max_by_None [simp]: "max_by f xs = None \<longleftrightarrow> xs = []"
  by (cases xs) simp_all

text \<open>\<open>sorted(xs, key=f, reverse=True)\<close>: descending, equal keys in their original order.\<close>

definition sort_desc :: "('a \<Rightarrow> 'b::linorder) \<Rightarrow> 'a list \<Rightarrow> 'a list" where
  "sort_desc f xs = rev (sort_key f (rev xs))"

lemma mset_sort_desc [simp]: "mset (sort_desc f xs) = mset xs"
  by (simp add: sort_desc_def)

lemma set_sort_desc [simp]: "set (sort_desc f xs) = set xs"
  by (simp add: sort_desc_def)

lemma length_sort_desc [simp]: "length (sort_desc f xs) = length xs"
  by (simp add: sort_desc_def)

end
