(* ===== verification/PyFloat.thy ===== *)
theory PyFloat
  imports Prelude
begin

text \<open>
  \<open>float(s)\<close> on strings: a Python float is a real number, an infinity or NaN, and the parser follows
  the grammar of \<open>float()\<close> (surrounding white space, a sign, \<open>inf\<close>, \<open>infinity\<close> or \<open>nan\<close> in any case,
  digits with single underscores between them, a fraction, an exponent). A value is the exact decimal
  it denotes. The main lemma is the round trip with \<open>format(x, ".nf")\<close>.
\<close>

datatype pyfloat = Fin real | PInf | NInf | NaN

text \<open>Comparisons with a finite bound, false on NaN as in Python.\<close>

primrec float_le :: "pyfloat \<Rightarrow> real \<Rightarrow> bool" where
  "float_le (Fin r) c = (r \<le> c)"
| "float_le PInf c = False"
| "float_le NInf c = True"
| "float_le NaN c = False"

primrec float_gt :: "pyfloat \<Rightarrow> real \<Rightarrow> bool" where
  "float_gt (Fin r) c = (r > c)"
| "float_gt PInf c = True"
| "float_gt NInf c = False"
| "float_gt NaN c = False"

primrec float_neg :: "pyfloat \<Rightarrow> pyfloat" where
  "float_neg (Fin r) = Fin (- r)"
| "float_neg PInf = NInf"
| "float_neg NInf = PInf"
| "float_neg NaN = NaN"

text \<open>\<open>round(x, n)\<close> on a float: non-finite values round to themselves.\<close>

definition round_float :: "nat \<Rightarrow> pyfloat \<Rightarrow> pyfloat" where
  "round_float n x = (case x of Fin r \<Rightarrow> Fin (py_round n r) | _ \<Rightarrow> x)"

definition is_digit :: "char \<Rightarrow> bool" where
  "is_digit c = (48 \<le> (of_char c :: nat) \<and> (of_char c :: nat) \<le> 57)"

definition digit_val :: "char \<Rightarrow> nat" where
  "digit_val c = of_char c - 48"

definition nat_of_digits :: "string \<Rightarrow> nat" where
  "nat_of_digits s = foldl (\<lambda>a c. a * 10 + digit_val c) 0 s"

fun drop_underscores :: "bool \<Rightarrow> string \<Rightarrow> string option" where
  "drop_underscores p [] = Some []"
| "drop_underscores p (c # cs) =
     (if c = CHR ''_''
      then (case cs of
              [] \<Rightarrow> None
            | d # ds \<Rightarrow> if p \<and> is_digit d then drop_underscores False cs else None)
      else map_option ((#) c) (drop_underscores (is_digit c) cs))"

definition parse_exponent :: "real \<Rightarrow> string \<Rightarrow> real option" where
  "parse_exponent m s =
     (case s of
        [] \<Rightarrow> Some m
      | e # t \<Rightarrow>
          if e \<noteq> CHR ''e'' \<and> e \<noteq> CHR ''E'' then None
          else let (negative, ds) = (case t of
                     [] \<Rightarrow> (False, [])
                   | c # cs \<Rightarrow> if c = CHR ''-'' then (True, cs) else if c = CHR ''+'' then (False, cs) else (False, t))
               in if ds = [] \<or> \<not> list_all is_digit ds then None
                  else if negative then Some (m / 10 ^ nat_of_digits ds) else Some (m * 10 ^ nat_of_digits ds))"

definition parse_decimal :: "string \<Rightarrow> real option" where
  "parse_decimal s =
     (let ip = takeWhile is_digit s; r = dropWhile is_digit s;
          (fp, r2) = (case r of
             [] \<Rightarrow> ([], [])
           | c # cs \<Rightarrow> if c = CHR ''.'' then (takeWhile is_digit cs, dropWhile is_digit cs) else ([], r))
      in if ip = [] \<and> fp = [] then None
         else parse_exponent (of_nat (nat_of_digits (ip @ fp)) / 10 ^ length fp) r2)"

definition parse_unsigned :: "string \<Rightarrow> pyfloat option" where
  "parse_unsigned s =
     (if str_lower s = ''inf'' \<or> str_lower s = ''infinity'' then Some PInf
      else if str_lower s = ''nan'' then Some NaN
      else case drop_underscores False s of None \<Rightarrow> None | Some t \<Rightarrow> map_option Fin (parse_decimal t))"

definition parse_float :: "string \<Rightarrow> pyfloat option" where
  "parse_float s =
     (case strip s of
        [] \<Rightarrow> None
      | c # cs \<Rightarrow>
          if c = CHR ''-'' then map_option float_neg (parse_unsigned cs)
          else if c = CHR ''+'' then parse_unsigned cs
          else parse_unsigned (c # cs))"

subsection \<open>Digits\<close>

lemma digit_char_code: "n < 10 \<Longrightarrow> of_char (digit_char n) = (48 + n :: nat)"
  by (simp add: digit_char_def)

lemma is_digit_char [simp]: "n < 10 \<Longrightarrow> is_digit (digit_char n)"
  by (simp add: is_digit_def digit_char_code)

lemma digit_val_char [simp]: "n < 10 \<Longrightarrow> digit_val (digit_char n) = n"
  by (simp add: digit_val_def digit_char_code)

lemma nat_of_digits_snoc [simp]: "nat_of_digits (s @ [c]) = nat_of_digits s * 10 + digit_val c"
  by (simp add: nat_of_digits_def)

lemma nat_of_digits_Nil [simp]: "nat_of_digits [] = 0"
  by (simp add: nat_of_digits_def)

lemma show_nat_digits: "list_all is_digit (show_nat n) \<and> show_nat n \<noteq> [] \<and> nat_of_digits (show_nat n) = n"
proof (induction n rule: show_nat.induct)
  case (1 n)
  show ?case
  proof (cases "n < 10")
    case True
    then show ?thesis using nat_of_digits_snoc [of "[]" "digit_char n"] by (simp add: show_nat.simps [of n])
  next
    case False
    with 1 show ?thesis by (subst (1 2 3) show_nat.simps) (simp add: list_all_append)
  qed
qed

lemma pad_digits_length [simp]: "length (pad_digits d n) = d"
  by (induction d arbitrary: n) simp_all

lemma pad_digits_digits: "list_all is_digit (pad_digits d n)"
  by (induction d arbitrary: n) simp_all

lemma nat_of_digits_pad: "nat_of_digits (s @ pad_digits d n) = nat_of_digits s * 10 ^ d + n mod 10 ^ d"
proof (induction d arbitrary: n)
  case (Suc d)
  have "n mod (10 * 10 ^ d) = 10 * (n div 10 mod 10 ^ d) + n mod 10" by (simp add: mod_mult2_eq)
  then show ?case
    using nat_of_digits_snoc [of "s @ pad_digits d (n div 10)" "digit_char (n mod 10)"]
    by (simp add: Suc.IH algebra_simps)
qed simp

lemma nat_of_fixed: "nat_of_digits (show_nat (k div 10 ^ d) @ pad_digits d k) = k"
  unfolding nat_of_digits_pad using show_nat_digits [of "k div 10 ^ d"] div_mult_mod_eq [of k "10 ^ d"] by simp

subsection \<open>Round trip with the fixed-point format\<close>

lemma list_all_dropWhile: "list_all P s \<Longrightarrow> dropWhile P (s @ t) = dropWhile P t"
  by (induction s) auto

lemma list_all_takeWhile: "list_all P s \<Longrightarrow> takeWhile P (s @ t) = s @ takeWhile P t"
  by (induction s) auto

lemma digit_not_special: "is_digit c \<Longrightarrow> c \<noteq> CHR ''.'' \<and> c \<noteq> CHR ''_'' \<and> c \<noteq> CHR ''-'' \<and> c \<noteq> CHR ''+''
    \<and> \<not> is_space c \<and> lower_char c = c"
  by (auto simp: is_digit_def is_space_def lower_char_def Let_def)

lemma dot_facts [simp]: "\<not> is_digit (CHR ''.'')" "\<not> is_space (CHR ''.'')" "\<not> is_space (CHR ''-'')"
  by (simp_all add: is_digit_def is_space_def)

definition plain_char :: "char \<Rightarrow> bool" where "plain_char c = (is_digit c \<or> c = CHR ''.'')"

lemma plain_char_facts: "plain_char c \<Longrightarrow> c \<noteq> CHR ''_'' \<and> c \<noteq> CHR ''-'' \<and> c \<noteq> CHR ''+'' \<and> \<not> is_space c
    \<and> lower_char c \<noteq> CHR ''i'' \<and> lower_char c \<noteq> CHR ''n''"
  by (auto simp: plain_char_def is_digit_def is_space_def lower_char_def Let_def)

lemma drop_underscores_plain: "list_all plain_char s \<Longrightarrow> drop_underscores p s = Some s"
  by (induction s arbitrary: p) (auto dest: plain_char_facts)

lemma strip_id:
  assumes "s \<noteq> []" "\<not> is_space (hd s)" "\<not> is_space (last s)"
  shows "strip s = s"
proof -
  have "dropWhile is_space s = s" using assms(1,2) by (cases s) simp_all
  moreover have "dropWhile is_space (rev s) = rev s"
    using assms(1,3) by (cases "rev s") (auto simp: last_rev [symmetric] hd_rev)
  ultimately show ?thesis by (simp add: strip_def)
qed

definition fixed_body :: "nat \<Rightarrow> nat \<Rightarrow> string" where
  "fixed_body d k = show_nat (k div 10 ^ d) @ (if d = 0 then [] else ''.'' @ pad_digits d k)"

lemma fixed_body_plain: "list_all plain_char (fixed_body d k)" "fixed_body d k \<noteq> []"
  using show_nat_digits [of "k div 10 ^ d"] pad_digits_digits [of d k]
  by (auto simp: fixed_body_def plain_char_def list_all_iff)

lemma show_nat_scan [simp]:
  "takeWhile is_digit (show_nat n) = show_nat n" "dropWhile is_digit (show_nat n) = []"
  "takeWhile is_digit (show_nat n @ t) = show_nat n @ takeWhile is_digit t"
  "dropWhile is_digit (show_nat n @ t) = dropWhile is_digit t"
proof -
  note sn = show_nat_digits [of n, THEN conjunct1]
  show "takeWhile is_digit (show_nat n @ t) = show_nat n @ takeWhile is_digit t"
    "dropWhile is_digit (show_nat n @ t) = dropWhile is_digit t"
    by (rule list_all_takeWhile [OF sn], rule list_all_dropWhile [OF sn])
  show "takeWhile is_digit (show_nat n) = show_nat n" "dropWhile is_digit (show_nat n) = []"
    using list_all_takeWhile [OF sn, of "[]"] list_all_dropWhile [OF sn, of "[]"] by simp_all
qed

lemma pad_digits_scan [simp]:
  "takeWhile is_digit (pad_digits d k) = pad_digits d k" "dropWhile is_digit (pad_digits d k) = []"
  using list_all_takeWhile [OF pad_digits_digits, of d k "[]"] list_all_dropWhile [OF pad_digits_digits, of d k "[]"]
  by simp_all

lemma parse_decimal_fixed: "parse_decimal (fixed_body d k) = Some (of_nat k / 10 ^ d)"
proof -
  show ?thesis
  proof (cases "d = 0")
    case True
    then show ?thesis
      using show_nat_digits [of k] by (simp add: parse_decimal_def fixed_body_def parse_exponent_def Let_def)
  next
    case False
    then show ?thesis
      using show_nat_digits [of "k div 10 ^ d"] nat_of_fixed [of k d]
      by (simp add: parse_decimal_def fixed_body_def parse_exponent_def Let_def)
  qed
qed

lemma parse_unsigned_fixed: "parse_unsigned (fixed_body d k) = Some (Fin (of_nat k / 10 ^ d))"
proof -
  obtain c cs where c: "fixed_body d k = c # cs" using fixed_body_plain(2) by (cases "fixed_body d k") auto
  then have "plain_char c" using fixed_body_plain(1) [of d k] by simp
  then have "str_lower (fixed_body d k) \<notin> {''inf'', ''infinity'', ''nan''}"
    using plain_char_facts [of c] by (auto simp: c str_lower_def)
  then show ?thesis
    by (simp add: parse_unsigned_def drop_underscores_plain fixed_body_plain parse_decimal_fixed)
qed

lemma round_half_even_minus: "round_half_even (- x) = - round_half_even x"
proof (cases "x = of_int \<lfloor>x\<rfloor>")
  case True
  then show ?thesis by (metis of_int_minus round_half_even_of_int)
next
  case False
  define f where "f = \<lfloor>x\<rfloor>"
  have fl: "\<lfloor>- x\<rfloor> = - f - 1" using False unfolding f_def by linarith
  have "x - of_int f \<noteq> 0" "0 \<le> x - of_int f" using False by (simp_all add: f_def)
  then show ?thesis
    by (auto simp: round_half_even_def Let_def fl f_def [symmetric])
qed

lemma fmt_fixed_body:
  "fmt_fixed d x = (if x < 0 then ''-'' else []) @ fixed_body d (nat (round_half_even (\<bar>x\<bar> * 10 ^ d)))"
  by (simp add: fmt_fixed_def fixed_body_def Let_def)

lemma parse_fmt_fixed: "parse_float (fmt_fixed d x) = Some (Fin (py_round d x))"
proof -
  define k where "k = nat (round_half_even (\<bar>x\<bar> * 10 ^ d))"
  obtain c cs where c: "fixed_body d k = c # cs" using fixed_body_plain(2) by (cases "fixed_body d k") auto
  have plain: "list_all plain_char (c # cs)" using fixed_body_plain(1) [of d k] c by simp
  then have "plain_char (last (c # cs))" by (auto simp: list_all_iff)
  then have ends: "\<not> is_space (last (c # cs))" "\<not> is_space c" "c \<noteq> CHR ''-''" "c \<noteq> CHR ''+''"
    using plain plain_char_facts by auto
  have nn: "0 \<le> round_half_even (\<bar>x\<bar> * 10 ^ d)"
    using round_half_even_mono [of 0 "\<bar>x\<bar> * 10 ^ d"] by simp
  have pu: "parse_unsigned (c # cs) = Some (Fin (of_nat k / 10 ^ d))"
    using parse_unsigned_fixed [of d k] by (simp add: c)
  show ?thesis
  proof (cases "x < 0")
    case True
    have "strip (fmt_fixed d x) = CHR ''-'' # c # cs"
      unfolding fmt_fixed_body k_def [symmetric] c using True ends by (simp add: strip_id)
    moreover have "real k = - real_of_int (round_half_even (x * 10 ^ d))"
      using True nn round_half_even_minus [of "x * 10 ^ d"] by (simp add: k_def)
    ultimately show ?thesis by (simp add: parse_float_def pu py_round_def)
  next
    case False
    have "strip (fmt_fixed d x) = c # cs"
      unfolding fmt_fixed_body k_def [symmetric] c using False ends by (simp add: strip_id)
    then show ?thesis
      using False nn ends pu by (simp add: parse_float_def py_round_def) (simp add: k_def)
  qed
qed

text \<open>The format writes digits, a point and a minus sign, so cleaning it of anything else changes nothing.\<close>

lemma fmt_fixed_chars: "list_all (\<lambda>c. plain_char c \<or> c = CHR ''-'') (fmt_fixed d x)"
  using fixed_body_plain(1) by (auto simp: fmt_fixed_body list_all_iff)

lemma strip_no_space: "list_all (\<lambda>c. \<not> is_space c) s \<Longrightarrow> strip s = s"
proof -
  have drop: "dropWhile is_space xs = xs" if "\<forall>c\<in>set xs. \<not> is_space c" for xs using that by (cases xs) auto
  assume "list_all (\<lambda>c. \<not> is_space c) s"
  then show ?thesis using drop [of s] drop [of "rev s"] by (simp add: strip_def list_all_iff)
qed

lemma strip_fmt_fixed [simp]: "strip (fmt_fixed d x) = fmt_fixed d x"
  using fmt_fixed_chars [of d x] by (intro strip_no_space) (auto simp: list_all_iff plain_char_facts)

lemma replace_char_id: "c \<notin> set s \<Longrightarrow> replace_char c r s = s"
  by (induction s) (auto simp: replace_char_def)

lemma replace_fmt_fixed:
  assumes "\<not> is_digit c" "c \<noteq> CHR ''.''" "c \<noteq> CHR ''-''"
  shows "replace_char c r (fmt_fixed d x) = fmt_fixed d x"
proof (rule replace_char_id)
  show "c \<notin> set (fmt_fixed d x)"
    using fmt_fixed_chars [of d x] assms by (auto simp: list_all_iff plain_char_def)
qed

end
