(* ===== verification/Errors.thy ===== *)
theory Errors
  imports Prelude
begin

text \<open>
  The exceptions the backend raises: the \<open>AdoptimizerError\<close> hierarchy of \<open>core/errors.py\<close>, with the
  HTTP status and the stable error code each class carries, and the Python exceptions that the
  modelled code raises itself or lets through. Each exception carries its message; the \<open>detail\<close>
  and \<open>headers\<close> dictionaries, which only decorate the HTTP response, are left out.
\<close>

datatype py_error =
    AdoptimizerError string
  | NotFoundError string
  | ConflictError string
  | ValidationFailure string
  | AuthenticationError string
  | PermissionDeniedError string
  | RateLimitedError string
  | DependencyUnavailableError string
  | RunInProgressError string
  | BudgetExceededError string
  | ActionRequiresApprovalError string
  | ExternalServiceError string
  | ValueError string
  | AssertionError string
  | QueueFull
  | OtherError string string \<comment> \<open>an exception of a component outside the model: type name, message\<close>

text \<open>\<open>str(exc)\<close>.\<close>

fun error_message :: "py_error \<Rightarrow> string" where
  "error_message (AdoptimizerError m) = m"
| "error_message (NotFoundError m) = m"
| "error_message (ConflictError m) = m"
| "error_message (ValidationFailure m) = m"
| "error_message (AuthenticationError m) = m"
| "error_message (PermissionDeniedError m) = m"
| "error_message (RateLimitedError m) = m"
| "error_message (DependencyUnavailableError m) = m"
| "error_message (RunInProgressError m) = m"
| "error_message (BudgetExceededError m) = m"
| "error_message (ActionRequiresApprovalError m) = m"
| "error_message (ExternalServiceError m) = m"
| "error_message (ValueError m) = m"
| "error_message (AssertionError m) = m"
| "error_message QueueFull = []"
| "error_message (OtherError t m) = m"

text \<open>\<open>type(exc).__name__\<close>.\<close>

fun error_type_name :: "py_error \<Rightarrow> string" where
  "error_type_name (AdoptimizerError m) = ''AdoptimizerError''"
| "error_type_name (NotFoundError m) = ''NotFoundError''"
| "error_type_name (ConflictError m) = ''ConflictError''"
| "error_type_name (ValidationFailure m) = ''ValidationFailure''"
| "error_type_name (AuthenticationError m) = ''AuthenticationError''"
| "error_type_name (PermissionDeniedError m) = ''PermissionDeniedError''"
| "error_type_name (RateLimitedError m) = ''RateLimitedError''"
| "error_type_name (DependencyUnavailableError m) = ''DependencyUnavailableError''"
| "error_type_name (RunInProgressError m) = ''RunInProgressError''"
| "error_type_name (BudgetExceededError m) = ''BudgetExceededError''"
| "error_type_name (ActionRequiresApprovalError m) = ''ActionRequiresApprovalError''"
| "error_type_name (ExternalServiceError m) = ''ExternalServiceError''"
| "error_type_name (ValueError m) = ''ValueError''"
| "error_type_name (AssertionError m) = ''AssertionError''"
| "error_type_name QueueFull = ''QueueFull''"
| "error_type_name (OtherError t m) = t"

text \<open>
  \<open>status_code\<close> and \<open>error_code\<close> of the exceptions of the hierarchy; anything else is rendered by
  the catch-all handler as the base class.
\<close>

fun error_status_code :: "py_error \<Rightarrow> nat" where
  "error_status_code (NotFoundError m) = 404"
| "error_status_code (ConflictError m) = 409"
| "error_status_code (ValidationFailure m) = 422"
| "error_status_code (AuthenticationError m) = 401"
| "error_status_code (PermissionDeniedError m) = 403"
| "error_status_code (RateLimitedError m) = 429"
| "error_status_code (DependencyUnavailableError m) = 503"
| "error_status_code (RunInProgressError m) = 409"
| "error_status_code (BudgetExceededError m) = 402"
| "error_status_code (ActionRequiresApprovalError m) = 409"
| "error_status_code (ExternalServiceError m) = 502"
| "error_status_code _ = 500"

fun error_code :: "py_error \<Rightarrow> string" where
  "error_code (NotFoundError m) = ''not_found''"
| "error_code (ConflictError m) = ''conflict''"
| "error_code (ValidationFailure m) = ''validation_failed''"
| "error_code (AuthenticationError m) = ''unauthenticated''"
| "error_code (PermissionDeniedError m) = ''permission_denied''"
| "error_code (RateLimitedError m) = ''rate_limited''"
| "error_code (DependencyUnavailableError m) = ''dependency_unavailable''"
| "error_code (RunInProgressError m) = ''run_in_progress''"
| "error_code (BudgetExceededError m) = ''budget_exceeded''"
| "error_code (ActionRequiresApprovalError m) = ''approval_required''"
| "error_code (ExternalServiceError m) = ''external_service_error''"
| "error_code _ = ''internal_error''"

end
