(* ===== verification/Enums.thy ===== *)
theory Enums
  imports Prelude
begin

text \<open>
  The domain enumerations of \<open>domain/enums.py\<close>: one \<^theory_text>\<open>datatype\<close> per \<open>StrEnum\<close>, the member values
  (\<open>..._value\<close>), the list of members, and the constructor call \<open>E(s)\<close> (\<open>..._of\<close>), which finds the member with that value
  and is \<^const>\<open>None\<close> where Python raises \<open>ValueError\<close>.
\<close>

definition find_member :: "('e \<Rightarrow> string) \<Rightarrow> 'e list \<Rightarrow> string \<Rightarrow> 'e option" where
  "find_member val ms s = find (\<lambda>m. val m = s) ms"

lemma find_member_Some: "find_member val ms s = Some m \<Longrightarrow> val m = s \<and> m \<in> set ms"
  by (auto simp: find_member_def find_Some_iff)

subsection \<open>\<open>Platform\<close>\<close>

datatype platform =
  PLATFORM_GOOGLE | PLATFORM_META | PLATFORM_TIKTOK | PLATFORM_MOCK

primrec platform_value :: "platform \<Rightarrow> string" where
  "platform_value PLATFORM_GOOGLE = ''google''"
| "platform_value PLATFORM_META = ''meta''"
| "platform_value PLATFORM_TIKTOK = ''tiktok''"
| "platform_value PLATFORM_MOCK = ''mock''"

definition platform_members :: "platform list" where
  "platform_members = [PLATFORM_GOOGLE, PLATFORM_META, PLATFORM_TIKTOK, PLATFORM_MOCK]"

definition platform_of :: "string \<Rightarrow> platform option" where
  "platform_of s = find_member platform_value platform_members s"

lemma platform_of_value [simp]: "platform_of (platform_value m) = Some m"
  by (cases m) (simp_all add: platform_of_def find_member_def platform_members_def)

lemma platform_of_Some: "platform_of s = Some m \<Longrightarrow> s = platform_value m"
  unfolding platform_of_def using find_member_Some [of platform_value] by blast

lemma platform_value_inject [simp]: "platform_value a = platform_value b \<longleftrightarrow> a = b"
  by (metis platform_of_value option.inject)

lemma platform_members_all [simp]: "m \<in> set platform_members"
  by (cases m) (simp_all add: platform_members_def)

subsection \<open>\<open>CampaignStatus\<close>\<close>

datatype campaign_status =
  CAMPAIGN_ACTIVE | CAMPAIGN_PAUSED | CAMPAIGN_COMPLETED | CAMPAIGN_ARCHIVED

primrec campaign_status_value :: "campaign_status \<Rightarrow> string" where
  "campaign_status_value CAMPAIGN_ACTIVE = ''active''"
| "campaign_status_value CAMPAIGN_PAUSED = ''paused''"
| "campaign_status_value CAMPAIGN_COMPLETED = ''completed''"
| "campaign_status_value CAMPAIGN_ARCHIVED = ''archived''"

definition campaign_status_members :: "campaign_status list" where
  "campaign_status_members = [CAMPAIGN_ACTIVE, CAMPAIGN_PAUSED, CAMPAIGN_COMPLETED, CAMPAIGN_ARCHIVED]"

definition campaign_status_of :: "string \<Rightarrow> campaign_status option" where
  "campaign_status_of s = find_member campaign_status_value campaign_status_members s"

lemma campaign_status_of_value [simp]: "campaign_status_of (campaign_status_value m) = Some m"
  by (cases m) (simp_all add: campaign_status_of_def find_member_def campaign_status_members_def)

lemma campaign_status_of_Some: "campaign_status_of s = Some m \<Longrightarrow> s = campaign_status_value m"
  unfolding campaign_status_of_def using find_member_Some [of campaign_status_value] by blast

lemma campaign_status_value_inject [simp]: "campaign_status_value a = campaign_status_value b \<longleftrightarrow> a = b"
  by (metis campaign_status_of_value option.inject)

lemma campaign_status_members_all [simp]: "m \<in> set campaign_status_members"
  by (cases m) (simp_all add: campaign_status_members_def)

subsection \<open>\<open>CreativeStatus\<close>\<close>

datatype creative_status =
  CREATIVE_DRAFT | CREATIVE_ACTIVE | CREATIVE_PAUSED | CREATIVE_REJECTED

primrec creative_status_value :: "creative_status \<Rightarrow> string" where
  "creative_status_value CREATIVE_DRAFT = ''draft''"
| "creative_status_value CREATIVE_ACTIVE = ''active''"
| "creative_status_value CREATIVE_PAUSED = ''paused''"
| "creative_status_value CREATIVE_REJECTED = ''rejected''"

definition creative_status_members :: "creative_status list" where
  "creative_status_members = [CREATIVE_DRAFT, CREATIVE_ACTIVE, CREATIVE_PAUSED, CREATIVE_REJECTED]"

definition creative_status_of :: "string \<Rightarrow> creative_status option" where
  "creative_status_of s = find_member creative_status_value creative_status_members s"

lemma creative_status_of_value [simp]: "creative_status_of (creative_status_value m) = Some m"
  by (cases m) (simp_all add: creative_status_of_def find_member_def creative_status_members_def)

lemma creative_status_of_Some: "creative_status_of s = Some m \<Longrightarrow> s = creative_status_value m"
  unfolding creative_status_of_def using find_member_Some [of creative_status_value] by blast

lemma creative_status_value_inject [simp]: "creative_status_value a = creative_status_value b \<longleftrightarrow> a = b"
  by (metis creative_status_of_value option.inject)

lemma creative_status_members_all [simp]: "m \<in> set creative_status_members"
  by (cases m) (simp_all add: creative_status_members_def)

subsection \<open>\<open>AgentName\<close>\<close>

datatype agent_name =
  AGENT_MONITOR | AGENT_AUDIENCE | AGENT_CREATIVE | AGENT_BIDDING | AGENT_OPTIMIZE |
  AGENT_CRITIC

primrec agent_name_value :: "agent_name \<Rightarrow> string" where
  "agent_name_value AGENT_MONITOR = ''monitor''"
| "agent_name_value AGENT_AUDIENCE = ''audience''"
| "agent_name_value AGENT_CREATIVE = ''creative''"
| "agent_name_value AGENT_BIDDING = ''bidding''"
| "agent_name_value AGENT_OPTIMIZE = ''optimize''"
| "agent_name_value AGENT_CRITIC = ''critic''"

definition agent_name_members :: "agent_name list" where
  "agent_name_members = [AGENT_MONITOR, AGENT_AUDIENCE, AGENT_CREATIVE, AGENT_BIDDING, AGENT_OPTIMIZE,
     AGENT_CRITIC]"

definition agent_name_of :: "string \<Rightarrow> agent_name option" where
  "agent_name_of s = find_member agent_name_value agent_name_members s"

lemma agent_name_of_value [simp]: "agent_name_of (agent_name_value m) = Some m"
  by (cases m) (simp_all add: agent_name_of_def find_member_def agent_name_members_def)

lemma agent_name_of_Some: "agent_name_of s = Some m \<Longrightarrow> s = agent_name_value m"
  unfolding agent_name_of_def using find_member_Some [of agent_name_value] by blast

lemma agent_name_value_inject [simp]: "agent_name_value a = agent_name_value b \<longleftrightarrow> a = b"
  by (metis agent_name_of_value option.inject)

lemma agent_name_members_all [simp]: "m \<in> set agent_name_members"
  by (cases m) (simp_all add: agent_name_members_def)

subsection \<open>\<open>RunStatus\<close>\<close>

datatype run_status =
  RUN_PENDING | RUN_RUNNING | RUN_SUCCEEDED | RUN_FAILED | RUN_CANCELLED

primrec run_status_value :: "run_status \<Rightarrow> string" where
  "run_status_value RUN_PENDING = ''pending''"
| "run_status_value RUN_RUNNING = ''running''"
| "run_status_value RUN_SUCCEEDED = ''succeeded''"
| "run_status_value RUN_FAILED = ''failed''"
| "run_status_value RUN_CANCELLED = ''cancelled''"

definition run_status_members :: "run_status list" where
  "run_status_members = [RUN_PENDING, RUN_RUNNING, RUN_SUCCEEDED, RUN_FAILED, RUN_CANCELLED]"

definition run_status_of :: "string \<Rightarrow> run_status option" where
  "run_status_of s = find_member run_status_value run_status_members s"

lemma run_status_of_value [simp]: "run_status_of (run_status_value m) = Some m"
  by (cases m) (simp_all add: run_status_of_def find_member_def run_status_members_def)

lemma run_status_of_Some: "run_status_of s = Some m \<Longrightarrow> s = run_status_value m"
  unfolding run_status_of_def using find_member_Some [of run_status_value] by blast

lemma run_status_value_inject [simp]: "run_status_value a = run_status_value b \<longleftrightarrow> a = b"
  by (metis run_status_of_value option.inject)

lemma run_status_members_all [simp]: "m \<in> set run_status_members"
  by (cases m) (simp_all add: run_status_members_def)

definition is_terminal :: "run_status \<Rightarrow> bool" where
  "is_terminal s = (s \<in> {RUN_SUCCEEDED, RUN_FAILED, RUN_CANCELLED})"

lemma is_terminal_simps [simp]:
  "\<not> is_terminal RUN_PENDING" "\<not> is_terminal RUN_RUNNING"
  "is_terminal RUN_SUCCEEDED" "is_terminal RUN_FAILED" "is_terminal RUN_CANCELLED"
  by (simp_all add: is_terminal_def)

subsection \<open>\<open>ActionType\<close>\<close>

datatype action_type =
  PAUSE_CREATIVE | RESUME_CREATIVE | ADJUST_BUDGET | ADJUST_BID | PAUSE_CAMPAIGN |
  RESUME_CAMPAIGN | REFRESH_CREATIVE | START_AB_TEST | STOP_AB_TEST | EXPAND_AUDIENCE

primrec action_type_value :: "action_type \<Rightarrow> string" where
  "action_type_value PAUSE_CREATIVE = ''pause_creative''"
| "action_type_value RESUME_CREATIVE = ''resume_creative''"
| "action_type_value ADJUST_BUDGET = ''adjust_budget''"
| "action_type_value ADJUST_BID = ''adjust_bid''"
| "action_type_value PAUSE_CAMPAIGN = ''pause_campaign''"
| "action_type_value RESUME_CAMPAIGN = ''resume_campaign''"
| "action_type_value REFRESH_CREATIVE = ''refresh_creative''"
| "action_type_value START_AB_TEST = ''start_ab_test''"
| "action_type_value STOP_AB_TEST = ''stop_ab_test''"
| "action_type_value EXPAND_AUDIENCE = ''expand_audience''"

definition action_type_members :: "action_type list" where
  "action_type_members = [PAUSE_CREATIVE, RESUME_CREATIVE, ADJUST_BUDGET, ADJUST_BID, PAUSE_CAMPAIGN,
     RESUME_CAMPAIGN, REFRESH_CREATIVE, START_AB_TEST, STOP_AB_TEST, EXPAND_AUDIENCE]"

definition action_type_of :: "string \<Rightarrow> action_type option" where
  "action_type_of s = find_member action_type_value action_type_members s"

lemma action_type_of_value [simp]: "action_type_of (action_type_value m) = Some m"
  by (cases m) (simp_all add: action_type_of_def find_member_def action_type_members_def)

lemma action_type_of_Some: "action_type_of s = Some m \<Longrightarrow> s = action_type_value m"
  unfolding action_type_of_def using find_member_Some [of action_type_value] by blast

lemma action_type_value_inject [simp]: "action_type_value a = action_type_value b \<longleftrightarrow> a = b"
  by (metis action_type_of_value option.inject)

lemma action_type_members_all [simp]: "m \<in> set action_type_members"
  by (cases m) (simp_all add: action_type_members_def)

subsection \<open>\<open>ActionStatus\<close>\<close>

datatype action_status =
  ACTION_PROPOSED | ACTION_APPROVED | ACTION_REJECTED | ACTION_EXECUTED | ACTION_FAILED |
  ACTION_SKIPPED | ACTION_SUPPRESSED

primrec action_status_value :: "action_status \<Rightarrow> string" where
  "action_status_value ACTION_PROPOSED = ''proposed''"
| "action_status_value ACTION_APPROVED = ''approved''"
| "action_status_value ACTION_REJECTED = ''rejected''"
| "action_status_value ACTION_EXECUTED = ''executed''"
| "action_status_value ACTION_FAILED = ''failed''"
| "action_status_value ACTION_SKIPPED = ''skipped''"
| "action_status_value ACTION_SUPPRESSED = ''suppressed''"

definition action_status_members :: "action_status list" where
  "action_status_members = [ACTION_PROPOSED, ACTION_APPROVED, ACTION_REJECTED, ACTION_EXECUTED, ACTION_FAILED,
     ACTION_SKIPPED, ACTION_SUPPRESSED]"

definition action_status_of :: "string \<Rightarrow> action_status option" where
  "action_status_of s = find_member action_status_value action_status_members s"

lemma action_status_of_value [simp]: "action_status_of (action_status_value m) = Some m"
  by (cases m) (simp_all add: action_status_of_def find_member_def action_status_members_def)

lemma action_status_of_Some: "action_status_of s = Some m \<Longrightarrow> s = action_status_value m"
  unfolding action_status_of_def using find_member_Some [of action_status_value] by blast

lemma action_status_value_inject [simp]: "action_status_value a = action_status_value b \<longleftrightarrow> a = b"
  by (metis action_status_of_value option.inject)

lemma action_status_members_all [simp]: "m \<in> set action_status_members"
  by (cases m) (simp_all add: action_status_members_def)

subsection \<open>\<open>AlertRule\<close>\<close>

datatype alert_rule =
  LOW_CTR | HIGH_CPA | LOW_ROAS | BURN_RATE | IMPRESSION_COLLAPSE | FREQUENCY_FATIGUE

primrec alert_rule_value :: "alert_rule \<Rightarrow> string" where
  "alert_rule_value LOW_CTR = ''low_ctr''"
| "alert_rule_value HIGH_CPA = ''high_cpa''"
| "alert_rule_value LOW_ROAS = ''low_roas''"
| "alert_rule_value BURN_RATE = ''burn_rate''"
| "alert_rule_value IMPRESSION_COLLAPSE = ''impression_collapse''"
| "alert_rule_value FREQUENCY_FATIGUE = ''frequency_fatigue''"

definition alert_rule_members :: "alert_rule list" where
  "alert_rule_members = [LOW_CTR, HIGH_CPA, LOW_ROAS, BURN_RATE, IMPRESSION_COLLAPSE, FREQUENCY_FATIGUE]"

definition alert_rule_of :: "string \<Rightarrow> alert_rule option" where
  "alert_rule_of s = find_member alert_rule_value alert_rule_members s"

lemma alert_rule_of_value [simp]: "alert_rule_of (alert_rule_value m) = Some m"
  by (cases m) (simp_all add: alert_rule_of_def find_member_def alert_rule_members_def)

lemma alert_rule_of_Some: "alert_rule_of s = Some m \<Longrightarrow> s = alert_rule_value m"
  unfolding alert_rule_of_def using find_member_Some [of alert_rule_value] by blast

lemma alert_rule_value_inject [simp]: "alert_rule_value a = alert_rule_value b \<longleftrightarrow> a = b"
  by (metis alert_rule_of_value option.inject)

lemma alert_rule_members_all [simp]: "m \<in> set alert_rule_members"
  by (cases m) (simp_all add: alert_rule_members_def)

subsection \<open>\<open>AlertSeverity\<close>\<close>

datatype alert_severity =
  SEVERITY_INFO | SEVERITY_WARNING | SEVERITY_CRITICAL

primrec alert_severity_value :: "alert_severity \<Rightarrow> string" where
  "alert_severity_value SEVERITY_INFO = ''info''"
| "alert_severity_value SEVERITY_WARNING = ''warning''"
| "alert_severity_value SEVERITY_CRITICAL = ''critical''"

definition alert_severity_members :: "alert_severity list" where
  "alert_severity_members = [SEVERITY_INFO, SEVERITY_WARNING, SEVERITY_CRITICAL]"

definition alert_severity_of :: "string \<Rightarrow> alert_severity option" where
  "alert_severity_of s = find_member alert_severity_value alert_severity_members s"

lemma alert_severity_of_value [simp]: "alert_severity_of (alert_severity_value m) = Some m"
  by (cases m) (simp_all add: alert_severity_of_def find_member_def alert_severity_members_def)

lemma alert_severity_of_Some: "alert_severity_of s = Some m \<Longrightarrow> s = alert_severity_value m"
  unfolding alert_severity_of_def using find_member_Some [of alert_severity_value] by blast

lemma alert_severity_value_inject [simp]: "alert_severity_value a = alert_severity_value b \<longleftrightarrow> a = b"
  by (metis alert_severity_of_value option.inject)

lemma alert_severity_members_all [simp]: "m \<in> set alert_severity_members"
  by (cases m) (simp_all add: alert_severity_members_def)

text \<open>
  Severities are ordered by urgency, the most severe first: the order in which the code sorts
  alerts and keeps one of two duplicates.
\<close>

primrec urgency_index :: "alert_severity \<Rightarrow> nat" where
  "urgency_index SEVERITY_CRITICAL = 0"
| "urgency_index SEVERITY_WARNING = 1"
| "urgency_index SEVERITY_INFO = 2"

instantiation alert_severity :: linorder
begin

definition less_eq_alert_severity :: "alert_severity \<Rightarrow> alert_severity \<Rightarrow> bool" where
  "less_eq_alert_severity a b = (urgency_index a \<le> urgency_index b)"

definition less_alert_severity :: "alert_severity \<Rightarrow> alert_severity \<Rightarrow> bool" where
  "less_alert_severity a b = (urgency_index a < urgency_index b)"

instance
proof
  fix a b :: alert_severity
  show "a \<le> b \<Longrightarrow> b \<le> a \<Longrightarrow> a = b"
    by (cases a; cases b) (simp_all add: less_eq_alert_severity_def)
qed (auto simp: less_eq_alert_severity_def less_alert_severity_def)

end

subsection \<open>\<open>AlertStatus\<close>\<close>

datatype alert_status =
  ALERT_OPEN | ALERT_ACKNOWLEDGED | ALERT_RESOLVED

primrec alert_status_value :: "alert_status \<Rightarrow> string" where
  "alert_status_value ALERT_OPEN = ''open''"
| "alert_status_value ALERT_ACKNOWLEDGED = ''acknowledged''"
| "alert_status_value ALERT_RESOLVED = ''resolved''"

definition alert_status_members :: "alert_status list" where
  "alert_status_members = [ALERT_OPEN, ALERT_ACKNOWLEDGED, ALERT_RESOLVED]"

definition alert_status_of :: "string \<Rightarrow> alert_status option" where
  "alert_status_of s = find_member alert_status_value alert_status_members s"

lemma alert_status_of_value [simp]: "alert_status_of (alert_status_value m) = Some m"
  by (cases m) (simp_all add: alert_status_of_def find_member_def alert_status_members_def)

lemma alert_status_of_Some: "alert_status_of s = Some m \<Longrightarrow> s = alert_status_value m"
  unfolding alert_status_of_def using find_member_Some [of alert_status_value] by blast

lemma alert_status_value_inject [simp]: "alert_status_value a = alert_status_value b \<longleftrightarrow> a = b"
  by (metis alert_status_of_value option.inject)

lemma alert_status_members_all [simp]: "m \<in> set alert_status_members"
  by (cases m) (simp_all add: alert_status_members_def)

subsection \<open>\<open>Role\<close>\<close>

datatype role =
  ROLE_ADMIN | ROLE_OPTIMIZER | ROLE_ANALYST | ROLE_VIEWER | ROLE_INGESTOR

primrec role_value :: "role \<Rightarrow> string" where
  "role_value ROLE_ADMIN = ''admin''"
| "role_value ROLE_OPTIMIZER = ''optimizer''"
| "role_value ROLE_ANALYST = ''analyst''"
| "role_value ROLE_VIEWER = ''viewer''"
| "role_value ROLE_INGESTOR = ''ingestor''"

definition role_members :: "role list" where
  "role_members = [ROLE_ADMIN, ROLE_OPTIMIZER, ROLE_ANALYST, ROLE_VIEWER, ROLE_INGESTOR]"

definition role_of :: "string \<Rightarrow> role option" where
  "role_of s = find_member role_value role_members s"

lemma role_of_value [simp]: "role_of (role_value m) = Some m"
  by (cases m) (simp_all add: role_of_def find_member_def role_members_def)

lemma role_of_Some: "role_of s = Some m \<Longrightarrow> s = role_value m"
  unfolding role_of_def using find_member_Some [of role_value] by blast

lemma role_value_inject [simp]: "role_value a = role_value b \<longleftrightarrow> a = b"
  by (metis role_of_value option.inject)

lemma role_members_all [simp]: "m \<in> set role_members"
  by (cases m) (simp_all add: role_members_def)

subsection \<open>\<open>Permission\<close>\<close>

datatype permission =
  PERM_CAMPAIGN_READ | PERM_CAMPAIGN_WRITE | PERM_RUN_READ | PERM_RUN_TRIGGER |
  PERM_ACTION_APPROVE | PERM_ACTION_EXECUTE | PERM_ALERT_READ | PERM_ALERT_ACK |
  PERM_CREATIVE_WRITE | PERM_METRICS_READ | PERM_METRICS_WRITE | PERM_USER_MANAGE |
  PERM_AUDIT_READ | PERM_SYSTEM_READ

primrec permission_value :: "permission \<Rightarrow> string" where
  "permission_value PERM_CAMPAIGN_READ = ''campaign:read''"
| "permission_value PERM_CAMPAIGN_WRITE = ''campaign:write''"
| "permission_value PERM_RUN_READ = ''run:read''"
| "permission_value PERM_RUN_TRIGGER = ''run:trigger''"
| "permission_value PERM_ACTION_APPROVE = ''action:approve''"
| "permission_value PERM_ACTION_EXECUTE = ''action:execute''"
| "permission_value PERM_ALERT_READ = ''alert:read''"
| "permission_value PERM_ALERT_ACK = ''alert:ack''"
| "permission_value PERM_CREATIVE_WRITE = ''creative:write''"
| "permission_value PERM_METRICS_READ = ''metrics:read''"
| "permission_value PERM_METRICS_WRITE = ''metrics:write''"
| "permission_value PERM_USER_MANAGE = ''user:manage''"
| "permission_value PERM_AUDIT_READ = ''audit:read''"
| "permission_value PERM_SYSTEM_READ = ''system:read''"

definition permission_members :: "permission list" where
  "permission_members = [PERM_CAMPAIGN_READ, PERM_CAMPAIGN_WRITE, PERM_RUN_READ, PERM_RUN_TRIGGER,
     PERM_ACTION_APPROVE, PERM_ACTION_EXECUTE, PERM_ALERT_READ, PERM_ALERT_ACK,
     PERM_CREATIVE_WRITE, PERM_METRICS_READ, PERM_METRICS_WRITE, PERM_USER_MANAGE,
     PERM_AUDIT_READ, PERM_SYSTEM_READ]"

definition permission_of :: "string \<Rightarrow> permission option" where
  "permission_of s = find_member permission_value permission_members s"

lemma permission_of_value [simp]: "permission_of (permission_value m) = Some m"
  by (cases m) (simp_all add: permission_of_def find_member_def permission_members_def)

lemma permission_of_Some: "permission_of s = Some m \<Longrightarrow> s = permission_value m"
  unfolding permission_of_def using find_member_Some [of permission_value] by blast

lemma permission_value_inject [simp]: "permission_value a = permission_value b \<longleftrightarrow> a = b"
  by (metis permission_of_value option.inject)

lemma permission_members_all [simp]: "m \<in> set permission_members"
  by (cases m) (simp_all add: permission_members_def)

end
