(* ===== verification/Statistics.thy ===== *)
theory Statistics
  imports Prelude Errors
begin

text \<open>
  \<open>domain/statistics.py\<close>: the estimators the agents share. \<open>clamp\<close> and \<open>estimate_rate\<close> raise
  \<open>ValueError\<close>, so they return a result; \<open>clamp_ok\<close> is the value of a call whose bounds are in order
  (lemma \<open>clamp_eq\<close>), which is how the callers with literal bounds use it. The lemmas bound every
  estimator: the Wilson interval encloses the observed rate and stays in the unit interval, the
  shrunk rate lies between its prior and the observation.
\<close>

definition Z_95 :: real where
  "Z_95 = 1.959963984540054"

definition estimate_rate :: "real \<Rightarrow> real \<Rightarrow> real \<Rightarrow> real \<Rightarrow> (py_error, real) res" where
  "estimate_rate successes trials prior_mean prior_strength =
     (if trials < 0 \<or> prior_strength < 0
      then Inl (ValueError ''trials and prior_strength must be non-negative'')
      else let denominator = trials + prior_strength
           in if denominator \<le> 0 then Inr prior_mean
              else Inr ((successes + prior_strength * prior_mean) / denominator))"

definition safe_ratio :: "real \<Rightarrow> real \<Rightarrow> real" where
  "safe_ratio numerator denominator = (if denominator = 0 then 0 else numerator / denominator)"

record wilson =
  w_lower :: real
  w_upper :: real
  w_point :: real

definition wilson_width :: "wilson \<Rightarrow> real" where
  "wilson_width w = w_upper w - w_lower w"

definition wilson_interval :: "int \<Rightarrow> int \<Rightarrow> real \<Rightarrow> real \<Rightarrow> wilson" where
  "wilson_interval successes trials z prior =
     (if trials \<le> 0 then \<lparr>w_lower = prior, w_upper = prior, w_point = prior\<rparr>
      else let s = real_of_int successes; n = real_of_int trials;
               z2 = z * z;
               centre = s + z2 / 2;
               denominator = n + z2;
               spread = z * sqrt (max (s * (n - s) / n + z2 / 4) 0)
           in \<lparr>w_lower = max 0 ((centre - spread) / denominator),
               w_upper = min 1 ((centre + spread) / denominator),
               w_point = s / n\<rparr>)"

definition is_significantly_better :: "int \<Rightarrow> int \<Rightarrow> int \<Rightarrow> int \<Rightarrow> real \<Rightarrow> bool" where
  "is_significantly_better winner_successes winner_trials loser_successes loser_trials z =
     (if winner_trials \<le> 0 \<or> loser_trials \<le> 0 then False
      else let ws = real_of_int winner_successes; wt = real_of_int winner_trials;
               ls = real_of_int loser_successes; lt = real_of_int loser_trials;
               p1 = ws / wt; p2 = ls / lt;
               pooled = (ws + ls) / (wt + lt)
           in if pooled = 0 \<or> pooled = 1 then False
              else let se = sqrt (pooled * (1 - pooled) * (1 / wt + 1 / lt))
                   in if se = 0 then False else (p1 - p2) / se > z)"

definition required_sample_size :: "real \<Rightarrow> real \<Rightarrow> real \<Rightarrow> int" where
  "required_sample_size baseline_rate minimum_detectable_effect z =
     (if baseline_rate \<le> 0 \<or> minimum_detectable_effect \<le> 0 then 0
      else let p1 = baseline_rate;
               p2 = baseline_rate * (1 + minimum_detectable_effect)
           in if 1 \<le> p2 then 0
              else let p_bar = (p1 + p2) / 2;
                       z_beta = 0.8416212335729143;
                       numerator = (z * sqrt (2 * p_bar * (1 - p_bar))
                         + z_beta * sqrt (p1 * (1 - p1) + p2 * (1 - p2))) ^ 2
                   in \<lceil>numerator / (p2 - p1) ^ 2\<rceil>)"

definition clamp :: "real \<Rightarrow> real \<Rightarrow> real \<Rightarrow> (py_error, real) res" where
  "clamp value low high =
     (if low > high then Inl (ValueError ''low must not exceed high'')
      else Inr (max low (min high value)))"

definition clamp_ok :: "real \<Rightarrow> real \<Rightarrow> real \<Rightarrow> real" where
  "clamp_ok value low high = max low (min high value)"

lemma clamp_eq: "low \<le> high \<Longrightarrow> clamp value low high = Inr (clamp_ok value low high)"
  by (simp add: clamp_def clamp_ok_def)

lemma clamp_Inr_iff:
  "clamp value low high = Inr r \<longleftrightarrow> low \<le> high \<and> r = clamp_ok value low high"
  by (auto simp: clamp_def clamp_ok_def)

lemma clamp_ok_bounds: "low \<le> high \<Longrightarrow> low \<le> clamp_ok v low high \<and> clamp_ok v low high \<le> high"
  by (simp add: clamp_ok_def)

lemma clamp_ok_unit: "0 \<le> clamp_ok v 0 1" "clamp_ok v 0 1 \<le> 1"
  by (simp_all add: clamp_ok_def)

lemma clamp_ok_id: "low \<le> v \<Longrightarrow> v \<le> high \<Longrightarrow> clamp_ok v low high = v"
  by (simp add: clamp_ok_def)

lemma clamp_ok_mono: "v \<le> w \<Longrightarrow> clamp_ok v low high \<le> clamp_ok w low high"
  by (simp add: clamp_ok_def)

lemma safe_ratio_nonneg: "0 \<le> a \<Longrightarrow> 0 \<le> b \<Longrightarrow> 0 \<le> safe_ratio a b"
  by (simp add: safe_ratio_def)

lemma safe_ratio_le_1: "0 \<le> a \<Longrightarrow> a \<le> b \<Longrightarrow> safe_ratio a b \<le> 1"
  by (simp add: safe_ratio_def divide_le_eq_1)

subsection \<open>The Wilson interval\<close>

lemma wilson_spread_covers:
  fixes s n z :: real
  assumes "0 \<le> s" "s \<le> n" "0 < n" "0 \<le> z"
  shows "z * \<bar>n / 2 - s\<bar> \<le> n * sqrt (s * (n - s) / n + z * z / 4)"
proof -
  have "(z * \<bar>n / 2 - s\<bar>)\<^sup>2 = z\<^sup>2 * n\<^sup>2 / 4 - z\<^sup>2 * (s * (n - s))"
    by (simp add: power2_eq_square field_simps)
  also have "\<dots> \<le> n\<^sup>2 * (s * (n - s) / n + z * z / 4)"
  proof -
    have "n\<^sup>2 * (s * (n - s) / n) = n * (s * (n - s))" using assms by (simp add: power2_eq_square)
    moreover have "0 \<le> n * (s * (n - s))" "0 \<le> z\<^sup>2 * (s * (n - s))" using assms by simp_all
    ultimately show ?thesis by (simp add: algebra_simps power2_eq_square)
  qed
  finally have "\<bar>z * \<bar>n / 2 - s\<bar>\<bar> \<le> sqrt (n\<^sup>2 * (s * (n - s) / n + z * z / 4))"
    by (rule real_le_rsqrt [of "\<bar>z * \<bar>n / 2 - s\<bar>\<bar>", simplified])
  then show ?thesis using assms by (simp add: real_sqrt_mult)
qed

lemma wilson_interval_encloses:
  fixes s n :: int and z p :: real
  assumes "0 \<le> s" "s \<le> n" "0 < n" "0 \<le> z"
  defines "w \<equiv> wilson_interval s n z p"
  shows "0 \<le> w_lower w \<and> w_lower w \<le> w_point w \<and> w_point w \<le> w_upper w \<and> w_upper w \<le> 1"
proof -
  let ?s = "real_of_int s" and ?n = "real_of_int n"
  have b: "0 \<le> ?s" "?s \<le> ?n" "0 < ?n" using assms by simp_all
  let ?r = "sqrt (?s * (?n - ?s) / ?n + z * z / 4)"
  have rad: "0 \<le> ?s * (?n - ?s) / ?n + z * z / 4" using b by simp
  have d: "0 < ?n + z * z" using b by (simp add: add_pos_nonneg)
  have cover: "z * \<bar>?n / 2 - ?s\<bar> \<le> ?n * ?r" using wilson_spread_covers b assms(4) by blast
  have zc: "z * (z * \<bar>?n / 2 - ?s\<bar>) \<le> z * (?n * ?r)" using cover assms(4) by (rule mult_left_mono)
  have le: "z * (z * (?n / 2 - ?s)) \<le> z * (z * \<bar>?n / 2 - ?s\<bar>)"
    "z * (z * (?s - ?n / 2)) \<le> z * (z * \<bar>?n / 2 - ?s\<bar>)" using assms(4)
    by (simp_all add: mult_left_mono)
  have "(?s + z * z / 2 - z * ?r) / (?n + z * z) \<le> ?s / ?n"
    using zc le(1) b d by (simp add: divide_simps) (simp add: algebra_simps)
  moreover have "?s / ?n \<le> (?s + z * z / 2 + z * ?r) / (?n + z * z)"
    using zc le(2) b d by (simp add: divide_simps) (simp add: algebra_simps)
  moreover have "0 \<le> ?s / ?n" "?s / ?n \<le> 1" using b by simp_all
  ultimately show ?thesis
    using assms(3) rad by (simp add: w_def wilson_interval_def Let_def)
qed

lemma wilson_lower_all_successes:
  assumes "0 < n" "0 \<le> z"
  shows "w_lower (wilson_interval n n z p) = real_of_int n / (real_of_int n + z * z)"
proof -
  have root: "sqrt (z * z / 4) = z / 2" using assms(2) by (simp add: real_sqrt_divide)
  show ?thesis using assms by (simp add: wilson_interval_def Let_def root)
qed

subsection \<open>The shrunk rate\<close>

lemma estimate_rate_between:
  assumes "0 < trials" "0 \<le> strength"
  shows "\<exists>r. estimate_rate successes trials prior strength = Inr r
    \<and> min prior (successes / trials) \<le> r \<and> r \<le> max prior (successes / trials)"
proof -
  define obs where "obs = successes / trials"
  have eq: "successes = trials * obs" using assms by (simp add: obs_def)
  have pos: "0 < trials + strength" using assms by simp
  have "(trials + strength) * min prior obs \<le> trials * obs + strength * prior"
    using assms by (simp only: distrib_right) (intro add_mono mult_left_mono, auto)
  moreover have "trials * obs + strength * prior \<le> (trials + strength) * max prior obs"
    using assms by (simp only: distrib_right) (intro add_mono mult_left_mono, auto)
  ultimately show ?thesis
    unfolding obs_def [symmetric]
    using assms pos by (auto simp: eq estimate_rate_def le_divide_eq divide_le_eq mult.commute)
qed

subsection \<open>The significance test\<close>

lemma is_significantly_better_asym:
  assumes "0 \<le> z" "is_significantly_better a m b n z"
  shows "\<not> is_significantly_better b n a m z"
proof
  assume rev: "is_significantly_better b n a m z"
  define q where "q = (real_of_int a + real_of_int b) / (real_of_int m + real_of_int n)"
  define se where "se = sqrt (q * (1 - q) * (1 / real_of_int m + 1 / real_of_int n))"
  let ?d = "real_of_int a / real_of_int m - real_of_int b / real_of_int n"
  from assms(2) have "?d / se > z"
    by (auto simp: is_significantly_better_def Let_def se_def q_def split: if_splits)
  moreover from rev have "- ?d / se > z"
    by (auto simp: is_significantly_better_def Let_def se_def q_def add.commute split: if_splits)
  ultimately show False using assms(1) by simp
qed

lemma required_sample_size_nonneg: "0 \<le> required_sample_size b m z"
proof -
  have "(0::real) \<le> x ^ 2 / y ^ 2" for x y :: real by simp
  then have "0 \<le> \<lceil>x ^ 2 / y ^ 2\<rceil>" for x y :: real
    by (metis ceiling_mono ceiling_zero)
  then show ?thesis by (simp add: required_sample_size_def Let_def)
qed

subsection \<open>Properties\<close>

text \<open>
  The Wilson interval is an interval around the observed rate inside the unit interval: for any
  successes among any positive number of trials, zero and all successes included, the lower bound is
  at least 0 and at most the point estimate, and the upper bound is at least the point estimate and at
  most 1. The variance clamp and the two boundary clamps never cut the point estimate off.
\<close>

theorem wilson_encloses_point:
  assumes "0 \<le> successes" "successes \<le> trials" "0 < trials" "0 \<le> z"
  shows "let w = wilson_interval successes trials z prior
    in 0 \<le> w_lower w \<and> w_lower w \<le> w_point w \<and> w_point w \<le> w_upper w \<and> w_upper w \<le> 1
       \<and> w_point w = real_of_int successes / real_of_int trials \<and> 0 \<le> wilson_width w"
proof -
  have "w_point (wilson_interval successes trials z prior) = real_of_int successes / real_of_int trials"
    using assms by (simp add: wilson_interval_def Let_def)
  with wilson_interval_encloses [OF assms, of prior] show ?thesis
    by (simp add: wilson_width_def Let_def)
qed

theorem wilson_encloses_point_witness:
  "let w = wilson_interval 300 10000 Z_95 0
   in 0 \<le> w_lower w \<and> w_lower w \<le> w_point w \<and> w_point w \<le> w_upper w \<and> w_upper w \<le> 1
      \<and> w_point w = real_of_int 300 / real_of_int 10000 \<and> 0 \<le> wilson_width w"
  by (rule wilson_encloses_point) (simp_all add: Z_95_def)

end
