(* ===== verification/Kpi.thy ===== *)
theory Kpi
  imports Statistics
begin

text \<open>
  \<open>domain/kpi.py\<close>: the delivery snapshot of one campaign with its validation and derived rates, the
  portfolio summary and its health score, and the repair of inconsistent stored funnels.

  \<open>PerformanceSnapshot\<close> is a pydantic model: \<open>validate_snapshot\<close> is the check its declaration makes
  of a candidate object (non-negative fields, then the funnel validator), \<open>dump_snapshot\<close> is
  \<open>model_dump()\<close>, which writes the computed fields out as well, and \<open>snapshot_of_dict\<close> is
  \<open>model_validate\<close> of such a dictionary, with the \<open>before\<close> validator that drops the computed
  fields and the rejection of unknown keys. Values of another type than the field declares are
  refused; pydantic's lax conversions between types are not modelled.
\<close>

datatype datetime = Naive int | Aware int

datatype pyval = PNone | PInt int | PFloat real | PStr string | PTime datetime

definition CTR_PRIOR_MEAN :: real where "CTR_PRIOR_MEAN = 0.025"
definition CTR_PRIOR_STRENGTH :: real where "CTR_PRIOR_STRENGTH = 500"
definition CVR_PRIOR_MEAN :: real where "CVR_PRIOR_MEAN = 0.05"
definition CVR_PRIOR_STRENGTH :: real where "CVR_PRIOR_STRENGTH = 100"
definition HEALTH_CTR_REFERENCE :: real where "HEALTH_CTR_REFERENCE = 0.05"
definition HEALTH_CVR_REFERENCE :: real where "HEALTH_CVR_REFERENCE = 0.10"
definition HEALTH_CPA_REFERENCE :: real where "HEALTH_CPA_REFERENCE = 200"
definition HEALTH_ROAS_REFERENCE :: real where "HEALTH_ROAS_REFERENCE = 3"
definition MONEY_DECIMALS :: nat where "MONEY_DECIMALS = 4"

subsection \<open>Reconciling a stored funnel\<close>

record delivery =
  d_impressions :: int
  d_clicks :: int
  d_conversions :: int
  d_cost :: real
  d_revenue :: real
  d_repaired :: bool

definition reconcile_delivery :: "int \<Rightarrow> int \<Rightarrow> int \<Rightarrow> real \<Rightarrow> real \<Rightarrow> delivery" where
  "reconcile_delivery impressions clicks conversions cost revenue =
     (let clamped_clicks = min clicks impressions;
          clamped_conversions = min conversions clamped_clicks
      in \<lparr>d_impressions = impressions, d_clicks = clamped_clicks, d_conversions = clamped_conversions,
          d_cost = py_round MONEY_DECIMALS cost, d_revenue = py_round MONEY_DECIMALS revenue,
          d_repaired = (clamped_clicks \<noteq> clicks \<or> clamped_conversions \<noteq> conversions)\<rparr>)"

subsection \<open>Performance snapshots\<close>

record snapshot =
  campaign_id :: string
  campaign_name :: string
  impressions :: int
  clicks :: int
  conversions :: int
  total_cost :: real
  total_revenue :: real
  window_start :: "datetime option"
  window_end :: "datetime option"

definition check_funnel_consistency :: "snapshot \<Rightarrow> (py_error, snapshot) res" where
  "check_funnel_consistency s =
     (if clicks s > impressions s
      then Inl (ValueError (''clicks cannot exceed impressions for campaign '' @ campaign_id s))
      else if conversions s > clicks s
      then Inl (ValueError (''conversions cannot exceed clicks for campaign '' @ campaign_id s))
      else Inr s)"

definition validate_snapshot :: "snapshot \<Rightarrow> (py_error, snapshot) res" where
  "validate_snapshot s =
     (if impressions s < 0 \<or> clicks s < 0 \<or> conversions s < 0 \<or> total_cost s < 0 \<or> total_revenue s < 0
      then Inl (ValueError ''Input should be greater than or equal to 0'')
      else check_funnel_consistency s)"

definition valid_snapshot :: "snapshot \<Rightarrow> bool" where
  "valid_snapshot s =
     (0 \<le> impressions s \<and> 0 \<le> clicks s \<and> 0 \<le> conversions s \<and> 0 \<le> total_cost s \<and> 0 \<le> total_revenue s
      \<and> clicks s \<le> impressions s \<and> conversions s \<le> clicks s)"

text \<open>A snapshot without a name or a window, for the concrete examples.\<close>

definition plain_snapshot :: "string \<Rightarrow> int \<Rightarrow> int \<Rightarrow> int \<Rightarrow> real \<Rightarrow> real \<Rightarrow> snapshot" where
  "plain_snapshot cid i c v cst rv =
     \<lparr>campaign_id = cid, campaign_name = [], impressions = i, clicks = c, conversions = v,
      total_cost = cst, total_revenue = rv, window_start = None, window_end = None\<rparr>"

lemma plain_snapshot_sel [simp]:
  "campaign_id (plain_snapshot cid i c v cst rv) = cid" "impressions (plain_snapshot cid i c v cst rv) = i"
  "clicks (plain_snapshot cid i c v cst rv) = c" "conversions (plain_snapshot cid i c v cst rv) = v"
  "total_cost (plain_snapshot cid i c v cst rv) = cst" "total_revenue (plain_snapshot cid i c v cst rv) = rv"
  by (simp_all add: plain_snapshot_def)

lemma validate_snapshot_iff: "validate_snapshot s = Inr t \<longleftrightarrow> t = s \<and> valid_snapshot s"
  by (auto simp: validate_snapshot_def check_funnel_consistency_def valid_snapshot_def)

lemma valid_snapshotD:
  assumes "valid_snapshot s"
  shows "0 \<le> impressions s" "0 \<le> clicks s" "0 \<le> conversions s" "0 \<le> total_cost s"
    "0 \<le> total_revenue s" "clicks s \<le> impressions s" "conversions s \<le> clicks s"
  using assms by (simp_all add: valid_snapshot_def)

definition estimate_rate_for :: "real \<Rightarrow> real \<Rightarrow> real \<Rightarrow> real \<Rightarrow> (py_error, real) res" where
  "estimate_rate_for successes trials prior_mean prior_strength =
     bind_res (estimate_rate successes trials prior_mean prior_strength) (\<lambda>r. Inr (py_round 6 r))"

definition ctr :: "snapshot \<Rightarrow> real" where
  "ctr s = safe_ratio (of_int (clicks s)) (of_int (impressions s))"

definition cvr :: "snapshot \<Rightarrow> real" where
  "cvr s = safe_ratio (of_int (conversions s)) (of_int (clicks s))"

definition cpa :: "snapshot \<Rightarrow> real option" where
  "cpa s = (if conversions s = 0 then None
            else Some (py_round 4 (total_cost s / of_int (conversions s))))"

definition roas :: "snapshot \<Rightarrow> real" where
  "roas s = py_round 4 (safe_ratio (total_revenue s) (total_cost s))"

definition cpc :: "snapshot \<Rightarrow> real" where
  "cpc s = py_round 4 (safe_ratio (total_cost s) (of_int (clicks s)))"

definition cpm :: "snapshot \<Rightarrow> real" where
  "cpm s = py_round 4 (safe_ratio (total_cost s) (of_int (impressions s)) * 1000)"

definition predicted_ctr :: "snapshot \<Rightarrow> (py_error, real) res" where
  "predicted_ctr s =
     estimate_rate_for (of_int (clicks s)) (of_int (impressions s)) CTR_PRIOR_MEAN CTR_PRIOR_STRENGTH"

definition predicted_cvr :: "snapshot \<Rightarrow> (py_error, real) res" where
  "predicted_cvr s =
     estimate_rate_for (of_int (conversions s)) (of_int (clicks s)) CVR_PRIOR_MEAN CVR_PRIOR_STRENGTH"

definition ctr_lower_bound :: "snapshot \<Rightarrow> real" where
  "ctr_lower_bound s = w_lower (wilson_interval (clicks s) (impressions s) Z_95 0)"

definition has_volume :: "snapshot \<Rightarrow> int \<Rightarrow> bool" where
  "has_volume s min_impressions = (impressions s \<ge> min_impressions)"

lemma predicted_rate_exists:
  assumes "0 \<le> k" "k \<le> n" "0 < m" "m \<le> 1" "0 < (st::real)"
  shows "\<exists>r. estimate_rate_for (of_int k) (of_int n) m st = Inr r \<and> 0 \<le> r \<and> r \<le> 1"
proof -
  have pos: "0 < of_int n + st" using assms by (simp add: add_nonneg_pos)
  define q where "q = (of_int k + st * m) / (of_int n + st)"
  have "of_int k + st * m \<le> of_int n + st"
    using assms by (intro add_mono) (simp_all add: mult_left_le)
  then have "0 \<le> q" "q \<le> 1" using assms pos by (simp_all add: q_def divide_le_eq_1)
  then have "0 \<le> py_round 6 q \<and> py_round 6 q \<le> 1" by (simp add: py_round_nonneg py_round_le_1)
  moreover have "estimate_rate_for (of_int k) (of_int n) m st = Inr (py_round 6 q)"
    using assms pos by (simp add: estimate_rate_for_def estimate_rate_def q_def)
  ultimately show ?thesis by blast
qed

lemma predicted_ctr_valid:
  "valid_snapshot s \<Longrightarrow> \<exists>r. predicted_ctr s = Inr r \<and> 0 \<le> r \<and> r \<le> 1"
  unfolding predicted_ctr_def CTR_PRIOR_MEAN_def CTR_PRIOR_STRENGTH_def
  by (rule predicted_rate_exists) (auto dest: valid_snapshotD)

lemma predicted_cvr_valid:
  "valid_snapshot s \<Longrightarrow> \<exists>r. predicted_cvr s = Inr r \<and> 0 \<le> r \<and> r \<le> 1"
  unfolding predicted_cvr_def CVR_PRIOR_MEAN_def CVR_PRIOR_STRENGTH_def
  by (rule predicted_rate_exists) (auto dest: valid_snapshotD)

lemma roas_nonneg: "valid_snapshot s \<Longrightarrow> 0 \<le> roas s"
  by (simp add: roas_def py_round_nonneg safe_ratio_nonneg valid_snapshot_def)

subsection \<open>Dump and re-validation\<close>

definition opt_time :: "datetime option \<Rightarrow> pyval" where
  "opt_time t = (case t of None \<Rightarrow> PNone | Some d \<Rightarrow> PTime d)"

definition computed_fields :: "string list" where
  "computed_fields = [''ctr'', ''cvr'', ''cpa'', ''roas'', ''cpc'', ''cpm'', ''predicted_ctr'',
     ''predicted_cvr'', ''ctr_lower_bound'']"

definition snapshot_fields :: "string list" where
  "snapshot_fields = [''campaign_id'', ''campaign_name'', ''impressions'', ''clicks'',
     ''conversions'', ''total_cost'', ''total_revenue'', ''window_start'', ''window_end'']"

definition dump_fields :: "snapshot \<Rightarrow> (string, pyval) dict" where
  "dump_fields s =
     [(''campaign_id'', PStr (campaign_id s)), (''campaign_name'', PStr (campaign_name s)),
      (''impressions'', PInt (impressions s)), (''clicks'', PInt (clicks s)),
      (''conversions'', PInt (conversions s)), (''total_cost'', PFloat (total_cost s)),
      (''total_revenue'', PFloat (total_revenue s)), (''window_start'', opt_time (window_start s)),
      (''window_end'', opt_time (window_end s))]"

definition dump_computed :: "snapshot \<Rightarrow> (py_error, (string, pyval) dict) res" where
  "dump_computed s =
     bind_res (predicted_ctr s) (\<lambda>pctr. bind_res (predicted_cvr s) (\<lambda>pcvr.
       Inr [(''ctr'', PFloat (ctr s)), (''cvr'', PFloat (cvr s)),
            (''cpa'', case cpa s of None \<Rightarrow> PNone | Some c \<Rightarrow> PFloat c), (''roas'', PFloat (roas s)),
            (''cpc'', PFloat (cpc s)), (''cpm'', PFloat (cpm s)), (''predicted_ctr'', PFloat pctr),
            (''predicted_cvr'', PFloat pcvr), (''ctr_lower_bound'', PFloat (ctr_lower_bound s))]))"

definition dump_snapshot :: "snapshot \<Rightarrow> (py_error, (string, pyval) dict) res" where
  "dump_snapshot s = bind_res (dump_computed s) (\<lambda>c. Inr (dump_fields s @ c))"

definition ignore_derived_values :: "(string, pyval) dict \<Rightarrow> (string, pyval) dict" where
  "ignore_derived_values data =
     (if \<not> (\<exists>p\<in>set data. fst p \<in> set computed_fields) then data
      else filter (\<lambda>p. fst p \<notin> set computed_fields) data)"

definition type_failure :: "string \<Rightarrow> py_error" where
  "type_failure field = ValueError (''invalid value for '' @ field)"

definition get_int :: "(string, pyval) dict \<Rightarrow> string \<Rightarrow> (py_error, int) res" where
  "get_int d k = (case map_of d k of None \<Rightarrow> Inr 0 | Some (PInt i) \<Rightarrow> Inr i | _ \<Rightarrow> Inl (type_failure k))"

definition get_real :: "(string, pyval) dict \<Rightarrow> string \<Rightarrow> (py_error, real) res" where
  "get_real d k = (case map_of d k of None \<Rightarrow> Inr 0 | Some (PFloat x) \<Rightarrow> Inr x
     | Some (PInt i) \<Rightarrow> Inr (of_int i) | _ \<Rightarrow> Inl (type_failure k))"

definition get_str :: "(string, pyval) dict \<Rightarrow> string \<Rightarrow> (py_error, string) res" where
  "get_str d k = (case map_of d k of None \<Rightarrow> Inr [] | Some (PStr t) \<Rightarrow> Inr t | _ \<Rightarrow> Inl (type_failure k))"

definition get_time :: "(string, pyval) dict \<Rightarrow> string \<Rightarrow> (py_error, datetime option) res" where
  "get_time d k = (case map_of d k of None \<Rightarrow> Inr None | Some PNone \<Rightarrow> Inr None
     | Some (PTime t) \<Rightarrow> Inr (Some t) | _ \<Rightarrow> Inl (type_failure k))"

definition snapshot_of_dict :: "(string, pyval) dict \<Rightarrow> (py_error, snapshot) res" where
  "snapshot_of_dict data =
     (let d = ignore_derived_values data
      in if \<exists>p\<in>set d. fst p \<notin> set snapshot_fields
         then Inl (ValueError ''Extra inputs are not permitted'')
         else if map_of d ''campaign_id'' = None then Inl (ValueError ''Field required'')
         else bind_res (get_str d ''campaign_id'') (\<lambda>cid. bind_res (get_str d ''campaign_name'') (\<lambda>nm.
              bind_res (get_int d ''impressions'') (\<lambda>imp. bind_res (get_int d ''clicks'') (\<lambda>clk.
              bind_res (get_int d ''conversions'') (\<lambda>conv. bind_res (get_real d ''total_cost'') (\<lambda>cst.
              bind_res (get_real d ''total_revenue'') (\<lambda>rev. bind_res (get_time d ''window_start'') (\<lambda>ws.
              bind_res (get_time d ''window_end'') (\<lambda>we.
                validate_snapshot
                  \<lparr>campaign_id = cid, campaign_name = nm, impressions = imp, clicks = clk,
                   conversions = conv, total_cost = cst, total_revenue = rev,
                   window_start = ws, window_end = we\<rparr>))))))))))"

lemma dump_computed_keys: "dump_computed s = Inr c \<Longrightarrow> map fst c = computed_fields"
  by (auto simp: dump_computed_def bind_res_Inr_iff computed_fields_def)

lemma ignore_derived_dump:
  assumes "dump_computed s = Inr c"
  shows "ignore_derived_values (dump_fields s @ c) = dump_fields s"
proof -
  have keys: "map fst c = computed_fields" using assms by (rule dump_computed_keys)
  then have sub: "fst ` set c = set computed_fields" by (metis set_map)
  then have dropped: "filter (\<lambda>p. fst p \<notin> set computed_fields) c = []"
    by (auto simp: filter_empty_conv)
  have "c \<noteq> []" using keys by (auto simp: computed_fields_def)
  with sub have "\<exists>p\<in>set (dump_fields s @ c). fst p \<in> set computed_fields"
    by (metis UnCI image_eqI last_in_set set_append)
  moreover have "filter (\<lambda>p. fst p \<notin> set computed_fields) (dump_fields s) = dump_fields s"
    by (simp add: dump_fields_def computed_fields_def)
  ultimately show ?thesis using dropped by (simp add: ignore_derived_values_def)
qed

lemma get_time_opt_time: "map_of d k = Some (opt_time t) \<Longrightarrow> get_time d k = Inr t"
  by (cases t) (simp_all add: get_time_def opt_time_def)

lemma snapshot_of_dump_fields:
  assumes "ignore_derived_values data = dump_fields s"
  shows "snapshot_of_dict data = validate_snapshot s"
proof -
  have "get_time (dump_fields s) ''window_start'' = Inr (window_start s)"
    "get_time (dump_fields s) ''window_end'' = Inr (window_end s)"
    by (rule get_time_opt_time, simp add: dump_fields_def)+
  moreover have "get_str (dump_fields s) ''campaign_id'' = Inr (campaign_id s)"
    "get_str (dump_fields s) ''campaign_name'' = Inr (campaign_name s)"
    "get_int (dump_fields s) ''impressions'' = Inr (impressions s)"
    "get_int (dump_fields s) ''clicks'' = Inr (clicks s)"
    "get_int (dump_fields s) ''conversions'' = Inr (conversions s)"
    "get_real (dump_fields s) ''total_cost'' = Inr (total_cost s)"
    "get_real (dump_fields s) ''total_revenue'' = Inr (total_revenue s)"
    by (simp_all add: get_str_def get_int_def get_real_def dump_fields_def)
  moreover have "\<not> (\<exists>p\<in>set (dump_fields s). fst p \<notin> set snapshot_fields)"
    by (simp add: dump_fields_def snapshot_fields_def)
  moreover have "map_of (dump_fields s) ''campaign_id'' \<noteq> None" by (simp add: dump_fields_def)
  ultimately show ?thesis by (cases s) (auto simp: snapshot_of_dict_def assms Let_def)
qed

subsection \<open>Portfolio summary and health\<close>

record summary =
  pf_campaigns :: nat
  pf_impressions :: int
  pf_clicks :: int
  pf_conversions :: int
  pf_total_cost :: real
  pf_total_revenue :: real

definition pf_ctr :: "summary \<Rightarrow> real" where
  "pf_ctr p = py_round 6 (safe_ratio (of_int (pf_clicks p)) (of_int (pf_impressions p)))"

definition pf_cvr :: "summary \<Rightarrow> real" where
  "pf_cvr p = py_round 6 (safe_ratio (of_int (pf_conversions p)) (of_int (pf_clicks p)))"

definition pf_cpa :: "summary \<Rightarrow> real option" where
  "pf_cpa p = (if pf_conversions p = 0 then None
               else Some (py_round 4 (pf_total_cost p / of_int (pf_conversions p))))"

definition pf_roas :: "summary \<Rightarrow> real" where
  "pf_roas p = py_round 4 (safe_ratio (pf_total_revenue p) (pf_total_cost p))"

definition summarize :: "snapshot list \<Rightarrow> summary" where
  "summarize ss =
     \<lparr>pf_campaigns = length ss,
      pf_impressions = sum_list (map impressions ss),
      pf_clicks = sum_list (map clicks ss),
      pf_conversions = sum_list (map conversions ss),
      pf_total_cost = py_round 4 (sum_list (map total_cost ss)),
      pf_total_revenue = py_round 4 (sum_list (map total_revenue ss))\<rparr>"

definition health_score :: "summary \<Rightarrow> real" where
  "health_score p =
     (let cpa_component = (case pf_cpa p of None \<Rightarrow> 1
            | Some cpa_value \<Rightarrow> clamp_ok (1 - cpa_value / HEALTH_CPA_REFERENCE) 0 1)
      in clamp_ok (pf_ctr p / HEALTH_CTR_REFERENCE) 0 1 * 25
         + clamp_ok (pf_cvr p / HEALTH_CVR_REFERENCE) 0 1 * 25
         + cpa_component * 25
         + clamp_ok (pf_roas p / HEALTH_ROAS_REFERENCE) 0 1 * 25)"

definition health_score_field :: "summary \<Rightarrow> real" where
  "health_score_field p = py_round 2 (health_score p)"

definition health_status :: "real \<Rightarrow> string" where
  "health_status score = (if score \<ge> 70 then ''healthy'' else if score \<ge> 45 then ''warning'' else ''critical'')"

definition parse_ts :: "pyval \<Rightarrow> datetime option" where
  "parse_ts v = (case v of PTime (Aware t) \<Rightarrow> Some (Aware t) | PTime (Naive t) \<Rightarrow> Some (Aware t) | _ \<Rightarrow> None)"

lemma health_score_bounds: "0 \<le> health_score p \<and> health_score p \<le> 100"
proof -
  define c where "c = (case pf_cpa p of None \<Rightarrow> 1
    | Some v \<Rightarrow> clamp_ok (1 - v / HEALTH_CPA_REFERENCE) 0 1)"
  have c: "0 \<le> c" "c \<le> 1" by (simp_all add: c_def clamp_ok_unit split: option.split)
  show ?thesis
    using c clamp_ok_unit [of "pf_ctr p / HEALTH_CTR_REFERENCE"]
      clamp_ok_unit [of "pf_cvr p / HEALTH_CVR_REFERENCE"]
      clamp_ok_unit [of "pf_roas p / HEALTH_ROAS_REFERENCE"]
    by (simp add: health_score_def c_def [symmetric])
qed

subsection \<open>Properties\<close>

text \<open>
  A snapshot survives the agent state: dumping a valid snapshot, computed rates included, and
  validating the dictionary again gives the same snapshot back, although the model forbids unknown
  keys and the dump holds nine keys that are not fields.
\<close>

theorem snapshot_dump_roundtrip:
  assumes "valid_snapshot s"
  shows "\<exists>d. dump_snapshot s = Inr d \<and> map fst d = snapshot_fields @ computed_fields
    \<and> snapshot_of_dict d = Inr s"
proof -
  obtain x y where xy: "predicted_ctr s = Inr x" "predicted_cvr s = Inr y"
    using predicted_ctr_valid [OF assms] predicted_cvr_valid [OF assms] by blast
  then obtain c where c: "dump_computed s = Inr c" by (simp add: dump_computed_def)
  have d: "dump_snapshot s = Inr (dump_fields s @ c)" by (simp add: dump_snapshot_def c)
  have "snapshot_of_dict (dump_fields s @ c) = validate_snapshot s"
    by (rule snapshot_of_dump_fields) (rule ignore_derived_dump [OF c])
  moreover have "validate_snapshot s = Inr s" using assms by (simp add: validate_snapshot_iff)
  moreover have "map fst (dump_fields s) = snapshot_fields" by (simp add: dump_fields_def snapshot_fields_def)
  ultimately show ?thesis using d dump_computed_keys [OF c] by auto
qed

theorem snapshot_dump_roundtrip_witness:
  "\<exists>d. dump_snapshot (plain_snapshot ''c1'' 1000 50 5 100 300) = Inr d
    \<and> map fst d = snapshot_fields @ computed_fields
    \<and> snapshot_of_dict d = Inr (plain_snapshot ''c1'' 1000 50 5 100 300)"
  by (rule snapshot_dump_roundtrip) (simp add: valid_snapshot_def)

text \<open>
  Reconciling a stored funnel always yields figures the snapshot model accepts: whatever
  non-negative counts the warehouse holds, the clamped clicks and conversions build a valid snapshot,
  no count grows, and the figures are reported as repaired exactly when one of them changed.
\<close>

theorem reconcile_delivery_valid:
  assumes "0 \<le> i" "0 \<le> c" "0 \<le> v" "0 \<le> cst" "0 \<le> rv"
  shows "let d = reconcile_delivery i c v cst rv
    in validate_snapshot (plain_snapshot cid (d_impressions d) (d_clicks d) (d_conversions d) (d_cost d) (d_revenue d))
         = Inr (plain_snapshot cid (d_impressions d) (d_clicks d) (d_conversions d) (d_cost d) (d_revenue d))
       \<and> d_impressions d = i \<and> d_clicks d \<le> c \<and> d_conversions d \<le> v
       \<and> (d_repaired d \<longleftrightarrow> \<not> (c \<le> i \<and> v \<le> c))"
  using assms
  by (auto simp: reconcile_delivery_def validate_snapshot_iff valid_snapshot_def Let_def py_round_nonneg)

theorem reconcile_delivery_valid_witness:
  "let d = reconcile_delivery 10 25 3 1.5 0
   in validate_snapshot (plain_snapshot ''c1'' (d_impressions d) (d_clicks d) (d_conversions d) (d_cost d) (d_revenue d))
        = Inr (plain_snapshot ''c1'' (d_impressions d) (d_clicks d) (d_conversions d) (d_cost d) (d_revenue d))
      \<and> d_impressions d = 10 \<and> d_clicks d \<le> 25 \<and> d_conversions d \<le> 3
      \<and> (d_repaired d \<longleftrightarrow> \<not> (25 \<le> (10::int) \<and> 3 \<le> (25::int)))"
  by (rule reconcile_delivery_valid) simp_all

text \<open>
  The portfolio health score is a percentage of a full score: it lies between 0 and 100 for every
  summary, a portfolio without conversions included, so the three status bands cover it.
\<close>

theorem health_score_is_percentage:
  "0 \<le> health_score_field p \<and> health_score_field p \<le> 100
   \<and> (health_status (health_score p) = ''critical'' \<longleftrightarrow> health_score p < 45)
   \<and> (health_status (health_score p) = ''healthy'' \<longleftrightarrow> 70 \<le> health_score p)"
  using health_score_bounds [of p]
  by (auto simp: health_score_field_def health_status_def py_round_nonneg py_round_le_numeral)

end
