(* ===== verification/Scoring.thy ===== *)
theory Scoring
  imports Kpi
begin

text \<open>
  \<open>domain/scoring.py\<close>: the composite performance score of a creative, the decision to pause one, and
  the ranking by Wilson lower bound. The lemmas bound the score and its confidence, and describe the
  pause decision by its three gates.
\<close>

definition CTR_REFERENCE :: real where "CTR_REFERENCE = 0.05"
definition CVR_REFERENCE :: real where "CVR_REFERENCE = 0.10"
definition CPA_REFERENCE :: real where "CPA_REFERENCE = 200"
definition ROAS_REFERENCE :: real where "ROAS_REFERENCE = 3"
definition WEIGHT_CTR :: real where "WEIGHT_CTR = 0.30"
definition WEIGHT_CVR :: real where "WEIGHT_CVR = 0.25"
definition WEIGHT_CPA :: real where "WEIGHT_CPA = 0.20"
definition WEIGHT_ROAS :: real where "WEIGHT_ROAS = 0.25"
definition DEFAULT_MIN_IMPRESSIONS :: int where "DEFAULT_MIN_IMPRESSIONS = 500"

record score_breakdown =
  sb_ctr_component :: real
  sb_cvr_component :: real
  sb_cpa_component :: real
  sb_roas_component :: real
  sb_confidence :: real
  sb_total :: real

definition score_as_dict :: "score_breakdown \<Rightarrow> (string, real) dict" where
  "score_as_dict b =
     [(''ctr_component'', py_round 3 (sb_ctr_component b)),
      (''cvr_component'', py_round 3 (sb_cvr_component b)),
      (''cpa_component'', py_round 3 (sb_cpa_component b)),
      (''roas_component'', py_round 3 (sb_roas_component b)),
      (''confidence'', py_round 3 (sb_confidence b)),
      (''total'', py_round 2 (sb_total b))]"

definition score_performance :: "int \<Rightarrow> int \<Rightarrow> int \<Rightarrow> real \<Rightarrow> real \<Rightarrow> score_breakdown" where
  "score_performance imp clk conv cost revenue =
     (let observed_ctr = safe_ratio (of_int clk) (of_int imp);
          observed_cvr = safe_ratio (of_int conv) (of_int clk);
          observed_cpa = (if conv > 0 then Some (safe_ratio cost (of_int conv)) else None);
          observed_roas = safe_ratio revenue cost;
          ctr_component = clamp_ok (safe_ratio observed_ctr CTR_REFERENCE) 0 1 * WEIGHT_CTR * 100;
          cvr_component = clamp_ok (safe_ratio observed_cvr CVR_REFERENCE) 0 1 * WEIGHT_CVR * 100;
          cpa_component = (case observed_cpa of
              None \<Rightarrow> 0.5 * WEIGHT_CPA * 100
            | Some c \<Rightarrow> clamp_ok (1 - safe_ratio c CPA_REFERENCE) 0 1 * WEIGHT_CPA * 100);
          roas_component = clamp_ok (safe_ratio observed_roas ROAS_REFERENCE) 0 1 * WEIGHT_ROAS * 100;
          confidence = clamp_ok (0.25 + 0.5 * min (safe_ratio (of_int imp) 20000) 1
                                 + 0.25 * min (safe_ratio (of_int conv) 20) 1) 0 1;
          raw = ctr_component + cvr_component + cpa_component + roas_component;
          total = raw * confidence + 50 * (1 - confidence)
      in \<lparr>sb_ctr_component = ctr_component, sb_cvr_component = cvr_component,
          sb_cpa_component = cpa_component, sb_roas_component = roas_component,
          sb_confidence = confidence, sb_total = total\<rparr>)"

definition should_pause ::
  "int \<Rightarrow> int \<Rightarrow> int \<Rightarrow> real \<Rightarrow> real \<Rightarrow> real \<Rightarrow> int \<Rightarrow> real \<Rightarrow> bool \<times> string" where
  "should_pause imp clk conv cost revenue threshold min_impressions min_confidence =
     (if imp < min_impressions
      then (False, ''Below the '' @ show_int min_impressions @ '' impression evidence gate'')
      else let breakdown = score_performance imp clk conv cost revenue
           in if sb_confidence breakdown < min_confidence
              then (False, ''Confidence '' @ fmt_fixed 2 (sb_confidence breakdown) @ '' is below the ''
                           @ fmt_fixed 2 min_confidence @ '' gate'')
              else if sb_total breakdown \<ge> threshold
              then (False, ''Score '' @ fmt_fixed 1 (sb_total breakdown) @ '' is at or above the ''
                           @ fmt_fixed 1 threshold @ '' threshold'')
              else (True, ''Score '' @ fmt_fixed 1 (sb_total breakdown) @ '' is below the ''
                           @ fmt_fixed 1 threshold @ '' threshold''))"

definition rank_by_lower_bound :: "(string \<times> int \<times> int) list \<Rightarrow> (string \<times> real) list" where
  "rank_by_lower_bound items =
     sort_key (\<lambda>pair. (- snd pair, fst pair))
       (map (\<lambda>(key, successes, trials).
          (key, w_lower (wilson_interval successes trials Z_95 0))) items)"

lemma score_performance_components:
  fixes i c v :: int and cost revenue :: real
  defines "b \<equiv> score_performance i c v cost revenue"
  shows "0 \<le> sb_ctr_component b \<and> sb_ctr_component b \<le> 30"
    and "0 \<le> sb_cvr_component b \<and> sb_cvr_component b \<le> 25"
    and "0 \<le> sb_cpa_component b \<and> sb_cpa_component b \<le> 20"
    and "0 \<le> sb_roas_component b \<and> sb_roas_component b \<le> 25"
    and "0 \<le> sb_confidence b \<and> sb_confidence b \<le> 1"
  by (auto simp: b_def score_performance_def Let_def clamp_ok_unit WEIGHT_CTR_def WEIGHT_CVR_def
      WEIGHT_CPA_def WEIGHT_ROAS_def split: option.split)

lemma score_performance_total:
  fixes i c v :: int and cost revenue :: real
  defines "b \<equiv> score_performance i c v cost revenue"
  shows "sb_total b = (sb_ctr_component b + sb_cvr_component b + sb_cpa_component b
    + sb_roas_component b) * sb_confidence b + 50 * (1 - sb_confidence b)"
  by (simp add: b_def score_performance_def Let_def)

lemma convex_bounds:
  fixes r t :: real
  assumes "0 \<le> r" "r \<le> 100" "0 \<le> t" "t \<le> 1"
  shows "50 * (1 - t) \<le> r * t + 50 * (1 - t) \<and> r * t + 50 * (1 - t) \<le> 100 * t + 50 * (1 - t)"
  using assms by (simp add: mult_right_mono)

lemma score_total_near_neutral:
  fixes i c v :: int and cost revenue :: real
  defines "b \<equiv> score_performance i c v cost revenue"
  shows "\<bar>sb_total b - 50\<bar> \<le> 50 * sb_confidence b"
proof -
  define raw where "raw = sb_ctr_component b + sb_cvr_component b + sb_cpa_component b + sb_roas_component b"
  have "0 \<le> raw" "raw \<le> 100" "0 \<le> sb_confidence b" "sb_confidence b \<le> 1"
    using score_performance_components [of i c v cost revenue] by (auto simp: raw_def b_def)
  from convex_bounds [OF this] show ?thesis
    by (simp add: score_performance_total [of i c v cost revenue, folded b_def] raw_def abs_le_iff)
qed

lemma should_pause_iff:
  "fst (should_pause i c v cost revenue thr mi mc) \<longleftrightarrow>
     mi \<le> i \<and> mc \<le> sb_confidence (score_performance i c v cost revenue)
     \<and> sb_total (score_performance i c v cost revenue) < thr"
  by (auto simp: should_pause_def Let_def)

subsection \<open>Properties\<close>

text \<open>
  A creative is paused only on evidence: the decision is positive exactly when the impression
  gate, the confidence gate and the score threshold are all passed, and since a low-confidence score
  stays within \<open>50 * confidence\<close> of neutral, no creative whose confidence is under
  \<open>1 - threshold / 50\<close> is ever paused.
\<close>

theorem should_pause_gated:
  "(fst (should_pause i c v cst rv thr mi mc) \<longleftrightarrow>
      mi \<le> i \<and> mc \<le> sb_confidence (score_performance i c v cst rv)
      \<and> sb_total (score_performance i c v cst rv) < thr)
   \<and> (sb_confidence (score_performance i c v cst rv) \<le> 1 - thr / 50 \<longrightarrow>
        \<not> fst (should_pause i c v cst rv thr mi mc))"
  using score_total_near_neutral [of i c v cst rv] by (auto simp: should_pause_iff abs_le_iff)

theorem should_pause_gated_witness:
  "\<not> fst (should_pause 600 3 0 50 0 30 500 0)"
proof -
  have "sb_confidence (score_performance 600 3 0 50 0) \<le> 1 - 30 / 50"
    by (simp add: score_performance_def Let_def clamp_ok_def safe_ratio_def)
  then show ?thesis using should_pause_gated [of 600 3 0 50 0 30 500 0] by blast
qed

text \<open>
  Ranking by the Wilson lower bound does not demote a perfect single trial: one success in one
  trial has lower bound \<open>1 / (1 + z * z)\<close>, above 0.2, and is ranked ahead of three hundred successes
  in ten thousand, although the function's documentation says such a creative is never ranked first.
\<close>

theorem rank_single_success_first:
  "rank_by_lower_bound [(''proven'', 300, 10000), (''lucky'', 1, 1)]
     = [(''lucky'', w_lower (wilson_interval 1 1 Z_95 0)), (''proven'', w_lower (wilson_interval 300 10000 Z_95 0))]"
proof -
  have "w_lower (wilson_interval 1 1 Z_95 0) = 1 / (1 + Z_95 * Z_95)"
    using wilson_lower_all_successes [of 1 Z_95 0] by (simp add: Z_95_def)
  also have "\<dots> > 0.1" by (simp add: Z_95_def)
  finally have a: "w_lower (wilson_interval 1 1 Z_95 0) > 0.1" .
  have "w_lower (wilson_interval 300 10000 Z_95 0) \<le> w_point (wilson_interval 300 10000 Z_95 0)"
    using wilson_interval_encloses [of 300 10000 Z_95 0] by (simp add: Z_95_def)
  also have "\<dots> = 0.03" by (simp add: wilson_interval_def Let_def)
  finally have "w_lower (wilson_interval 300 10000 Z_95 0) < w_lower (wilson_interval 1 1 Z_95 0)"
    using a by simp
  then show ?thesis by (simp add: rank_by_lower_bound_def)
qed

end
