(* ===== verification/Pricing.thy ===== *)
theory Pricing
  imports Statistics
begin

text \<open>
  \<open>domain/pricing.py\<close>: expected revenue per thousand impressions, the ROAS and learning-phase
  multipliers, and the capped bid recommendation. \<open>recommend_bid\<close> raises what \<open>ecpm\<close> raises; its
  keyword arguments are the arguments of the definition, in the code's order.
\<close>

definition DEFAULT_TARGET_CPA :: real where "DEFAULT_TARGET_CPA = 100"
definition DEFAULT_TARGET_ROAS :: real where "DEFAULT_TARGET_ROAS = 2"
definition MIN_BID :: real where "MIN_BID = 0.01"
definition DEFAULT_BID_CAP_RATIO :: real where "DEFAULT_BID_CAP_RATIO = 0.8"

record bid_recommendation =
  br_campaign_id :: string
  br_bid_cpm :: real
  br_max_cpc :: real
  br_ecpm :: real
  br_predicted_ctr :: real
  br_predicted_cvr :: real
  br_multiplier :: real
  br_base_multiplier :: real
  br_roas_multiplier :: real
  br_confidence :: real
  br_reasoning :: string

definition ecpm :: "real \<Rightarrow> real \<Rightarrow> real \<Rightarrow> (py_error, real) res" where
  "ecpm pctr pcvr target_cpa =
     (if min (min pctr pcvr) target_cpa < 0
      then Inl (ValueError ''ecpm inputs must be non-negative'')
      else Inr (pctr * pcvr * target_cpa * 1000))"

definition max_cpc :: "real \<Rightarrow> real \<Rightarrow> real" where
  "max_cpc pcvr target_cpa = pcvr * target_cpa"

definition roas_multiplier :: "real \<Rightarrow> real \<Rightarrow> real \<times> string" where
  "roas_multiplier observed_roas target_roas =
     (if target_roas \<le> 0 then (1, ''Target ROAS is not set, holding the bid flat'')
      else if observed_roas \<le> 0 then (0.6, ''No observed revenue, cutting the bid to protect spend'')
      else let ratio = observed_roas / target_roas
           in if ratio \<ge> 2 then (1.3, ''ROAS is at least 2x target, raising the bid to win more volume'')
              else if ratio \<ge> 1.2 then (1.1, ''ROAS is above target, nudging the bid up'')
              else if ratio \<ge> 0.8 then (1, ''ROAS is on target, holding the bid'')
              else if ratio \<ge> 0.5 then (0.8, ''ROAS is below target, reducing the bid'')
              else (0.6, ''ROAS is far below target, cutting the bid hard''))"

definition volume_multiplier :: "int \<Rightarrow> int \<Rightarrow> real" where
  "volume_multiplier imp target_impressions =
     (if target_impressions \<le> 0 \<or> imp \<ge> target_impressions then 1
      else let progress = of_int imp / of_int target_impressions
           in clamp_ok (0.85 + 0.15 * progress) 0.85 1)"

definition bid_reasoning :: "string \<Rightarrow> real \<Rightarrow> bool \<Rightarrow> real \<Rightarrow> string" where
  "bid_reasoning base learning capped bid_cap_ratio =
     base @ (if learning < 1 then ''; still in the learning phase so the bid is eased'' else [])
       @ (if capped then ''; bid capped at '' @ show_int (py_trunc (bid_cap_ratio * 100))
                         @ ''% of target CPA value''
          else [])"

definition recommend_bid ::
  "string \<Rightarrow> real \<Rightarrow> real \<Rightarrow> real \<Rightarrow> int \<Rightarrow> real \<Rightarrow> real \<Rightarrow> real \<Rightarrow> int
   \<Rightarrow> (py_error, bid_recommendation) res" where
  "recommend_bid cid pctr pcvr observed_roas imp target_cpa target_roas bid_cap_ratio
     learning_phase_impressions =
     (let effective_target_cpa = (if target_cpa > 0 then target_cpa else DEFAULT_TARGET_CPA)
      in bind_res (ecpm pctr pcvr effective_target_cpa) (\<lambda>expected_ecpm.
        (let base = roas_multiplier observed_roas target_roas;
             learning = volume_multiplier imp learning_phase_impressions;
             multiplier = py_round 4 (fst base * learning);
             raw_bid_cpm = expected_ecpm * multiplier;
             cap_cpm = max_cpc pcvr effective_target_cpa * bid_cap_ratio * pctr * 1000;
             bid_cpm = py_round 4 (clamp_ok raw_bid_cpm MIN_BID (max cap_cpm MIN_BID));
             capped = (raw_bid_cpm > cap_cpm \<and> cap_cpm \<ge> MIN_BID);
             confidence = py_round 3
               (clamp_ok (0.35 + 0.45 * min (of_int imp / 50000) 1
                          + (if observed_roas > 0 then 0.2 else 0)) 0 0.98)
         in Inr \<lparr>br_campaign_id = cid, br_bid_cpm = bid_cpm,
              br_max_cpc = py_round 4 (min (max_cpc pcvr effective_target_cpa * multiplier)
                                          (effective_target_cpa * bid_cap_ratio)),
              br_ecpm = py_round 4 expected_ecpm,
              br_predicted_ctr = py_round 6 pctr, br_predicted_cvr = py_round 6 pcvr,
              br_multiplier = multiplier, br_base_multiplier = fst base,
              br_roas_multiplier = fst base, br_confidence = confidence,
              br_reasoning = bid_reasoning (snd base) learning capped bid_cap_ratio\<rparr>)))"

lemma roas_multiplier_range: "0.6 \<le> fst (roas_multiplier o' t) \<and> fst (roas_multiplier o' t) \<le> 1.3"
  by (simp add: roas_multiplier_def Let_def)

lemma roas_multiplier_step:
  "0 < t \<Longrightarrow> fst (roas_multiplier r t) =
    (let q = r / t in if q \<ge> 2 then 1.3 else if q \<ge> 1.2 then 1.1 else if q \<ge> 0.8 then 1
     else if q \<ge> 0.5 then 0.8 else 0.6)"
proof -
  assume t: "0 < t"
  define q where "q = r / t"
  have "r \<le> 0 \<longleftrightarrow> q \<le> 0" using t by (simp add: q_def divide_le_0_iff)
  then show ?thesis using t by (auto simp: roas_multiplier_def Let_def q_def [symmetric])
qed

lemma roas_multiplier_mono:
  assumes "0 < t" "r \<le> r'"
  shows "fst (roas_multiplier r t) \<le> fst (roas_multiplier r' t)"
proof -
  define q q' where "q = r / t" and "q' = r' / t"
  have "q \<le> q'" using assms by (simp add: q_def q'_def divide_right_mono)
  then show ?thesis
    by (simp only: roas_multiplier_step [OF assms(1)] Let_def q_def [symmetric] q'_def [symmetric]) auto
qed

lemma volume_multiplier_range: "0.85 \<le> volume_multiplier i t \<and> volume_multiplier i t \<le> 1"
proof -
  have "(0.85::real) \<le> clamp_ok v 0.85 1 \<and> clamp_ok v 0.85 1 \<le> 1" for v
    by (rule clamp_ok_bounds) simp
  then show ?thesis by (auto simp: volume_multiplier_def Let_def)
qed

lemma ecpm_ok: "0 \<le> a \<Longrightarrow> 0 \<le> b \<Longrightarrow> 0 \<le> c \<Longrightarrow> ecpm a b c = Inr (a * b * c * 1000)"
  by (simp add: ecpm_def)

lemma recommend_bid_multiplier:
  assumes "recommend_bid cid pctr pcvr r imp tcpa troas ratio learn = Inr b"
  shows "br_multiplier b = py_round 4 (fst (roas_multiplier r troas) * volume_multiplier imp learn)"
    and "br_bid_cpm b = py_round 4 (clamp_ok
           (pctr * pcvr * (if tcpa > 0 then tcpa else DEFAULT_TARGET_CPA) * 1000 * br_multiplier b) MIN_BID
           (max (max_cpc pcvr (if tcpa > 0 then tcpa else DEFAULT_TARGET_CPA) * ratio * pctr * 1000) MIN_BID))"
    and "br_max_cpc b = py_round 4
           (min (max_cpc pcvr (if tcpa > 0 then tcpa else DEFAULT_TARGET_CPA) * br_multiplier b)
                ((if tcpa > 0 then tcpa else DEFAULT_TARGET_CPA) * ratio))"
  using assms by (auto simp: recommend_bid_def bind_res_Inr_iff Let_def ecpm_def split: if_splits)

subsection \<open>Properties\<close>

text \<open>
  The bid guards hold: for non-negative rates and a non-negative cap ratio the recommended CPM bid
  is at least the minimal bid and at most the larger of the minimal bid and the cap derived from the
  campaign's target CPA (rounded to four decimals), the CPC stays under the cap, and the multiplier
  stays between 0.51 and 1.3.
\<close>

theorem recommend_bid_capped:
  assumes "0 \<le> pctr" "0 \<le> pcvr" "0 \<le> ratio"
  shows "\<exists>b. recommend_bid cid pctr pcvr r imp tcpa troas ratio learn = Inr b
    \<and> MIN_BID \<le> br_bid_cpm b
    \<and> br_bid_cpm b \<le> max MIN_BID
         (py_round 4 (pcvr * (if tcpa > 0 then tcpa else DEFAULT_TARGET_CPA) * ratio * pctr * 1000))
    \<and> br_max_cpc b \<le> py_round 4 ((if tcpa > 0 then tcpa else DEFAULT_TARGET_CPA) * ratio)
    \<and> 0.51 \<le> br_multiplier b \<and> br_multiplier b \<le> 1.3"
proof -
  define t where "t = (if tcpa > 0 then tcpa else DEFAULT_TARGET_CPA)"
  have "0 < t" by (simp add: t_def DEFAULT_TARGET_CPA_def)
  then have "ecpm pctr pcvr t = Inr (pctr * pcvr * t * 1000)" using assms by (simp add: ecpm_ok)
  then obtain b where b: "recommend_bid cid pctr pcvr r imp tcpa troas ratio learn = Inr b"
    by (simp add: recommend_bid_def Let_def t_def)
  note eqs = recommend_bid_multiplier [OF b, folded t_def]
  have mb: "py_round 4 MIN_BID = MIN_BID"
    using py_round_decimal [of 4 100] by (simp add: MIN_BID_def)
  define cap where "cap = max (max_cpc pcvr t * ratio * pctr * 1000) MIN_BID"
  have "MIN_BID \<le> clamp_ok x MIN_BID cap \<and> clamp_ok x MIN_BID cap \<le> cap" for x
    by (rule clamp_ok_bounds) (simp add: cap_def)
  then have bounds: "MIN_BID \<le> br_bid_cpm b" "br_bid_cpm b \<le> py_round 4 cap"
    unfolding eqs(2) cap_def [symmetric] by (metis mb py_round_mono)+
  have "py_round 4 cap \<le> max MIN_BID (py_round 4 (pcvr * t * ratio * pctr * 1000))"
    by (cases "max_cpc pcvr t * ratio * pctr * 1000 \<le> MIN_BID") (simp_all add: cap_def mb max_cpc_def max_def)
  moreover have "br_max_cpc b \<le> py_round 4 (t * ratio)" unfolding eqs(3) by (rule py_round_mono) simp
  moreover have "0.51 \<le> br_multiplier b \<and> br_multiplier b \<le> 1.3"
  proof -
    let ?f = "fst (roas_multiplier r troas)" and ?v = "volume_multiplier imp learn"
    have "0.6 * 0.85 \<le> ?f * ?v" "?f * ?v \<le> 1.3 * 1"
      using roas_multiplier_range [of r troas] volume_multiplier_range [of imp learn]
      by (intro mult_mono; simp)+
    then have "py_round 4 0.51 \<le> br_multiplier b" "br_multiplier b \<le> py_round 4 1.3"
      unfolding eqs(1) by (auto intro: py_round_mono)
    then show ?thesis using py_round_decimal [of 4 5100] py_round_decimal [of 4 13000] by simp
  qed
  ultimately show ?thesis using b bounds by (auto simp: t_def)
qed

theorem recommend_bid_capped_witness:
  "\<exists>b. recommend_bid ''c1'' 0.02 0.05 4 1000 0 2 0.8 50000 = Inr b
    \<and> MIN_BID \<le> br_bid_cpm b
    \<and> br_bid_cpm b \<le> max MIN_BID
         (py_round 4 (0.05 * (if 0 > (0::real) then 0 else DEFAULT_TARGET_CPA) * 0.8 * 0.02 * 1000))
    \<and> br_max_cpc b \<le> py_round 4 ((if 0 > (0::real) then 0 else DEFAULT_TARGET_CPA) * 0.8)
    \<and> 0.51 \<le> br_multiplier b \<and> br_multiplier b \<le> 1.3"
  by (rule recommend_bid_capped) simp_all

end
