(* ===== verification/Anomaly.thy ===== *)
theory Anomaly
  imports Kpi Enums
begin

text \<open>
  \<open>domain/anomaly.py\<close>: the five detection rules over delivery snapshots, the sort of their alerts and
  the collapse of repeated fingerprints. Every alert carries the clock reading of the call
  (\<open>detected_at\<close>), which is an argument of the definitions.

  The locale \<open>keyed_best\<close> states the contract that \<open>deduplicate\<close> here and \<open>OptimizeAgent._dedupe\<close>
  share: a dictionary that keeps, for every key, the first element of least cost.
\<close>

record thresholds =
  th_ctr_floor :: real
  th_cpa_ceiling :: real
  th_roas_floor :: real
  th_min_impressions :: int
  th_min_clicks :: int
  th_min_spend_for_roas :: real
  th_burn_rate_multiplier :: real
  th_burn_rate_critical_multiplier :: real
  th_burn_rate_hysteresis :: real
  th_frequency_ceiling :: real

definition default_thresholds :: thresholds where
  "default_thresholds =
     \<lparr>th_ctr_floor = 0.005, th_cpa_ceiling = 200, th_roas_floor = 1, th_min_impressions = 100,
      th_min_clicks = 20, th_min_spend_for_roas = 100, th_burn_rate_multiplier = 1.25,
      th_burn_rate_critical_multiplier = 1.875, th_burn_rate_hysteresis = 0.05,
      th_frequency_ceiling = 6\<rparr>"

record alert =
  al_campaign_id :: string
  al_rule :: alert_rule
  al_severity :: alert_severity
  al_observed :: "real option"
  al_threshold :: real
  al_message :: string
  al_dedup_key :: string
  al_context :: "(string, pyval) dict"
  al_detected_at :: datetime
  al_urgency :: real

text \<open>\<open>Alert.to_dict\<close> keeps the field values and renders the enumerations, the rounded urgency.\<close>

record alert_dict =
  ad_campaign_id :: string
  ad_rule :: string
  ad_severity :: string
  ad_observed :: "real option"
  ad_threshold :: real
  ad_urgency :: real
  ad_message :: string
  ad_dedup_key :: string
  ad_context :: "(string, pyval) dict"
  ad_detected_at :: datetime

definition alert_to_dict :: "alert \<Rightarrow> alert_dict" where
  "alert_to_dict a =
     \<lparr>ad_campaign_id = al_campaign_id a, ad_rule = alert_rule_value (al_rule a),
      ad_severity = alert_severity_value (al_severity a), ad_observed = al_observed a,
      ad_threshold = al_threshold a, ad_urgency = py_round 4 (al_urgency a),
      ad_message = al_message a, ad_dedup_key = al_dedup_key a, ad_context = al_context a,
      ad_detected_at = al_detected_at a\<rparr>"

definition fingerprint :: "alert \<Rightarrow> string" where
  "fingerprint a = al_dedup_key a"

definition CRITICAL_GAP :: real where "CRITICAL_GAP = 0.5"
definition WARNING_GAP :: real where "WARNING_GAP = 0.2"

definition gap_of :: "real \<Rightarrow> real \<Rightarrow> bool \<Rightarrow> real" where
  "gap_of observed threshold higher_is_worse =
     (if threshold = 0 then 0
      else if higher_is_worse then (observed - threshold) / threshold
      else (threshold - observed) / threshold)"

definition severity_from_gap :: "real \<Rightarrow> alert_severity" where
  "severity_from_gap gap =
     (if gap \<ge> CRITICAL_GAP then SEVERITY_CRITICAL
      else if gap \<ge> WARNING_GAP then SEVERITY_WARNING
      else SEVERITY_INFO)"

definition severity_rank :: "alert_severity \<Rightarrow> nat" where
  "severity_rank s = (case s of SEVERITY_CRITICAL \<Rightarrow> 0 | SEVERITY_WARNING \<Rightarrow> 1 | SEVERITY_INFO \<Rightarrow> 2)"

definition dedup_key_of :: "string \<Rightarrow> alert_rule \<Rightarrow> string" where
  "dedup_key_of cid rule = cid @ '':'' @ alert_rule_value rule"

subsection \<open>The rules\<close>

definition check_ctr :: "datetime \<Rightarrow> snapshot \<Rightarrow> thresholds \<Rightarrow> alert list" where
  "check_ctr now s cfg =
     (if impressions s < th_min_impressions cfg then []
      else if ctr s \<ge> th_ctr_floor cfg then []
      else let gap = gap_of (ctr s) (th_ctr_floor cfg) False
           in [\<lparr>al_campaign_id = campaign_id s, al_rule = LOW_CTR,
                al_severity = severity_from_gap gap, al_observed = Some (py_round 6 (ctr s)),
                al_threshold = th_ctr_floor cfg,
                al_message = ''Campaign '' @ campaign_id s @ '' CTR '' @ fmt_percent 3 (ctr s)
                  @ '' is below the '' @ fmt_percent 3 (th_ctr_floor cfg) @ '' floor'',
                al_dedup_key = dedup_key_of (campaign_id s) LOW_CTR,
                al_context = [(''impressions'', PInt (impressions s)), (''clicks'', PInt (clicks s))],
                al_detected_at = now, al_urgency = gap\<rparr>])"

definition check_cpa :: "datetime \<Rightarrow> snapshot \<Rightarrow> thresholds \<Rightarrow> alert list" where
  "check_cpa now s cfg =
     (if conversions s \<le> 0 \<or> clicks s < th_min_clicks cfg then []
      else let c = total_cost s / of_int (conversions s)
           in if c \<le> th_cpa_ceiling cfg then []
              else let gap = gap_of c (th_cpa_ceiling cfg) True
                   in [\<lparr>al_campaign_id = campaign_id s, al_rule = HIGH_CPA,
                        al_severity = severity_from_gap gap, al_observed = Some (py_round 2 c),
                        al_threshold = th_cpa_ceiling cfg,
                        al_message = ''Campaign '' @ campaign_id s @ '' CPA '' @ fmt_fixed 2 c
                          @ '' exceeds the '' @ fmt_fixed 2 (th_cpa_ceiling cfg) @ '' ceiling'',
                        al_dedup_key = dedup_key_of (campaign_id s) HIGH_CPA,
                        al_context = [(''conversions'', PInt (conversions s)),
                          (''total_cost'', PFloat (total_cost s))],
                        al_detected_at = now, al_urgency = gap\<rparr>])"

definition check_roas :: "datetime \<Rightarrow> snapshot \<Rightarrow> thresholds \<Rightarrow> alert list" where
  "check_roas now s cfg =
     (if total_cost s < th_min_spend_for_roas cfg then []
      else if roas s \<ge> th_roas_floor cfg then []
      else let gap = gap_of (roas s) (th_roas_floor cfg) False
           in [\<lparr>al_campaign_id = campaign_id s, al_rule = LOW_ROAS,
                al_severity = severity_from_gap gap, al_observed = Some (py_round 4 (roas s)),
                al_threshold = th_roas_floor cfg,
                al_message = ''Campaign '' @ campaign_id s @ '' ROAS '' @ fmt_fixed 2 (roas s)
                  @ '' is below the '' @ fmt_fixed 2 (th_roas_floor cfg) @ '' target'',
                al_dedup_key = dedup_key_of (campaign_id s) LOW_ROAS,
                al_context = [(''total_cost'', PFloat (total_cost s)),
                  (''total_revenue'', PFloat (total_revenue s))],
                al_detected_at = now, al_urgency = gap\<rparr>])"

definition burn_ratio :: "snapshot \<Rightarrow> real \<Rightarrow> int \<Rightarrow> real" where
  "burn_ratio s daily_budget window_days =
     safe_ratio (total_cost s / of_int (max 1 window_days)) daily_budget"

definition burn_severity :: "thresholds \<Rightarrow> string option \<Rightarrow> real \<Rightarrow> alert_severity" where
  "burn_severity cfg prior_severity ratio =
     (let critical_at = th_burn_rate_critical_multiplier cfg;
          held_critical = (prior_severity = Some (alert_severity_value SEVERITY_CRITICAL)
            \<and> ratio \<ge> critical_at * (1 - th_burn_rate_hysteresis cfg))
      in if held_critical \<or> ratio \<ge> critical_at then SEVERITY_CRITICAL else SEVERITY_WARNING)"

definition check_burn_rate ::
  "datetime \<Rightarrow> snapshot \<Rightarrow> thresholds \<Rightarrow> (string, real) dict \<Rightarrow> int \<Rightarrow> string option \<Rightarrow> alert list" where
  "check_burn_rate now s cfg budgets window_days prior_severity =
     (case dict_get budgets (campaign_id s) of
        None \<Rightarrow> []
      | Some daily_budget \<Rightarrow>
          if daily_budget \<le> 0 then []
          else let days = max 1 window_days;
                   daily_spend = total_cost s / of_int days;
                   ratio = burn_ratio s daily_budget window_days
               in if ratio \<le> th_burn_rate_multiplier cfg then []
                  else let gap = gap_of ratio (th_burn_rate_multiplier cfg) True
                       in [\<lparr>al_campaign_id = campaign_id s, al_rule = BURN_RATE,
                            al_severity = burn_severity cfg prior_severity ratio,
                            al_observed = Some (py_round 3 ratio),
                            al_threshold = th_burn_rate_multiplier cfg,
                            al_message = ''Campaign '' @ campaign_id s @ '' is averaging ''
                              @ fmt_percent 0 ratio @ '' of its daily budget over '' @ show_int days
                              @ '' days'',
                            al_dedup_key = dedup_key_of (campaign_id s) BURN_RATE,
                            al_context = [(''daily_budget'', PFloat daily_budget),
                              (''total_cost'', PFloat (total_cost s)),
                              (''daily_spend'', PFloat (py_round 2 daily_spend)),
                              (''window_days'', PInt days),
                              (''critical_multiplier'', PFloat (th_burn_rate_critical_multiplier cfg))],
                            al_detected_at = now, al_urgency = gap\<rparr>])"

definition check_frequency ::
  "datetime \<Rightarrow> snapshot \<Rightarrow> thresholds \<Rightarrow> (string, int) dict \<Rightarrow> alert list" where
  "check_frequency now s cfg reach =
     (case dict_get reach (campaign_id s) of
        None \<Rightarrow> []
      | Some unique_reach \<Rightarrow>
          if unique_reach \<le> 0 then []
          else let frequency = of_int (impressions s) / of_int unique_reach
               in if frequency \<le> th_frequency_ceiling cfg then []
                  else let gap = gap_of frequency (th_frequency_ceiling cfg) True
                       in [\<lparr>al_campaign_id = campaign_id s, al_rule = FREQUENCY_FATIGUE,
                            al_severity = severity_from_gap gap,
                            al_observed = Some (py_round 3 frequency),
                            al_threshold = th_frequency_ceiling cfg,
                            al_message = ''Campaign '' @ campaign_id s @ '' frequency ''
                              @ fmt_fixed 2 frequency @ '' suggests creative fatigue'',
                            al_dedup_key = dedup_key_of (campaign_id s) FREQUENCY_FATIGUE,
                            al_context = [(''impressions'', PInt (impressions s)),
                              (''unique_reach'', PInt unique_reach)],
                            al_detected_at = now, al_urgency = gap\<rparr>])"

definition check_snapshot ::
  "datetime \<Rightarrow> thresholds \<Rightarrow> (string, real) dict \<Rightarrow> (string, int) dict \<Rightarrow> int
   \<Rightarrow> (string, string) dict \<Rightarrow> snapshot \<Rightarrow> alert list" where
  "check_snapshot now cfg budgets reach days prior s =
     check_ctr now s cfg @ check_cpa now s cfg @ check_roas now s cfg
     @ check_burn_rate now s cfg budgets days (dict_get prior (campaign_id s))
     @ check_frequency now s cfg reach"

definition alert_key :: "alert \<Rightarrow> nat \<times> string \<times> string" where
  "alert_key a = (severity_rank (al_severity a), al_campaign_id a, alert_rule_value (al_rule a))"

definition detect ::
  "datetime \<Rightarrow> snapshot list \<Rightarrow> thresholds \<Rightarrow> (string, real) dict \<Rightarrow> (string, int) dict \<Rightarrow> int
   \<Rightarrow> (string, string) dict \<Rightarrow> alert list" where
  "detect now ss cfg budgets reach window_days prior =
     (let days = max 1 window_days
      in sort_key alert_key (concat (map (check_snapshot now cfg budgets reach days prior) ss)))"

fun dedup_into :: "alert list \<Rightarrow> (string, alert) dict \<Rightarrow> (string, alert) dict" where
  "dedup_into [] best = best"
| "dedup_into (a # as) best =
     (case dict_get best (fingerprint a) of
        None \<Rightarrow> dedup_into as (AList.update (fingerprint a) a best)
      | Some current \<Rightarrow>
          if severity_rank (al_severity a) < severity_rank (al_severity current)
          then dedup_into as (AList.update (fingerprint a) a best)
          else dedup_into as best)"

definition deduplicate :: "alert list \<Rightarrow> alert list" where
  "deduplicate alerts = map snd (dedup_into alerts [])"

subsection \<open>The contract of a dictionary of best elements\<close>

locale keyed_best =
  fixes key :: "'a \<Rightarrow> 'k" and cost :: "'a \<Rightarrow> 'r::linorder"
    and collapse :: "'a list \<Rightarrow> ('k, 'a) dict \<Rightarrow> ('k, 'a) dict"
  assumes collapse_Nil: "collapse [] d = d"
    and collapse_new: "map_of d (key a) = None \<Longrightarrow>
      collapse (a # as) d = collapse as (AList.update (key a) a d)"
    and collapse_better: "map_of d (key a) = Some b \<Longrightarrow> cost a < cost b \<Longrightarrow>
      collapse (a # as) d = collapse as (AList.update (key a) a d)"
    and collapse_worse: "map_of d (key a) = Some b \<Longrightarrow> \<not> cost a < cost b \<Longrightarrow>
      collapse (a # as) d = collapse as d"
begin

definition best_dict :: "('k, 'a) dict \<Rightarrow> bool" where
  "best_dict d \<longleftrightarrow> distinct (map fst d) \<and> (\<forall>k a. map_of d k = Some a \<longrightarrow> key a = k)"

lemma collapse_step:
  obtains "collapse (a # as) d = collapse as (AList.update (key a) a d)"
    and "\<And>b. map_of d (key a) = Some b \<Longrightarrow> cost a \<le> cost b"
  | b where "collapse (a # as) d = collapse as d" and "map_of d (key a) = Some b" and "cost b \<le> cost a"
proof (cases "map_of d (key a)")
  case None
  then show ?thesis using that(1) collapse_new by simp
next
  case (Some b)
  show ?thesis
  proof (cases "cost a < cost b")
    case True
    then show ?thesis using that(1) Some collapse_better by (metis less_imp_le option.inject)
  next
    case False
    then show ?thesis using that(2) Some collapse_worse by (metis leI)
  qed
qed

lemma best_dict_update: "best_dict d \<Longrightarrow> best_dict (AList.update (key a) a d)"
  by (auto simp: best_dict_def distinct_update update_conv')

lemma best_dict_collapse: "best_dict d \<Longrightarrow> best_dict (collapse as d)"
proof (induction as arbitrary: d)
  case (Cons a as)
  show ?case
    by (rule collapse_step [of a as d]) (simp_all add: Cons.IH Cons.prems best_dict_update)
qed (simp add: collapse_Nil)

lemma collapse_origin:
  "map_of (collapse as d) k = Some x \<Longrightarrow> x \<in> set as \<or> map_of d k = Some x"
proof (induction as arbitrary: d)
  case (Cons a as)
  show ?case
  proof (rule collapse_step [of a as d])
    assume "collapse (a # as) d = collapse as (AList.update (key a) a d)"
    then show ?thesis
      using Cons.IH [of "AList.update (key a) a d"] Cons.prems by (auto simp: update_conv' split: if_splits)
  next
    assume "collapse (a # as) d = collapse as d"
    then show ?thesis using Cons.IH [of d] Cons.prems by auto
  qed
qed (simp add: collapse_Nil)

lemma collapse_lower:
  "(\<exists>b. map_of d k = Some b \<and> cost b \<le> c) \<Longrightarrow> (\<exists>b. map_of (collapse as d) k = Some b \<and> cost b \<le> c)"
proof (induction as arbitrary: d)
  case (Cons a as)
  then obtain b where b: "map_of d k = Some b" "cost b \<le> c" by blast
  show ?case
  proof (rule collapse_step [of a as d])
    assume eq: "collapse (a # as) d = collapse as (AList.update (key a) a d)"
      and le: "\<And>b. map_of d (key a) = Some b \<Longrightarrow> cost a \<le> cost b"
    have "\<exists>b. map_of (AList.update (key a) a d) k = Some b \<and> cost b \<le> c"
      using b le [of b] by (auto simp: update_conv')
    then show ?thesis unfolding eq by (rule Cons.IH)
  next
    fix e assume eq: "collapse (a # as) d = collapse as d"
    show ?thesis unfolding eq by (rule Cons.IH) (use b in blast)
  qed
qed (simp add: collapse_Nil)

lemma collapse_covers:
  "x \<in> set as \<Longrightarrow> \<exists>b. map_of (collapse as d) (key x) = Some b \<and> cost b \<le> cost x"
proof (induction as arbitrary: d)
  case (Cons a as)
  show ?case
  proof (rule collapse_step [of a as d])
    assume eq: "collapse (a # as) d = collapse as (AList.update (key a) a d)"
    show ?thesis
    proof (cases "x \<in> set as")
      case False
      then show ?thesis unfolding eq using Cons.prems by (intro collapse_lower) (simp add: update_conv')
    qed (simp add: eq Cons.IH)
  next
    fix b assume eq: "collapse (a # as) d = collapse as d"
      and b: "map_of d (key a) = Some b" "cost b \<le> cost a"
    show ?thesis
    proof (cases "x \<in> set as")
      case False
      then show ?thesis unfolding eq using Cons.prems b by (intro collapse_lower) auto
    qed (simp add: eq Cons.IH)
  qed
qed simp

theorem collapse_spec:
  fixes xs :: "'a list"
  defines "r \<equiv> map snd (collapse xs [])"
  shows "distinct (map key r)" and "set r \<subseteq> set xs"
    and "x \<in> set xs \<Longrightarrow> \<exists>b\<in>set r. key b = key x \<and> cost b \<le> cost x"
proof -
  have bd: "best_dict (collapse xs [])" by (rule best_dict_collapse) (simp add: best_dict_def)
  then have keys: "map key r = map fst (collapse xs [])"
    by (auto simp: best_dict_def r_def)
  then show "distinct (map key r)" using bd by (simp add: best_dict_def)
  show "set r \<subseteq> set xs"
  proof
    fix y assume "y \<in> set r"
    then obtain k where "(k, y) \<in> set (collapse xs [])" by (auto simp: r_def)
    then have "map_of (collapse xs []) k = Some y" using bd by (simp add: best_dict_def)
    then show "y \<in> set xs" using collapse_origin [of xs "[]" k y] by simp
  qed
  assume "x \<in> set xs"
  then obtain b where b: "map_of (collapse xs []) (key x) = Some b" "cost b \<le> cost x"
    using collapse_covers [of x xs "[]"] by blast
  then have mem: "(key x, b) \<in> set (collapse xs [])" by (simp add: map_of_SomeD)
  then have "key b = key x" using bd by (auto simp: best_dict_def)
  moreover have "b \<in> set r" using mem by (force simp: r_def)
  ultimately show "\<exists>b\<in>set r. key b = key x \<and> cost b \<le> cost x" using b(2) by blast
qed

end

interpretation alert_dedup: keyed_best fingerprint "\<lambda>a. severity_rank (al_severity a)" dedup_into
  by unfold_locales (simp_all add: dict_get_def)

subsection \<open>Soundness of the rules\<close>

lemma severity_rank_eq: "severity_rank s \<le> severity_rank t \<longleftrightarrow> s \<le> t"
  by (cases s; cases t) (simp_all add: severity_rank_def less_eq_alert_severity_def)

lemma set_check_snapshot:
  "set (check_snapshot now cfg budgets reach days prior s) =
     set (check_ctr now s cfg) \<union> set (check_cpa now s cfg) \<union> set (check_roas now s cfg)
     \<union> set (check_burn_rate now s cfg budgets days (dict_get prior (campaign_id s)))
     \<union> set (check_frequency now s cfg reach)"
  by (auto simp: check_snapshot_def)

lemma set_detect:
  "set (detect now ss cfg budgets reach window_days prior) =
     (\<Union>s\<in>set ss. set (check_snapshot now cfg budgets reach (max 1 window_days) prior s))"
  by (simp add: detect_def Let_def)

lemmas rule_defs = check_ctr_def check_cpa_def check_roas_def check_burn_rate_def check_frequency_def

lemma check_rule_fields:
  assumes "a \<in> set (check_snapshot now cfg budgets reach days prior s)"
  shows "al_campaign_id a = campaign_id s"
    and "al_dedup_key a = dedup_key_of (campaign_id s) (al_rule a)"
    and "al_rule a \<noteq> IMPRESSION_COLLAPSE"
    and "al_detected_at a = now"
proof -
  define ok where "ok b \<longleftrightarrow> al_campaign_id b = campaign_id s \<and> al_dedup_key b = dedup_key_of (campaign_id s) (al_rule b)
    \<and> al_rule b \<noteq> IMPRESSION_COLLAPSE \<and> al_detected_at b = now" for b :: alert
  have "list_all ok (check_ctr now s cfg)" "list_all ok (check_cpa now s cfg)" "list_all ok (check_roas now s cfg)"
    by (simp_all add: check_ctr_def check_cpa_def check_roas_def Let_def ok_def)
  moreover have "list_all ok (check_burn_rate now s cfg budgets days p)" for p
    by (simp add: check_burn_rate_def Let_def ok_def split: option.split)
  moreover have "list_all ok (check_frequency now s cfg reach)"
    by (simp add: check_frequency_def Let_def ok_def split: option.split)
  ultimately have "ok a" using assms by (auto simp: set_check_snapshot list_all_iff)
  then show "al_campaign_id a = campaign_id s" "al_dedup_key a = dedup_key_of (campaign_id s) (al_rule a)"
    "al_rule a \<noteq> IMPRESSION_COLLAPSE" "al_detected_at a = now" by (simp_all add: ok_def)
qed

lemma burn_severity_held:
  "prior = Some (alert_severity_value SEVERITY_CRITICAL) \<Longrightarrow>
   th_burn_rate_critical_multiplier cfg * (1 - th_burn_rate_hysteresis cfg) \<le> ratio \<Longrightarrow>
   burn_severity cfg prior ratio = SEVERITY_CRITICAL"
  by (simp add: burn_severity_def)

lemma severity_from_gap_mono: "g \<le> h \<Longrightarrow> severity_from_gap h \<le> severity_from_gap g"
  by (auto simp: severity_from_gap_def CRITICAL_GAP_def WARNING_GAP_def less_eq_alert_severity_def)

subsection \<open>Properties\<close>

text \<open>
  Detection is ordered and attributable: the alerts come sorted by severity, then campaign, then
  rule; each one belongs to a snapshot that was passed in and carries the fingerprint
  \<open>campaign:rule\<close>; and no call ever raises the impression-collapse rule the enumeration lists.
\<close>

theorem detect_sorted_and_attributed:
  "sorted (map alert_key (detect now ss cfg budgets reach days prior))
   \<and> (\<forall>a\<in>set (detect now ss cfg budgets reach days prior).
        (\<exists>s\<in>set ss. al_campaign_id a = campaign_id s)
        \<and> fingerprint a = dedup_key_of (al_campaign_id a) (al_rule a)
        \<and> al_rule a \<noteq> IMPRESSION_COLLAPSE)"
proof (intro conjI ballI)
  show "sorted (map alert_key (detect now ss cfg budgets reach days prior))"
    by (simp add: detect_def Let_def)
  fix a assume "a \<in> set (detect now ss cfg budgets reach days prior)"
  then obtain s where s: "s \<in> set ss" and a: "a \<in> set (check_snapshot now cfg budgets reach (max 1 days) prior s)"
    by (auto simp: set_detect)
  note fields = check_rule_fields [OF a]
  show "\<exists>s\<in>set ss. al_campaign_id a = campaign_id s" using s fields(1) by blast
  show "fingerprint a = dedup_key_of (al_campaign_id a) (al_rule a)"
    using fields(1,2) by (simp add: fingerprint_def)
  show "al_rule a \<noteq> IMPRESSION_COLLAPSE" by (rule fields(3))
qed

theorem detect_sorted_and_attributed_witness:
  "sorted (map alert_key (detect (Aware 0) [plain_snapshot ''b'' 1000 1 0 500 10, plain_snapshot ''a'' 1000 50 5 180 300]
       default_thresholds [(''a'', 100)] [] 1 []))"
  using detect_sorted_and_attributed [of "Aware 0"
    "[plain_snapshot ''b'' 1000 1 0 500 10, plain_snapshot ''a'' 1000 50 5 180 300]"
    default_thresholds "[(''a'', 100)]" "[]" 1 "[]"] by blast

text \<open>
  A burn-rate alert does not flap at the critical line: with a daily budget on record and a ratio
  over the alert multiplier, a campaign critical on the previous pass is critical again as long as its
  ratio is at least the critical multiplier less the hysteresis band, and a campaign that was not
  critical is critical exactly from the critical multiplier on.
\<close>

theorem burn_rate_hysteresis:
  assumes "dict_get budgets (campaign_id s) = Some b" "0 < b"
    "th_burn_rate_multiplier cfg < burn_ratio s b days"
  shows "map (\<lambda>a. (al_rule a, al_severity a)) (check_burn_rate now s cfg budgets days prior) =
    [(BURN_RATE,
      if th_burn_rate_critical_multiplier cfg
           * (if prior = Some ''critical'' then 1 - th_burn_rate_hysteresis cfg else 1) \<le> burn_ratio s b days
         \<or> th_burn_rate_critical_multiplier cfg \<le> burn_ratio s b days
      then SEVERITY_CRITICAL else SEVERITY_WARNING)]"
  using assms by (auto simp: check_burn_rate_def burn_severity_def Let_def min_def)

theorem burn_rate_hysteresis_witness:
  "map (\<lambda>a. (al_rule a, al_severity a)) (check_burn_rate (Aware 0) (plain_snapshot ''c1'' 1000 50 5 180 300)
       default_thresholds [(''c1'', 100)] 1 (Some ''critical'')) =
    [(BURN_RATE,
      if th_burn_rate_critical_multiplier default_thresholds
           * (if Some ''critical'' = Some ''critical'' then 1 - th_burn_rate_hysteresis default_thresholds else 1)
           \<le> burn_ratio (plain_snapshot ''c1'' 1000 50 5 180 300) 100 1
         \<or> th_burn_rate_critical_multiplier default_thresholds \<le> burn_ratio (plain_snapshot ''c1'' 1000 50 5 180 300) 100 1
      then SEVERITY_CRITICAL else SEVERITY_WARNING)]"
  by (rule burn_rate_hysteresis)
    (simp_all add: dict_get_def burn_ratio_def safe_ratio_def default_thresholds_def)

text \<open>
  Deduplication keeps one alert per fingerprint, and the most severe one: the result has pairwise
  distinct fingerprints, holds only alerts of the input, and for every alert of the input it holds one
  with the same fingerprint that is at least as severe.
\<close>

theorem deduplicate_keeps_most_severe:
  "distinct (map fingerprint (deduplicate as)) \<and> set (deduplicate as) \<subseteq> set as
   \<and> (\<forall>a\<in>set as. \<exists>b\<in>set (deduplicate as). fingerprint b = fingerprint a \<and> al_severity b \<le> al_severity a)"
  using alert_dedup.collapse_spec [where xs = as] by (simp add: deduplicate_def severity_rank_eq)

theorem deduplicate_keeps_most_severe_witness:
  "distinct (map fingerprint (deduplicate (check_ctr (Aware 0) (plain_snapshot ''a'' 1000 1 0 50 10) default_thresholds
     @ check_ctr (Aware 1) (plain_snapshot ''a'' 1000 0 0 50 10) default_thresholds)))"
  using deduplicate_keeps_most_severe [of "check_ctr (Aware 0) (plain_snapshot ''a'' 1000 1 0 50 10) default_thresholds
     @ check_ctr (Aware 1) (plain_snapshot ''a'' 1000 0 0 50 10) default_thresholds"] by blast

end
