(* ===== verification/Budget.thy ===== *)
theory Budget
  imports Kpi
begin

text \<open>
  \<open>domain/budget.py\<close>: the reallocation of budget across campaigns as a linear program solved by a
  greedy fill. The numpy arrays are lists of the same length, indices are the positions of the
  eligible snapshots; \<open>_apply_holds\<close>, which writes the lower bounds in place, returns them with the
  holds that survive.

  The CVXPY solver is an argument of the definitions: a function from the scores, the bounds and the
  total to \<open>x.value\<close>, or \<open>None\<close> when the package is absent, the solver fails or the status is not
  optimal.
\<close>

type_synonym lp_solver = "real list \<Rightarrow> real list \<Rightarrow> real list \<Rightarrow> real \<Rightarrow> real list option"

definition MIN_BUDGET_FLOOR :: real where "MIN_BUDGET_FLOOR = 1"
definition EFFICIENCY_REFERENCE_ROAS :: real where "EFFICIENCY_REFERENCE_ROAS = 3"

record allocation =
  ba_campaign_id :: string
  ba_campaign_name :: string
  ba_current_budget :: real
  ba_recommended_budget :: real
  ba_score :: real
  ba_change_pct :: real
  ba_reason :: string
  ba_solver :: string

definition allocation_delta :: "allocation \<Rightarrow> real" where
  "allocation_delta a = py_round 4 (ba_recommended_budget a - ba_current_budget a)"

text \<open>\<open>math.log1p\<close>.\<close>

definition log1p :: "real \<Rightarrow> real" where "log1p x = ln (1 + x)"

definition allocation_score :: "snapshot \<Rightarrow> real" where
  "allocation_score s =
     (let confidence_weight = clamp_ok (safe_ratio (of_int (impressions s)) 10000) 0.2 1;
          r = max (roas s) 0;
          efficiency = safe_ratio (log1p r) (log1p EFFICIENCY_REFERENCE_ROAS);
          scale = clamp_ok (safe_ratio (of_int (conversions s)) 10) 0 1
      in py_round 6 (efficiency * (0.5 + 0.3 * confidence_weight + 0.2 * scale)))"

definition fill_order :: "string list \<Rightarrow> real list \<Rightarrow> real list \<Rightarrow> nat list" where
  "fill_order campaign_ids scores rs =
     sort_key (\<lambda>i. (- (scores ! i), - (rs ! i), campaign_ids ! i)) [0..<length campaign_ids]"

fun greedy_fill :: "real list \<Rightarrow> nat list \<Rightarrow> real list \<Rightarrow> real \<Rightarrow> real list" where
  "greedy_fill upper [] alloc remaining = alloc"
| "greedy_fill upper (i # is) alloc remaining =
     (let room = upper ! i - alloc ! i
      in if room \<le> 0 then greedy_fill upper is alloc remaining
         else let taken = min room remaining;
                  alloc' = alloc[i := alloc ! i + taken];
                  remaining' = remaining - taken
              in if remaining' \<le> 1 / 10 ^ 9 then alloc' else greedy_fill upper is alloc' remaining')"

definition greedy_optimum :: "real list \<Rightarrow> real list \<Rightarrow> real \<Rightarrow> nat list \<Rightarrow> real list" where
  "greedy_optimum lower upper tot order =
     (let remaining = tot - sum_list lower
      in if remaining \<le> 0 then lower else greedy_fill upper order lower remaining)"

definition headroom :: "real list \<Rightarrow> real list \<Rightarrow> real \<Rightarrow> (py_error, real) res" where
  "headroom lower upper requested_total =
     (let floor_total = sum_list lower
      in bind_res (clamp requested_total floor_total (sum_list upper)) (\<lambda>c. Inr (c - floor_total)))"

subsection \<open>Holds\<close>

definition release_bound :: "real list \<Rightarrow> real \<Rightarrow> real \<Rightarrow> nat \<Rightarrow> real" where
  "release_bound current change lowest i = max (current ! i * (1 - change)) lowest"

fun release_holds ::
  "real list \<Rightarrow> real list \<Rightarrow> real \<Rightarrow> real \<Rightarrow> real \<Rightarrow> nat list \<Rightarrow> real list \<Rightarrow> nat list
   \<Rightarrow> (py_error, real list \<times> nat list) res" where
  "release_holds upper current change lowest requested [] lower effective = Inr (lower, effective)"
| "release_holds upper current change lowest requested (i # is) lower effective =
     (let lower' = lower[i := release_bound current change lowest i];
          effective' = removeAll i effective
      in bind_res (headroom lower' upper requested) (\<lambda>h.
           if h > 0 then Inr (lower', effective')
           else release_holds upper current change lowest requested is lower' effective'))"

definition held_indices :: "string list \<Rightarrow> string set \<Rightarrow> nat list" where
  "held_indices campaign_ids held = filter (\<lambda>i. campaign_ids ! i \<in> held) [0..<length campaign_ids]"

definition pin_lower :: "real list \<Rightarrow> nat list \<Rightarrow> real list \<Rightarrow> real list" where
  "pin_lower current is lower = map (\<lambda>i. if i \<in> set is then current ! i else lower ! i) [0..<length lower]"

definition apply_holds ::
  "real list \<Rightarrow> real list \<Rightarrow> real list \<Rightarrow> real list \<Rightarrow> string list \<Rightarrow> string set \<Rightarrow> real \<Rightarrow> real \<Rightarrow> real
   \<Rightarrow> (py_error, real list \<times> nat list) res" where
  "apply_holds lower upper current scores campaign_ids held change lowest requested =
     (let effective = held_indices campaign_ids held;
          lower' = pin_lower current effective lower
      in if effective = [] then Inr (lower', effective)
         else bind_res (headroom lower' upper requested) (\<lambda>h.
           if h > 0 then Inr (lower', effective)
           else release_holds upper current change lowest requested
                  (sort_key (\<lambda>i. (scores ! i, campaign_ids ! i)) effective) lower' effective))"

subsection \<open>The plan\<close>

definition np_clip :: "real list \<Rightarrow> real list \<Rightarrow> real list \<Rightarrow> real list" where
  "np_clip xs lower upper = map2 min (map2 max xs lower) upper"

definition cvxpy_optimum :: "lp_solver \<Rightarrow> real list \<Rightarrow> real list \<Rightarrow> real list \<Rightarrow> real \<Rightarrow> real list option" where
  "cvxpy_optimum solver scores lower upper tot =
     (case solver scores lower upper tot of None \<Rightarrow> None | Some x \<Rightarrow> Some (np_clip x lower upper))"

definition dot :: "real list \<Rightarrow> real list \<Rightarrow> real" where
  "dot xs ys = sum_list (map2 (*) xs ys)"

definition choose_plan ::
  "lp_solver \<Rightarrow> bool \<Rightarrow> real list \<Rightarrow> real list \<Rightarrow> real list \<Rightarrow> real \<Rightarrow> nat list \<Rightarrow> real list \<times> string" where
  "choose_plan solver cross_check scores lower upper budget order =
     (let greedy = greedy_optimum lower upper budget order
      in if \<not> cross_check then (greedy, ''greedy_lp'')
         else case cvxpy_optimum solver scores lower upper budget of
                None \<Rightarrow> (greedy, ''greedy_lp'')
              | Some solved \<Rightarrow>
                  if dot scores solved > dot scores greedy * (1 + 1 / 10 ^ 6)
                  then (solved, ''cvxpy'') else (greedy, ''greedy_lp(verified)''))"

definition baseline :: "snapshot \<Rightarrow> (string, real) dict \<Rightarrow> real" where
  "baseline s budgets =
     (case dict_get budgets (campaign_id s) of
        Some configured \<Rightarrow> if configured > 0 then configured else total_cost s
      | None \<Rightarrow> total_cost s)"

definition allocation_reason :: "snapshot \<Rightarrow> real \<Rightarrow> bool \<Rightarrow> string" where
  "allocation_reason s change_pct held_at_target =
     (if held_at_target \<and> \<bar>change_pct\<bar> \<le> 5
      then ''ROAS '' @ fmt_fixed 2 (roas s) @ '' meets its target, budget held rather than cut''
      else if change_pct > 5
      then ''ROAS '' @ fmt_fixed 2 (roas s) @ '' leads the portfolio, scaling spend up''
      else if change_pct < - 5
      then ''ROAS '' @ fmt_fixed 2 (roas s) @ '' trails the portfolio, pulling spend back''
      else ''Performance is in line with the portfolio, budget held'')"

definition to_allocation ::
  "snapshot \<Rightarrow> real \<Rightarrow> real \<Rightarrow> real \<Rightarrow> string \<Rightarrow> bool \<Rightarrow> (py_error, allocation) res" where
  "to_allocation s current_budget recommended score solver held_at_target =
     (let change_pct = safe_ratio (recommended - current_budget) current_budget * 100
      in if py_round 2 current_budget < 0 \<or> py_round 2 recommended < 0
         then Inl (ValueError ''Input should be greater than or equal to 0'')
         else Inr \<lparr>ba_campaign_id = campaign_id s, ba_campaign_name = campaign_name s,
                ba_current_budget = py_round 2 current_budget,
                ba_recommended_budget = py_round 2 recommended, ba_score = score,
                ba_change_pct = py_round 2 change_pct,
                ba_reason = allocation_reason s change_pct held_at_target, ba_solver = solver\<rparr>)"

record budget_problem =
  bp_eligible :: "snapshot list"
  bp_ids :: "string list"
  bp_current :: "real list"
  bp_scores :: "real list"
  bp_roas :: "real list"
  bp_change :: real
  bp_lower :: "real list"
  bp_upper :: "real list"
  bp_requested :: real

text \<open>The arrays \<open>allocate\<close> sets up before it applies the holds.\<close>

definition budget_problem_of ::
  "snapshot list \<Rightarrow> real option \<Rightarrow> real \<Rightarrow> (string, real) dict \<Rightarrow> real \<Rightarrow> budget_problem" where
  "budget_problem_of snapshots total_budget max_change_pct budgets lowest =
     (let eligible = filter (\<lambda>s. total_cost s > 0) snapshots;
          change = clamp_ok max_change_pct 0 10;
          current = map (\<lambda>s. max (baseline s budgets) lowest) eligible
      in \<lparr>bp_eligible = eligible, bp_ids = map campaign_id eligible, bp_current = current,
          bp_scores = map (\<lambda>s. max (allocation_score s) (1 / 10 ^ 6)) eligible,
          bp_roas = map (\<lambda>s. max (roas s) 0) eligible,
          bp_change = change,
          bp_lower = map (\<lambda>c. max (c * (1 - change)) lowest) current,
          bp_upper = map (\<lambda>c. c * (1 + change)) current,
          bp_requested = (case total_budget of None \<Rightarrow> sum_list current | Some t \<Rightarrow> t)\<rparr>)"

definition allocate ::
  "lp_solver \<Rightarrow> snapshot list \<Rightarrow> real option \<Rightarrow> real \<Rightarrow> (string, real) dict \<Rightarrow> real \<Rightarrow> bool \<Rightarrow> string set
   \<Rightarrow> (py_error, allocation list) res" where
  "allocate solver snapshots total_budget max_change_pct budgets lowest cross_check held =
     (let p = budget_problem_of snapshots total_budget max_change_pct budgets lowest
      in if bp_eligible p = [] then Inr []
         else bind_res (apply_holds (bp_lower p) (bp_upper p) (bp_current p) (bp_scores p) (bp_ids p)
                          held (bp_change p) lowest (bp_requested p)) (\<lambda>(lower, effective).
              bind_res (clamp (bp_requested p) (sum_list lower) (sum_list (bp_upper p))) (\<lambda>budget.
                (let chosen = choose_plan solver cross_check (bp_scores p) lower (bp_upper p) budget
                       (fill_order (bp_ids p) (bp_scores p) (bp_roas p))
                 in map_res (\<lambda>i. to_allocation (bp_eligible p ! i) (bp_current p ! i) (fst chosen ! i)
                                   (bp_scores p ! i) (snd chosen) (i \<in> set effective))
                      [0..<length (bp_eligible p)]))))"

record budget_delta =
  bd_campaigns :: nat
  bd_current_total :: real
  bd_recommended_total :: real
  bd_net_delta :: real
  bd_increased :: nat
  bd_decreased :: nat
  bd_unchanged :: nat

definition total_delta :: "allocation list \<Rightarrow> budget_delta" where
  "total_delta as =
     \<lparr>bd_campaigns = length as,
      bd_current_total = py_round 2 (sum_list (map ba_current_budget as)),
      bd_recommended_total = py_round 2 (sum_list (map ba_recommended_budget as)),
      bd_net_delta = py_round 2 (sum_list (map allocation_delta as)),
      bd_increased = length (filter (\<lambda>a. allocation_delta a > 0) as),
      bd_decreased = length (filter (\<lambda>a. allocation_delta a < 0) as),
      bd_unchanged = length (filter (\<lambda>a. allocation_delta a = 0) as)\<rparr>"

subsection \<open>The greedy fill\<close>

definition in_box :: "real list \<Rightarrow> real list \<Rightarrow> real list \<Rightarrow> bool" where
  "in_box lower upper xs \<longleftrightarrow> length xs = length lower
     \<and> (\<forall>i<length lower. lower ! i \<le> xs ! i \<and> xs ! i \<le> upper ! i)"

definition below_upper :: "real list \<Rightarrow> real list \<Rightarrow> bool" where
  "below_upper lower upper \<longleftrightarrow> length upper = length lower \<and> (\<forall>i<length lower. lower ! i \<le> upper ! i)"

lemma in_box_lower [simp]: "below_upper lower upper \<Longrightarrow> in_box lower upper lower"
  by (simp add: in_box_def below_upper_def)

lemma in_box_raise:
  assumes "in_box lower upper alloc" "0 \<le> d" "d \<le> upper ! i - alloc ! i"
  shows "in_box lower upper (alloc[i := alloc ! i + d])"
proof (cases "i < length alloc")
  case True
  with assms show ?thesis by (force simp: in_box_def nth_list_update)
next
  case False
  with assms(1) show ?thesis by (simp add: list_update_beyond)
qed

lemma greedy_fill_box:
  "in_box lower upper alloc \<Longrightarrow> 0 \<le> remaining \<Longrightarrow> in_box lower upper (greedy_fill upper is alloc remaining)"
proof (induction "is" arbitrary: alloc remaining)
  case (Cons i "is")
  define taken where "taken = min (upper ! i - alloc ! i) remaining"
  show ?case
  proof (cases "upper ! i - alloc ! i \<le> 0")
    case True
    then show ?thesis using Cons by simp
  next
    case False
    have "in_box lower upper (alloc[i := alloc ! i + taken])"
      using Cons.prems False by (intro in_box_raise) (auto simp: taken_def)
    moreover have "0 \<le> remaining - taken" by (simp add: taken_def)
    ultimately show ?thesis
      using False Cons.IH by (simp add: Let_def taken_def [symmetric])
  qed
qed simp

lemma greedy_optimum_box:
  "below_upper lower upper \<Longrightarrow> in_box lower upper (greedy_optimum lower upper tot order)"
  by (simp add: greedy_optimum_def Let_def greedy_fill_box)

text \<open>
  What a run of the fill leaves behind: either every coordinate is at its upper bound, or the
  coordinates scoring above a threshold are full, those below it are untouched, and at most
  \<open>1e-9\<close> of the total is unplaced.
\<close>

definition filled :: "(nat \<Rightarrow> real) \<Rightarrow> real list \<Rightarrow> real list \<Rightarrow> real \<Rightarrow> real list \<Rightarrow> bool" where
  "filled sc lower upper tot a \<longleftrightarrow>
     (\<forall>i<length lower. a ! i = upper ! i)
     \<or> (\<exists>k<length lower. tot - sum_list a \<le> 1 / 10 ^ 9 \<and> (\<forall>i<length lower.
          (sc k < sc i \<longrightarrow> a ! i = upper ! i) \<and> (sc i < sc k \<longrightarrow> a ! i = lower ! i)))"

lemma sum_list_add_at:
  fixes xs :: "real list"
  assumes "i < length xs"
  shows "sum_list (xs[i := xs ! i + d]) = sum_list xs + d"
  using assms by (induction xs arbitrary: i) (auto simp: nth_Cons split: nat.splits)

lemma greedy_fill_filled:
  assumes "in_box lower upper alloc" "0 < remaining" "distinct is" "sorted_wrt (\<lambda>i j. sc j \<le> sc i) is"
    "\<forall>i\<in>set is. i < length lower \<and> alloc ! i = lower ! i"
    "\<forall>i<length lower. i \<notin> set is \<longrightarrow> alloc ! i = upper ! i \<and> (\<forall>j\<in>set is. sc j \<le> sc i)"
  shows "filled sc lower upper (sum_list alloc + remaining) (greedy_fill upper is alloc remaining)
    \<and> sum_list (greedy_fill upper is alloc remaining) \<le> sum_list alloc + remaining"
  using assms
proof (induction "is" arbitrary: alloc remaining)
  case Nil
  then show ?case by (simp add: filled_def)
next
  case (Cons i "is")
  define taken where "taken = min (upper ! i - alloc ! i) remaining"
  define alloc' where "alloc' = alloc[i := alloc ! i + taken]"
  have i: "i < length lower" "i < length alloc" "alloc ! i = lower ! i"
    using Cons.prems by (auto simp: in_box_def)
  have rest: "\<forall>j\<in>set is. sc j \<le> sc i" "i \<notin> set is" using Cons.prems by auto
  show ?case
  proof (cases "upper ! i - alloc ! i \<le> 0")
    case True
    then have "alloc ! i = upper ! i" using Cons.prems(1) i by (force simp: in_box_def)
    have eq: "greedy_fill upper (i # is) alloc remaining = greedy_fill upper is alloc remaining"
      using True by simp
    show ?thesis
      unfolding eq by (rule Cons.IH) (use Cons.prems rest \<open>alloc ! i = upper ! i\<close> in auto)
  next
    case False
    have box': "in_box lower upper alloc'"
      unfolding alloc'_def using Cons.prems(1,2) False by (intro in_box_raise) (auto simp: taken_def)
    have total': "sum_list alloc' = sum_list alloc + taken"
      unfolding alloc'_def by (rule sum_list_add_at [OF i(2)])
    show ?thesis
    proof (cases "remaining - taken \<le> 1 / 10 ^ 9")
      case True
      then have res: "greedy_fill upper (i # is) alloc remaining = alloc'"
        using False by (simp add: Let_def taken_def alloc'_def)
      have "filled sc lower upper (sum_list alloc + remaining) alloc'"
        unfolding filled_def
      proof (intro disjI2 exI [of _ i] conjI allI impI)
        show "sum_list alloc + remaining - sum_list alloc' \<le> 1 / 10 ^ 9" using True total' by simp
        fix j assume j: "j < length lower"
        { assume "sc i < sc j"
          then have "j \<notin> set (i # is)" using rest by auto
          then show "alloc' ! j = upper ! j" using Cons.prems(6) j by (simp add: alloc'_def) }
        { assume lt: "sc j < sc i"
          then have "j \<in> set is" using Cons.prems(6) j by fastforce
          moreover from this have "i \<noteq> j" using rest by auto
          ultimately show "alloc' ! j = lower ! j" using Cons.prems(5) by (simp add: alloc'_def) }
      qed (rule i(1))
      moreover have "sum_list alloc' \<le> sum_list alloc + remaining" using total' by (simp add: taken_def)
      ultimately show ?thesis unfolding res by blast
    next
      case F2: False
      have full: "taken = upper ! i - alloc ! i" using F2 Cons.prems(2) by (auto simp: taken_def min_def split: if_splits)
      have "filled sc lower upper (sum_list alloc' + (remaining - taken)) (greedy_fill upper is alloc' (remaining - taken))
        \<and> sum_list (greedy_fill upper is alloc' (remaining - taken)) \<le> sum_list alloc' + (remaining - taken)"
      proof (rule Cons.IH [OF box'])
        show "0 < remaining - taken" using F2 by (smt (verit) divide_nonneg_nonneg zero_le_power)
        show "\<forall>j\<in>set is. j < length lower \<and> alloc' ! j = lower ! j"
          using Cons.prems(5) rest unfolding alloc'_def by (metis list.set_intros(2) nth_list_update_neq)
        show "\<forall>j<length lower. j \<notin> set is \<longrightarrow> alloc' ! j = upper ! j \<and> (\<forall>k\<in>set is. sc k \<le> sc j)"
          using Cons.prems(6) rest i by (auto simp: alloc'_def nth_list_update full)
      qed (use Cons.prems in auto)
      then show ?thesis using False F2 total' by (simp add: Let_def taken_def [symmetric] alloc'_def [symmetric])
    qed
  qed
qed

lemma fill_order_set: "set (fill_order ids sc rs) = {..<length ids}"
  by (auto simp: fill_order_def)

lemma fill_order_distinct: "distinct (fill_order ids sc rs)"
  by (simp add: fill_order_def)

lemma fill_order_sorted: "sorted_wrt (\<lambda>i j. sc ! j \<le> sc ! i) (fill_order ids sc rs)"
proof -
  let ?f = "\<lambda>i. (- (sc ! i), - (rs ! i), ids ! i)"
  have "sorted (map ?f (fill_order ids sc rs))" by (simp add: fill_order_def)
  then have "sorted_wrt (\<lambda>i j. ?f i \<le> ?f j) (fill_order ids sc rs)" by (simp add: sorted_wrt_map)
  then show ?thesis by (rule sorted_wrt_mono_rel [rotated]) (auto simp: less_eq_prod_def less_prod_def)
qed

lemma greedy_optimum_filled:
  fixes sc rs :: "real list"
  assumes "below_upper lower upper" "length ids = length lower"
    "sum_list lower \<le> tot" "tot \<le> sum_list upper"
  defines "a \<equiv> greedy_optimum lower upper tot (fill_order ids sc rs)"
  shows "sum_list a \<le> tot \<and> tot - sum_list a \<le> 1 / 10 ^ 9
    \<and> ((\<forall>i<length lower. a ! i = lower ! i) \<and> tot = sum_list lower \<or> filled ((!) sc) lower upper tot a)"
proof (cases "tot - sum_list lower \<le> 0")
  case True
  then show ?thesis using assms(3) by (simp add: a_def greedy_optimum_def)
next
  case False
  then have a: "a = greedy_fill upper (fill_order ids sc rs) lower (tot - sum_list lower)"
    by (simp add: a_def greedy_optimum_def)
  have "filled ((!) sc) lower upper (sum_list lower + (tot - sum_list lower)) a
    \<and> sum_list a \<le> sum_list lower + (tot - sum_list lower)"
    unfolding a
    by (rule greedy_fill_filled)
      (use False assms in \<open>auto simp: fill_order_distinct fill_order_sorted fill_order_set\<close>)
  then have *: "filled ((!) sc) lower upper tot a" "sum_list a \<le> tot" by simp_all
  have "length a = length lower"
    using greedy_optimum_box [OF assms(1)] by (simp add: a_def in_box_def)
  then have "\<forall>i<length lower. a ! i = upper ! i \<Longrightarrow> a = upper"
    using assms(1) by (intro nth_equalityI) (auto simp: below_upper_def)
  then have "tot - sum_list a \<le> 1 / 10 ^ 9"
    using *(1) assms(4) by (fastforce simp: filled_def)
  with * show ?thesis by blast
qed

lemma dot_sum: "length xs = length ys \<Longrightarrow> dot xs ys = (\<Sum>i<length xs. xs ! i * ys ! i)"
  by (simp add: dot_def sum_list_sum_nth atLeast0LessThan)

lemma sum_list_lessThan: "sum_list (xs::real list) = (\<Sum>i<length xs. xs ! i)"
  by (simp add: sum_list_sum_nth atLeast0LessThan)

lemma filled_optimal:
  assumes "in_box lower upper a" "in_box lower upper x" "length sc = length lower"
    "sum_list x = tot" "filled ((!) sc) lower upper tot a"
    "\<forall>i<length lower. 0 \<le> sc ! i \<and> sc ! i \<le> m"
  shows "dot sc x \<le> dot sc a + m / 10 ^ 9 \<or> (\<forall>i<length lower. a ! i = upper ! i) \<and> dot sc x \<le> dot sc a"
proof -
  let ?n = "length lower"
  have len: "length a = ?n" "length x = ?n" using assms(1,2) by (simp_all add: in_box_def)
  have dots: "dot sc x = (\<Sum>i<?n. sc ! i * x ! i)" "dot sc a = (\<Sum>i<?n. sc ! i * a ! i)"
    using len assms(3) by (simp_all add: dot_sum)
  from assms(5) consider "\<forall>i<?n. a ! i = upper ! i"
    | k where "k < ?n" "tot - sum_list a \<le> 1 / 10 ^ 9"
        "\<forall>i<?n. (sc ! k < sc ! i \<longrightarrow> a ! i = upper ! i) \<and> (sc ! i < sc ! k \<longrightarrow> a ! i = lower ! i)"
    unfolding filled_def by blast
  then show ?thesis
  proof cases
    case 1
    have "(\<Sum>i<?n. sc ! i * x ! i) \<le> (\<Sum>i<?n. sc ! i * a ! i)"
      using 1 assms(2,6) by (intro sum_mono mult_left_mono) (auto simp: in_box_def)
    with 1 show ?thesis by (simp add: dots)
  next
    case 2
    let ?l = "sc ! k"
    have "(\<Sum>i<?n. (sc ! i - ?l) * (x ! i - a ! i)) \<le> (\<Sum>i<?n. 0)"
    proof (rule sum_mono)
      fix i assume "i \<in> {..<?n}"
      then have i: "i < ?n" by simp
      consider "sc ! i = ?l" | "?l < sc ! i" "a ! i = upper ! i" | "sc ! i < ?l" "a ! i = lower ! i"
        using 2(3) i by fastforce
      then show "(sc ! i - ?l) * (x ! i - a ! i) \<le> 0"
        using assms(2) i by cases (auto simp: in_box_def mult_le_0_iff)
    qed
    moreover have "(\<Sum>i<?n. (sc ! i - ?l) * (x ! i - a ! i)) = dot sc x - dot sc a - ?l * (sum_list x - sum_list a)"
      by (simp add: dots sum_list_lessThan len algebra_simps sum_subtractf sum.distrib sum_distrib_left)
    moreover have "?l * (sum_list x - sum_list a) \<le> m * (1 / 10 ^ 9)"
    proof -
      have "?l * (sum_list x - sum_list a) \<le> ?l * (1 / 10 ^ 9)"
        using 2 assms by (intro mult_left_mono) auto
      also have "\<dots> \<le> m * (1 / 10 ^ 9)" using 2 assms(6) by (intro mult_right_mono) auto
      finally show ?thesis .
    qed
    ultimately show ?thesis by simp
  qed
qed

subsection \<open>Holds keep the bounds and the plan exists\<close>

text \<open>
  The lower bounds at any moment of \<open>_apply_holds\<close>: between the released bound and the current
  budget, and at the current budget for a hold that is still effective.
\<close>

definition held_bounds :: "real list \<Rightarrow> real \<Rightarrow> real \<Rightarrow> real list \<Rightarrow> nat list \<Rightarrow> bool" where
  "held_bounds current change lowest lower effective \<longleftrightarrow>
     length lower = length current
     \<and> (\<forall>i<length current. release_bound current change lowest i \<le> lower ! i \<and> lower ! i \<le> current ! i)
     \<and> (\<forall>i\<in>set effective. i < length current \<and> lower ! i = current ! i)"

lemma headroom_ok: "sum_list lower \<le> sum_list upper \<Longrightarrow> \<exists>h. headroom lower upper requested = Inr h"
  by (simp add: headroom_def Let_def clamp_def)

lemma sum_list_mono_nth:
  fixes xs ys :: "real list"
  assumes "length xs = length ys" "\<And>i. i < length xs \<Longrightarrow> xs ! i \<le> ys ! i"
  shows "sum_list xs \<le> sum_list ys"
  using assms by (auto simp: sum_list_lessThan intro!: sum_mono)

lemma held_bounds_below:
  assumes "held_bounds current change lowest lower eff" "below_upper current upper"
  shows "below_upper lower upper" "sum_list lower \<le> sum_list current" "sum_list lower \<le> sum_list upper"
proof -
  show "below_upper lower upper" using assms by (force simp: held_bounds_def below_upper_def)
  show "sum_list lower \<le> sum_list current"
    using assms by (intro sum_list_mono_nth) (auto simp: held_bounds_def)
  show "sum_list lower \<le> sum_list upper"
    using \<open>below_upper lower upper\<close> by (intro sum_list_mono_nth) (auto simp: below_upper_def)
qed

lemma held_bounds_release:
  assumes "held_bounds current change lowest lower eff" "release_bound current change lowest i \<le> current ! i"
  shows "held_bounds current change lowest (lower[i := release_bound current change lowest i]) (removeAll i eff)"
proof (cases "i < length current")
  case True
  with assms show ?thesis by (auto simp: held_bounds_def nth_list_update)
next
  case False
  with assms show ?thesis by (auto simp: held_bounds_def list_update_beyond)
qed

lemma release_holds_ok:
  assumes "held_bounds current change lowest lower eff" "below_upper current upper"
    "\<forall>i<length current. release_bound current change lowest i \<le> current ! i" "\<forall>i\<in>set is. i < length current"
  shows "\<exists>l e. release_holds upper current change lowest requested is lower eff = Inr (l, e)
    \<and> held_bounds current change lowest l e \<and> set e \<subseteq> set eff"
  using assms
proof (induction "is" arbitrary: lower eff)
  case (Cons i "is")
  let ?l = "lower[i := release_bound current change lowest i]"
  have hb: "held_bounds current change lowest ?l (removeAll i eff)"
    using Cons.prems by (intro held_bounds_release) auto
  obtain h where h: "headroom ?l upper requested = Inr h"
    using headroom_ok held_bounds_below(3) [OF hb Cons.prems(2)] by blast
  show ?case
  proof (cases "h > 0")
    case True
    then show ?thesis using hb h by auto
  next
    case False
    obtain l e where "release_holds upper current change lowest requested is ?l (removeAll i eff) = Inr (l, e)"
      "held_bounds current change lowest l e" "set e \<subseteq> set (removeAll i eff)"
      using Cons.IH [OF hb] Cons.prems by auto
    then show ?thesis using h False by auto
  qed
qed simp

lemma pin_lower_bounds:
  assumes "length lower = length current" "\<forall>i<length current. lower ! i = release_bound current change lowest i"
    "\<forall>i<length current. release_bound current change lowest i \<le> current ! i" "\<forall>i\<in>set eff. i < length current"
  shows "held_bounds current change lowest (pin_lower current eff lower) eff"
  using assms by (auto simp: held_bounds_def pin_lower_def)

lemma set_held_indices: "set (held_indices ids held) = {i. i < length ids \<and> ids ! i \<in> held}"
  by (auto simp: held_indices_def)

lemma apply_holds_ok:
  assumes "length lower = length current" "\<forall>i<length current. lower ! i = release_bound current change lowest i"
    "\<forall>i<length current. release_bound current change lowest i \<le> current ! i"
    "below_upper current upper" "length ids = length current"
  shows "\<exists>l e. apply_holds lower upper current scores ids held change lowest requested = Inr (l, e)
    \<and> held_bounds current change lowest l e \<and> set e \<subseteq> set (held_indices ids held)"
proof -
  let ?e = "held_indices ids held" and ?l = "pin_lower current (held_indices ids held) lower"
  have hb: "held_bounds current change lowest ?l ?e"
    using assms by (intro pin_lower_bounds) (auto simp: set_held_indices)
  obtain h where h: "headroom ?l upper requested = Inr h"
    using headroom_ok held_bounds_below(3) [OF hb assms(4)] by blast
  obtain l e where "release_holds upper current change lowest requested
      (sort_key (\<lambda>i. (scores ! i, ids ! i)) ?e) ?l ?e = Inr (l, e)"
    "held_bounds current change lowest l e" "set e \<subseteq> set ?e"
    using release_holds_ok [OF hb assms(4,3), of "sort_key (\<lambda>i. (scores ! i, ids ! i)) ?e" requested]
    by (auto simp: set_held_indices assms(5))
  then show ?thesis using hb h by (cases "?e = []") (auto simp: apply_holds_def Let_def)
qed

subsection \<open>The problem \<open>allocate\<close> sets up\<close>

lemma problem_simps:
  fixes ss and tb and mc and budgets and lowest :: real
  defines "p \<equiv> budget_problem_of ss tb mc budgets lowest"
  shows "length (bp_current p) = length (bp_eligible p)" "length (bp_ids p) = length (bp_eligible p)"
    "length (bp_scores p) = length (bp_eligible p)" "length (bp_lower p) = length (bp_eligible p)"
    "length (bp_upper p) = length (bp_eligible p)"
    "bp_eligible p = filter (\<lambda>s. total_cost s > 0) ss" "bp_change p = clamp_ok mc 0 10"
    "tb = None \<Longrightarrow> bp_requested p = sum_list (bp_current p)"
    "i < length (bp_eligible p) \<Longrightarrow> bp_current p ! i = max (baseline (bp_eligible p ! i) budgets) lowest"
    "i < length (bp_eligible p) \<Longrightarrow> bp_lower p ! i = release_bound (bp_current p) (bp_change p) lowest i"
    "i < length (bp_eligible p) \<Longrightarrow> bp_upper p ! i = bp_current p ! i * (1 + bp_change p)"
  by (simp_all add: p_def budget_problem_of_def Let_def release_bound_def)

lemma baseline_pos: "0 < total_cost s \<Longrightarrow> 0 < baseline s budgets"
  by (simp add: baseline_def split: option.split)

lemma problem_ok:
  fixes ss and tb and mc and budgets and lowest :: real
  defines "p \<equiv> budget_problem_of ss tb mc budgets lowest"
  shows "\<forall>i<length (bp_current p). 0 < bp_current p ! i \<and> lowest \<le> bp_current p ! i"
    "\<forall>i<length (bp_current p). release_bound (bp_current p) (bp_change p) lowest i \<le> bp_current p ! i"
    "below_upper (bp_current p) (bp_upper p)" "0 \<le> bp_change p"
proof -
  note ps = problem_simps [where ss=ss and tb=tb and mc=mc and budgets=budgets and lowest=lowest, folded p_def]
  show c0: "0 \<le> bp_change p" using clamp_ok_bounds [of 0 10 mc] ps(7) by simp
  show cur: "\<forall>i<length (bp_current p). 0 < bp_current p ! i \<and> lowest \<le> bp_current p ! i"
  proof (intro allI impI)
    fix i assume i: "i < length (bp_current p)"
    then have "bp_eligible p ! i \<in> set (filter (\<lambda>s. total_cost s > 0) ss)"
      using ps(1) by (simp flip: ps(6))
    then have "0 < baseline (bp_eligible p ! i) budgets" by (intro baseline_pos) simp
    then show "0 < bp_current p ! i \<and> lowest \<le> bp_current p ! i" using i ps(1,9) by simp
  qed
  show "\<forall>i<length (bp_current p). release_bound (bp_current p) (bp_change p) lowest i \<le> bp_current p ! i"
    using cur c0 by (auto simp: release_bound_def mult_left_le)
  show "below_upper (bp_current p) (bp_upper p)"
    using cur c0 ps(1,5,11) by (auto simp: below_upper_def distrib_left less_imp_le)
qed

lemma np_clip_box:
  assumes "below_upper lower upper" "length x = length lower"
  shows "in_box lower upper (np_clip x lower upper)"
  using assms by (auto simp: in_box_def below_upper_def np_clip_def)

lemma choose_plan_box:
  assumes "below_upper lower upper" "\<And>x. solver scores lower upper budget = Some x \<Longrightarrow> length x = length lower"
  shows "in_box lower upper (fst (choose_plan solver cross scores lower upper budget order))"
  using greedy_optimum_box [OF assms(1)] np_clip_box [OF assms(1)] assms(2)
  by (auto simp: choose_plan_def Let_def cvxpy_optimum_def split: option.splits)

lemma to_allocation_fields:
  assumes "to_allocation s c r sc so h = Inr a"
  shows "ba_campaign_id a = campaign_id s" "ba_current_budget a = py_round 2 c"
    "ba_recommended_budget a = py_round 2 r" "ba_score a = sc" "ba_solver a = so"
  using assms by (auto simp: to_allocation_def Let_def split: if_splits)

text \<open>
  \<open>allocate\<close> always returns a plan: one allocation per spending campaign, rounded from an allocation
  within the bounds left by the holds.
\<close>

lemma allocate_plan:
  fixes ss and tb and mc and budgets and lowest :: real and solver :: lp_solver
  assumes "0 \<le> lowest" "\<And>sc l u t x. solver sc l u t = Some x \<Longrightarrow> length x = length l"
  defines "p \<equiv> budget_problem_of ss tb mc budgets lowest"
  obtains l e b where
    "apply_holds (bp_lower p) (bp_upper p) (bp_current p) (bp_scores p) (bp_ids p)
       held (bp_change p) lowest (bp_requested p) = Inr (l, e)"
    "held_bounds (bp_current p) (bp_change p) lowest l e" "set e \<subseteq> set (held_indices (bp_ids p) held)"
    "b = clamp_ok (bp_requested p) (sum_list l) (sum_list (bp_upper p))"
    "below_upper l (bp_upper p)" "length l = length (bp_eligible p)" "sum_list l \<le> sum_list (bp_upper p)"
    "\<exists>as. allocate solver ss tb mc budgets lowest cross held = Inr as
       \<and> length as = length (bp_eligible p)
       \<and> (let plan = fst (choose_plan solver cross (bp_scores p) l (bp_upper p) b
              (fill_order (bp_ids p) (bp_scores p) (bp_roas p)))
          in in_box l (bp_upper p) plan \<and> (\<forall>i<length as.
             ba_campaign_id (as ! i) = bp_ids p ! i
             \<and> ba_current_budget (as ! i) = py_round 2 (bp_current p ! i)
             \<and> ba_recommended_budget (as ! i) = py_round 2 (plan ! i)))"
proof -
  note ps = problem_simps [where ss=ss and tb=tb and mc=mc and budgets=budgets and lowest=lowest, folded p_def]
  note ok = problem_ok [where ss=ss and tb=tb and mc=mc and budgets=budgets and lowest=lowest, folded p_def]
  obtain l e where le: "apply_holds (bp_lower p) (bp_upper p) (bp_current p) (bp_scores p) (bp_ids p)
       held (bp_change p) lowest (bp_requested p) = Inr (l, e)"
    "held_bounds (bp_current p) (bp_change p) lowest l e" "set e \<subseteq> set (held_indices (bp_ids p) held)"
    using apply_holds_ok [of "bp_lower p" "bp_current p" "bp_change p" lowest "bp_upper p" "bp_ids p"
        "bp_scores p" held "bp_requested p"] ps(1,2,4,5,10) ok(2,3) by auto
  note bel = held_bounds_below [OF le(2) ok(3)]
  define b where "b = clamp_ok (bp_requested p) (sum_list l) (sum_list (bp_upper p))"
  define ch where "ch = choose_plan solver cross (bp_scores p) l (bp_upper p) b
    (fill_order (bp_ids p) (bp_scores p) (bp_roas p))"
  have len: "length l = length (bp_eligible p)" using le(2) ps(1) by (simp add: held_bounds_def)
  have box: "in_box l (bp_upper p) (fst ch)" unfolding ch_def
    by (rule choose_plan_box [OF bel(1)]) (rule assms(2))
  define g where "g = (\<lambda>i. projr (to_allocation (bp_eligible p ! i) (bp_current p ! i) (fst ch ! i)
      (bp_scores p ! i) (snd ch) (i \<in> set e)))"
  have conv: "to_allocation (bp_eligible p ! i) (bp_current p ! i) (fst ch ! i)
      (bp_scores p ! i) (snd ch) (i \<in> set e) = Inr (g i)" if "i < length (bp_eligible p)" for i
  proof -
    have "0 \<le> release_bound (bp_current p) (bp_change p) lowest i"
      using assms(1) by (simp add: release_bound_def)
    then have "0 \<le> l ! i" using le(2) that ps(1) by (force simp: held_bounds_def)
    then have "0 \<le> fst ch ! i" using box that len by (force simp: in_box_def)
    moreover have "0 \<le> bp_current p ! i" using ok(1) that ps(1) by force
    ultimately show ?thesis
      by (simp add: g_def to_allocation_def Let_def py_round_nonneg not_less)
  qed
  have ids: "bp_ids p ! i = campaign_id (bp_eligible p ! i)" if "i < length (bp_eligible p)" for i
    using that by (simp add: p_def budget_problem_of_def Let_def)
  have fields: "ba_campaign_id (g i) = bp_ids p ! i"
    "ba_current_budget (g i) = py_round 2 (bp_current p ! i)"
    "ba_recommended_budget (g i) = py_round 2 (fst ch ! i)" if "i < length (bp_eligible p)" for i
    using to_allocation_fields [OF conv [OF that]] ids [OF that] by simp_all
  have "allocate solver ss tb mc budgets lowest cross held = Inr (map g [0..<length (bp_eligible p)])"
  proof (cases "bp_eligible p = []")
    case True
    then show ?thesis by (simp add: allocate_def Let_def flip: p_def)
  next
    case False
    have "map_res (\<lambda>i. to_allocation (bp_eligible p ! i) (bp_current p ! i) (fst ch ! i) (bp_scores p ! i)
        (snd ch) (i \<in> set e)) [0..<length (bp_eligible p)] = Inr (map g [0..<length (bp_eligible p)])"
      by (rule map_res_total) (simp add: conv)
    then show ?thesis using False le(1) bel(3)
      by (simp add: allocate_def Let_def clamp_eq flip: p_def b_def ch_def)
  qed
  then show ?thesis
    using that [OF le b_def bel(1) len bel(3)] box fields by (auto simp: ch_def [symmetric] Let_def)
qed

lemma sum_list_map_error:
  fixes f g :: "'a \<Rightarrow> real"
  assumes "\<And>x. x \<in> set xs \<Longrightarrow> \<bar>f x - g x\<bar> \<le> e"
  shows "\<bar>sum_list (map f xs) - sum_list (map g xs)\<bar> \<le> real (length xs) * e"
  using assms
proof (induction xs)
  case (Cons x xs)
  have "\<bar>f x - g x\<bar> \<le> e" "\<bar>sum_list (map f xs) - sum_list (map g xs)\<bar> \<le> real (length xs) * e"
    using Cons by auto
  then show ?case by (simp add: distrib_right)
qed simp

lemma rounded_total:
  fixes xs ys :: "real list"
  assumes "length xs = length ys" "\<forall>i<length xs. xs ! i = py_round 2 (ys ! i)"
  shows "\<bar>sum_list xs - sum_list ys\<bar> \<le> real (length xs) / 200"
proof -
  have "xs = map (py_round 2) ys" using assms by (intro nth_equalityI) auto
  moreover have "\<bar>sum_list (map (py_round 2) ys) - sum_list (map (\<lambda>y. y) ys)\<bar> \<le> real (length ys) * (1 / 200)"
    by (rule sum_list_map_error) (use py_round_error [of 2] in simp)
  ultimately show ?thesis using assms(1) by simp
qed

lemma allocate_keeps_holds:
  fixes lowest :: real
  assumes "0 \<le> lowest" and "\<forall>sc l u t x. solver sc l u t = Some x \<longrightarrow> length x = length l"
    and "p = budget_problem_of ss tb mc budgets lowest"
    and "headroom (pin_lower (bp_current p) (held_indices (bp_ids p) held) (bp_lower p)) (bp_upper p)
           (bp_requested p) = Inr h" and "0 < h"
  shows "\<exists>as. allocate solver ss tb mc budgets lowest cross held = Inr as
    \<and> (\<forall>a\<in>set as. ba_campaign_id a \<in> held \<longrightarrow> ba_current_budget a \<le> ba_recommended_budget a)"
proof -
  note ps = problem_simps [where ss=ss and tb=tb and mc=mc and budgets=budgets and lowest=lowest, folded assms(3)]
  obtain l e as plan where l: "held_bounds (bp_current p) (bp_change p) lowest l e"
      "length l = length (bp_eligible p)"
    and ah: "apply_holds (bp_lower p) (bp_upper p) (bp_current p) (bp_scores p) (bp_ids p)
       held (bp_change p) lowest (bp_requested p) = Inr (l, e)"
    and as: "allocate solver ss tb mc budgets lowest cross held = Inr as" "length as = length (bp_eligible p)"
    and plan: "in_box l (bp_upper p) plan" "\<forall>i<length as. ba_campaign_id (as ! i) = bp_ids p ! i
       \<and> ba_current_budget (as ! i) = py_round 2 (bp_current p ! i)
       \<and> ba_recommended_budget (as ! i) = py_round 2 (plan ! i)"
    by (rule allocate_plan [OF assms(1), of solver ss tb mc budgets held cross, folded assms(3)])
      (use assms(2) in \<open>auto simp: Let_def\<close>)
  have e: "e = held_indices (bp_ids p) held"
    using ah assms(4,5) by (auto simp: apply_holds_def Let_def split: if_splits)
  have "ba_current_budget (as ! i) \<le> ba_recommended_budget (as ! i)"
    if i: "i < length as" "ba_campaign_id (as ! i) \<in> held" for i
  proof -
    have "i \<in> set e" using i plan(2) as(2) ps(2) by (auto simp: e set_held_indices)
    then have "bp_current p ! i \<le> plan ! i"
      using l plan(1) i as(2) by (force simp: held_bounds_def in_box_def)
    then show ?thesis using plan(2) i by (simp add: py_round_mono)
  qed
  then show ?thesis using as(1) by (auto simp: in_set_conv_nth)
qed

subsection \<open>Properties\<close>

text \<open>
  Reallocation never leaves the bounds it promises: whatever the solver answers, the call returns
  one allocation per spending campaign, in order, and each recommended budget lies between the
  campaign's current daily budget cut and raised by the maximal change, never under the floor (all
  rounded to cents).
\<close>

theorem allocate_within_bounds:
  assumes "0 \<le> lowest" and "\<forall>sc l u t x. solver sc l u t = Some x \<longrightarrow> length x = length l"
  shows "\<exists>as. allocate solver ss tb mc budgets lowest cross held = Inr as
    \<and> map ba_campaign_id as = map campaign_id (filter (\<lambda>s. 0 < total_cost s) ss)
    \<and> (\<forall>i<length as.
         let c = max (baseline (filter (\<lambda>s. 0 < total_cost s) ss ! i) budgets) lowest;
             change = clamp_ok mc 0 10
         in ba_current_budget (as ! i) = py_round 2 c
            \<and> py_round 2 (max (c * (1 - change)) lowest) \<le> ba_recommended_budget (as ! i)
            \<and> ba_recommended_budget (as ! i) \<le> py_round 2 (c * (1 + change)))"
proof -
  define p where "p = budget_problem_of ss tb mc budgets lowest"
  note ps = problem_simps [where ss=ss and tb=tb and mc=mc and budgets=budgets and lowest=lowest, folded p_def]
  obtain l e b as plan where l: "held_bounds (bp_current p) (bp_change p) lowest l e" "length l = length (bp_eligible p)"
    and as: "allocate solver ss tb mc budgets lowest cross held = Inr as" "length as = length (bp_eligible p)"
    and plan: "in_box l (bp_upper p) plan" "\<forall>i<length as. ba_campaign_id (as ! i) = bp_ids p ! i
       \<and> ba_current_budget (as ! i) = py_round 2 (bp_current p ! i)
       \<and> ba_recommended_budget (as ! i) = py_round 2 (plan ! i)"
    by (rule allocate_plan [OF assms(1), of solver ss tb mc budgets held cross, folded p_def])
      (use assms(2) in \<open>auto simp: Let_def\<close>)
  have "map ba_campaign_id as = bp_ids p" using as(2) ps(2) plan(2) by (intro nth_equalityI) auto
  then have ids: "map ba_campaign_id as = map campaign_id (filter (\<lambda>s. 0 < total_cost s) ss)"
    by (simp add: p_def budget_problem_of_def Let_def)
  have "release_bound (bp_current p) (bp_change p) lowest i \<le> plan ! i" "plan ! i \<le> bp_upper p ! i"
    if "i < length as" for i
    using that l plan(1) as(2) ps(1) by (force simp: held_bounds_def in_box_def)+
  then show ?thesis
    using as ids plan(2) ps(7,9,11)
    by (auto simp: Let_def release_bound_def py_round_mono simp flip: ps(6))
qed

theorem allocate_within_bounds_witness:
  "\<exists>as. allocate (\<lambda>sc l u t. Some l)
        [plain_snapshot ''a'' 1000 50 5 100 300, plain_snapshot ''b'' 1000 10 1 50 10] None 0.5 [(''a'', 80)]
        1 True {} = Inr as
    \<and> map ba_campaign_id as = [''a'', ''b'']
    \<and> (\<forall>i<length as. let c = max (baseline ([plain_snapshot ''a'' 1000 50 5 100 300,
              plain_snapshot ''b'' 1000 10 1 50 10] ! i) [(''a'', 80)]) 1; change = clamp_ok 0.5 0 10
         in ba_current_budget (as ! i) = py_round 2 c
            \<and> py_round 2 (max (c * (1 - change)) 1) \<le> ba_recommended_budget (as ! i)
            \<and> ba_recommended_budget (as ! i) \<le> py_round 2 (c * (1 + change)))"
  using allocate_within_bounds [of 1 "\<lambda>sc l u t. Some l" "[plain_snapshot ''a'' 1000 50 5 100 300,
      plain_snapshot ''b'' 1000 10 1 50 10]" None "0.5" "[(''a'', 80)]" True "{}"] by simp

text \<open>
  C3. The greedy fill solves the linear program: visiting campaigns in the order the code sorts them,
  it stays inside the bounds, places the whole total up to \<open>1e-9\<close>, and no other feasible allocation
  of that total scores better by more than that remainder is worth.
\<close>

theorem greedy_optimum_optimal:
  assumes "below_upper lower upper" "length ids = length lower" "length sc = length lower"
    "\<forall>i<length lower. 0 \<le> sc ! i \<and> sc ! i \<le> m" "0 \<le> m"
    "in_box lower upper x" "sum_list x = tot"
  shows "let a = greedy_optimum lower upper tot (fill_order ids sc rs)
    in in_box lower upper a \<and> tot - 1 / 10 ^ 9 \<le> sum_list a \<and> sum_list a \<le> tot
       \<and> dot sc x \<le> dot sc a + m / 10 ^ 9"
proof -
  define a where "a = greedy_optimum lower upper tot (fill_order ids sc rs)"
  have len: "length x = length lower" "length upper = length lower"
    using assms(1,6) by (simp_all add: in_box_def below_upper_def)
  have between: "sum_list lower \<le> tot" "tot \<le> sum_list upper"
    unfolding assms(7) [symmetric]
    using assms(6) len by (auto intro!: sum_list_mono_nth simp: in_box_def)
  have box: "in_box lower upper a" unfolding a_def by (rule greedy_optimum_box [OF assms(1)])
  note f = greedy_optimum_filled [OF assms(1,2) between, of sc rs, folded a_def]
  have "dot sc x \<le> dot sc a + m / 10 ^ 9"
  proof (cases "(\<forall>i<length lower. a ! i = lower ! i) \<and> tot = sum_list lower")
    case True
    then have a: "a = lower" using box by (intro nth_equalityI) (auto simp: in_box_def)
    have "(\<Sum>i<length lower. x ! i - lower ! i) = 0"
      using True assms(7) len by (simp add: sum_list_lessThan sum_subtractf)
    then have "\<forall>i<length lower. x ! i = lower ! i"
      using assms(6) by (subst (asm) sum_nonneg_eq_0_iff) (auto simp: in_box_def)
    then have "x = a" using a len by (intro nth_equalityI) auto
    then show ?thesis using assms(5) by simp
  next
    case False
    with f have "filled ((!) sc) lower upper tot a" by blast
    from filled_optimal [OF box assms(6,3,7) this assms(4)] show ?thesis
      using assms(5) by (smt (verit) divide_nonneg_nonneg zero_le_power)
  qed
  with f box show ?thesis by (simp add: a_def [symmetric] Let_def)
qed

theorem greedy_optimum_optimal_witness:
  "let a = greedy_optimum [50, 50] [150, 150] 200 (fill_order [''a'', ''b''] [1, 2] [0, 0])
   in in_box [50, 50] [150, 150] a \<and> 200 - 1 / 10 ^ 9 \<le> sum_list a \<and> sum_list a \<le> 200
      \<and> dot [1, 2] [100, 100] \<le> dot [1, 2] a + 2 / 10 ^ 9"
  by (rule greedy_optimum_optimal)
    (simp_all add: below_upper_def in_box_def less_Suc_eq numeral_2_eq_2)

text \<open>
  Reallocation is budget-neutral: without a requested total and without the solver, the sum of
  the recommended budgets equals the sum of the current ones up to half a cent of rounding on each
  figure and the \<open>1e-9\<close> the fill may leave unplaced.
\<close>

theorem allocate_budget_neutral:
  assumes "0 \<le> lowest"
  shows "\<exists>as. allocate solver ss None mc budgets lowest False held = Inr as
    \<and> \<bar>sum_list (map ba_recommended_budget as) - sum_list (map ba_current_budget as)\<bar>
        \<le> real (length as) / 100 + 1 / 10 ^ 9"
proof -
  let ?none = "\<lambda>_ _ _ _. None :: real list option"
  define p where "p = budget_problem_of ss None mc budgets lowest"
  note ps = problem_simps [where ss=ss and tb=None and mc=mc and budgets=budgets and lowest=lowest, folded p_def]
  note ok = problem_ok [where ss=ss and tb=None and mc=mc and budgets=budgets and lowest=lowest, folded p_def]
  have same: "allocate solver ss None mc budgets lowest False held = allocate ?none ss None mc budgets lowest False held"
  proof -
    have "choose_plan solver False = choose_plan ?none False" by (intro ext) (simp add: choose_plan_def)
    then show ?thesis by (simp only: allocate_def)
  qed
  obtain l e as plan b where l: "held_bounds (bp_current p) (bp_change p) lowest l e"
      "length l = length (bp_eligible p)" "below_upper l (bp_upper p)"
    and b: "b = clamp_ok (bp_requested p) (sum_list l) (sum_list (bp_upper p))"
    and plan: "plan = greedy_optimum l (bp_upper p) b (fill_order (bp_ids p) (bp_scores p) (bp_roas p))"
      "in_box l (bp_upper p) plan"
    and as: "allocate ?none ss None mc budgets lowest False held = Inr as" "length as = length (bp_eligible p)"
      "\<forall>i<length as. ba_current_budget (as ! i) = py_round 2 (bp_current p ! i)
         \<and> ba_recommended_budget (as ! i) = py_round 2 (plan ! i)"
    by (rule allocate_plan [OF assms, of ?none ss None mc budgets held False, folded p_def])
      (auto simp: Let_def choose_plan_def)
  have req: "sum_list l \<le> sum_list (bp_current p)" "sum_list (bp_current p) \<le> sum_list (bp_upper p)"
    using held_bounds_below(2) [OF l(1) ok(3)] ok(3) ps(1,5)
    by (auto simp: below_upper_def intro!: sum_list_mono_nth)
  then have "b = sum_list (bp_current p)" using ps(8) by (simp add: b clamp_ok_id)
  then have tot: "\<bar>sum_list plan - sum_list (bp_current p)\<bar> \<le> 1 / 10 ^ 9"
    using greedy_optimum_filled [OF l(3), of "bp_ids p" "sum_list (bp_current p)" "bp_scores p" "bp_roas p"]
      req l(2) ps(2) unfolding plan(1) by auto
  have "\<bar>sum_list (map ba_recommended_budget as) - sum_list plan\<bar> \<le> real (length as) / 200"
    using rounded_total [of "map ba_recommended_budget as" plan] as plan(2) l(2) by (simp add: in_box_def)
  moreover have "\<bar>sum_list (map ba_current_budget as) - sum_list (bp_current p)\<bar> \<le> real (length as) / 200"
    using rounded_total [of "map ba_current_budget as" "bp_current p"] as ps(1) by simp
  ultimately have "\<bar>sum_list (map ba_recommended_budget as) - sum_list (map ba_current_budget as)\<bar>
      \<le> real (length as) / 100 + 1 / 10 ^ 9"
    using tot by linarith
  with as(1) same show ?thesis by auto
qed

theorem allocate_budget_neutral_witness:
  "\<exists>as. allocate (\<lambda>_ _ _ _. None) [plain_snapshot ''a'' 1000 50 5 100 300] None 0.5 [] 1 False {} = Inr as
    \<and> \<bar>sum_list (map ba_recommended_budget as) - sum_list (map ba_current_budget as)\<bar>
        \<le> real (length as) / 100 + 1 / 10 ^ 9"
  by (rule allocate_budget_neutral) simp

text \<open>
  A hold that does not deadlock the plan is honoured: when pinning every held campaign at its
  current budget still leaves the fill some headroom, no held campaign is recommended less than its
  current budget.
\<close>

theorem allocate_honours_holds:
  fixes lowest :: real
  assumes "0 \<le> lowest" and "\<forall>sc l u t x. solver sc l u t = Some x \<longrightarrow> length x = length l"
    and "p = budget_problem_of ss tb mc budgets lowest"
    and "headroom (pin_lower (bp_current p) (held_indices (bp_ids p) held) (bp_lower p)) (bp_upper p)
           (bp_requested p) = Inr h" and "0 < h"
  shows "\<exists>as. allocate solver ss tb mc budgets lowest cross held = Inr as
    \<and> (\<forall>a\<in>set as. ba_campaign_id a \<in> held \<longrightarrow> ba_current_budget a \<le> ba_recommended_budget a)"
  using allocate_keeps_holds [OF assms] .

theorem allocate_honours_holds_witness:
  "\<exists>as. allocate (\<lambda>_ _ _ _. None) [plain_snapshot ''a'' 1000 50 5 100 300, plain_snapshot ''b'' 1000 10 1 50 10]
        None 0.5 [] 1 True {''a''} = Inr as
    \<and> (\<forall>a\<in>set as. ba_campaign_id a \<in> {''a''} \<longrightarrow> ba_current_budget a \<le> ba_recommended_budget a)"
proof (rule allocate_honours_holds [OF _ _ refl])
  show "headroom (pin_lower
      (bp_current (budget_problem_of [plain_snapshot ''a'' 1000 50 5 100 300, plain_snapshot ''b'' 1000 10 1 50 10]
         None 0.5 [] 1))
      (held_indices (bp_ids (budget_problem_of [plain_snapshot ''a'' 1000 50 5 100 300,
         plain_snapshot ''b'' 1000 10 1 50 10] None 0.5 [] 1)) {''a''})
      (bp_lower (budget_problem_of [plain_snapshot ''a'' 1000 50 5 100 300, plain_snapshot ''b'' 1000 10 1 50 10]
         None 0.5 [] 1)))
      (bp_upper (budget_problem_of [plain_snapshot ''a'' 1000 50 5 100 300, plain_snapshot ''b'' 1000 10 1 50 10]
         None 0.5 [] 1))
      (bp_requested (budget_problem_of [plain_snapshot ''a'' 1000 50 5 100 300, plain_snapshot ''b'' 1000 10 1 50 10]
         None 0.5 [] 1)) = Inr 25"
    by (simp add: budget_problem_of_def baseline_def dict_get_def headroom_def clamp_def pin_lower_def
        held_indices_def clamp_ok_def upt_rec)
qed simp_all

end
