(* ===== verification/Json.thy ===== *)
theory Json
  imports PyFloat
begin

text \<open>
  The JSON-shaped values that travel through the tool layer: the arguments of a tool call and the
  payload a handler returns. A dictionary is an insertion-ordered association list.
\<close>

datatype json =
    JNull
  | JBool bool
  | JInt int
  | JFloat pyfloat
  | JStr string
  | JList "json list"
  | JDict "(string \<times> json) list"

type_synonym json_dict = "(string, json) dict"

text \<open>\<open>str(d.get(k) or "")\<close> for a key that holds a string or nothing.\<close>

definition json_str :: "json_dict \<Rightarrow> string \<Rightarrow> string" where
  "json_str d k = (case map_of d k of Some (JStr s) \<Rightarrow> s | _ \<Rightarrow> [])"

definition json_truthy :: "json \<Rightarrow> bool" where
  "json_truthy j =
     (case j of JNull \<Rightarrow> False | JBool b \<Rightarrow> b | JInt n \<Rightarrow> n \<noteq> 0 | JFloat x \<Rightarrow> x \<noteq> Fin 0 | JStr s \<Rightarrow> s \<noteq> []
        | JList js \<Rightarrow> js \<noteq> [] | JDict d \<Rightarrow> d \<noteq> [])"

definition text_of :: "(json \<Rightarrow> string) \<Rightarrow> json \<Rightarrow> string" where
  "text_of str_of j = (case j of JStr s \<Rightarrow> s | _ \<Rightarrow> str_of j)"

definition opt_json :: "string option \<Rightarrow> json" where
  "opt_json t = (case t of None \<Rightarrow> JNull | Some s \<Rightarrow> JStr s)"

end
