(* ===== verification/Proposal.thy ===== *)
theory Proposal
  imports Kpi Enums Json
begin

text \<open>
  The dictionaries the agents exchange, as records: the proposal \<open>OptimizeAgent._action\<close> builds
  (with the \<open>preflight\<close> annotation \<open>_preflight\<close> adds to it) and the narrative message
  \<open>BaseAgent._message\<close> builds. Every agent that reads a proposal reads one of this shape, so the
  fields have the types they are written with; \<open>urgency\<close> is optional because the critic treats a
  proposal without a numeric urgency separately.
\<close>

record verdict =
  vd_tool :: string
  vd_outcome :: string
  vd_refused :: bool
  vd_blocking :: bool
  vd_error :: "string option"

record proposal =
  pr_id :: string
  pr_run_id :: "string option"
  pr_campaign_id :: string
  pr_creative_id :: "string option"
  pr_action_type :: string
  pr_status :: string
  pr_before_value :: string
  pr_after_value :: string
  pr_reason :: string
  pr_confidence :: real
  pr_proposed_by :: string
  pr_iteration :: int
  pr_severity :: string
  pr_urgency :: "real option"
  pr_direction :: string
  pr_basis :: "(string, pyval) dict"
  pr_preflight :: "verdict option"

record message =
  ms_agent :: string
  ms_content :: string
  ms_iteration :: int
  ms_extra :: json_dict

definition message_with :: "agent_name \<Rightarrow> string \<Rightarrow> int \<Rightarrow> json_dict \<Rightarrow> message" where
  "message_with agent content iteration extra =
     \<lparr>ms_agent = agent_name_value agent, ms_content = content, ms_iteration = iteration, ms_extra = extra\<rparr>"

definition message_of :: "agent_name \<Rightarrow> string \<Rightarrow> int \<Rightarrow> message" where
  "message_of agent content iteration = message_with agent content iteration []"

text \<open>A bare proposal for the concrete examples.\<close>

definition plain_proposal :: "string \<Rightarrow> string \<Rightarrow> action_type \<Rightarrow> real \<Rightarrow> string \<Rightarrow> real option \<Rightarrow> proposal" where
  "plain_proposal aid cid t conf sev urg =
     \<lparr>pr_id = aid, pr_run_id = None, pr_campaign_id = cid, pr_creative_id = None,
      pr_action_type = action_type_value t, pr_status = action_status_value ACTION_PROPOSED,
      pr_before_value = [], pr_after_value = [], pr_reason = [], pr_confidence = conf,
      pr_proposed_by = agent_name_value AGENT_OPTIMIZE, pr_iteration = 1, pr_severity = sev,
      pr_urgency = urg, pr_direction = [], pr_basis = [], pr_preflight = None\<rparr>"

lemma plain_proposal_sel [simp]:
  "pr_id (plain_proposal aid cid t conf sev urg) = aid"
  "pr_campaign_id (plain_proposal aid cid t conf sev urg) = cid"
  "pr_creative_id (plain_proposal aid cid t conf sev urg) = None"
  "pr_action_type (plain_proposal aid cid t conf sev urg) = action_type_value t"
  "pr_confidence (plain_proposal aid cid t conf sev urg) = conf"
  "pr_iteration (plain_proposal aid cid t conf sev urg) = 1"
  "pr_severity (plain_proposal aid cid t conf sev urg) = sev"
  "pr_urgency (plain_proposal aid cid t conf sev urg) = urg"
  "pr_direction (plain_proposal aid cid t conf sev urg) = []"
  "pr_basis (plain_proposal aid cid t conf sev urg) = []"
  "pr_preflight (plain_proposal aid cid t conf sev urg) = None"
  by (simp_all add: plain_proposal_def)

end
