(* ===== verification/Critic.thy ===== *)
theory Critic
  imports Proposal
begin

text \<open>
  \<open>agents/critic.py\<close>: the reconciliation of conflicting proposals. The set \<open>suppressed\<close>, which the
  passes of \<open>CriticAgent.run\<close> share and add to, is threaded through them; each pass returns its
  findings and the set as it leaves it.

  The long sentence that explains a finding is a definition of its own, so that no proof unfolds it.
\<close>

definition SPEND_ACTIONS :: "string list" where
  "SPEND_ACTIONS = [action_type_value ADJUST_BUDGET, action_type_value ADJUST_BID]"

type_synonym conflict_rule = "string \<times> string list \<times> string"

definition CAMPAIGN_CONFLICTS :: "conflict_rule list" where
  "CAMPAIGN_CONFLICTS =
     [(action_type_value PAUSE_CAMPAIGN, SPEND_ACTIONS, ''pause_overrides_spend''),
      (action_type_value PAUSE_CAMPAIGN, [action_type_value RESUME_CAMPAIGN],
       ''campaign_pause_resume_conflict''),
      (action_type_value PAUSE_CAMPAIGN, [action_type_value START_AB_TEST],
       ''experiment_on_paused_campaign'')]"

definition CREATIVE_CONFLICTS :: "conflict_rule list" where
  "CREATIVE_CONFLICTS =
     [(action_type_value PAUSE_CREATIVE, [action_type_value RESUME_CREATIVE],
       ''creative_pause_resume_conflict''),
      (action_type_value PAUSE_CREATIVE, [action_type_value REFRESH_CREATIVE],
       ''pause_overrides_refresh'')]"

definition CRITICAL :: string where "CRITICAL = alert_severity_value SEVERITY_CRITICAL"
definition CRITICAL_LINE :: real where "CRITICAL_LINE = 0.5"
definition DOMINANCE_MARGIN :: real where "DOMINANCE_MARGIN = 0.10"

subsection \<open>Standing of a proposal\<close>

definition creative_key :: "proposal \<Rightarrow> string" where
  "creative_key a = opt_str (pr_creative_id a)"

definition reference_of :: "proposal \<Rightarrow> string" where
  "reference_of a = (case map_of (pr_basis a) ''reference'' of Some (PStr s) \<Rightarrow> s | _ \<Rightarrow> [])"

definition severity_rank_of :: "proposal \<Rightarrow> nat" where
  "severity_rank_of a = (if pr_severity a = CRITICAL then 1 else 0)"

definition rank_of :: "proposal \<Rightarrow> nat \<times> real" where
  "rank_of a = (severity_rank_of a, pr_confidence a)"

definition urgency_of :: "proposal \<Rightarrow> real" where
  "urgency_of a = (case pr_urgency a of
      Some u \<Rightarrow> u | None \<Rightarrow> if severity_rank_of a \<noteq> 0 then 1 else 0)"

definition dominates :: "proposal \<Rightarrow> bool" where
  "dominates a = (severity_rank_of a = 1 \<and> urgency_of a \<ge> CRITICAL_LINE + DOMINANCE_MARGIN)"

definition outranks :: "proposal \<Rightarrow> proposal \<Rightarrow> bool" where
  "outranks challenger keeper =
     (if dominates challenger \<noteq> dominates keeper then dominates challenger
      else pr_confidence challenger > pr_confidence keeper)"

definition label_of :: "proposal \<Rightarrow> string" where
  "label_of a = replace_char (CHR ''_'') '' '' (pr_action_type a)"

definition standing :: "proposal \<Rightarrow> string" where
  "standing a = label_of a @ '' ('' @
     (if severity_rank_of a \<noteq> 0 then ''critical alert, confidence '' else ''confidence '')
     @ fmt_fixed 2 (pr_confidence a) @ '')''"

definition describe_target :: "string \<Rightarrow> string \<Rightarrow> string" where
  "describe_target cid crid =
     (if crid \<noteq> [] then ''campaign '' @ cid @ '' / creative '' @ crid else ''campaign '' @ cid)"

definition join_labels :: "proposal list \<Rightarrow> string" where
  "join_labels as = join_with '', '' (sort (remdups (map label_of as)))"

definition is_unexecutable :: "proposal \<Rightarrow> bool" where
  "is_unexecutable a = (case pr_preflight a of None \<Rightarrow> False | Some v \<Rightarrow> vd_blocking v)"

definition verdict_phrase :: "verdict option \<Rightarrow> string" where
  "verdict_phrase pv =
     (let tool = (case pv of None \<Rightarrow> [] | Some v \<Rightarrow> vd_tool v);
          outcome = (case pv of None \<Rightarrow> [] | Some v \<Rightarrow> vd_outcome v);
          err = (case pv of None \<Rightarrow> [] | Some v \<Rightarrow> opt_str (vd_error v));
          phrase = or_str tool ''the tool layer'' @ '' answered '' @ or_str outcome ''refused''
      in if err \<noteq> [] then phrase @ '' ('' @ err @ '')'' else phrase)"

record brief =
  bf_id :: string
  bf_action_type :: string
  bf_confidence :: real
  bf_severity :: string
  bf_direction :: string
  bf_iteration :: int
  bf_reason :: string
  bf_preflight :: "verdict option"

definition brief_of :: "proposal \<Rightarrow> brief" where
  "brief_of a = \<lparr>bf_id = pr_id a, bf_action_type = pr_action_type a, bf_confidence = pr_confidence a,
     bf_severity = pr_severity a, bf_direction = pr_direction a, bf_iteration = pr_iteration a,
     bf_reason = take 300 (pr_reason a), bf_preflight = pr_preflight a\<rparr>"

record finding =
  fd_kind :: string
  fd_scope :: string
  fd_campaign_id :: string
  fd_creative_id :: string
  fd_kept_action_id :: string
  fd_kept_action_type :: string
  fd_kept_confidence :: real
  fd_suppressed :: "brief list"
  fd_reason :: string
  fd_iteration :: int
  fd_escalate :: bool

definition suppressed_action_ids :: "finding \<Rightarrow> string list" where
  "suppressed_action_ids f = map bf_id (fd_suppressed f)"

definition scope_of :: "string \<Rightarrow> string" where
  "scope_of crid = (if crid \<noteq> [] then ''creative'' else ''campaign'')"

subsection \<open>Proposals the platform refused\<close>

definition unexecutable_reason :: "proposal \<Rightarrow> string" where
  "unexecutable_reason a =
     label_of a @ '' on '' @ describe_target (pr_campaign_id a) (creative_key a)
     @ '' was rehearsed before approval and '' @ verdict_phrase (pr_preflight a)
     @ ''. Withheld rather than queued: approving it could only fail, and the operator's decision''
     @ '' is worth more than that. Nothing was changed by the rehearsal.''"

definition unexecutable_finding :: "int \<Rightarrow> proposal \<Rightarrow> finding" where
  "unexecutable_finding iteration a =
     \<lparr>fd_kind = ''unexecutable_proposal'', fd_scope = scope_of (creative_key a),
      fd_campaign_id = pr_campaign_id a, fd_creative_id = creative_key a, fd_kept_action_id = [],
      fd_kept_action_type = ''none'', fd_kept_confidence = 0, fd_suppressed = [brief_of a],
      fd_reason = unexecutable_reason a, fd_iteration = iteration, fd_escalate = False\<rparr>"

fun unexecutable :: "int \<Rightarrow> proposal list \<Rightarrow> string set \<Rightarrow> finding list \<times> string set" where
  "unexecutable iteration [] suppressed = ([], suppressed)"
| "unexecutable iteration (a # as) suppressed =
     (if \<not> is_unexecutable a then unexecutable iteration as suppressed
      else let (fs, s) = unexecutable iteration as (insert (pr_id a) suppressed)
           in (unexecutable_finding iteration a # fs, s))"

subsection \<open>The same proposal raised in several iterations\<close>

definition repeat_key :: "nat \<times> proposal \<Rightarrow> string \<times> string \<times> string" where
  "repeat_key p = (pr_campaign_id (snd p), creative_key (snd p), pr_action_type (snd p))"

definition strength :: "nat \<times> proposal \<Rightarrow> (nat \<times> real) \<times> int \<times> int" where
  "strength p = (rank_of (snd p), pr_iteration (snd p), - int (fst p))"

definition repeat_reason :: "string \<Rightarrow> nat \<Rightarrow> string \<Rightarrow> string \<Rightarrow> proposal \<Rightarrow> string" where
  "repeat_reason action_type n cid crid keeper =
     replace_char (CHR ''_'') '' '' action_type @ '' was proposed '' @ show_nat n @ '' times for ''
     @ describe_target cid crid @ '' across iterations. Kept the strongest proposal (''
     @ fmt_fixed 2 (pr_confidence keeper) @ '') so it only has to be decided once.''"

fun repeat_findings ::
  "int \<Rightarrow> ((string \<times> string \<times> string) \<times> (nat \<times> proposal) list) list \<Rightarrow> string set \<Rightarrow> finding list \<times> string set" where
  "repeat_findings iteration [] suppressed = ([], suppressed)"
| "repeat_findings iteration (((cid, crid, action_type), members) # groups) suppressed =
     (if length members < 2 then repeat_findings iteration groups suppressed
      else let ranked = sort_desc strength members;
               keeper = snd (hd ranked);
               losers = map snd (tl ranked);
               (fs, s) = repeat_findings iteration groups (suppressed \<union> set (map pr_id losers))
           in (\<lparr>fd_kind = ''duplicate_proposal'', fd_scope = scope_of crid, fd_campaign_id = cid,
                fd_creative_id = crid, fd_kept_action_id = pr_id keeper,
                fd_kept_action_type = action_type, fd_kept_confidence = pr_confidence keeper,
                fd_suppressed = map brief_of losers,
                fd_reason = repeat_reason action_type (length members) cid crid keeper,
                fd_iteration = iteration, fd_escalate = False\<rparr> # fs, s))"

definition live :: "proposal list \<Rightarrow> string set \<Rightarrow> proposal list" where
  "live as suppressed = filter (\<lambda>a. pr_id a \<notin> suppressed) as"

definition repeats :: "int \<Rightarrow> proposal list \<Rightarrow> string set \<Rightarrow> finding list \<times> string set" where
  "repeats iteration as suppressed =
     repeat_findings iteration
       (group_by_key repeat_key (filter (\<lambda>p. pr_id (snd p) \<notin> suppressed) (enumerate 0 as)) []) suppressed"

subsection \<open>Proposals that cannot both be applied\<close>

definition overrule_reason :: "proposal \<Rightarrow> proposal \<Rightarrow> string \<Rightarrow> proposal list \<Rightarrow> string" where
  "overrule_reason challenger keeper target losers =
     standing challenger @ '' outweighs '' @ standing keeper @ '' on '' @ target
     @ '', so the contradictory '' @ join_labels losers @ '' proposal was withheld.''"

definition supersede_reason :: "proposal \<Rightarrow> string \<Rightarrow> proposal list \<Rightarrow> string" where
  "supersede_reason keeper target losers =
     standing keeper @ '' supersedes '' @ join_labels losers @ '' on '' @ target
     @ '': the two cannot both be applied. A clearly critical anomaly outranks delivery evidence,''
     @ '' and equal standing resolves toward stopping spend.''"

definition conflict_finding ::
  "int \<Rightarrow> string \<Rightarrow> string \<Rightarrow> string \<Rightarrow> proposal \<Rightarrow> proposal list \<Rightarrow> string \<Rightarrow> finding" where
  "conflict_finding iteration kind cid crid winner losers reason =
     \<lparr>fd_kind = kind, fd_scope = scope_of crid, fd_campaign_id = cid, fd_creative_id = crid,
      fd_kept_action_id = pr_id winner, fd_kept_action_type = pr_action_type winner,
      fd_kept_confidence = pr_confidence winner, fd_suppressed = map brief_of losers,
      fd_reason = reason, fd_iteration = iteration, fd_escalate = False\<rparr>"

definition resolve ::
  "int \<Rightarrow> conflict_rule \<Rightarrow> string \<Rightarrow> string \<Rightarrow> proposal list \<Rightarrow> string set \<Rightarrow> finding list \<times> string set" where
  "resolve iteration r cid crid members suppressed =
     (case r of (dominant, contradicted, kind) \<Rightarrow>
        let lv = live members suppressed;
            strong = filter (\<lambda>a. pr_action_type a = dominant) lv;
            weak = filter (\<lambda>a. pr_action_type a \<in> set contradicted) lv;
            target = describe_target cid crid
        in (case (max_by rank_of strong, max_by rank_of weak) of
              (Some keeper, Some challenger) \<Rightarrow>
                if outranks challenger keeper
                then ([conflict_finding iteration kind cid crid challenger strong
                         (overrule_reason challenger keeper target strong)],
                      suppressed \<union> set (map pr_id strong))
                else ([conflict_finding iteration kind cid crid keeper weak
                         (supersede_reason keeper target weak)],
                      suppressed \<union> set (map pr_id weak))
            | _ \<Rightarrow> ([], suppressed)))"

fun resolve_rules ::
  "int \<Rightarrow> conflict_rule list \<Rightarrow> string \<Rightarrow> string \<Rightarrow> proposal list \<Rightarrow> string set \<Rightarrow> finding list \<times> string set" where
  "resolve_rules iteration [] cid crid members suppressed = ([], suppressed)"
| "resolve_rules iteration (r # rs) cid crid members suppressed =
     (let (fs, s) = resolve iteration r cid crid members suppressed;
          (fs', s') = resolve_rules iteration rs cid crid members s
      in (fs @ fs', s'))"

fun conflict_groups ::
  "int \<Rightarrow> conflict_rule list \<Rightarrow> ((string \<times> string) \<times> proposal list) list \<Rightarrow> string set
   \<Rightarrow> finding list \<times> string set" where
  "conflict_groups iteration rules [] suppressed = ([], suppressed)"
| "conflict_groups iteration rules (((cid, crid), members) # groups) suppressed =
     (let (fs, s) = resolve_rules iteration rules cid crid members suppressed;
          (fs', s') = conflict_groups iteration rules groups s
      in (fs @ fs', s'))"

definition target_key :: "proposal \<Rightarrow> string \<times> string" where
  "target_key a = (pr_campaign_id a, creative_key a)"

definition conflicts ::
  "int \<Rightarrow> proposal list \<Rightarrow> string set \<Rightarrow> conflict_rule list \<Rightarrow> bool \<Rightarrow> finding list \<times> string set" where
  "conflicts iteration as suppressed rules by_creative =
     conflict_groups iteration rules
       (group_by_key target_key
          (filter (\<lambda>a. \<not> (by_creative \<and> creative_key a = [])) (live as suppressed)) []) suppressed"

subsection \<open>Opposing spend proposals\<close>

definition opposing_reason :: "string \<Rightarrow> proposal list \<Rightarrow> proposal list \<Rightarrow> proposal list \<Rightarrow> string" where
  "opposing_reason cid members rises cuts =
     (let references = sort (remdups (filter (\<lambda>r. r \<noteq> []) (map reference_of members)));
          frame = (if references \<noteq> [] then join_with '' vs '' references else ''different reference frames'')
      in describe_target cid [] @ '' received opposing spend proposals: '' @ join_labels rises
         @ '' against '' @ join_labels cuts @ ''. They were decided against '' @ frame
         @ '', so neither outranks the other on evidence and both were left in the queue. Choose one.'')"

fun opposing_findings :: "int \<Rightarrow> (string \<times> proposal list) list \<Rightarrow> finding list" where
  "opposing_findings iteration [] = []"
| "opposing_findings iteration ((cid, members) # groups) =
     (let rises = filter (\<lambda>a. pr_direction a = ''increase'') members;
          cuts = filter (\<lambda>a. pr_direction a = ''decrease'') members
      in if rises = [] \<or> cuts = [] then opposing_findings iteration groups
         else \<lparr>fd_kind = ''opposing_spend_intent'', fd_scope = ''campaign'', fd_campaign_id = cid,
               fd_creative_id = [], fd_kept_action_id = [], fd_kept_action_type = ''none'',
               fd_kept_confidence = 0, fd_suppressed = [],
               fd_reason = opposing_reason cid members rises cuts, fd_iteration = iteration,
               fd_escalate = True\<rparr> # opposing_findings iteration groups)"

definition spend_direction :: "int \<Rightarrow> proposal list \<Rightarrow> string set \<Rightarrow> finding list" where
  "spend_direction iteration as suppressed =
     opposing_findings iteration
       (group_by_key pr_campaign_id
          (filter (\<lambda>a. pr_action_type a \<in> set SPEND_ACTIONS) (live as suppressed)) [])"

subsection \<open>The critic's step\<close>

fun by_kind :: "finding list \<Rightarrow> (string, nat) dict \<Rightarrow> (string, nat) dict" where
  "by_kind [] counts = counts"
| "by_kind (f # fs) counts = by_kind fs (dict_add (fd_kind f) (length (fd_suppressed f)) counts)"

definition critic_message :: "nat \<Rightarrow> finding list \<Rightarrow> nat \<Rightarrow> int \<Rightarrow> int \<Rightarrow> message" where
  "critic_message proposals findings withheld surviving iteration =
     (if findings = []
      then message_of AGENT_CRITIC
             (''Reviewed '' @ show_nat proposals @ '' proposal(s); no conflicts found.'') iteration
      else let detail = join_with '', '' (map (\<lambda>(kind, count). show_nat count @ '' '' @ replace_char (CHR ''_'') '' '' kind)
                                            (sort (by_kind findings [])));
               escalated = length (filter fd_escalate findings);
               tail = (if escalated > 0 then '' '' @ show_nat escalated @ '' conflict(s) need a human decision.''
                       else [])
           in message_of AGENT_CRITIC
                (''Reviewed '' @ show_nat proposals @ '' proposal(s) and withheld '' @ show_nat withheld
                 @ '' ('' @ detail @ ''). '' @ show_int surviving @ '' remain for approval.'' @ tail) iteration)"

record critic_summary =
  cs_proposals :: nat
  cs_suppressed :: nat
  cs_surviving :: int
  cs_by_kind :: "(string, nat) dict"

record critic_update =
  cu_findings :: "finding list"
  cu_agent :: agent_name
  cu_messages :: "message list"
  cu_summary :: critic_summary

text \<open>The findings of the five passes and the set they leave.\<close>

definition review :: "int \<Rightarrow> proposal list \<Rightarrow> finding list \<times> string set" where
  "review iteration as =
     (let (f1, s1) = unexecutable iteration as {};
          (f2, s2) = repeats iteration as s1;
          (f3, s3) = conflicts iteration as s2 CAMPAIGN_CONFLICTS False;
          (f4, s4) = conflicts iteration as s3 CREATIVE_CONFLICTS True
      in (f1 @ f2 @ f3 @ f4 @ spend_direction iteration as s4, s4))"

definition critic_run :: "int \<Rightarrow> proposal list \<Rightarrow> critic_update" where
  "critic_run iteration as =
     (if as = []
      then \<lparr>cu_findings = [], cu_agent = AGENT_CRITIC,
            cu_messages = [message_of AGENT_CRITIC ''No proposals to review this iteration.'' iteration],
            cu_summary = \<lparr>cs_proposals = 0, cs_suppressed = 0, cs_surviving = 0, cs_by_kind = []\<rparr>\<rparr>
      else let (findings, suppressed) = review iteration as;
               surviving = int (length as) - int (card suppressed)
           in \<lparr>cu_findings = findings, cu_agent = AGENT_CRITIC,
               cu_messages = [critic_message (length as) findings (card suppressed) surviving iteration],
               cu_summary = \<lparr>cs_proposals = length as, cs_suppressed = card suppressed,
                 cs_surviving = surviving, cs_by_kind = by_kind findings []\<rparr>\<rparr>)"

subsection \<open>What every pass promises\<close>

definition withheld :: "finding list \<Rightarrow> string set" where
  "withheld fs = (\<Union>f\<in>set fs. set (suppressed_action_ids f))"

lemma withheld_simps [simp]:
  "withheld [] = {}"
  "withheld (f # fs) = set (suppressed_action_ids f) \<union> withheld fs"
  "withheld (fs @ gs) = withheld fs \<union> withheld gs"
  by (auto simp: withheld_def)

text \<open>
  The contract of a pass over a fixed list of proposals: the set it leaves is the set it was given
  and the proposals its findings name, and those are proposals of the list.
\<close>

locale critic_pass =
  fixes as :: "proposal list" and pass :: "string set \<Rightarrow> finding list \<times> string set"
  assumes accounts: "snd (pass S) = S \<union> withheld (fst (pass S))"
    and only_proposals: "withheld (fst (pass S)) \<subseteq> pr_id ` set as"
begin

lemma pass_grows: "S \<subseteq> snd (pass S)"
  using accounts by blast

lemma pass_finite: "finite S \<Longrightarrow> finite (snd (pass S))"
  using accounts only_proposals finite_subset [OF only_proposals] by (metis finite_UnI finite_imageI finite_set)

lemma pass_live: "a \<in> set (live as (snd (pass S))) \<Longrightarrow> a \<in> set (live as S)"
  using pass_grows by (auto simp: live_def)

lemma pass_only: "S \<subseteq> pr_id ` set as \<Longrightarrow> snd (pass S) \<subseteq> pr_id ` set as"
  using accounts only_proposals by blast

end

lemma brief_id [simp]: "bf_id (brief_of a) = pr_id a"
  by (simp add: brief_of_def)

lemma ids_unexecutable_finding [simp]: "suppressed_action_ids (unexecutable_finding it a) = [pr_id a]"
  by (simp add: suppressed_action_ids_def unexecutable_finding_def)

lemma snd_unexecutable: "snd (unexecutable it as S) = S \<union> {pr_id a |a. a \<in> set as \<and> is_unexecutable a}"
  by (induction it as S rule: unexecutable.induct) (auto simp: split_beta)

lemma withheld_unexecutable: "withheld (fst (unexecutable it as S)) = {pr_id a |a. a \<in> set as \<and> is_unexecutable a}"
  by (induction it as S rule: unexecutable.induct) (auto simp: split_beta)

interpretation unexecutable_pass: critic_pass as "unexecutable it as" for as it
  by unfold_locales (auto simp: snd_unexecutable withheld_unexecutable)

definition repeat_losers :: "((string \<times> string \<times> string) \<times> (nat \<times> proposal) list) list \<Rightarrow> string set" where
  "repeat_losers gs = (\<Union>g\<in>set gs. (\<lambda>p. pr_id (snd p)) ` set (tl (sort_desc strength (snd g))))"

lemma tl_sort_desc_short: "length xs < 2 \<Longrightarrow> tl (sort_desc f xs) = []"
  by (metis One_nat_def Suc_1 diff_is_0_eq length_0_conv length_sort_desc length_tl less_Suc_eq_le)

lemma repeat_findings_sets:
  "snd (repeat_findings it gs S) = S \<union> repeat_losers gs \<and> withheld (fst (repeat_findings it gs S)) = repeat_losers gs"
  by (induction it gs S rule: repeat_findings.induct)
    (auto simp: repeat_losers_def split_beta Let_def tl_sort_desc_short suppressed_action_ids_def image_image)

definition repeat_groups :: "proposal list \<Rightarrow> string set \<Rightarrow> ((string \<times> string \<times> string) \<times> (nat \<times> proposal) list) list" where
  "repeat_groups as S = group_by_key repeat_key (filter (\<lambda>p. pr_id (snd p) \<notin> S) (enumerate 0 as)) []"

lemma snd_repeats: "snd (repeats it as S) = S \<union> repeat_losers (repeat_groups as S)"
  by (simp add: repeats_def repeat_groups_def repeat_findings_sets)

lemma withheld_repeats: "withheld (fst (repeats it as S)) = repeat_losers (repeat_groups as S)"
  by (simp add: repeats_def repeat_groups_def repeat_findings_sets)

lemma repeat_group_iff:
  "(k, m) \<in> set (repeat_groups as S) \<longleftrightarrow>
     m = filter (\<lambda>p. repeat_key p = k) (filter (\<lambda>p. pr_id (snd p) \<notin> S) (enumerate 0 as)) \<and> m \<noteq> []"
  by (simp only: repeat_groups_def mem_group_iff)

lemma set_tl_subset: "set (tl xs) \<subseteq> set xs"
  by (cases xs) auto

lemma enumerate_snd_mem: "fst p < length as \<Longrightarrow> as ! fst p = snd p \<Longrightarrow> snd p \<in> set as"
  by (metis nth_mem)

lemma repeat_losers_mem:
  assumes "i \<in> repeat_losers (repeat_groups as S)"
  obtains k m p where "(k, m) \<in> set (repeat_groups as S)" "p \<in> set (tl (sort_desc strength m))"
    "p \<in> set m" "pr_id (snd p) = i" "snd p \<in> set as"
proof -
  from assms obtain k m p where kmp: "(k, m) \<in> set (repeat_groups as S)"
      "p \<in> set (tl (sort_desc strength m))" "pr_id (snd p) = i"
    by (auto simp: repeat_losers_def)
  have "p \<in> set m" using kmp(2) set_tl_subset [of "sort_desc strength m"] by auto
  moreover from this have "snd p \<in> set as"
    using kmp(1) by (auto simp: repeat_group_iff in_set_enumerate_eq intro: enumerate_snd_mem)
  ultimately show ?thesis using that kmp by blast
qed

interpretation repeats_pass: critic_pass as "repeats it as" for as it
  by unfold_locales (auto simp: snd_repeats withheld_repeats elim: repeat_losers_mem)

lemma ids_conflict_finding [simp]:
  "suppressed_action_ids (conflict_finding it kind cid crid w losers reason) = map pr_id losers"
  by (simp add: suppressed_action_ids_def conflict_finding_def)

lemma resolve_cases:
  obtains (none) "resolve it r cid crid ms S = ([], S)"
      "\<not> (\<exists>a\<in>set (live ms S). \<exists>b\<in>set (live ms S). pr_action_type a = fst r \<and> pr_action_type b \<in> set (fst (snd r)))"
  | (decided) losers w f where "resolve it r cid crid ms S = ([f], S \<union> set (map pr_id losers))"
      "suppressed_action_ids f = map pr_id losers" "fd_kept_action_id f = pr_id w"
      "w \<in> set (live ms S)" "set losers \<subseteq> set (live ms S)"
      "losers = filter (\<lambda>a. pr_action_type a = fst r) (live ms S) \<and> pr_action_type w \<in> set (fst (snd r))
       \<or> losers = filter (\<lambda>a. pr_action_type a \<in> set (fst (snd r))) (live ms S) \<and> pr_action_type w = fst r"
proof -
  obtain d c k where r: "r = (d, c, k)" by (cases r) auto
  define strong where "strong = filter (\<lambda>a. pr_action_type a = d) (live ms S)"
  define weak where "weak = filter (\<lambda>a. pr_action_type a \<in> set c) (live ms S)"
  show ?thesis
  proof (cases "max_by rank_of strong = None \<or> max_by rank_of weak = None")
    case True
    then have "resolve it r cid crid ms S = ([], S)"
      by (auto simp: resolve_def r Let_def strong_def [symmetric] weak_def [symmetric] split: option.splits)
    moreover have "strong = [] \<or> weak = []" using True by simp
    ultimately show ?thesis using none by (auto simp: r strong_def weak_def filter_empty_conv)
  next
    case False
    then obtain kp ch where m: "max_by rank_of strong = Some kp" "max_by rank_of weak = Some ch"
      by (metis not_None_eq)
    have "kp \<in> set strong" "ch \<in> set weak" using m by (auto dest: max_by_Some)
    then show ?thesis
      using m decided [of _ strong ch] decided [of _ weak kp]
      by (cases "outranks ch kp")
        (auto simp: resolve_def r Let_def strong_def [symmetric] weak_def [symmetric],
         auto simp: strong_def weak_def conflict_finding_def suppressed_action_ids_def)
  qed
qed

definition contradict :: "conflict_rule \<Rightarrow> proposal \<Rightarrow> proposal \<Rightarrow> bool" where
  "contradict r a b \<longleftrightarrow> pr_action_type a = fst r \<and> pr_action_type b \<in> set (fst (snd r))"

definition cleared :: "conflict_rule \<Rightarrow> proposal list \<Rightarrow> string set \<Rightarrow> bool" where
  "cleared r ms S \<longleftrightarrow> \<not> (\<exists>a\<in>set (live ms S). \<exists>b\<in>set (live ms S). contradict r a b)"

definition alive :: "proposal list \<Rightarrow> string set \<Rightarrow> string \<times> string \<Rightarrow> bool" where
  "alive as S k \<longleftrightarrow> (\<exists>b\<in>set as. pr_id b \<notin> S \<and> target_key b = k)"

lemma set_live [simp]: "set (live as S) = {a \<in> set as. pr_id a \<notin> S}"
  by (auto simp: live_def)

lemma cleared_mono: "cleared r ms S \<Longrightarrow> S \<subseteq> T \<Longrightarrow> cleared r ms T"
  by (auto simp: cleared_def)

lemma resolve_accounts:
  "snd (resolve it r cid crid ms S) = S \<union> withheld (fst (resolve it r cid crid ms S))"
  "withheld (fst (resolve it r cid crid ms S)) \<subseteq> pr_id ` set ms"
  by (rule resolve_cases [of it r cid crid ms S]; auto)+

lemma resolve_cleared: "cleared r ms (snd (resolve it r cid crid ms S))"
  by (rule resolve_cases [of it r cid crid ms S]) (auto simp: cleared_def contradict_def)

lemma resolve_alive:
  assumes "inj_on pr_id (set as)" "set ms \<subseteq> set as" "\<forall>a\<in>set ms. target_key a = k0"
    "fst r \<notin> set (fst (snd r))" "alive as S k"
  shows "alive as (snd (resolve it r cid crid ms S)) k"
proof (rule resolve_cases [of it r cid crid ms S])
  assume "resolve it r cid crid ms S = ([], S)"
  then show ?thesis using assms(5) by simp
next
  fix losers w f
  assume eq: "resolve it r cid crid ms S = ([f], S \<union> set (map pr_id losers))"
    and w: "w \<in> set (live ms S)" and sub: "set losers \<subseteq> set (live ms S)"
    and which: "losers = filter (\<lambda>a. pr_action_type a = fst r) (live ms S) \<and> pr_action_type w \<in> set (fst (snd r))
       \<or> losers = filter (\<lambda>a. pr_action_type a \<in> set (fst (snd r))) (live ms S) \<and> pr_action_type w = fst r"
  have not_loser: "pr_id b \<notin> set (map pr_id losers)" if "b \<in> set as" "b \<notin> set losers" for b
    using that sub assms(1,2) by (auto dest: inj_onD)
  obtain b where b: "b \<in> set as" "pr_id b \<notin> S" "target_key b = k" using assms(5) by (auto simp: alive_def)
  show ?thesis
  proof (cases "k = k0")
    case True
    have "w \<notin> set losers" using which assms(4) by auto
    then have "pr_id w \<notin> set (map pr_id losers)" using not_loser [of w] w assms(2) by auto
    then show ?thesis using w assms(2,3) True by (auto simp: alive_def eq)
  next
    case False
    then have "b \<notin> set losers" using b(3) sub assms(3) by auto
    then show ?thesis using b not_loser [OF b(1)] by (auto simp: alive_def eq)
  qed
qed

lemma resolve_rules_accounts_both:
  "snd (resolve_rules it rs cid crid ms S) = S \<union> withheld (fst (resolve_rules it rs cid crid ms S))
   \<and> withheld (fst (resolve_rules it rs cid crid ms S)) \<subseteq> pr_id ` set ms"
proof (induction rs arbitrary: S)
  case (Cons r rs)
  then show ?case
    using resolve_accounts [of it r cid crid ms S] by (simp add: split_beta Un_assoc)
qed simp

lemmas resolve_rules_accounts =
  resolve_rules_accounts_both [THEN conjunct1] resolve_rules_accounts_both [THEN conjunct2]

lemma resolve_rules_cleared: "r \<in> set rs \<Longrightarrow> cleared r ms (snd (resolve_rules it rs cid crid ms S))"
proof (induction rs arbitrary: S)
  case (Cons q rs)
  let ?T = "snd (resolve it q cid crid ms S)"
  have "?T \<subseteq> snd (resolve_rules it rs cid crid ms ?T)" using resolve_rules_accounts(1) by blast
  from cleared_mono [OF resolve_cleared this] show ?case
    using Cons by (auto simp: split_beta)
qed simp

lemma resolve_rules_alive:
  assumes "inj_on pr_id (set as)" "set ms \<subseteq> set as" "\<forall>a\<in>set ms. target_key a = k0"
  shows "\<forall>r\<in>set rs. fst r \<notin> set (fst (snd r)) \<Longrightarrow> alive as S k \<Longrightarrow> alive as (snd (resolve_rules it rs cid crid ms S)) k"
proof (induction rs arbitrary: S)
  case (Cons r rs)
  then have "alive as (snd (resolve it r cid crid ms S)) k" using resolve_alive [OF assms] by simp
  then show ?case using Cons by (simp add: split_beta)
qed simp

lemma conflict_groups_accounts:
  "\<forall>g\<in>set gs. set (snd g) \<subseteq> set as \<Longrightarrow>
   snd (conflict_groups it rs gs S) = S \<union> withheld (fst (conflict_groups it rs gs S))
   \<and> withheld (fst (conflict_groups it rs gs S)) \<subseteq> pr_id ` set as"
proof (induction it rs gs S rule: conflict_groups.induct)
  case (2 it rs cid crid ms gs S)
  let ?T = "snd (resolve_rules it rs cid crid ms S)"
  have ih: "snd (conflict_groups it rs gs ?T) = ?T \<union> withheld (fst (conflict_groups it rs gs ?T))
    \<and> withheld (fst (conflict_groups it rs gs ?T)) \<subseteq> pr_id ` set as"
    using 2 by (cases "resolve_rules it rs cid crid ms S") auto
  have "pr_id ` set ms \<subseteq> pr_id ` set as" using "2.prems" by (intro image_mono) simp
  then show ?case
    using ih resolve_rules_accounts [of it rs cid crid ms S] by (simp add: split_beta Un_assoc)
qed simp

lemma conflict_groups_cleared:
  "\<forall>g\<in>set gs. set (snd g) \<subseteq> set as \<Longrightarrow> (k, ms) \<in> set gs \<Longrightarrow> r \<in> set rs \<Longrightarrow>
   cleared r ms (snd (conflict_groups it rs gs S))"
proof (induction it rs gs S rule: conflict_groups.induct)
  case (2 it rs cid crid ms' gs S)
  let ?T = "snd (resolve_rules it rs cid crid ms' S)"
  have grow: "?T \<subseteq> snd (conflict_groups it rs gs ?T)"
    using conflict_groups_accounts [of gs as it rs ?T] 2(2) by auto
  show ?case
  proof (cases "(k, ms) \<in> set gs")
    case True
    then show ?thesis using 2 by (cases "resolve_rules it rs cid crid ms' S") (auto simp: split_beta)
  next
    case False
    then have "ms = ms'" using "2.prems" by simp
    then show ?thesis
      using cleared_mono [OF resolve_rules_cleared grow] "2.prems" by (simp add: split_beta)
  qed
qed simp

lemma conflict_groups_alive:
  assumes "inj_on pr_id (set as)" "\<forall>r\<in>set rs. fst r \<notin> set (fst (snd r))"
  shows "\<forall>g\<in>set gs. set (snd g) \<subseteq> set as \<and> (\<forall>a\<in>set (snd g). target_key a = fst g) \<Longrightarrow>
    alive as S k \<Longrightarrow> alive as (snd (conflict_groups it rs gs S)) k"
  using assms
proof (induction it rs gs S rule: conflict_groups.induct)
  case (2 it rs cid crid ms gs S)
  have "alive as (snd (resolve_rules it rs cid crid ms S)) k"
    using resolve_rules_alive [OF "2.prems"(3), of ms "(cid, crid)" rs S k it cid crid] "2.prems" by simp
  then show ?case using 2 by (cases "resolve_rules it rs cid crid ms S") (auto simp: split_beta)
qed simp

lemma conflict_members:
  assumes "g \<in> set (group_by_key target_key (filter (\<lambda>a. \<not> (bc \<and> creative_key a = [])) (live as S)) [])"
  shows "set (snd g) \<subseteq> set as \<and> (\<forall>a\<in>set (snd g). target_key a = fst g)"
proof -
  have "snd g = filter (\<lambda>a. target_key a = fst g) (filter (\<lambda>a. \<not> (bc \<and> creative_key a = [])) (live as S))"
    using assms mem_group_iff [of "fst g" "snd g"] by simp
  then show ?thesis by auto
qed

lemma conflicts_accounts:
  "snd (conflicts it as S rules bc) = S \<union> withheld (fst (conflicts it as S rules bc))
   \<and> withheld (fst (conflicts it as S rules bc)) \<subseteq> pr_id ` set as"
  unfolding conflicts_def
  by (rule conflict_groups_accounts) (intro ballI, drule conflict_members, erule conjunct1)

interpretation conflicts_pass: critic_pass as "\<lambda>S. conflicts it as S rules bc" for as it rules bc
  by unfold_locales (rule conflicts_accounts [THEN conjunct1], rule conflicts_accounts [THEN conjunct2])

lemma conflicts_alive:
  assumes "inj_on pr_id (set as)" "\<forall>r\<in>set rules. fst r \<notin> set (fst (snd r))" "alive as S k"
  shows "alive as (snd (conflicts it as S rules bc)) k"
  unfolding conflicts_def
  by (rule conflict_groups_alive [OF assms(1,2) _ assms(3)]) (use conflict_members in blast)

lemma conflicts_cleared:
  assumes "r \<in> set rules" "a \<in> set as" "b \<in> set as" "target_key a = target_key b"
    "bc \<longrightarrow> creative_key a \<noteq> []"
    "pr_id a \<notin> snd (conflicts it as S rules bc)" "pr_id b \<notin> snd (conflicts it as S rules bc)"
  shows "\<not> contradict r a b"
proof -
  define elig where "elig = filter (\<lambda>a. \<not> (bc \<and> creative_key a = [])) (live as S)"
  define ms where "ms = filter (\<lambda>x. target_key x = target_key a) elig"
  define gs where "gs = group_by_key target_key elig []"
  have out: "pr_id a \<notin> S" "pr_id b \<notin> S" using assms(6,7) conflicts_pass.pass_grows by blast+
  have "creative_key a = creative_key b" using assms(4) by (simp add: target_key_def)
  then have ab: "a \<in> set ms" "b \<in> set ms" using out assms by (auto simp: ms_def elig_def)
  then have "ms \<noteq> []" by (metis empty_iff empty_set)
  then have mem: "(target_key a, ms) \<in> set gs" by (simp add: gs_def mem_group_iff ms_def)
  have sub: "\<forall>g\<in>set gs. set (snd g) \<subseteq> set as" using conflict_members by (auto simp: gs_def elig_def)
  have "cleared r ms (snd (conflicts it as S rules bc))"
    using conflict_groups_cleared [OF sub mem assms(1)] by (simp add: conflicts_def gs_def elig_def)
  then show ?thesis using ab assms(6,7) by (auto simp: cleared_def)
qed

lemma sort_desc_split:
  assumes "xs \<noteq> []"
  obtains x where "x \<in> set xs" "mset xs = add_mset x (mset (tl (sort_desc f xs)))"
proof -
  have ne: "sort_desc f xs \<noteq> []" using assms by (metis length_0_conv length_sort_desc)
  then have "mset xs = add_mset (hd (sort_desc f xs)) (mset (tl (sort_desc f xs)))"
    by (metis list.collapse mset.simps(2) mset_sort_desc)
  then show ?thesis using that by (metis set_mset_add_mset_insert set_mset_mset insertI1)
qed

lemma enumerate_mem: "b \<in> set as \<Longrightarrow> \<exists>i. (i, b) \<in> set (enumerate 0 as)"
proof -
  assume "b \<in> set as"
  then obtain i where "i < length as" "as ! i = b" by (auto simp: in_set_conv_nth)
  then have "(i, b) \<in> set (enumerate 0 as)" by (simp add: in_set_enumerate_eq)
  then show ?thesis by (rule exI)
qed

lemma repeats_alive:
  assumes "distinct (map pr_id as)" "alive as S k"
  shows "alive as (snd (repeats it as S)) k"
proof -
  have inj: "inj_on pr_id (set as)" using assms(1) by (simp add: distinct_map)
  obtain b where b: "b \<in> set as" "pr_id b \<notin> S" "target_key b = k" using assms(2) by (auto simp: alive_def)
  from enumerate_mem [OF b(1)] obtain i where i: "(i, b) \<in> set (enumerate 0 as)" ..
  define rk where "rk = repeat_key (i, b)"
  define m where "m = filter (\<lambda>p. repeat_key p = rk) (filter (\<lambda>p. pr_id (snd p) \<notin> S) (enumerate 0 as))"
  have "(i, b) \<in> set m" using i b by (simp add: m_def rk_def)
  then have ne: "m \<noteq> []" by auto
  then obtain p where p: "p \<in> set m" "mset m = add_mset p (mset (tl (sort_desc strength m)))"
    by (rule sort_desc_split)
  have dm: "distinct (map snd (enumerate 0 as))" using assms(1) by (simp add: distinct_map)
  then have "distinct (map snd m)" by (simp add: m_def distinct_map_filter)
  then have "distinct (map snd (p # tl (sort_desc strength m)))"
    using p(2) by (metis mset.simps(2) mset_map mset_eq_imp_distinct_iff)
  then have fresh: "snd p \<notin> snd ` set (tl (sort_desc strength m))" by simp
  have pas: "snd p \<in> set as" "pr_id (snd p) \<notin> S" "repeat_key p = rk"
    using p(1) by (auto simp: m_def in_set_enumerate_eq intro: enumerate_snd_mem)
  have "pr_id (snd p) \<notin> repeat_losers (repeat_groups as S)"
  proof
    assume "pr_id (snd p) \<in> repeat_losers (repeat_groups as S)"
    then obtain k' m' q where q: "(k', m') \<in> set (repeat_groups as S)" "q \<in> set (tl (sort_desc strength m'))"
      "q \<in> set m'" "pr_id (snd q) = pr_id (snd p)" "snd q \<in> set as" by (rule repeat_losers_mem)
    then have same: "snd q = snd p" using inj pas(1) by (auto dest: inj_onD)
    have "k' = repeat_key q" using q(1,3) by (auto simp: repeat_group_iff)
    also have "\<dots> = rk" using same pas(3) by (simp add: repeat_key_def)
    finally have "m' = m" using q(1) by (simp add: repeat_group_iff m_def)
    then show False using q(2) same fresh by (metis image_eqI)
  qed
  moreover have "target_key (snd p) = k"
    using pas(3) b(3) by (auto simp: rk_def repeat_key_def target_key_def)
  ultimately show ?thesis using pas by (auto simp: alive_def snd_repeats)
qed

lemma repeats_unique:
  assumes "distinct (map pr_id as)" "a \<in> set as" "b \<in> set as"
    "pr_id a \<notin> snd (repeats it as S)" "pr_id b \<notin> snd (repeats it as S)"
    "target_key a = target_key b" "pr_action_type a = pr_action_type b"
  shows "a = b"
proof (rule ccontr)
  assume neq: "a \<noteq> b"
  from enumerate_mem [OF assms(2)] obtain i where i: "(i, a) \<in> set (enumerate 0 as)" ..
  from enumerate_mem [OF assms(3)] obtain j where j: "(j, b) \<in> set (enumerate 0 as)" ..
  note ij = i j
  define rk where "rk = repeat_key (i, a)"
  define m where "m = filter (\<lambda>p. repeat_key p = rk) (filter (\<lambda>p. pr_id (snd p) \<notin> S) (enumerate 0 as))"
  have out: "pr_id a \<notin> S" "pr_id b \<notin> S" using assms(4,5) by (auto simp: snd_repeats)
  have "repeat_key (j, b) = rk" using assms(6,7) by (simp add: rk_def repeat_key_def target_key_def)
  then have ab: "(i, a) \<in> set m" "(j, b) \<in> set m" using ij out by (simp_all add: m_def rk_def)
  then have ne: "m \<noteq> []" by auto
  then obtain p where p: "mset m = add_mset p (mset (tl (sort_desc strength m)))"
    by (rule sort_desc_split)
  have grp: "(rk, m) \<in> set (repeat_groups as S)" using ne by (simp add: repeat_group_iff m_def)
  have "(i, a) \<in> set (tl (sort_desc strength m)) \<or> (j, b) \<in> set (tl (sort_desc strength m))"
    using ab p neq by (metis set_mset_mset set_mset_add_mset_insert insertE prod.inject)
  then have "pr_id a \<in> repeat_losers (repeat_groups as S) \<or> pr_id b \<in> repeat_losers (repeat_groups as S)"
    using grp by (force simp: repeat_losers_def)
  then show False using assms(4,5) by (auto simp: snd_repeats)
qed

subsection \<open>The review as a whole\<close>

definition review_s1 :: "int \<Rightarrow> proposal list \<Rightarrow> string set" where
  "review_s1 it as = snd (unexecutable it as {})"
definition review_s2 :: "int \<Rightarrow> proposal list \<Rightarrow> string set" where
  "review_s2 it as = snd (repeats it as (review_s1 it as))"
definition review_s3 :: "int \<Rightarrow> proposal list \<Rightarrow> string set" where
  "review_s3 it as = snd (conflicts it as (review_s2 it as) CAMPAIGN_CONFLICTS False)"
definition review_s4 :: "int \<Rightarrow> proposal list \<Rightarrow> string set" where
  "review_s4 it as = snd (conflicts it as (review_s3 it as) CREATIVE_CONFLICTS True)"

lemmas review_stages = review_s1_def review_s2_def review_s3_def review_s4_def

lemma snd_review: "snd (review it as) = review_s4 it as"
  by (simp add: review_def review_stages split_beta)

lemma fst_review: "fst (review it as) = fst (unexecutable it as {}) @ fst (repeats it as (review_s1 it as))
    @ fst (conflicts it as (review_s2 it as) CAMPAIGN_CONFLICTS False)
    @ fst (conflicts it as (review_s3 it as) CREATIVE_CONFLICTS True)
    @ spend_direction it as (review_s4 it as)"
  by (simp add: review_def review_stages split_beta)

lemma review_grows:
  "review_s1 it as \<subseteq> review_s2 it as" "review_s2 it as \<subseteq> review_s3 it as" "review_s3 it as \<subseteq> review_s4 it as"
  by (simp_all add: review_s2_def review_s3_def review_s4_def repeats_pass.pass_grows conflicts_pass.pass_grows)

lemma conflict_rules_irreflexive:
  "\<forall>r\<in>set CAMPAIGN_CONFLICTS. fst r \<notin> set (fst (snd r))" "\<forall>r\<in>set CREATIVE_CONFLICTS. fst r \<notin> set (fst (snd r))"
  by (simp_all add: CAMPAIGN_CONFLICTS_def CREATIVE_CONFLICTS_def SPEND_ACTIONS_def)

lemma opposing_findings_spec:
  "f \<in> set (opposing_findings it gs) \<Longrightarrow> fd_suppressed f = [] \<and> fd_escalate f \<and> fd_kind f = ''opposing_spend_intent''"
  by (induction it gs rule: opposing_findings.induct) (auto simp: Let_def split: if_splits)

lemma opposing_findings_campaigns:
  "cid \<in> fd_campaign_id ` set (opposing_findings it gs) \<longleftrightarrow>
     (\<exists>ms. (cid, ms) \<in> set gs \<and> (\<exists>a\<in>set ms. pr_direction a = ''increase'') \<and> (\<exists>a\<in>set ms. pr_direction a = ''decrease''))"
  by (induction it gs rule: opposing_findings.induct) (auto simp: Let_def filter_empty_conv)

lemma withheld_spend_direction [simp]: "withheld (spend_direction it as S) = {}"
  by (auto simp: withheld_def spend_direction_def suppressed_action_ids_def dest: opposing_findings_spec)

lemma review_accounts:
  "review_s4 it as = withheld (fst (review it as))" "review_s4 it as \<subseteq> pr_id ` set as"
proof -
  note u = unexecutable_pass.accounts [of it as "{}", folded review_s1_def]
    repeats_pass.accounts [of it as "review_s1 it as", folded review_s2_def]
    conflicts_pass.accounts [of it as "review_s2 it as" CAMPAIGN_CONFLICTS False, folded review_s3_def]
    conflicts_pass.accounts [of it as "review_s3 it as" CREATIVE_CONFLICTS True, folded review_s4_def]
  show eq: "review_s4 it as = withheld (fst (review it as))"
    using u by (simp add: fst_review Un_assoc)
  show "review_s4 it as \<subseteq> pr_id ` set as"
    unfolding review_s4_def review_s3_def review_s2_def review_s1_def
    by (intro conflicts_pass.pass_only repeats_pass.pass_only unexecutable_pass.pass_only) simp
qed

subsection \<open>Properties\<close>

text \<open>
  Every withheld proposal is accounted for: the set the critic ends with is exactly the set of
  proposals its findings name, it holds only proposals of the list, and when the proposals carry
  distinct ids the reported number of survivors is the number of proposals outside the set.
\<close>

theorem critic_verdicts_audited:
  assumes "distinct (map pr_id as)"
  shows "snd (review it as) = withheld (cu_findings (critic_run it as))
    \<and> withheld (cu_findings (critic_run it as)) \<subseteq> pr_id ` set as
    \<and> cs_surviving (cu_summary (critic_run it as)) = int (length (live as (snd (review it as))))"
proof (cases "as = []")
  case True
  then show ?thesis
    by (simp add: critic_run_def review_def repeats_def conflicts_def live_def spend_direction_def)
next
  case False
  let ?s = "review_s4 it as"
  have fin: "finite ?s" using review_accounts(2) by (rule finite_subset) simp
  have "length (live as ?s) = card (pr_id ` {a \<in> set as. pr_id a \<notin> ?s})"
  proof -
    have "distinct (map pr_id (live as ?s))" using assms by (simp add: live_def distinct_map_filter)
    from distinct_card [OF this] show ?thesis by simp
  qed
  also have "pr_id ` {a \<in> set as. pr_id a \<notin> ?s} = pr_id ` set as - ?s" by auto
  also have "card \<dots> = card (pr_id ` set as) - card ?s"
    using review_accounts(2) fin by (rule card_Diff_subset [rotated])
  also have "card (pr_id ` set as) = length as" using assms by (metis distinct_card length_map set_map)
  finally have "length (live as ?s) = length as - card ?s" .
  moreover have "card ?s \<le> length as"
    using card_mono [OF _ review_accounts(2)] assms by (metis distinct_card finite_set length_map set_map)
  ultimately show ?thesis
    using False review_accounts [of it as] by (simp add: critic_run_def split_beta snd_review Let_def)
qed

theorem critic_verdicts_audited_witness:
  "snd (review 1 [plain_proposal ''a'' ''c'' PAUSE_CAMPAIGN 0.9 ''critical'' None])
     = withheld (cu_findings (critic_run 1 [plain_proposal ''a'' ''c'' PAUSE_CAMPAIGN 0.9 ''critical'' None]))
   \<and> withheld (cu_findings (critic_run 1 [plain_proposal ''a'' ''c'' PAUSE_CAMPAIGN 0.9 ''critical'' None]))
       \<subseteq> pr_id ` set [plain_proposal ''a'' ''c'' PAUSE_CAMPAIGN 0.9 ''critical'' None]
   \<and> cs_surviving (cu_summary (critic_run 1 [plain_proposal ''a'' ''c'' PAUSE_CAMPAIGN 0.9 ''critical'' None]))
       = int (length (live [plain_proposal ''a'' ''c'' PAUSE_CAMPAIGN 0.9 ''critical'' None]
           (snd (review 1 [plain_proposal ''a'' ''c'' PAUSE_CAMPAIGN 0.9 ''critical'' None]))))"
  by (rule critic_verdicts_audited) simp

text \<open>
  C2. What survives the critic is consistent: of the surviving proposals none was refused by the
  platform, no two have the same campaign, creative and type, and no two contradict each other under
  the campaign conflict rules, nor under the creative ones when they name a creative. In particular no
  operator is asked to pause a campaign and change its spend.
\<close>

theorem critic_survivors_consistent:
  assumes "distinct (map pr_id as)" "a \<in> set (live as (snd (review it as)))" "b \<in> set (live as (snd (review it as)))"
  shows "\<not> is_unexecutable a
    \<and> (target_key a = target_key b \<and> pr_action_type a = pr_action_type b \<longrightarrow> a = b)
    \<and> (target_key a = target_key b \<longrightarrow> (\<forall>r\<in>set CAMPAIGN_CONFLICTS. \<not> contradict r a b))
    \<and> (target_key a = target_key b \<and> creative_key a \<noteq> [] \<longrightarrow> (\<forall>r\<in>set CREATIVE_CONFLICTS. \<not> contradict r a b))"
proof -
  have ab: "a \<in> set as" "b \<in> set as" "pr_id a \<notin> review_s4 it as" "pr_id b \<notin> review_s4 it as"
    using assms(2,3) by (auto simp: snd_review)
  have out: "pr_id x \<notin> review_s1 it as" "pr_id x \<notin> review_s2 it as" "pr_id x \<notin> review_s3 it as"
    if "pr_id x \<notin> review_s4 it as" for x
    using that review_grows [of it as] by blast+
  have "\<not> is_unexecutable a" using out(1) [OF ab(3)] ab(1) by (auto simp: review_s1_def snd_unexecutable)
  moreover have "target_key a = target_key b \<and> pr_action_type a = pr_action_type b \<longrightarrow> a = b"
    using repeats_unique [OF assms(1) ab(1,2)] out(2) [OF ab(3)] out(2) [OF ab(4)]
    by (metis review_s2_def)
  moreover have "target_key a = target_key b \<longrightarrow> (\<forall>r\<in>set CAMPAIGN_CONFLICTS. \<not> contradict r a b)"
    using conflicts_cleared [OF _ ab(1,2), where bc = False] out(3) [OF ab(3)] out(3) [OF ab(4)]
    by (metis review_s3_def)
  moreover have "target_key a = target_key b \<and> creative_key a \<noteq> [] \<longrightarrow> (\<forall>r\<in>set CREATIVE_CONFLICTS. \<not> contradict r a b)"
    using conflicts_cleared [OF _ ab(1,2), where bc = True] ab(3,4) by (metis review_s4_def)
  ultimately show ?thesis by blast
qed

theorem critic_survivors_consistent_witness:
  "\<not> is_unexecutable (plain_proposal ''a'' ''c'' PAUSE_CAMPAIGN 0.9 ''critical'' None)"
proof -
  let ?a = "plain_proposal ''a'' ''c'' PAUSE_CAMPAIGN 0.9 ''critical'' None"
  have one: "distinct (map pr_id [?a])" by simp
  have "?a \<in> set (live [?a] (snd (review 1 [?a])))"
    by (simp add: review_def unexecutable.simps is_unexecutable_def repeats_def dict_append_def repeat_key_def
        conflicts_def target_key_def creative_key_def opt_str_def resolve_def live_def
        CAMPAIGN_CONFLICTS_def CREATIVE_CONFLICTS_def SPEND_ACTIONS_def enumerate_eq_zip)
  from critic_survivors_consistent [OF one this this] show ?thesis by blast
qed

text \<open>
  The critic never silences a target: whenever a proposal the platform did not refuse names a
  campaign and creative, some proposal for that campaign and creative survives the whole review.
\<close>

theorem critic_keeps_a_survivor:
  assumes "distinct (map pr_id as)" "a \<in> set as" "\<not> is_unexecutable a"
  shows "\<exists>b\<in>set (live as (snd (review it as))). target_key b = target_key a"
proof -
  have inj: "inj_on pr_id (set as)" using assms(1) by (simp add: distinct_map)
  have "pr_id a \<notin> review_s1 it as"
    using assms inj by (auto simp: review_s1_def snd_unexecutable dest: inj_onD)
  then have "alive as (review_s1 it as) (target_key a)" using assms(2) by (auto simp: alive_def)
  then have "alive as (review_s2 it as) (target_key a)"
    unfolding review_s2_def by (rule repeats_alive [OF assms(1)])
  then have "alive as (review_s3 it as) (target_key a)"
    unfolding review_s3_def by (rule conflicts_alive [OF inj conflict_rules_irreflexive(1)])
  then have "alive as (review_s4 it as) (target_key a)"
    unfolding review_s4_def by (rule conflicts_alive [OF inj conflict_rules_irreflexive(2)])
  then show ?thesis by (auto simp: alive_def snd_review)
qed

theorem critic_keeps_a_survivor_witness:
  "\<exists>b\<in>set (live [plain_proposal ''a'' ''c'' PAUSE_CAMPAIGN 0.9 ''critical'' None,
        plain_proposal ''b'' ''c'' ADJUST_BID 0.98 [] None]
      (snd (review 1 [plain_proposal ''a'' ''c'' PAUSE_CAMPAIGN 0.9 ''critical'' None,
        plain_proposal ''b'' ''c'' ADJUST_BID 0.98 [] None]))).
      target_key b = target_key (plain_proposal ''a'' ''c'' PAUSE_CAMPAIGN 0.9 ''critical'' None)"
  by (rule critic_keeps_a_survivor) (simp_all add: is_unexecutable_def)

text \<open>
  Opposing spend proposals are escalated, not decided: the last pass withholds nothing, and it
  raises a finding for a campaign exactly when the proposals still standing for it include a spend
  change marked as an increase and one marked as a decrease.
\<close>

theorem opposing_spend_escalates:
  "withheld (spend_direction it as S) = {}
   \<and> (\<forall>f\<in>set (spend_direction it as S). fd_escalate f)
   \<and> (cid \<in> fd_campaign_id ` set (spend_direction it as S) \<longleftrightarrow>
       (\<exists>a\<in>set (live as S). \<exists>b\<in>set (live as S). pr_campaign_id a = cid \<and> pr_campaign_id b = cid
          \<and> pr_action_type a \<in> set SPEND_ACTIONS \<and> pr_action_type b \<in> set SPEND_ACTIONS
          \<and> pr_direction a = ''increase'' \<and> pr_direction b = ''decrease''))"
  unfolding spend_direction_def opposing_findings_campaigns mem_group_iff
  using withheld_spend_direction [of it as S]
  by (auto simp: spend_direction_def filter_empty_conv dest: opposing_findings_spec)

theorem opposing_spend_escalates_witness:
  "''c'' \<in> fd_campaign_id ` set (spend_direction 1
     [(plain_proposal ''a'' ''c'' ADJUST_BID 0.9 [] None)\<lparr>pr_direction := ''increase''\<rparr>,
      (plain_proposal ''b'' ''c'' ADJUST_BUDGET 0.7 [] None)\<lparr>pr_direction := ''decrease''\<rparr>] {})"
proof -
  let ?a = "(plain_proposal ''a'' ''c'' ADJUST_BID 0.9 [] None)\<lparr>pr_direction := ''increase''\<rparr>"
  let ?b = "(plain_proposal ''b'' ''c'' ADJUST_BUDGET 0.7 [] None)\<lparr>pr_direction := ''decrease''\<rparr>"
  have "\<exists>a\<in>set (live [?a, ?b] {}). \<exists>b\<in>set (live [?a, ?b] {}). pr_campaign_id a = ''c'' \<and> pr_campaign_id b = ''c''
      \<and> pr_action_type a \<in> set SPEND_ACTIONS \<and> pr_action_type b \<in> set SPEND_ACTIONS
      \<and> pr_direction a = ''increase'' \<and> pr_direction b = ''decrease''"
    by (rule bexI [of _ ?a], rule bexI [of _ ?b]) (simp_all add: SPEND_ACTIONS_def plain_proposal_def)
  with opposing_spend_escalates [of 1 "[?a, ?b]" "{}" "''c''"] show ?thesis by blast
qed

text \<open>
  A kept proposal is not always kept: the campaign rules run in sequence, so a pause that withheld
  a spend change can itself be withheld by the next rule. With a warning-level pause at confidence 0.7,
  a bid change at 0.6 and an experiment at 0.85, the bid change is withheld in favour of the pause, the
  pause in favour of the experiment, and neither remedy reaches the operator's queue.
\<close>

theorem critic_cascade_drops_both_remedies:
  "let as = [plain_proposal ''pause'' ''c'' PAUSE_CAMPAIGN (7 / 10) ''warning'' (Some 0),
             plain_proposal ''bid'' ''c'' ADJUST_BID (3 / 5) [] (Some 0),
             plain_proposal ''test'' ''c'' START_AB_TEST (17 / 20) [] (Some 0)]
   in snd (review 1 as) = {''pause'', ''bid''}
      \<and> map (\<lambda>f. (fd_kept_action_id f, suppressed_action_ids f)) (fst (review 1 as))
          = [(''pause'', [''bid'']), (''test'', [''pause''])]"
proof -
  let ?p = "plain_proposal ''pause'' ''c'' PAUSE_CAMPAIGN (7 / 10) ''warning'' (Some 0)"
  let ?b = "plain_proposal ''bid'' ''c'' ADJUST_BID (3 / 5) [] (Some 0)"
  let ?t = "plain_proposal ''test'' ''c'' START_AB_TEST (17 / 20) [] (Some 0)"
  let ?as = "[?p, ?b, ?t]"
  have key: "target_key ?p = (''c'', [])" "target_key ?b = (''c'', [])" "target_key ?t = (''c'', [])"
    by (simp_all add: target_key_def creative_key_def opt_str_def)
  have rank: "rank_of ?p = (0, 7 / 10)" "rank_of ?b = (0, 3 / 5)" "rank_of ?t = (0, 17 / 20)"
    by (simp_all add: rank_of_def severity_rank_of_def CRITICAL_def)
  have beats: "\<not> outranks ?b ?p" "outranks ?t ?p"
    by (simp_all add: outranks_def dominates_def severity_rank_of_def CRITICAL_def)
  have u: "unexecutable 1 ?as {} = ([], {})" by (simp add: is_unexecutable_def)
  have r: "repeats 1 ?as {} = ([], {})"
    by (simp add: repeats_def enumerate_eq_zip upt_rec dict_append_def repeat_key_def)
  have r1: "resolve 1 (''pause_campaign'', [''adjust_budget'', ''adjust_bid''], k) ''c'' [] ?as {} =
      ([conflict_finding 1 k ''c'' [] ?p [?b] (supersede_reason ?p (describe_target ''c'' []) [?b])], {''bid''})" for k
    by (simp add: resolve_def live_def beats Let_def)
  have r2: "resolve 1 (''pause_campaign'', [''resume_campaign''], k) ''c'' [] ?as {''bid''} = ([], {''bid''})" for k
    by (simp add: resolve_def live_def Let_def)
  have r3: "resolve 1 (''pause_campaign'', [''start_ab_test''], k) ''c'' [] ?as {''bid''} =
      ([conflict_finding 1 k ''c'' [] ?t [?p] (overrule_reason ?t ?p (describe_target ''c'' []) [?p])], {''pause'', ''bid''})" for k
    by (simp add: resolve_def live_def beats Let_def insert_commute)
  have grp: "group_by_key target_key (filter (\<lambda>a. \<not> (False \<and> creative_key a = [])) (live ?as {})) [] = [((''c'', []), ?as)]"
    by (simp add: live_def key dict_append_def)
  have c1: "snd (conflicts 1 ?as {} CAMPAIGN_CONFLICTS False) = {''pause'', ''bid''}
      \<and> map (\<lambda>f. (fd_kept_action_id f, suppressed_action_ids f)) (fst (conflicts 1 ?as {} CAMPAIGN_CONFLICTS False))
          = [(''pause'', [''bid'']), (''test'', [''pause''])]"
    unfolding conflicts_def grp
    by (simp add: CAMPAIGN_CONFLICTS_def SPEND_ACTIONS_def r1 r2 r3) (simp add: conflict_finding_def)
  have c2: "conflicts 1 ?as {''pause'', ''bid''} CREATIVE_CONFLICTS True = ([], {''pause'', ''bid''})"
    by (simp add: conflicts_def live_def creative_key_def opt_str_def)
  have s: "spend_direction 1 ?as {''pause'', ''bid''} = []"
    by (simp add: spend_direction_def live_def SPEND_ACTIONS_def)
  show ?thesis using c1 by (simp add: review_def u r c2 s split_beta Let_def del: unexecutable.simps)
qed

end
