(* ===== verification/Tools.thy ===== *)
theory Tools
  imports Json Enums Errors
begin

text \<open>
  \<open>tools/spec.py\<close>, \<open>tools/registry.py\<close> and \<open>tools/executor.py\<close>: the contract of a tool, the
  catalogue, and the executor every tool call passes through.

  A tool's handler reaches the outside world, so the world is a type variable: a handler maps the
  validated arguments, the request and the world to its payload (or the exception it raised) and the
  world it left. The parameter model of a tool is its \<open>sp_validate\<close>: the validated dictionary, or
  the list of the location and message of each error. The two clock readings of a call (when it
  started, when its result is built) are arguments. The calls of the audit sink and of the event bus
  are recorded in the state, in order; what the sink raises is swallowed by the code, so it does not
  appear.
\<close>

datatype tool_outcome =
    TOOL_SUCCESS | TOOL_DRY_RUN | TOOL_REPLAYED | TOOL_VALIDATION_FAILED | TOOL_PERMISSION_DENIED
  | TOOL_BUDGET_EXHAUSTED | TOOL_DISABLED | TOOL_FAILED

primrec tool_outcome_value :: "tool_outcome \<Rightarrow> string" where
  "tool_outcome_value TOOL_SUCCESS = ''success''"
| "tool_outcome_value TOOL_DRY_RUN = ''dry_run''"
| "tool_outcome_value TOOL_REPLAYED = ''replayed''"
| "tool_outcome_value TOOL_VALIDATION_FAILED = ''validation_failed''"
| "tool_outcome_value TOOL_PERMISSION_DENIED = ''permission_denied''"
| "tool_outcome_value TOOL_BUDGET_EXHAUSTED = ''budget_exhausted''"
| "tool_outcome_value TOOL_DISABLED = ''disabled''"
| "tool_outcome_value TOOL_FAILED = ''failed''"

definition BENIGN_OUTCOMES :: "tool_outcome list" where
  "BENIGN_OUTCOMES = [TOOL_SUCCESS, TOOL_DRY_RUN, TOOL_REPLAYED]"

definition REFUSED_OUTCOMES :: "tool_outcome list" where
  "REFUSED_OUTCOMES =
     [TOOL_VALIDATION_FAILED, TOOL_PERMISSION_DENIED, TOOL_BUDGET_EXHAUSTED, TOOL_DISABLED]"

definition BLOCKING_REFUSALS :: "tool_outcome list" where
  "BLOCKING_REFUSALS = [TOOL_VALIDATION_FAILED, TOOL_PERMISSION_DENIED]"

record tool_request =
  rq_tool :: string
  rq_arguments :: json_dict
  rq_agent :: "agent_name option"
  rq_run_id :: string
  rq_actor :: string
  rq_idempotency_key :: string
  rq_dry_run :: "bool option"

definition from_agent :: "tool_request \<Rightarrow> bool" where
  "from_agent r = (rq_agent r \<noteq> None)"

type_synonym 'w handler = "json_dict \<Rightarrow> tool_request \<Rightarrow> 'w \<Rightarrow> (py_error, json_dict) res \<times> 'w"

record 'w tool_spec =
  sp_name :: string
  sp_description :: string
  sp_validate :: "json_dict \<Rightarrow> ((string \<times> string) list, json_dict) res"
  sp_handler :: "'w handler"
  sp_read_only :: bool
  sp_agents :: "agent_name list"
  sp_touches_platform :: bool

definition allows :: "'w tool_spec \<Rightarrow> agent_name option \<Rightarrow> bool" where
  "allows s agent = (case agent of None \<Rightarrow> True | Some a \<Rightarrow> sp_agents s = [] \<or> a \<in> set (sp_agents s))"

record 'w tool_result =
  tr_request :: tool_request
  tr_outcome :: tool_outcome
  tr_spec :: "'w tool_spec option"
  tr_data :: json_dict
  tr_error :: "string option"
  tr_duration_ms :: real

definition result_ok :: "'w tool_result \<Rightarrow> bool" where
  "result_ok r = (tr_outcome r \<in> set BENIGN_OUTCOMES)"

definition result_dry_run :: "'w tool_result \<Rightarrow> bool" where
  "result_dry_run r = (tr_outcome r = TOOL_DRY_RUN)"

definition result_refused :: "'w tool_result \<Rightarrow> bool" where
  "result_refused r = (tr_outcome r \<in> set REFUSED_OUTCOMES)"

definition result_blocking :: "'w tool_result \<Rightarrow> bool" where
  "result_blocking r = (tr_outcome r \<in> set BLOCKING_REFUSALS \<or> tr_outcome r = TOOL_FAILED)"

subsection \<open>The registry\<close>

type_synonym 'w registry = "(string, 'w tool_spec) dict"

definition register :: "'w registry \<Rightarrow> 'w tool_spec \<Rightarrow> (py_error, 'w registry) res" where
  "register reg s =
     (if map_of reg (sp_name s) \<noteq> None then Inl (ValueError (''Tool already registered: '' @ sp_name s))
      else Inr (AList.update (sp_name s) s reg))"

fun register_all :: "'w registry \<Rightarrow> 'w tool_spec list \<Rightarrow> (py_error, 'w registry) res" where
  "register_all reg [] = Inr reg"
| "register_all reg (s # ss) = bind_res (register reg s) (\<lambda>reg'. register_all reg' ss)"

definition tool_names :: "'w registry \<Rightarrow> string list" where
  "tool_names reg = sort (map fst reg)"

definition all_tools :: "'w registry \<Rightarrow> 'w tool_spec list" where
  "all_tools reg = map (\<lambda>n. the (map_of reg n)) (tool_names reg)"

definition for_agent :: "'w registry \<Rightarrow> agent_name \<Rightarrow> 'w tool_spec list" where
  "for_agent reg agent = filter (\<lambda>s. allows s (Some agent)) (all_tools reg)"

definition write_tools :: "'w registry \<Rightarrow> string list" where
  "write_tools reg = sort (map fst (filter (\<lambda>(n, s). \<not> sp_read_only s) reg))"

subsection \<open>The executor\<close>

record tool_settings =
  ts_enabled :: bool
  ts_dry_run :: bool
  ts_allow_agent_writes :: bool
  ts_max_calls_per_run :: nat

record run_stats =
  rs_invocations :: nat
  rs_by_outcome :: "(string, nat) dict"
  rs_by_tool :: "(string, nat) dict"
  rs_writes :: nat
  rs_dry_runs :: nat
  rs_refusals :: nat
  rs_failures :: nat

definition new_run_stats :: run_stats where
  "new_run_stats = \<lparr>rs_invocations = 0, rs_by_outcome = [], rs_by_tool = [], rs_writes = 0,
     rs_dry_runs = 0, rs_refusals = 0, rs_failures = 0\<rparr>"

record 'w executor =
  ex_calls_per_run :: "(string, nat) dict"
  ex_replays :: "(string, 'w tool_result) dict"
  ex_stats_per_run :: "(string, run_stats) dict"
  ex_published :: "'w tool_result list"
  ex_audited :: "'w tool_result list"

definition new_executor :: "'w executor" where
  "new_executor = \<lparr>ex_calls_per_run = [], ex_replays = [], ex_stats_per_run = [],
     ex_published = [], ex_audited = []\<rparr>"

definition calls_of :: "'w executor \<Rightarrow> string \<Rightarrow> nat" where
  "calls_of ex run = (case map_of (ex_calls_per_run ex) run of None \<Rightarrow> 0 | Some n \<Rightarrow> n)"

definition stats_of :: "'w executor \<Rightarrow> string \<Rightarrow> run_stats" where
  "stats_of ex run = (case map_of (ex_stats_per_run ex) run of None \<Rightarrow> new_run_stats | Some s \<Rightarrow> s)"

definition count_result :: "tool_request \<Rightarrow> 'w tool_spec option \<Rightarrow> 'w tool_result \<Rightarrow> run_stats \<Rightarrow> run_stats" where
  "count_result req spec r s =
     \<lparr>rs_invocations = rs_invocations s + 1,
      rs_by_outcome = dict_add (tool_outcome_value (tr_outcome r)) 1 (rs_by_outcome s),
      rs_by_tool = dict_add (rq_tool req) 1 (rs_by_tool s),
      rs_writes = rs_writes s + (case spec of Some sp \<Rightarrow> if \<not> sp_read_only sp then 1 else 0 | None \<Rightarrow> 0),
      rs_dry_runs = rs_dry_runs s + (if result_dry_run r then 1 else 0),
      rs_refusals = rs_refusals s + (if tr_outcome r \<in> set REFUSED_OUTCOMES then 1 else 0),
      rs_failures = rs_failures s + (if tr_outcome r = TOOL_FAILED then 1 else 0)\<rparr>"

definition elapsed_ms :: "real \<Rightarrow> real \<Rightarrow> real" where
  "elapsed_ms started now = (now - started) * 1000"

definition should_dry_run :: "tool_settings \<Rightarrow> tool_request \<Rightarrow> 'w tool_spec \<Rightarrow> bool" where
  "should_dry_run cfg req spec =
     (if sp_read_only spec then False
      else if from_agent req \<and> \<not> ts_allow_agent_writes cfg then True
      else case rq_dry_run req of Some d \<Rightarrow> d | None \<Rightarrow> ts_dry_run cfg)"

definition replay_key :: "tool_request \<Rightarrow> string" where
  "replay_key req =
     (if rq_idempotency_key req = [] then [] else rq_run_id req @ ''|'' @ rq_idempotency_key req)"

definition agent_label :: "string \<Rightarrow> tool_request \<Rightarrow> string" where
  "agent_label fallback req = (case rq_agent req of None \<Rightarrow> fallback | Some a \<Rightarrow> agent_name_value a)"

definition dry_run_reason :: "tool_request \<Rightarrow> tool_settings \<Rightarrow> string" where
  "dry_run_reason req cfg =
     (if from_agent req \<and> \<not> ts_allow_agent_writes cfg
      then ''agent-initiated writes are preflighted only; set TOOLS__ALLOW_AGENT_WRITES=true to let ''
           @ agent_label ''an agent'' req @ '' mutate a live platform''
      else if rq_dry_run req = Some True then ''caller requested a dry run''
      else ''TOOLS__DRY_RUN=true: paper-trading mode, nothing reaches the platform'')"

definition format_validation_error :: "(string \<times> string) list \<Rightarrow> string" where
  "format_validation_error errs =
     ''invalid arguments: '' @ join_with ''; '' (take 5 (map (\<lambda>(loc, msg). loc @ '' '' @ msg) errs))"

text \<open>
  \<open>_finish\<close>: without a ready result it builds one whose duration is the raw clock difference, in
  seconds; then it counts, publishes (both only for a request with a run id) and audits.
\<close>

definition finish ::
  "real \<Rightarrow> real \<Rightarrow> tool_request \<Rightarrow> 'w tool_spec option \<Rightarrow> tool_outcome \<Rightarrow> string option
   \<Rightarrow> 'w tool_result option \<Rightarrow> 'w executor \<Rightarrow> 'w tool_result \<times> 'w executor" where
  "finish started now req spec outcome err result ex =
     (let r0 = (case result of
            Some r \<Rightarrow> r
          | None \<Rightarrow> \<lparr>tr_request = req, tr_outcome = outcome, tr_spec = spec, tr_data = [],
                    tr_error = err, tr_duration_ms = now - started\<rparr>);
          final = (if tr_duration_ms r0 \<le> 0 then r0\<lparr>tr_duration_ms := elapsed_ms started now\<rparr> else r0);
          ex1 = (if rq_run_id req \<noteq> []
                 then ex\<lparr>ex_stats_per_run := AList.update (rq_run_id req)
                           (count_result req spec final (stats_of ex (rq_run_id req))) (ex_stats_per_run ex),
                         ex_published := ex_published ex @ [final]\<rparr>
                 else ex)
      in (final, ex1\<lparr>ex_audited := ex_audited ex1 @ [final]\<rparr>))"

definition budget_error :: "tool_settings \<Rightarrow> tool_request \<Rightarrow> string" where
  "budget_error cfg req = ''run '' @ rq_run_id req @ '' reached its tool budget of ''
     @ show_nat (ts_max_calls_per_run cfg)"

definition denied_error :: "tool_request \<Rightarrow> 'w tool_spec \<Rightarrow> string" where
  "denied_error req spec = ''agent '' @ agent_label ''unknown'' req @ '' may not call '' @ sp_name spec"

text \<open>The part of \<open>call\<close> after the budget gate: replay, validation, dry run, handler.\<close>

definition run_tool ::
  "tool_settings \<Rightarrow> real \<Rightarrow> real \<Rightarrow> tool_request \<Rightarrow> 'w tool_spec \<Rightarrow> 'w executor \<Rightarrow> 'w
   \<Rightarrow> 'w tool_result \<times> 'w executor \<times> 'w" where
  "run_tool cfg started now req spec ex w =
     (let done = (\<lambda>(r, ex'). (r, ex', w));
          refuse = (\<lambda>outcome err. finish started now req (Some spec) outcome (Some err) None ex);
          ready = (\<lambda>outcome data err. \<lparr>tr_request = req, tr_outcome = outcome, tr_spec = Some spec,
             tr_data = data, tr_error = err, tr_duration_ms = elapsed_ms started now\<rparr>)
      in (case (if replay_key req \<noteq> [] then map_of (ex_replays ex) (replay_key req) else None) of
            Some previous \<Rightarrow>
              done (finish started now req (Some spec) TOOL_REPLAYED None
                (Some (ready TOOL_REPLAYED (tr_data previous) (tr_error previous))) ex)
          | None \<Rightarrow>
              (case sp_validate spec (rq_arguments req) of
                 Inl errs \<Rightarrow> done (refuse TOOL_VALIDATION_FAILED (format_validation_error errs))
               | Inr arguments \<Rightarrow>
                   if should_dry_run cfg req spec
                   then done (finish started now req (Some spec) TOOL_DRY_RUN None
                     (Some (ready TOOL_DRY_RUN
                        [(''would_call'', JStr (sp_name spec)), (''arguments'', JDict (rq_arguments req)),
                         (''reason'', JStr (dry_run_reason req cfg))] None)) ex)
                   else (case sp_handler spec arguments req w of
                           (Inl e, w') \<Rightarrow>
                             (case refuse TOOL_FAILED (error_type_name e @ '': '' @ error_message e) of
                                (r, ex') \<Rightarrow> (r, ex', w'))
                         | (Inr payload, w') \<Rightarrow>
                             (let result = ready TOOL_SUCCESS payload None;
                                  ex1 = (if replay_key req \<noteq> []
                                         then ex\<lparr>ex_replays := AList.update (replay_key req) result (ex_replays ex)\<rparr>
                                         else ex)
                              in case finish started now req (Some spec) TOOL_SUCCESS None (Some result) ex1 of
                                   (r, ex') \<Rightarrow> (r, ex', w'))))))"

definition call_tool ::
  "tool_settings \<Rightarrow> 'w registry \<Rightarrow> real \<Rightarrow> real \<Rightarrow> tool_request \<Rightarrow> 'w executor \<Rightarrow> 'w
   \<Rightarrow> 'w tool_result \<times> 'w executor \<times> 'w" where
  "call_tool cfg reg started now req ex w =
     (let refuse = (\<lambda>spec outcome err.
            case finish started now req spec outcome (Some err) None ex of (r, ex') \<Rightarrow> (r, ex', w))
      in if \<not> ts_enabled cfg
         then refuse (map_of reg (rq_tool req)) TOOL_DISABLED ''tool layer is disabled''
         else case map_of reg (rq_tool req) of
                None \<Rightarrow> refuse None TOOL_VALIDATION_FAILED (''unknown tool: '' @ rq_tool req)
              | Some spec \<Rightarrow>
                  if \<not> allows spec (rq_agent req)
                  then refuse (Some spec) TOOL_PERMISSION_DENIED (denied_error req spec)
                  else if rq_run_id req \<noteq> [] \<and> from_agent req
                  then (if calls_of ex (rq_run_id req) \<ge> ts_max_calls_per_run cfg
                        then refuse (Some spec) TOOL_BUDGET_EXHAUSTED (budget_error cfg req)
                        else run_tool cfg started now req spec
                               (ex\<lparr>ex_calls_per_run := AList.update (rq_run_id req)
                                     (calls_of ex (rq_run_id req) + 1) (ex_calls_per_run ex)\<rparr>) w)
                  else run_tool cfg started now req spec ex w)"

record usage =
  us_calls :: nat
  us_invocations :: nat
  us_budget :: nat
  us_by_outcome :: "(string, nat) dict"
  us_by_tool :: "(string, nat) dict"
  us_writes :: nat
  us_dry_runs :: nat
  us_refusals :: nat
  us_failures :: nat
  us_dry_run_by_default :: bool
  us_agent_writes_allowed :: bool
  us_tools_registered :: nat

definition usage_of :: "tool_settings \<Rightarrow> 'w registry \<Rightarrow> 'w executor \<Rightarrow> string \<Rightarrow> usage" where
  "usage_of cfg reg ex run =
     (let s = stats_of ex run
      in \<lparr>us_calls = calls_of ex run, us_invocations = rs_invocations s,
          us_budget = ts_max_calls_per_run cfg, us_by_outcome = rs_by_outcome s,
          us_by_tool = rs_by_tool s, us_writes = rs_writes s, us_dry_runs = rs_dry_runs s,
          us_refusals = rs_refusals s, us_failures = rs_failures s,
          us_dry_run_by_default = ts_dry_run cfg,
          us_agent_writes_allowed = ts_allow_agent_writes cfg, us_tools_registered = length reg\<rparr>)"

subsection \<open>What a call can do\<close>

lemma finish_outcome [simp]:
  "tr_outcome (fst (finish t0 t1 req sp oc err None ex)) = oc"
  "tr_outcome (fst (finish t0 t1 req sp oc err (Some r) ex)) = tr_outcome r"
  by (simp_all add: finish_def Let_def)

lemma finish_data [simp]:
  "tr_data (fst (finish t0 t1 req sp oc err (Some r) ex)) = tr_data r"
  "tr_error (fst (finish t0 t1 req sp oc err (Some r) ex)) = tr_error r"
  by (simp_all add: finish_def Let_def)

lemma finish_state [simp]:
  "ex_calls_per_run (snd (finish t0 t1 req sp oc err res ex)) = ex_calls_per_run ex"
  "ex_replays (snd (finish t0 t1 req sp oc err res ex)) = ex_replays ex"
  "ex_audited (snd (finish t0 t1 req sp oc err res ex)) = ex_audited ex @ [fst (finish t0 t1 req sp oc err res ex)]"
  "calls_of (snd (finish t0 t1 req sp oc err res ex)) run = calls_of ex run"
  by (simp_all add: finish_def Let_def calls_of_def)

lemma finish_invocations:
  "rs_invocations (stats_of (snd (finish t0 t1 req sp oc err res ex)) run) =
     rs_invocations (stats_of ex run) + (if rq_run_id req = run \<and> run \<noteq> [] then 1 else 0)"
  by (auto simp: finish_def Let_def stats_of_def update_conv' count_result_def)

lemmas finish_facts = finish_outcome finish_data finish_state finish_invocations

text \<open>The stages of \<open>call\<close>, as a case analysis on what it does to the world.\<close>

lemma run_tool_world:
  "snd (snd (run_tool cfg t0 t1 req spec ex w)) = w
   \<or> \<not> should_dry_run cfg req spec
     \<and> (replay_key req = [] \<or> map_of (ex_replays ex) (replay_key req) = None)
     \<and> (\<exists>args. sp_validate spec (rq_arguments req) = Inr args
          \<and> snd (snd (run_tool cfg t0 t1 req spec ex w)) = snd (sp_handler spec args req w))"
  by (auto simp: run_tool_def Let_def split_beta split: option.splits sum.splits)

lemma run_tool_counters:
  "ex_calls_per_run (fst (snd (run_tool cfg t0 t1 req spec ex w))) = ex_calls_per_run ex"
  "ex_audited (fst (snd (run_tool cfg t0 t1 req spec ex w))) =
     ex_audited ex @ [fst (run_tool cfg t0 t1 req spec ex w)]"
  by (auto simp: run_tool_def Let_def split_beta split: option.splits sum.splits)

lemma run_tool_invocations:
  "rs_invocations (stats_of (fst (snd (run_tool cfg t0 t1 req spec ex w))) run) =
     rs_invocations (stats_of ex run) + (if rq_run_id req = run \<and> run \<noteq> [] then 1 else 0)"
proof -
  have upd: "stats_of (ex\<lparr>ex_replays := v\<rparr>) run = stats_of ex run" for v :: "(string, 'a tool_result) dict"
    by (simp add: stats_of_def)
  show ?thesis
    by (auto simp: run_tool_def Let_def split_beta finish_invocations upd
        split: option.splits sum.splits)
qed

lemma stats_of_calls [simp]: "stats_of (ex\<lparr>ex_calls_per_run := v\<rparr>) run = stats_of ex run"
  by (simp add: stats_of_def)

lemma calls_of_bump:
  "calls_of (ex\<lparr>ex_calls_per_run := AList.update run n (ex_calls_per_run ex)\<rparr>) run' =
     (if run' = run then n else calls_of ex run')"
  by (simp add: calls_of_def update_conv')

lemma calls_of_eq: "ex_calls_per_run ex = ex_calls_per_run ex' \<Longrightarrow> calls_of ex run = calls_of ex' run"
  by (simp add: calls_of_def)

subsection \<open>Properties\<close>

text \<open>A counter as the world, and a write tool that increments it, for the concrete examples.\<close>

definition counter_tool :: "string \<Rightarrow> nat tool_spec" where
  "counter_tool n = \<lparr>sp_name = n, sp_description = [], sp_validate = Inr,
     sp_handler = (\<lambda>args req w. (Inr [(''count'', JInt (int w))], w + 1)), sp_read_only = False,
     sp_agents = [AGENT_OPTIMIZE], sp_touches_platform = True\<rparr>"

definition counter_registry :: "nat registry" where
  "counter_registry = [(''a'', counter_tool ''a''), (''b'', counter_tool ''b'')]"

definition counter_request :: "string \<Rightarrow> agent_name option \<Rightarrow> tool_request" where
  "counter_request tool agent = \<lparr>rq_tool = tool, rq_arguments = [], rq_agent = agent, rq_run_id = ''r'',
     rq_actor = ''system'', rq_idempotency_key = ''k'', rq_dry_run = None\<rparr>"

definition live_settings :: tool_settings where
  "live_settings = \<lparr>ts_enabled = True, ts_dry_run = False, ts_allow_agent_writes = False, ts_max_calls_per_run = 2\<rparr>"

lemmas counter_defs = counter_tool_def counter_registry_def counter_request_def live_settings_def

lemma counter_call:
  "fst (call_tool live_settings counter_registry 0 1 (counter_request ''a'' None) new_executor 0) =
     \<lparr>tr_request = counter_request ''a'' None, tr_outcome = TOOL_SUCCESS, tr_spec = Some (counter_tool ''a''),
      tr_data = [(''count'', JInt 0)], tr_error = None, tr_duration_ms = 1000\<rparr>"
  "snd (snd (call_tool live_settings counter_registry 0 1 (counter_request ''a'' None) new_executor 0)) = 1"
  by (simp_all add: call_tool_def run_tool_def counter_defs new_executor_def allows_def from_agent_def
      should_dry_run_def replay_key_def finish_def elapsed_ms_def Let_def)

text \<open>
  C1. No agent moves real money on its own: while agent writes are not allowed, a call requested by an
  agent leaves the world untouched unless the tool is read-only. More generally the world changes only
  if the layer is enabled, the registry grants the caller that tool, the run had budget left, the
  arguments validated, the call was not to be rehearsed, and then it changes as the handler changes it.
\<close>

theorem call_touches_world_only_when_granted:
  assumes "snd (snd (call_tool cfg reg t0 t1 req ex w)) \<noteq> w"
  shows "\<exists>spec args. map_of reg (rq_tool req) = Some spec \<and> ts_enabled cfg \<and> allows spec (rq_agent req)
    \<and> sp_validate spec (rq_arguments req) = Inr args
    \<and> snd (snd (call_tool cfg reg t0 t1 req ex w)) = snd (sp_handler spec args req w)
    \<and> \<not> should_dry_run cfg req spec
    \<and> (from_agent req \<longrightarrow> sp_read_only spec \<or> ts_allow_agent_writes cfg)
    \<and> (from_agent req \<and> rq_run_id req \<noteq> [] \<longrightarrow> calls_of ex (rq_run_id req) < ts_max_calls_per_run cfg)
    \<and> (replay_key req = [] \<or> map_of (ex_replays ex) (replay_key req) = None)"
proof -
  obtain spec where spec: "map_of reg (rq_tool req) = Some spec" "ts_enabled cfg" "allows spec (rq_agent req)"
    using assms by (auto simp: call_tool_def Let_def split_beta split: option.splits if_splits)
  obtain ex' where ex': "call_tool cfg reg t0 t1 req ex w = run_tool cfg t0 t1 req spec ex' w"
    "ex_replays ex' = ex_replays ex"
    "from_agent req \<and> rq_run_id req \<noteq> [] \<longrightarrow> calls_of ex (rq_run_id req) < ts_max_calls_per_run cfg"
  proof (cases "rq_run_id req \<noteq> [] \<and> from_agent req")
    case True
    then have "calls_of ex (rq_run_id req) < ts_max_calls_per_run cfg"
      using assms spec by (auto simp: call_tool_def Let_def split_beta split: if_splits)
    then show ?thesis using that True spec by (auto simp: call_tool_def Let_def)
  next
    case False
    then show ?thesis using that [of ex] spec by (auto simp: call_tool_def Let_def)
  qed
  have "\<not> should_dry_run cfg req spec \<Longrightarrow> from_agent req \<Longrightarrow> sp_read_only spec \<or> ts_allow_agent_writes cfg"
    by (auto simp: should_dry_run_def split: if_splits)
  then show ?thesis
    using run_tool_world [of cfg t0 t1 req spec ex' w] assms spec ex' by auto
qed

theorem call_touches_world_only_when_granted_witness:
  "\<exists>spec. map_of counter_registry ''a'' = Some spec \<and> allows spec None \<and> \<not> should_dry_run live_settings (counter_request ''a'' None) spec"
proof -
  have "snd (snd (call_tool live_settings counter_registry 0 1 (counter_request ''a'' None) new_executor 0)) \<noteq> 0"
    by (simp add: counter_call)
  from call_touches_world_only_when_granted [OF this] show ?thesis by (auto simp: counter_request_def)
qed

text \<open>
  C5. The tool budget of a run is a real bound: only an agent's call is charged, each charges at most
  one, the charged calls never pass the configured maximum once they are within it, and an agent's
  call on an exhausted run is refused without reaching the handler.
\<close>

theorem call_respects_run_budget:
  assumes "calls_of ex run \<le> ts_max_calls_per_run cfg"
  shows "calls_of (fst (snd (call_tool cfg reg t0 t1 req ex w))) run \<le> ts_max_calls_per_run cfg
    \<and> calls_of (fst (snd (call_tool cfg reg t0 t1 req ex w))) run
        \<le> calls_of ex run + (if rq_run_id req = run \<and> from_agent req then 1 else 0)
    \<and> (calls_of ex run = ts_max_calls_per_run cfg \<and> from_agent req \<and> rq_run_id req = run \<and> run \<noteq> [] \<longrightarrow>
         result_refused (fst (call_tool cfg reg t0 t1 req ex w)) \<and> snd (snd (call_tool cfg reg t0 t1 req ex w)) = w)"
proof -
  note rt = calls_of_eq [OF run_tool_counters(1)]
  have bound: "calls_of (fst (snd (call_tool cfg reg t0 t1 req ex w))) run \<le> ts_max_calls_per_run cfg
    \<and> calls_of (fst (snd (call_tool cfg reg t0 t1 req ex w))) run
        \<le> calls_of ex run + (if rq_run_id req = run \<and> from_agent req then 1 else 0)"
    using assms by (auto simp: call_tool_def Let_def split_beta rt calls_of_bump split: option.splits)
  have "result_refused (fst (call_tool cfg reg t0 t1 req ex w)) \<and> snd (snd (call_tool cfg reg t0 t1 req ex w)) = w"
    if "calls_of ex run = ts_max_calls_per_run cfg" "from_agent req" "rq_run_id req = run" "run \<noteq> []"
    using that by (auto simp: call_tool_def Let_def split_beta result_refused_def REFUSED_OUTCOMES_def split: option.splits)
  with bound show ?thesis by blast
qed

theorem call_respects_run_budget_witness:
  "calls_of (fst (snd (call_tool live_settings counter_registry 0 1 (counter_request ''a'' (Some AGENT_OPTIMIZE))
      new_executor 0))) ''r'' \<le> 2"
proof -
  have "calls_of (new_executor :: nat executor) ''r'' \<le> ts_max_calls_per_run live_settings"
    by (simp add: calls_of_def new_executor_def)
  from call_respects_run_budget [OF this] show ?thesis by (simp add: live_settings_def)
qed

text \<open>
  C4. An idempotent call runs once: after a call that succeeded under an idempotency key, any later
  call of the same run with that key that passes the gates is answered from the record, with the
  recorded data and without touching the world. The record is found by run and key alone: the theorem
  holds for a later call of another tool with other arguments, which the module's documentation
  (``already run this exact request'') does not suggest.
\<close>

theorem successful_call_is_replayed:
  assumes "fst (call_tool cfg reg t0 t1 req ex w) = r" "tr_outcome r = TOOL_SUCCESS"
    and "ex' = fst (snd (call_tool cfg reg t0 t1 req ex w))"
    and "rq_idempotency_key req \<noteq> []" "rq_idempotency_key req2 = rq_idempotency_key req"
    "rq_run_id req2 = rq_run_id req"
    and "map_of reg (rq_tool req2) = Some spec2" "allows spec2 (rq_agent req2)" "ts_enabled cfg"
    and "\<not> from_agent req2 \<or> rq_run_id req2 = [] \<or> calls_of ex' (rq_run_id req2) < ts_max_calls_per_run cfg"
  shows "tr_outcome (fst (call_tool cfg reg t2 t3 req2 ex' w2)) = TOOL_REPLAYED
    \<and> tr_data (fst (call_tool cfg reg t2 t3 req2 ex' w2)) = tr_data r
    \<and> snd (snd (call_tool cfg reg t2 t3 req2 ex' w2)) = w2"
proof -
  have key: "replay_key req \<noteq> []" "replay_key req2 = replay_key req"
    using assms(4-6) by (simp_all add: replay_key_def)
  have run: "\<exists>x. map_of (ex_replays (fst (snd (run_tool cfg t0 t1 req spec e w)))) (replay_key req) = Some x
      \<and> tr_data x = tr_data (fst (run_tool cfg t0 t1 req spec e w))"
    if "tr_outcome (fst (run_tool cfg t0 t1 req spec e w)) = TOOL_SUCCESS" for spec and e :: "'a executor"
    using that key(1)
    by (auto simp: run_tool_def Let_def split_beta update_conv' split: option.splits sum.splits if_splits)
  have "\<exists>x. map_of (ex_replays ex') (replay_key req) = Some x \<and> tr_data x = tr_data r"
    using assms(1-3) run
    by (auto simp: call_tool_def Let_def split_beta split: option.splits if_splits)
  then obtain x where x: "map_of (ex_replays ex') (replay_key req2) = Some x" "tr_data x = tr_data r"
    using key(2) by auto
  have rep: "tr_outcome (fst (run_tool cfg t2 t3 req2 spec2 e w2)) = TOOL_REPLAYED
      \<and> tr_data (fst (run_tool cfg t2 t3 req2 spec2 e w2)) = tr_data r
      \<and> snd (snd (run_tool cfg t2 t3 req2 spec2 e w2)) = w2" if "ex_replays e = ex_replays ex'" for e
    using x key that by (simp add: run_tool_def Let_def split_beta)
  show ?thesis using assms(7-10) by (auto simp: call_tool_def Let_def rep)
qed

theorem successful_call_is_replayed_witness:
  "let ex' = fst (snd (call_tool live_settings counter_registry 0 1 (counter_request ''a'' None) new_executor 0))
   in tr_outcome (fst (call_tool live_settings counter_registry 2 3 (counter_request ''b'' None) ex' 7)) = TOOL_REPLAYED
      \<and> tr_data (fst (call_tool live_settings counter_registry 2 3 (counter_request ''b'' None) ex' 7)) = [(''count'', JInt 0)]
      \<and> snd (snd (call_tool live_settings counter_registry 2 3 (counter_request ''b'' None) ex' 7)) = 7"
proof -
  have "map_of counter_registry (rq_tool (counter_request ''b'' None)) = Some (counter_tool ''b'')"
    "allows (counter_tool ''b'') (rq_agent (counter_request ''b'' None))" "ts_enabled live_settings"
    "\<not> from_agent (counter_request ''b'' None)"
    by (simp_all add: counter_defs allows_def from_agent_def)
  then show ?thesis
    using successful_call_is_replayed [OF refl _ refl, of live_settings counter_registry 0 1 "counter_request ''a'' None"
        new_executor 0 "counter_request ''b'' None" "counter_tool ''b''" 2 3 7]
    by (simp add: counter_call Let_def) (simp add: counter_request_def)
qed

text \<open>
  Every invocation is audited exactly once, refusals included: a call appends its own result to
  the audit trail, and the run's invocation counter grows by one for a call of that run and by nothing
  otherwise.
\<close>

theorem call_is_audited_once:
  "ex_audited (fst (snd (call_tool cfg reg t0 t1 req ex w))) = ex_audited ex @ [fst (call_tool cfg reg t0 t1 req ex w)]
   \<and> rs_invocations (stats_of (fst (snd (call_tool cfg reg t0 t1 req ex w))) run) =
       rs_invocations (stats_of ex run) + (if rq_run_id req = run \<and> run \<noteq> [] then 1 else 0)"
  by (auto simp: call_tool_def Let_def split_beta run_tool_counters run_tool_invocations finish_invocations
      split: option.splits)

text \<open>
  A refused call reports its duration in seconds: the result \<open>_finish\<close> builds itself carries the
  raw clock difference in the field every other path fills with milliseconds.
\<close>

theorem refused_duration_in_seconds:
  assumes "\<not> ts_enabled cfg" "t0 < t1"
  shows "tr_duration_ms (fst (call_tool cfg reg t0 t1 req ex w)) = t1 - t0
    \<and> tr_duration_ms (fst (call_tool cfg reg t0 t1 req ex w)) \<noteq> elapsed_ms t0 t1"
  using assms by (simp add: call_tool_def Let_def split_beta finish_def elapsed_ms_def)

theorem refused_duration_in_seconds_witness:
  "tr_duration_ms (fst (call_tool (live_settings\<lparr>ts_enabled := False\<rparr>) counter_registry 0 1 (counter_request ''a'' None)
      new_executor 0)) = 1"
proof -
  have "\<not> ts_enabled (live_settings\<lparr>ts_enabled := False\<rparr>)" by simp
  from refused_duration_in_seconds [OF this, of 0 1 counter_registry "counter_request ''a'' None" new_executor 0]
  show ?thesis by simp
qed

end
