(* ===== verification/Platform.thy ===== *)
theory Platform
  imports Tools
begin

text \<open>
  \<open>tools/platform.py\<close>: the parameter models of the platform tools, the tools bound to the ad-network
  adapters, and their catalogue. The adapters of \<open>infra/ads\<close> speak HTTP to the networks: they are an
  argument, a record of the operations of the \<open>AdsPlatformClient\<close> protocol, each mapping the world to
  its result and the world it left.

  A parameter model is the list of its fields with the check of each; validation reports the errors of
  all fields and refuses unknown keys, as \<open>extra="forbid"\<close> does. A value of another type than the
  field declares is refused; pydantic's lax conversions (a numeric string for a float) are not modelled.
\<close>

type_synonym field_check = "json option \<Rightarrow> (string, json) res"

definition REASON_MAX :: nat where "REASON_MAX = 200"
definition EXTERNAL_ID_MAX :: nat where "EXTERNAL_ID_MAX = 120"

definition platform_field :: field_check where
  "platform_field v = (case v of
      None \<Rightarrow> Inl ''Field required''
    | Some (JStr s) \<Rightarrow> (case platform_of s of None \<Rightarrow> Inl ''Input should be a platform'' | Some p \<Rightarrow> Inr (JStr s))
    | Some _ \<Rightarrow> Inl ''Input should be a platform'')"

definition str_field :: "nat \<Rightarrow> nat \<Rightarrow> field_check" where
  "str_field lo hi v = (case v of
      None \<Rightarrow> Inl ''Field required''
    | Some (JStr s) \<Rightarrow> if length s < lo then Inl ''String should have at least 1 character''
                      else if hi < length s then Inl ''String is too long'' else Inr (JStr s)
    | Some _ \<Rightarrow> Inl ''Input should be a valid string'')"

definition default_str_field :: "string \<Rightarrow> nat \<Rightarrow> field_check" where
  "default_str_field d hi v = (case v of None \<Rightarrow> Inr (JStr d) | Some _ \<Rightarrow> str_field 0 hi v)"

text \<open>\<open>^\d{4}-\d{2}-\d{2}$\<close>.\<close>

definition is_date :: "string \<Rightarrow> bool" where
  "is_date s = (length s = 10 \<and> s ! 4 = CHR ''-'' \<and> s ! 7 = CHR ''-''
     \<and> list_all (\<lambda>i. is_digit (s ! i)) [0, 1, 2, 3, 5, 6, 8, 9])"

definition date_field :: field_check where
  "date_field v = (case v of
      None \<Rightarrow> Inl ''Field required''
    | Some (JStr s) \<Rightarrow> if is_date s then Inr (JStr s) else Inl ''String should match pattern''
    | Some _ \<Rightarrow> Inl ''Input should be a valid string'')"

definition budget_field :: field_check where
  "budget_field v = (case v of
      None \<Rightarrow> Inl ''Field required''
    | Some (JFloat f) \<Rightarrow> if \<not> float_gt f 0 then Inl ''Input should be greater than 0''
                        else if \<not> float_le f 10000000 then Inl ''Input should be less than or equal to 10000000''
                        else Inr (JFloat f)
    | Some (JInt i) \<Rightarrow> if i \<le> 0 then Inl ''Input should be greater than 0''
                      else if 10000000 < i then Inl ''Input should be less than or equal to 10000000''
                      else Inr (JFloat (Fin (of_int i)))
    | Some _ \<Rightarrow> Inl ''Input should be a valid number'')"

type_synonym arg_model = "(string \<times> field_check) list"

definition field_error :: "string \<Rightarrow> string \<Rightarrow> string \<times> string" where
  "field_error name msg = (''('' @ name @ '',)'', msg)"

definition validate_args :: "arg_model \<Rightarrow> json_dict \<Rightarrow> ((string \<times> string) list, json_dict) res" where
  "validate_args m d =
     (let results = map (\<lambda>(name, check). (name, check (map_of d name))) m;
          errs = concat (map (\<lambda>(name, r). case r of Inl e \<Rightarrow> [field_error name e] | Inr v \<Rightarrow> []) results)
                 @ map (\<lambda>(k, v). field_error k ''Extra inputs are not permitted'')
                       (filter (\<lambda>(k, v). k \<notin> fst ` set m) d)
      in if errs \<noteq> [] then Inl errs
         else Inr (concat (map (\<lambda>(name, r). case r of Inl e \<Rightarrow> [] | Inr v \<Rightarrow> [(name, v)]) results)))"

definition CampaignReportArgs :: arg_model where
  "CampaignReportArgs = [(''platform'', platform_field), (''campaign_external_id'', str_field 1 EXTERNAL_ID_MAX),
     (''start_date'', date_field), (''end_date'', date_field)]"

definition SetDailyBudgetArgs :: arg_model where
  "SetDailyBudgetArgs = [(''platform'', platform_field), (''campaign_external_id'', str_field 1 EXTERNAL_ID_MAX),
     (''daily_budget'', budget_field), (''reason'', str_field 1 REASON_MAX)]"

definition CampaignStatusArgs :: arg_model where
  "CampaignStatusArgs = [(''platform'', platform_field), (''campaign_external_id'', str_field 1 EXTERNAL_ID_MAX),
     (''reason'', str_field 1 REASON_MAX)]"

definition CreativeStatusArgs :: arg_model where
  "CreativeStatusArgs = [(''platform'', platform_field), (''creative_external_id'', str_field 1 EXTERNAL_ID_MAX),
     (''reason'', str_field 1 REASON_MAX)]"

definition CreateCreativeArgs :: arg_model where
  "CreateCreativeArgs = [(''platform'', platform_field), (''campaign_external_id'', str_field 1 EXTERNAL_ID_MAX),
     (''headline'', str_field 1 120), (''description'', str_field 1 500),
     (''cta_text'', default_str_field ''Learn More'' 40), (''creative_type'', default_str_field ''text'' 30)]"

subsection \<open>The adapters and the handlers\<close>

record execution_result =
  xr_success :: bool
  xr_platform :: platform
  xr_operation :: string
  xr_external_reference :: "string option"
  xr_detail :: json_dict
  xr_error :: "string option"
  xr_executed_at :: string
  xr_dry_run :: bool

record creative_draft =
  dr_headline :: string
  dr_description :: string
  dr_cta_text :: string
  dr_creative_type :: string
  dr_asset_urls :: "(string, string) dict"

type_synonym 'w network_call = "'w \<Rightarrow> (py_error, execution_result) res \<times> 'w"

record 'w ads_clients =
  ac_serves :: "platform \<Rightarrow> platform"
  ac_configured :: "platform \<Rightarrow> bool"
  ac_update_budget :: "platform \<Rightarrow> string \<Rightarrow> real \<Rightarrow> 'w network_call"
  ac_pause_campaign :: "platform \<Rightarrow> string \<Rightarrow> string \<Rightarrow> 'w network_call"
  ac_resume_campaign :: "platform \<Rightarrow> string \<Rightarrow> string \<Rightarrow> 'w network_call"
  ac_pause_creative :: "platform \<Rightarrow> string \<Rightarrow> string \<Rightarrow> 'w network_call"
  ac_resume_creative :: "platform \<Rightarrow> string \<Rightarrow> string \<Rightarrow> 'w network_call"
  ac_create_creative :: "platform \<Rightarrow> string \<Rightarrow> creative_draft \<Rightarrow> 'w network_call"
  ac_fetch_report :: "platform \<Rightarrow> string \<Rightarrow> string \<Rightarrow> string \<Rightarrow> 'w \<Rightarrow> (py_error, json_dict) res \<times> 'w"

definition execution_to_dict :: "execution_result \<Rightarrow> json_dict" where
  "execution_to_dict r =
     [(''success'', JBool (xr_success r)), (''platform'', JStr (platform_value (xr_platform r))),
      (''operation'', JStr (xr_operation r)), (''external_reference'', opt_json (xr_external_reference r)),
      (''detail'', JDict (xr_detail r)), (''error'', opt_json (xr_error r)),
      (''executed_at'', JStr (xr_executed_at r)), (''dry_run'', JBool (xr_dry_run r))]"

definition caller_of :: "tool_request \<Rightarrow> string" where
  "caller_of req = (case rq_agent req of Some a \<Rightarrow> agent_name_value a | None \<Rightarrow> rq_actor req)"

definition execution_payload :: "execution_result \<Rightarrow> tool_request \<Rightarrow> json_dict" where
  "execution_payload r req = AList.update ''requested_by'' (JStr (caller_of req)) (execution_to_dict r)"

definition arg_platform :: "json_dict \<Rightarrow> platform" where
  "arg_platform d = (case platform_of (json_str d ''platform'') of Some p \<Rightarrow> p | None \<Rightarrow> PLATFORM_MOCK)"

definition arg_budget :: "json_dict \<Rightarrow> real" where
  "arg_budget d = (case map_of d ''daily_budget'' of Some (JFloat (Fin r)) \<Rightarrow> r | _ \<Rightarrow> 0)"

definition mutation_handler :: "(json_dict \<Rightarrow> 'w network_call) \<Rightarrow> 'w handler" where
  "mutation_handler op args req w =
     (case op args w of
        (Inl e, w') \<Rightarrow> (Inl e, w')
      | (Inr r, w') \<Rightarrow> (Inr (execution_payload r req), w'))"

definition campaign_report :: "'w ads_clients \<Rightarrow> 'w handler" where
  "campaign_report ac args req w =
     (let p = arg_platform args
      in case ac_fetch_report ac p (json_str args ''campaign_external_id'') (json_str args ''start_date'')
                (json_str args ''end_date'') w of
           (Inl e, w') \<Rightarrow> (Inl e, w')
         | (Inr report, w') \<Rightarrow>
             (Inr (AList.update ''requested_by'' (JStr (caller_of req))
                (AList.update ''configured'' (JBool (ac_configured ac p))
                  (AList.update ''served_by'' (JStr (platform_value (ac_serves ac p))) report))), w'))"

definition set_daily_budget :: "'w ads_clients \<Rightarrow> 'w handler" where
  "set_daily_budget ac = mutation_handler (\<lambda>args.
     ac_update_budget ac (arg_platform args) (json_str args ''campaign_external_id'') (py_round 2 (arg_budget args)))"

definition pause_campaign :: "'w ads_clients \<Rightarrow> 'w handler" where
  "pause_campaign ac = mutation_handler (\<lambda>args.
     ac_pause_campaign ac (arg_platform args) (json_str args ''campaign_external_id'') (json_str args ''reason''))"

definition resume_campaign :: "'w ads_clients \<Rightarrow> 'w handler" where
  "resume_campaign ac = mutation_handler (\<lambda>args.
     ac_resume_campaign ac (arg_platform args) (json_str args ''campaign_external_id'') (json_str args ''reason''))"

definition pause_creative :: "'w ads_clients \<Rightarrow> 'w handler" where
  "pause_creative ac = mutation_handler (\<lambda>args.
     ac_pause_creative ac (arg_platform args) (json_str args ''creative_external_id'') (json_str args ''reason''))"

definition resume_creative :: "'w ads_clients \<Rightarrow> 'w handler" where
  "resume_creative ac = mutation_handler (\<lambda>args.
     ac_resume_creative ac (arg_platform args) (json_str args ''creative_external_id'') (json_str args ''reason''))"

definition create_creative :: "'w ads_clients \<Rightarrow> 'w handler" where
  "create_creative ac = mutation_handler (\<lambda>args.
     ac_create_creative ac (arg_platform args) (json_str args ''campaign_external_id'')
       \<lparr>dr_headline = json_str args ''headline'', dr_description = json_str args ''description'',
        dr_cta_text = json_str args ''cta_text'', dr_creative_type = json_str args ''creative_type'', dr_asset_urls = []\<rparr>)"

subsection \<open>The catalogue\<close>

definition platform_tool ::
  "string \<Rightarrow> string \<Rightarrow> arg_model \<Rightarrow> 'w handler \<Rightarrow> bool \<Rightarrow> agent_name list \<Rightarrow> 'w tool_spec" where
  "platform_tool n desc m h ro agents =
     \<lparr>sp_name = n, sp_description = desc, sp_validate = validate_args m, sp_handler = h,
      sp_read_only = ro, sp_agents = agents, sp_touches_platform = True\<rparr>"

definition build_platform_tools :: "'w ads_clients \<Rightarrow> 'w tool_spec list" where
  "build_platform_tools ac =
     [platform_tool ''platform.campaign_report''
        (''Fetch a delivery report for one campaign from its ad network. Read-only and safe to call ''
         @ ''every iteration.'') CampaignReportArgs (campaign_report ac) True [],
      platform_tool ''platform.set_daily_budget''
        (''Set a campaign's daily budget on the ad network. Changes real spend, so an agent calling it ''
         @ ''receives a dry-run preflight.'') SetDailyBudgetArgs (set_daily_budget ac) False [AGENT_OPTIMIZE],
      platform_tool ''platform.pause_campaign'' ''Stop a campaign from delivering. Changes real spend.''
        CampaignStatusArgs (pause_campaign ac) False [AGENT_OPTIMIZE],
      platform_tool ''platform.resume_campaign'' ''Resume a paused campaign. Changes real spend.''
        CampaignStatusArgs (resume_campaign ac) False [AGENT_OPTIMIZE],
      platform_tool ''platform.pause_creative'' ''Stop one creative from serving.''
        CreativeStatusArgs (pause_creative ac) False [AGENT_CREATIVE, AGENT_OPTIMIZE],
      platform_tool ''platform.resume_creative'' ''Put a paused creative back into rotation.''
        CreativeStatusArgs (resume_creative ac) False [AGENT_CREATIVE, AGENT_OPTIMIZE],
      platform_tool ''platform.create_creative'' ''Publish a new creative under an existing campaign.''
        CreateCreativeArgs (create_creative ac) False [AGENT_CREATIVE]]"

definition platform_registry :: "'w ads_clients \<Rightarrow> (py_error, 'w registry) res" where
  "platform_registry ac = register_all [] (build_platform_tools ac)"

lemma platform_tool_sel [simp]:
  "sp_name (platform_tool n desc m h ro agents) = n" "sp_read_only (platform_tool n desc m h ro agents) = ro"
  "sp_agents (platform_tool n desc m h ro agents) = agents"
  "sp_validate (platform_tool n desc m h ro agents) = validate_args m"
  "sp_handler (platform_tool n desc m h ro agents) = h"
  by (simp_all add: platform_tool_def)

lemma platform_registry_eq:
  "platform_registry ac = Inr (map (\<lambda>t. (sp_name t, t)) (build_platform_tools ac))"
  by (simp add: platform_registry_def build_platform_tools_def register_def)

lemma registered_write_tool:
  assumes "platform_registry ac = Inr reg" "map_of reg tool = Some spec" "tool \<noteq> ''platform.campaign_report''"
  shows "\<not> sp_read_only spec"
proof -
  have "reg = map (\<lambda>t. (sp_name t, t)) (build_platform_tools ac)"
    using assms(1) by (simp add: platform_registry_eq)
  then have "spec \<in> set (build_platform_tools ac)" "sp_name spec = tool"
    using map_of_SomeD [OF assms(2)] by auto
  moreover have "list_all (\<lambda>t. sp_read_only t \<longrightarrow> sp_name t = ''platform.campaign_report'') (build_platform_tools ac)"
    by (simp add: build_platform_tools_def)
  ultimately show ?thesis using assms(3) by (auto simp: list_all_iff)
qed

lemma validate_args_field:
  assumes "validate_args m d = Inr args" "map_of m name = Some check" "distinct (map fst m)"
  shows "\<exists>v. check (map_of d name) = Inr v \<and> map_of args name = Some v"
proof -
  have ok: "\<forall>p\<in>set m. \<exists>v. snd p (map_of d (fst p)) = Inr v"
  proof
    fix p assume p: "p \<in> set m"
    have "\<forall>q\<in>set m. (case q of (n, c) \<Rightarrow> case c (map_of d n) of Inl e \<Rightarrow> [field_error n e] | Inr v \<Rightarrow> []) = []"
      using assms(1) by (auto simp: validate_args_def Let_def split: if_splits)
    with p show "\<exists>v. snd p (map_of d (fst p)) = Inr v"
      by (cases "snd p (map_of d (fst p))") (auto simp: split_beta)
  qed
  have args: "args = concat (map (\<lambda>(n, r). case r of Inl e \<Rightarrow> [] | Inr v \<Rightarrow> [(n, v)])
      (map (\<lambda>(n, c). (n, c (map_of d n))) m))"
    using assms(1) by (auto simp: validate_args_def Let_def split: if_splits)
  have "map_of args n = (case map_of m n of None \<Rightarrow> None | Some c \<Rightarrow> Some (projr (c (map_of d n))))" for n
    unfolding args using ok by (induction m) force+
  moreover have "\<exists>v. check (map_of d name) = Inr v" using ok assms(2) by (force dest: map_of_SomeD)
  ultimately show ?thesis using assms(2) by auto
qed

lemma budget_field_bounds:
  "budget_field v = Inr x \<Longrightarrow> \<exists>r. x = JFloat (Fin r) \<and> 0 < r \<and> r \<le> 10000000"
proof (cases v)
  case (Some j)
  assume b: "budget_field v = Inr x"
  show ?thesis
  proof (cases j)
    case (JFloat f)
    then show ?thesis using b Some by (cases f) (auto simp: budget_field_def split: if_splits)
  next
    case (JInt i)
    then show ?thesis using b Some by (auto simp: budget_field_def split: if_splits)
  qed (use b Some in \<open>simp_all add: budget_field_def\<close>)
qed (simp add: budget_field_def)

subsection \<open>Properties\<close>

text \<open>
  The catalogue gives each agent the least it needs: registration succeeds, the monitor, audience,
  bidding and critic agents see only the read-only report, the optimizer sees every spend-changing
  tool but cannot publish creatives, and only the creative agent can.
\<close>

theorem platform_catalogue_least_privilege:
  "\<exists>reg. platform_registry ac = Inr reg
    \<and> map (\<lambda>a. map sp_name (for_agent reg a)) [AGENT_MONITOR, AGENT_AUDIENCE, AGENT_BIDDING, AGENT_CRITIC]
        = replicate 4 [''platform.campaign_report'']
    \<and> map sp_name (for_agent reg AGENT_OPTIMIZE) = [''platform.campaign_report'', ''platform.pause_campaign'',
        ''platform.pause_creative'', ''platform.resume_campaign'', ''platform.resume_creative'',
        ''platform.set_daily_budget'']
    \<and> map sp_name (for_agent reg AGENT_CREATIVE) = [''platform.campaign_report'', ''platform.create_creative'',
        ''platform.pause_creative'', ''platform.resume_creative'']"
  by (simp add: platform_registry_def build_platform_tools_def register_def for_agent_def all_tools_def
      tool_names_def allows_def insort_key_def numeral_eq_Suc)

text \<open>
  A budget that reaches a network is a positive, finite amount of at most ten million: whatever
  arguments a caller builds, infinities, NaN and missing or extra fields included, once they validate
  the handler passes the adapter the rounded budget, and it lies between 0 and 10,000,000.
\<close>

theorem set_daily_budget_validated:
  assumes "validate_args SetDailyBudgetArgs d = Inr args"
  shows "\<exists>r. map_of args ''daily_budget'' = Some (JFloat (Fin r)) \<and> 0 < r \<and> r \<le> 10000000
    \<and> 0 \<le> py_round 2 r \<and> py_round 2 r \<le> 10000000
    \<and> snd (set_daily_budget ac args req w)
        = snd (ac_update_budget ac (arg_platform args) (json_str args ''campaign_external_id'') (py_round 2 r) w)"
proof -
  have "map_of SetDailyBudgetArgs ''daily_budget'' = Some budget_field" "distinct (map fst SetDailyBudgetArgs)"
    by (simp_all add: SetDailyBudgetArgs_def)
  then obtain x where "budget_field (map_of d ''daily_budget'') = Inr x" "map_of args ''daily_budget'' = Some x"
    using validate_args_field [OF assms] by blast
  then obtain r where r: "map_of args ''daily_budget'' = Some (JFloat (Fin r))" "0 < r" "r \<le> 10000000"
    using budget_field_bounds by blast
  then show ?thesis
    by (auto simp: set_daily_budget_def mutation_handler_def arg_budget_def py_round_nonneg py_round_le_numeral
        split: sum.split prod.split)
qed

text \<open>A recorded ad network, for the concrete examples: the world is the list of budgets it was sent.\<close>

definition recording_clients :: "real list ads_clients" where
  "recording_clients =
     (let done = (\<lambda>p ext v w. (Inr \<lparr>xr_success = True, xr_platform = p, xr_operation = ''update'',
            xr_external_reference = Some ext, xr_detail = [], xr_error = None, xr_executed_at = [],
            xr_dry_run = False\<rparr>, w @ v))
      in \<lparr>ac_serves = (\<lambda>p. p), ac_configured = (\<lambda>p. True),
          ac_update_budget = (\<lambda>p ext b w. done p ext [b] w),
          ac_pause_campaign = (\<lambda>p ext r w. done p ext [] w), ac_resume_campaign = (\<lambda>p ext r w. done p ext [] w),
          ac_pause_creative = (\<lambda>p ext r w. done p ext [] w), ac_resume_creative = (\<lambda>p ext r w. done p ext [] w),
          ac_create_creative = (\<lambda>p ext dr w. done p ext [] w),
          ac_fetch_report = (\<lambda>p ext a b w. (Inr [], w))\<rparr>)"

definition budget_args :: "pyfloat \<Rightarrow> json_dict" where
  "budget_args b = [(''platform'', JStr ''meta''), (''campaign_external_id'', JStr ''x1''),
     (''reason'', JStr ''r''), (''daily_budget'', JFloat b)]"

theorem set_daily_budget_validated_witness:
  "snd (set_daily_budget recording_clients [(''platform'', JStr ''meta''), (''campaign_external_id'', JStr ''x1''),
      (''daily_budget'', JFloat (Fin 12)), (''reason'', JStr ''r'')] (counter_request ''a'' None) []) = [12]"
proof -
  have "validate_args SetDailyBudgetArgs (budget_args (Fin 12)) = Inr
      [(''platform'', JStr ''meta''), (''campaign_external_id'', JStr ''x1''),
       (''daily_budget'', JFloat (Fin 12)), (''reason'', JStr ''r'')]"
    by (simp add: validate_args_def SetDailyBudgetArgs_def budget_args_def platform_field_def str_field_def
        budget_field_def EXTERNAL_ID_MAX_def REASON_MAX_def platform_of_def find_member_def platform_members_def)
  from set_daily_budget_validated [OF this, of recording_clients "counter_request ''a'' None" "[]"]
  show ?thesis by (simp add: recording_clients_def Let_def)
qed

end
