(* ===== verification/AgentState.thy ===== *)
theory AgentState
  imports Anomaly Budget Critic
begin

text \<open>
  \<open>orchestrator/state.py\<close>: the channels of the shared state, the reducers that merge an agent's
  update into them, the initial state, and the views every consumer of the final state goes through.

  A channel the code leaves untyped (\<open>health\<close>, \<open>usage\<close>, \<open>audience_insights\<close>) holds JSON values. An
  agent's partial update is a list of channel updates, in the order of the update dictionary; an
  absent channel keeps its value, as in \<open>_apply_update\<close>.
\<close>

definition replace_list :: "'a list option \<Rightarrow> 'a list option \<Rightarrow> 'a list" where
  "replace_list existing incoming =
     (case incoming of Some xs \<Rightarrow> xs | None \<Rightarrow> (case existing of Some ys \<Rightarrow> ys | None \<Rightarrow> []))"

definition append_list :: "'a list option \<Rightarrow> 'a list option \<Rightarrow> 'a list" where
  "append_list existing incoming =
     (let ys = (case existing of Some ys \<Rightarrow> ys | None \<Rightarrow> [])
      in case incoming of None \<Rightarrow> ys | Some xs \<Rightarrow> ys @ xs)"

definition dict_update :: "('k, 'v) dict \<Rightarrow> ('k, 'v) dict \<Rightarrow> ('k, 'v) dict" where
  "dict_update d e = fold (\<lambda>(k, v). AList.update k v) e d"

definition merge_mapping :: "('k, 'v) dict option \<Rightarrow> ('k, 'v) dict option \<Rightarrow> ('k, 'v) dict" where
  "merge_mapping existing incoming =
     (let merged = (case existing of Some d \<Rightarrow> d | None \<Rightarrow> [])
      in case incoming of None \<Rightarrow> merged | Some e \<Rightarrow> if e = [] then merged else dict_update merged e)"

definition max_int :: "int option \<Rightarrow> int option \<Rightarrow> int" where
  "max_int existing incoming =
     max (case existing of Some i \<Rightarrow> i | None \<Rightarrow> 0) (case incoming of Some i \<Rightarrow> i | None \<Rightarrow> 0)"

subsection \<open>The channels\<close>

datatype metric = MSnapshot snapshot | MDict "(string, pyval) dict"

record decision =
  dc_campaign_id :: string
  dc_campaign_name :: string
  dc_bid_cpm :: real
  dc_max_cpc :: real
  dc_ecpm :: real
  dc_predicted_ctr :: real
  dc_predicted_cvr :: real
  dc_multiplier :: real
  dc_confidence :: real
  dc_reasoning :: string
  dc_iteration :: int
  dc_observed_roas :: real
  dc_target_roas :: real

record creative_variant =
  cv_headline :: string
  cv_description :: string
  cv_cta_text :: string
  cv_target_emotion :: string
  cv_ab_group :: string
  cv_rationale :: string
  cv_source :: string

record generated_creative =
  gc_variant :: creative_variant
  gc_campaign_id :: string
  gc_campaign_name :: string
  gc_iteration :: int

record platform_check =
  ck_campaign_id :: string
  ck_platform :: string
  ck_external_id :: string
  ck_rule :: string
  ck_severity :: string
  ck_tool :: string
  ck_outcome :: string
  ck_served_by :: string
  ck_live_rows :: nat
  ck_window :: string
  ck_duration_ms :: real
  ck_error :: "string option"

record preflight_record =
  pf_action_id :: string
  pf_action_type :: string
  pf_campaign_id :: string
  pf_target_id :: string
  pf_tool :: string
  pf_iteration :: int
  pf_outcome :: string
  pf_dry_run :: bool
  pf_refused :: bool
  pf_blocking :: bool
  pf_duration_ms :: real
  pf_error :: "string option"

record agent_state =
  st_run_id :: string
  st_campaign_ids :: "string list"
  st_window_days :: int
  st_max_iterations :: int
  st_metrics :: "metric list"
  st_daily_budgets :: "(string, real) dict"
  st_audience_observations :: "json list"
  st_audience_insights :: json_dict
  st_health :: json_dict
  st_new_creatives :: "generated_creative list"
  st_bidding_decisions :: "decision list"
  st_budget_allocations :: "(allocation \<times> int) list"
  st_optimization_actions :: "proposal list"
  st_critic_findings :: "finding list"
  st_alerts :: "alert_dict list"
  st_platform_checks :: "platform_check list"
  st_tool_preflights :: "preflight_record list"
  st_agent_messages :: "message list"
  st_current_agent :: string
  st_iteration :: int
  st_is_complete :: bool
  st_usage :: json_dict

datatype channel_update =
    UMetrics "metric list"
  | UAudienceInsights json_dict
  | UHealth json_dict
  | UNewCreatives "generated_creative list"
  | UBiddingDecisions "decision list"
  | UBudgetAllocations "(allocation \<times> int) list"
  | UOptimizationActions "proposal list"
  | UCriticFindings "finding list"
  | UAlerts "alert_dict list"
  | UPlatformChecks "platform_check list"
  | UToolPreflights "preflight_record list"
  | UAgentMessages "message list"
  | UCurrentAgent string
  | UIteration int
  | UIsComplete bool

text \<open>One entry of the update dictionary, merged with the reducer the channel is annotated with.\<close>

primrec apply_channel :: "channel_update \<Rightarrow> agent_state \<Rightarrow> agent_state" where
  "apply_channel (UMetrics xs) s = s\<lparr>st_metrics := replace_list (Some (st_metrics s)) (Some xs)\<rparr>"
| "apply_channel (UAudienceInsights d) s =
     s\<lparr>st_audience_insights := merge_mapping (Some (st_audience_insights s)) (Some d)\<rparr>"
| "apply_channel (UHealth d) s = s\<lparr>st_health := merge_mapping (Some (st_health s)) (Some d)\<rparr>"
| "apply_channel (UNewCreatives xs) s = s\<lparr>st_new_creatives := append_list (Some (st_new_creatives s)) (Some xs)\<rparr>"
| "apply_channel (UBiddingDecisions xs) s =
     s\<lparr>st_bidding_decisions := replace_list (Some (st_bidding_decisions s)) (Some xs)\<rparr>"
| "apply_channel (UBudgetAllocations xs) s =
     s\<lparr>st_budget_allocations := replace_list (Some (st_budget_allocations s)) (Some xs)\<rparr>"
| "apply_channel (UOptimizationActions xs) s =
     s\<lparr>st_optimization_actions := append_list (Some (st_optimization_actions s)) (Some xs)\<rparr>"
| "apply_channel (UCriticFindings xs) s =
     s\<lparr>st_critic_findings := append_list (Some (st_critic_findings s)) (Some xs)\<rparr>"
| "apply_channel (UAlerts xs) s = s\<lparr>st_alerts := replace_list (Some (st_alerts s)) (Some xs)\<rparr>"
| "apply_channel (UPlatformChecks xs) s =
     s\<lparr>st_platform_checks := replace_list (Some (st_platform_checks s)) (Some xs)\<rparr>"
| "apply_channel (UToolPreflights xs) s =
     s\<lparr>st_tool_preflights := append_list (Some (st_tool_preflights s)) (Some xs)\<rparr>"
| "apply_channel (UAgentMessages xs) s =
     s\<lparr>st_agent_messages := append_list (Some (st_agent_messages s)) (Some xs)\<rparr>"
| "apply_channel (UCurrentAgent a) s = s\<lparr>st_current_agent := a\<rparr>"
| "apply_channel (UIteration i) s = s\<lparr>st_iteration := max_int (Some (st_iteration s)) (Some i)\<rparr>"
| "apply_channel (UIsComplete b) s = s\<lparr>st_is_complete := b\<rparr>"

definition apply_update :: "channel_update list \<Rightarrow> agent_state \<Rightarrow> agent_state" where
  "apply_update us s = fold apply_channel us s"

definition initial_state :: "string \<Rightarrow> string list \<Rightarrow> int \<Rightarrow> int \<Rightarrow> agent_state" where
  "initial_state run ids max_iterations window_days =
     \<lparr>st_run_id = run, st_campaign_ids = ids, st_window_days = window_days,
      st_max_iterations = max_iterations, st_metrics = [], st_daily_budgets = [],
      st_audience_observations = [], st_audience_insights = [], st_health = [], st_new_creatives = [],
      st_bidding_decisions = [], st_budget_allocations = [], st_optimization_actions = [],
      st_critic_findings = [], st_alerts = [], st_platform_checks = [], st_tool_preflights = [],
      st_agent_messages = [], st_current_agent = [], st_iteration = 0, st_is_complete = False,
      st_usage = [(''prompt_tokens'', JInt 0), (''completion_tokens'', JInt 0), (''cost_usd'', JFloat (Fin 0))]\<rparr>"

definition suppressed_ids :: "agent_state \<Rightarrow> string set" where
  "suppressed_ids s = set (concat (map suppressed_action_ids (st_critic_findings s)))"

definition surviving_actions :: "agent_state \<Rightarrow> proposal list" where
  "surviving_actions s =
     (let dropped = suppressed_ids s
      in if dropped = {} then st_optimization_actions s
         else filter (\<lambda>a. pr_id a \<notin> dropped) (st_optimization_actions s))"

record run_summary =
  sm_status :: run_status
  sm_iterations :: int
  sm_campaigns :: nat
  sm_creatives_generated :: nat
  sm_bidding_decisions :: nat
  sm_budget_adjustments :: nat
  sm_actions :: nat
  sm_actions_proposed :: nat
  sm_actions_suppressed :: int
  sm_critic_findings :: nat
  sm_critic_findings_by_kind :: "(string, nat) dict"
  sm_platform_checks :: nat
  sm_tool_preflights :: nat
  sm_preflights_blocked :: nat
  sm_action_counts :: "(string, nat) dict"
  sm_alerts_raised :: nat
  sm_health :: json_dict
  sm_usage :: json_dict
  sm_messages :: "message list"

definition count_by :: "('a \<Rightarrow> string) \<Rightarrow> 'a list \<Rightarrow> (string, nat) dict" where
  "count_by f xs = fold (\<lambda>x. dict_add (f x) 1) xs []"

definition summarise_state :: "agent_state \<Rightarrow> run_status \<Rightarrow> run_summary" where
  "summarise_state s status =
     (let proposed = st_optimization_actions s; actions = surviving_actions s
      in \<lparr>sm_status = status, sm_iterations = st_iteration s, sm_campaigns = length (st_metrics s),
          sm_creatives_generated = length (st_new_creatives s),
          sm_bidding_decisions = length (st_bidding_decisions s),
          sm_budget_adjustments = length (st_budget_allocations s),
          sm_actions = length actions, sm_actions_proposed = length proposed,
          sm_actions_suppressed = int (length proposed) - int (length actions),
          sm_critic_findings = length (st_critic_findings s),
          sm_critic_findings_by_kind = count_by fd_kind (st_critic_findings s),
          sm_platform_checks = length (st_platform_checks s),
          sm_tool_preflights = length (st_tool_preflights s),
          sm_preflights_blocked = length (filter pf_blocking (st_tool_preflights s)),
          sm_action_counts = count_by pr_action_type actions,
          sm_alerts_raised = length (st_alerts s), sm_health = st_health s, sm_usage = st_usage s,
          sm_messages = st_agent_messages s\<rparr>)"

subsection \<open>The contract of a reducer\<close>

text \<open>
  Every reducer keeps the channel when an update does not mention it. An idempotent one absorbs the
  replay of the same update: the accumulating channels are exactly those whose reducer is not.
\<close>

locale reducer =
  fixes reduce :: "'a option \<Rightarrow> 'b option \<Rightarrow> 'a" and valid :: "'a \<Rightarrow> bool"
  assumes missing_update: "valid a \<Longrightarrow> reduce (Some a) None = a"
begin

lemma missing_updates: "valid a \<Longrightarrow> ((\<lambda>c. reduce (Some c) None) ^^ n) a = a"
  by (induction n) (simp_all add: missing_update)

end

locale idempotent_reducer = reducer reduce valid
  for reduce :: "'a option \<Rightarrow> 'b option \<Rightarrow> 'a" and valid :: "'a \<Rightarrow> bool" +
  fixes wf :: "'b \<Rightarrow> bool"
  assumes absorbs: "wf b \<Longrightarrow> reduce (Some (reduce (Some a) (Some b))) (Some b) = reduce (Some a) (Some b)"
begin

lemma replay_any: "wf b \<Longrightarrow> ((\<lambda>c. reduce (Some c) (Some b)) ^^ Suc n) a = reduce (Some a) (Some b)"
  by (induction n) (simp_all add: absorbs)

end

lemma dict_update_Nil [simp]: "dict_update d [] = d"
  by (simp add: dict_update_def)

lemma dict_update_Cons [simp]: "dict_update d ((k, v) # e) = dict_update (AList.update k v d) e"
  by (simp add: dict_update_def)

lemma update_same: "map_of d k = Some v \<Longrightarrow> AList.update k v d = d"
  by (induction d) auto

lemma map_of_dict_update:
  "distinct (map fst e) \<Longrightarrow> map_of (dict_update d e) k = (case map_of e k of Some v \<Rightarrow> Some v | None \<Rightarrow> map_of d k)"
proof (induction e arbitrary: d)
  case (Cons p e)
  obtain a b where p: "p = (a, b)" by (cases p)
  have "map_of e a = None" using Cons.prems p by (simp add: map_of_eq_None_iff)
  then show ?case using Cons p by (auto simp: update_conv' split: option.split)
qed simp

lemma dict_update_same: "\<forall>(k, v)\<in>set e. map_of d k = Some v \<Longrightarrow> dict_update d e = d"
  by (induction e) (auto simp: update_same)

lemma dict_update_absorbs: "distinct (map fst e) \<Longrightarrow> dict_update (dict_update d e) e = dict_update d e"
  by (intro dict_update_same) (auto simp: map_of_dict_update)

interpretation replace_reducer: idempotent_reducer replace_list "\<lambda>_. True" "\<lambda>_. True"
  by unfold_locales (simp_all add: replace_list_def)

interpretation merge_reducer: idempotent_reducer merge_mapping "\<lambda>_. True" "\<lambda>e. distinct (map fst e)"
  by unfold_locales (simp_all add: merge_mapping_def dict_update_absorbs)

interpretation max_reducer: idempotent_reducer max_int "\<lambda>i. 0 \<le> i" "\<lambda>_. True"
  by unfold_locales (simp_all add: max_int_def)

interpretation append_reducer: reducer append_list "\<lambda>_. True"
  by unfold_locales (simp add: append_list_def)

subsection \<open>Properties\<close>

definition accumulating :: "channel_update \<Rightarrow> bool" where
  "accumulating u = (case u of UNewCreatives _ \<Rightarrow> True | UOptimizationActions _ \<Rightarrow> True
     | UCriticFindings _ \<Rightarrow> True | UToolPreflights _ \<Rightarrow> True | UAgentMessages _ \<Rightarrow> True | _ \<Rightarrow> False)"

definition well_keyed :: "channel_update \<Rightarrow> bool" where
  "well_keyed u = (case u of UAudienceInsights d \<Rightarrow> distinct (map fst d) | UHealth d \<Rightarrow> distinct (map fst d) | _ \<Rightarrow> True)"

text \<open>
  Replaying a channel update is harmless outside the accumulating channels: merging the same
  update a second time changes nothing when the channel's reducer is last-value, merging or maximum,
  an iteration counter never goes back, and the five accumulating channels keep everything they held
  as a prefix.
\<close>

theorem channel_replay:
  assumes "well_keyed u"
  shows "(\<not> accumulating u \<longrightarrow> apply_channel u (apply_channel u s) = apply_channel u s)
    \<and> st_iteration s \<le> st_iteration (apply_channel u s)
    \<and> (\<exists>as fs ms ps cs. st_optimization_actions (apply_channel u s) = st_optimization_actions s @ as
        \<and> st_critic_findings (apply_channel u s) = st_critic_findings s @ fs
        \<and> st_agent_messages (apply_channel u s) = st_agent_messages s @ ms
        \<and> st_tool_preflights (apply_channel u s) = st_tool_preflights s @ ps
        \<and> st_new_creatives (apply_channel u s) = st_new_creatives s @ cs)"
proof (intro conjI impI)
  assume "\<not> accumulating u"
  then show "apply_channel u (apply_channel u s) = apply_channel u s"
    using assms
  proof (cases u)
    case (UAudienceInsights d)
    then show ?thesis using assms merge_reducer.absorbs [of d] by (simp add: well_keyed_def)
  next
    case (UHealth d)
    then show ?thesis using assms merge_reducer.absorbs [of d] by (simp add: well_keyed_def)
  next
    case (UIteration i)
    then show ?thesis by (simp add: max_int_def)
  qed (simp_all add: accumulating_def replace_list_def)
next
  show "st_iteration s \<le> st_iteration (apply_channel u s)" by (cases u) (simp_all add: max_int_def)
  show "\<exists>as fs ms ps cs. st_optimization_actions (apply_channel u s) = st_optimization_actions s @ as
        \<and> st_critic_findings (apply_channel u s) = st_critic_findings s @ fs
        \<and> st_agent_messages (apply_channel u s) = st_agent_messages s @ ms
        \<and> st_tool_preflights (apply_channel u s) = st_tool_preflights s @ ps
        \<and> st_new_creatives (apply_channel u s) = st_new_creatives s @ cs"
    by (cases u) (auto simp: append_list_def)
qed

theorem channel_replay_witness:
  "apply_channel (UHealth [(''score'', JInt 7)]) (apply_channel (UHealth [(''score'', JInt 7)]) (initial_state ''r'' [] 3 7))
     = apply_channel (UHealth [(''score'', JInt 7)]) (initial_state ''r'' [] 3 7)"
proof -
  have "well_keyed (UHealth [(''score'', JInt 7)])" "\<not> accumulating (UHealth [(''score'', JInt 7)])"
    by (simp_all add: well_keyed_def accumulating_def)
  then show ?thesis using channel_replay [THEN conjunct1] by blast
qed

text \<open>
  No withheld proposal leaves the run: the surviving actions are exactly the proposals, in
  proposal order, whose id no critic finding of any iteration names, and the summary's counts of
  proposed, surviving and suppressed actions add up.
\<close>

theorem surviving_actions_exact:
  "surviving_actions s = filter (\<lambda>a. pr_id a \<notin> withheld (st_critic_findings s)) (st_optimization_actions s)
   \<and> int (sm_actions (summarise_state s status)) + sm_actions_suppressed (summarise_state s status)
       = int (sm_actions_proposed (summarise_state s status))
   \<and> 0 \<le> sm_actions_suppressed (summarise_state s status)"
proof -
  have ids: "suppressed_ids s = withheld (st_critic_findings s)"
    by (simp add: suppressed_ids_def withheld_def)
  have "surviving_actions s = filter (\<lambda>a. pr_id a \<notin> withheld (st_critic_findings s)) (st_optimization_actions s)"
    by (simp add: surviving_actions_def Let_def ids)
  moreover have "sm_actions (summarise_state s status) = length (surviving_actions s)"
    "sm_actions_proposed (summarise_state s status) = length (st_optimization_actions s)"
    "sm_actions_suppressed (summarise_state s status)
       = int (length (st_optimization_actions s)) - int (length (surviving_actions s))"
    by (simp_all only: summarise_state_def Let_def run_summary.select_convs)
  moreover have "length (surviving_actions s) \<le> length (st_optimization_actions s)"
    by (simp add: surviving_actions_def Let_def)
  ultimately show ?thesis by simp
qed

end
