(* ===== verification/Audience.thy ===== *)
theory Audience
  imports Statistics Json
begin

text \<open>
  \<open>domain/audience.py\<close>: scoring of audience slices against the portfolio, their ranking, and the
  expansion tiers seeded from the strongest ones. The lemmas bound the score, place every reported
  segment, and show that the index is calibrated: weighted by delivery it averages one.
\<close>

definition DEFAULT_LOOKALIKE_TIERS :: "real list" where
  "DEFAULT_LOOKALIKE_TIERS = [1, 2, 5]"

record segment_observation =
  so_key :: string
  so_dimension :: string
  so_impressions :: int
  so_clicks :: int
  so_conversions :: int
  so_cost :: real
  so_revenue :: real

record segment_insight =
  si_key :: string
  si_dimension :: string
  si_impressions :: int
  si_clicks :: int
  si_conversions :: int
  si_cost :: real
  si_revenue :: real
  si_ctr :: real
  si_cvr :: real
  si_cvr_lower_bound :: real
  si_cpa :: "real option"
  si_roas :: real
  si_delivery_share :: real
  si_conversion_share :: real
  si_index :: real
  si_score :: real
  si_recommendation :: string

record lookalike =
  la_seed_segment :: string
  la_dimension :: string
  la_expansion_pct :: real
  la_estimated_reach :: int
  la_expected_index :: real
  la_rationale :: string

record audience_analysis =
  aa_segments :: "segment_insight list"
  aa_dimension_summaries :: "(string, nat) dict"
  aa_lookalike_suggestions :: "lookalike list"
  aa_total_impressions :: int
  aa_total_conversions :: int

definition recommend :: "real \<Rightarrow> int \<Rightarrow> real \<Rightarrow> string" where
  "recommend index conversions cvr_lower =
     (if conversions = 0 then ''No conversions recorded; gather more data before scaling''
      else if index \<ge> 13/10 then ''Converts well above its delivery share; increase bid and budget''
      else if index \<ge> 105/100 then ''Slightly outperforming; a good lookalike seed''
      else if index \<ge> 8/10 then ''Performing in line with the portfolio; hold targeting''
      else if cvr_lower > 0 then ''Statistically underperforming; narrow or exclude this slice''
      else ''Underperforming but not yet significant; keep monitoring'')"

definition segment_score :: "real \<Rightarrow> real \<Rightarrow> real \<Rightarrow> real" where
  "segment_score index cvr roas =
     clamp_ok (50 * clamp_ok (safe_ratio index (15/10)) 0 1 + 30 * clamp_ok (safe_ratio cvr (1/10)) 0 1
               + 20 * clamp_ok (safe_ratio roas 3) 0 1) 0 100"

definition insight_of :: "int \<Rightarrow> int \<Rightarrow> segment_observation \<Rightarrow> segment_insight" where
  "insight_of total_impressions total_conversions o' =
     (let i = of_int (so_impressions o'); c = of_int (so_clicks o'); v = of_int (so_conversions o') :: real;
          cvr = safe_ratio v c;
          cvr_lower = w_lower (wilson_interval (so_conversions o') (so_clicks o') Z_95 0);
          roas = safe_ratio (so_revenue o') (so_cost o');
          delivery_share = safe_ratio i (of_int total_impressions);
          conversion_share = safe_ratio v (of_int total_conversions);
          index = (if delivery_share > 0 then safe_ratio conversion_share delivery_share else 0)
      in \<lparr>si_key = so_key o', si_dimension = so_dimension o', si_impressions = so_impressions o', si_clicks = so_clicks o',
          si_conversions = so_conversions o', si_cost = so_cost o', si_revenue = so_revenue o', si_ctr = safe_ratio c i,
          si_cvr = cvr, si_cvr_lower_bound = cvr_lower,
          si_cpa = (if so_conversions o' = 0 then None else Some (so_cost o' / v)), si_roas = roas,
          si_delivery_share = delivery_share, si_conversion_share = conversion_share, si_index = index,
          si_score = segment_score index cvr roas, si_recommendation = recommend index (so_conversions o') cvr_lower\<rparr>)"

definition lookalike_of :: "segment_insight \<Rightarrow> real \<Rightarrow> lookalike" where
  "lookalike_of seed tier =
     \<lparr>la_seed_segment = si_key seed, la_dimension = si_dimension seed, la_expansion_pct = tier,
      la_estimated_reach = py_trunc (of_int (si_impressions seed) * (1 + tier * 8)),
      la_expected_index = py_round 3 (si_index seed * (1 - 6/100 * tier)),
      la_rationale = ''Seed converts at '' @ fmt_fixed 2 (si_index seed) @ ''x its delivery share with ''
        @ show_int (si_conversions seed) @ '' conversions''\<rparr>"

definition suggest_lookalikes :: "segment_insight list \<Rightarrow> real list \<Rightarrow> lookalike list" where
  "suggest_lookalikes insights tiers =
     (let seeds = take 3 (filter (\<lambda>s. si_index s \<ge> 11/10 \<and> si_conversions s \<ge> 5) insights)
      in concat (map (\<lambda>seed. map (lookalike_of seed) tiers) seeds))"

definition rank_insights :: "segment_insight list \<Rightarrow> segment_insight list" where
  "rank_insights = sort_key (\<lambda>s. (- si_score s, - si_conversions s, si_key s))"

definition analyze :: "segment_observation list \<Rightarrow> nat \<Rightarrow> int \<Rightarrow> audience_analysis" where
  "analyze observations top_n min_impressions =
     (if observations = []
      then \<lparr>aa_segments = [], aa_dimension_summaries = [], aa_lookalike_suggestions = [], aa_total_impressions = 0,
            aa_total_conversions = 0\<rparr>
      else let total_impressions = sum_list (map so_impressions observations);
               total_conversions = sum_list (map so_conversions observations);
               insights = rank_insights (map (insight_of total_impressions total_conversions)
                            (filter (\<lambda>o'. \<not> so_impressions o' < min_impressions) observations))
           in \<lparr>aa_segments = take top_n insights,
               aa_dimension_summaries = fold (\<lambda>s. dict_add (si_dimension s) 1) insights [],
               aa_lookalike_suggestions = suggest_lookalikes insights DEFAULT_LOOKALIKE_TIERS,
               aa_total_impressions = total_impressions, aa_total_conversions = total_conversions\<rparr>)"

definition TOP_N :: nat where "TOP_N = 20"
definition MIN_IMPRESSIONS :: int where "MIN_IMPRESSIONS = 100"

definition top_segments :: "audience_analysis \<Rightarrow> segment_insight list" where
  "top_segments a = filter (\<lambda>s. si_score s \<ge> 60) (aa_segments a)"

subsection \<open>As dictionaries\<close>

definition jround :: "nat \<Rightarrow> real \<Rightarrow> json" where
  "jround n x = JFloat (Fin (py_round n x))"

definition insight_dict :: "segment_insight \<Rightarrow> json_dict" where
  "insight_dict s =
     [(''key'', JStr (si_key s)), (''dimension'', JStr (si_dimension s)), (''impressions'', JInt (si_impressions s)),
      (''clicks'', JInt (si_clicks s)), (''conversions'', JInt (si_conversions s)), (''cost'', jround 2 (si_cost s)),
      (''revenue'', jround 2 (si_revenue s)), (''ctr'', jround 6 (si_ctr s)), (''cvr'', jround 6 (si_cvr s)),
      (''cvr_lower_bound'', jround 6 (si_cvr_lower_bound s)),
      (''cpa'', case si_cpa s of None \<Rightarrow> JNull | Some c \<Rightarrow> jround 2 c), (''roas'', jround 4 (si_roas s)),
      (''delivery_share'', jround 4 (si_delivery_share s)), (''conversion_share'', jround 4 (si_conversion_share s)),
      (''index'', jround 3 (si_index s)), (''score'', jround 2 (si_score s)),
      (''recommendation'', JStr (si_recommendation s))]"

definition lookalike_dict :: "lookalike \<Rightarrow> json_dict" where
  "lookalike_dict l =
     [(''seed_segment'', JStr (la_seed_segment l)), (''dimension'', JStr (la_dimension l)),
      (''expansion_pct'', JFloat (Fin (la_expansion_pct l))), (''estimated_reach'', JInt (la_estimated_reach l)),
      (''expected_index'', JFloat (Fin (la_expected_index l))), (''rationale'', JStr (la_rationale l))]"

definition analysis_dict :: "audience_analysis \<Rightarrow> json_dict" where
  "analysis_dict a =
     [(''segments'', JList (map (\<lambda>s. JDict (insight_dict s)) (aa_segments a))),
      (''dimension_summaries'', JDict (map (\<lambda>(k, n). (k, JInt (int n))) (aa_dimension_summaries a))),
      (''lookalike_suggestions'', JList (map (\<lambda>l. JDict (lookalike_dict l)) (aa_lookalike_suggestions a))),
      (''total_impressions'', JInt (aa_total_impressions a)), (''total_conversions'', JInt (aa_total_conversions a))]"

subsection \<open>Lemmas\<close>

lemma set_rank [simp]: "set (rank_insights xs) = set xs"
  by (simp add: rank_insights_def)

lemma mset_rank [simp]: "mset (rank_insights xs) = mset xs"
  by (simp add: rank_insights_def)

lemma sorted_rank: "sorted_wrt (\<lambda>a b. si_score b \<le> si_score a) (rank_insights xs)"
proof -
  have "sorted_wrt (\<lambda>a b. (- si_score a, - si_conversions a, si_key a) \<le> (- si_score b, - si_conversions b, si_key b))
      (rank_insights xs)"
    using sorted_sort_key [of "\<lambda>s. (- si_score s, - si_conversions s, si_key s)" xs]
    by (simp add: rank_insights_def sorted_map)
  then show ?thesis by (rule sorted_wrt_mono_rel [rotated]) (auto simp: less_eq_prod_def)
qed

lemma segment_score_bounds: "0 \<le> segment_score i c r \<and> segment_score i c r \<le> 100"
  by (simp add: segment_score_def clamp_ok_bounds)

lemma insight_fields [simp]:
  "si_key (insight_of ti tc o') = so_key o'" "si_impressions (insight_of ti tc o') = so_impressions o'"
  "si_conversions (insight_of ti tc o') = so_conversions o'" "si_dimension (insight_of ti tc o') = so_dimension o'"
  "si_score (insight_of ti tc o') = segment_score (si_index (insight_of ti tc o')) (si_cvr (insight_of ti tc o')) (si_roas (insight_of ti tc o'))"
  by (simp_all add: insight_of_def Let_def)

lemma share_index:
  assumes "0 < so_impressions o'" "0 < ti"
  shows "si_delivery_share (insight_of ti tc o') * si_index (insight_of ti tc o')
    = safe_ratio (of_int (so_conversions o')) (of_int tc)"
proof -
  have "0 < safe_ratio (real_of_int (so_impressions o')) (real_of_int ti)" using assms by (simp add: safe_ratio_def)
  then show ?thesis by (simp add: insight_of_def Let_def) (simp add: safe_ratio_def)
qed

lemma sum_conversion_shares:
  "sum_list (map (\<lambda>o'. safe_ratio (of_int (so_conversions o')) (of_int tc)) os)
    = safe_ratio (of_int (sum_list (map so_conversions os))) (of_int tc)"
  by (induction os) (simp_all add: safe_ratio_def add_divide_distrib)

lemma sum_list_mset: "mset xs = mset ys \<Longrightarrow> sum_list (map f xs) = sum_list (map f ys)" for f :: "'a \<Rightarrow> real"
  by (metis mset_map sum_mset_sum_list)

lemma dict_add_total: "sum_list (map snd (dict_add k n d)) = sum_list (map snd d) + n"
  unfolding dict_add_def by (induction d) auto

lemma dict_add_sum:
  "sum_list (map snd (fold (\<lambda>s. dict_add (f s) 1) xs d)) = sum_list (map snd d) + length xs"
  by (induction xs arbitrary: d) (simp_all add: dict_add_total)

lemma suggest_lookalikes_sound:
  assumes "l \<in> set (suggest_lookalikes xs tiers)"
  shows "\<exists>s\<in>set xs. la_seed_segment l = si_key s \<and> 11/10 \<le> si_index s \<and> 5 \<le> si_conversions s"
proof -
  obtain s t where s: "s \<in> set (take 3 (filter (\<lambda>s. si_index s \<ge> 11/10 \<and> si_conversions s \<ge> 5) xs))" "l = lookalike_of s t"
    using assms by (auto simp: suggest_lookalikes_def Let_def)
  then show ?thesis by (auto dest!: in_set_takeD simp: lookalike_of_def)
qed

lemma suggest_lookalikes_length: "length (suggest_lookalikes xs tiers) \<le> 3 * length tiers"
proof -
  have "length (concat (map (\<lambda>s. map (lookalike_of s) tiers) ys)) = length ys * length tiers" for ys
    by (induction ys) simp_all
  then show ?thesis by (simp add: suggest_lookalikes_def Let_def)
qed

definition eligible :: "segment_observation list \<Rightarrow> int \<Rightarrow> segment_observation list" where
  "eligible os m = filter (\<lambda>o'. m \<le> so_impressions o') os"

definition insight_in :: "segment_observation list \<Rightarrow> segment_observation \<Rightarrow> segment_insight" where
  "insight_in os o' = insight_of (sum_list (map so_impressions os)) (sum_list (map so_conversions os)) o'"

lemma analyze_eq:
  "os \<noteq> [] \<Longrightarrow> aa_segments (analyze os n m) = take n (rank_insights (map (insight_in os) (eligible os m)))
    \<and> aa_dimension_summaries (analyze os n m) = fold (\<lambda>s. dict_add (si_dimension s) 1) (rank_insights (map (insight_in os) (eligible os m))) []
    \<and> aa_lookalike_suggestions (analyze os n m)
        = suggest_lookalikes (rank_insights (map (insight_in os) (eligible os m))) DEFAULT_LOOKALIKE_TIERS"
  by (simp add: analyze_def Let_def eligible_def insight_in_def [abs_def] not_less)

subsection \<open>Properties\<close>

text \<open>
  The conversion index is calibrated: when every slice was delivered and passes the volume gate, the
  portfolio recorded a conversion and no slice is cut off, the indices weighted by delivery share average
  one, so an index above one is exactly what converts better than its delivery.
\<close>

theorem audience_index_calibrated:
  assumes "\<forall>o'\<in>set os. 0 < so_impressions o' \<and> m \<le> so_impressions o'" "length os \<le> n"
    and "sum_list (map so_conversions os) \<noteq> 0"
  shows "sum_list (map (\<lambda>s. si_delivery_share s * si_index s) (aa_segments (analyze os n m))) = 1"
proof -
  let ?ti = "sum_list (map so_impressions os)" and ?tc = "sum_list (map so_conversions os)"
  have ne: "os \<noteq> []" using assms(3) by auto
  have el: "eligible os m = os" using assms(1) by (simp add: eligible_def filter_id_conv)
  have "0 < ?ti"
  proof -
    obtain o' os' where os: "os = o' # os'" using ne by (cases os) auto
    have "0 \<le> sum_list (map so_impressions os')" using assms(1) os by (intro sum_list_nonneg) auto
    then show ?thesis using assms(1) os by simp
  qed
  have "length (rank_insights xs) = length xs" for xs by (simp add: rank_insights_def)
  then have "aa_segments (analyze os n m) = rank_insights (map (insight_in os) os)"
    using analyze_eq [OF ne, of n m] el assms(2) by simp
  then have "sum_list (map (\<lambda>s. si_delivery_share s * si_index s) (aa_segments (analyze os n m)))
      = sum_list (map (\<lambda>s. si_delivery_share s * si_index s) (map (insight_in os) os))"
    using sum_list_mset [OF mset_rank] by simp
  also have "\<dots> = sum_list (map (\<lambda>o'. safe_ratio (of_int (so_conversions o')) (of_int ?tc)) os)"
    using share_index [OF _ \<open>0 < ?ti\<close>] assms(1) by (intro arg_cong [of _ _ sum_list]) (simp add: insight_in_def)
  also have "\<dots> = safe_ratio (of_int ?tc) (of_int ?tc)" by (rule sum_conversion_shares)
  also have "\<dots> = 1" using assms(3) by (simp add: safe_ratio_def)
  finally show ?thesis .
qed

definition slice :: "string \<Rightarrow> int \<Rightarrow> int \<Rightarrow> int \<Rightarrow> segment_observation" where
  "slice k i c v = \<lparr>so_key = k, so_dimension = ''age'', so_impressions = i, so_clicks = c, so_conversions = v, so_cost = 1, so_revenue = 2\<rparr>"

theorem audience_index_calibrated_witness:
  "sum_list (map (\<lambda>s. si_delivery_share s * si_index s)
     (aa_segments (analyze [slice ''18-24'' 1000 50 5, slice ''25-34'' 3000 60 1] 20 100))) = 1"
  by (rule audience_index_calibrated) (simp_all add: slice_def)

text \<open>
  The audience report is sound: it lists at most the requested number of slices, strongest first, each
  the scoring of an observed slice that passed the volume gate, with a score between 0 and 100; the
  dimension counts cover every scored slice, also those cut off; and at most nine expansions are proposed,
  each seeded from a scored slice with an index of 1.1 or more and five conversions or more.
\<close>

theorem audience_report_sound:
  "length (aa_segments (analyze os n m)) \<le> n
   \<and> sorted_wrt (\<lambda>a b. si_score b \<le> si_score a) (aa_segments (analyze os n m))
   \<and> set (aa_segments (analyze os n m)) \<subseteq> insight_in os ` set (eligible os m)
   \<and> (\<forall>s\<in>set (aa_segments (analyze os n m)). 0 \<le> si_score s \<and> si_score s \<le> 100)
   \<and> sum_list (map snd (aa_dimension_summaries (analyze os n m))) = length (eligible os m)
   \<and> length (aa_lookalike_suggestions (analyze os n m)) \<le> 9
   \<and> (\<forall>l\<in>set (aa_lookalike_suggestions (analyze os n m)). \<exists>o'\<in>set (eligible os m).
        la_seed_segment l = so_key o' \<and> 11/10 \<le> si_index (insight_in os o') \<and> 5 \<le> so_conversions o')"
proof (cases "os = []")
  case True
  then show ?thesis by (simp add: analyze_def eligible_def)
next
  case False
  let ?xs = "rank_insights (map (insight_in os) (eligible os m))"
  note a = analyze_eq [OF False, of n m]
  have len: "length ?xs = length (eligible os m)" by (simp add: rank_insights_def)
  have sub: "set (take n ?xs) \<subseteq> insight_in os ` set (eligible os m)" using set_take_subset [of n ?xs] by auto
  have score: "\<forall>s\<in>set (take n ?xs). 0 \<le> si_score s \<and> si_score s \<le> 100"
  proof
    fix s assume "s \<in> set (take n ?xs)"
    then obtain o' where "s = insight_in os o'" using sub by blast
    then show "0 \<le> si_score s \<and> si_score s \<le> 100" using segment_score_bounds by (simp add: insight_in_def)
  qed
  have seeds: "\<exists>o'\<in>set (eligible os m). la_seed_segment l = so_key o' \<and> 11/10 \<le> si_index (insight_in os o') \<and> 5 \<le> so_conversions o'"
    if l: "l \<in> set (suggest_lookalikes ?xs DEFAULT_LOOKALIKE_TIERS)" for l
    using suggest_lookalikes_sound [OF l] by (auto simp: insight_in_def)
  show ?thesis
    using a len sub score seeds sorted_wrt_take [OF sorted_rank] suggest_lookalikes_length [of ?xs DEFAULT_LOOKALIKE_TIERS]
      dict_add_sum [of si_dimension ?xs "[]"]
    by (simp add: DEFAULT_LOOKALIKE_TIERS_def)
qed

end
