(* ===== verification/AgentBase.thy ===== *)
theory AgentBase
  imports AgentState Platform Audience
begin

text \<open>
  \<open>agents/base.py\<close>: the context an agent runs in, the resolution of a campaign to its network
  coordinates, and the tool call made on an agent's behalf; the optimization settings of
  \<open>core/config.py\<close>; and the rebuilding of snapshots from the \<open>metrics\<close> channel, which the monitor,
  bidding and optimize agents do in the same words.

  The lifecycle events of \<open>BaseAgent.execute\<close> and the cancellation check are modelled with the
  supervisor.
\<close>

record optimization_settings =
  os_max_iterations :: int
  os_default_target_roas :: real
  os_default_target_cpa :: real
  os_alert_ctr_floor :: real
  os_alert_cpa_ceiling :: real
  os_alert_roas_floor :: real
  os_min_impressions_for_alerts :: int
  os_burn_rate_multiplier :: real
  os_burn_rate_critical_multiplier :: real
  os_burn_rate_hysteresis :: real
  os_creative_score_threshold :: real
  os_max_budget_change_pct :: real
  os_bid_cap_ratio_of_target_cpa :: real
  os_use_convex_solver :: bool

definition default_optimization_settings :: optimization_settings where
  "default_optimization_settings =
     \<lparr>os_max_iterations = 3, os_default_target_roas = 2, os_default_target_cpa = 100,
      os_alert_ctr_floor = 0.005, os_alert_cpa_ceiling = 200, os_alert_roas_floor = 1,
      os_min_impressions_for_alerts = 100, os_burn_rate_multiplier = 1.25,
      os_burn_rate_critical_multiplier = 1.875, os_burn_rate_hysteresis = 0.05,
      os_creative_score_threshold = 40, os_max_budget_change_pct = 50,
      os_bid_cap_ratio_of_target_cpa = 0.8, os_use_convex_solver = True\<rparr>"

record creative_row =
  cr_creative_id :: string
  cr_headline :: string
  cr_status :: string
  cr_impressions :: int
  cr_clicks :: int
  cr_conversions :: int
  cr_cost :: real
  cr_revenue :: real
  cr_ab_group :: string

record campaign_ref =
  rf_platform :: string
  rf_external_id :: string
  rf_name :: string
  rf_status :: string

text \<open>\<open>tools\<close>: \<open>None\<close> when no executor is attached; the executor's mutable state is threaded separately.\<close>

record 'w agent_context =
  ax_run_id :: string
  ax_optimization :: optimization_settings
  ax_actor :: string
  ax_tools :: "(tool_settings \<times> 'w registry) option"
  ax_snapshots :: "snapshot list"
  ax_audience_observations :: "segment_observation list"
  ax_existing_creatives :: "(string, creative_row list) dict"
  ax_daily_budgets :: "(string, real) dict"
  ax_campaign_targets :: "(string, (string, real) dict) dict"
  ax_campaign_refs :: "(string, campaign_ref) dict"

definition campaign_ref_of :: "'w agent_context \<Rightarrow> string \<Rightarrow> campaign_ref option" where
  "campaign_ref_of ctx cid = map_of (ax_campaign_refs ctx) cid"

definition tool_target :: "'w agent_context \<Rightarrow> string \<Rightarrow> (string \<times> string) option" where
  "tool_target ctx cid =
     (case campaign_ref_of ctx cid of
        None \<Rightarrow> None
      | Some r \<Rightarrow> if rf_platform r = [] \<or> rf_external_id r = [] then None
                  else Some (rf_platform r, rf_external_id r))"

definition tools_enabled :: "'w agent_context \<Rightarrow> bool" where
  "tools_enabled ctx = (case ax_tools ctx of None \<Rightarrow> False | Some (cfg, reg) \<Rightarrow> ts_enabled cfg)"

definition agent_call_tool ::
  "'w agent_context \<Rightarrow> real \<times> real \<Rightarrow> string \<Rightarrow> json_dict \<Rightarrow> agent_name \<Rightarrow> string \<Rightarrow> 'w executor \<Rightarrow> 'w
   \<Rightarrow> 'w tool_result option \<times> 'w executor \<times> 'w" where
  "agent_call_tool ctx clock tool arguments agent idempotency_key ex w =
     (case ax_tools ctx of
        None \<Rightarrow> (None, ex, w)
      | Some (cfg, reg) \<Rightarrow>
          if \<not> ts_enabled cfg then (None, ex, w)
          else case call_tool cfg reg (fst clock) (snd clock)
                 \<lparr>rq_tool = tool, rq_arguments = arguments, rq_agent = Some agent, rq_run_id = ax_run_id ctx,
                  rq_actor = ax_actor ctx, rq_idempotency_key = idempotency_key, rq_dry_run = None\<rparr> ex w of
               (r, ex', w') \<Rightarrow> (Some r, ex', w'))"

text \<open>A bare context for the concrete examples.\<close>

definition example_context :: "'w agent_context" where
  "example_context = \<lparr>ax_run_id = ''r'', ax_optimization = default_optimization_settings, ax_actor = ''system'',
     ax_tools = None, ax_snapshots = [], ax_audience_observations = [], ax_existing_creatives = [], ax_daily_budgets = [],
     ax_campaign_targets = [], ax_campaign_refs = []\<rparr>"

fun restore_snapshots :: "metric list \<Rightarrow> snapshot list" where
  "restore_snapshots [] = []"
| "restore_snapshots (MSnapshot s # ms) = s # restore_snapshots ms"
| "restore_snapshots (MDict d # ms) =
     (case snapshot_of_dict d of Inl e \<Rightarrow> restore_snapshots ms | Inr s \<Rightarrow> s # restore_snapshots ms)"

definition dump_snapshots :: "snapshot list \<Rightarrow> (py_error, metric list) res" where
  "dump_snapshots ss = map_res (\<lambda>s. bind_res (dump_snapshot s) (\<lambda>d. Inr (MDict d))) ss"

lemma restore_dumped:
  assumes "\<forall>s\<in>set ss. valid_snapshot s"
  shows "\<exists>ms. dump_snapshots ss = Inr ms \<and> restore_snapshots ms = ss"
  using assms
proof (induction ss)
  case Nil
  then show ?case by (simp add: dump_snapshots_def)
next
  case (Cons s ss)
  then obtain ms where ms: "dump_snapshots ss = Inr ms" "restore_snapshots ms = ss" by auto
  have v: "valid_snapshot s" using Cons.prems by simp
  obtain x y where xy: "predicted_ctr s = Inr x" "predicted_cvr s = Inr y"
    using predicted_ctr_valid [OF v] predicted_cvr_valid [OF v] by blast
  then obtain c where c: "dump_computed s = Inr c" by (simp add: dump_computed_def)
  have "snapshot_of_dict (dump_fields s @ c) = Inr s"
    using snapshot_of_dump_fields [OF ignore_derived_dump [OF c]] v by (simp add: validate_snapshot_iff)
  then have "restore_snapshots (MDict (dump_fields s @ c) # ms) = s # ss" using ms by simp
  moreover have "dump_snapshots (s # ss) = Inr (MDict (dump_fields s @ c) # ms)"
    using ms by (simp add: dump_snapshots_def dump_snapshot_def c)
  ultimately show ?case by blast
qed

lemma agent_call_world:
  assumes "\<forall>cfg reg. ax_tools ctx = Some (cfg, reg) \<longrightarrow> \<not> ts_allow_agent_writes cfg
      \<and> (\<forall>spec. map_of reg tool = Some spec \<longrightarrow> \<not> sp_read_only spec)"
  shows "snd (snd (agent_call_tool ctx clock tool args agent key ex w)) = w"
proof (cases "ax_tools ctx")
  case None
  then show ?thesis by (simp add: agent_call_tool_def)
next
  case (Some p)
  obtain cfg reg where p: "p = (cfg, reg)" by (cases p)
  have cfg: "\<not> ts_allow_agent_writes cfg" "\<And>spec. map_of reg tool = Some spec \<Longrightarrow> \<not> sp_read_only spec"
    using assms Some p by auto
  define req where "req = \<lparr>rq_tool = tool, rq_arguments = args, rq_agent = Some agent, rq_run_id = ax_run_id ctx,
    rq_actor = ax_actor ctx, rq_idempotency_key = key, rq_dry_run = None\<rparr>"
  have tool: "rq_tool req = tool" by (simp add: req_def)
  have "snd (snd (call_tool cfg reg (fst clock) (snd clock) req ex w)) = w"
  proof (cases "map_of reg tool")
    case None
    then show ?thesis by (simp add: call_tool_def tool Let_def split_beta)
  next
    case (Some spec)
    have "should_dry_run cfg req spec" using cfg Some by (simp add: should_dry_run_def from_agent_def req_def)
    then have rt: "snd (snd (run_tool cfg a b req spec e w)) = w" for a b e
      using run_tool_world [of cfg a b req spec e w] by simp
    show ?thesis using Some by (simp add: call_tool_def tool Let_def split_beta rt)
  qed
  then show ?thesis using Some p by (simp add: agent_call_tool_def split_beta flip: req_def)
qed

end
