(* ===== verification/Bidding.thy ===== *)
theory Bidding
  imports AgentBase Pricing
begin

text \<open>
  \<open>agents/bidding.py\<close>: the bid recommendation of every campaign, recorded with the reference it was
  judged against. A target the campaign does not carry falls back to the configured default.
\<close>

definition target_of :: "'w agent_context \<Rightarrow> string \<Rightarrow> string \<Rightarrow> real \<Rightarrow> real" where
  "target_of ctx cid key fallback =
     (case map_of (ax_campaign_targets ctx) cid of
        None \<Rightarrow> fallback
      | Some targets \<Rightarrow> (case map_of targets key of None \<Rightarrow> fallback | Some t \<Rightarrow> t))"

definition BID_LEARNING_IMPRESSIONS :: int where "BID_LEARNING_IMPRESSIONS = 10000"

definition decision_of :: "'w agent_context \<Rightarrow> int \<Rightarrow> snapshot \<Rightarrow> (py_error, decision) res" where
  "decision_of ctx iteration s =
     (let opt = ax_optimization ctx;
          target_roas = target_of ctx (campaign_id s) ''target_roas'' (os_default_target_roas opt);
          target_cpa = target_of ctx (campaign_id s) ''target_cpa'' (os_default_target_cpa opt)
      in bind_res (predicted_ctr s) (\<lambda>pctr. bind_res (predicted_cvr s) (\<lambda>pcvr.
           bind_res (recommend_bid (campaign_id s) pctr pcvr (roas s) (impressions s) target_cpa target_roas
                       (os_bid_cap_ratio_of_target_cpa opt) BID_LEARNING_IMPRESSIONS) (\<lambda>b.
             Inr \<lparr>dc_campaign_id = br_campaign_id b, dc_campaign_name = campaign_name s,
                  dc_bid_cpm = br_bid_cpm b, dc_max_cpc = br_max_cpc b, dc_ecpm = br_ecpm b,
                  dc_predicted_ctr = br_predicted_ctr b, dc_predicted_cvr = br_predicted_cvr b,
                  dc_multiplier = br_multiplier b, dc_confidence = br_confidence b,
                  dc_reasoning = br_reasoning b, dc_iteration = iteration,
                  dc_observed_roas = py_round 4 (roas s), dc_target_roas = target_roas\<rparr>))))"

definition bidding_message :: "decision list \<Rightarrow> int \<Rightarrow> message" where
  "bidding_message ds iteration =
     (if ds = [] then message_of AGENT_BIDDING ''No campaigns were eligible for a bid update.'' iteration
      else let raised = length (filter (\<lambda>d. dc_multiplier d > 1) ds);
               lowered = length (filter (\<lambda>d. dc_multiplier d < 1) ds);
               held = length ds - raised - lowered;
               average_cpm = sum_list (map dc_bid_cpm ds) / of_nat (length ds)
           in message_of AGENT_BIDDING
                (''Updated bids for '' @ show_nat (length ds) @ '' campaign(s): '' @ show_nat raised
                 @ '' raised, '' @ show_nat lowered @ '' lowered, '' @ show_nat held
                 @ '' held. Average CPM bid '' @ fmt_fixed 2 average_cpm @ ''.'') iteration)"

definition bidding_run :: "agent_state \<Rightarrow> 'w agent_context \<Rightarrow> (py_error, channel_update list) res" where
  "bidding_run s ctx =
     bind_res (map_res (decision_of ctx (st_iteration s)) (restore_snapshots (st_metrics s))) (\<lambda>decisions.
       Inr [UBiddingDecisions decisions, UCurrentAgent (agent_name_value AGENT_BIDDING),
            UAgentMessages [bidding_message decisions (st_iteration s)]])"

lemma decision_of_valid:
  assumes "valid_snapshot s"
  shows "\<exists>d. decision_of ctx it s = Inr d \<and> dc_campaign_id d = campaign_id s"
proof -
  obtain x y where "predicted_ctr s = Inr x" "predicted_cvr s = Inr y" "0 \<le> x" "0 \<le> y"
    using predicted_ctr_valid [OF assms] predicted_cvr_valid [OF assms] by blast
  moreover from this have "ecpm x y t = Inr (x * y * t * 1000)" if "0 < t" for t
    using that by (simp add: ecpm_ok)
  ultimately show ?thesis
    by (simp add: decision_of_def recommend_bid_def Let_def DEFAULT_TARGET_CPA_def)
qed

subsection \<open>Properties\<close>

text \<open>
  The bidding agent covers the portfolio: when the metrics channel holds valid snapshots, live or
  dumped, the agent does not fail and writes exactly one decision per snapshot, in order.
\<close>

theorem bidding_covers_portfolio:
  assumes "list_all valid_snapshot (restore_snapshots (st_metrics s))"
  shows "\<exists>ds m. bidding_run s ctx = Inr [UBiddingDecisions ds, UCurrentAgent ''bidding'', UAgentMessages [m]]
    \<and> map dc_campaign_id ds = map campaign_id (restore_snapshots (st_metrics s))"
proof -
  define ss where "ss = restore_snapshots (st_metrics s)"
  define g where "g x = projr (decision_of ctx (st_iteration s) x)" for x
  have g: "decision_of ctx (st_iteration s) x = Inr (g x) \<and> dc_campaign_id (g x) = campaign_id x" if "x \<in> set ss" for x
  proof -
    have "valid_snapshot x" using that assms by (simp add: ss_def list_all_iff)
    then obtain d where "decision_of ctx (st_iteration s) x = Inr d" "dc_campaign_id d = campaign_id x"
      using decision_of_valid by blast
    then show ?thesis by (simp add: g_def)
  qed
  have "map_res (decision_of ctx (st_iteration s)) ss = Inr (map g ss)" by (rule map_res_total) (use g in blast)
  moreover have "map dc_campaign_id (map g ss) = map campaign_id ss" using g by simp
  ultimately show ?thesis by (simp add: bidding_run_def flip: ss_def)
qed

theorem bidding_covers_portfolio_witness:
  "\<exists>ds m. bidding_run ((initial_state ''r'' [] 3 7)\<lparr>st_metrics := [MSnapshot (plain_snapshot ''a'' 1000 50 5 100 300)]\<rparr>)
       example_context = Inr [UBiddingDecisions ds, UCurrentAgent ''bidding'', UAgentMessages [m]]
    \<and> map dc_campaign_id ds = [''a'']"
  using bidding_covers_portfolio [of "(initial_state ''r'' [] 3 7)\<lparr>st_metrics := [MSnapshot (plain_snapshot ''a'' 1000 50 5 100 300)]\<rparr>"
      example_context]
  by (simp add: valid_snapshot_def)

end
