(* ===== verification/Dates.thy ===== *)
theory Dates
  imports Prelude
begin

text \<open>
  Calendar dates of the Python \<open>datetime\<close> module: a date is the number of days since 1970-01-01, and
  \<open>iso_date\<close> is \<open>isoformat()\<close>, with the proleptic Gregorian calendar computed from the day number.
\<close>

definition civil_of_days :: "int \<Rightarrow> int \<times> int \<times> int" where
  "civil_of_days z0 =
     (let z = z0 + 719468;
          era = z div 146097;
          doe = z mod 146097;
          yoe = (doe - doe div 1460 + doe div 36524 - doe div 146096) div 365;
          y = yoe + era * 400;
          doy = doe - (365 * yoe + yoe div 4 - yoe div 100);
          mp = (5 * doy + 2) div 153;
          d = doy - (153 * mp + 2) div 5 + 1;
          m = (if mp < 10 then mp + 3 else mp - 9)
      in (if m \<le> 2 then y + 1 else y, m, d))"

definition iso_date :: "int \<Rightarrow> string" where
  "iso_date z =
     (case civil_of_days z of (y, m, d) \<Rightarrow>
        pad_digits 4 (nat y) @ ''-'' @ pad_digits 2 (nat m) @ ''-'' @ pad_digits 2 (nat d))"

lemma pad_digits_2: "pad_digits 2 n = [digit_char (n div 10 mod 10), digit_char (n mod 10)]"
  by (simp add: numeral_2_eq_2)

lemma pad_digits_4: "pad_digits 4 n = pad_digits 2 (n div 10 div 10) @ pad_digits 2 n"
proof -
  have "pad_digits 4 n = pad_digits (Suc (Suc 2)) n" by simp
  then show ?thesis by (simp only: pad_digits.simps pad_digits_2 append_assoc append.simps)
qed

end
