(* ===== verification/Monitor.thy ===== *)
theory Monitor
  imports AgentBase Dates
begin

text \<open>
  \<open>agents/monitor.py\<close>: detection over the resolved snapshots, the bounded reconciliation of the worst
  alerts with their networks, the health channel and the narrative message.

  The clock is an argument: \<open>now\<close> for the alerts, \<open>today\<close> as a day number, and the pair of readings of
  the n-th tool call. A check of a campaign without network coordinates has the missing keys of its
  dictionary empty.
\<close>

definition MAX_LIVE_CHECKS :: nat where "MAX_LIVE_CHECKS = 5"

definition resolve_snapshots :: "agent_state \<Rightarrow> 'w agent_context \<Rightarrow> snapshot list" where
  "resolve_snapshots s ctx =
     (if ax_snapshots ctx \<noteq> [] then ax_snapshots ctx else restore_snapshots (st_metrics s))"

definition prior_burn_rate :: "alert_dict list \<Rightarrow> (string, string) dict" where
  "prior_burn_rate alerts =
     fold (\<lambda>a. AList.update (ad_campaign_id a) (ad_severity a))
       (filter (\<lambda>a. ad_rule a = alert_rule_value BURN_RATE) alerts) []"

definition monitor_thresholds :: "optimization_settings \<Rightarrow> thresholds" where
  "monitor_thresholds opt = default_thresholds
     \<lparr>th_ctr_floor := os_alert_ctr_floor opt, th_cpa_ceiling := os_alert_cpa_ceiling opt,
      th_roas_floor := os_alert_roas_floor opt, th_min_impressions := os_min_impressions_for_alerts opt,
      th_burn_rate_multiplier := os_burn_rate_multiplier opt,
      th_burn_rate_critical_multiplier := os_burn_rate_critical_multiplier opt,
      th_burn_rate_hysteresis := os_burn_rate_hysteresis opt\<rparr>"

definition window_of :: "agent_state \<Rightarrow> int" where
  "window_of s = (if st_window_days s = 0 then 7 else st_window_days s)"

definition monitor_alerts :: "datetime \<Rightarrow> agent_state \<Rightarrow> 'w agent_context \<Rightarrow> alert list" where
  "monitor_alerts now s ctx =
     deduplicate (detect now (resolve_snapshots s ctx) (monitor_thresholds (ax_optimization ctx))
       (ax_daily_budgets ctx) [] (window_of s) (prior_burn_rate (st_alerts s)))"

subsection \<open>The reconciliation with the networks\<close>

definition unresolved_check :: "alert \<Rightarrow> platform_check" where
  "unresolved_check a =
     \<lparr>ck_campaign_id = al_campaign_id a, ck_platform = [], ck_external_id = [],
      ck_rule = alert_rule_value (al_rule a), ck_severity = alert_severity_value (al_severity a),
      ck_tool = [], ck_outcome = ''unresolved'', ck_served_by = [], ck_live_rows = 0, ck_window = [],
      ck_duration_ms = 0, ck_error = Some ''no platform external_id on record; cannot reconcile''\<rparr>"

definition answered_check :: "alert \<Rightarrow> string \<Rightarrow> string \<Rightarrow> string \<Rightarrow> 'w tool_result \<Rightarrow> platform_check" where
  "answered_check a platform ext window r =
     \<lparr>ck_campaign_id = al_campaign_id a, ck_platform = platform, ck_external_id = ext,
      ck_rule = alert_rule_value (al_rule a), ck_severity = alert_severity_value (al_severity a),
      ck_tool = rq_tool (tr_request r), ck_outcome = tool_outcome_value (tr_outcome r),
      ck_served_by = json_str (tr_data r) ''served_by'',
      ck_live_rows = (case map_of (tr_data r) ''rows'' of Some (JList rows) \<Rightarrow> length rows | _ \<Rightarrow> 0),
      ck_window = window, ck_duration_ms = py_round 2 (tr_duration_ms r), ck_error = tr_error r\<rparr>"

definition report_key :: "int \<Rightarrow> string \<Rightarrow> string" where
  "report_key iteration cid = ''monitor-report:'' @ show_int iteration @ '':'' @ cid"

definition report_arguments :: "string \<Rightarrow> string \<Rightarrow> string \<Rightarrow> string \<Rightarrow> json_dict" where
  "report_arguments platform ext start stop =
     [(''platform'', JStr platform), (''campaign_external_id'', JStr ext),
      (''start_date'', JStr start), (''end_date'', JStr stop)]"

fun check_alerts ::
  "'w agent_context \<Rightarrow> (nat \<Rightarrow> real \<times> real) \<Rightarrow> string \<Rightarrow> string \<Rightarrow> int \<Rightarrow> alert list
   \<Rightarrow> platform_check list \<Rightarrow> string list \<Rightarrow> 'w executor \<Rightarrow> 'w
   \<Rightarrow> platform_check list \<times> 'w executor \<times> 'w" where
  "check_alerts ctx clock start stop iteration [] checks seen ex w = (checks, ex, w)"
| "check_alerts ctx clock start stop iteration (a # as) checks seen ex w =
     (let cid = al_campaign_id a
      in if length checks \<ge> MAX_LIVE_CHECKS then (checks, ex, w)
         else if cid \<in> set seen then check_alerts ctx clock start stop iteration as checks seen ex w
         else case tool_target ctx cid of
                None \<Rightarrow> check_alerts ctx clock start stop iteration as (checks @ [unresolved_check a]) (cid # seen) ex w
              | Some (platform, ext) \<Rightarrow>
                  (case agent_call_tool ctx (clock (length checks)) ''platform.campaign_report''
                          (report_arguments platform ext start stop) AGENT_MONITOR (report_key iteration cid) ex w of
                     (None, ex', w') \<Rightarrow> check_alerts ctx clock start stop iteration as checks (cid # seen) ex' w'
                   | (Some r, ex', w') \<Rightarrow>
                       check_alerts ctx clock start stop iteration as
                         (checks @ [answered_check a platform ext (start @ ''/'' @ stop) r]) (cid # seen) ex' w'))"

definition worst_first :: "alert list \<Rightarrow> alert list" where
  "worst_first alerts = sort_key (\<lambda>a. severity_rank (al_severity a)) alerts"

definition cross_check ::
  "alert list \<Rightarrow> 'w agent_context \<Rightarrow> (nat \<Rightarrow> real \<times> real) \<Rightarrow> int \<Rightarrow> int \<Rightarrow> int \<Rightarrow> 'w executor \<Rightarrow> 'w
   \<Rightarrow> platform_check list \<times> 'w executor \<times> 'w" where
  "cross_check alerts ctx clock today window_days iteration ex w =
     (if \<not> tools_enabled ctx \<or> alerts = [] then ([], ex, w)
      else check_alerts ctx clock (iso_date (today - (max 1 window_days - 1))) (iso_date today) iteration
             (worst_first alerts) [] [] ex w)"

subsection \<open>The step\<close>

definition summary_dump :: "summary \<Rightarrow> json_dict" where
  "summary_dump p =
     [(''campaigns'', JInt (int (pf_campaigns p))), (''impressions'', JInt (pf_impressions p)),
      (''clicks'', JInt (pf_clicks p)), (''conversions'', JInt (pf_conversions p)),
      (''total_cost'', JFloat (Fin (pf_total_cost p))), (''total_revenue'', JFloat (Fin (pf_total_revenue p))),
      (''ctr'', JFloat (Fin (pf_ctr p))), (''cvr'', JFloat (Fin (pf_cvr p))),
      (''cpa'', (case pf_cpa p of None \<Rightarrow> JNull | Some c \<Rightarrow> JFloat (Fin c))),
      (''roas'', JFloat (Fin (pf_roas p))), (''health_score'', JFloat (Fin (health_score_field p)))]"

definition monitor_message :: "summary \<Rightarrow> alert list \<Rightarrow> real \<Rightarrow> int \<Rightarrow> platform_check list \<Rightarrow> message" where
  "monitor_message p alerts score iteration checks =
     message_of AGENT_MONITOR
       (join_with '' ''
         ([''Monitored '' @ show_nat (pf_campaigns p) @ '' campaigns.'',
           ''Health '' @ fmt_fixed 1 score @ ''/100 ('' @ health_status score @ '').'',
           ''CTR '' @ fmt_percent 3 (pf_ctr p) @ '','',
           ''ROAS '' @ fmt_fixed 2 (pf_roas p) @ ''.'']
          @ (case alerts of
               [] \<Rightarrow> [''No anomalies detected.'']
             | worst # _ \<Rightarrow> [''Raised '' @ show_nat (length alerts) @ '' alert(s); highest severity ''
                 @ alert_severity_value (al_severity worst) @ '' on campaign '' @ al_campaign_id worst @ ''.''])
          @ (if checks = [] then []
             else [''Cross-checked '' @ show_nat (length checks)
                 @ '' alerted campaign(s) against their network: ''
                 @ show_nat (length (filter (\<lambda>c. ck_served_by c \<noteq> []) checks)) @ '' answered, ''
                 @ show_nat (length (filter (\<lambda>c. ck_outcome c = ''unresolved'') checks))
                 @ '' without an external id.''])))
       iteration"

definition health_dict :: "summary \<Rightarrow> alert list \<Rightarrow> int \<Rightarrow> nat \<Rightarrow> platform_check list \<Rightarrow> json_dict" where
  "health_dict p alerts window_days monitored checks =
     [(''status'', JStr (health_status (health_score p))),
      (''score'', JFloat (Fin (py_round 2 (health_score p)))),
      (''portfolio'', JDict (summary_dump p)), (''alert_count'', JInt (int (length alerts))),
      (''critical_count'', JInt (int (length (filter (\<lambda>a. al_severity a = SEVERITY_CRITICAL) alerts)))),
      (''window_days'', JInt window_days), (''campaigns_monitored'', JInt (int monitored)),
      (''live_checks'', JInt (int (length checks))),
      (''live_checks_unresolved'', JInt (int (length (filter (\<lambda>c. ck_outcome c = ''unresolved'') checks))))]"

definition monitor_run ::
  "datetime \<Rightarrow> int \<Rightarrow> (nat \<Rightarrow> real \<times> real) \<Rightarrow> agent_state \<Rightarrow> 'w agent_context \<Rightarrow> 'w executor \<Rightarrow> 'w
   \<Rightarrow> (py_error, channel_update list) res \<times> 'w executor \<times> 'w" where
  "monitor_run now today clock s ctx ex w =
     (let snapshots = resolve_snapshots s ctx;
          alerts = monitor_alerts now s ctx;
          portfolio = summarize snapshots;
          score = health_score portfolio
      in case cross_check alerts ctx clock today (window_of s) (st_iteration s) ex w of (checks, ex', w') \<Rightarrow>
           (bind_res (dump_snapshots snapshots) (\<lambda>metrics.
              Inr [UMetrics metrics, UAlerts (map alert_to_dict alerts), UPlatformChecks checks,
                   UHealth (health_dict portfolio alerts (window_of s) (length snapshots) checks),
                   UCurrentAgent (agent_name_value AGENT_MONITOR),
                   UAgentMessages [monitor_message portfolio alerts score (st_iteration s) checks]]),
            ex', w'))"

subsection \<open>Which campaigns are reconciled\<close>

fun first_by :: "('a \<Rightarrow> 'k) \<Rightarrow> 'k list \<Rightarrow> 'a list \<Rightarrow> 'a list" where
  "first_by f seen [] = []"
| "first_by f seen (x # xs) =
     (if f x \<in> set seen then first_by f seen xs else x # first_by f (f x # seen) xs)"

lemma set_first_by: "set (first_by f seen xs) \<subseteq> set xs"
  by (induction f seen xs rule: first_by.induct) auto

lemma distinct_first_by:
  "distinct (map f (first_by f seen xs)) \<and> f ` set (first_by f seen xs) \<inter> set seen = {}"
  by (induction f seen xs rule: first_by.induct) auto

lemma sorted_first_by: "sorted (map g xs) \<Longrightarrow> sorted (map g (first_by f seen xs))"
  by (induction f seen xs rule: first_by.induct) (use set_first_by in \<open>fastforce\<close>)+

lemma first_by_covers:
  "sorted (map g xs) \<Longrightarrow> x \<in> set xs \<Longrightarrow> f x \<notin> set seen \<Longrightarrow>
   \<exists>y\<in>set (first_by f seen xs). f y = f x \<and> g y \<le> g x"
proof (induction f seen xs rule: first_by.induct)
  case (2 f seen z xs)
  show ?case
  proof (cases "f z = f x")
    case True
    then have "g z \<le> g x" using 2(3,4) by auto
    then show ?thesis using True 2(5) by auto
  next
    case False
    then show ?thesis using 2 by (cases "f z \<in> set seen") auto
  qed
qed simp

definition check_view :: "platform_check \<Rightarrow> string \<times> string \<times> string" where
  "check_view c = (ck_campaign_id c, ck_rule c, ck_severity c)"

definition alert_view :: "alert \<Rightarrow> string \<times> string \<times> string" where
  "alert_view a = (al_campaign_id a, alert_rule_value (al_rule a), alert_severity_value (al_severity a))"

lemma check_views [simp]:
  "check_view (unresolved_check a) = alert_view a"
  "check_view (answered_check a p e win r) = alert_view a"
  by (simp_all add: check_view_def alert_view_def unresolved_check_def answered_check_def)

lemma agent_call_enabled: "tools_enabled ctx \<Longrightarrow> fst (agent_call_tool ctx clock tool args agent key ex w) \<noteq> None"
  by (auto simp: tools_enabled_def agent_call_tool_def split_beta split: option.splits)

lemma check_alerts_view:
  "tools_enabled ctx \<Longrightarrow>
   map check_view (fst (check_alerts ctx clock start stop iteration as checks seen ex w)) =
     map check_view checks
     @ take (MAX_LIVE_CHECKS - length checks) (map alert_view (first_by al_campaign_id seen as))"
proof (induction as arbitrary: checks seen ex w)
  case (Cons a as)
  show ?case
  proof (cases "length checks \<ge> MAX_LIVE_CHECKS \<or> al_campaign_id a \<in> set seen")
    case True
    then show ?thesis using Cons by (auto simp: Let_def)
  next
    case False
    then obtain n where n: "MAX_LIVE_CHECKS - length checks = Suc n" "MAX_LIVE_CHECKS - Suc (length checks) = n"
      by (metis Suc_diff_Suc not_less)
    show ?thesis
    proof (cases "tool_target ctx (al_campaign_id a)")
      case None
      then show ?thesis using False n by (simp add: Cons Let_def)
    next
      case (Some t)
      obtain p e where t: "t = (p, e)" by (cases t)
      obtain r ex' w' where call: "agent_call_tool ctx (clock (length checks)) ''platform.campaign_report''
          (report_arguments p e start stop) AGENT_MONITOR (report_key iteration (al_campaign_id a)) ex w = (Some r, ex', w')"
        using agent_call_enabled [OF Cons.prems] by (metis not_None_eq prod.collapse)
      show ?thesis using False n Some t by (simp add: Cons Let_def call)
    qed
  qed
qed simp

subsection \<open>Alerts across iterations\<close>

lemma map_of_fold_update:
  assumes "x \<in> set xs" "\<And>y. y \<in> set xs \<Longrightarrow> k y = k x \<Longrightarrow> v y = v x"
  shows "map_of (fold (\<lambda>a. AList.update (k a) (v a)) xs d) (k x) = Some (v x)"
  using assms
proof (induction xs rule: rev_induct)
  case (snoc y ys)
  show ?case
  proof (cases "k y = k x")
    case True
    have "v y = v x" by (rule snoc.prems(2)) (simp_all add: True)
    then show ?thesis using True by (simp add: update_conv')
  next
    case False
    then have x: "x \<in> set ys" using snoc.prems(1) by auto
    have "map_of (fold (\<lambda>a. AList.update (k a) (v a)) ys d) (k x) = Some (v x)"
      by (rule snoc.IH [OF x]) (rule snoc.prems(2), simp_all)
    then show ?thesis using False by (simp add: update_conv')
  qed
qed simp

lemma burn_key_inject:
  assumes "dedup_key_of c r = dedup_key_of c' BURN_RATE"
  shows "r = BURN_RATE \<and> c = c'"
proof -
  have "rev (alert_rule_value r) @ '':'' @ rev c = rev (alert_rule_value BURN_RATE) @ '':'' @ rev c'"
    using arg_cong [OF assms, of rev] by (simp add: dedup_key_of_def)
  then show ?thesis by (cases r) simp_all
qed

lemma monitor_alerts_fields:
  assumes "a \<in> set (monitor_alerts now s ctx)"
  shows "fingerprint a = dedup_key_of (al_campaign_id a) (al_rule a)"
    and "al_rule a \<in> {LOW_CTR, HIGH_CPA, LOW_ROAS, BURN_RATE}"
    and "\<exists>x\<in>set (resolve_snapshots s ctx). al_campaign_id a = campaign_id x"
proof -
  have "a \<in> set (detect now (resolve_snapshots s ctx) (monitor_thresholds (ax_optimization ctx))
      (ax_daily_budgets ctx) [] (window_of s) (prior_burn_rate (st_alerts s)))"
    using assms alert_dedup.collapse_spec(2) by (auto simp: monitor_alerts_def deduplicate_def)
  then obtain x where x: "x \<in> set (resolve_snapshots s ctx)"
    and a: "a \<in> set (check_snapshot now (monitor_thresholds (ax_optimization ctx)) (ax_daily_budgets ctx) []
      (max 1 (window_of s)) (prior_burn_rate (st_alerts s)) x)"
    by (auto simp: set_detect)
  note f = check_rule_fields [OF a]
  show "fingerprint a = dedup_key_of (al_campaign_id a) (al_rule a)"
    using f(1,2) by (simp add: fingerprint_def)
  show "\<exists>x\<in>set (resolve_snapshots s ctx). al_campaign_id a = campaign_id x" using x f(1) by blast
  show "al_rule a \<in> {LOW_CTR, HIGH_CPA, LOW_ROAS, BURN_RATE}"
    using a by (auto simp: set_check_snapshot rule_defs dict_get_def Let_def split: if_splits option.splits)
qed

lemma distinct_monitor_alerts: "distinct (map fingerprint (monitor_alerts now s ctx))"
  using alert_dedup.collapse_spec(1) by (simp add: monitor_alerts_def deduplicate_def)

lemma prior_of_monitor_alert:
  assumes "a \<in> set (monitor_alerts now s ctx)" "al_rule a = BURN_RATE"
  shows "map_of (prior_burn_rate (map alert_to_dict (monitor_alerts now s ctx))) (al_campaign_id a)
    = Some (alert_severity_value (al_severity a))"
proof -
  let ?as = "monitor_alerts now s ctx"
  let ?xs = "filter (\<lambda>d. ad_rule d = alert_rule_value BURN_RATE) (map alert_to_dict ?as)"
  have sel: "ad_rule (alert_to_dict b) = alert_rule_value (al_rule b)"
    "ad_campaign_id (alert_to_dict b) = al_campaign_id b"
    "ad_severity (alert_to_dict b) = alert_severity_value (al_severity b)" for b
    by (simp_all add: alert_to_dict_def)
  have uniq: "b = a" if "b \<in> set ?as" "al_rule b = BURN_RATE" "al_campaign_id b = al_campaign_id a" for b
  proof -
    have "fingerprint b = fingerprint a" using that assms monitor_alerts_fields(1) by metis
    then show ?thesis using distinct_monitor_alerts that(1) assms(1) by (metis distinct_map inj_onD)
  qed
  have "map_of (fold (\<lambda>d. AList.update (ad_campaign_id d) (ad_severity d)) ?xs []) (ad_campaign_id (alert_to_dict a))
    = Some (ad_severity (alert_to_dict a))"
  proof (rule map_of_fold_update)
    show "alert_to_dict a \<in> set ?xs" using assms by (simp add: sel)
    fix y assume y: "y \<in> set ?xs" "ad_campaign_id y = ad_campaign_id (alert_to_dict a)"
    then obtain b where b: "y = alert_to_dict b" "b \<in> set ?as" "al_rule b = BURN_RATE"
      by (auto simp: sel simp del: alert_rule_value.simps)
    then have "b = a" using y(2) by (intro uniq) (simp_all add: sel)
    then show "ad_severity y = ad_severity (alert_to_dict a)" using b(1) by simp
  qed
  then show ?thesis by (simp add: prior_burn_rate_def sel)
qed

lemma monitor_run_ok:
  assumes "list_all valid_snapshot (resolve_snapshots s ctx)"
  shows "\<exists>u. fst (monitor_run now today clock s ctx ex w) = Inr u
    \<and> restore_snapshots (st_metrics (apply_update u s0)) = resolve_snapshots s ctx
    \<and> st_alerts (apply_update u s0) = map alert_to_dict (monitor_alerts now s ctx)
    \<and> st_iteration (apply_update u s0) = st_iteration s0
    \<and> length (st_platform_checks (apply_update u s0)) \<le> MAX_LIVE_CHECKS"
proof -
  obtain ms where ms: "dump_snapshots (resolve_snapshots s ctx) = Inr ms"
      "restore_snapshots ms = resolve_snapshots s ctx"
    using restore_dumped assms by (metis list_all_iff)
  let ?checks = "fst (cross_check (monitor_alerts now s ctx) ctx clock today (window_of s) (st_iteration s) ex w)"
  have "length ?checks = length (map check_view ?checks)" by simp
  also have "\<dots> \<le> MAX_LIVE_CHECKS"
    by (cases "tools_enabled ctx") (simp_all add: cross_check_def check_alerts_view del: length_map)
  finally have "length ?checks \<le> MAX_LIVE_CHECKS" .
  then show ?thesis
    by (simp add: monitor_run_def Let_def split_beta ms apply_update_def replace_list_def)
qed

subsection \<open>Properties\<close>

text \<open>
  C7. The monitor spends its live checks on the worst alerts: with tools enabled, the reconciled
  (campaign, rule, severity) triples are exactly those of the first five distinct campaigns when the
  alerts are taken by severity, so no campaign is asked twice, there are at most five calls, and an
  alerted campaign that was not asked has no alert more severe than any of the five that were.
\<close>

theorem monitor_checks_worst_campaigns:
  assumes "tools_enabled ctx"
  shows "map check_view (fst (cross_check alerts ctx clock today days it ex w))
      = take 5 (map alert_view (first_by al_campaign_id [] (worst_first alerts)))
    \<and> distinct (map ck_campaign_id (fst (cross_check alerts ctx clock today days it ex w)))
    \<and> (\<forall>a\<in>set alerts. (\<exists>b\<in>set (take 5 (first_by al_campaign_id [] (worst_first alerts))).
            al_campaign_id b = al_campaign_id a \<and> al_severity b \<le> al_severity a)
          \<or> length (fst (cross_check alerts ctx clock today days it ex w)) = 5
            \<and> (\<forall>b\<in>set (take 5 (first_by al_campaign_id [] (worst_first alerts))). al_severity b \<le> al_severity a))"
proof -
  let ?cs = "fst (cross_check alerts ctx clock today days it ex w)"
  let ?g = "\<lambda>a. severity_rank (al_severity a)"
  define fs where "fs = first_by al_campaign_id [] (worst_first alerts)"
  have view: "map check_view ?cs = take 5 (map alert_view fs)"
    using assms by (simp add: cross_check_def check_alerts_view fs_def MAX_LIVE_CHECKS_def worst_first_def)
  have "map ck_campaign_id ?cs = map fst (map check_view ?cs)" by (simp add: check_view_def comp_def)
  also have "\<dots> = take 5 (map al_campaign_id fs)" by (simp add: view take_map [symmetric] alert_view_def comp_def)
  finally have dist: "distinct (map ck_campaign_id ?cs)"
    using distinct_first_by [of al_campaign_id "[]" "worst_first alerts"] by (simp add: fs_def)
  have sorted: "sorted (map ?g fs)"
    unfolding fs_def by (rule sorted_first_by) (simp add: worst_first_def)
  have "(\<exists>b\<in>set (take 5 fs). al_campaign_id b = al_campaign_id a \<and> al_severity b \<le> al_severity a)
      \<or> length ?cs = 5 \<and> (\<forall>b\<in>set (take 5 fs). al_severity b \<le> al_severity a)"
    if a: "a \<in> set alerts" for a
  proof -
    obtain y where y: "y \<in> set fs" "al_campaign_id y = al_campaign_id a" "?g y \<le> ?g a"
      using first_by_covers [of ?g "worst_first alerts" a al_campaign_id "[]"] a
      by (auto simp: worst_first_def fs_def)
    show ?thesis
    proof (cases "y \<in> set (take 5 fs)")
      case True
      then show ?thesis using y by (auto simp: severity_rank_eq)
    next
      case False
      then have d: "y \<in> set (drop 5 fs)" using y(1) by (metis UnE append_take_drop_id set_append)
      then have "5 < length fs" by (metis drop_all empty_iff empty_set not_le)
      then have "length ?cs = 5" using view by (metis length_map length_take min.absorb4 min.commute less_imp_le min.absorb1)
      moreover have "?g b \<le> ?g y" if "b \<in> set (take 5 fs)" for b
        using sorted that d sorted_append [of "map ?g (take 5 fs)" "map ?g (drop 5 fs)"]
        by (simp flip: map_append)
      ultimately show ?thesis using y(3) by (auto simp flip: severity_rank_eq intro: order_trans)
    qed
  qed
  then show ?thesis using view dist by (simp flip: fs_def)
qed

definition tooled_context :: "'w registry \<Rightarrow> 'w agent_context" where
  "tooled_context reg = example_context\<lparr>ax_tools := Some (\<lparr>ts_enabled = True, ts_dry_run = True,
     ts_allow_agent_writes = False, ts_max_calls_per_run = 60\<rparr>, reg)\<rparr>"

theorem monitor_checks_worst_campaigns_witness:
  "map check_view (fst (cross_check (check_ctr (Aware 0) (plain_snapshot ''a'' 1000 1 0 50 10) default_thresholds)
       (tooled_context []) (\<lambda>_. (0, 1)) 100 7 0 (new_executor :: unit executor) ()))
   = [(''a'', ''low_ctr'', ''critical'')]"
proof -
  have "tools_enabled (tooled_context ([] :: unit registry))"
    by (simp add: tools_enabled_def tooled_context_def example_context_def)
  from monitor_checks_worst_campaigns [OF this, THEN conjunct1] show ?thesis
    by (simp add: check_ctr_def ctr_def safe_ratio_def default_thresholds_def worst_first_def alert_view_def Let_def
        gap_of_def severity_from_gap_def CRITICAL_GAP_def)
qed

text \<open>
  The burn-rate hysteresis survives the iteration: when one pass of the monitor raised a critical
  burn-rate alert for a campaign, the next pass over the state that pass left raises a critical one
  again as long as the spend ratio is over the alert line and not below the critical line less the
  hysteresis band.
\<close>

theorem critical_burn_rate_carries_over:
  assumes run: "fst (monitor_run now today clock s ctx ex w) = Inr u"
    and a: "a \<in> set (monitor_alerts now s ctx)" "al_rule a = BURN_RATE" "al_severity a = SEVERITY_CRITICAL"
    and x: "x \<in> set (resolve_snapshots (apply_update u s) ctx')" "campaign_id x = al_campaign_id a"
    and b: "dict_get (ax_daily_budgets ctx') (campaign_id x) = Some b" "0 < b"
    and ratio: "os_burn_rate_multiplier (ax_optimization ctx') < burn_ratio x b (window_of s)"
      "os_burn_rate_critical_multiplier (ax_optimization ctx') * (1 - os_burn_rate_hysteresis (ax_optimization ctx'))
         \<le> burn_ratio x b (window_of s)"
  shows "\<exists>c\<in>set (monitor_alerts now' (apply_update u s) ctx').
    al_rule c = BURN_RATE \<and> al_severity c = SEVERITY_CRITICAL \<and> al_campaign_id c = al_campaign_id a"
proof -
  let ?s = "apply_update u s" and ?cfg = "monitor_thresholds (ax_optimization ctx')"
  have chan: "st_alerts ?s = map alert_to_dict (monitor_alerts now s ctx) \<and> st_window_days ?s = st_window_days s"
    using run by (auto simp: monitor_run_def Let_def split_beta bind_res_Inr_iff apply_update_def replace_list_def)
  then have win: "window_of ?s = window_of s" by (simp add: window_of_def)
  let ?ds = "detect now' (resolve_snapshots ?s ctx') ?cfg (ax_daily_budgets ctx') [] (window_of s)
      (prior_burn_rate (st_alerts ?s))"
  have prior: "dict_get (prior_burn_rate (st_alerts ?s)) (campaign_id x) = Some (alert_severity_value SEVERITY_CRITICAL)"
    using prior_of_monitor_alert [OF a(1,2)] chan x(2) a(3) by (simp add: dict_get_def)
  have same: "burn_ratio x b (max 1 (window_of s)) = burn_ratio x b (window_of s)" by (simp add: burn_ratio_def)
  have "burn_severity ?cfg (Some (alert_severity_value SEVERITY_CRITICAL)) (burn_ratio x b (window_of s)) = SEVERITY_CRITICAL"
    by (rule burn_severity_held [OF refl]) (use ratio(2) in \<open>simp add: monitor_thresholds_def\<close>)
  then have "\<exists>d\<in>set (check_burn_rate now' x ?cfg (ax_daily_budgets ctx') (max 1 (window_of s))
      (dict_get (prior_burn_rate (st_alerts ?s)) (campaign_id x))).
      al_severity d = SEVERITY_CRITICAL \<and> fingerprint d = dedup_key_of (campaign_id x) BURN_RATE"
    using b ratio(1) unfolding prior by (simp add: check_burn_rate_def Let_def fingerprint_def same monitor_thresholds_def)
  then obtain d where d: "d \<in> set ?ds" "al_severity d = SEVERITY_CRITICAL"
      "fingerprint d = dedup_key_of (campaign_id x) BURN_RATE"
    using x(1) by (auto simp: set_detect set_check_snapshot)
  then obtain c where c: "c \<in> set (deduplicate ?ds)" "fingerprint c = fingerprint d" "al_severity c \<le> al_severity d"
    using alert_dedup.collapse_spec(3) [OF d(1)] by (auto simp: deduplicate_def severity_rank_eq)
  then have mem: "c \<in> set (monitor_alerts now' ?s ctx')" by (simp add: monitor_alerts_def win)
  have "dedup_key_of (al_campaign_id c) (al_rule c) = dedup_key_of (campaign_id x) BURN_RATE"
    using monitor_alerts_fields(1) [OF mem] c(2) d(3) by simp
  then have "al_rule c = BURN_RATE \<and> al_campaign_id c = al_campaign_id a"
    using burn_key_inject x(2) by metis
  moreover have "al_severity c = SEVERITY_CRITICAL"
    using c(3) d(2) by (cases "al_severity c") (simp_all add: less_eq_alert_severity_def)
  ultimately show ?thesis using mem by blast
qed

definition burning_context :: "real \<Rightarrow> unit agent_context" where
  "burning_context cost = example_context\<lparr>ax_snapshots := [plain_snapshot ''a'' 1000 50 5 cost 400],
     ax_daily_budgets := [(''a'', 100)]\<rparr>"

lemma burning_alerts:
  "\<exists>a\<in>set (monitor_alerts now (initial_state ''r'' [] 3 1) (burning_context 200)).
     al_rule a = BURN_RATE \<and> al_severity a = SEVERITY_CRITICAL \<and> al_campaign_id a = ''a''"
  by (simp add: monitor_alerts_def resolve_snapshots_def burning_context_def window_of_def initial_state_def
      example_context_def detect_def check_snapshot_def rule_defs ctr_def roas_def safe_ratio_def
      monitor_thresholds_def default_thresholds_def default_optimization_settings_def dict_get_def
      burn_ratio_def burn_severity_def prior_burn_rate_def deduplicate_def Let_def)

theorem critical_burn_rate_carries_over_witness:
  "\<exists>u. fst (monitor_run (Aware 0) 100 (\<lambda>_. (0, 1)) (initial_state ''r'' [] 3 1) (burning_context 200) new_executor ()) = Inr u
    \<and> (\<exists>c\<in>set (monitor_alerts (Aware 1) (apply_update u (initial_state ''r'' [] 3 1)) (burning_context 180)).
         al_rule c = BURN_RATE \<and> al_severity c = SEVERITY_CRITICAL \<and> al_campaign_id c = ''a'')"
proof -
  let ?s = "initial_state ''r'' [] 3 1" and ?x = "plain_snapshot ''a'' 1000 50 5 180 400"
  obtain a where a: "a \<in> set (monitor_alerts (Aware 0) ?s (burning_context 200))" "al_rule a = BURN_RATE"
    "al_severity a = SEVERITY_CRITICAL" "al_campaign_id a = ''a''" using burning_alerts by blast
  have "list_all valid_snapshot (resolve_snapshots ?s (burning_context 200))"
    by (simp add: resolve_snapshots_def burning_context_def valid_snapshot_def)
  from monitor_run_ok [OF this, of "Aware 0" 100 "\<lambda>_. (0, 1)" new_executor "()"]
  obtain u where u: "fst (monitor_run (Aware 0) 100 (\<lambda>_. (0, 1)) ?s (burning_context 200) new_executor ()) = Inr u"
    by blast
  have x: "?x \<in> set (resolve_snapshots (apply_update u ?s) (burning_context 180))" "campaign_id ?x = al_campaign_id a"
    by (simp_all add: resolve_snapshots_def burning_context_def a(4))
  have b: "dict_get (ax_daily_budgets (burning_context 180)) (campaign_id ?x) = Some 100" "(0::real) < 100"
    by (simp_all add: burning_context_def dict_get_def)
  have "burn_ratio ?x 100 (window_of ?s) = 9 / 5"
    by (simp add: burn_ratio_def safe_ratio_def window_of_def initial_state_def)
  then have "os_burn_rate_multiplier (ax_optimization (burning_context 180)) < burn_ratio ?x 100 (window_of ?s)"
    "os_burn_rate_critical_multiplier (ax_optimization (burning_context 180))
       * (1 - os_burn_rate_hysteresis (ax_optimization (burning_context 180))) \<le> burn_ratio ?x 100 (window_of ?s)"
    by (simp_all add: burning_context_def example_context_def default_optimization_settings_def)
  from critical_burn_rate_carries_over [OF u a(1-3) x b this] show ?thesis using u a(4) by auto
qed

text \<open>
  The monitor hands the next agents exactly what it judged: over valid snapshots it never fails,
  the metrics channel it writes restores to the snapshots it read, the alerts channel holds the
  rendered alerts of this pass with one entry per fingerprint, at most five checks are recorded, and
  the only rules that can fire are the four that need no reach data.
\<close>

theorem monitor_hands_over_snapshots:
  assumes "list_all valid_snapshot (resolve_snapshots s ctx)"
  shows "\<exists>u. fst (monitor_run now today clock s ctx ex w) = Inr u
    \<and> restore_snapshots (st_metrics (apply_update u s)) = resolve_snapshots s ctx
    \<and> st_alerts (apply_update u s) = map alert_to_dict (monitor_alerts now s ctx)
    \<and> distinct (map fingerprint (monitor_alerts now s ctx))
    \<and> al_rule ` set (monitor_alerts now s ctx) \<subseteq> {LOW_CTR, HIGH_CPA, LOW_ROAS, BURN_RATE}
    \<and> length (st_platform_checks (apply_update u s)) \<le> 5"
  using monitor_run_ok [OF assms, of now today clock ex w s] distinct_monitor_alerts [of now s ctx]
    monitor_alerts_fields(2) [of _ now s ctx]
  by (auto simp: MAX_LIVE_CHECKS_def)

theorem monitor_hands_over_snapshots_witness:
  "\<exists>u. fst (monitor_run (Aware 0) 100 (\<lambda>_. (0, 1)) (initial_state ''r'' [] 3 1) (burning_context 200) new_executor ()) = Inr u
    \<and> restore_snapshots (st_metrics (apply_update u (initial_state ''r'' [] 3 1))) = [plain_snapshot ''a'' 1000 50 5 200 400]"
proof -
  have "resolve_snapshots (initial_state ''r'' [] 3 1) (burning_context 200) = [plain_snapshot ''a'' 1000 50 5 200 400]"
    by (simp add: resolve_snapshots_def burning_context_def)
  moreover from this have "list_all valid_snapshot (resolve_snapshots (initial_state ''r'' [] 3 1) (burning_context 200))"
    by (simp add: valid_snapshot_def)
  ultimately show ?thesis
    using monitor_hands_over_snapshots [of "initial_state ''r'' [] 3 1" "burning_context 200" "Aware 0" 100
        "\<lambda>_. (0, 1)" new_executor "()"] by auto
qed

end
