(* ===== verification/OptimizeAgent.thy ===== *)
theory OptimizeAgent
  imports AgentBase Scoring
begin

text \<open>
  \<open>agents/optimize.py\<close>: the proposals of one iteration, their deduplication, the rehearsal of every
  write proposal through the tool layer, and the decision to stop.

  The proposals of an iteration are built in order and numbered in that order from the supply of ids
  \<open>new_id\<close> stands for, an argument; an unnumbered proposal has the empty id. The convex solver and the
  clock readings of the tool calls are arguments too.
\<close>

definition PAUSE_RULES :: "alert_rule list" where "PAUSE_RULES = [HIGH_CPA, BURN_RATE]"
definition REFRESH_RULES :: "alert_rule list" where "REFRESH_RULES = [LOW_CTR, FREQUENCY_FATIGUE]"

definition CAMPAIGN_TOOLS :: "(action_type \<times> string) list" where
  "CAMPAIGN_TOOLS = [(ADJUST_BUDGET, ''platform.set_daily_budget''), (PAUSE_CAMPAIGN, ''platform.pause_campaign''),
     (RESUME_CAMPAIGN, ''platform.resume_campaign'')]"

definition CREATIVE_TOOLS :: "(action_type \<times> string) list" where
  "CREATIVE_TOOLS = [(PAUSE_CREATIVE, ''platform.pause_creative''), (RESUME_CREATIVE, ''platform.resume_creative'')]"

definition OPT_REASON_MAX :: nat where "OPT_REASON_MAX = 200"
definition MAX_PREFLIGHTS_PER_ITERATION :: nat where "MAX_PREFLIGHTS_PER_ITERATION = 25"
definition BID_MOVE_THRESHOLD :: real where "BID_MOVE_THRESHOLD = 0.05"

text \<open>\<open>_budget_value\<close>: the yen sign has the Latin-1 code \<open>0xA5\<close>.\<close>

definition budget_value :: "string \<Rightarrow> pyfloat option" where
  "budget_value raw =
     (let cleaned = strip (replace_char (CHR '','') [] (replace_char (CHR ''$'') [] (replace_char (CHR 0xA5) [] raw)))
      in case parse_float cleaned of
           None \<Rightarrow> None
         | Some v \<Rightarrow> if float_gt v 0 then Some v else None)"

text \<open>\<open>_action\<close> with its optional arguments at their defaults.\<close>

definition new_action :: "action_type \<Rightarrow> string \<Rightarrow> string \<Rightarrow> real \<Rightarrow> int \<Rightarrow> proposal" where
  "new_action ty cid reason confidence iteration =
     \<lparr>pr_id = [], pr_run_id = None, pr_campaign_id = cid, pr_creative_id = None,
      pr_action_type = action_type_value ty, pr_status = action_status_value ACTION_PROPOSED,
      pr_before_value = [], pr_after_value = [], pr_reason = reason,
      pr_confidence = py_round 3 (max 0 (min confidence 1)),
      pr_proposed_by = agent_name_value AGENT_OPTIMIZE, pr_iteration = iteration, pr_severity = [],
      pr_urgency = Some (py_round 4 0), pr_direction = [], pr_basis = [], pr_preflight = None\<rparr>"

subsection \<open>The proposals of an iteration\<close>

definition creative_pause :: "string \<Rightarrow> string \<Rightarrow> string \<Rightarrow> int \<Rightarrow> proposal" where
  "creative_pause cid crid reason iteration =
     (new_action PAUSE_CREATIVE cid reason 0.8 iteration)
       \<lparr>pr_creative_id := Some crid, pr_before_value := ''active'', pr_after_value := ''paused''\<rparr>"

definition creative_proxy_pause :: "string \<Rightarrow> string \<Rightarrow> int \<Rightarrow> proposal" where
  "creative_proxy_pause cid reason iteration =
     (new_action PAUSE_CREATIVE cid (''Campaign-level proxy (no creative breakdown): '' @ reason) 0.45 iteration)
       \<lparr>pr_before_value := ''active'', pr_after_value := ''paused''\<rparr>"

definition pause_verdict :: "int \<Rightarrow> int \<Rightarrow> int \<Rightarrow> real \<Rightarrow> real \<Rightarrow> real \<Rightarrow> bool \<times> string" where
  "pause_verdict imp clk conv cost revenue threshold =
     should_pause imp clk conv cost revenue threshold DEFAULT_MIN_IMPRESSIONS 0.6"

definition creative_actions :: "snapshot list \<Rightarrow> 'w agent_context \<Rightarrow> int \<Rightarrow> proposal list" where
  "creative_actions snapshots ctx iteration =
     (let threshold = os_creative_score_threshold (ax_optimization ctx);
          proven = concat (map (\<lambda>(cid, rows). concat (map (\<lambda>c.
              if cr_status c \<noteq> ''active'' then []
              else case pause_verdict (cr_impressions c) (cr_clicks c) (cr_conversions c) (cr_cost c)
                          (cr_revenue c) threshold of
                     (pause, reason) \<Rightarrow> if pause then [creative_pause cid (cr_creative_id c) reason iteration] else [])
              rows)) (ax_existing_creatives ctx))
      in if proven \<noteq> [] then proven
         else concat (map (\<lambda>s.
              case pause_verdict (impressions s) (clicks s) (conversions s) (total_cost s) (total_revenue s) threshold of
                (pause, reason) \<Rightarrow> if pause then [creative_proxy_pause (campaign_id s) reason iteration] else [])
              snapshots))"

definition multiplier_of :: "decision \<Rightarrow> real" where
  "multiplier_of d = (if dc_multiplier d = 0 then 1 else dc_multiplier d)"

definition raising_bid_ids :: "decision list \<Rightarrow> string set" where
  "raising_bid_ids ds = set (map dc_campaign_id (filter (\<lambda>d. multiplier_of d - 1 \<ge> BID_MOVE_THRESHOLD) ds))"

definition target_roas_of :: "'w agent_context \<Rightarrow> string \<Rightarrow> real" where
  "target_roas_of ctx cid =
     (case map_of (ax_campaign_targets ctx) cid of
        None \<Rightarrow> os_default_target_roas (ax_optimization ctx)
      | Some targets \<Rightarrow> (case map_of targets ''target_roas'' of
            None \<Rightarrow> os_default_target_roas (ax_optimization ctx) | Some t \<Rightarrow> t))"

definition hold_at_target :: "snapshot list \<Rightarrow> decision list \<Rightarrow> 'w agent_context \<Rightarrow> string set" where
  "hold_at_target snapshots decisions ctx =
     set (map campaign_id (filter (\<lambda>s. campaign_id s \<in> raising_bid_ids decisions
        \<and> target_roas_of ctx (campaign_id s) > 0 \<and> roas s \<ge> target_roas_of ctx (campaign_id s)) snapshots))"

definition budget_action :: "int \<Rightarrow> allocation \<Rightarrow> proposal" where
  "budget_action iteration a =
     (new_action ADJUST_BUDGET (ba_campaign_id a) (ba_reason a) 0.75 iteration)
       \<lparr>pr_before_value := fmt_fixed 2 (ba_current_budget a),
        pr_after_value := fmt_fixed 2 (ba_recommended_budget a),
        pr_direction := (if ba_recommended_budget a > ba_current_budget a then ''increase'' else ''decrease''),
        pr_basis := [(''metric'', PStr ''roas''), (''reference'', PStr ''portfolio''),
          (''change_pct'', PFloat (py_round 2 (ba_change_pct a))), (''score'', PFloat (py_round 4 (ba_score a))),
          (''solver'', PStr (ba_solver a))]\<rparr>"

definition budget_actions :: "allocation list \<Rightarrow> int \<Rightarrow> proposal list" where
  "budget_actions as iteration = map (budget_action iteration) (filter (\<lambda>a. \<not> \<bar>ba_change_pct a\<bar> \<le> 5) as)"

definition bid_reason :: "decision \<Rightarrow> string" where
  "bid_reason d =
     ''Recommended to '' @ (if multiplier_of d > 1 then ''raise'' else ''lower'') @ '' the bid by ''
     @ fmt_fixed 0 (\<bar>multiplier_of d - 1\<bar> * 100) @ ''%. '' @ dc_reasoning d"

definition bid_action :: "int \<Rightarrow> decision \<Rightarrow> proposal" where
  "bid_action iteration d =
     (new_action ADJUST_BID (dc_campaign_id d) (bid_reason d)
        (if dc_confidence d = 0 then 0.5 else dc_confidence d) iteration)
       \<lparr>pr_after_value := fmt_fixed 4 (dc_bid_cpm d),
        pr_direction := (if multiplier_of d > 1 then ''increase'' else ''decrease''),
        pr_basis := [(''metric'', PStr ''roas''), (''reference'', PStr ''target_roas''),
          (''observed'', PFloat (dc_observed_roas d)), (''reference_value'', PFloat (dc_target_roas d)),
          (''magnitude'', PFloat (py_round 4 \<bar>multiplier_of d - 1\<bar>))]\<rparr>"

definition bid_actions :: "decision list \<Rightarrow> int \<Rightarrow> proposal list" where
  "bid_actions ds iteration =
     map (bid_action iteration) (filter (\<lambda>d. \<not> \<bar>multiplier_of d - 1\<bar> < BID_MOVE_THRESHOLD) ds)"

definition alert_confidence :: "alert_dict \<Rightarrow> real" where
  "alert_confidence a = (if ad_severity a = alert_severity_value SEVERITY_CRITICAL then 0.9 else 0.7)"

definition alert_action :: "int \<Rightarrow> alert_dict \<Rightarrow> proposal list" where
  "alert_action iteration a =
     (case alert_rule_of (ad_rule a) of
        None \<Rightarrow> []
      | Some rule \<Rightarrow>
          let prefix = ''Alert '' @ alert_rule_value rule @ '': ''
          in if rule \<in> set PAUSE_RULES
             then [(new_action PAUSE_CAMPAIGN (ad_campaign_id a) (prefix @ ad_message a) (alert_confidence a) iteration)
                     \<lparr>pr_before_value := ''active'', pr_after_value := ''paused'', pr_severity := ad_severity a\<rparr>]
             else if rule \<in> set REFRESH_RULES
             then [(new_action REFRESH_CREATIVE (ad_campaign_id a) (prefix @ ad_message a) (alert_confidence a) iteration)
                     \<lparr>pr_severity := ad_severity a\<rparr>]
             else if rule = LOW_ROAS
             then [(new_action ADJUST_BID (ad_campaign_id a)
                      (prefix @ ''lowering bids to protect margin. '' @ ad_message a) (alert_confidence a) iteration)
                     \<lparr>pr_severity := ad_severity a\<rparr>]
             else [])"

definition alert_actions :: "alert_dict list \<Rightarrow> int \<Rightarrow> proposal list" where
  "alert_actions alerts iteration = concat (map (alert_action iteration) alerts)"

definition experiment_action :: "'w agent_context \<Rightarrow> int \<Rightarrow> string \<times> generated_creative list \<Rightarrow> proposal list" where
  "experiment_action ctx iteration p =
     (let cid = fst p; variants = snd p;
          existing = (case map_of (ax_existing_creatives ctx) cid of None \<Rightarrow> [] | Some rows \<Rightarrow> rows);
          control = list_ex (\<lambda>c. cr_ab_group c = ''control'') existing
      in if length variants < 2 then []
         else [new_action START_AB_TEST cid
                 (''Test '' @ show_nat (length variants) @ '' new variants against ''
                  @ (if control then ''the existing control'' else ''each other''))
                 (if control then 0.85 else 0.6) iteration])"

definition experiment_actions :: "generated_creative list \<Rightarrow> 'w agent_context \<Rightarrow> int \<Rightarrow> proposal list" where
  "experiment_actions creatives ctx iteration =
     concat (map (experiment_action ctx iteration) (group_by_key gc_campaign_id creatives []))"

primrec number_ids :: "(nat \<Rightarrow> string) \<Rightarrow> nat \<Rightarrow> proposal list \<Rightarrow> proposal list" where
  "number_ids ids n [] = []"
| "number_ids ids n (a # as) = a\<lparr>pr_id := ids n\<rparr> # number_ids ids (Suc n) as"

definition action_key :: "proposal \<Rightarrow> string \<times> string \<times> string" where
  "action_key a = (pr_campaign_id a, opt_str (pr_creative_id a), pr_action_type a)"

fun dedupe_into ::
  "proposal list \<Rightarrow> (string \<times> string \<times> string, proposal) dict \<Rightarrow> (string \<times> string \<times> string, proposal) dict" where
  "dedupe_into [] best = best"
| "dedupe_into (a # as) best =
     (case map_of best (action_key a) of
        None \<Rightarrow> dedupe_into as (AList.update (action_key a) a best)
      | Some current \<Rightarrow>
          if pr_confidence a > pr_confidence current then dedupe_into as (AList.update (action_key a) a best)
          else dedupe_into as best)"

definition dedupe :: "proposal list \<Rightarrow> proposal list" where
  "dedupe as = sort_key (\<lambda>a. (- pr_confidence a, pr_campaign_id a)) (map snd (dedupe_into as []))"

subsection \<open>The rehearsal\<close>

definition preflight_call :: "proposal \<Rightarrow> 'w agent_context \<Rightarrow> (string \<times> json_dict \<times> string) option" where
  "preflight_call a ctx =
     (case action_type_of (pr_action_type a) of
        None \<Rightarrow> None
      | Some ty \<Rightarrow>
          (case campaign_ref_of ctx (pr_campaign_id a) of
             None \<Rightarrow> None
           | Some ref \<Rightarrow>
               let reason = or_str (take OPT_REASON_MAX (pr_reason a)) (action_type_value ty)
               in case map_of CAMPAIGN_TOOLS ty of
                    Some tool \<Rightarrow>
                      (case tool_target ctx (pr_campaign_id a) of
                         None \<Rightarrow> None
                       | Some (platform, ext) \<Rightarrow>
                           let args = [(''platform'', JStr platform), (''campaign_external_id'', JStr ext),
                                       (''reason'', JStr reason)]
                           in if ty = ADJUST_BUDGET
                              then (case budget_value (pr_after_value a) of
                                      None \<Rightarrow> None
                                    | Some b \<Rightarrow> Some (tool, args @ [(''daily_budget'', JFloat b)], ext))
                              else Some (tool, args, ext))
                  | None \<Rightarrow>
                      (case map_of CREATIVE_TOOLS ty of
                         None \<Rightarrow> None
                       | Some tool \<Rightarrow>
                           let crid = opt_str (pr_creative_id a)
                           in if crid = [] \<or> rf_platform ref = [] then None
                              else Some (tool, [(''platform'', JStr (rf_platform ref)),
                                     (''creative_external_id'', JStr crid), (''reason'', JStr reason)], crid))))"

definition preflight_record_of :: "int \<Rightarrow> proposal \<Rightarrow> string \<Rightarrow> string \<Rightarrow> 'w tool_result \<Rightarrow> preflight_record" where
  "preflight_record_of iteration a tool target r =
     \<lparr>pf_action_id = pr_id a, pf_action_type = pr_action_type a, pf_campaign_id = pr_campaign_id a,
      pf_target_id = target, pf_tool = tool, pf_iteration = iteration,
      pf_outcome = tool_outcome_value (tr_outcome r), pf_dry_run = result_dry_run r,
      pf_refused = result_refused r, pf_blocking = result_blocking r,
      pf_duration_ms = py_round 2 (tr_duration_ms r), pf_error = tr_error r\<rparr>"

definition annotate :: "proposal \<Rightarrow> string \<Rightarrow> 'w tool_result \<Rightarrow> proposal" where
  "annotate a tool r = a\<lparr>pr_preflight := Some \<lparr>vd_tool = tool, vd_outcome = tool_outcome_value (tr_outcome r),
     vd_refused = result_refused r, vd_blocking = result_blocking r, vd_error = tr_error r\<rparr>\<rparr>"

definition preflight_key :: "int \<Rightarrow> proposal \<Rightarrow> string" where
  "preflight_key iteration a = ''preflight:'' @ show_int iteration @ '':'' @ pr_id a"

text \<open>The loop of \<open>_preflight\<close>: the proposals with the annotations it wrote on them, and its records.\<close>

fun preflight_loop ::
  "'w agent_context \<Rightarrow> (nat \<Rightarrow> real \<times> real) \<Rightarrow> int \<Rightarrow> nat \<Rightarrow> proposal list \<Rightarrow> 'w executor \<Rightarrow> 'w
   \<Rightarrow> proposal list \<times> preflight_record list \<times> 'w executor \<times> 'w" where
  "preflight_loop ctx clock iteration attempted [] ex w = ([], [], ex, w)"
| "preflight_loop ctx clock iteration attempted (a # as) ex w =
     (if attempted \<ge> MAX_PREFLIGHTS_PER_ITERATION then (a # as, [], ex, w)
      else case preflight_call a ctx of
             None \<Rightarrow>
               (case preflight_loop ctx clock iteration attempted as ex w of
                  (as', rs, ex', w') \<Rightarrow> (a # as', rs, ex', w'))
           | Some (tool, args, target) \<Rightarrow>
               (case agent_call_tool ctx (clock attempted) tool args AGENT_OPTIMIZE (preflight_key iteration a) ex w of
                  (None, ex1, w1) \<Rightarrow>
                    (case preflight_loop ctx clock iteration (attempted + 1) as ex1 w1 of
                       (as', rs, ex', w') \<Rightarrow> (a # as', rs, ex', w'))
                | (Some r, ex1, w1) \<Rightarrow>
                    (case preflight_loop ctx clock iteration (attempted + 1) as ex1 w1 of
                       (as', rs, ex', w') \<Rightarrow>
                         (annotate a tool r # as', preflight_record_of iteration a tool target r # rs, ex', w'))))"

definition preflight ::
  "'w agent_context \<Rightarrow> (nat \<Rightarrow> real \<times> real) \<Rightarrow> int \<Rightarrow> proposal list \<Rightarrow> 'w executor \<Rightarrow> 'w
   \<Rightarrow> proposal list \<times> preflight_record list \<times> 'w executor \<times> 'w" where
  "preflight ctx clock iteration as ex w =
     (if \<not> tools_enabled ctx then (as, [], ex, w) else preflight_loop ctx clock iteration 0 as ex w)"

subsection \<open>The step\<close>

definition should_complete :: "int \<Rightarrow> agent_state \<Rightarrow> alert_dict list \<Rightarrow> proposal list \<Rightarrow> bool" where
  "should_complete iteration s alerts actions =
     (let max_iterations = (if st_max_iterations s = 0 then 3 else st_max_iterations s)
      in if iteration \<ge> max_iterations then True else if alerts = [] then True else actions = [])"

definition delta_dict :: "budget_delta \<Rightarrow> json_dict" where
  "delta_dict d =
     [(''campaigns'', JInt (int (bd_campaigns d))), (''current_total'', JFloat (Fin (bd_current_total d))),
      (''recommended_total'', JFloat (Fin (bd_recommended_total d))), (''net_delta'', JFloat (Fin (bd_net_delta d))),
      (''increased'', JInt (int (bd_increased d))), (''decreased'', JInt (int (bd_decreased d))),
      (''unchanged'', JInt (int (bd_unchanged d)))]"

definition optimize_message :: "proposal list \<Rightarrow> allocation list \<Rightarrow> int \<Rightarrow> preflight_record list \<Rightarrow> message" where
  "optimize_message actions allocations iteration preflights =
     (let counts = count_by pr_action_type actions;
          breakdown = or_str (join_with '', '' (map (\<lambda>(ty, n). show_nat n @ '' '' @ ty) (sort counts))) ''none'';
          delta = total_delta allocations;
          rehearsed = length preflights;
          blocked = length (filter pf_blocking preflights);
          rehearsal = (if rehearsed \<noteq> 0
            then '' Rehearsed '' @ show_nat rehearsed @ '' write proposal(s) against the tool layer; ''
                 @ show_nat blocked @ '' came back blocked.''
            else [])
      in message_with AGENT_OPTIMIZE
           (''Iteration '' @ show_int iteration @ '' proposed '' @ show_nat (length actions) @ '' action(s): ''
            @ breakdown @ ''. Budget plan moves '' @ fmt_signed 2 (bd_net_delta delta) @ '' across ''
            @ show_nat (bd_campaigns delta) @ '' campaign(s).'' @ rehearsal) iteration
           [(''action_counts'', JDict (map (\<lambda>(ty, n). (ty, JInt (int n))) counts)),
            (''budget_delta'', JDict (delta_dict delta)),
            (''preflights'', JDict [(''attempted'', JInt (int rehearsed)), (''blocked'', JInt (int blocked))])])"

definition plan_budgets ::
  "lp_solver \<Rightarrow> snapshot list \<Rightarrow> decision list \<Rightarrow> 'w agent_context \<Rightarrow> (py_error, allocation list) res" where
  "plan_budgets solver snapshots decisions ctx =
     allocate solver snapshots None (os_max_budget_change_pct (ax_optimization ctx) / 100) (ax_daily_budgets ctx)
       MIN_BUDGET_FLOOR (os_use_convex_solver (ax_optimization ctx)) (hold_at_target snapshots decisions ctx)"

definition raw_actions ::
  "agent_state \<Rightarrow> 'w agent_context \<Rightarrow> int \<Rightarrow> allocation list \<Rightarrow> proposal list" where
  "raw_actions s ctx iteration allocations =
     creative_actions (restore_snapshots (st_metrics s)) ctx iteration
     @ budget_actions allocations iteration @ bid_actions (st_bidding_decisions s) iteration
     @ alert_actions (st_alerts s) iteration @ experiment_actions (st_new_creatives s) ctx iteration"

definition optimize_run ::
  "lp_solver \<Rightarrow> (nat \<Rightarrow> string) \<Rightarrow> (nat \<Rightarrow> real \<times> real) \<Rightarrow> agent_state \<Rightarrow> 'w agent_context \<Rightarrow> 'w executor \<Rightarrow> 'w
   \<Rightarrow> (py_error, channel_update list) res \<times> 'w executor \<times> 'w" where
  "optimize_run solver ids clock s ctx ex w =
     (let iteration = st_iteration s + 1
      in case plan_budgets solver (restore_snapshots (st_metrics s)) (st_bidding_decisions s) ctx of
           Inl e \<Rightarrow> (Inl e, ex, w)
         | Inr allocations \<Rightarrow>
             (case preflight ctx clock iteration
                     (dedupe (number_ids ids 0 (raw_actions s ctx iteration allocations))) ex w of
                (actions, preflights, ex', w') \<Rightarrow>
                  (Inr [UOptimizationActions actions, UToolPreflights preflights,
                        UBudgetAllocations (map (\<lambda>a. (a, iteration)) allocations), UIteration iteration,
                        UIsComplete (should_complete iteration s (st_alerts s) actions),
                        UCurrentAgent (agent_name_value AGENT_OPTIMIZE),
                        UAgentMessages [optimize_message actions allocations iteration preflights]], ex', w')))"

subsection \<open>Deduplication\<close>

interpretation action_dedupe: keyed_best action_key "\<lambda>a. - pr_confidence a" dedupe_into
  by unfold_locales simp_all

lemma set_dedupe: "set (dedupe as) = set (map snd (dedupe_into as []))"
  by (simp add: dedupe_def)

lemma dedupe_spec:
  "distinct (map action_key (dedupe as)) \<and> set (dedupe as) \<subseteq> set as
   \<and> sorted (map (\<lambda>a. (- pr_confidence a, pr_campaign_id a)) (dedupe as))
   \<and> (\<forall>x\<in>set as. \<exists>b\<in>set (dedupe as). action_key b = action_key x \<and> pr_confidence x \<le> pr_confidence b)"
proof -
  have "mset (map action_key (dedupe as)) = mset (map action_key (map snd (dedupe_into as [])))"
    by (simp add: dedupe_def multiset.map_comp)
  then have "distinct (map action_key (dedupe as))"
    using action_dedupe.collapse_spec(1) [of as] by (metis mset_eq_imp_distinct_iff)
  moreover have "set (dedupe as) \<subseteq> set as"
    using action_dedupe.collapse_spec(2) [of as] by (simp only: set_dedupe)
  moreover have "\<exists>b\<in>set (dedupe as). action_key b = action_key x \<and> pr_confidence x \<le> pr_confidence b"
    if "x \<in> set as" for x
    using action_dedupe.collapse_spec(3) [OF that] by (simp only: set_dedupe neg_le_iff_le)
  ultimately show ?thesis by (simp add: dedupe_def)
qed

lemma set_number_ids: "a \<in> set (number_ids ids n as) \<Longrightarrow> \<exists>i. \<exists>b\<in>set as. a = b\<lparr>pr_id := ids i\<rparr>"
proof (induction as arbitrary: n)
  case (Cons b as)
  then show ?case by (cases "a = b\<lparr>pr_id := ids n\<rparr>") (auto dest!: Cons.IH)
qed simp

lemma ids_of_number_ids: "map pr_id (number_ids ids n as) = map ids [n..<n + length as]"
proof (induction as arbitrary: n)
  case (Cons b as)
  have "[n..<n + length (b # as)] = n # [Suc n..<Suc n + length as]" by (simp add: upt_conv_Cons del: upt_Suc)
  then show ?case by (simp only: number_ids.simps list.map Cons.IH) simp
qed simp

lemma distinct_number_ids: "inj ids \<Longrightarrow> distinct (map pr_id (number_ids ids n as))"
  by (simp add: ids_of_number_ids distinct_map inj_on_def inj_def)

subsection \<open>The fields of a proposal\<close>

lemma new_action_sel [simp]:
  "pr_urgency (new_action ty cid r c it) = Some 0" "pr_status (new_action ty cid r c it) = ''proposed''"
  "pr_iteration (new_action ty cid r c it) = it" "pr_preflight (new_action ty cid r c it) = None"
  "pr_confidence (new_action ty cid r c it) = py_round 3 (max 0 (min c 1))"
  "pr_action_type (new_action ty cid r c it) = action_type_value ty"
  "pr_campaign_id (new_action ty cid r c it) = cid" "pr_creative_id (new_action ty cid r c it) = None"
  "pr_reason (new_action ty cid r c it) = r" "pr_severity (new_action ty cid r c it) = []"
  by (simp_all add: new_action_def)

definition fresh_proposal :: "int \<Rightarrow> proposal \<Rightarrow> bool" where
  "fresh_proposal iteration a \<longleftrightarrow> pr_urgency a = Some 0 \<and> pr_status a = ''proposed'' \<and> pr_iteration a = iteration
     \<and> 0 \<le> pr_confidence a \<and> pr_confidence a \<le> 1"

lemma new_action_fresh: "fresh_proposal it (new_action ty cid r c it)"
  by (simp add: fresh_proposal_def py_round_nonneg py_round_le_1)

lemma raw_actions_fresh: "a \<in> set (raw_actions s ctx it as) \<Longrightarrow> fresh_proposal it a"
proof -
  have conf: "fresh_proposal it (creative_pause cid crid r it)" "fresh_proposal it (creative_proxy_pause cid r it)"
    "fresh_proposal it (budget_action it b)" "fresh_proposal it (bid_action it d)" for cid crid r b d
    using new_action_fresh
    by (simp_all add: fresh_proposal_def creative_pause_def creative_proxy_pause_def budget_action_def bid_action_def
        py_round_nonneg py_round_le_1)
  have alert: "p \<in> set (alert_action it d) \<Longrightarrow> fresh_proposal it p" for p d
    by (auto simp: alert_action_def fresh_proposal_def Let_def py_round_nonneg py_round_le_1
        split: option.splits if_splits)
  have exper: "p \<in> set (experiment_action ctx it v) \<Longrightarrow> fresh_proposal it p" for p v
    by (simp add: experiment_action_def Let_def new_action_fresh split: if_splits)
  assume "a \<in> set (raw_actions s ctx it as)"
  then consider "a \<in> set (creative_actions (restore_snapshots (st_metrics s)) ctx it)"
    | "a \<in> set (budget_actions as it)" | "a \<in> set (bid_actions (st_bidding_decisions s) it)"
    | "a \<in> set (alert_actions (st_alerts s) it)" | "a \<in> set (experiment_actions (st_new_creatives s) ctx it)"
    by (auto simp: raw_actions_def)
  then show ?thesis
  proof cases
    case 1
    then show ?thesis by (auto simp: creative_actions_def Let_def conf split_beta split: if_splits)
  qed (use conf alert exper in \<open>auto simp: budget_actions_def bid_actions_def alert_actions_def experiment_actions_def\<close>)
qed

subsection \<open>The rehearsal\<close>

definition bare :: "proposal \<Rightarrow> proposal" where
  "bare a = a\<lparr>pr_preflight := None\<rparr>"

lemma bare_annotate [simp]: "bare (annotate a tool r) = bare a"
  by (simp add: bare_def annotate_def)

lemma bare_sel:
  "pr_id (bare a) = pr_id a" "pr_confidence (bare a) = pr_confidence a" "pr_campaign_id (bare a) = pr_campaign_id a"
  "action_key (bare a) = action_key a" "dominates (bare a) = dominates a"
  "fresh_proposal it (bare a) = fresh_proposal it a" "pr_action_type (bare a) = pr_action_type a"
  by (simp_all add: bare_def action_key_def dominates_def severity_rank_of_def urgency_of_def fresh_proposal_def)

lemma annotate_record:
  "pr_id (annotate a tool r) = pf_action_id (preflight_record_of it a tool t r)"
  "is_unexecutable (annotate a tool r) = pf_blocking (preflight_record_of it a tool t r)"
  by (simp_all add: annotate_def preflight_record_of_def is_unexecutable_def)

lemma preflight_loop_facts:
  assumes "preflight_loop ctx clock it n as ex w = (as', rs, ex', w')"
  shows "map bare as' = map bare as \<and> length rs \<le> MAX_PREFLIGHTS_PER_ITERATION - n
    \<and> (\<forall>r\<in>set rs. \<exists>a\<in>set as'. pr_id a = pf_action_id r \<and> is_unexecutable a = pf_blocking r)"
  using assms
proof (induction as arbitrary: n ex w as' rs ex' w')
  case (Cons a as)
  show ?case
  proof (cases "n \<ge> MAX_PREFLIGHTS_PER_ITERATION")
    case False
    then have n: "MAX_PREFLIGHTS_PER_ITERATION - n = Suc (MAX_PREFLIGHTS_PER_ITERATION - (n + 1))" by simp
    show ?thesis
    proof (cases "preflight_call a ctx")
      case None
      obtain bs qs e v where rec: "preflight_loop ctx clock it n as ex w = (bs, qs, e, v)" by (metis prod_cases4)
      show ?thesis using Cons.prems Cons.IH [OF rec] False None rec by auto
    next
      case (Some c)
      obtain tool args target where c: "c = (tool, args, target)" by (cases c)
      obtain r e1 v1 where call: "agent_call_tool ctx (clock n) tool args AGENT_OPTIMIZE (preflight_key it a) ex w = (r, e1, v1)"
        by (metis prod_cases3)
      obtain bs qs e v where rec: "preflight_loop ctx clock it (n + 1) as e1 v1 = (bs, qs, e, v)" by (metis prod_cases4)
      show ?thesis
      proof (cases r)
        case None
        then show ?thesis using Cons.prems Cons.IH [OF rec] False Some c call rec n by auto
      next
        case (Some q)
        then have "as' = annotate a tool q # bs" "rs = preflight_record_of it a tool target q # qs"
          using Cons.prems False \<open>preflight_call a ctx = Some c\<close> c call rec by simp_all
        then show ?thesis using Cons.IH [OF rec] n annotate_record [of a tool q it target] by auto
      qed
    qed
  qed (use Cons.prems in simp)
qed simp

lemma preflight_facts:
  assumes "preflight ctx clock it as ex w = (as', rs, ex', w')"
  shows "map bare as' = map bare as" "length rs \<le> MAX_PREFLIGHTS_PER_ITERATION"
    "\<forall>r\<in>set rs. \<exists>a\<in>set as'. pr_id a = pf_action_id r \<and> is_unexecutable a = pf_blocking r"
  using assms preflight_loop_facts [of ctx clock it 0 as ex w as' rs ex' w']
  by (auto simp: preflight_def split: if_splits)

lemma preflight_call_tool:
  assumes "preflight_call a ctx = Some (tool, args, target)"
  shows "tool \<in> snd ` set CAMPAIGN_TOOLS \<union> snd ` set CREATIVE_TOOLS"
proof -
  have "\<exists>ty. map_of CAMPAIGN_TOOLS ty = Some tool \<or> map_of CREATIVE_TOOLS ty = Some tool"
    using assms by (auto simp: preflight_call_def Let_def split_beta split: option.splits if_splits)
  then obtain ty where "(ty, tool) \<in> set CAMPAIGN_TOOLS \<or> (ty, tool) \<in> set CREATIVE_TOOLS"
    using map_of_SomeD by fast
  then show ?thesis by force
qed

definition write_safe :: "'w agent_context \<Rightarrow> bool" where
  "write_safe ctx \<longleftrightarrow> (\<forall>cfg reg. ax_tools ctx = Some (cfg, reg) \<longrightarrow> \<not> ts_allow_agent_writes cfg
     \<and> (\<exists>ac. platform_registry ac = Inr reg))"

lemma platform_write_tool:
  assumes "platform_registry ac = Inr reg" "tool \<in> snd ` set CAMPAIGN_TOOLS \<union> snd ` set CREATIVE_TOOLS"
    "map_of reg tool = Some spec"
  shows "\<not> sp_read_only spec"
proof -
  have "tool \<noteq> ''platform.campaign_report''"
    using assms(2) by (auto simp: CAMPAIGN_TOOLS_def CREATIVE_TOOLS_def)
  then show ?thesis using registered_write_tool [OF assms(1,3)] by simp
qed

lemma preflight_loop_world:
  assumes "write_safe ctx"
  shows "snd (snd (snd (preflight_loop ctx clock it n as ex w))) = w"
proof (induction as arbitrary: n ex w)
  case (Cons a as)
  show ?case
  proof (cases "n \<ge> MAX_PREFLIGHTS_PER_ITERATION")
    case False
    show ?thesis
    proof (cases "preflight_call a ctx")
      case None
      then show ?thesis using Cons.IH [of n ex w] False by (simp add: split_beta)
    next
      case (Some c)
      obtain tool args target where c: "c = (tool, args, target)" by (cases c)
      obtain r e1 v1 where call: "agent_call_tool ctx (clock n) tool args AGENT_OPTIMIZE (preflight_key it a) ex w = (r, e1, v1)"
        by (metis prod_cases3)
      have "\<forall>cfg reg. ax_tools ctx = Some (cfg, reg) \<longrightarrow> \<not> ts_allow_agent_writes cfg
          \<and> (\<forall>spec. map_of reg tool = Some spec \<longrightarrow> \<not> sp_read_only spec)"
      proof (intro allI impI)
        fix cfg reg assume "ax_tools ctx = Some (cfg, reg)"
        then obtain ac where reg: "\<not> ts_allow_agent_writes cfg" "platform_registry ac = Inr reg"
          using assms by (auto simp: write_safe_def)
        show "\<not> ts_allow_agent_writes cfg \<and> (\<forall>spec. map_of reg tool = Some spec \<longrightarrow> \<not> sp_read_only spec)"
          using reg(1) platform_write_tool [OF reg(2) preflight_call_tool [OF Some [unfolded c]]] by simp
      qed
      from agent_call_world [OF this, of "clock n" args AGENT_OPTIMIZE "preflight_key it a" ex w]
      have "v1 = w" by (simp add: call)
      then show ?thesis using Cons.IH [of "n + 1" e1 v1] False Some c call
        by (cases r) (simp_all add: split_beta)
    qed
  qed simp
qed simp

lemma preflight_world: "write_safe ctx \<Longrightarrow> snd (snd (snd (preflight ctx clock it as ex w))) = w"
  by (simp add: preflight_def preflight_loop_world)

lemma budget_value_fixed:
  "0 < py_round 2 x \<Longrightarrow> budget_value (fmt_fixed 2 x) = Some (Fin (py_round 2 x))"
  by (simp add: budget_value_def replace_fmt_fixed is_digit_def parse_fmt_fixed)

lemma reason_bounds:
  "1 \<le> length (or_str (take OPT_REASON_MAX r) (action_type_value ty))"
  "length (or_str (take OPT_REASON_MAX r) (action_type_value ty)) \<le> 200"
proof -
  have "length (action_type_value ty) \<le> 200" "action_type_value ty \<noteq> []" by (cases ty; simp)+
  then show "1 \<le> length (or_str (take OPT_REASON_MAX r) (action_type_value ty))"
    "length (or_str (take OPT_REASON_MAX r) (action_type_value ty)) \<le> 200"
    by (auto simp: or_str_def OPT_REASON_MAX_def Suc_le_eq)
qed

lemma tool_target_ref: "tool_target ctx cid = Some t \<Longrightarrow> \<exists>r. campaign_ref_of ctx cid = Some r"
  by (auto simp: tool_target_def split: option.splits)

lemma budget_preflight:
  assumes "tool_target ctx (ba_campaign_id a) = Some (p, ext)" "0 < py_round 2 (ba_recommended_budget a)"
  shows "preflight_call (budget_action it a) ctx = Some (''platform.set_daily_budget'',
    [(''platform'', JStr p), (''campaign_external_id'', JStr ext),
     (''reason'', JStr (or_str (take OPT_REASON_MAX (ba_reason a)) (action_type_value ADJUST_BUDGET))),
     (''daily_budget'', JFloat (Fin (py_round 2 (ba_recommended_budget a))))], ext)"
proof -
  obtain r where r: "campaign_ref_of ctx (ba_campaign_id a) = Some r" using tool_target_ref assms(1) by blast
  have ty: "action_type_of (pr_action_type (budget_action it a)) = Some ADJUST_BUDGET"
    by (simp add: budget_action_def del: action_type_value.simps)
  have sel: "pr_campaign_id (budget_action it a) = ba_campaign_id a" "pr_reason (budget_action it a) = ba_reason a"
    "pr_after_value (budget_action it a) = fmt_fixed 2 (ba_recommended_budget a)"
    by (simp_all add: budget_action_def)
  show ?thesis
    by (simp add: preflight_call_def ty sel r assms budget_value_fixed CAMPAIGN_TOOLS_def Let_def)
qed

subsection \<open>What a run of the agent leaves\<close>

lemma plan_budgets_ok:
  assumes "\<And>sc l u t x. solver sc l u t = Some x \<Longrightarrow> length x = length l"
  shows "\<exists>as. plan_budgets solver ss ds ctx = Inr as"
  unfolding plan_budgets_def
  by (rule allocate_plan [of MIN_BUDGET_FLOOR solver])
    (use assms in \<open>auto simp: MIN_BUDGET_FLOOR_def\<close>)

lemma optimize_run_cases:
  assumes "plan_budgets solver (restore_snapshots (st_metrics s)) (st_bidding_decisions s) ctx = Inr allocs"
    and "preflight ctx clock (st_iteration s + 1)
      (dedupe (number_ids ids 0 (raw_actions s ctx (st_iteration s + 1) allocs))) ex w = (as, rs, ex', w')"
  obtains us where "optimize_run solver ids clock s ctx ex w = (Inr us, ex', w')"
    "st_optimization_actions (apply_update us s) = st_optimization_actions s @ as"
    "st_tool_preflights (apply_update us s) = st_tool_preflights s @ rs"
    "st_iteration (apply_update us s) = st_iteration s + 1"
    "st_is_complete (apply_update us s) = should_complete (st_iteration s + 1) s (st_alerts s) as"
    "st_max_iterations (apply_update us s) = st_max_iterations s"
    "st_budget_allocations (apply_update us s) = map (\<lambda>a. (a, st_iteration s + 1)) allocs"
  using that [of "[UOptimizationActions as, UToolPreflights rs,
      UBudgetAllocations (map (\<lambda>a. (a, st_iteration s + 1)) allocs), UIteration (st_iteration s + 1),
      UIsComplete (should_complete (st_iteration s + 1) s (st_alerts s) as),
      UCurrentAgent (agent_name_value AGENT_OPTIMIZE),
      UAgentMessages [optimize_message as allocs (st_iteration s + 1) rs]]"]
  by (simp add: optimize_run_def Let_def assms apply_update_def append_list_def replace_list_def max_int_def)

lemma proposals_of_run:
  assumes "preflight ctx clock it (dedupe (number_ids ids 0 (raw_actions s ctx it allocs))) ex w = (as, rs, ex', w')"
    and "inj ids"
  shows "distinct (map action_key as)" "distinct (map pr_id as)"
    "sorted (map (\<lambda>a. (- pr_confidence a, pr_campaign_id a)) as)"
    "\<forall>a\<in>set as. fresh_proposal it a"
proof -
  let ?ns = "number_ids ids 0 (raw_actions s ctx it allocs)"
  have bare: "map bare as = map bare (dedupe ?ns)" by (rule preflight_facts(1) [OF assms(1)])
  have via: "map f as = map f (dedupe ?ns)" if "\<And>a. f (bare a) = f a" for f :: "proposal \<Rightarrow> 'z"
  proof -
    have "map f xs = map f (map bare xs)" for xs using that by simp
    then show ?thesis using bare by metis
  qed
  show "distinct (map action_key as)"
    using dedupe_spec [of ?ns] by (simp add: via bare_sel)
  have sub: "set (dedupe ?ns) \<subseteq> set ?ns" using dedupe_spec by blast
  have ids: "distinct (map pr_id ?ns)" by (rule distinct_number_ids [OF assms(2)])
  have "distinct (dedupe ?ns)" using dedupe_spec [of ?ns] by (simp add: distinct_map)
  moreover have "inj_on pr_id (set (dedupe ?ns))" using ids sub by (meson distinct_map inj_on_subset)
  ultimately show "distinct (map pr_id as)" by (simp add: via bare_sel distinct_map)
  show "sorted (map (\<lambda>a. (- pr_confidence a, pr_campaign_id a)) as)"
    using dedupe_spec [of ?ns] by (simp add: via bare_sel)
  have "fresh_proposal it a" if "a \<in> set ?ns" for a
    using set_number_ids [OF that] raw_actions_fresh by (fastforce simp: fresh_proposal_def)
  then have "list_all (fresh_proposal it) (dedupe ?ns)" using sub by (auto simp: list_all_iff)
  moreover have "map (fresh_proposal it) as = map (fresh_proposal it) (dedupe ?ns)" by (rule via) (simp add: bare_sel)
  ultimately show "\<forall>a\<in>set as. fresh_proposal it a"
    by (metis (no_types, lifting) imageE imageI list.set_map list_all_iff)
qed

subsection \<open>Properties\<close>

text \<open>
  C6. An iteration queues each intent once: whatever the upstream agents found, the optimizer returns,
  advances the iteration by one and appends proposals with pairwise distinct (campaign, creative,
  type) and pairwise distinct ids, strongest first, every one in the state \<open>proposed\<close>, stamped with
  the new iteration and with a confidence between 0 and 1.
\<close>

theorem optimizer_queues_each_intent_once:
  assumes "\<forall>sc l u t x. solver sc l u t = Some x \<longrightarrow> length x = length l" and "inj ids"
  shows "\<exists>us ex' w' as. optimize_run solver ids clock s ctx ex w = (Inr us, ex', w')
    \<and> st_optimization_actions (apply_update us s) = st_optimization_actions s @ as
    \<and> st_iteration (apply_update us s) = st_iteration s + 1
    \<and> distinct (map action_key as) \<and> distinct (map pr_id as)
    \<and> sorted (map (\<lambda>a. (- pr_confidence a, pr_campaign_id a)) as)
    \<and> (\<forall>a\<in>set as. pr_status a = ''proposed'' \<and> pr_iteration a = st_iteration s + 1
          \<and> 0 \<le> pr_confidence a \<and> pr_confidence a \<le> 1)"
proof -
  obtain allocs where plan: "plan_budgets solver (restore_snapshots (st_metrics s)) (st_bidding_decisions s) ctx = Inr allocs"
    using plan_budgets_ok [of solver] assms(1) by blast
  obtain as rs ex' w' where pre: "preflight ctx clock (st_iteration s + 1)
      (dedupe (number_ids ids 0 (raw_actions s ctx (st_iteration s + 1) allocs))) ex w = (as, rs, ex', w')"
    by (metis prod_cases4)
  obtain us where us: "optimize_run solver ids clock s ctx ex w = (Inr us, ex', w')"
    "st_optimization_actions (apply_update us s) = st_optimization_actions s @ as"
    "st_iteration (apply_update us s) = st_iteration s + 1"
    by (rule optimize_run_cases [OF plan pre])
  show ?thesis using us proposals_of_run [OF pre assms(2)] by (auto simp: fresh_proposal_def)
qed

theorem optimizer_queues_each_intent_once_witness:
  "\<exists>us ex' w' as. optimize_run (\<lambda>_ _ _ _. None) (\<lambda>n. replicate n (CHR ''x'')) (\<lambda>_. (0, 1))
       (initial_state ''r'' [] 3 7) example_context (new_executor :: unit executor) () = (Inr us, ex', w')
    \<and> st_optimization_actions (apply_update us (initial_state ''r'' [] 3 7)) = as
    \<and> st_iteration (apply_update us (initial_state ''r'' [] 3 7)) = 1 \<and> distinct (map pr_id as)"
proof -
  have "inj (\<lambda>n. replicate n (CHR ''x''))" by (rule injI) (metis length_replicate)
  then show ?thesis
    using optimizer_queues_each_intent_once [of "\<lambda>_ _ _ _. None" "\<lambda>n. replicate n (CHR ''x'')" "\<lambda>_. (0, 1)"
        "initial_state ''r'' [] 3 7" example_context new_executor "()"]
    by (auto simp: initial_state_def)
qed

text \<open>
  The severity of an alert never decides for the optimizer's own proposals: each is queued with an
  urgency of exactly zero, critical alerts included, because the urgency the alert carries is not
  passed on; so none of them dominates, and when the critic weighs two of them the one with more
  confidence wins.
\<close>

theorem optimizer_proposals_carry_no_urgency:
  assumes "inj ids"
    and "preflight ctx clock it (dedupe (number_ids ids 0 (raw_actions s ctx it allocs))) ex w = (as, rs, ex', w')"
    and "a \<in> set as" "b \<in> set as"
  shows "pr_urgency a = Some 0 \<and> \<not> dominates a \<and> (outranks a b \<longleftrightarrow> pr_confidence a > pr_confidence b)"
proof -
  have "pr_urgency x = Some 0 \<and> \<not> dominates x" if "x \<in> set as" for x
  proof -
    have "pr_urgency x = Some 0"
      using proposals_of_run(4) [OF assms(2,1)] that by (auto simp: fresh_proposal_def)
    then show ?thesis by (simp add: dominates_def urgency_of_def CRITICAL_LINE_def DOMINANCE_MARGIN_def)
  qed
  then show ?thesis using assms(3,4) by (simp add: outranks_def)
qed

definition critical_burn_alert :: "string \<Rightarrow> alert_dict" where
  "critical_burn_alert cid =
     \<lparr>ad_campaign_id = cid, ad_rule = ''burn_rate'', ad_severity = ''critical'', ad_observed = Some 6,
      ad_threshold = 5 / 4, ad_urgency = 19 / 5, ad_message = ''overspending'', ad_dedup_key = cid @ '':burn_rate'',
      ad_context = [], ad_detected_at = Aware 0\<rparr>"

definition alerted_state :: agent_state where
  "alerted_state = (initial_state ''r'' [] 3 7)\<lparr>st_alerts := [critical_burn_alert ''a'']\<rparr>"

lemma untooled: "\<not> tools_enabled example_context"
  by (simp add: tools_enabled_def example_context_def)

lemma alerted_actions:
  "raw_actions alerted_state (example_context :: unit agent_context) 1 [] =
     [(new_action PAUSE_CAMPAIGN ''a'' ''Alert burn_rate: overspending'' 0.9 1)
        \<lparr>pr_before_value := ''active'', pr_after_value := ''paused'', pr_severity := ''critical''\<rparr>]"
proof -
  have rule: "alert_rule_of ''burn_rate'' = Some BURN_RATE" using alert_rule_of_value [of BURN_RATE] by simp
  have "alert_action 1 (critical_burn_alert ''a'') = [(new_action PAUSE_CAMPAIGN ''a'' ''Alert burn_rate: overspending'' 0.9 1)
        \<lparr>pr_before_value := ''active'', pr_after_value := ''paused'', pr_severity := ''critical''\<rparr>]"
    by (simp add: alert_action_def critical_burn_alert_def rule PAUSE_RULES_def alert_confidence_def)
  then show ?thesis
    by (simp add: raw_actions_def alerted_state_def initial_state_def creative_actions_def example_context_def
        budget_actions_def bid_actions_def alert_actions_def experiment_actions_def)
qed

theorem optimizer_proposals_carry_no_urgency_witness:
  "\<exists>as. fst (preflight (example_context :: unit agent_context) (\<lambda>_. (0, 1)) 1
       (dedupe (number_ids (\<lambda>n. replicate n (CHR ''x'')) 0 (raw_actions alerted_state (example_context :: unit agent_context) 1 []))) new_executor ()) = as
    \<and> (\<exists>a\<in>set as. pr_severity a = ''critical'' \<and> pr_urgency a = Some 0 \<and> \<not> dominates a)"
proof -
  have inj: "inj (\<lambda>n. replicate n (CHR ''x''))" by (rule injI) (metis length_replicate)
  obtain as rs ex' w' where pre: "preflight (example_context :: unit agent_context) (\<lambda>_. (0, 1)) 1
      (dedupe (number_ids (\<lambda>n. replicate n (CHR ''x'')) 0 (raw_actions alerted_state (example_context :: unit agent_context) 1 []))) new_executor ()
      = (as, rs, ex', w')" by (metis prod_cases4)
  then have "as = dedupe (number_ids (\<lambda>n. replicate n (CHR ''x'')) 0
      (raw_actions alerted_state (example_context :: unit agent_context) 1 []))"
    by (auto simp: preflight_def untooled)
  then obtain a where a: "a \<in> set as" "pr_severity a = ''critical''"
    by (simp add: alerted_actions dedupe_def)
  then show ?thesis using optimizer_proposals_carry_no_urgency [OF inj pre a(1) a(1)] pre by auto
qed

text \<open>
  Rehearsing proposals spends nothing: with the platform catalogue registered and agent writes not
  allowed, an iteration of the optimizer leaves the outside world as it found it, records at most 25
  rehearsals, and every recorded rehearsal is written on its proposal with the same blocking verdict.
\<close>

theorem rehearsal_never_writes:
  assumes "write_safe ctx"
    and "optimize_run solver ids clock s ctx ex w = (Inr us, ex', w')"
  shows "w' = w \<and> (\<exists>as rs. st_optimization_actions (apply_update us s) = st_optimization_actions s @ as
    \<and> st_tool_preflights (apply_update us s) = st_tool_preflights s @ rs \<and> length rs \<le> 25
    \<and> (\<forall>r\<in>set rs. \<exists>a\<in>set as. pr_id a = pf_action_id r \<and> is_unexecutable a = pf_blocking r))"
proof -
  obtain allocs where plan: "plan_budgets solver (restore_snapshots (st_metrics s)) (st_bidding_decisions s) ctx = Inr allocs"
    using assms(2) by (auto simp: optimize_run_def Let_def split: sum.splits)
  obtain as rs e v where pre: "preflight ctx clock (st_iteration s + 1)
      (dedupe (number_ids ids 0 (raw_actions s ctx (st_iteration s + 1) allocs))) ex w = (as, rs, e, v)"
    by (metis prod_cases4)
  obtain vs where vs: "optimize_run solver ids clock s ctx ex w = (Inr vs, e, v)"
    "st_optimization_actions (apply_update vs s) = st_optimization_actions s @ as"
    "st_tool_preflights (apply_update vs s) = st_tool_preflights s @ rs"
    by (rule optimize_run_cases [OF plan pre])
  have "v = w" using preflight_world [OF assms(1)] pre by (metis snd_conv)
  moreover have "us = vs" "w' = v" using vs(1) assms(2) by simp_all
  ultimately show ?thesis using vs preflight_facts [OF pre] by (auto simp: MAX_PREFLIGHTS_PER_ITERATION_def)
qed

definition rehearsing_context :: "real list agent_context" where
  "rehearsing_context = example_context\<lparr>ax_tools := Some (\<lparr>ts_enabled = True, ts_dry_run = False,
     ts_allow_agent_writes = False, ts_max_calls_per_run = 60\<rparr>,
     map (\<lambda>t. (sp_name t, t)) (build_platform_tools recording_clients)),
     ax_campaign_refs := [(''a'', \<lparr>rf_platform = ''meta'', rf_external_id = ''x1'', rf_name = [], rf_status = []\<rparr>)]\<rparr>"

theorem rehearsal_never_writes_witness:
  "\<exists>us ex'. optimize_run (\<lambda>_ _ _ _. None) (\<lambda>n. []) (\<lambda>_. (0, 1)) alerted_state rehearsing_context new_executor [1]
     = (Inr us, ex', [1])"
proof -
  have "write_safe rehearsing_context"
    using platform_registry_eq [of recording_clients] by (auto simp: write_safe_def rehearsing_context_def)
  moreover obtain allocs where "plan_budgets (\<lambda>_ _ _ _. None) (restore_snapshots (st_metrics alerted_state))
      (st_bidding_decisions alerted_state) rehearsing_context = Inr allocs"
    using plan_budgets_ok [of "\<lambda>_ _ _ _. None"] by blast
  moreover from this obtain us ex' w' where "optimize_run (\<lambda>_ _ _ _. None) (\<lambda>n. []) (\<lambda>_. (0, 1)) alerted_state
      rehearsing_context new_executor [1] = (Inr us, ex', w')"
    by (metis optimize_run_cases prod_cases4)
  ultimately show ?thesis using rehearsal_never_writes by metis
qed

text \<open>
  The budget that is rehearsed is the budget that is proposed: for a campaign with network
  coordinates the rehearsal of a budget proposal calls the budget tool with exactly the recommended
  amount in cents, read back from the text of the proposal, and when the network is known, its id is
  not too long and the amount is at most ten million, the tool accepts the arguments.
\<close>

theorem budget_rehearsal_faithful:
  assumes "tool_target ctx (ba_campaign_id a) = Some (p, ext)" "0 < py_round 2 (ba_recommended_budget a)"
  shows "\<exists>args. preflight_call (budget_action it a) ctx = Some (''platform.set_daily_budget'', args, ext)
    \<and> map_of args ''daily_budget'' = Some (JFloat (Fin (py_round 2 (ba_recommended_budget a))))
    \<and> (platform_of p \<noteq> None \<and> length ext \<le> 120 \<and> py_round 2 (ba_recommended_budget a) \<le> 10000000
        \<longrightarrow> (\<exists>v. validate_args SetDailyBudgetArgs args = Inr v \<and> map_of v ''daily_budget'' = map_of args ''daily_budget''))"
proof -
  have ext: "ext \<noteq> []" using assms(1) by (auto simp: tool_target_def split: option.splits if_splits)
  let ?b = "py_round 2 (ba_recommended_budget a)"
  define r where "r = or_str (take OPT_REASON_MAX (ba_reason a)) (action_type_value ADJUST_BUDGET)"
  have r: "1 \<le> length r" "length r \<le> 200" using reason_bounds by (simp_all only: r_def)
  let ?args = "[(''platform'', JStr p), (''campaign_external_id'', JStr ext), (''reason'', JStr r), (''daily_budget'', JFloat (Fin ?b))]"
  have call: "preflight_call (budget_action it a) ctx = Some (''platform.set_daily_budget'', ?args, ext)"
    using budget_preflight [OF assms] by (simp only: r_def)
  have "\<exists>v. validate_args SetDailyBudgetArgs ?args = Inr v \<and> map_of v ''daily_budget'' = Some (JFloat (Fin ?b))"
    if "platform_of p \<noteq> None" "length ext \<le> 120" "?b \<le> 10000000"
  proof -
    have "platform_field (Some (JStr p)) = Inr (JStr p)" using that(1) by (auto simp: platform_field_def)
    moreover have "str_field 1 EXTERNAL_ID_MAX (Some (JStr ext)) = Inr (JStr ext)"
      using that(2) ext by (simp add: str_field_def EXTERNAL_ID_MAX_def)
    moreover have "str_field 1 REASON_MAX (Some (JStr r)) = Inr (JStr r)"
      using r by (auto simp: str_field_def REASON_MAX_def)
    moreover have "budget_field (Some (JFloat (Fin ?b))) = Inr (JFloat (Fin ?b))"
      using that(3) assms(2) by (simp add: budget_field_def)
    ultimately show ?thesis by (simp add: validate_args_def SetDailyBudgetArgs_def)
  qed
  then show ?thesis unfolding call by simp
qed

theorem budget_rehearsal_faithful_witness:
  "\<exists>args. preflight_call (budget_action 1 \<lparr>ba_campaign_id = ''a'', ba_campaign_name = [], ba_current_budget = 10,
       ba_recommended_budget = 12, ba_score = 1, ba_change_pct = 20, ba_reason = [], ba_solver = []\<rparr>) rehearsing_context
     = Some (''platform.set_daily_budget'', args, ''x1'')
    \<and> map_of args ''daily_budget'' = Some (JFloat (Fin 12))"
  using budget_rehearsal_faithful [of rehearsing_context "\<lparr>ba_campaign_id = ''a'', ba_campaign_name = [], ba_current_budget = 10,
       ba_recommended_budget = 12, ba_score = 1, ba_change_pct = 20, ba_reason = [], ba_solver = []\<rparr>" "''meta''" "''x1''" 1]
  by (auto simp: tool_target_def campaign_ref_of_def rehearsing_context_def)

text \<open>
  A campaign the run wants to spend more on is not cut in the same run: if the bidding agent raised
  its bid by at least the threshold and it meets its own ROAS target, then, as long as holding all such
  campaigns at their budgets leaves the allocator headroom, no allocation lowers its budget.
\<close>

theorem raised_campaign_budget_not_cut:
  assumes "\<forall>sc l u t x. solver sc l u t = Some x \<longrightarrow> length x = length l"
    and "p = budget_problem_of ss None (os_max_budget_change_pct (ax_optimization ctx) / 100)
           (ax_daily_budgets ctx) MIN_BUDGET_FLOOR"
    and "headroom (pin_lower (bp_current p) (held_indices (bp_ids p) (hold_at_target ss ds ctx)) (bp_lower p))
           (bp_upper p) (bp_requested p) = Inr h" and "0 < h"
    and "d \<in> set ds" "BID_MOVE_THRESHOLD \<le> multiplier_of d - 1"
    and "x \<in> set ss" "campaign_id x = dc_campaign_id d"
      "0 < target_roas_of ctx (campaign_id x)" "target_roas_of ctx (campaign_id x) \<le> roas x"
  shows "\<exists>as. plan_budgets solver ss ds ctx = Inr as
    \<and> (\<forall>a\<in>set as. ba_campaign_id a = dc_campaign_id d \<longrightarrow> ba_current_budget a \<le> ba_recommended_budget a)"
proof -
  have "campaign_id x \<in> raising_bid_ids ds" using assms(5,6,8) by (auto simp: raising_bid_ids_def)
  then have "dc_campaign_id d \<in> hold_at_target ss ds ctx"
    using assms(7-10) by (force simp: hold_at_target_def)
  moreover obtain as where "plan_budgets solver ss ds ctx = Inr as"
    "\<forall>a\<in>set as. ba_campaign_id a \<in> hold_at_target ss ds ctx \<longrightarrow> ba_current_budget a \<le> ba_recommended_budget a"
    using allocate_keeps_holds [OF _ assms(1-4), where cross = "os_use_convex_solver (ax_optimization ctx)"]
    by (auto simp: plan_budgets_def MIN_BUDGET_FLOOR_def)
  ultimately show ?thesis by auto
qed

definition raised_decision :: "string \<Rightarrow> decision" where
  "raised_decision cid = \<lparr>dc_campaign_id = cid, dc_campaign_name = [], dc_bid_cpm = 2, dc_max_cpc = 1, dc_ecpm = 2,
     dc_predicted_ctr = 1 / 10, dc_predicted_cvr = 1 / 10, dc_multiplier = 6 / 5, dc_confidence = 49 / 50,
     dc_reasoning = [], dc_iteration = 1, dc_observed_roas = 3, dc_target_roas = 2\<rparr>"

theorem raised_campaign_budget_not_cut_witness:
  "\<exists>as. plan_budgets (\<lambda>_ _ _ _. None) [plain_snapshot ''a'' 1000 50 5 100 300, plain_snapshot ''b'' 1000 10 1 50 10]
       [raised_decision ''a''] (example_context :: unit agent_context) = Inr as
    \<and> (\<forall>a\<in>set as. ba_campaign_id a = ''a'' \<longrightarrow> ba_current_budget a \<le> ba_recommended_budget a)"
proof -
  let ?ss = "[plain_snapshot ''a'' 1000 50 5 100 300, plain_snapshot ''b'' 1000 10 1 50 10]"
  let ?ctx = "example_context :: unit agent_context" and ?d = "raised_decision ''a''"
  have mult: "multiplier_of ?d = 6 / 5" by (simp add: multiplier_of_def raised_decision_def)
  have cid: "dc_campaign_id ?d = ''a''" by (simp add: raised_decision_def)
  have target: "target_roas_of ?ctx cid = 2" for cid
    by (simp add: target_roas_of_def example_context_def default_optimization_settings_def)
  have held: "hold_at_target ?ss [?d] ?ctx = {''a''}"
    by (simp add: hold_at_target_def raising_bid_ids_def mult cid target BID_MOVE_THRESHOLD_def roas_def safe_ratio_def)
  define p where "p = budget_problem_of ?ss None (os_max_budget_change_pct (ax_optimization ?ctx) / 100)
      (ax_daily_budgets ?ctx) MIN_BUDGET_FLOOR"
  have "headroom (pin_lower (bp_current p) (held_indices (bp_ids p) {''a''}) (bp_lower p)) (bp_upper p) (bp_requested p) = Inr 25"
    unfolding p_def
    by (simp add: budget_problem_of_def baseline_def dict_get_def headroom_def clamp_def pin_lower_def
        held_indices_def clamp_ok_def upt_rec MIN_BUDGET_FLOOR_def example_context_def default_optimization_settings_def)
  then have "\<exists>as. plan_budgets (\<lambda>_ _ _ _. None) ?ss [?d] ?ctx = Inr as
      \<and> (\<forall>a\<in>set as. ba_campaign_id a = dc_campaign_id ?d \<longrightarrow> ba_current_budget a \<le> ba_recommended_budget a)"
    by (intro raised_campaign_budget_not_cut [where p = p and h = 25 and x = "plain_snapshot ''a'' 1000 50 5 100 300"])
      (simp_all add: p_def held cid mult target BID_MOVE_THRESHOLD_def roas_def safe_ratio_def)
  then show ?thesis by (simp only: cid)
qed

end
