(* ===== verification/Events.thy ===== *)
theory Events
  imports Json Errors Enums
begin

text \<open>
  \<open>orchestrator/events.py\<close>: the event bus of a run. A publisher allocates a sequence number, remembers
  the event, persists it and fans it out to the bounded queue of every subscriber of the run; a stream
  replays the remembered events and then follows its queue.

  \<open>publish\<close> suspends once, while the sink persists, so it is split there: \<open>publish_begin\<close> and
  \<open>publish_finish\<close> each run without interruption, and \<open>bus_step\<close> interleaves them. What the sink raises
  is swallowed by the code, so a call of the sink is only recorded. The two fields of an event that
  nothing on the bus reads, its ULID and its timestamp, are left out.

  The locale \<open>bounded_buffer\<close> states the contract the history of a run and a subscriber's queue share.
\<close>

definition DEFAULT_QUEUE_SIZE :: int where "DEFAULT_QUEUE_SIZE = 512"
definition HISTORY_LIMIT :: nat where "HISTORY_LIMIT = 2000"

record agent_event =
  ev_run_id :: string
  ev_seq :: int
  ev_type :: string
  ev_agent :: string
  ev_payload :: json_dict

definition TERMINAL_EVENTS :: "string list" where
  "TERMINAL_EVENTS = [''run.succeeded'', ''run.failed'', ''run.cancelled'']"

definition terminal_event :: "agent_event \<Rightarrow> bool" where
  "terminal_event e = (ev_type e \<in> set TERMINAL_EVENTS)"

definition heartbeat :: "string \<Rightarrow> agent_event" where
  "heartbeat run = \<lparr>ev_run_id = run, ev_seq = - 1, ev_type = ''heartbeat'', ev_agent = ''supervisor'', ev_payload = []\<rparr>"

text \<open>A queue holds events and the end-of-run sentinel \<open>None\<close>; \<open>maxsize \<le> 0\<close> means unbounded.\<close>

type_synonym event_queue = "agent_event option list"

record event_bus =
  eb_queue_size :: int
  eb_subscribers :: "(string, event_queue) dict"
  eb_counters :: "(string, int) dict"
  eb_history :: "(string, agent_event list) dict"
  eb_persisted :: "agent_event list"
  eb_forgotten :: "string list"

definition new_bus :: "int \<Rightarrow> event_bus" where
  "new_bus n = \<lparr>eb_queue_size = n, eb_subscribers = [], eb_counters = [], eb_history = [],
     eb_persisted = [], eb_forgotten = []\<rparr>"

definition counter_of :: "event_bus \<Rightarrow> string \<Rightarrow> int" where
  "counter_of b run = (case map_of (eb_counters b) run of None \<Rightarrow> 0 | Some n \<Rightarrow> n)"

definition history_of :: "event_bus \<Rightarrow> string \<Rightarrow> agent_event list" where
  "history_of b run = (case map_of (eb_history b) run of None \<Rightarrow> [] | Some h \<Rightarrow> h)"

definition next_seq :: "string \<Rightarrow> event_bus \<Rightarrow> int \<times> event_bus" where
  "next_seq run b =
     (let current = counter_of b run + 1
      in (current, b\<lparr>eb_counters := AList.update run current (eb_counters b)\<rparr>))"

subsection \<open>Queues\<close>

definition queue_full :: "int \<Rightarrow> 'a list \<Rightarrow> bool" where
  "queue_full n q = (0 < n \<and> n \<le> int (length q))"

definition put_nowait :: "int \<Rightarrow> 'a \<Rightarrow> 'a list \<Rightarrow> (py_error, 'a list) res" where
  "put_nowait n x q = (if queue_full n q then Inl QueueFull else Inr (q @ [x]))"

definition drop_oldest :: "'a list \<Rightarrow> 'a list" where
  "drop_oldest q = tl q"

definition offer :: "int \<Rightarrow> 'a \<Rightarrow> 'a list \<Rightarrow> 'a list" where
  "offer n x q =
     (case put_nowait n x q of
        Inr q' \<Rightarrow> q'
      | Inl _ \<Rightarrow> (case put_nowait n x (drop_oldest q) of Inr q' \<Rightarrow> q' | Inl _ \<Rightarrow> drop_oldest q))"

definition remember :: "'a \<Rightarrow> 'a list \<Rightarrow> 'a list" where
  "remember e h = (let h' = h @ [e] in if length h' > HISTORY_LIMIT then drop (length h' - HISTORY_LIMIT) h' else h')"

definition listens :: "string \<Rightarrow> string \<Rightarrow> bool" where
  "listens run sid = (take (length run + 1) sid = run @ '':'')"

subsection \<open>The operations of the bus\<close>

definition publish_begin :: "string \<Rightarrow> string \<Rightarrow> string \<Rightarrow> json_dict \<Rightarrow> event_bus \<Rightarrow> agent_event \<times> event_bus" where
  "publish_begin run ty agent payload b =
     (case next_seq run b of (n, b1) \<Rightarrow>
        let e = \<lparr>ev_run_id = run, ev_seq = n, ev_type = ty, ev_agent = agent, ev_payload = payload\<rparr>
        in (e, b1\<lparr>eb_history := AList.update run (remember e (history_of b1 run)) (eb_history b1)\<rparr>))"

definition fan_out :: "agent_event \<Rightarrow> int \<Rightarrow> (string, event_queue) dict \<Rightarrow> (string, event_queue) dict" where
  "fan_out e n subs = map (\<lambda>(sid, q). (sid, if listens (ev_run_id e) sid then offer n (Some e) q else q)) subs"

definition publish_finish :: "agent_event \<Rightarrow> event_bus \<Rightarrow> event_bus" where
  "publish_finish e b =
     b\<lparr>eb_persisted := eb_persisted b @ [e],
       eb_subscribers := fan_out e (eb_queue_size b) (eb_subscribers b)\<rparr>"

definition publish :: "string \<Rightarrow> string \<Rightarrow> string \<Rightarrow> json_dict \<Rightarrow> event_bus \<Rightarrow> agent_event \<times> event_bus" where
  "publish run ty agent payload b =
     (case publish_begin run ty agent payload b of (e, b1) \<Rightarrow> (e, publish_finish e b1))"

definition subscribe :: "string \<Rightarrow> string \<Rightarrow> event_bus \<Rightarrow> string \<times> event_bus" where
  "subscribe run token b =
     (let sid = run @ '':'' @ token
      in (sid, b\<lparr>eb_subscribers := AList.update sid [] (eb_subscribers b)\<rparr>))"

definition unsubscribe :: "string \<Rightarrow> event_bus \<Rightarrow> event_bus" where
  "unsubscribe sid b = b\<lparr>eb_subscribers := AList.delete sid (eb_subscribers b)\<rparr>"

definition replay :: "string \<Rightarrow> int \<Rightarrow> event_bus \<Rightarrow> agent_event list" where
  "replay run after_seq b = filter (\<lambda>e. ev_seq e > after_seq) (history_of b run)"

text \<open>\<open>close_run\<close>: a full queue raises out of the loop, so nothing after it runs.\<close>

fun close_queues :: "string \<Rightarrow> int \<Rightarrow> (string, event_queue) dict \<Rightarrow> (string, event_queue) dict \<times> py_error option" where
  "close_queues run n [] = ([], None)"
| "close_queues run n ((sid, q) # subs) =
     (if \<not> listens run sid
      then (case close_queues run n subs of (subs', err) \<Rightarrow> ((sid, q) # subs', err))
      else case put_nowait n None q of
             Inl e \<Rightarrow> ((sid, q) # subs, Some e)
           | Inr q' \<Rightarrow> (case close_queues run n subs of (subs', err) \<Rightarrow> ((sid, q') # subs', err)))"

definition close_run :: "string \<Rightarrow> event_bus \<Rightarrow> (py_error, unit) res \<times> event_bus" where
  "close_run run b =
     (case close_queues run (eb_queue_size b) (eb_subscribers b) of (subs, err) \<Rightarrow>
        let b1 = b\<lparr>eb_subscribers := subs\<rparr>
        in case err of
             Some e \<Rightarrow> (Inl e, b1)
           | None \<Rightarrow> (Inr (), b1\<lparr>eb_history := AList.delete run (eb_history b),
                             eb_counters := AList.delete run (eb_counters b),
                             eb_forgotten := eb_forgotten b @ [run]\<rparr>))"

subsection \<open>A stream\<close>

text \<open>
  What a stream yields, from the events it replays and from the answers of its successive waits on the
  queue: an item, or a timeout. A stream that ran out of answers is still waiting.
\<close>

datatype wait = Item "agent_event option" | Timeout

fun follow :: "string \<Rightarrow> int option \<Rightarrow> int \<Rightarrow> int \<Rightarrow> wait list \<Rightarrow> agent_event list" where
  "follow run limit seen heartbeats [] = []"
| "follow run limit seen heartbeats (Timeout # ws) =
     heartbeat run #
       (case limit of
          Some n \<Rightarrow> if heartbeats + 1 \<ge> n then [] else follow run limit seen (heartbeats + 1) ws
        | None \<Rightarrow> follow run limit seen (heartbeats + 1) ws)"
| "follow run limit seen heartbeats (Item None # ws) = []"
| "follow run limit seen heartbeats (Item (Some e) # ws) =
     (if ev_seq e \<le> seen then follow run limit seen heartbeats ws
      else e # (if terminal_event e then [] else follow run limit (ev_seq e) heartbeats ws))"

fun replayed :: "int \<Rightarrow> agent_event list \<Rightarrow> agent_event list \<times> int \<times> bool" where
  "replayed seen [] = ([], seen, False)"
| "replayed seen (e # es) =
     (if terminal_event e then ([e], max seen (ev_seq e), True)
      else case replayed (max seen (ev_seq e)) es of (out, seen', stopped) \<Rightarrow> (e # out, seen', stopped))"

definition stream :: "string \<Rightarrow> int \<Rightarrow> int option \<Rightarrow> event_bus \<Rightarrow> wait list \<Rightarrow> agent_event list" where
  "stream run after_seq limit b ws =
     (case replayed after_seq (replay run after_seq b) of (out, seen, stopped) \<Rightarrow>
        if stopped then out else out @ follow run limit seen 0 ws)"

subsection \<open>Interleaved publishers, consumers and closers\<close>

text \<open>The system is the bus and the events whose publisher is suspended in the sink.\<close>

inductive bus_step :: "event_bus \<times> agent_event list \<Rightarrow> event_bus \<times> agent_event list \<Rightarrow> bool" where
  begin_publish: "publish_begin run ty agent payload b = (e, b') \<Longrightarrow> bus_step (b, ps) (b', ps @ [e])"
| finish_publish: "e \<in> set ps \<Longrightarrow> bus_step (b, ps) (publish_finish e b, remove1 e ps)"
| new_subscriber: "map_of (eb_subscribers b) (run @ '':'' @ token) = None \<Longrightarrow>
     subscribe run token b = (sid, b') \<Longrightarrow> bus_step (b, ps) (b', ps)"
| leave: "bus_step (b, ps) (unsubscribe sid b, ps)"
| take_item: "map_of (eb_subscribers b) sid = Some (x # q) \<Longrightarrow>
     bus_step (b, ps) (b\<lparr>eb_subscribers := AList.update sid q (eb_subscribers b)\<rparr>, ps)"
| end_run: "close_run run b = (r, b') \<Longrightarrow> bus_step (b, ps) (b', ps)"

inductive bus_reachable :: "int \<Rightarrow> event_bus \<times> agent_event list \<Rightarrow> bool" for n where
  start: "bus_reachable n (new_bus n, [])"
| step: "bus_reachable n s \<Longrightarrow> bus_step s t \<Longrightarrow> bus_reachable n t"

inductive_cases bus_stepE: "bus_step (b, ps) t"

subsection \<open>The contract of a bounded buffer\<close>

text \<open>A full buffer gives up its oldest element for the new one; one with room keeps everything.\<close>

locale bounded_buffer =
  fixes insert_new :: "'a \<Rightarrow> 'a list \<Rightarrow> 'a list" and cap :: nat
  assumes cap_pos: "0 < cap"
    and room: "length q < cap \<Longrightarrow> insert_new x q = q @ [x]"
    and full: "length q = cap \<Longrightarrow> insert_new x q = tl q @ [x]"
begin

lemma insert_new_last: "length q \<le> cap \<Longrightarrow> insert_new x q = drop (length q + 1 - cap) (q @ [x])"
proof (cases "length q < cap")
  case False
  assume "length q \<le> cap"
  with False have "length q = cap" by simp
  then show ?thesis using full cap_pos by (cases q) auto
qed (simp add: room)

lemma insert_new_bound: "length q \<le> cap \<Longrightarrow> length (insert_new x q) \<le> cap"
  by (simp add: insert_new_last)

lemma inserts_last: "length q \<le> cap \<Longrightarrow> fold insert_new xs q = drop (length q + length xs - cap) (q @ xs)"
proof (induction xs arbitrary: q)
  case (Cons x xs)
  show ?case
  proof (cases "length q < cap")
    case True
    then show ?thesis using Cons.IH [of "q @ [x]"] by (simp add: room)
  next
    case False
    then have q: "length q = cap" using Cons.prems by simp
    then obtain y ys where y: "q = y # ys" using cap_pos by (cases q) auto
    have "fold insert_new xs (tl q @ [x]) = drop (length (tl q @ [x]) + length xs - cap) ((tl q @ [x]) @ xs)"
      by (rule Cons.IH) (use q cap_pos in simp)
    moreover have "cap = Suc (length ys)" using q y by simp
    ultimately show ?thesis using full [OF q] y by simp
  qed
qed simp

lemma inserts_room: "length q + length xs \<le> cap \<Longrightarrow> fold insert_new xs q = q @ xs"
  by (simp add: inserts_last)

end

interpretation history_buffer: bounded_buffer remember HISTORY_LIMIT
proof
  show "0 < HISTORY_LIMIT" by (simp add: HISTORY_LIMIT_def)
  show "length q = HISTORY_LIMIT \<Longrightarrow> remember x q = tl q @ [x]" for x q
    using \<open>0 < HISTORY_LIMIT\<close> by (cases q) (auto simp: remember_def)
qed (simp add: remember_def)

interpretation queue_buffer: bounded_buffer "offer (int (Suc n))" "Suc n" for n
proof
  show "length q = Suc n \<Longrightarrow> offer (int (Suc n)) x q = tl q @ [x]" for x and q :: "'a list"
    by (simp add: offer_def put_nowait_def queue_full_def drop_oldest_def)
qed (simp_all add: offer_def put_nowait_def queue_full_def)

subsection \<open>What every reachable bus remembers\<close>

lemma drop_upto: "k \<le> length [i..j] \<Longrightarrow> drop k [i..j] = [i + int k..j]" for i j :: int
proof (induction k arbitrary: i)
  case (Suc k)
  then have "i \<le> j" by (cases "i \<le> j") auto
  then have "drop (Suc k) [i..j] = drop k [i + 1..j]" by (simp add: upto_rec1)
  also have "\<dots> = [i + 1 + int k..j]" using Suc \<open>i \<le> j\<close> by (intro Suc.IH) (simp add: upto_rec1)
  finally show ?case by (simp add: algebra_simps)
qed simp

definition contiguous :: "string \<Rightarrow> int \<Rightarrow> agent_event list \<Rightarrow> bool" where
  "contiguous run c h \<longleftrightarrow> map ev_seq h = [c - int (length h) + 1..c] \<and> length h \<le> HISTORY_LIMIT
     \<and> int (length h) \<le> c \<and> (\<forall>e\<in>set h. ev_run_id e = run)"

definition bus_ok :: "int \<Rightarrow> event_bus \<Rightarrow> bool" where
  "bus_ok n b \<longleftrightarrow> eb_queue_size b = n \<and> distinct (map fst (eb_subscribers b))
     \<and> (\<forall>run. contiguous run (counter_of b run) (history_of b run))
     \<and> (0 < n \<longrightarrow> (\<forall>p\<in>set (eb_subscribers b). int (length (snd p)) \<le> n))"

lemma offer_bound: "0 < n \<Longrightarrow> int (length q) \<le> n \<Longrightarrow> int (length (offer n x q)) \<le> n"
proof -
  assume n: "0 < n" "int (length q) \<le> n"
  then obtain m where m: "n = int (Suc m)" by (metis gr0_implies_Suc pos_int_cases)
  then have "length (offer (int (Suc m)) x q) \<le> Suc m" using n by (intro queue_buffer.insert_new_bound) simp
  then show ?thesis using m by (metis int_ops(1) of_nat_mono)
qed

lemma contiguous_remember:
  assumes "contiguous run c h" "ev_run_id e = run" "ev_seq e = c + 1"
  shows "contiguous run (c + 1) (remember e h)"
proof -
  define k where "k = length h + 1 - HISTORY_LIMIT"
  have h: "remember e h = drop k (h @ [e])" "length h \<le> HISTORY_LIMIT"
    using assms(1) history_buffer.insert_new_last [of h e] by (simp_all add: contiguous_def k_def)
  have k: "k \<le> 1" "int (length h) \<le> c" using h(2) assms(1) by (simp_all add: k_def contiguous_def)
  have "map ev_seq (h @ [e]) = [c - int (length h) + 1..c + 1]"
    using assms by (simp add: contiguous_def upto_rec2)
  then have "map ev_seq (drop k (h @ [e])) = [c - int (length h) + 1 + int k..c + 1]"
    using k drop_upto [of k "c - int (length h) + 1" "c + 1"] by (simp only: drop_map [symmetric]) simp
  moreover have "length (drop k (h @ [e])) = length h + 1 - k" by simp
  moreover have "length (remember e h) \<le> HISTORY_LIMIT" by (rule history_buffer.insert_new_bound [OF h(2)])
  moreover have "set (drop k (h @ [e])) \<subseteq> set (h @ [e])" by (rule set_drop_subset)
  ultimately show ?thesis
    using assms k unfolding contiguous_def h(1) by (auto simp: algebra_simps of_nat_diff)
qed

lemma publish_begin_fields:
  assumes "publish_begin run ty agent payload b = (e, b')"
  shows "e = \<lparr>ev_run_id = run, ev_seq = counter_of b run + 1, ev_type = ty, ev_agent = agent, ev_payload = payload\<rparr>"
    and "counter_of b' r = (if r = run then counter_of b run + 1 else counter_of b r)"
    and "history_of b' r = (if r = run then remember e (history_of b run) else history_of b r)"
    and "eb_subscribers b' = eb_subscribers b" "eb_queue_size b' = eb_queue_size b"
    and "eb_persisted b' = eb_persisted b" "eb_forgotten b' = eb_forgotten b"
  using assms
  by (auto simp: publish_begin_def next_seq_def Let_def counter_of_def history_of_def update_conv')

lemma publish_finish_fields [simp]:
  "counter_of (publish_finish e b) r = counter_of b r" "history_of (publish_finish e b) r = history_of b r"
  "eb_queue_size (publish_finish e b) = eb_queue_size b"
  "eb_subscribers (publish_finish e b) = fan_out e (eb_queue_size b) (eb_subscribers b)"
  by (simp_all add: publish_finish_def counter_of_def history_of_def)

lemma fan_out_keys [simp]: "map fst (fan_out e n subs) = map fst subs"
  by (simp add: fan_out_def split_beta comp_def)

lemma map_of_fan_out:
  "map_of (fan_out e n subs) sid =
     map_option (\<lambda>q. if listens (ev_run_id e) sid then offer n (Some e) q else q) (map_of subs sid)"
  by (induction subs) (auto simp: fan_out_def)

lemma fan_out_bound:
  "0 < n \<Longrightarrow> \<forall>p\<in>set subs. int (length (snd p)) \<le> n \<Longrightarrow> \<forall>p\<in>set (fan_out e n subs). int (length (snd p)) \<le> n"
  by (auto simp: fan_out_def offer_bound)

lemma bus_ok_publish_begin:
  assumes "bus_ok n b" "publish_begin run ty agent payload b = (e, b')"
  shows "bus_ok n b'"
proof -
  note f = publish_begin_fields [OF assms(2)]
  have "contiguous r (counter_of b' r) (history_of b' r)" for r
    using assms(1) contiguous_remember [of run "counter_of b run" "history_of b run" e]
    by (cases "r = run") (simp_all add: f bus_ok_def)
  then show ?thesis using assms(1) by (simp add: bus_ok_def f)
qed

lemma bus_ok_publish_finish: "bus_ok n b \<Longrightarrow> bus_ok n (publish_finish e b)"
  using fan_out_bound [of n] by (auto simp: bus_ok_def)

lemma bus_ok_subscribers:
  assumes "bus_ok n b" "distinct (map fst subs)" "0 < n \<longrightarrow> (\<forall>p\<in>set subs. int (length (snd p)) \<le> n)"
  shows "bus_ok n (b\<lparr>eb_subscribers := subs\<rparr>)"
  using assms by (simp add: bus_ok_def counter_of_def history_of_def)

definition run_listener_full :: "string \<Rightarrow> event_bus \<Rightarrow> bool" where
  "run_listener_full run b = list_ex (\<lambda>(sid, q). listens run sid \<and> queue_full (eb_queue_size b) q) (eb_subscribers b)"

lemma close_queues_keys: "map fst (fst (close_queues run n subs)) = map fst subs"
  by (induction run n subs rule: close_queues.induct) (auto simp: split_beta split: sum.split)

lemma close_queues_bound:
  "0 < n \<Longrightarrow> \<forall>p\<in>set subs. int (length (snd p)) \<le> n \<Longrightarrow> \<forall>p\<in>set (fst (close_queues run n subs)). int (length (snd p)) \<le> n"
  by (induction run n subs rule: close_queues.induct)
    (auto simp: split_beta put_nowait_def queue_full_def split: sum.split if_splits)

lemma close_queues_cases:
  "if list_ex (\<lambda>(sid, q). listens run sid \<and> queue_full n q) subs
   then snd (close_queues run n subs) = Some QueueFull
   else close_queues run n subs = (map (\<lambda>(sid, q). (sid, if listens run sid then q @ [None] else q)) subs, None)"
  by (induction run n subs rule: close_queues.induct) (auto simp: split_beta put_nowait_def)

lemma bus_ok_close:
  assumes "bus_ok n b" "close_run run b = (r, b')"
  shows "bus_ok n b'"
proof -
  obtain subs err where q: "close_queues run (eb_queue_size b) (eb_subscribers b) = (subs, err)" by fastforce
  have n: "eb_queue_size b = n" using assms(1) by (simp add: bus_ok_def)
  have "bus_ok n (b\<lparr>eb_subscribers := subs\<rparr>)"
    using assms(1) close_queues_keys [of run n "eb_subscribers b"] close_queues_bound [of n "eb_subscribers b" run]
    by (intro bus_ok_subscribers) (auto simp: q [unfolded n] bus_ok_def)
  then have ok: "bus_ok n (b\<lparr>eb_subscribers := subs\<rparr>)" .
  show ?thesis
  proof (cases err)
    case None
    then have b': "b' = b\<lparr>eb_subscribers := subs, eb_history := AList.delete run (eb_history b),
        eb_counters := AList.delete run (eb_counters b), eb_forgotten := eb_forgotten b @ [run]\<rparr>"
      using assms(2) q by (simp add: close_run_def)
    have "counter_of b' r' = (if r' = run then 0 else counter_of b r')"
      "history_of b' r' = (if r' = run then [] else history_of b r')" for r'
      by (simp_all add: b' counter_of_def history_of_def delete_conv')
    moreover have "contiguous run 0 []" by (simp add: contiguous_def)
    ultimately show ?thesis using ok assms(1) by (simp add: bus_ok_def b')
  next
    case (Some e)
    then show ?thesis using ok assms(2) q by (simp add: close_run_def)
  qed
qed

lemma bus_step_ok: "bus_step s t \<Longrightarrow> bus_ok n (fst s) \<Longrightarrow> bus_ok n (fst t)"
proof (induction rule: bus_step.induct)
  case (begin_publish run ty agent payload b e b' ps)
  then show ?case using bus_ok_publish_begin by simp
next
  case (new_subscriber b run token sid b' ps)
  have "bus_ok n (b\<lparr>eb_subscribers := AList.update (run @ '':'' @ token) [] (eb_subscribers b)\<rparr>)"
    by (rule bus_ok_subscribers) (use new_subscriber in \<open>auto simp: bus_ok_def distinct_update dest!: set_update\<close>)
  then show ?case using new_subscriber by (auto simp: subscribe_def Let_def)
next
  case (leave b ps sid)
  have "bus_ok n (b\<lparr>eb_subscribers := AList.delete sid (eb_subscribers b)\<rparr>)"
    by (rule bus_ok_subscribers) (use leave in \<open>auto simp: bus_ok_def AList.delete_eq distinct_map_filter\<close>)
  then show ?case by (simp add: unsubscribe_def)
next
  case (take_item b sid x q ps)
  then have "(sid, x # q) \<in> set (eb_subscribers b)" by (simp add: map_of_SomeD)
  then have "bus_ok n (b\<lparr>eb_subscribers := AList.update sid q (eb_subscribers b)\<rparr>)"
    by (intro bus_ok_subscribers) (use take_item in \<open>force simp: bus_ok_def distinct_update dest!: set_update\<close>)+
  then show ?case by simp
qed (simp_all add: bus_ok_publish_finish bus_ok_close)

lemma bus_reachable_ok: "bus_reachable n s \<Longrightarrow> bus_ok n (fst s)"
proof (induction rule: bus_reachable.induct)
  case start
  then show ?case by (simp add: new_bus_def bus_ok_def counter_of_def history_of_def contiguous_def)
next
  case (step s t)
  then show ?case by (blast intro: bus_step_ok)
qed

subsection \<open>What a stream delivers\<close>

fun until_terminal :: "agent_event list \<Rightarrow> agent_event list" where
  "until_terminal [] = []"
| "until_terminal (e # es) = (if terminal_event e then [e] else e # until_terminal es)"

lemma until_terminal_append:
  "until_terminal (xs @ ys) = (if list_ex terminal_event xs then until_terminal xs else xs @ until_terminal ys)"
  by (induction xs) auto

lemma until_terminal_all: "\<not> list_ex terminal_event xs \<Longrightarrow> until_terminal xs = xs"
  by (induction xs) auto

lemma replayed_fst: "fst (replayed seen es) = until_terminal es"
  by (induction es arbitrary: seen) (auto simp: split_beta)

lemma replayed_stopped: "snd (snd (replayed seen es)) = list_ex terminal_event es"
  by (induction es arbitrary: seen) (auto simp: split_beta)

lemma replayed_seen:
  "\<not> list_ex terminal_event es \<Longrightarrow> fst (snd (replayed seen es)) = foldl max seen (map ev_seq es)"
  by (induction es arbitrary: seen) (auto simp: split_beta)

lemma foldl_max_le: "\<forall>x\<in>set xs. x \<le> c \<Longrightarrow> a \<le> foldl max a xs \<and> foldl max a xs \<le> max a c" for a c :: int
proof (induction xs arbitrary: a)
  case (Cons x xs)
  have "max a x \<le> foldl max (max a x) xs \<and> foldl max (max a x) xs \<le> max (max a x) c"
    by (rule Cons.IH) (use Cons.prems in simp)
  moreover have "max (max a x) c = max a c" using Cons.prems by auto
  ultimately show ?case by simp
qed simp

lemma stream_eq:
  "stream run after_seq limit b ws =
     (let es = replay run after_seq b
      in if list_ex terminal_event es then until_terminal es
         else es @ follow run limit (foldl max after_seq (map ev_seq es)) 0 ws)"
  using replayed_fst [of after_seq] replayed_stopped [of after_seq] replayed_seen [of _ after_seq]
  by (auto simp: stream_def Let_def split_beta until_terminal_all)

lemma follow_items:
  "sorted_wrt (<) (map ev_seq es) \<Longrightarrow>
   follow run limit seen hb (map (\<lambda>e. Item (Some e)) es) = until_terminal (filter (\<lambda>e. seen < ev_seq e) es)"
proof (induction es arbitrary: seen)
  case (Cons e es)
  have "filter (\<lambda>x. ev_seq e < ev_seq x) es = es" using Cons.prems by simp
  moreover from this have "seen < ev_seq e \<Longrightarrow> filter (\<lambda>x. seen < ev_seq x) es = es"
    by (auto simp: filter_id_conv)
  ultimately show ?case using Cons by auto
qed simp

text \<open>The events of a stream, without its heartbeats.\<close>

definition beatless :: "agent_event list \<Rightarrow> agent_event list" where
  "beatless es = filter (\<lambda>e. ev_seq e \<noteq> - 1) es"

lemma beatless_follow:
  "- 1 \<le> seen \<Longrightarrow> sorted_wrt (<) (map ev_seq (beatless (follow run limit seen hb ws)))
     \<and> (\<forall>e\<in>set (beatless (follow run limit seen hb ws)). seen < ev_seq e)"
proof (induction run limit seen hb ws rule: follow.induct)
  case (2 run limit seen hb ws)
  then show ?case by (auto simp: beatless_def heartbeat_def split: option.split)
next
  case (4 run limit seen hb e ws)
  show ?case
  proof (cases "ev_seq e \<le> seen")
    case True
    then show ?thesis using 4 by simp
  next
    case False
    then show ?thesis using 4 by (force simp: beatless_def)
  qed
qed (simp_all add: beatless_def)

primrec publish_all :: "string \<Rightarrow> (string \<times> string \<times> json_dict) list \<Rightarrow> event_bus \<Rightarrow> agent_event list \<times> event_bus" where
  "publish_all run [] b = ([], b)"
| "publish_all run (m # ms) b =
     (case publish run (fst m) (fst (snd m)) (snd (snd m)) b of (e, b1) \<Rightarrow>
        case publish_all run ms b1 of (es, b2) \<Rightarrow> (e # es, b2))"

lemma publish_fields:
  assumes "publish run ty agent payload b = (e, b')"
  shows "ev_seq e = counter_of b run + 1" "ev_run_id e = run" "ev_type e = ty" "counter_of b' run = counter_of b run + 1"
    "eb_queue_size b' = eb_queue_size b" "eb_subscribers b' = fan_out e (eb_queue_size b) (eb_subscribers b)"
proof -
  obtain b1 where b1: "publish_begin run ty agent payload b = (e, b1)" "b' = publish_finish e b1"
    using assms by (auto simp: publish_def split: prod.splits)
  note f = publish_begin_fields [OF b1(1)]
  show "ev_seq e = counter_of b run + 1" "ev_run_id e = run" "ev_type e = ty" "counter_of b' run = counter_of b run + 1"
    "eb_queue_size b' = eb_queue_size b" "eb_subscribers b' = fan_out e (eb_queue_size b) (eb_subscribers b)"
    using f b1(2) by simp_all
qed

lemma offer_room: "n \<le> 0 \<or> int (length q) < n \<Longrightarrow> offer n x q = q @ [x]"
  by (auto simp: offer_def put_nowait_def queue_full_def)

lemma publish_all_queue:
  assumes "publish_all run ms b = (es, b')" "map_of (eb_subscribers b) sid = Some q" "listens run sid"
    and "eb_queue_size b \<le> 0 \<or> int (length q + length ms) \<le> eb_queue_size b"
  shows "map_of (eb_subscribers b') sid = Some (q @ map Some es)
    \<and> map ev_seq es = [counter_of b run + 1..counter_of b run + int (length ms)]"
  using assms
proof (induction ms arbitrary: b q es)
  case (Cons m ms)
  obtain e b1 where p: "publish run (fst m) (fst (snd m)) (snd (snd m)) b = (e, b1)" by fastforce
  obtain fs where fs: "publish_all run ms b1 = (fs, b')" "es = e # fs"
    using Cons.prems(1) p by (auto split: prod.splits)
  note f = publish_fields [OF p]
  have "map_of (eb_subscribers b1) sid = Some (q @ [Some e])"
    using Cons.prems(2-4) f by (auto simp: map_of_fan_out offer_room)
  moreover have "eb_queue_size b1 \<le> 0 \<or> int (length (q @ [Some e]) + length ms) \<le> eb_queue_size b1"
    using Cons.prems(4) f by auto
  ultimately have "map_of (eb_subscribers b') sid = Some ((q @ [Some e]) @ map Some fs)
    \<and> map ev_seq fs = [counter_of b1 run + 1..counter_of b1 run + int (length ms)]"
    using Cons.IH fs(1) Cons.prems(3) by blast
  then show ?case using f fs(2) by (simp add: upto_rec1 algebra_simps)
qed simp

subsection \<open>Properties\<close>

text \<open>
  C8. However publishers, subscribers, consumers and closers of any runs interleave, what the bus keeps
  is gap-free and bounded: the remembered events of a run are its last at most 2000, numbered without a
  gap up to the last allocated number, and no subscriber's queue grows past its bound.
\<close>

theorem bus_history_gap_free:
  assumes "bus_reachable n (b, ps)"
  shows "map ev_seq (history_of b run) = [counter_of b run - int (length (history_of b run)) + 1..counter_of b run]
    \<and> length (history_of b run) \<le> 2000
    \<and> (\<forall>e\<in>set (history_of b run). ev_run_id e = run)
    \<and> (0 < n \<longrightarrow> (\<forall>p\<in>set (eb_subscribers b). int (length (snd p)) \<le> n))"
  using bus_reachable_ok [OF assms] by (auto simp: bus_ok_def contiguous_def HISTORY_LIMIT_def)

theorem bus_history_gap_free_witness:
  "map ev_seq (history_of (snd (publish_begin ''r'' ''run.started'' ''supervisor'' [] (new_bus 2))) ''r'') = [1]"
proof -
  obtain e b where b: "publish_begin ''r'' ''run.started'' ''supervisor'' [] (new_bus 2) = (e, b)" by fastforce
  have "bus_reachable 2 (b, [] @ [e])"
    by (rule bus_reachable.step [OF bus_reachable.start bus_step.begin_publish [OF b]])
  from bus_history_gap_free [OF this, of "''r''", THEN conjunct1] show ?thesis
    using publish_begin_fields(2,3) [OF b] b
    by (simp add: counter_of_def history_of_def new_bus_def remember_def HISTORY_LIMIT_def)
qed



text \<open>
  A client never sees an event twice or out of order: whatever the queue hands out (dropped,
  reordered or repeated items, timeouts, the sentinel), the events a stream yields between its heartbeats
  have strictly increasing numbers, all above the client's cursor.
\<close>

theorem stream_strictly_increasing:
  assumes "bus_reachable n (b, ps)" "0 \<le> after_seq"
  shows "sorted_wrt (<) (after_seq # map ev_seq (beatless (stream run after_seq limit b ws)))"
proof -
  have ok: "contiguous run (counter_of b run) (history_of b run)"
    using bus_reachable_ok [OF assms(1)] by (auto simp: bus_ok_def)
  define r where "r = replay run after_seq b"
  have "sorted_wrt (<) (map ev_seq (history_of b run))" using ok unfolding contiguous_def by simp
  then have r: "sorted_wrt (<) (map ev_seq r)" "\<forall>e\<in>set r. after_seq < ev_seq e"
    by (simp_all add: r_def replay_def sorted_wrt_map sorted_wrt_filter)
  have pre: "\<exists>zs. r = until_terminal r @ zs" for r by (induction r) auto
  have keep: "beatless xs = xs" if "\<forall>e\<in>set xs. after_seq < ev_seq e" for xs
    using that assms(2) by (force simp: beatless_def filter_id_conv)
  show ?thesis
  proof (cases "list_ex terminal_event r")
    case True
    obtain zs where zs: "r = until_terminal r @ zs" using pre by blast
    then have "\<forall>e\<in>set (until_terminal r). after_seq < ev_seq e" "sorted_wrt (<) (map ev_seq (until_terminal r))"
      using r by (metis UnCI set_append, metis map_append sorted_wrt_append)
    then show ?thesis using True keep by (simp add: stream_eq Let_def flip: r_def)
  next
    case False
    define seen where "seen = foldl max after_seq (map ev_seq r)"
    have mono: "a \<le> foldl max a xs \<and> (\<forall>x\<in>set xs. x \<le> foldl max a xs)" for a :: int and xs
    proof (induction xs arbitrary: a)
      case (Cons x xs)
      then show ?case by (auto intro: order_trans [OF _ Cons [THEN conjunct1]])
    qed simp
    have seen: "after_seq \<le> seen" "\<forall>e\<in>set r. ev_seq e \<le> seen"
      using mono [of after_seq "map ev_seq r"] by (auto simp: seen_def)
    note live = beatless_follow [of seen run limit 0 ws]
    have "stream run after_seq limit b ws = r @ follow run limit seen 0 ws"
      using False by (simp add: stream_eq Let_def seen_def flip: r_def)
    then have "beatless (stream run after_seq limit b ws) = r @ beatless (follow run limit seen 0 ws)"
      using keep [OF r(2)] by (simp add: beatless_def)
    then show ?thesis using r seen live assms(2) by (fastforce simp: sorted_wrt_append)
  qed
qed

theorem stream_strictly_increasing_witness:
  "sorted_wrt (<) ((0::int) # map ev_seq (beatless (stream ''r'' 0 (Some 1) (new_bus 2) [Timeout])))"
  by (rule stream_strictly_increasing [OF bus_reachable.start]) simp

text \<open>
  Closing a run needs room in every queue: when some subscriber of the run has a full queue,
  \<open>close_run\<close> raises, forgets neither the history nor the counter and does not tell the sink; otherwise
  every subscriber of the run finds the sentinel at the end of its queue and everything is forgotten.
\<close>

theorem close_run_needs_room:
  "if run_listener_full run b
   then fst (close_run run b) = Inl QueueFull
     \<and> history_of (snd (close_run run b)) = history_of b \<and> counter_of (snd (close_run run b)) = counter_of b
     \<and> eb_forgotten (snd (close_run run b)) = eb_forgotten b
   else fst (close_run run b) = Inr ()
     \<and> eb_subscribers (snd (close_run run b))
         = map (\<lambda>(sid, q). (sid, if listens run sid then q @ [None] else q)) (eb_subscribers b)
     \<and> history_of (snd (close_run run b)) run = [] \<and> counter_of (snd (close_run run b)) run = 0
     \<and> eb_forgotten (snd (close_run run b)) = eb_forgotten b @ [run]"
  using close_queues_cases [of run "eb_queue_size b" "eb_subscribers b"]
  by (auto simp: run_listener_full_def close_run_def Let_def split_beta history_of_def counter_of_def delete_conv'
      fun_eq_iff)

end
