(* ===== verification/Orchestrator.thy ===== *)
theory Orchestrator
  imports AgentBase Events
begin

text \<open>
  \<open>orchestrator/graph.py\<close> and the template method \<open>BaseAgent.execute\<close> of \<open>agents/base.py\<close>: the
  supervisor that runs the six injected agents in order, round after round, merges their updates into
  the shared state and publishes the lifecycle of the run.

  The agents are arguments: an agent maps the state and its environment to an update, with the summary
  it attaches to it, or to an exception. The environment is the event bus and everything else an agent
  may touch. The two executors are both here: the sequential loop, and the compiled state graph, a value
  whose nodes, edges and routing are those of the code. The LangGraph runtime that walks such a graph is
  not under src; it is an argument too, and \<open>documented_runtime\<close> names the documented behaviour the code
  relies on (one node per step, the declared reducers, the recursion limit).

  Log lines and metrics are left out; the clock, the gateway's usage report and the cancellation check
  are fields of \<open>services\<close>.
\<close>

datatype run_exception = RunCancelled string | Raised py_error

type_synonym 'e env = "event_bus \<times> 'e"

type_synonym 'e agent =
  "agent_state \<Rightarrow> 'e env \<Rightarrow> (py_error, channel_update list \<times> json_dict option) res \<times> 'e env"

type_synonym 'e node = "agent_state \<Rightarrow> 'e env \<Rightarrow> (run_exception, channel_update list) res \<times> 'e env"

record 'e services =
  sv_run_id :: string
  sv_cancellation_check :: "('e \<Rightarrow> bool \<times> 'e) option"
  sv_perf_counter :: "'e \<Rightarrow> real \<times> 'e"
  sv_usage :: "'e \<Rightarrow> json_dict"

record 'e agents =
  ag_monitor :: "'e agent"
  ag_audience :: "'e agent"
  ag_creative :: "'e agent"
  ag_bidding :: "'e agent"
  ag_optimize :: "'e agent"
  ag_critic :: "'e agent"

definition emit :: "'e services \<Rightarrow> string \<Rightarrow> string \<Rightarrow> json_dict \<Rightarrow> 'e env \<Rightarrow> 'e env" where
  "emit sv ty agent payload v = (snd (publish (sv_run_id sv) ty agent payload (fst v)), snd v)"

definition perf_counter :: "'e services \<Rightarrow> 'e env \<Rightarrow> real \<times> 'e env" where
  "perf_counter sv v = (case sv_perf_counter sv (snd v) of (t, e) \<Rightarrow> (t, (fst v, e)))"

subsection \<open>One agent step\<close>

definition raise_if_cancelled :: "'e services \<Rightarrow> 'e env \<Rightarrow> (run_exception, unit) res \<times> 'e env" where
  "raise_if_cancelled sv v =
     (case sv_cancellation_check sv of
        None \<Rightarrow> (Inr (), v)
      | Some check \<Rightarrow>
          (case check (snd v) of (yes, e) \<Rightarrow> (if yes then Inl (RunCancelled (sv_run_id sv)) else Inr (), (fst v, e))))"

primrec channel_key :: "channel_update \<Rightarrow> string" where
  "channel_key (UMetrics xs) = ''metrics''"
| "channel_key (UAudienceInsights d) = ''audience_insights''"
| "channel_key (UHealth d) = ''health''"
| "channel_key (UNewCreatives xs) = ''new_creatives''"
| "channel_key (UBiddingDecisions xs) = ''bidding_decisions''"
| "channel_key (UBudgetAllocations xs) = ''budget_allocations''"
| "channel_key (UOptimizationActions xs) = ''optimization_actions''"
| "channel_key (UCriticFindings xs) = ''critic_findings''"
| "channel_key (UAlerts xs) = ''alerts''"
| "channel_key (UPlatformChecks xs) = ''platform_checks''"
| "channel_key (UToolPreflights xs) = ''tool_preflights''"
| "channel_key (UAgentMessages xs) = ''agent_messages''"
| "channel_key (UCurrentAgent a) = ''current_agent''"
| "channel_key (UIteration i) = ''iteration''"
| "channel_key (UIsComplete b) = ''is_complete''"

definition updated_keys :: "channel_update list \<Rightarrow> json_dict option \<Rightarrow> string list" where
  "updated_keys us summary = sort (map channel_key us @ (if summary = None then [] else [''_summary'']))"

fun narrative :: "channel_update list \<Rightarrow> string list" where
  "narrative [] = []"
| "narrative (UAgentMessages ms # us) = filter (\<lambda>c. c \<noteq> []) (map ms_content ms) @ narrative us"
| "narrative (u # us) = narrative us"

definition error_payload :: "py_error \<Rightarrow> json_dict" where
  "error_payload err = [(''error'', JStr (error_message err)), (''error_type'', JStr (error_type_name err))]"

definition completed_payload :: "real \<Rightarrow> agent_state \<Rightarrow> channel_update list \<Rightarrow> json_dict option \<Rightarrow> json_dict" where
  "completed_payload elapsed s us summary =
     [(''duration_ms'', JFloat (Fin (py_round 2 (elapsed * 1000)))), (''iteration'', JInt (st_iteration s)),
      (''updated_keys'', JList (map JStr (updated_keys us summary))),
      (''summary'', JDict (case summary of None \<Rightarrow> [] | Some d \<Rightarrow> d)),
      (''messages'', JList (map JStr (narrative us)))]"

definition execute :: "'e services \<Rightarrow> agent_name \<Rightarrow> 'e agent \<Rightarrow> agent_state \<Rightarrow> 'e env
   \<Rightarrow> (py_error, channel_update list) res \<times> 'e env" where
  "execute sv name agent s v =
     (case perf_counter sv v of (started, v1) \<Rightarrow>
        let v2 = emit sv ''agent.started'' (agent_name_value name) [(''iteration'', JInt (st_iteration s))] v1
        in case agent s v2 of
             (Inl err, v3) \<Rightarrow>
               (case perf_counter sv v3 of (now, v4) \<Rightarrow>
                  (Inl err, emit sv ''agent.failed'' (agent_name_value name) (error_payload err) v4))
           | (Inr (us, summary), v3) \<Rightarrow>
               (case perf_counter sv v3 of (now, v4) \<Rightarrow>
                  (Inr us, emit sv ''agent.completed'' (agent_name_value name)
                             (completed_payload (now - started) s us summary) v4)))"

definition ordered_agents :: "'e agents \<Rightarrow> (agent_name \<times> 'e agent) list" where
  "ordered_agents ags =
     [(AGENT_MONITOR, ag_monitor ags), (AGENT_AUDIENCE, ag_audience ags), (AGENT_CREATIVE, ag_creative ags),
      (AGENT_BIDDING, ag_bidding ags), (AGENT_OPTIMIZE, ag_optimize ags), (AGENT_CRITIC, ag_critic ags)]"

text \<open>What both executors do for one agent: check for cancellation, then execute.\<close>

definition node_for :: "'e services \<Rightarrow> agent_name \<times> 'e agent \<Rightarrow> 'e node" where
  "node_for sv na s v =
     (case raise_if_cancelled sv v of
        (Inl x, v1) \<Rightarrow> (Inl x, v1)
      | (Inr _, v1) \<Rightarrow>
          (case execute sv (fst na) (snd na) s v1 of
             (Inl err, v2) \<Rightarrow> (Inl (Raised err), v2)
           | (Inr us, v2) \<Rightarrow> (Inr us, v2)))"

subsection \<open>The sequential executor\<close>

definition effective_max_iterations :: "agent_state \<Rightarrow> int" where
  "effective_max_iterations s = (if st_max_iterations s = 0 then 3 else st_max_iterations s)"

fun run_agents :: "'e services \<Rightarrow> (agent_name \<times> 'e agent) list \<Rightarrow> agent_state \<Rightarrow> 'e env
   \<Rightarrow> (run_exception, agent_state) res \<times> 'e env" where
  "run_agents sv [] s v = (Inr s, v)"
| "run_agents sv (na # nas) s v =
     (case node_for sv na s v of
        (Inl x, v1) \<Rightarrow> (Inl x, v1)
      | (Inr us, v1) \<Rightarrow> run_agents sv nas (apply_update us s) v1)"

fun invoke_rounds :: "'e services \<Rightarrow> 'e agents \<Rightarrow> nat \<Rightarrow> agent_state \<Rightarrow> 'e env
   \<Rightarrow> (run_exception, agent_state) res \<times> 'e env" where
  "invoke_rounds sv ags 0 s v = (Inr s, v)"
| "invoke_rounds sv ags (Suc n) s v =
     (case run_agents sv (ordered_agents ags) s v of
        (Inl x, v1) \<Rightarrow> (Inl x, v1)
      | (Inr s1, v1) \<Rightarrow>
          if st_is_complete s1 then (Inr s1, v1)
          else if st_alerts s1 = [] then (Inr s1, v1)
          else invoke_rounds sv ags n s1 v1)"

definition invoke_sequential :: "'e services \<Rightarrow> 'e agents \<Rightarrow> agent_state \<Rightarrow> 'e env
   \<Rightarrow> (run_exception, agent_state) res \<times> 'e env" where
  "invoke_sequential sv ags s v = invoke_rounds sv ags (nat (effective_max_iterations s)) s v"

subsection \<open>The state graph\<close>

datatype target = Node string | END

record 'e state_graph =
  sg_nodes :: "(string, 'e node) dict"
  sg_entry_point :: string
  sg_edges :: "(string, string) dict"
  sg_conditional :: "(string, (agent_state \<Rightarrow> string) \<times> (string, target) dict) dict"

definition route_after_critic :: "agent_state \<Rightarrow> string" where
  "route_after_critic s =
     (if st_is_complete s then ''end''
      else if st_iteration s \<ge> effective_max_iterations s then ''end''
      else if st_alerts s \<noteq> [] then ''continue'' else ''end'')"

definition compile_graph :: "'e services \<Rightarrow> 'e agents \<Rightarrow> 'e state_graph" where
  "compile_graph sv ags =
     \<lparr>sg_nodes = map (\<lambda>na. (agent_name_value (fst na), node_for sv na)) (ordered_agents ags),
      sg_entry_point = ''monitor'',
      sg_edges = [(''monitor'', ''audience''), (''audience'', ''creative''), (''creative'', ''bidding''),
        (''bidding'', ''optimize''), (''optimize'', ''critic'')],
      sg_conditional = [(''critic'', route_after_critic, [(''continue'', Node ''monitor''), (''end'', END)])]\<rparr>"

definition next_target :: "'e state_graph \<Rightarrow> string \<Rightarrow> agent_state \<Rightarrow> target" where
  "next_target g name s =
     (case map_of (sg_conditional g) name of
        Some (route, targets) \<Rightarrow> (case map_of targets (route s) of Some t \<Rightarrow> t | None \<Rightarrow> END)
      | None \<Rightarrow> (case map_of (sg_edges g) name of Some m \<Rightarrow> Node m | None \<Rightarrow> END))"

text \<open>
  A runtime continues a graph from a node with a number of steps left. The documented behaviour: with no
  step left it raises the recursion error; otherwise it runs the node, merges the update with the
  declared reducers and follows the edge.
\<close>

type_synonym 'e graph_runtime =
  "'e state_graph \<Rightarrow> nat \<Rightarrow> string \<Rightarrow> agent_state \<Rightarrow> 'e env \<Rightarrow> (run_exception, agent_state) res \<times> 'e env"

definition documented_runtime :: "'e graph_runtime \<Rightarrow> bool" where
  "documented_runtime rt \<longleftrightarrow>
     (\<forall>g name s v. \<exists>err. rt g 0 name s v = (Inl (Raised err), v))
   \<and> (\<forall>g k name node s v. map_of (sg_nodes g) name = Some node \<longrightarrow>
        rt g (Suc k) name s v =
          (case node s v of
             (Inl x, v1) \<Rightarrow> (Inl x, v1)
           | (Inr us, v1) \<Rightarrow>
               (case next_target g name (apply_update us s) of
                  END \<Rightarrow> (Inr (apply_update us s), v1)
                | Node m \<Rightarrow> rt g k m (apply_update us s) v1)))"

definition invoke_graph :: "'e graph_runtime \<Rightarrow> 'e services \<Rightarrow> 'e agents \<Rightarrow> agent_state \<Rightarrow> 'e env
   \<Rightarrow> (run_exception, agent_state) res \<times> 'e env" where
  "invoke_graph rt sv ags s v =
     (let g = compile_graph sv ags
      in rt g (nat (6 * effective_max_iterations s + 8)) (sg_entry_point g) s v)"


subsection \<open>The lifecycle around a run\<close>

definition message_json :: "message \<Rightarrow> json" where
  "message_json m =
     JDict ([(''agent'', JStr (ms_agent m)), (''content'', JStr (ms_content m)), (''iteration'', JInt (ms_iteration m))]
            @ ms_extra m)"

definition counts_json :: "(string, nat) dict \<Rightarrow> json" where
  "counts_json d = JDict (map (\<lambda>(k, n). (k, JInt (int n))) d)"

definition summary_json :: "run_summary \<Rightarrow> json_dict" where
  "summary_json m =
     [(''status'', JStr (run_status_value (sm_status m))), (''iterations'', JInt (sm_iterations m)),
      (''campaigns'', JInt (int (sm_campaigns m))), (''creatives_generated'', JInt (int (sm_creatives_generated m))),
      (''bidding_decisions'', JInt (int (sm_bidding_decisions m))),
      (''budget_adjustments'', JInt (int (sm_budget_adjustments m))), (''actions'', JInt (int (sm_actions m))),
      (''actions_proposed'', JInt (int (sm_actions_proposed m))), (''actions_suppressed'', JInt (sm_actions_suppressed m)),
      (''critic_findings'', JInt (int (sm_critic_findings m))),
      (''critic_findings_by_kind'', counts_json (sm_critic_findings_by_kind m)),
      (''platform_checks'', JInt (int (sm_platform_checks m))), (''tool_preflights'', JInt (int (sm_tool_preflights m))),
      (''preflights_blocked'', JInt (int (sm_preflights_blocked m))), (''action_counts'', counts_json (sm_action_counts m)),
      (''alerts_raised'', JInt (int (sm_alerts_raised m))), (''health'', JDict (sm_health m)),
      (''usage'', JDict (sm_usage m)), (''messages'', JList (map message_json (sm_messages m)))]"

definition duration_entry :: "real \<Rightarrow> string \<times> json" where
  "duration_entry elapsed = (''duration_s'', JFloat (Fin (py_round 3 elapsed)))"

definition started_payload :: "string \<Rightarrow> agent_state \<Rightarrow> json_dict" where
  "started_payload mode s =
     [(''mode'', JStr mode), (''campaign_ids'', JList (map JStr (st_campaign_ids s))),
      (''max_iterations'', JInt (effective_max_iterations s)),
      (''window_days'', JInt (if st_window_days s = 0 then 7 else st_window_days s))]"

definition fold_usage :: "'e services \<Rightarrow> real \<Rightarrow> 'e \<Rightarrow> agent_state \<Rightarrow> agent_state" where
  "fold_usage sv elapsed e s =
     s\<lparr>st_usage := dict_update (dict_update (st_usage s) (sv_usage sv e)) [duration_entry elapsed]\<rparr>"

text \<open>\<open>OptimizationOrchestrator.run\<close> over either executor.\<close>

definition run_lifecycle :: "'e services \<Rightarrow> string
   \<Rightarrow> (agent_state \<Rightarrow> 'e env \<Rightarrow> (run_exception, agent_state) res \<times> 'e env)
   \<Rightarrow> agent_state \<Rightarrow> 'e env \<Rightarrow> (run_exception, agent_state) res \<times> 'e env" where
  "run_lifecycle sv mode invoke s v =
     (case perf_counter sv v of (started, v1) \<Rightarrow>
        let v2 = emit sv ''run.started'' ''supervisor'' (started_payload mode s) v1
        in case invoke s v2 of (r, v3) \<Rightarrow>
             (case perf_counter sv v3 of (now, v4) \<Rightarrow>
                case r of
                  Inl (RunCancelled run) \<Rightarrow>
                    (Inl (RunCancelled run), emit sv ''run.cancelled'' ''supervisor'' [duration_entry (now - started)] v4)
                | Inl (Raised err) \<Rightarrow>
                    (Inl (Raised err), emit sv ''run.failed'' ''supervisor'' (error_payload err) v4)
                | Inr s1 \<Rightarrow>
                    let s2 = fold_usage sv (now - started) (snd v4) s1
                    in (Inr s2, emit sv ''run.succeeded'' ''supervisor''
                          [duration_entry (now - started),
                           (''summary'', JDict (summary_json (summarise_state s2 RUN_SUCCEEDED)))] v4)))"

definition run_sequential :: "'e services \<Rightarrow> 'e agents \<Rightarrow> agent_state \<Rightarrow> 'e env
   \<Rightarrow> (run_exception, agent_state) res \<times> 'e env" where
  "run_sequential sv ags = run_lifecycle sv ''sequential'' (invoke_sequential sv ags)"

definition run_graph :: "'e graph_runtime \<Rightarrow> 'e services \<Rightarrow> 'e agents \<Rightarrow> agent_state \<Rightarrow> 'e env
   \<Rightarrow> (run_exception, agent_state) res \<times> 'e env" where
  "run_graph rt sv ags = run_lifecycle sv ''langgraph'' (invoke_graph rt sv ags)"

text \<open>\<open>forget_run\<close>: the checkpointer's delete, when it has one, with its exceptions swallowed.\<close>

definition forget_run :: "(string \<Rightarrow> 'e \<Rightarrow> (py_error, unit) res \<times> 'e) option \<Rightarrow> string \<Rightarrow> 'e \<Rightarrow> 'e" where
  "forget_run drop_thread run e = (case drop_thread of None \<Rightarrow> e | Some d \<Rightarrow> snd (d run e))"

subsection \<open>The two executors run the same rounds\<close>

lemma apply_update_Nil [simp]: "apply_update [] s = s"
  by (simp add: apply_update_def)

lemma apply_update_Cons [simp]: "apply_update (u # us) s = apply_update us (apply_channel u s)"
  by (simp add: apply_update_def)

lemma apply_update_keeps [simp]:
  "st_max_iterations (apply_update us s) = st_max_iterations s"
  "effective_max_iterations (apply_update us s) = effective_max_iterations s"
proof -
  show "st_max_iterations (apply_update us s) = st_max_iterations s"
  proof (induction us arbitrary: s)
    case (Cons u us)
    then show ?case by (cases u) simp_all
  qed simp
  then show "effective_max_iterations (apply_update us s) = effective_max_iterations s"
    by (simp add: effective_max_iterations_def)
qed

lemma run_agents_keeps_max:
  "run_agents sv nas s v = (Inr s1, v1) \<Longrightarrow> effective_max_iterations s1 = effective_max_iterations s"
  by (induction nas arbitrary: s v) (auto split: prod.splits sum.splits)

definition advances :: "'e agent \<Rightarrow> int \<Rightarrow> bool" where
  "advances ag n \<longleftrightarrow> (\<forall>s v us sm v1. 0 \<le> st_iteration s \<longrightarrow> ag s v = (Inr (us, sm), v1) \<longrightarrow>
     st_iteration (apply_update us s) = st_iteration s + n)"

text \<open>The optimizer advances the iteration by one and no other agent writes it.\<close>

definition counts_rounds :: "'e agents \<Rightarrow> bool" where
  "counts_rounds ags \<longleftrightarrow> advances (ag_monitor ags) 0 \<and> advances (ag_audience ags) 0 \<and> advances (ag_creative ags) 0
     \<and> advances (ag_bidding ags) 0 \<and> advances (ag_optimize ags) 1 \<and> advances (ag_critic ags) 0"

lemma execute_Inr:
  assumes "execute sv name agent s v = (Inr us, w)"
  shows "\<exists>v1 sm v2. agent s v1 = (Inr (us, sm), v2)"
proof -
  define v1 where "v1 = emit sv ''agent.started'' (agent_name_value name) [(''iteration'', JInt (st_iteration s))]
    (snd (perf_counter sv v))"
  obtain r v2 where a: "agent s v1 = (r, v2)" by (rule prod.exhaust)
  show ?thesis
  proof (cases r)
    case (Inl err)
    then show ?thesis using assms a by (simp add: execute_def Let_def split_beta flip: v1_def)
  next
    case (Inr p)
    then have "fst p = us" using assms a by (simp add: execute_def Let_def split_beta flip: v1_def)
    then have "agent s v1 = (Inr (us, snd p), v2)" using Inr a by auto
    then show ?thesis by blast
  qed
qed

lemma node_for_Inr:
  assumes "node_for sv na s v = (Inr us, w)"
  shows "\<exists>v1 sm v2. snd na s v1 = (Inr (us, sm), v2)"
proof -
  obtain c v1 where c: "raise_if_cancelled sv v = (c, v1)" by (rule prod.exhaust)
  obtain r v2 where r: "execute sv (fst na) (snd na) s v1 = (r, v2)" by (rule prod.exhaust)
  have "r = Inr us" using assms c r by (cases c; cases r) (simp_all add: node_for_def)
  then show ?thesis using execute_Inr r by blast
qed

lemma node_for_advances:
  assumes "advances (snd na) n" "node_for sv na s v = (Inr us, v1)" "0 \<le> st_iteration s"
  shows "st_iteration (apply_update us s) = st_iteration s + n"
  using node_for_Inr [OF assms(2)] assms(1,3) unfolding advances_def by metis

lemma run_agents_advances:
  assumes "list_all2 (\<lambda>na n. advances (snd na) n) nas ns" "\<forall>n\<in>set ns. 0 \<le> n"
    and "run_agents sv nas s v = (Inr s1, v1)" "0 \<le> st_iteration s"
  shows "st_iteration s1 = st_iteration s + sum_list ns"
  using assms
proof (induction nas ns arbitrary: s v rule: list_all2_induct)
  case (Cons na nas n ns)
  from Cons.prems(2) obtain us v2 where us: "node_for sv na s v = (Inr us, v2)"
      "run_agents sv nas (apply_update us s) v2 = (Inr s1, v1)"
    by (auto split: prod.splits sum.splits)
  note i = node_for_advances [OF Cons.hyps(1) us(1) Cons.prems(3)]
  have "0 \<le> n" using Cons.prems(1) by simp
  then have "st_iteration s1 = st_iteration (apply_update us s) + sum_list ns"
    using Cons.prems i by (intro Cons.IH [OF _ us(2)]) auto
  then show ?case using i by simp
qed simp

lemma round_advances:
  assumes "counts_rounds ags" "run_agents sv (ordered_agents ags) s v = (Inr s1, v1)" "0 \<le> st_iteration s"
  shows "st_iteration s1 = st_iteration s + 1"
proof -
  have "list_all2 (\<lambda>na n. advances (snd na) n) (ordered_agents ags) [0, 0, 0, 0, 1, 0]"
    using assms(1) by (simp add: ordered_agents_def counts_rounds_def)
  from run_agents_advances [OF this _ assms(2,3)] show ?thesis by simp
qed

lemma documented_out_of_steps: "documented_runtime rt \<Longrightarrow> \<exists>err. rt g 0 name s v = (Inl (Raised err), v)"
  unfolding documented_runtime_def by (elim conjE allE) assumption

lemma documented_step:
  "documented_runtime rt \<Longrightarrow> map_of (sg_nodes g) name = Some node \<Longrightarrow>
     rt g (Suc k) name s v =
       (case node s v of
          (Inl x, v1) \<Rightarrow> (Inl x, v1)
        | (Inr us, v1) \<Rightarrow>
            (case next_target g name (apply_update us s) of
               END \<Rightarrow> (Inr (apply_update us s), v1)
             | Node m \<Rightarrow> rt g k m (apply_update us s) v1))"
  unfolding documented_runtime_def by (elim conjE allE impE) assumption+

lemma chain_step:
  assumes "documented_runtime rt" "map_of (sg_nodes g) name = Some (node_for sv na)"
    and "map_of (sg_conditional g) name = None" "map_of (sg_edges g) name = Some m"
    and "\<And>s1 v1. rt g k m s1 v1 = (case run_agents sv nas s1 v1 of (Inl x, v2) \<Rightarrow> (Inl x, v2) | (Inr s2, v2) \<Rightarrow> K s2 v2)"
  shows "rt g (Suc k) name s v =
     (case run_agents sv (na # nas) s v of (Inl x, v2) \<Rightarrow> (Inl x, v2) | (Inr s2, v2) \<Rightarrow> K s2 v2)"
  using assms(3-) by (simp add: documented_step [OF assms(1,2)] next_target_def split: prod.splits sum.splits)

lemma graph_round:
  assumes "documented_runtime rt"
  shows "rt (compile_graph sv ags) (k + 6) ''monitor'' s v =
     (case run_agents sv (ordered_agents ags) s v of
        (Inl x, v1) \<Rightarrow> (Inl x, v1)
      | (Inr s1, v1) \<Rightarrow> if route_after_critic s1 = ''continue'' then rt (compile_graph sv ags) k ''monitor'' s1 v1
                        else (Inr s1, v1))"
proof -
  let ?g = "compile_graph sv ags"
  let ?K = "\<lambda>s1 v1. if route_after_critic s1 = ''continue'' then rt ?g k ''monitor'' s1 v1 else (Inr s1, v1)"
  let ?ends = "\<lambda>n name nas. \<forall>s v. rt ?g (k + n) name s v =
      (case run_agents sv nas s v of (Inl x, v1) \<Rightarrow> (Inl x, v1) | (Inr s1, v1) \<Rightarrow> ?K s1 v1)"
  note graph = compile_graph_def ordered_agents_def agent_name_value.simps
  have route: "route_after_critic s1 = ''continue'' \<or> route_after_critic s1 = ''end''" for s1
    by (simp add: route_after_critic_def)
  have 1: "?ends 1 ''critic'' [(AGENT_CRITIC, ag_critic ags)]"
  proof (intro allI)
    fix s v
    have node: "map_of (sg_nodes ?g) ''critic'' = Some (node_for sv (AGENT_CRITIC, ag_critic ags))"
      by (simp add: graph)
    have target: "next_target ?g ''critic'' s1 = (if route_after_critic s1 = ''continue'' then Node ''monitor'' else END)" for s1
      using route [of s1] by (auto simp: next_target_def compile_graph_def)
    show "rt ?g (k + 1) ''critic'' s v = (case run_agents sv [(AGENT_CRITIC, ag_critic ags)] s v of
        (Inl x, v1) \<Rightarrow> (Inl x, v1) | (Inr s1, v1) \<Rightarrow> ?K s1 v1)"
      using documented_step [OF assms node, of k s v] by (simp add: target split: prod.splits sum.splits)
  qed
  have step: "?ends (Suc n) name ((a, ag) # nas)"
    if "?ends n m nas" "map_of (sg_nodes ?g) name = Some (node_for sv (a, ag))"
      "map_of (sg_conditional ?g) name = None" "map_of (sg_edges ?g) name = Some m" for n name a ag nas m
    using chain_step [OF assms that(2-4), where k = "k + n" and nas = nas and K = ?K] that(1) by simp
  have 2: "?ends 2 ''optimize'' [(AGENT_OPTIMIZE, ag_optimize ags), (AGENT_CRITIC, ag_critic ags)]"
    using step [OF 1, of "''optimize''" AGENT_OPTIMIZE "ag_optimize ags"] by (simp add: graph numeral_2_eq_2)
  have 3: "?ends 3 ''bidding'' ((AGENT_BIDDING, ag_bidding ags) # drop 4 (ordered_agents ags))"
    using step [OF 2, of "''bidding''" AGENT_BIDDING "ag_bidding ags"] by (simp add: graph numeral_3_eq_3)
  have 4: "?ends 4 ''creative'' ((AGENT_CREATIVE, ag_creative ags) # drop 3 (ordered_agents ags))"
    using step [OF 3, of "''creative''" AGENT_CREATIVE "ag_creative ags"] by (simp add: graph)
  have 5: "?ends 5 ''audience'' ((AGENT_AUDIENCE, ag_audience ags) # drop 2 (ordered_agents ags))"
    using step [OF 4, of "''audience''" AGENT_AUDIENCE "ag_audience ags"] by (simp add: graph)
  have 6: "?ends 6 ''monitor'' (ordered_agents ags)"
    using step [OF 5, of "''monitor''" AGENT_MONITOR "ag_monitor ags"] by (simp add: graph)
  then show ?thesis by (elim allE)
qed

lemma graph_rounds:
  assumes "documented_runtime rt" "counts_rounds ags"
  shows "0 \<le> st_iteration s \<Longrightarrow> effective_max_iterations s = st_iteration s + int (Suc n) \<Longrightarrow> 6 * n + 7 \<le> k \<Longrightarrow>
     rt (compile_graph sv ags) k ''monitor'' s v = invoke_rounds sv ags (Suc n) s v"
proof (induction n arbitrary: s v k)
  case 0
  define j where "j = k - 6"
  have k: "k = j + 6" using 0 by (simp add: j_def)
  show ?case
  proof -
    obtain r v1 where Pair: "run_agents sv (ordered_agents ags) s v = (r, v1)" by (rule prod.exhaust)
    show ?thesis
    proof (cases r)
      case (Inr s1)
      note run = Pair [unfolded Inr]
      have "route_after_critic s1 = ''end''"
        using round_advances [OF assms(2) run 0(1)] run_agents_keeps_max [OF run] 0(2) by (simp add: route_after_critic_def)
      then show ?thesis using run by (simp add: k graph_round [OF assms(1)])
    qed (simp add: k graph_round [OF assms(1)] Pair)
  qed
next
  case (Suc n)
  define j where "j = k - 6"
  have k: "k = j + 6" "6 * n + 7 \<le> j" using Suc.prems(3) by (simp_all add: j_def)
  show ?case
  proof -
    obtain r v1 where Pair: "run_agents sv (ordered_agents ags) s v = (r, v1)" by (rule prod.exhaust)
    show ?thesis
    proof (cases r)
      case (Inr s1)
      note run = Pair [unfolded Inr]
      note i = round_advances [OF assms(2) run Suc.prems(1)] run_agents_keeps_max [OF run]
      have "rt (compile_graph sv ags) j ''monitor'' s1 v1 = invoke_rounds sv ags (Suc n) s1 v1"
        using Suc.prems i k(2) by (intro Suc.IH) simp_all
      moreover have "route_after_critic s1 = ''continue'' \<longleftrightarrow> \<not> st_is_complete s1 \<and> st_alerts s1 \<noteq> []"
        using i Suc.prems(2) by (simp add: route_after_critic_def)
      ultimately show ?thesis using run by (simp add: k(1) graph_round [OF assms(1)] del: invoke_rounds.simps(2)) (simp add: run)
    qed (simp add: k(1) graph_round [OF assms(1)] Pair)
  qed
qed

lemma graph_sequential:
  assumes "documented_runtime rt" "counts_rounds ags" "st_iteration s = 0" "0 \<le> st_max_iterations s"
  shows "invoke_graph rt sv ags s v = invoke_sequential sv ags s v"
proof -
  have pos: "0 < effective_max_iterations s" using assms(4) by (simp add: effective_max_iterations_def)
  then obtain n where n: "effective_max_iterations s = int (Suc n)"
    by (metis gr0_conv_Suc pos_int_cases)
  have "rt (compile_graph sv ags) (nat (6 * int (Suc n) + 8)) ''monitor'' s v = invoke_rounds sv ags (Suc n) s v"
    using assms(3) n by (intro graph_rounds [OF assms(1,2)]) simp_all
  moreover have "sg_entry_point (compile_graph sv ags) = ''monitor''" by (simp add: compile_graph_def)
  ultimately show ?thesis by (simp only: invoke_graph_def invoke_sequential_def n Let_def nat_int)
qed


subsection \<open>The lifecycle events of a run\<close>

definition lifecycle_types :: "string list" where
  "lifecycle_types = [''run.started'', ''run.succeeded'', ''run.failed'', ''run.cancelled'',
     ''agent.started'', ''agent.completed'', ''agent.failed'']"

text \<open>The lifecycle events published so far, as type and agent; a quiet agent publishes none itself.\<close>

definition lifecycle_log :: "'e env \<Rightarrow> (string \<times> string) list" where
  "lifecycle_log v = filter (\<lambda>(t, a). t \<in> set lifecycle_types) (map (\<lambda>e. (ev_type e, ev_agent e)) (eb_persisted (fst v)))"

definition quiet :: "'e agent \<Rightarrow> bool" where
  "quiet ag \<longleftrightarrow> (\<forall>s v. lifecycle_log (snd (ag s v)) = lifecycle_log v)"

definition quiet_agents :: "'e agents \<Rightarrow> bool" where
  "quiet_agents ags \<longleftrightarrow> (\<forall>na\<in>set (ordered_agents ags). quiet (snd na))"

definition step_events :: "string list \<Rightarrow> (string \<times> string) list" where
  "step_events names = concat (map (\<lambda>a. [(''agent.started'', a), (''agent.completed'', a)]) names)"

definition agent_order :: "string list" where
  "agent_order = map agent_name_value agent_name_members"

lemma step_events_simps [simp]:
  "step_events [] = []"
  "step_events (a # as) = (''agent.started'', a) # (''agent.completed'', a) # step_events as"
  "step_events (as @ bs) = step_events as @ step_events bs"
  by (simp_all add: step_events_def)

lemma emit_log [simp]:
  "lifecycle_log (emit sv ty a p v) = lifecycle_log v @ (if ty \<in> set lifecycle_types then [(ty, a)] else [])"
proof -
  obtain e b where e: "publish (sv_run_id sv) ty a p (fst v) = (e, b)" by (rule prod.exhaust)
  then have "eb_persisted b = eb_persisted (fst v) @ [e]" "ev_type e = ty" "ev_agent e = a"
    by (auto simp: publish_def publish_begin_def publish_finish_def next_seq_def Let_def split: prod.splits)
  then show ?thesis using e by (simp add: emit_def lifecycle_log_def)
qed

lemma same_bus_log: "fst w = fst v \<Longrightarrow> lifecycle_log w = lifecycle_log v"
  by (simp add: lifecycle_log_def)

lemma perf_counter_log [simp]: "lifecycle_log (snd (perf_counter sv v)) = lifecycle_log v"
  by (rule same_bus_log) (simp add: perf_counter_def split_beta)

lemma raise_if_cancelled_log [simp]: "lifecycle_log (snd (raise_if_cancelled sv v)) = lifecycle_log v"
  by (rule same_bus_log) (simp add: raise_if_cancelled_def split_beta split: option.splits)

lemma raise_if_cancelled_error: "fst (raise_if_cancelled sv v) = Inl x \<Longrightarrow> \<exists>run. x = RunCancelled run"
  by (auto simp: raise_if_cancelled_def split_beta split: option.splits if_splits)

text \<open>What the failing tail of a step adds: the failed agent's two events, or nothing on cancellation.\<close>

fun failing_step :: "(run_exception, 'a) res \<Rightarrow> string \<Rightarrow> (string \<times> string) list" where
  "failing_step (Inl (Raised err)) a = [(''agent.started'', a), (''agent.failed'', a)]"
| "failing_step _ a = []"

lemma execute_log:
  assumes "quiet agent" "execute sv name agent s v = (r, w)"
  shows "lifecycle_log w = lifecycle_log v @ [(''agent.started'', agent_name_value name),
    (if isl r then ''agent.failed'' else ''agent.completed'', agent_name_value name)]"
proof -
  define v1 where "v1 = emit sv ''agent.started'' (agent_name_value name) [(''iteration'', JInt (st_iteration s))]
    (snd (perf_counter sv v))"
  obtain q v2 where a: "agent s v1 = (q, v2)" by (rule prod.exhaust)
  have "lifecycle_log v2 = lifecycle_log v1" using assms(1) a by (metis quiet_def snd_conv)
  then have l: "lifecycle_log v2 = lifecycle_log v @ [(''agent.started'', agent_name_value name)]"
    by (simp add: v1_def lifecycle_types_def)
  show ?thesis
  proof (cases q)
    case (Inl err)
    then have "r = Inl err" "w = emit sv ''agent.failed'' (agent_name_value name) (error_payload err) (snd (perf_counter sv v2))"
      using assms(2) a by (simp_all add: execute_def Let_def split_beta flip: v1_def)
    then show ?thesis using l by (simp add: lifecycle_types_def)
  next
    case (Inr p)
    then have "\<not> isl r" "\<exists>pl. w = emit sv ''agent.completed'' (agent_name_value name) pl (snd (perf_counter sv v2))"
      using assms(2) a by (auto simp: execute_def Let_def split_beta simp flip: v1_def)
    then show ?thesis using l by (auto simp: lifecycle_types_def)
  qed
qed

definition step_name :: "agent_name \<times> 'e agent \<Rightarrow> string" where
  "step_name na = agent_name_value (fst na)"

lemma node_for_log:
  assumes "quiet (snd na)" "node_for sv na s v = (r, w)"
  shows "lifecycle_log w = lifecycle_log v @
    (case r of Inl _ \<Rightarrow> failing_step r (step_name na) | Inr _ \<Rightarrow> step_events [step_name na])"
proof -
  obtain c v1 where c: "raise_if_cancelled sv v = (c, v1)" by (rule prod.exhaust)
  have l: "lifecycle_log v1 = lifecycle_log v" using raise_if_cancelled_log [of sv v] c by simp
  show ?thesis
  proof (cases c)
    case (Inl x)
    then obtain run where "x = RunCancelled run" using raise_if_cancelled_error [of sv v x] c by auto
    then have "r = Inl (RunCancelled run)" "w = v1" using assms(2) c Inl by (simp_all add: node_for_def)
    then show ?thesis using l by simp
  next
    case (Inr u)
    obtain q v2 where q: "execute sv (fst na) (snd na) s v1 = (q, v2)" by (rule prod.exhaust)
    then show ?thesis
      using assms(2) c Inr l execute_log [OF assms(1) q] by (cases q) (auto simp: node_for_def step_name_def)
  qed
qed

lemma run_agents_log:
  "\<forall>na\<in>set nas. quiet (snd na) \<Longrightarrow> run_agents sv nas s v = (r, w) \<Longrightarrow>
   \<exists>n \<le> length nas. (if isl r then n < length nas else n = length nas)
     \<and> lifecycle_log w = lifecycle_log v @ step_events (take n (map step_name nas))
         @ failing_step r (map step_name nas ! n)"
proof (induction nas arbitrary: s v)
  case (Cons na nas)
  obtain q v1 where q: "node_for sv na s v = (q, v1)" by (rule prod.exhaust)
  note l = node_for_log [OF _ q]
  show ?case
  proof (cases q)
    case (Inl x)
    then have "r = Inl x" "w = v1" using Cons.prems(2) q by simp_all
    moreover have "failing_step (Inl x :: (run_exception, 'z) res) a = failing_step (Inl x :: (run_exception, 'y) res) a" for a
      by (cases x) simp_all
    ultimately show ?thesis using l Cons.prems(1) Inl by (intro exI [of _ 0]) auto
  next
    case (Inr us)
    then have "run_agents sv nas (apply_update us s) v1 = (r, w)" using Cons.prems(2) q by simp
    moreover have "\<forall>na\<in>set nas. quiet (snd na)" using Cons.prems(1) by simp
    ultimately obtain n where
      "n \<le> length nas" "if isl r then n < length nas else n = length nas"
      "lifecycle_log w = lifecycle_log v1 @ step_events (take n (map step_name nas))
         @ failing_step r (map step_name nas ! n)" using Cons.IH by blast
    then show ?thesis using l Cons.prems(1) Inr by (intro exI [of _ "Suc n"]) (auto split: if_splits)
  qed
qed auto

lemma ordered_names: "map step_name (ordered_agents ags) = agent_order"
  by (simp add: ordered_agents_def agent_order_def agent_name_members_def step_name_def)

lemma invoke_rounds_log:
  assumes "quiet_agents ags"
  shows "invoke_rounds sv ags m s v = (r, w) \<Longrightarrow>
    \<exists>k n. k \<le> m \<and> n < 6 \<and> (if isl r then k < m else n = 0)
      \<and> lifecycle_log w = lifecycle_log v @ step_events (concat (replicate k agent_order) @ take n agent_order)
          @ failing_step r (agent_order ! n)"
proof (induction m arbitrary: s v)
  case 0
  then show ?case by (intro exI [of _ 0]) auto
next
  case (Suc m)
  obtain q v1 where q: "run_agents sv (ordered_agents ags) s v = (q, v1)" by (rule prod.exhaust)
  have "\<forall>na\<in>set (ordered_agents ags). quiet (snd na)" using assms by (simp add: quiet_agents_def)
  moreover have "length (ordered_agents ags) = 6" by (simp add: ordered_agents_def)
  ultimately obtain n where n: "if isl q then n < 6 else n = 6"
    and l: "lifecycle_log v1 = lifecycle_log v @ step_events (take n agent_order) @ failing_step q (agent_order ! n)"
    using run_agents_log [OF _ q] unfolding ordered_names by metis
  show ?case
  proof (cases q)
    case (Inl x)
    then have "r = Inl x" "w = v1" using Suc.prems q by simp_all
    then show ?thesis using l n Inl by (intro exI [of _ 0] exI [of _ n]) simp
  next
    case (Inr s1)
    have all: "take 6 agent_order = agent_order" by (simp add: agent_order_def agent_name_members_def)
    have l1: "lifecycle_log v1 = lifecycle_log v @ step_events agent_order" using l n Inr all by simp
    show ?thesis
    proof (cases "st_is_complete s1 \<or> st_alerts s1 = []")
      case True
      then have "r = Inr s1" "w = v1" using Suc.prems q Inr by (auto split: if_splits)
      then show ?thesis using l1 by (intro exI [of _ 1] exI [of _ 0]) simp
    next
      case False
      then have "invoke_rounds sv ags m s1 v1 = (r, w)" using Suc.prems q Inr by simp
      from Suc.IH [OF this] obtain k n where "k \<le> m" "n < 6" "if isl r then k < m else n = 0"
        "lifecycle_log w = lifecycle_log v1 @ step_events (concat (replicate k agent_order) @ take n agent_order)
          @ failing_step r (agent_order ! n)" by blast
      then show ?thesis using l1 by (intro exI [of _ "Suc k"] exI [of _ n]) auto
    qed
  qed
qed

fun closing_type :: "(run_exception, agent_state) res \<Rightarrow> string" where
  "closing_type (Inr s) = ''run.succeeded''"
| "closing_type (Inl (RunCancelled run)) = ''run.cancelled''"
| "closing_type (Inl (Raised err)) = ''run.failed''"

lemma run_lifecycle_log:
  assumes "run_lifecycle sv mode invoke s v = (r, w)"
  shows "\<exists>q v1 v2. invoke s v1 = (q, v2) \<and> lifecycle_log v1 = lifecycle_log v @ [(''run.started'', ''supervisor'')]
    \<and> lifecycle_log w = lifecycle_log v2 @ [(closing_type r, ''supervisor'')] \<and> closing_type r = closing_type q
    \<and> failing_step r = failing_step q \<and> isl r = isl q"
proof -
  define v1 where "v1 = emit sv ''run.started'' ''supervisor'' (started_payload mode s) (snd (perf_counter sv v))"
  obtain q v2 where q: "invoke s v1 = (q, v2)" by (rule prod.exhaust)
  have "lifecycle_log v1 = lifecycle_log v @ [(''run.started'', ''supervisor'')]"
    by (simp add: v1_def lifecycle_types_def)
  moreover have "lifecycle_log w = lifecycle_log v2 @ [(closing_type r, ''supervisor'')] \<and> closing_type r = closing_type q
    \<and> failing_step r = failing_step q \<and> isl r = isl q"
  proof (cases q)
    case (Inl x)
    then show ?thesis using assms q
      by (cases x) (auto simp: run_lifecycle_def Let_def split_beta lifecycle_types_def simp flip: v1_def)
  next
    case (Inr s1)
    then show ?thesis using assms q
      by (auto simp: run_lifecycle_def Let_def split_beta lifecycle_types_def fun_eq_iff simp flip: v1_def)
  qed
  ultimately show ?thesis using q by blast
qed


subsection \<open>A runtime and agents for the concrete examples\<close>

primrec pregel :: "'e graph_runtime" where
  "pregel g 0 name s v = (Inl (Raised (OtherError ''GraphRecursionError'' [])), v)"
| "pregel g (Suc k) name s v =
     (case map_of (sg_nodes g) name of
        None \<Rightarrow> (Inl (Raised (OtherError ''InvalidUpdateError'' [])), v)
      | Some node \<Rightarrow>
          (case node s v of
             (Inl x, v1) \<Rightarrow> (Inl x, v1)
           | (Inr us, v1) \<Rightarrow>
               (case next_target g name (apply_update us s) of
                  END \<Rightarrow> (Inr (apply_update us s), v1)
                | Node m \<Rightarrow> pregel g k m (apply_update us s) v1)))"

lemma pregel_documented: "documented_runtime pregel"
  unfolding documented_runtime_def by (intro conjI allI impI exI) simp_all

definition idle_agents :: "unit agents" where
  "idle_agents =
     (let idle = (\<lambda>us (s :: agent_state) v. (Inr (us s, None), v))
      in \<lparr>ag_monitor = idle (\<lambda>s. []), ag_audience = idle (\<lambda>s. []), ag_creative = idle (\<lambda>s. []),
          ag_bidding = idle (\<lambda>s. []), ag_optimize = idle (\<lambda>s. [UIteration (st_iteration s + 1)]),
          ag_critic = idle (\<lambda>s. [])\<rparr>)"

definition plain_services :: "unit services" where
  "plain_services = \<lparr>sv_run_id = ''r'', sv_cancellation_check = None, sv_perf_counter = \<lambda>e. (0, e), sv_usage = \<lambda>e. []\<rparr>"

lemma idle_agents_ok: "counts_rounds idle_agents" "quiet_agents idle_agents"
  by (simp_all add: counts_rounds_def advances_def idle_agents_def Let_def max_int_def quiet_agents_def quiet_def
      ordered_agents_def)

subsection \<open>Properties\<close>

text \<open>
  C10. The degraded executor is equivalent to the graph: on any runtime with the documented behaviour, from
  a fresh state, when the optimizer advances the iteration by one and no other agent writes it, walking the
  compiled graph gives the result, the events and the environment of the sequential loop. So the recursion
  limit is never hit, and both stop for the same reason.
\<close>

theorem graph_matches_sequential:
  assumes "documented_runtime rt" "counts_rounds ags" "st_iteration s = 0" "0 \<le> st_max_iterations s"
  shows "invoke_graph rt sv ags s v = invoke_sequential sv ags s v"
  by (rule graph_sequential [OF assms])

theorem graph_matches_sequential_witness:
  "invoke_graph pregel plain_services idle_agents (initial_state ''r'' [] 2 7) (new_bus 0, ())
   = invoke_sequential plain_services idle_agents (initial_state ''r'' [] 2 7) (new_bus 0, ())"
  by (rule graph_matches_sequential [OF pregel_documented idle_agents_ok(1)]) (simp_all add: initial_state_def)

text \<open>
  C11. A run always ends, after at most the configured rounds, and its timeline is well formed: it opens with
  \<open>run.started\<close>, then come whole rounds of the six agents in order, each started and completed, then the
  completed agents of the round a failure or a cancellation interrupts; a failing agent is the only one that
  is started and not completed, and exactly one terminal event closes the run, the one of its outcome.
\<close>

theorem run_timeline_well_formed:
  assumes "documented_runtime rt" "counts_rounds ags" "quiet_agents ags"
    and "st_iteration s = 0" "0 \<le> st_max_iterations s" "run_graph rt sv ags s v = (r, w)"
  shows "\<exists>k n. int k \<le> effective_max_iterations s \<and> n < 6
    \<and> (if isl r then int k < effective_max_iterations s else n = 0)
    \<and> lifecycle_log w = lifecycle_log v @ [(''run.started'', ''supervisor'')]
        @ step_events (concat (replicate k agent_order) @ take n agent_order) @ failing_step r (agent_order ! n)
        @ [(closing_type r, ''supervisor'')]"
proof -
  from run_lifecycle_log [OF assms(6) [unfolded run_graph_def]] obtain q v1 v2 where
    q: "invoke_graph rt sv ags s v1 = (q, v2)" "lifecycle_log v1 = lifecycle_log v @ [(''run.started'', ''supervisor'')]"
      "lifecycle_log w = lifecycle_log v2 @ [(closing_type r, ''supervisor'')]"
      "failing_step r = failing_step q" "isl r = isl q" by blast
  have "invoke_rounds sv ags (nat (effective_max_iterations s)) s v1 = (q, v2)"
    using graph_sequential [OF assms(1,2,4,5)] q(1) by (simp add: invoke_sequential_def)
  from invoke_rounds_log [OF assms(3) this] obtain k n where
    "k \<le> nat (effective_max_iterations s)" "n < 6" "if isl q then k < nat (effective_max_iterations s) else n = 0"
    "lifecycle_log v2 = lifecycle_log v1 @ step_events (concat (replicate k agent_order) @ take n agent_order)
       @ failing_step q (agent_order ! n)" by blast
  moreover have "0 < effective_max_iterations s" using assms(5) by (simp add: effective_max_iterations_def)
  ultimately show ?thesis using q(2-) by (intro exI [of _ k] exI [of _ n]) auto
qed

theorem run_timeline_well_formed_witness:
  "\<exists>k n. int k \<le> 2 \<and> n < 6 \<and>
     set (lifecycle_log (snd (run_graph pregel plain_services idle_agents (initial_state ''r'' [] 2 7) (new_bus 0, ()))))
       \<supseteq> set ((''run.started'', ''supervisor'') # step_events (concat (replicate k agent_order) @ take n agent_order))"
proof -
  obtain r w where run: "run_graph pregel plain_services idle_agents (initial_state ''r'' [] 2 7) (new_bus 0, ()) = (r, w)"
    by (rule prod.exhaust)
  from run_timeline_well_formed [OF pregel_documented idle_agents_ok _ _ run] obtain k n where
    "int k \<le> 2" "n < 6" "lifecycle_log w = lifecycle_log (new_bus 0, ()) @ [(''run.started'', ''supervisor'')]
        @ step_events (concat (replicate k agent_order) @ take n agent_order) @ failing_step r (agent_order ! n)
        @ [(closing_type r, ''supervisor'')]"
    by (auto simp: initial_state_def effective_max_iterations_def)
  then show ?thesis using run by (intro exI [of _ k] exI [of _ n]) auto
qed

end
