(* ===== verification/Cache.thy ===== *)
theory Cache
  imports Json
begin

text \<open>
  \<open>infra/cache.py\<close>: the bounded TTL cache of a single process and the JSON facade over it. Values are
  byte strings; the JSON encoder and decoder (orjson) are arguments, and the clock readings of an
  operation are arguments in the order the code takes them. \<open>RedisCache\<close> only forwards to the Redis client.

  The locale \<open>forgetful_store\<close> is what a client may rely on: a cache may forget an entry at any time, but
  it never answers with anything but the last unexpired value written under the key.
\<close>

type_synonym bytes = string
type_synonym entry = "real \<times> bytes"

record mem_cache =
  mc_store :: "(string, entry) dict"
  mc_max_entries :: nat

definition new_mem_cache :: "nat \<Rightarrow> mem_cache" where
  "new_mem_cache n = \<lparr>mc_store = [], mc_max_entries = n\<rparr>"

definition cache_get :: "real \<Rightarrow> string \<Rightarrow> mem_cache \<Rightarrow> bytes option \<times> mem_cache" where
  "cache_get now key c =
     (case map_of (mc_store c) key of
        None \<Rightarrow> (None, c)
      | Some (expires_at, v) \<Rightarrow>
          if expires_at < now then (None, c\<lparr>mc_store := AList.delete key (mc_store c)\<rparr>) else (Some v, c))"

definition evict :: "real \<Rightarrow> mem_cache \<Rightarrow> mem_cache" where
  "evict now c =
     (let live = filter (\<lambda>(k, e, v). \<not> e < now) (mc_store c)
      in if length live \<ge> mc_max_entries c
         then let oldest = take (mc_max_entries c div 4) (sort_key (\<lambda>(k, e, v). e) live)
              in c\<lparr>mc_store := filter (\<lambda>p. fst p \<notin> fst ` set oldest) live\<rparr>
         else c\<lparr>mc_store := live\<rparr>)"

definition cache_set :: "real \<Rightarrow> real \<Rightarrow> string \<Rightarrow> bytes \<Rightarrow> int \<Rightarrow> mem_cache \<Rightarrow> mem_cache" where
  "cache_set evict_now now key v ttl_seconds c =
     (let c1 = (if length (mc_store c) \<ge> mc_max_entries c then evict evict_now c else c)
      in c1\<lparr>mc_store := AList.update key (now + of_int ttl_seconds, v) (mc_store c1)\<rparr>)"

definition cache_delete :: "string \<Rightarrow> mem_cache \<Rightarrow> mem_cache" where
  "cache_delete key c = c\<lparr>mc_store := AList.delete key (mc_store c)\<rparr>"

definition starts_with :: "string \<Rightarrow> string \<Rightarrow> bool" where
  "starts_with p k = (take (length p) k = p)"

definition delete_prefix :: "string \<Rightarrow> mem_cache \<Rightarrow> nat \<times> mem_cache" where
  "delete_prefix p c =
     (length (filter (\<lambda>e. starts_with p (fst e)) (mc_store c)),
      c\<lparr>mc_store := filter (\<lambda>e. \<not> starts_with p (fst e)) (mc_store c)\<rparr>)"

definition cache_close :: "mem_cache \<Rightarrow> mem_cache" where
  "cache_close c = c\<lparr>mc_store := []\<rparr>"

subsection \<open>The JSON facade\<close>

record json_codec =
  jc_dumps :: "json \<Rightarrow> bytes"
  jc_loads :: "bytes \<Rightarrow> json option"

definition get_json :: "json_codec \<Rightarrow> real \<Rightarrow> string \<Rightarrow> mem_cache \<Rightarrow> json option \<times> mem_cache" where
  "get_json cd now key c =
     (case cache_get now key c of
        (None, c1) \<Rightarrow> (None, c1)
      | (Some raw, c1) \<Rightarrow>
          (case jc_loads cd raw of None \<Rightarrow> (None, cache_delete key c1) | Some j \<Rightarrow> (Some j, c1)))"

definition effective_ttl :: "int option \<Rightarrow> int \<Rightarrow> int" where
  "effective_ttl ttl default_ttl = (case ttl of None \<Rightarrow> default_ttl | Some t \<Rightarrow> if t = 0 then default_ttl else t)"

definition set_json :: "json_codec \<Rightarrow> int \<Rightarrow> real \<Rightarrow> real \<Rightarrow> string \<Rightarrow> json \<Rightarrow> int option \<Rightarrow> mem_cache \<Rightarrow> mem_cache" where
  "set_json cd default_ttl evict_now now key v ttl c =
     cache_set evict_now now key (jc_dumps cd v) (effective_ttl ttl default_ttl) c"

text \<open>The fixed-window counter; a stored value that does not decode to an object raises, modelled as \<open>None\<close>.\<close>

definition stored_count :: "json_codec \<Rightarrow> bytes \<Rightarrow> int option" where
  "stored_count cd raw =
     (case jc_loads cd raw of
        Some (JDict d) \<Rightarrow> (case map_of d ''n'' of None \<Rightarrow> Some 0 | Some (JInt n) \<Rightarrow> Some n | _ \<Rightarrow> None)
      | _ \<Rightarrow> None)"

definition incr_window :: "json_codec \<Rightarrow> real \<Rightarrow> string \<Rightarrow> int \<Rightarrow> mem_cache \<Rightarrow> ((int \<times> int) \<times> mem_cache) option" where
  "incr_window cd time_now key window_seconds c =
     (let now = py_trunc time_now;
          bucket_start = now - now mod window_seconds;
          bucket_key = key @ '':'' @ show_int bucket_start;
          counted = (case map_of (mc_store c) bucket_key of
              Some (e, raw) \<Rightarrow> if e > of_int now then map_option (\<lambda>n. n + 1) (stored_count cd raw) else Some 1
            | None \<Rightarrow> Some 1)
      in case counted of
           None \<Rightarrow> None
         | Some n \<Rightarrow>
             Some ((n, max 1 (bucket_start + window_seconds - now)),
               c\<lparr>mc_store := AList.update bucket_key
                   (of_int (bucket_start + window_seconds), jc_dumps cd (JDict [(''n'', JInt n)])) (mc_store c)\<rparr>))"

definition rate_limit :: "json_codec \<Rightarrow> real \<Rightarrow> string \<Rightarrow> int \<Rightarrow> int \<Rightarrow> mem_cache \<Rightarrow> ((bool \<times> int \<times> int) \<times> mem_cache) option" where
  "rate_limit cd now key limit window_seconds c =
     (case incr_window cd now key window_seconds c of
        None \<Rightarrow> None
      | Some ((n, retry_after), c1) \<Rightarrow> Some ((n \<le> limit, max 0 (limit - n), retry_after), c1))"

subsection \<open>What a client relies on\<close>

locale forgetful_store =
  fixes invar :: "'s \<Rightarrow> bool" and entries :: "'s \<Rightarrow> string \<rightharpoonup> real \<times> 'v"
    and put :: "'t \<Rightarrow> real \<Rightarrow> string \<Rightarrow> 'v \<Rightarrow> int \<Rightarrow> 's \<Rightarrow> 's"
    and get :: "real \<Rightarrow> string \<Rightarrow> 's \<Rightarrow> 'v option \<times> 's"
  assumes put_new: "entries (put t now k v ttl s) k = Some (now + of_int ttl, v)"
    and put_old: "invar s \<Longrightarrow> j \<noteq> k \<Longrightarrow> entries (put t now k v ttl s) j = Some e \<Longrightarrow> entries s j = Some e"
    and put_invar: "invar s \<Longrightarrow> invar (put t now k v ttl s)"
    and get_value: "fst (get now k s) = (case entries s k of None \<Rightarrow> None | Some (e, v) \<Rightarrow> if e < now then None else Some v)"
    and get_keeps: "invar s \<Longrightarrow> entries (snd (get now k s)) j = Some e \<Longrightarrow> entries s j = Some e"
    and get_invar: "invar s \<Longrightarrow> invar (snd (get now k s))"
begin

definition remembers :: "(string \<rightharpoonup> real \<times> 'v) \<Rightarrow> 's \<Rightarrow> bool" where
  "remembers m s \<longleftrightarrow> invar s \<and> (\<forall>j e. entries s j = Some e \<longrightarrow> m j = Some e)"

lemma put_remembers: "remembers m s \<Longrightarrow> remembers (m(k \<mapsto> (now + of_int ttl, v))) (put t now k v ttl s)"
  using put_new [of t now k v ttl s] put_old [of s _ k t now v ttl] put_invar [of s t now k v ttl]
  by (auto simp: remembers_def)

lemma get_remembers: "remembers m s \<Longrightarrow> remembers m (snd (get now k s))"
  using get_keeps [of s now k] get_invar [of s now k] by (auto simp: remembers_def)

lemma read_after_write: "now' \<le> now + of_int ttl \<Longrightarrow> fst (get now' k (put t now k v ttl s)) = Some v"
  by (simp add: get_value put_new)

lemma answer_remembered: "remembers m s \<Longrightarrow> fst (get now k s) = Some v \<Longrightarrow> \<exists>e. m k = Some (e, v) \<and> now \<le> e"
  by (auto simp: remembers_def get_value split: option.splits if_splits)

end

lemma map_of_filter_keys: "map_of (filter (\<lambda>p. P (fst p)) d) k = (if P k then map_of d k else None)"
  by (induction d) auto

lemma map_of_filter_some: "distinct (map fst d) \<Longrightarrow> map_of (filter P d) k = Some v \<Longrightarrow> map_of d k = Some v"
  by (metis (no_types, lifting) filter_is_subset map_of_SomeD map_of_eq_Some_iff subsetD)

lemma distinct_filter_keys: "distinct (map fst d) \<Longrightarrow> distinct (map fst (filter P d))"
  by (induction d) auto

text \<open>The store of a reachable cache has distinct keys; a cache with that invariant is the carrier.\<close>

definition store_ok :: "mem_cache \<Rightarrow> bool" where
  "store_ok c \<longleftrightarrow> distinct (map fst (mc_store c))"

lemma evict_ok: "store_ok c \<Longrightarrow> store_ok (evict now c)"
  by (simp add: store_ok_def evict_def Let_def distinct_filter_keys)

lemma evict_keeps: "store_ok c \<Longrightarrow> map_of (mc_store (evict now c)) k = Some e \<Longrightarrow> map_of (mc_store c) k = Some e"
  by (auto simp: store_ok_def evict_def Let_def distinct_filter_keys dest!: map_of_filter_some split: if_splits)

lemma cache_set_ok: "store_ok c \<Longrightarrow> store_ok (cache_set t now k v ttl c)"
  using evict_ok [of c t] by (simp add: store_ok_def cache_set_def Let_def distinct_update)

lemma cache_get_ok: "store_ok c \<Longrightarrow> store_ok (snd (cache_get now k c))"
  by (auto simp: store_ok_def cache_get_def distinct_delete split: option.splits)

lemma cache_delete_ok: "store_ok c \<Longrightarrow> store_ok (cache_delete k c)"
  by (simp add: store_ok_def cache_delete_def distinct_delete)

lemma delete_prefix_ok: "store_ok c \<Longrightarrow> store_ok (snd (delete_prefix p c))"
  by (simp add: store_ok_def delete_prefix_def distinct_filter_keys)

interpretation mem: forgetful_store store_ok "\<lambda>c. map_of (mc_store c)" cache_set cache_get
proof
  fix c t now k v ttl j e
  show "map_of (mc_store (cache_set t now k v ttl c)) k = Some (now + of_int ttl, v)"
    by (simp add: cache_set_def Let_def update_conv')
  show "store_ok (cache_set t now k v ttl c)" if "store_ok c" using that by (rule cache_set_ok)
  show "map_of (mc_store c) j = Some e"
    if "store_ok c" "j \<noteq> k" "map_of (mc_store (cache_set t now k v ttl c)) j = Some e"
    using that evict_keeps [OF that(1)] by (auto simp: cache_set_def Let_def update_conv' split: if_splits)
next
  fix c :: mem_cache and now k j e
  show "fst (cache_get now k c) = (case map_of (mc_store c) k of None \<Rightarrow> None | Some (e, v) \<Rightarrow> if e < now then None else Some v)"
    by (simp add: cache_get_def split: option.splits prod.splits)
  show "store_ok (snd (cache_get now k c))" if "store_ok c" using that by (rule cache_get_ok)
  show "map_of (mc_store c) j = Some e" if "map_of (mc_store (snd (cache_get now k c))) j = Some e"
    using that by (auto simp: cache_get_def delete_conv' split: option.splits if_splits)
qed

subsection \<open>Traces of operations\<close>

datatype cache_op =
    Put real real string bytes int
  | Get real string
  | Delete string
  | DeletePrefix string
  | Close

fun cache_step :: "cache_op \<Rightarrow> mem_cache \<Rightarrow> mem_cache" where
  "cache_step (Put t now k v ttl) c = cache_set t now k v ttl c"
| "cache_step (Get now k) c = snd (cache_get now k c)"
| "cache_step (Delete k) c = cache_delete k c"
| "cache_step (DeletePrefix p) c = snd (delete_prefix p c)"
| "cache_step Close c = cache_close c"

text \<open>The last write under every key, as a client that deletes and closes would record it.\<close>

fun last_write :: "cache_op \<Rightarrow> (string \<rightharpoonup> entry) \<Rightarrow> (string \<rightharpoonup> entry)" where
  "last_write (Put t now k v ttl) m = m(k \<mapsto> (now + of_int ttl, v))"
| "last_write (Get now k) m = m"
| "last_write (Delete k) m = m(k := None)"
| "last_write (DeletePrefix p) m = (\<lambda>k. if starts_with p k then None else m k)"
| "last_write Close m = (\<lambda>k. None)"

lemma cache_step_remembers: "mem.remembers m c \<Longrightarrow> mem.remembers (last_write op m) (cache_step op c)"
proof (cases op)
  case (Put t now k v ttl)
  then show "mem.remembers m c \<Longrightarrow> ?thesis" by (simp add: mem.put_remembers)
next
  case (Get now k)
  then show "mem.remembers m c \<Longrightarrow> ?thesis" by (simp add: mem.get_remembers)
next
  case (Delete k)
  then show "mem.remembers m c \<Longrightarrow> ?thesis" using cache_delete_ok [of c k]
    by (auto simp: mem.remembers_def cache_delete_def delete_conv')
next
  case (DeletePrefix p)
  have "map_of (mc_store (snd (delete_prefix p c))) k = (if \<not> starts_with p k then map_of (mc_store c) k else None)" for k
    using map_of_filter_keys [of "\<lambda>k. \<not> starts_with p k" "mc_store c"] by (simp add: delete_prefix_def)
  then show "mem.remembers m c \<Longrightarrow> ?thesis" using DeletePrefix delete_prefix_ok [of c p]
    by (auto simp: mem.remembers_def)
next
  case Close
  then show "mem.remembers m c \<Longrightarrow> ?thesis" by (simp add: mem.remembers_def store_ok_def cache_close_def)
qed

lemma cache_trace_remembers:
  "mem.remembers m c \<Longrightarrow> mem.remembers (fold last_write ops m) (fold cache_step ops c)"
  by (induction ops arbitrary: m c) (simp_all add: cache_step_remembers)

lemma new_remembers: "mem.remembers (\<lambda>k. None) (new_mem_cache n)"
  by (simp add: mem.remembers_def new_mem_cache_def store_ok_def)

subsection \<open>The bound\<close>

lemma length_update: "length (AList.update k v d) \<le> Suc (length d)"
  by (induction d) auto

lemma length_delete: "length (AList.delete k d) \<le> length d"
  by (induction d) auto

lemma length_filter_out:
  assumes "distinct (map fst d)" "ps = take n (sort_key f d)" "n \<le> length d"
  shows "length (filter (\<lambda>p. fst p \<notin> fst ` set ps) d) = length d - n"
proof -
  have sub: "set ps \<subseteq> set d" using set_take_subset [of n "sort_key f d"] assms(2) by simp
  have "filter (\<lambda>p. fst p \<notin> fst ` set ps) d = filter (\<lambda>p. p \<notin> set ps) d"
    using assms(1) sub by (intro filter_cong) (auto simp: distinct_map inj_on_def)
  moreover have d: "distinct d" using assms(1) by (simp add: distinct_map)
  have "length (filter (\<lambda>p. p \<notin> set ps) d) = card (set d - set ps)"
    using distinct_card [OF distinct_filter [OF d], of "\<lambda>p. p \<notin> set ps"] by (simp add: set_diff_eq)
  also have "\<dots> = card (set d) - card (set ps)" using sub by (simp add: card_Diff_subset)
  also have "card (set ps) = n" using d assms(2,3) by (simp add: distinct_card)
  ultimately show ?thesis using d by (simp add: distinct_card)
qed

lemma evict_makes_room:
  assumes "store_ok c" "4 \<le> mc_max_entries c" "length (mc_store c) \<le> mc_max_entries c"
  shows "length (mc_store (evict now c)) < mc_max_entries c"
proof -
  define live where "live = filter (\<lambda>(k, e, v). \<not> e < now) (mc_store c)"
  have l: "length live \<le> length (mc_store c)" "distinct (map fst live)"
    using assms(1) by (simp_all add: live_def store_ok_def distinct_filter_keys)
  show ?thesis
  proof (cases "mc_max_entries c \<le> length live")
    case True
    define n where "n = mc_max_entries c div 4"
    have n: "0 < n" "n \<le> length live" using assms(2) True by (simp_all add: n_def)
    have "length (mc_store (evict now c)) = length live - n"
      using True length_filter_out [OF l(2) refl n(2), of "\<lambda>(k, e, v). e"] by (simp add: evict_def Let_def flip: live_def n_def)
    then show ?thesis using n l(1) assms(2,3) by linarith
  next
    case False
    then show ?thesis by (simp add: evict_def Let_def flip: live_def)
  qed
qed

lemma max_entries_step [simp]: "mc_max_entries (cache_step op c) = mc_max_entries c"
  by (cases op) (auto simp: cache_set_def evict_def cache_get_def cache_delete_def delete_prefix_def cache_close_def Let_def
    split: option.splits)

lemma cache_step_bounded:
  assumes "store_ok c" "4 \<le> mc_max_entries c" "length (mc_store c) \<le> mc_max_entries c"
  shows "length (mc_store (cache_step op c)) \<le> mc_max_entries c"
proof (cases op)
  case (Put t now k v ttl)
  show ?thesis
  proof (cases "mc_max_entries c \<le> length (mc_store c)")
    case True
    then show ?thesis using Put evict_makes_room [OF assms, of t] length_update [of k "(now + of_int ttl, v)" "mc_store (evict t c)"]
      by (simp add: cache_set_def Let_def)
  next
    case False
    then show ?thesis using Put length_update [of k "(now + of_int ttl, v)" "mc_store c"] by (simp add: cache_set_def Let_def)
  qed
next
  case (Get now k)
  then show ?thesis using assms(3) length_delete [of k "mc_store c"] by (auto simp: cache_get_def split: option.splits)
next
  case (Delete k)
  then show ?thesis using assms(3) length_delete [of k "mc_store c"] by (simp add: cache_delete_def)
next
  case (DeletePrefix p)
  then show ?thesis using order_trans [OF length_filter_le assms(3)] by (simp add: delete_prefix_def)
qed (simp add: cache_close_def)

lemma cache_trace_bounded:
  "4 \<le> mc_max_entries c \<Longrightarrow> mem.remembers m c \<Longrightarrow> length (mc_store c) \<le> mc_max_entries c \<Longrightarrow>
   length (mc_store (fold cache_step ops c)) \<le> mc_max_entries c"
proof (induction ops arbitrary: m c)
  case (Cons op ops)
  have "length (mc_store (cache_step op c)) \<le> mc_max_entries c"
    using Cons.prems by (intro cache_step_bounded) (simp_all add: mem.remembers_def)
  then show ?case
    using Cons.IH [of "cache_step op c" "last_write op m"] Cons.prems cache_step_remembers [of m c op] by simp
qed simp

text \<open>The fixed-window counter writes past the bound: it never evicts.\<close>

lemma incr_window_ignores_bound:
  assumes "incr_window cd now key w c = Some (r, c')"
    and "map_of (mc_store c) (key @ '':'' @ show_int (py_trunc now - py_trunc now mod w)) = None"
  shows "length (mc_store c') = Suc (length (mc_store c))"
proof -
  have "length (AList.update k v d) = Suc (length d)" if "map_of d k = None" for k :: string and v and d :: "(string, entry) dict"
    using that by (induction d) (auto split: if_splits)
  then show ?thesis using assms by (auto simp: incr_window_def Let_def)
qed

subsection \<open>Properties\<close>

text \<open>
  The cache forgets but never lies, and stays bounded: after any trace of operations on a new cache, an
  answer for a key is the last value written under it, not deleted since and not expired; and a cache with
  room for four entries or more never holds more than its maximum.
\<close>

theorem cache_answers_last_write:
  "(fst (cache_get now k (fold cache_step ops (new_mem_cache n))) = Some v \<longrightarrow>
      (\<exists>e. fold last_write ops (\<lambda>k. None) k = Some (e, v) \<and> now \<le> e))
   \<and> (4 \<le> n \<longrightarrow> length (mc_store (fold cache_step ops (new_mem_cache n))) \<le> n)"
proof (intro conjI impI)
  show "\<exists>e. fold last_write ops (\<lambda>k. None) k = Some (e, v) \<and> now \<le> e"
    if "fst (cache_get now k (fold cache_step ops (new_mem_cache n))) = Some v"
    by (rule mem.answer_remembered [OF cache_trace_remembers [OF new_remembers] that])
  show "length (mc_store (fold cache_step ops (new_mem_cache n))) \<le> n" if "4 \<le> n"
    using cache_trace_bounded [OF _ new_remembers, of n ops] that by (simp add: new_mem_cache_def)
qed

theorem cache_answers_last_write_witness:
  "(\<exists>e. fold last_write [Put 0 0 ''k'' ''v'' 60] (\<lambda>k. None) ''k'' = Some (e, ''v'') \<and> 10 \<le> e)
   \<and> length (mc_store (fold cache_step [Put 0 0 ''k'' ''v'' 60] (new_mem_cache 8))) \<le> 8"
  using cache_answers_last_write [of 10 "''k''" "[Put 0 0 ''k'' ''v'' 60]" 8 "''v''"]
  by (simp add: cache_get_def cache_set_def new_mem_cache_def)

end
