(* ===== verification/RateLimiter.thy ===== *)
theory RateLimiter
  imports Errors
begin

text \<open>
  \<open>core/middleware.py\<close>: the fixed-window rate limiter of one API process and the decision of the
  middleware that consults it. A request is what the decision reads of it: path, method, the principal
  the authentication put on the request state (empty when there is none) and the client's host. The
  correlation-id and security-header middlewares only decorate requests, responses and log lines.
\<close>

type_synonym windows = "(string, int \<times> int) dict"

definition prune :: "int \<Rightarrow> windows \<Rightarrow> windows" where
  "prune now m = (if length m < 4096 then m else filter (\<lambda>(k, start, n). \<not> start < now - 300) m)"

definition window_start :: "int \<Rightarrow> int \<Rightarrow> int" where
  "window_start now window_seconds = now - now mod window_seconds"

definition allow :: "int \<Rightarrow> string \<Rightarrow> int \<Rightarrow> int \<Rightarrow> windows \<Rightarrow> (bool \<times> int) \<times> windows" where
  "allow now key limit window_seconds m =
     (let start = window_start now window_seconds;
          fresh = ((True, window_seconds), prune now (AList.update key (start, 1) m))
      in case map_of m key of
           None \<Rightarrow> fresh
         | Some (s, n) \<Rightarrow>
             if s \<noteq> start then fresh
             else if n \<ge> limit then ((False, max 1 (start + window_seconds - now)), m)
             else ((True, window_seconds), AList.update key (start, n + 1) m))"

record rate_limit_settings =
  rl_enabled :: bool
  rl_default_requests_per_minute :: int
  rl_write_requests_per_minute :: int

record http_request =
  hr_path :: string
  hr_method :: string
  hr_principal_id :: string
  hr_client_host :: "string option"

definition EXEMPT_PATHS :: "string list" where
  "EXEMPT_PATHS = [''/healthz'', ''/livez'', ''/readyz'', ''/metrics'', ''/favicon.ico'']"

definition is_write :: "http_request \<Rightarrow> bool" where
  "is_write r = (hr_method r \<in> {''POST'', ''PUT'', ''PATCH'', ''DELETE''})"

definition request_identity :: "http_request \<Rightarrow> string" where
  "request_identity r =
     (if hr_principal_id r \<noteq> [] then hr_principal_id r
      else case hr_client_host r of None \<Rightarrow> ''anon'' | Some h \<Rightarrow> or_str h ''anon'')"

definition limit_of :: "rate_limit_settings \<Rightarrow> http_request \<Rightarrow> int" where
  "limit_of cfg r = (if is_write r then rl_write_requests_per_minute cfg else rl_default_requests_per_minute cfg)"

definition bucket_key :: "http_request \<Rightarrow> string" where
  "bucket_key r = ''rl:'' @ (if is_write r then ''w'' else ''r'') @ '':'' @ request_identity r"

definition exempt :: "rate_limit_settings \<Rightarrow> http_request \<Rightarrow> bool" where
  "exempt cfg r = (\<not> rl_enabled cfg \<or> hr_path r \<in> set EXEMPT_PATHS)"

text \<open>\<open>None\<close> passes the request on; \<open>Some (err, n)\<close> answers with the error and \<open>Retry-After: n\<close>.\<close>

definition throttle :: "rate_limit_settings \<Rightarrow> int \<Rightarrow> http_request \<Rightarrow> windows \<Rightarrow> (py_error \<times> int) option \<times> windows" where
  "throttle cfg now r m =
     (if exempt cfg r then (None, m)
      else case allow now (bucket_key r) (limit_of cfg r) 60 m of
             ((ok, retry_after), m1) \<Rightarrow>
               (if ok then None else Some (RateLimitedError ''Rate limit exceeded, please retry shortly'', retry_after), m1))"

fun serve :: "rate_limit_settings \<Rightarrow> (int \<times> http_request) list \<Rightarrow> windows \<Rightarrow> (py_error \<times> int) option list" where
  "serve cfg [] m = []"
| "serve cfg ((now, r) # rs) m = (case throttle cfg now r m of (a, m1) \<Rightarrow> a # serve cfg rs m1)"

subsection \<open>Counting the requests a window admits\<close>

text \<open>The requests one bucket admits in the window that starts at \<open>w\<close>.\<close>

definition admitted :: "rate_limit_settings \<Rightarrow> string \<Rightarrow> int \<Rightarrow> (int \<times> http_request) list \<Rightarrow> windows \<Rightarrow> nat" where
  "admitted cfg key w rs m =
     length (filter (\<lambda>((now, r), a). a = None \<and> \<not> exempt cfg r \<and> bucket_key r = key \<and> window_start now 60 = w)
       (zip rs (serve cfg rs m)))"

definition used :: "string \<Rightarrow> int \<Rightarrow> windows \<Rightarrow> int" where
  "used key w m = (case map_of m key of None \<Rightarrow> 0 | Some (s, n) \<Rightarrow> if s = w then n else 0)"

lemma admitted_Nil [simp]: "admitted cfg key w [] m = 0"
  by (simp add: admitted_def)

lemma admitted_Cons:
  "admitted cfg key w ((now, r) # rs) m =
     (if fst (throttle cfg now r m) = None \<and> \<not> exempt cfg r \<and> bucket_key r = key \<and> window_start now 60 = w then 1 else 0)
     + admitted cfg key w rs (snd (throttle cfg now r m))"
  by (simp add: admitted_def split_beta)

lemma window_start_le: "window_start now 60 \<le> now" "now < window_start now 60 + 60"
  unfolding window_start_def by (simp_all add: algebra_simps)

lemma window_start_mono: "a \<le> b \<Longrightarrow> window_start a 60 \<le> window_start b 60"
proof -
  assume le: "a \<le> b"
  have "window_start x 60 = 60 * (x div 60)" for x :: int
    unfolding window_start_def by (simp add: minus_mod_eq_mult_div)
  then show ?thesis using zdiv_mono1 [OF le, of 60] by simp
qed

lemma map_of_prune:
  assumes "distinct (map fst m)" "now - 300 \<le> w"
  shows "used key w (prune now m) = used key w m"
proof (cases "map_of m key")
  case None
  then have "map_of (prune now m) key = None"
    by (auto simp: prune_def map_of_eq_None_iff)
  then show ?thesis using None by (simp add: used_def)
next
  case (Some p)
  obtain s n where p: "p = (s, n)" by (cases p)
  show ?thesis
  proof (cases "length m < 4096 \<or> now - 300 \<le> s")
    case True
    have "(key, s, n) \<in> set (prune now m)" using Some p True map_of_SomeD [OF Some] by (auto simp: prune_def)
    moreover have "distinct (map fst (prune now m))" using assms(1) by (simp add: prune_def distinct_map_filter)
    ultimately have "map_of (prune now m) key = Some (s, n)" by (rule map_of_is_SomeI [rotated])
    then show ?thesis using Some p by (simp add: used_def)
  next
    case False
    then have "map_of (prune now m) key = None"
      using assms(1) Some p by (auto simp: prune_def map_of_eq_None_iff dest: eq_key_imp_eq_value map_of_is_SomeI)
    then show ?thesis using Some p False assms(2) by (simp add: used_def)
  qed
qed


lemma used_update [simp]: "used key w (AList.update k (s, n) m) = (if key = k then (if s = w then n else 0) else used key w m)"
  by (simp add: used_def update_conv')

lemma prune_ok: "distinct (map fst m) \<Longrightarrow> distinct (map fst (prune now m))" "set (prune now m) \<subseteq> set m"
  by (auto simp: prune_def distinct_map_filter)

text \<open>No bucket is younger than the window of the clock.\<close>

definition windows_ok :: "int \<Rightarrow> windows \<Rightarrow> bool" where
  "windows_ok now m \<longleftrightarrow> distinct (map fst m) \<and> (\<forall>(k, s, n)\<in>set m. s \<le> window_start now 60)"

lemma windows_ok_later: "windows_ok now m \<Longrightarrow> now \<le> now' \<Longrightarrow> windows_ok now' m"
  using window_start_mono [of now now'] by (force simp: windows_ok_def)

lemma windows_ok_update: "windows_ok now m \<Longrightarrow> windows_ok now (AList.update k (window_start now 60, n) m)"
  by (auto simp: windows_ok_def distinct_update dest!: set_update)

lemma windows_ok_prune: "windows_ok now m \<Longrightarrow> windows_ok now (prune now m)"
  using prune_ok(1) [of m now] prune_ok(2) [of now m] by (auto simp: windows_ok_def)

lemma windows_ok_used: "windows_ok now m \<Longrightarrow> window_start now 60 < w \<Longrightarrow> used key w m = 0"
  by (force simp: windows_ok_def used_def split: option.splits dest: map_of_SomeD)

lemma windows_ok_allow:
  assumes "windows_ok now m" shows "windows_ok now (snd (allow now k limit 60 m))"
  using assms windows_ok_prune [OF windows_ok_update] windows_ok_update
  by (simp add: allow_def Let_def split: option.splits prod.splits)

lemma allow_used:
  assumes ok: "windows_ok now m" and w: "window_start now 60 \<le> w" and "1 \<le> L" "used key w m \<le> L"
    and lim: "k = key \<Longrightarrow> limit = L"
  shows "used key w (snd (allow now k limit 60 m)) = used key w m
       + (if fst (fst (allow now k limit 60 m)) \<and> k = key \<and> window_start now 60 = w then 1 else 0)
    \<and> used key w (snd (allow now k limit 60 m)) \<le> L"
proof -
  have near: "now - 300 \<le> w" using window_start_le(2) [of now] w by linarith
  let ?up = "AList.update k (window_start now 60, 1) m"
  have "distinct (map fst ?up)" using ok by (simp add: windows_ok_def distinct_update)
  then have fresh: "used key w (prune now ?up) = used key w ?up" by (rule map_of_prune [OF _ near])
  show ?thesis
  proof (cases "k = key")
    case False
    then show ?thesis using fresh assms(4) by (simp add: allow_def Let_def split: option.splits prod.splits)
  next
    case True
    note L = lim [OF True]
    show ?thesis
    proof (cases "window_start now 60 = w")
      case False
      then have "used key w m = 0" using windows_ok_used [OF ok] w by simp
      then show ?thesis using fresh assms(3) True False by (simp add: allow_def Let_def split: option.splits prod.splits)
    next
      case w': True
      show ?thesis
      proof (cases "map_of m key")
        case None
        then have "used key w m = 0" by (simp add: used_def)
        then show ?thesis using fresh assms(3) True w' None by (simp add: allow_def Let_def)
      next
        case (Some p)
        obtain s n where p: "p = (s, n)" by (cases p)
        show ?thesis
        proof (cases "s = w")
          case eq: True
          then have "used key w m = n" using Some p by (simp add: used_def)
          then show ?thesis using assms(4) True w' L Some p eq by (simp add: allow_def Let_def)
        next
          case ne: False
          then have "used key w m = 0" using Some p by (simp add: used_def)
          then show ?thesis using fresh assms(3) True w' Some p ne by (simp add: allow_def Let_def)
        qed
      qed
    qed
  qed
qed

lemma admitted_past: "w < window_start now 60 \<Longrightarrow> \<forall>p\<in>set rs. now \<le> fst p \<Longrightarrow> admitted cfg key w rs m = 0"
proof (induction rs arbitrary: m)
  case (Cons p rs)
  obtain t r where p: "p = (t, r)" by (cases p)
  have "w < window_start t 60" using Cons.prems p window_start_mono [of now t] by simp
  then show ?case using Cons p by (simp add: admitted_Cons)
qed simp

lemma admitted_bound:
  assumes "1 \<le> L" "\<forall>(t, r)\<in>set rs. bucket_key r = key \<longrightarrow> limit_of cfg r = L"
  shows "sorted (map fst rs) \<Longrightarrow> \<forall>p\<in>set rs. windows_ok (fst p) m \<Longrightarrow> used key w m \<le> L \<Longrightarrow>
    int (admitted cfg key w rs m) + used key w m \<le> L"
  using assms(2)
proof (induction rs arbitrary: m)
  case (Cons p rs)
  obtain now r where p: "p = (now, r)" by (cases p)
  have later: "\<forall>q\<in>set rs. now \<le> fst q" using Cons.prems(1) p by simp
  show ?case
  proof (cases "w < window_start now 60")
    case True
    then show ?thesis using admitted_past [OF True, of "p # rs"] later p Cons.prems(3) by simp
  next
    case False
    define m1 where "m1 = snd (throttle cfg now r m)"
    have ok: "windows_ok now m" using Cons.prems(2) p by simp
    have step: "used key w m1 = used key w m
        + (if fst (throttle cfg now r m) = None \<and> \<not> exempt cfg r \<and> bucket_key r = key \<and> window_start now 60 = w then 1 else 0)
        \<and> used key w m1 \<le> L \<and> windows_ok now m1"
    proof (cases "exempt cfg r")
      case True
      then show ?thesis using Cons.prems(3) ok by (simp add: m1_def throttle_def)
    next
      case no: False
      have lim: "limit_of cfg r = L" if "bucket_key r = key" using that Cons.prems(4) p by simp
      have w: "window_start now 60 \<le> w" using False by simp
      show ?thesis
        using no allow_used [where k = "bucket_key r" and limit = "limit_of cfg r", OF ok w assms(1) Cons.prems(3) lim]
          windows_ok_allow [OF ok, of "bucket_key r" "limit_of cfg r"]
        by (simp only: m1_def throttle_def split_beta if_False snd_conv fst_conv) (simp split: if_splits)
    qed
    have "\<forall>q\<in>set rs. windows_ok (fst q) m1" using step later windows_ok_later by blast
    then have "int (admitted cfg key w rs m1) + used key w m1 \<le> L"
      using Cons.prems step by (intro Cons.IH) auto
    then show ?thesis using step p by (auto simp: admitted_Cons simp flip: m1_def split: if_splits)
  qed
qed simp

lemma bucket_key_limit: "bucket_key r = bucket_key r' \<Longrightarrow> limit_of cfg r = limit_of cfg r'"
  by (auto simp: bucket_key_def limit_of_def split: if_splits)

lemma retry_admitted:
  assumes "throttle cfg now r m = (Some (err, n), m1)"
  shows "fst (throttle cfg (now + n) r m1) = None \<and> 1 \<le> n \<and> n \<le> 60"
proof -
  obtain s c where key: "map_of m (bucket_key r) = Some (s, c)" "s = window_start now 60" "m1 = m"
    and n: "n = max 1 (s + 60 - now)" and ex: "\<not> exempt cfg r"
    using assms by (auto simp: throttle_def allow_def Let_def split: if_splits option.splits prod.splits)
  have n': "n = s + 60 - now" using n key(2) window_start_le [of now] by simp
  have "window_start (now + n) 60 = s + 60"
  proof -
    have "(now + n) mod 60 = (s + 60) mod 60" by (simp add: n')
    moreover have "s mod 60 = 0" by (simp add: key(2) window_start_def minus_mod_eq_mult_div)
    ultimately show ?thesis by (simp add: window_start_def n')
  qed
  then show ?thesis using key ex n' window_start_le [of now]
    by (simp add: throttle_def allow_def Let_def)
qed

text \<open>The number returned with an admission is the window, not the time to its end.\<close>

lemma allowed_reports_window: "fst (allow now k limit w m) = (True, n) \<Longrightarrow> n = w"
  by (auto simp: allow_def Let_def split: option.splits prod.splits if_splits)

subsection \<open>Properties\<close>

text \<open>
  The fixed window holds: of any requests in clock order, interleaved with those of other principals
  and with the pruning of stale buckets, one principal's reads (or writes) admitted in one minute-aligned
  window never exceed the configured limit; and a refused client that waits the \<open>Retry-After\<close> it was
  told is admitted if its bucket was not used meanwhile.
\<close>

theorem rate_limit_holds:
  assumes "sorted (map fst rs)" "1 \<le> limit_of cfg r"
  shows "int (admitted cfg (bucket_key r) w rs []) \<le> limit_of cfg r
    \<and> (throttle cfg now r m = (Some (err, n), m1) \<longrightarrow> fst (throttle cfg (now + n) r m1) = None \<and> 1 \<le> n \<and> n \<le> 60)"
proof -
  have "int (admitted cfg (bucket_key r) w rs []) + used (bucket_key r) w [] \<le> limit_of cfg r"
  proof (rule admitted_bound [OF assms(2) _ assms(1)])
    show "\<forall>(t, q)\<in>set rs. bucket_key q = bucket_key r \<longrightarrow> limit_of cfg q = limit_of cfg r"
      using bucket_key_limit [of _ r] by blast
    show "used (bucket_key r) w [] \<le> limit_of cfg r" using assms(2) by (simp add: used_def)
  qed (simp add: windows_ok_def)
  then show ?thesis using retry_admitted [of cfg now r m err n m1] by (simp add: used_def)
qed

theorem rate_limit_holds_witness:
  "int (admitted \<lparr>rl_enabled = True, rl_default_requests_per_minute = 1, rl_write_requests_per_minute = 1\<rparr>
      (bucket_key \<lparr>hr_path = ''/runs'', hr_method = ''GET'', hr_principal_id = ''u'', hr_client_host = None\<rparr>) 60
      [(61, \<lparr>hr_path = ''/runs'', hr_method = ''GET'', hr_principal_id = ''u'', hr_client_host = None\<rparr>),
       (62, \<lparr>hr_path = ''/runs'', hr_method = ''GET'', hr_principal_id = ''u'', hr_client_host = None\<rparr>)] []) \<le> 1"
  using rate_limit_holds [of "[(61, \<lparr>hr_path = ''/runs'', hr_method = ''GET'', hr_principal_id = ''u'', hr_client_host = None\<rparr>),
       (62, \<lparr>hr_path = ''/runs'', hr_method = ''GET'', hr_principal_id = ''u'', hr_client_host = None\<rparr>)]"
      "\<lparr>rl_enabled = True, rl_default_requests_per_minute = 1, rl_write_requests_per_minute = 1\<rparr>"
      "\<lparr>hr_path = ''/runs'', hr_method = ''GET'', hr_principal_id = ''u'', hr_client_host = None\<rparr>" 60]
  by (simp add: limit_of_def is_write_def)

end
