(* ===== verification/Gateway.thy ===== *)
theory Gateway
  imports Cache Errors
begin

text \<open>
  \<open>llm/base.py\<close>, \<open>llm/gateway.py\<close> and \<open>llm/ledger.py\<close>: requests, results and pricing of the model layer, the
  gateway every agent calls a model through (budget, cache, retries, degradation, accounting) and the
  spend ledgers.

  The providers are arguments: a model maps a request, the consumer of its text fragments and the
  outside world to a result or an exception. SHA-256, the JSON codec, the clock readings of the cache
  and the success of a database commit are arguments too. The semaphore, the log lines and the metrics
  have no counterpart: one call at a time is modelled. The text of an exception from the last attempt
  that \<open>complete\<close> stores beside the result is kept; latency is whatever the provider reports.

  The locale \<open>spend_ledger\<close> is what the gateway relies on from a ledger: what it has recorded is what
  it sums.
\<close>

datatype llm_provider = MOCK | OPENAI | AZURE_OPENAI | OPENAI_COMPATIBLE

primrec llm_provider_value :: "llm_provider \<Rightarrow> string" where
  "llm_provider_value MOCK = ''mock''"
| "llm_provider_value OPENAI = ''openai''"
| "llm_provider_value AZURE_OPENAI = ''azure_openai''"
| "llm_provider_value OPENAI_COMPATIBLE = ''openai_compatible''"

definition llm_provider_of :: "string \<Rightarrow> llm_provider option" where
  "llm_provider_of s = find (\<lambda>p. llm_provider_value p = s) [MOCK, OPENAI, AZURE_OPENAI, OPENAI_COMPATIBLE]"

lemma llm_provider_of_value [simp]: "llm_provider_of (llm_provider_value p) = Some p"
  by (cases p) (simp_all add: llm_provider_of_def)

record llm_settings =
  lm_max_retries :: int
  lm_retry_base_delay_seconds :: real
  lm_cache_enabled :: bool
  lm_cache_ttl_seconds :: int
  lm_monthly_budget_usd :: real
  lm_fail_open_to_mock :: bool
  lm_stream :: bool

subsection \<open>Requests, results, prices\<close>

type_synonym price = "real \<times> real"

definition DEFAULT_PRICING :: "(string, price) dict" where
  "DEFAULT_PRICING =
     [(''gpt-4o-mini'', (15/100, 60/100)), (''gpt-4o'', (250/100, 10)), (''gpt-4.1-mini'', (40/100, 160/100)),
      (''gpt-4.1'', (2, 8)), (''o4-mini'', (110/100, 440/100)), (''deepseek-chat'', (27/100, 110/100)),
      (''claude-sonnet-4'', (3, 15)), (''qwen-turbo'', (5/100, 20/100)), (''qwen-plus'', (40/100, 120/100)),
      (''qwen-max'', (160/100, 640/100)), (''default'', (1, 3))]"

definition resolve_pricing :: "string \<Rightarrow> (string, price) dict \<Rightarrow> price" where
  "resolve_pricing model overrides =
     (let table = fold (\<lambda>(k, p). AList.update k p) overrides DEFAULT_PRICING
      in case map_of table model of
           Some p \<Rightarrow> p
         | None \<Rightarrow> (case map_of table ''default'' of Some p \<Rightarrow> p | None \<Rightarrow> (1, 3)))"

definition is_priced :: "string \<Rightarrow> (string, price) dict \<Rightarrow> bool" where
  "is_priced model overrides =
     (map_of overrides model \<noteq> None \<or> (map_of DEFAULT_PRICING model \<noteq> None \<and> model \<noteq> ''default''))"

definition estimate_cost :: "string \<Rightarrow> int \<Rightarrow> int \<Rightarrow> (string, price) dict \<Rightarrow> real" where
  "estimate_cost model prompt_tokens completion_tokens overrides =
     (case resolve_pricing model overrides of
        (p, c) \<Rightarrow> (of_int prompt_tokens * p + of_int completion_tokens * c) / 1000000)"

record token_usage =
  us_prompt_tokens :: int
  us_completion_tokens :: int
  us_cost_usd :: real

definition usage_total :: "token_usage \<Rightarrow> int" where
  "usage_total u = us_prompt_tokens u + us_completion_tokens u"

definition usage_dict :: "token_usage \<Rightarrow> json_dict" where
  "usage_dict u =
     [(''prompt_tokens'', JInt (us_prompt_tokens u)), (''completion_tokens'', JInt (us_completion_tokens u)),
      (''total_tokens'', JInt (usage_total u)), (''cost_usd'', JFloat (Fin (py_round 6 (us_cost_usd u))))]"

record completion_request =
  rq_task :: string
  rq_system_prompt :: string
  rq_user_prompt :: string
  rq_temperature :: "real option"
  rq_max_tokens :: "int option"
  rq_json_mode :: bool
  rq_schema_hint :: string

definition unit_separator :: char where "unit_separator = char_of (31 :: nat)"

definition cache_key :: "(bytes \<Rightarrow> string) \<Rightarrow> completion_request \<Rightarrow> string" where
  "cache_key sha256 r =
     sha256 (concat (map (\<lambda>part. part @ [unit_separator]) [rq_task r, rq_system_prompt r, rq_user_prompt r, rq_schema_hint r])
             @ (if rq_json_mode r then ''True'' else ''False''))"

record completion_result =
  cp_text :: string
  cp_usage :: token_usage
  cp_provider :: llm_provider
  cp_model :: string
  cp_latency_ms :: int
  cp_cached :: bool
  cp_degraded :: bool
  cp_error :: "string option"

subsection \<open>Ledgers\<close>

record 'l ledger =
  ld_record :: "string option \<Rightarrow> string \<Rightarrow> completion_result \<Rightarrow> 'l \<Rightarrow> (py_error, unit) res \<times> 'l"
  ld_month_to_date :: "'l \<Rightarrow> (py_error, real) res \<times> 'l"

record null_ledger =
  nl_total_usd :: real
  nl_total_tokens :: int

definition null_spend_ledger :: "null_ledger ledger" where
  "null_spend_ledger =
     \<lparr>ld_record = \<lambda>run agent r l. (Inr (), l\<lparr>nl_total_usd := nl_total_usd l + us_cost_usd (cp_usage r),
          nl_total_tokens := nl_total_tokens l + usage_total (cp_usage r)\<rparr>),
      ld_month_to_date = \<lambda>l. (Inr (nl_total_usd l), l)\<rparr>"

record spend_row =
  sr_run_id :: "string option"
  sr_agent :: string
  sr_provider :: string
  sr_model :: string
  sr_prompt_tokens :: int
  sr_completion_tokens :: int
  sr_cost_usd :: real
  sr_latency_ms :: int
  sr_outcome :: string
  sr_created_at :: int

definition spend_row_of :: "int \<Rightarrow> string option \<Rightarrow> string \<Rightarrow> completion_result \<Rightarrow> spend_row" where
  "spend_row_of now run agent r =
     \<lparr>sr_run_id = run, sr_agent = agent, sr_provider = llm_provider_value (cp_provider r), sr_model = cp_model r,
      sr_prompt_tokens = us_prompt_tokens (cp_usage r), sr_completion_tokens = us_completion_tokens (cp_usage r),
      sr_cost_usd = us_cost_usd (cp_usage r), sr_latency_ms = cp_latency_ms r,
      sr_outcome = (if cp_degraded r then ''degraded'' else ''success''), sr_created_at = now\<rparr>"

definition month_total :: "int \<Rightarrow> spend_row list \<Rightarrow> real" where
  "month_total month_start rows = sum_list (map sr_cost_usd (filter (\<lambda>r. month_start \<le> sr_created_at r) rows))"

text \<open>\<open>commit\<close>: the exception the database raises instead of storing the row, if any.\<close>

definition database_spend_ledger :: "(spend_row \<Rightarrow> py_error option) \<Rightarrow> int \<Rightarrow> int \<Rightarrow> spend_row list ledger" where
  "database_spend_ledger commit now month_start =
     \<lparr>ld_record = \<lambda>run agent r rows.
        if cp_cached r then (Inr (), rows)
        else let row = spend_row_of now run agent r
             in (case commit row of Some err \<Rightarrow> (Inl err, rows) | None \<Rightarrow> (Inr (), rows @ [row])),
      ld_month_to_date = \<lambda>rows. (Inr (month_total month_start rows), rows)\<rparr>"

record model_spend =
  mo_provider :: string
  mo_model :: string
  mo_calls :: int
  mo_prompt_tokens :: int
  mo_completion_tokens :: int
  mo_cost_usd :: real
  mo_avg_latency_ms :: real

definition ledger_groups :: "int \<Rightarrow> spend_row list \<Rightarrow> ((string \<times> string) \<times> spend_row list) list" where
  "ledger_groups cutoff rows =
     group_by_key (\<lambda>r. (sr_provider r, sr_model r)) (filter (\<lambda>r. cutoff \<le> sr_created_at r) rows) []"

definition ledger_summary :: "int \<Rightarrow> spend_row list \<Rightarrow> (int \<times> int \<times> int \<times> real) \<times> model_spend list" where
  "ledger_summary cutoff rows =
     (let gs = ledger_groups cutoff rows
      in ((sum_list (map (\<lambda>(k, rs). int (length rs)) gs),
           sum_list (map (\<lambda>(k, rs). sum_list (map sr_prompt_tokens rs)) gs),
           sum_list (map (\<lambda>(k, rs). sum_list (map sr_completion_tokens rs)) gs),
           py_round 4 (sum_list (map (\<lambda>(k, rs). sum_list (map sr_cost_usd rs)) gs))),
          map (\<lambda>((p, m), rs). \<lparr>mo_provider = p, mo_model = m, mo_calls = int (length rs),
                 mo_prompt_tokens = sum_list (map sr_prompt_tokens rs),
                 mo_completion_tokens = sum_list (map sr_completion_tokens rs),
                 mo_cost_usd = py_round 4 (sum_list (map sr_cost_usd rs)),
                 mo_avg_latency_ms = py_round 1 (of_int (sum_list (map sr_latency_ms rs)) / of_nat (length rs))\<rparr>) gs))"

subsection \<open>The gateway\<close>

type_synonym 'w delta_handler = "string \<Rightarrow> 'w \<Rightarrow> 'w"

record 'w language_model =
  ml_provider :: llm_provider
  ml_model :: string
  ml_complete :: "completion_request \<Rightarrow> 'w delta_handler option \<Rightarrow> 'w \<Rightarrow> (py_error, completion_result) res \<times> 'w"

record tally =
  ty_prompt_tokens :: int
  ty_completion_tokens :: int
  ty_cost_usd :: real
  ty_calls :: int

record ('w, 'l) gateway_config =
  gc_settings :: llm_settings
  gc_primary :: "'w language_model"
  gc_fallback :: "'w language_model"
  gc_ledger :: "'l ledger"
  gc_codec :: json_codec
  gc_default_ttl :: int
  gc_sha256 :: "bytes \<Rightarrow> string"

text \<open>\<open>gw_sleeps\<close> records the back-off delays slept, newest last.\<close>

record 'l gateway =
  gw_cache :: "mem_cache option"
  gw_ledger :: 'l
  gw_budget_exceeded :: bool
  gw_usage_by_run :: "(string, tally) dict"
  gw_sleeps :: "real list"

definition no_tally :: tally where
  "no_tally = \<lparr>ty_prompt_tokens = 0, ty_completion_tokens = 0, ty_cost_usd = 0, ty_calls = 0\<rparr>"

definition run_tally :: "'l gateway \<Rightarrow> string \<Rightarrow> tally" where
  "run_tally g run = (case map_of (gw_usage_by_run g) run of None \<Rightarrow> no_tally | Some t \<Rightarrow> t)"

definition gateway_usage :: "'l gateway \<Rightarrow> string \<Rightarrow> json_dict" where
  "gateway_usage g run =
     (let t = run_tally g run
      in [(''prompt_tokens'', JInt (ty_prompt_tokens t)), (''completion_tokens'', JInt (ty_completion_tokens t)),
          (''total_tokens'', JInt (ty_prompt_tokens t + ty_completion_tokens t)),
          (''cost_usd'', JFloat (Fin (ty_cost_usd t))), (''calls'', JInt (ty_calls t))])"

definition budget_message :: "llm_settings \<Rightarrow> string" where
  "budget_message cfg = ''Monthly LLM budget of $'' @ fmt_fixed 2 (lm_monthly_budget_usd cfg) @ '' has been reached''"

definition enforce_budget :: "('w, 'l) gateway_config \<Rightarrow> 'l gateway \<Rightarrow> (py_error, unit) res \<times> 'l gateway" where
  "enforce_budget gc g =
     (let limit = lm_monthly_budget_usd (gc_settings gc)
      in if limit \<le> 0 \<or> gw_budget_exceeded g
         then (if gw_budget_exceeded g then Inl (BudgetExceededError (budget_message (gc_settings gc))) else Inr (), g)
         else case ld_month_to_date (gc_ledger gc) (gw_ledger g) of
                (Inl err, l) \<Rightarrow> (Inl err, g\<lparr>gw_ledger := l\<rparr>)
              | (Inr spent, l) \<Rightarrow>
                  if spent \<ge> limit
                  then (Inl (BudgetExceededError (budget_message (gc_settings gc))),
                        g\<lparr>gw_ledger := l, gw_budget_exceeded := True\<rparr>)
                  else (Inr (), g\<lparr>gw_ledger := l\<rparr>))"

text \<open>
  What \<open>_read_cache\<close> makes of a payload. The payloads under the gateway's prefix are those
  \<open>_write_cache\<close> stores; a field of another type is treated as undecodable.
\<close>

definition json_int :: "json_dict \<Rightarrow> string \<Rightarrow> int option" where
  "json_int d k = (case map_of d k of None \<Rightarrow> Some 0 | Some (JInt n) \<Rightarrow> Some n | _ \<Rightarrow> None)"

definition json_str_or :: "json_dict \<Rightarrow> string \<Rightarrow> string \<Rightarrow> string option" where
  "json_str_or d k fallback = (case map_of d k of None \<Rightarrow> Some fallback | Some (JStr s) \<Rightarrow> Some s | _ \<Rightarrow> None)"

definition decode_cached :: "('w, 'l) gateway_config \<Rightarrow> json \<Rightarrow> completion_result option" where
  "decode_cached gc payload =
     (case payload of
        JDict d \<Rightarrow>
          (case (map_of d ''text'', map_of d ''usage'') of
             (Some (JStr text), u) \<Rightarrow>
               (let usage_raw = (case u of Some (JDict ud) \<Rightarrow> Some ud | None \<Rightarrow> Some [] | _ \<Rightarrow> None)
                in case usage_raw of
                     None \<Rightarrow> None
                   | Some ud \<Rightarrow>
                       (case (json_int ud ''prompt_tokens'', json_int ud ''completion_tokens'',
                              Option.bind (json_str_or d ''provider'' (llm_provider_value (ml_provider (gc_primary gc)))) llm_provider_of,
                              json_str_or d ''model'' (ml_model (gc_primary gc))) of
                          (Some p, Some c, Some provider, Some model) \<Rightarrow>
                            Some \<lparr>cp_text = text, cp_usage = \<lparr>us_prompt_tokens = p, us_completion_tokens = c, us_cost_usd = 0\<rparr>,
                                  cp_provider = provider, cp_model = model, cp_latency_ms = 0, cp_cached = True,
                                  cp_degraded = False, cp_error = None\<rparr>
                        | _ \<Rightarrow> None))
           | _ \<Rightarrow> None)
      | _ \<Rightarrow> None)"

definition llm_key :: "('w, 'l) gateway_config \<Rightarrow> completion_request \<Rightarrow> string" where
  "llm_key gc r = ''llm:'' @ cache_key (gc_sha256 gc) r"

definition read_cache :: "('w, 'l) gateway_config \<Rightarrow> real \<Rightarrow> completion_request \<Rightarrow> 'l gateway
   \<Rightarrow> completion_result option \<times> 'l gateway" where
  "read_cache gc now r g =
     (case gw_cache g of
        None \<Rightarrow> (None, g)
      | Some c \<Rightarrow>
          if \<not> lm_cache_enabled (gc_settings gc) then (None, g)
          else case get_json (gc_codec gc) now (llm_key gc r) c of
                 (None, c1) \<Rightarrow> (None, g\<lparr>gw_cache := Some c1\<rparr>)
               | (Some payload, c1) \<Rightarrow> (decode_cached gc payload, g\<lparr>gw_cache := Some c1\<rparr>))"

definition cache_payload :: "completion_result \<Rightarrow> json" where
  "cache_payload res =
     JDict [(''text'', JStr (cp_text res)), (''provider'', JStr (llm_provider_value (cp_provider res))),
            (''model'', JStr (cp_model res)), (''usage'', JDict (usage_dict (cp_usage res)))]"

definition write_cache :: "('w, 'l) gateway_config \<Rightarrow> real \<times> real \<Rightarrow> completion_request \<Rightarrow> completion_result
   \<Rightarrow> 'l gateway \<Rightarrow> 'l gateway" where
  "write_cache gc clock r res g =
     (case gw_cache g of
        None \<Rightarrow> g
      | Some c \<Rightarrow>
          if \<not> lm_cache_enabled (gc_settings gc) then g
          else if cp_degraded res \<or> opt_str (cp_error res) \<noteq> [] then g
          else g\<lparr>gw_cache := Some (set_json (gc_codec gc) (gc_default_ttl gc) (fst clock) (snd clock) (llm_key gc r)
                                (cache_payload res) (Some (lm_cache_ttl_seconds (gc_settings gc))) c)\<rparr>)"

definition attempts_of :: "llm_settings \<Rightarrow> nat" where
  "attempts_of cfg = nat (max 1 (lm_max_retries cfg))"

text \<open>
  One attempt: an empty completion counts as a provider failure. \<open>Some\<close> error is an
  \<open>ExternalServiceError\<close>, which is retried; any other exception leaves the loop.
\<close>

definition attempt_once :: "'w language_model \<Rightarrow> completion_request \<Rightarrow> 'w delta_handler option \<Rightarrow> 'w
   \<Rightarrow> (py_error, completion_result) res \<times> 'w" where
  "attempt_once m r h w =
     (case ml_complete m r h w of
        (Inl err, w1) \<Rightarrow> (Inl err, w1)
      | (Inr res, w1) \<Rightarrow>
          (if strip (cp_text res) = [] then Inl (ExternalServiceError ''Provider returned an empty completion'') else Inr res, w1))"

definition backoff :: "llm_settings \<Rightarrow> nat \<Rightarrow> real" where
  "backoff cfg attempt = min (lm_retry_base_delay_seconds cfg * 2 ^ (attempt - 1)) 8"

text \<open>\<open>left\<close> attempts remain, the next one is number \<open>attempt\<close>. \<open>Inr None\<close>: all failed, with the last error.\<close>

fun attempt_loop :: "llm_settings \<Rightarrow> 'w language_model \<Rightarrow> completion_request \<Rightarrow> 'w delta_handler option \<Rightarrow> nat \<Rightarrow> nat
   \<Rightarrow> string \<Rightarrow> real list \<Rightarrow> 'w \<Rightarrow> (py_error, completion_result option) res \<times> string \<times> real list \<times> 'w" where
  "attempt_loop cfg m r h attempt 0 err_text sleeps w = (Inr None, err_text, sleeps, w)"
| "attempt_loop cfg m r h attempt (Suc left) err_text sleeps w =
     (case attempt_once m r (if attempt = 1 then h else None) w of
        (Inr res, w1) \<Rightarrow> (Inr (Some res), err_text, sleeps, w1)
      | (Inl (ExternalServiceError msg), w1) \<Rightarrow>
          if left = 0 then (Inr None, msg, sleeps, w1)
          else attempt_loop cfg m r h (attempt + 1) left msg (sleeps @ [backoff cfg attempt]) w1
      | (Inl err, w1) \<Rightarrow> (Inl err, err_text, sleeps, w1))"

definition failure_message :: "llm_settings \<Rightarrow> string" where
  "failure_message cfg = ''Model provider failed after '' @ show_nat (attempts_of cfg) @ '' attempts''"

definition call_with_retry :: "('w, 'l) gateway_config \<Rightarrow> completion_request \<Rightarrow> 'w delta_handler option \<Rightarrow> 'w
   \<Rightarrow> (py_error, completion_result) res \<times> real list \<times> 'w" where
  "call_with_retry gc r h w =
     (let cfg = gc_settings gc
      in case attempt_loop cfg (gc_primary gc) r h 1 (attempts_of cfg) [] [] w of
           (Inl err, err_text, sleeps, w1) \<Rightarrow> (Inl err, sleeps, w1)
         | (Inr (Some res), err_text, sleeps, w1) \<Rightarrow> (Inr res, sleeps, w1)
         | (Inr None, err_text, sleeps, w1) \<Rightarrow>
             if lm_fail_open_to_mock cfg
             then (case ml_complete (gc_fallback gc) r None w1 of
                     (Inl err, w2) \<Rightarrow> (Inl err, sleeps, w2)
                   | (Inr d, w2) \<Rightarrow>
                       (Inr \<lparr>cp_text = cp_text d, cp_usage = cp_usage d, cp_provider = cp_provider d, cp_model = cp_model d,
                             cp_latency_ms = cp_latency_ms d, cp_cached = False, cp_degraded = True, cp_error = Some err_text\<rparr>,
                        sleeps, w2))
             else (Inl (ExternalServiceError (failure_message cfg)), sleeps, w1))"

definition tally_usage :: "string option \<Rightarrow> completion_result \<Rightarrow> 'l gateway \<Rightarrow> 'l gateway" where
  "tally_usage run res g =
     (case run of
        None \<Rightarrow> g
      | Some run_id \<Rightarrow>
          if run_id = [] then g
          else let t = run_tally g run_id
               in g\<lparr>gw_usage_by_run := AList.update run_id
                     \<lparr>ty_prompt_tokens = ty_prompt_tokens t + us_prompt_tokens (cp_usage res),
                      ty_completion_tokens = ty_completion_tokens t + us_completion_tokens (cp_usage res),
                      ty_cost_usd = ty_cost_usd t + us_cost_usd (cp_usage res), ty_calls = ty_calls t + 1\<rparr>
                     (gw_usage_by_run g)\<rparr>)"

definition settle :: "('w, 'l) gateway_config \<Rightarrow> real \<times> real \<Rightarrow> completion_request \<Rightarrow> string option \<Rightarrow> string \<Rightarrow> completion_result
   \<Rightarrow> 'l gateway \<Rightarrow> (py_error, completion_result) res \<times> 'l gateway" where
  "settle gc clock r run agent res g =
     (let g1 = write_cache gc clock r res g
      in case ld_record (gc_ledger gc) run agent res (gw_ledger g1) of
           (Inl err, l) \<Rightarrow> (Inl err, g1\<lparr>gw_ledger := l\<rparr>)
         | (Inr _, l) \<Rightarrow> (Inr res, tally_usage run res (g1\<lparr>gw_ledger := l\<rparr>)))"

definition hand_over :: "'w delta_handler option \<Rightarrow> string \<Rightarrow> 'w \<Rightarrow> 'w" where
  "hand_over h text w = (case h of None \<Rightarrow> w | Some f \<Rightarrow> if text = [] then w else f text w)"

text \<open>\<open>clock\<close>: the readings of the cache lookup, of an eviction and of the cache write.\<close>

definition complete :: "('w, 'l) gateway_config \<Rightarrow> real \<times> real \<times> real \<Rightarrow> completion_request \<Rightarrow> string option \<Rightarrow> string
   \<Rightarrow> 'w delta_handler option \<Rightarrow> 'l gateway \<Rightarrow> 'w \<Rightarrow> (py_error, completion_result) res \<times> 'l gateway \<times> 'w" where
  "complete gc clock r run agent on_delta g w =
     (case enforce_budget gc g of
        (Inl err, g1) \<Rightarrow> (Inl err, g1, w)
      | (Inr _, g1) \<Rightarrow>
          let deltas = (if lm_stream (gc_settings gc) then on_delta else None)
          in case read_cache gc (fst clock) r g1 of
               (Some hit, g2) \<Rightarrow> (Inr hit, g2, hand_over deltas (cp_text hit) w)
             | (None, g2) \<Rightarrow>
                 (case call_with_retry gc r deltas w of
                    (Inl err, sleeps, w1) \<Rightarrow> (Inl err, g2\<lparr>gw_sleeps := gw_sleeps g2 @ sleeps\<rparr>, w1)
                  | (Inr res, sleeps, w1) \<Rightarrow>
                      (case settle gc (snd clock) r run agent res (g2\<lparr>gw_sleeps := gw_sleeps g2 @ sleeps\<rparr>) of
                         (x, g3) \<Rightarrow> (x, g3, w1))))"


type_synonym 'w call = "(real \<times> real \<times> real) \<times> completion_request \<times> string option \<times> string \<times> 'w delta_handler option"

fun complete_all :: "('w, 'l) gateway_config \<Rightarrow> 'w call list \<Rightarrow> 'l gateway \<Rightarrow> 'w \<Rightarrow> 'l gateway \<times> 'w" where
  "complete_all gc [] g w = (g, w)"
| "complete_all gc ((clock, r, run, agent, h) # cs) g w =
     (case complete gc clock r run agent h g w of (x, g1, w1) \<Rightarrow> complete_all gc cs g1 w1)"

definition new_gateway :: "mem_cache option \<Rightarrow> 'l \<Rightarrow> 'l gateway" where
  "new_gateway c l = \<lparr>gw_cache = c, gw_ledger = l, gw_budget_exceeded = False, gw_usage_by_run = [], gw_sleeps = []\<rparr>"

subsection \<open>The pieces of a completion\<close>

lemma read_cache_keeps [simp]:
  "gw_ledger (snd (read_cache gc now r g)) = gw_ledger g"
  "gw_usage_by_run (snd (read_cache gc now r g)) = gw_usage_by_run g"
  "gw_budget_exceeded (snd (read_cache gc now r g)) = gw_budget_exceeded g"
  by (auto simp: read_cache_def split_beta split: option.splits)

lemma write_cache_keeps [simp]:
  "gw_ledger (write_cache gc clock r res g) = gw_ledger g"
  "gw_usage_by_run (write_cache gc clock r res g) = gw_usage_by_run g"
  "gw_budget_exceeded (write_cache gc clock r res g) = gw_budget_exceeded g"
  by (auto simp: write_cache_def split: option.splits)

lemma tally_usage_keeps [simp]:
  "gw_ledger (tally_usage run res g) = gw_ledger g"
  "gw_budget_exceeded (tally_usage run res g) = gw_budget_exceeded g"
  "gw_cache (tally_usage run res g) = gw_cache g"
  by (auto simp: tally_usage_def Let_def split: option.splits)

lemma enforce_budget_keeps [simp]:
  "gw_usage_by_run (snd (enforce_budget gc g)) = gw_usage_by_run g"
  "gw_cache (snd (enforce_budget gc g)) = gw_cache g"
  by (auto simp: enforce_budget_def Let_def split_beta split: sum.splits prod.splits)

text \<open>A completion either records nothing, or records one provider result after the budget check passed.\<close>

definition recorded :: "('w, 'l) gateway_config \<Rightarrow> string option \<Rightarrow> string \<Rightarrow> 'l gateway \<Rightarrow> 'l gateway \<Rightarrow> completion_result \<Rightarrow> bool" where
  "recorded gc run agent g g' res \<longleftrightarrow>
     fst (enforce_budget gc g) = Inr () \<and> gw_budget_exceeded g' = gw_budget_exceeded (snd (enforce_budget gc g))
     \<and> (case ld_record (gc_ledger gc) run agent res (gw_ledger (snd (enforce_budget gc g))) of
          (Inl err, l) \<Rightarrow> gw_ledger g' = l \<and> gw_usage_by_run g' = gw_usage_by_run g
        | (Inr _, l) \<Rightarrow> gw_ledger g' = l \<and> gw_usage_by_run g' = gw_usage_by_run (tally_usage run res g))"

definition unrecorded :: "('w, 'l) gateway_config \<Rightarrow> 'l gateway \<Rightarrow> 'l gateway \<Rightarrow> bool" where
  "unrecorded gc g g' \<longleftrightarrow> gw_ledger g' = gw_ledger (snd (enforce_budget gc g)) \<and> gw_usage_by_run g' = gw_usage_by_run g"

lemma tally_usage_cong:
  "gw_usage_by_run g = gw_usage_by_run g' \<Longrightarrow> gw_usage_by_run (tally_usage run res g) = gw_usage_by_run (tally_usage run res g')"
  by (simp add: tally_usage_def run_tally_def Let_def split: option.splits)

lemma settle_recorded:
  assumes "fst (enforce_budget gc g) = Inr ()" "settle gc clock r run agent res g2 = (x, g3)"
    and "gw_ledger g2 = gw_ledger (snd (enforce_budget gc g))" "gw_usage_by_run g2 = gw_usage_by_run g"
    and "gw_budget_exceeded g2 = gw_budget_exceeded (snd (enforce_budget gc g))"
  shows "recorded gc run agent g g3 res"
proof -
  define g4 where "g4 = write_cache gc clock r res g2"
  have g4: "gw_ledger g4 = gw_ledger g2" "gw_usage_by_run g4 = gw_usage_by_run g2" "gw_budget_exceeded g4 = gw_budget_exceeded g2"
    by (simp_all add: g4_def)
  obtain y l where y: "ld_record (gc_ledger gc) run agent res (gw_ledger g2) = (y, l)" by (rule prod.exhaust)
  show ?thesis
  proof (cases y)
    case (Inl err)
    then have "g3 = g4\<lparr>gw_ledger := l\<rparr>" using assms(2) y g4(1) by (simp add: settle_def Let_def flip: g4_def)
    then show ?thesis using assms y g4 Inl by (simp add: recorded_def)
  next
    case (Inr u)
    then have "g3 = tally_usage run res (g4\<lparr>gw_ledger := l\<rparr>)"
      using assms(2) y g4(1) by (simp add: settle_def Let_def flip: g4_def)
    then show ?thesis
      using assms y g4 Inr tally_usage_cong [of "g4\<lparr>gw_ledger := l\<rparr>" g run res] by (simp add: recorded_def)
  qed
qed

lemma attempt_loop_result:
  "attempt_loop cfg m r h a n t sl w = (Inr (Some res), t', sl', w') \<Longrightarrow>
     (\<exists>h w1 w2. ml_complete m r h w1 = (Inr res, w2)) \<and> strip (cp_text res) \<noteq> []"
proof (induction n arbitrary: a t sl w)
  case (Suc n)
  obtain x w1 where x: "attempt_once m r (if a = 1 then h else None) w = (x, w1)" by (rule prod.exhaust)
  show ?case
  proof (cases x)
    case (Inr res')
    then show ?thesis using Suc.prems x by (auto simp: attempt_once_def split: prod.splits sum.splits if_splits)
  next
    case (Inl err)
    then show ?thesis using Suc x by (cases err) (auto split: if_splits)
  qed
qed simp

lemma attempt_loop_sleeps:
  "attempt_loop cfg m r h a n t sl w = (x, t', sl', w') \<Longrightarrow> \<exists>ds. sl' = sl @ ds \<and> length ds \<le> n - 1 \<and> (\<forall>d\<in>set ds. d \<le> 8)"
proof (induction n arbitrary: a t sl w)
  case (Suc n)
  obtain y w1 where y: "attempt_once m r (if a = 1 then h else None) w = (y, w1)" by (rule prod.exhaust)
  show ?case
  proof (cases "\<exists>msg. y = Inl (ExternalServiceError msg) \<and> n \<noteq> 0")
    case True
    then obtain msg where msg: "y = Inl (ExternalServiceError msg)" "n \<noteq> 0" by blast
    with Suc.prems y have "attempt_loop cfg m r h (a + 1) n msg (sl @ [backoff cfg a]) w1 = (x, t', sl', w')" by simp
    from Suc.IH [OF this] obtain ds where "sl' = (sl @ [backoff cfg a]) @ ds" "length ds \<le> n - 1" "\<forall>d\<in>set ds. d \<le> 8" by blast
    then show ?thesis using msg by (intro exI [of _ "backoff cfg a # ds"]) (auto simp: backoff_def)
  next
    case False
    then have "sl' = sl" using Suc.prems y by (auto split: sum.splits py_error.splits if_splits)
    then show ?thesis by simp
  qed
qed simp

text \<open>What a provider call yields: the primary's own result, or the fallback's marked as degraded.\<close>

definition degrade :: "string \<Rightarrow> completion_result \<Rightarrow> completion_result" where
  "degrade e d = d\<lparr>cp_cached := False, cp_degraded := True, cp_error := Some e\<rparr>"

definition provided :: "('w, 'l) gateway_config \<Rightarrow> completion_request \<Rightarrow> completion_result \<Rightarrow> bool" where
  "provided gc r res \<longleftrightarrow>
     (\<exists>h w1 w2. ml_complete (gc_primary gc) r h w1 = (Inr res, w2)) \<and> strip (cp_text res) \<noteq> []
     \<or> (\<exists>d e w1 w2. ml_complete (gc_fallback gc) r None w1 = (Inr d, w2) \<and> res = degrade e d)"

lemma call_with_retry_provided:
  assumes "call_with_retry gc r h w = (Inr res, sl, w')"
  shows "provided gc r res"
proof -
  obtain x t sl1 w1 where x: "attempt_loop (gc_settings gc) (gc_primary gc) r h 1 (attempts_of (gc_settings gc)) [] [] w = (x, t, sl1, w1)"
    by (metis surj_pair)
  show ?thesis
  proof (cases x)
    case (Inl err)
    then show ?thesis using assms x by (simp add: call_with_retry_def Let_def)
  next
    case (Inr out)
    show ?thesis
    proof (cases out)
      case (Some q)
      then have "q = res" using assms x Inr by (simp add: call_with_retry_def Let_def)
      then show ?thesis using attempt_loop_result [OF x [unfolded Inr Some]] by (simp add: provided_def)
    next
      case None
      obtain y w2 where y: "ml_complete (gc_fallback gc) r None w1 = (y, w2)" by (rule prod.exhaust)
      then obtain d where "y = Inr d" "res = degrade t d"
        using assms x Inr None by (cases y) (auto simp: call_with_retry_def Let_def degrade_def split: if_splits)
      then show ?thesis using y unfolding provided_def by blast
    qed
  qed
qed

lemma complete_records:
  assumes "complete gc clock r run agent h g w = (x, g', w')"
  shows "unrecorded gc g g' \<or> (\<exists>res. provided gc r res \<and> recorded gc run agent g g' res)"
proof -
  obtain b g1 where b: "enforce_budget gc g = (b, g1)" by (rule prod.exhaust)
  have g1: "gw_usage_by_run g1 = gw_usage_by_run g" using enforce_budget_keeps(1) [of gc g] b by simp
  show ?thesis
  proof (cases b)
    case (Inl err)
    then have "g' = g1" using assms b by (simp add: complete_def)
    then show ?thesis using b g1 by (simp add: unrecorded_def)
  next
    case (Inr u)
    define g2 where "g2 = snd (read_cache gc (fst clock) r g1)"
    have g2: "gw_ledger g2 = gw_ledger g1" "gw_usage_by_run g2 = gw_usage_by_run g" "gw_budget_exceeded g2 = gw_budget_exceeded g1"
      using g1 by (simp_all add: g2_def)
    show ?thesis
    proof (cases "fst (read_cache gc (fst clock) r g1)")
      case (Some hit)
      then have "g' = g2" using assms b Inr by (simp add: complete_def g2_def split_beta)
      then show ?thesis using b g2 by (simp add: unrecorded_def)
    next
      case None
      obtain q sl w1 where q: "call_with_retry gc r (if lm_stream (gc_settings gc) then h else None) w = (q, sl, w1)"
        by (metis surj_pair)
      show ?thesis
      proof (cases q)
        case (Inl err)
        then have "g' = g2\<lparr>gw_sleeps := gw_sleeps g2 @ sl\<rparr>"
          using assms b Inr None q by (simp add: complete_def Let_def split_beta flip: g2_def)
        then show ?thesis using b g2 by (simp add: unrecorded_def)
      next
        case res: (Inr res)
        then have "settle gc (snd clock) r run agent res (g2\<lparr>gw_sleeps := gw_sleeps g2 @ sl\<rparr>) = (x, g')"
          using assms b Inr None q by (auto simp: complete_def Let_def split_beta prod_eq_iff simp flip: g2_def)
        then have "recorded gc run agent g g' res"
          using settle_recorded [of gc g "snd clock" r run agent res "g2\<lparr>gw_sleeps := gw_sleeps g2 @ sl\<rparr>" x g'] b Inr g2
          by simp
        moreover have "provided gc r res" using call_with_retry_provided [OF q [unfolded res]] .
        ultimately show ?thesis by blast
      qed
    qed
  qed
qed


subsection \<open>What the gateway relies on from a ledger\<close>

locale spend_ledger =
  fixes L :: "'l ledger" and total :: "'l \<Rightarrow> real"
  assumes record_total: "ld_record L run agent r l = (x, l') \<Longrightarrow> \<not> cp_cached r \<Longrightarrow>
      total l' = total l + (case x of Inl err \<Rightarrow> 0 | Inr u \<Rightarrow> us_cost_usd (cp_usage r))"
    and month_keeps: "ld_month_to_date L l = (y, l') \<Longrightarrow> total l' = total l"
    and month_total: "ld_month_to_date L l = (Inr t, l') \<Longrightarrow> t = total l"
begin

lemma enforce_keeps: "gc_ledger gc = L \<Longrightarrow> total (gw_ledger (snd (enforce_budget gc g))) = total (gw_ledger g)"
  using month_keeps [of "gw_ledger g"] by (auto simp: enforce_budget_def Let_def split: sum.splits prod.splits)

lemma enforce_below:
  assumes "gc_ledger gc = L" "fst (enforce_budget gc g) = Inr ()" "0 < lm_monthly_budget_usd (gc_settings gc)"
  shows "total (gw_ledger g) < lm_monthly_budget_usd (gc_settings gc)"
proof -
  obtain x l where x: "ld_month_to_date L (gw_ledger g) = (x, l)" by (rule prod.exhaust)
  show ?thesis using assms x month_total [of "gw_ledger g"]
    by (cases x) (auto simp: enforce_budget_def Let_def split: if_splits)
qed

lemma complete_total:
  assumes L: "gc_ledger gc = L" and lim: "0 < lm_monthly_budget_usd (gc_settings gc)"
    and cost: "\<And>res. provided gc r res \<Longrightarrow> \<not> cp_cached res \<and> us_cost_usd (cp_usage res) \<le> c" and "0 \<le> c"
    and below: "total (gw_ledger g) \<le> lm_monthly_budget_usd (gc_settings gc) + c"
    and run: "complete gc clock r run agent h g w = (x, g', w')"
  shows "total (gw_ledger g') \<le> lm_monthly_budget_usd (gc_settings gc) + c"
  using complete_records [OF run]
proof (elim disjE exE conjE)
  assume "unrecorded gc g g'"
  then show ?thesis using below enforce_keeps [OF L] by (simp add: unrecorded_def)
next
  fix res assume res: "provided gc r res" "recorded gc run agent g g' res"
  obtain y l where y: "ld_record L run agent res (gw_ledger (snd (enforce_budget gc g))) = (y, l)" by (rule prod.exhaust)
  have "gw_ledger g' = l" using res(2) y L by (cases y) (simp_all add: recorded_def)
  moreover have "fst (enforce_budget gc g) = Inr ()" using res(2) by (simp add: recorded_def)
  moreover have "total l \<le> total (gw_ledger g) + c"
    using record_total [OF y] cost [OF res(1)] enforce_keeps [OF L, of g] \<open>0 \<le> c\<close> by (cases y) auto
  ultimately show ?thesis using enforce_below [OF L _ lim, of g] by simp
qed

lemma complete_all_total:
  assumes L: "gc_ledger gc = L" and lim: "0 < lm_monthly_budget_usd (gc_settings gc)"
    and cost: "\<And>r res. provided gc r res \<Longrightarrow> \<not> cp_cached res \<and> us_cost_usd (cp_usage res) \<le> c" and "0 \<le> c"
  shows "total (gw_ledger g) \<le> lm_monthly_budget_usd (gc_settings gc) + c \<Longrightarrow>
    total (gw_ledger (fst (complete_all gc cs g w))) \<le> lm_monthly_budget_usd (gc_settings gc) + c"
proof (induction cs arbitrary: g w)
  case (Cons p cs)
  obtain clock r run agent h where p: "p = (clock, r, run, agent, h)" by (metis surj_pair)
  obtain x g1 w1 where c: "complete gc clock r run agent h g w = (x, g1, w1)" by (metis surj_pair)
  show ?case using Cons.IH [OF complete_total [OF L lim cost \<open>0 \<le> c\<close> Cons.prems c]] p c by simp
qed simp

end

interpretation null: spend_ledger null_spend_ledger nl_total_usd
  by unfold_locales (auto simp: null_spend_ledger_def)

text \<open>The database ledger at any moment of the month it sums.\<close>

interpretation db: spend_ledger "database_spend_ledger commit (month_start + int elapsed) month_start" "month_total month_start"
  for commit month_start elapsed
  by unfold_locales
    (auto simp: database_spend_ledger_def month_total_def spend_row_of_def Let_def split: if_splits option.splits)

subsection \<open>A run's tally and its rows\<close>

definition run_rows :: "string \<Rightarrow> spend_row list \<Rightarrow> spend_row list" where
  "run_rows run rows = filter (\<lambda>r. sr_run_id r = Some run) rows"

definition rows_tally :: "spend_row list \<Rightarrow> tally" where
  "rows_tally rows = \<lparr>ty_prompt_tokens = sum_list (map sr_prompt_tokens rows),
     ty_completion_tokens = sum_list (map sr_completion_tokens rows),
     ty_cost_usd = sum_list (map sr_cost_usd rows), ty_calls = int (length rows)\<rparr>"

definition books_agree :: "spend_row list gateway \<Rightarrow> bool" where
  "books_agree g \<longleftrightarrow> (\<forall>run. run \<noteq> [] \<longrightarrow> run_tally g run = rows_tally (run_rows run (gw_ledger g)))"

lemma run_tally_cong: "gw_usage_by_run g = gw_usage_by_run g' \<Longrightarrow> run_tally g run = run_tally g' run"
  by (simp add: run_tally_def)

lemma run_tally_add:
  "run_tally (tally_usage run res g) r =
     (if run = Some r \<and> r \<noteq> []
      then (let t = run_tally g r
            in \<lparr>ty_prompt_tokens = ty_prompt_tokens t + us_prompt_tokens (cp_usage res),
                ty_completion_tokens = ty_completion_tokens t + us_completion_tokens (cp_usage res),
                ty_cost_usd = ty_cost_usd t + us_cost_usd (cp_usage res), ty_calls = ty_calls t + 1\<rparr>)
      else run_tally g r)"
  by (auto simp: tally_usage_def run_tally_def Let_def update_conv' split: option.splits)

lemma books_agree_complete:
  assumes db: "gc_ledger gc = database_spend_ledger commit now month_start"
    and fresh: "\<And>res. provided gc r res \<Longrightarrow> \<not> cp_cached res"
    and books: "books_agree g" and run: "complete gc clock r run agent h g w = (x, g', w')"
  shows "books_agree g'"
  using complete_records [OF run]
proof (elim disjE exE conjE)
  have led: "gw_ledger (snd (enforce_budget gc g)) = gw_ledger g"
    by (auto simp: enforce_budget_def db database_spend_ledger_def Let_def)
  {
    assume "unrecorded gc g g'"
    then show ?thesis using books led run_tally_cong [of g' g] by (simp add: books_agree_def unrecorded_def)
  next
    fix res assume res: "provided gc r res" "recorded gc run agent g g' res"
    define row where "row = spend_row_of now run agent res"
    show ?thesis
    proof (cases "commit row")
      case (Some err)
      then have "gw_ledger g' = gw_ledger g" "gw_usage_by_run g' = gw_usage_by_run g"
        using res fresh led by (simp_all add: recorded_def db database_spend_ledger_def Let_def flip: row_def)
      then show ?thesis using books run_tally_cong [of g' g] by (simp add: books_agree_def)
    next
      case None
      then have g': "gw_ledger g' = gw_ledger g @ [row]" "gw_usage_by_run g' = gw_usage_by_run (tally_usage run res g)"
        using res fresh led by (simp_all add: recorded_def db database_spend_ledger_def Let_def flip: row_def)
      show ?thesis unfolding books_agree_def
      proof (intro allI impI)
        fix q :: string assume "q \<noteq> []"
        then have "run_tally g q = rows_tally (run_rows q (gw_ledger g))" using books by (simp add: books_agree_def)
        then show "run_tally g' q = rows_tally (run_rows q (gw_ledger g'))"
          using run_tally_cong [OF g'(2), of q] \<open>q \<noteq> []\<close>
          by (simp add: g'(1) run_tally_add rows_tally_def run_rows_def row_def spend_row_of_def Let_def)
      qed
    qed
  }
qed

lemma books_agree_all:
  assumes "gc_ledger gc = database_spend_ledger commit now month_start" "\<And>r res. provided gc r res \<Longrightarrow> \<not> cp_cached res"
  shows "books_agree g \<Longrightarrow> books_agree (fst (complete_all gc cs g w))"
proof (induction cs arbitrary: g w)
  case (Cons p cs)
  obtain clock r run agent h where p: "p = (clock, r, run, agent, h)" by (metis surj_pair)
  obtain x g1 w1 where c: "complete gc clock r run agent h g w = (x, g1, w1)" by (metis surj_pair)
  show ?case using Cons.IH [OF books_agree_complete [OF assms Cons.prems c]] p c by simp
qed simp


subsection \<open>Failing open, and the cache\<close>

lemma read_cache_cache: "gw_cache g = gw_cache g1 \<Longrightarrow> fst (read_cache gc now r g) = fst (read_cache gc now r g1)
    \<and> gw_cache (snd (read_cache gc now r g)) = gw_cache (snd (read_cache gc now r g1))"
  by (auto simp: read_cache_def split_beta split: option.splits)

lemma read_cache_sleeps [simp]: "gw_sleeps (snd (read_cache gc now r g)) = gw_sleeps g"
  by (auto simp: read_cache_def split_beta split: option.splits)

lemma enforce_budget_sleeps [simp]: "gw_sleeps (snd (enforce_budget gc g)) = gw_sleeps g"
  by (auto simp: enforce_budget_def Let_def split_beta split: sum.splits prod.splits)

lemma settle_sleeps: "settle gc clock r run agent res g = (x, g') \<Longrightarrow> gw_sleeps g' = gw_sleeps g"
  by (auto simp: settle_def write_cache_def tally_usage_def Let_def split: prod.splits sum.splits option.splits if_splits)

lemma decode_cached_flags: "decode_cached gc j = Some res \<Longrightarrow> cp_cached res \<and> \<not> cp_degraded res"
  by (auto simp: decode_cached_def Let_def split: json.splits option.splits)

lemma read_cache_flags: "fst (read_cache gc now r g) = Some res \<Longrightarrow> cp_cached res \<and> \<not> cp_degraded res"
  using decode_cached_flags by (auto simp: read_cache_def split: option.splits if_splits prod.splits)

definition fails_externally :: "'w language_model \<Rightarrow> completion_request \<Rightarrow> bool" where
  "fails_externally m r \<longleftrightarrow> (\<forall>h w err w'. ml_complete m r h w = (Inl err, w') \<longrightarrow> (\<exists>msg. err = ExternalServiceError msg))"

lemma fails_externallyD: "fails_externally m r \<Longrightarrow> ml_complete m r h w = (Inl err, w') \<Longrightarrow> \<exists>msg. err = ExternalServiceError msg"
  unfolding fails_externally_def by blast

lemma attempt_loop_external:
  assumes "fails_externally m r"
  shows "\<exists>q t' sl' w'. attempt_loop cfg m r h a n t sl w = (Inr q, t', sl', w')"
proof (induction n arbitrary: a t sl w)
  case (Suc n)
  obtain y w1 where y: "attempt_once m r (if a = 1 then h else None) w = (y, w1)" by (rule prod.exhaust)
  show ?case
  proof (cases y)
    case (Inl err)
    then have "\<exists>msg. err = ExternalServiceError msg"
      using y fails_externallyD [OF assms] by (auto simp: attempt_once_def split: prod.splits sum.splits if_splits)
    then show ?thesis using Suc.IH y Inl by auto
  next
    case (Inr res)
    then show ?thesis using y by simp
  qed
qed simp

lemma call_with_retry_open:
  assumes "lm_fail_open_to_mock (gc_settings gc)"
    and "fails_externally (gc_primary gc) r"
    and "\<And>w. \<exists>d w'. ml_complete (gc_fallback gc) r None w = (Inr d, w')"
  shows "\<exists>res sl w'. call_with_retry gc r h w = (Inr res, sl, w') \<and> length sl < attempts_of (gc_settings gc) \<and> (\<forall>d\<in>set sl. d \<le> 8)"
proof -
  let ?cfg = "gc_settings gc"
  obtain q t sl w1 where q: "attempt_loop ?cfg (gc_primary gc) r h 1 (attempts_of ?cfg) [] [] w = (Inr q, t, sl, w1)"
    using attempt_loop_external [OF assms(2)] by blast
  have "0 < attempts_of ?cfg" by (simp add: attempts_of_def)
  then have sl: "length sl < attempts_of ?cfg" "\<forall>d\<in>set sl. d \<le> 8" using attempt_loop_sleeps [OF q] by auto
  obtain d w2 where d: "ml_complete (gc_fallback gc) r None w1 = (Inr d, w2)" using assms(3) by blast
  show ?thesis using q d assms(1) sl by (cases q) (simp_all add: call_with_retry_def Let_def)
qed

lemma budget_latched: "gw_budget_exceeded g \<Longrightarrow>
    complete gc clock r run agent h g w = (Inl (BudgetExceededError (budget_message (gc_settings gc))), g, w)"
  by (simp add: complete_def enforce_budget_def Let_def)

lemma degraded_not_cached: "cp_degraded res \<Longrightarrow> write_cache gc clock r res g = g"
  by (simp add: write_cache_def split: option.splits)

lemma settle_ok:
  assumes "ld_record (gc_ledger gc) run agent res (gw_ledger g) = (Inr u, l)"
  shows "settle gc clock r run agent res g
    = (Inr res, tally_usage run res ((write_cache gc clock r res g)\<lparr>gw_ledger := l\<rparr>))"
  using assms by (simp add: settle_def Let_def)

lemma decode_cached_payload:
  "decode_cached gc (cache_payload res) = Some \<lparr>cp_text = cp_text res,
     cp_usage = (cp_usage res)\<lparr>us_cost_usd := 0\<rparr>, cp_provider = cp_provider res, cp_model = cp_model res, cp_latency_ms = 0,
     cp_cached = True, cp_degraded = False, cp_error = None\<rparr>"
  by (simp add: decode_cached_def cache_payload_def usage_dict_def json_int_def json_str_or_def)

lemma get_set_json:
  assumes "jc_loads cd (jc_dumps cd v) = Some v" "now \<le> t2 + of_int (effective_ttl ttl d)"
  shows "get_json cd now k (set_json cd d t1 t2 k v ttl c) = (Some v, set_json cd d t1 t2 k v ttl c)"
proof -
  have m: "map_of (mc_store (set_json cd d t1 t2 k v ttl c)) k = Some (t2 + of_int (effective_ttl ttl d), jc_dumps cd v)"
    by (simp add: set_json_def mem.put_new)
  then show ?thesis using assms by (simp add: get_json_def cache_get_def)
qed

lemma complete_settled:
  assumes "complete gc clock r run agent h g w = (Inr res, g', w')" "\<not> cp_cached res"
  shows "\<exists>g2. (gw_cache g2 \<noteq> None \<longleftrightarrow> gw_cache g \<noteq> None) \<and> settle gc (snd clock) r run agent res g2 = (Inr res, g')"
proof -
  obtain b g1 where b: "enforce_budget gc g = (b, g1)" by (rule prod.exhaust)
  then obtain u where u: "b = Inr u" using assms(1) by (cases b) (simp_all add: complete_def)
  define g2 where "g2 = snd (read_cache gc (fst clock) r g1)"
  have none: "fst (read_cache gc (fst clock) r g1) = None"
  proof (rule ccontr)
    assume "fst (read_cache gc (fst clock) r g1) \<noteq> None"
    then obtain hit where hit: "fst (read_cache gc (fst clock) r g1) = Some hit" by auto
    then have "res = hit" using assms(1) b u by (simp add: complete_def Let_def split_beta)
    then show False using read_cache_flags [OF hit] assms(2) by simp
  qed
  obtain q sl w1 where q: "call_with_retry gc r (if lm_stream (gc_settings gc) then h else None) w = (q, sl, w1)"
    by (metis surj_pair)
  define g3 where "g3 = g2\<lparr>gw_sleeps := gw_sleeps g2 @ sl\<rparr>"
  have cache: "gw_cache g3 \<noteq> None \<longleftrightarrow> gw_cache g \<noteq> None"
    using enforce_budget_keeps(2) [of gc g] b by (auto simp: g3_def g2_def read_cache_def split_beta split: option.splits)
  show ?thesis
  proof (cases q)
    case (Inl err)
    then show ?thesis using assms(1) b u none q by (simp add: complete_def Let_def split_beta)
  next
    case (Inr res')
    obtain y g4 where y: "settle gc (snd clock) r run agent res' g3 = (y, g4)" by (rule prod.exhaust)
    then have "y = Inr res" "g4 = g'"
      using assms(1) b u none q Inr by (simp_all add: complete_def Let_def split_beta g3_def flip: g2_def)
    moreover have "res' = res" using y \<open>y = Inr res\<close> by (auto simp: settle_def Let_def split: prod.splits sum.splits)
    ultimately show ?thesis using y cache by blast
  qed
qed

definition metered :: "'w language_model \<Rightarrow> real \<Rightarrow> bool" where
  "metered m c \<longleftrightarrow> (\<forall>r h w res w'. ml_complete m r h w = (Inr res, w') \<longrightarrow> \<not> cp_cached res \<and> us_cost_usd (cp_usage res) \<le> c)"

lemma metered_provided:
  "metered (gc_primary gc) c \<Longrightarrow> metered (gc_fallback gc) c \<Longrightarrow> provided gc r res \<Longrightarrow>
     \<not> cp_cached res \<and> us_cost_usd (cp_usage res) \<le> c"
proof -
  assume m: "metered (gc_primary gc) c" "metered (gc_fallback gc) c" and "provided gc r res"
  from this(3) consider h w1 w2 where "ml_complete (gc_primary gc) r h w1 = (Inr res, w2)"
    | d e w1 w2 where "ml_complete (gc_fallback gc) r None w1 = (Inr d, w2)" "res = degrade e d"
    unfolding provided_def by blast
  then show ?thesis
  proof cases
    case 1
    then show ?thesis using m(1) unfolding metered_def by blast
  next
    case 2
    then have "us_cost_usd (cp_usage d) \<le> c" using m(2) unfolding metered_def by blast
    then show ?thesis using 2(2) by (simp add: degrade_def)
  qed
qed

subsection \<open>A model, a codec and a configuration for the concrete examples\<close>

definition fixed_model :: "string \<Rightarrow> real \<Rightarrow> unit language_model" where
  "fixed_model text cost = \<lparr>ml_provider = OPENAI, ml_model = ''m'',
     ml_complete = \<lambda>r h w. (Inr \<lparr>cp_text = text, cp_usage = \<lparr>us_prompt_tokens = 1, us_completion_tokens = 2, us_cost_usd = cost\<rparr>,
       cp_provider = OPENAI, cp_model = ''m'', cp_latency_ms = 5, cp_cached = False, cp_degraded = False, cp_error = None\<rparr>, w)\<rparr>"

definition broken_model :: "unit language_model" where
  "broken_model = \<lparr>ml_provider = OPENAI, ml_model = ''m'', ml_complete = \<lambda>r h w. (Inl (ExternalServiceError ''down''), w)\<rparr>"

definition sample_settings :: llm_settings where
  "sample_settings = \<lparr>lm_max_retries = 2, lm_retry_base_delay_seconds = 1, lm_cache_enabled = True, lm_cache_ttl_seconds = 60,
     lm_monthly_budget_usd = 10, lm_fail_open_to_mock = True, lm_stream = False\<rparr>"

definition sample_result :: completion_result where
  "sample_result = \<lparr>cp_text = ''hi'', cp_usage = \<lparr>us_prompt_tokens = 1, us_completion_tokens = 2, us_cost_usd = 1\<rparr>,
     cp_provider = OPENAI, cp_model = ''m'', cp_latency_ms = 5, cp_cached = False, cp_degraded = False, cp_error = None\<rparr>"

definition sample_config :: "unit language_model \<Rightarrow> 'l ledger \<Rightarrow> (unit, 'l) gateway_config" where
  "sample_config m L = \<lparr>gc_settings = sample_settings, gc_primary = m, gc_fallback = fixed_model ''mock'' 0, gc_ledger = L,
     gc_codec = \<lparr>jc_dumps = \<lambda>j. ''payload'', jc_loads = \<lambda>b. Some (cache_payload sample_result)\<rparr>, gc_default_ttl = 300, gc_sha256 = \<lambda>b. b\<rparr>"

definition sample_request :: completion_request where
  "sample_request = \<lparr>rq_task = ''t'', rq_system_prompt = ''s'', rq_user_prompt = ''u'', rq_temperature = None,
     rq_max_tokens = None, rq_json_mode = True, rq_schema_hint = []\<rparr>"

lemma metered_fixed: "cost \<le> c \<Longrightarrow> metered (fixed_model text cost) c"
  by (simp add: metered_def fixed_model_def)

subsection \<open>Properties\<close>



text \<open>
  The reported usage of a run agrees with its \<open>llm_spend\<close> rows: after any completions through a new
  gateway over an empty table, whether cached, degraded, failed or refused, the tally of every run is the sum
  over the rows stored for it.
\<close>

theorem run_usage_matches_rows:
  assumes "gc_ledger gc = database_spend_ledger commit now month_start"
    and "metered (gc_primary gc) c" "metered (gc_fallback gc) c" "run \<noteq> []"
    and "complete_all gc cs (new_gateway cache []) w = (g', w')"
  shows "run_tally g' run = rows_tally (run_rows run (gw_ledger g'))"
proof -
  have "books_agree (new_gateway cache [])"
    by (simp add: books_agree_def new_gateway_def run_tally_def no_tally_def rows_tally_def run_rows_def)
  then have "books_agree g'"
    using books_agree_all [OF assms(1) metered_provided [OF assms(2,3), THEN conjunct1], where g = "new_gateway cache []" and cs = cs and w = w] assms(5)
    by simp
  then show ?thesis using assms(4) by (simp add: books_agree_def)
qed

theorem run_usage_matches_rows_witness:
  "let g' = fst (complete_all (sample_config (fixed_model ''hi'' 1) (database_spend_ledger (\<lambda>r. None) 0 0))
        [((0, 0, 0), sample_request, Some ''r'', ''creative'', None)] (new_gateway None []) ())
   in run_tally g' ''r'' = rows_tally (run_rows ''r'' (gw_ledger g'))"
  unfolding Let_def
  by (rule run_usage_matches_rows [OF _ _ _ _ prod.collapse [symmetric], where c = 1])
    (simp_all add: sample_config_def metered_fixed)

text \<open>
  Exhausting the month's budget refuses calls for good: the call that finds the total at the cap raises
  and reaches no provider; after it every later call raises too, even when the ledger's month starts afresh
  at zero, because nothing clears the latch.
\<close>

theorem budget_latch_never_clears:
  fixes gc :: "('w, 'l) gateway_config"
  assumes "ld_month_to_date (gc_ledger gc) (gw_ledger g) = (Inr spent, l)"
    and "0 < lm_monthly_budget_usd (gc_settings gc)" "lm_monthly_budget_usd (gc_settings gc) \<le> spent"
  shows "\<exists>err g'. complete gc clock r run agent h g w = (Inl (BudgetExceededError err), g', w)
    \<and> (\<forall>(gc' :: ('w, 'l) gateway_config) l' clock' r' run' agent' h' w'.
         fst (complete gc' clock' r' run' agent' h' (g'\<lparr>gw_ledger := l'\<rparr>) w')
          = Inl (BudgetExceededError (budget_message (gc_settings gc'))))"
proof (cases "gw_budget_exceeded g")
  case True
  then show ?thesis by (auto simp: budget_latched)
next
  case False
  then have "complete gc clock r run agent h g w
      = (Inl (BudgetExceededError (budget_message (gc_settings gc))), g\<lparr>gw_ledger := l, gw_budget_exceeded := True\<rparr>, w)"
    using assms by (simp add: complete_def enforce_budget_def Let_def)
  then show ?thesis by (auto simp: budget_latched)
qed

theorem budget_latch_never_clears_witness:
  "\<exists>g'. snd (snd (complete (sample_config broken_model null_spend_ledger) (0, 0, 0) sample_request None [] None
        (new_gateway None \<lparr>nl_total_usd = 10, nl_total_tokens = 0\<rparr>) ())) = ()
    \<and> fst (complete (sample_config broken_model null_spend_ledger) (0, 0, 0) sample_request None [] None
        (g'\<lparr>gw_ledger := \<lparr>nl_total_usd = 0, nl_total_tokens = 0\<rparr>\<rparr>) ())
      = Inl (BudgetExceededError (budget_message sample_settings))"
proof -
  let ?gc = "sample_config broken_model null_spend_ledger" and ?g = "new_gateway None \<lparr>nl_total_usd = 10, nl_total_tokens = 0\<rparr>"
  have m: "ld_month_to_date (gc_ledger ?gc) (gw_ledger ?g) = (Inr 10, \<lparr>nl_total_usd = 10, nl_total_tokens = 0\<rparr>)"
    by (simp add: sample_config_def new_gateway_def null_spend_ledger_def)
  have lim: "0 < lm_monthly_budget_usd (gc_settings ?gc)" "lm_monthly_budget_usd (gc_settings ?gc) \<le> 10"
    by (simp_all add: sample_config_def sample_settings_def)
  have s: "gc_settings ?gc = sample_settings" by (simp add: sample_config_def)
  obtain err g' where "complete ?gc (0, 0, 0) sample_request None [] None ?g () = (Inl (BudgetExceededError err), g', ())"
    and all: "\<forall>(gc' :: (unit, null_ledger) gateway_config) l' clock' r' run' agent' h' w'. fst (complete gc' clock' r' run' agent' h' (g'\<lparr>gw_ledger := l'\<rparr>) w')
          = Inl (BudgetExceededError (budget_message (gc_settings gc')))"
    using budget_latch_never_clears [OF m lim, of "(0, 0, 0)" sample_request None "[]" None "()"] by blast
  then show ?thesis
    using all [rule_format, of ?gc "(0, 0, 0)" sample_request None "[]" None "\<lparr>nl_total_usd = 0, nl_total_tokens = 0\<rparr>" "()"]
    by (intro exI [of _ g'] conjI) (simp_all add: s)
qed

text \<open>
  C13. Degradation: when the budget check passes, the primary fails only with provider errors, the fallback
  answers and the ledger accepts the row, a completion always succeeds, after fewer back-offs than attempts,
  none longer than eight seconds; the answer is a cached one, a non-blank one of the primary, or the
  fallback's marked as degraded, and a degraded answer is not written to the cache.
\<close>

theorem completion_fails_open:
  assumes "fst (enforce_budget gc g) = Inr ()" "lm_fail_open_to_mock (gc_settings gc)"
    and "fails_externally (gc_primary gc) r"
    and "\<And>w. \<exists>d w'. ml_complete (gc_fallback gc) r None w = (Inr d, w')"
    and "\<And>res l. \<exists>l'. ld_record (gc_ledger gc) run agent res l = (Inr (), l')"
  shows "\<exists>res g' w' ds. complete gc clock r run agent h g w = (Inr res, g', w')
    \<and> gw_sleeps g' = gw_sleeps g @ ds \<and> length ds < attempts_of (gc_settings gc) \<and> (\<forall>d\<in>set ds. d \<le> 8)
    \<and> (cp_cached res \<or> provided gc r res)
    \<and> (cp_degraded res \<longrightarrow> gw_cache g' = gw_cache (snd (read_cache gc (fst clock) r g)))"
proof -
  obtain g1 where b: "enforce_budget gc g = (Inr (), g1)" using assms(1) by (metis prod.collapse)
  then have g1: "gw_cache g1 = gw_cache g" "gw_sleeps g1 = gw_sleeps g"
    using enforce_budget_keeps(2) [of gc g] enforce_budget_sleeps [of gc g] by simp_all
  define g2 where "g2 = snd (read_cache gc (fst clock) r g1)"
  have g2: "gw_sleeps g2 = gw_sleeps g" "gw_cache g2 = gw_cache (snd (read_cache gc (fst clock) r g))"
    using g1 read_cache_cache [OF g1(1), of gc "fst clock" r] by (simp_all add: g2_def)
  have pos: "0 < attempts_of (gc_settings gc)" by (simp add: attempts_of_def)
  show ?thesis
  proof (cases "fst (read_cache gc (fst clock) r g1)")
    case (Some hit)
    then show ?thesis using b g2 pos read_cache_flags [OF Some]
      by (intro exI [of _ hit] exI [of _ g2] exI exI [of _ "[]"]) (simp add: complete_def g2_def split_beta)
  next
    case None
    define deltas where "deltas = (if lm_stream (gc_settings gc) then h else None)"
    obtain res sl w1 where c: "call_with_retry gc r deltas w = (Inr res, sl, w1)"
        "length sl < attempts_of (gc_settings gc)" "\<forall>d\<in>set sl. d \<le> 8"
      using call_with_retry_open [OF assms(2-4), of deltas w] by blast
    define g3 where "g3 = g2\<lparr>gw_sleeps := gw_sleeps g2 @ sl\<rparr>"
    obtain l where l: "ld_record (gc_ledger gc) run agent res (gw_ledger g3) = (Inr (), l)" using assms(5) by blast
    define g4 where "g4 = tally_usage run res ((write_cache gc (snd clock) r res g3)\<lparr>gw_ledger := l\<rparr>)"
    have s: "settle gc (snd clock) r run agent res g3 = (Inr res, g4)" using settle_ok [OF l] by (simp add: g4_def)
    have "complete gc clock r run agent h g w = (Inr res, g4, w1)"
      using b None c(1) s by (simp add: complete_def Let_def split_beta flip: g2_def g3_def deltas_def)
    moreover have "gw_sleeps g4 = gw_sleeps g @ sl" using settle_sleeps [OF s] g2(1) by (simp add: g3_def)
    moreover have "gw_cache g4 = gw_cache g2" if "cp_degraded res"
      using degraded_not_cached [OF that, of gc "snd clock" r g3] by (simp add: g4_def) (simp add: g3_def)
    ultimately show ?thesis using c(2,3) call_with_retry_provided [OF c(1)] g2(2)
      by (intro exI [of _ res] exI [of _ g4] exI [of _ w1] exI [of _ sl]) simp
  qed
qed

theorem completion_fails_open_witness:
  "\<exists>res g' w'. complete (sample_config broken_model null_spend_ledger) (0, 0, 0) sample_request None [] None
      (new_gateway None \<lparr>nl_total_usd = 0, nl_total_tokens = 0\<rparr>) () = (Inr res, g', w') \<and> length (gw_sleeps g') < 2"
proof -
  let ?gc = "sample_config broken_model null_spend_ledger" and ?g = "new_gateway None \<lparr>nl_total_usd = 0, nl_total_tokens = 0\<rparr>"
  have "fst (enforce_budget ?gc ?g) = Inr ()"
    by (simp add: sample_config_def sample_settings_def null_spend_ledger_def enforce_budget_def new_gateway_def)
  moreover have "fails_externally (gc_primary ?gc) sample_request"
    by (simp add: sample_config_def fails_externally_def broken_model_def)
  moreover have "\<exists>d w'. ml_complete (gc_fallback ?gc) sample_request None w = (Inr d, w')" for w
    by (simp add: sample_config_def fixed_model_def)
  moreover have "\<exists>l'. ld_record (gc_ledger ?gc) None [] res l = (Inr (), l')" for res l
    by (simp add: sample_config_def null_spend_ledger_def)
  moreover have "lm_fail_open_to_mock (gc_settings ?gc)" by (simp add: sample_config_def sample_settings_def)
  ultimately have "\<exists>res g' w' ds. complete ?gc (0, 0, 0) sample_request None [] None ?g () = (Inr res, g', w')
      \<and> gw_sleeps g' = gw_sleeps ?g @ ds \<and> length ds < attempts_of (gc_settings ?gc)"
    using completion_fails_open [of ?gc ?g sample_request None "[]" "(0, 0, 0)" None "()"] by blast
  then show ?thesis by (auto simp: new_gateway_def sample_config_def sample_settings_def attempts_of_def)
qed

text \<open>
  A cached completion is replayed: after a completion the primary answered without error, a request with
  the same task, prompts, schema and mode is answered from the cache while the entry lives, with the same
  text, tokens, provider and model, at no cost, without a provider call and without a spend row; its
  temperature and token limit are not part of the key.
\<close>

theorem completion_replayed_from_cache:
  assumes "complete gc clock r run agent h g w = (Inr res, g', w')" "gw_cache g \<noteq> None" "lm_cache_enabled (gc_settings gc)"
    and "\<not> cp_cached res" "\<not> cp_degraded res" "opt_str (cp_error res) = []"
    and "jc_loads (gc_codec gc) (jc_dumps (gc_codec gc) (cache_payload res)) = Some (cache_payload res)"
    and "fst clock' \<le> snd (snd clock) + of_int (effective_ttl (Some (lm_cache_ttl_seconds (gc_settings gc))) (gc_default_ttl gc))"
    and "fst (enforce_budget gc g') = Inr ()"
  shows "\<exists>hit g''. complete gc clock' (r\<lparr>rq_temperature := t, rq_max_tokens := k\<rparr>) run' agent' None g' v = (Inr hit, g'', v)
    \<and> cp_text hit = cp_text res \<and> cp_usage hit = (cp_usage res)\<lparr>us_cost_usd := 0\<rparr> \<and> cp_provider hit = cp_provider res
    \<and> cp_model hit = cp_model res \<and> cp_cached hit \<and> gw_ledger g'' = gw_ledger (snd (enforce_budget gc g'))
    \<and> gw_usage_by_run g'' = gw_usage_by_run g'"
proof -
  have key: "llm_key gc (r\<lparr>rq_temperature := t, rq_max_tokens := k\<rparr>) = llm_key gc r" by (simp add: llm_key_def cache_key_def)
  from complete_settled [OF assms(1,4)] obtain g2 where
    g2: "gw_cache g2 \<noteq> None \<longleftrightarrow> gw_cache g \<noteq> None" "settle gc (snd clock) r run agent res g2 = (Inr res, g')" by blast
  then obtain c where c: "gw_cache g2 = Some c" using assms(2) by auto
  let ?c = "set_json (gc_codec gc) (gc_default_ttl gc) (fst (snd clock)) (snd (snd clock)) (llm_key gc r) (cache_payload res)
      (Some (lm_cache_ttl_seconds (gc_settings gc))) c"
  have "gw_cache (write_cache gc (snd clock) r res g2) = Some ?c" using c assms(3,5,6) by (simp add: write_cache_def)
  then have c': "gw_cache g' = Some ?c" using g2(2) by (auto simp: settle_def Let_def split: prod.splits sum.splits)
  obtain g3 where b: "enforce_budget gc g' = (Inr (), g3)" using assms(9) by (metis prod.collapse)
  then have g3: "gw_cache g3 = Some ?c" "gw_usage_by_run g3 = gw_usage_by_run g'"
    using c' enforce_budget_keeps [of gc g'] by simp_all
  have "read_cache gc (fst clock') (r\<lparr>rq_temperature := t, rq_max_tokens := k\<rparr>) g3
      = (decode_cached gc (cache_payload res), g3\<lparr>gw_cache := Some ?c\<rparr>)"
    using g3(1) assms(3) get_set_json [OF assms(7,8)] by (simp add: read_cache_def key)
  then show ?thesis using b g3(2) by (simp add: complete_def decode_cached_payload hand_over_def)
qed


theorem completion_replayed_from_cache_witness:
  "\<exists>g' hit g''. complete (sample_config (fixed_model ''hi'' 1) null_spend_ledger) (0, 0, 0) sample_request None [] None
        (new_gateway (Some (new_mem_cache 8)) \<lparr>nl_total_usd = 0, nl_total_tokens = 0\<rparr>) () = (Inr sample_result, g', ())
    \<and> complete (sample_config (fixed_model ''hi'' 1) null_spend_ledger) (9, 0, 0) (sample_request\<lparr>rq_temperature := Some 2, rq_max_tokens := None\<rparr>)
        None [] None g' () = (Inr hit, g'', ()) \<and> cp_text hit = ''hi'' \<and> cp_cached hit"
proof -
  let ?gc = "sample_config (fixed_model ''hi'' 1) null_spend_ledger"
    and ?g = "new_gateway (Some (new_mem_cache 8)) \<lparr>nl_total_usd = 0, nl_total_tokens = 0\<rparr>"
  define g' where "g' = \<lparr>gw_cache = Some (set_json (gc_codec ?gc) 300 0 0 (llm_key ?gc sample_request) (cache_payload sample_result)
      (Some 60) (new_mem_cache 8)), gw_ledger = \<lparr>nl_total_usd = 1, nl_total_tokens = 3\<rparr>, gw_budget_exceeded = False,
      gw_usage_by_run = [], gw_sleeps = []\<rparr>"
  note cfg = sample_config_def sample_settings_def null_spend_ledger_def enforce_budget_def
  have "enforce_budget ?gc ?g = (Inr (), ?g)" by (simp add: cfg new_gateway_def)
  moreover have "read_cache ?gc 0 sample_request ?g = (None, ?g)"
    by (simp add: cfg new_gateway_def read_cache_def get_json_def cache_get_def new_mem_cache_def)
  moreover have "call_with_retry ?gc sample_request None () = (Inr sample_result, [], ())"
    by (simp add: cfg call_with_retry_def attempts_of_def numeral_2_eq_2 attempt_once_def fixed_model_def sample_result_def
        strip_def is_space_def)
  moreover have "settle ?gc (0, 0) sample_request None [] sample_result ?g = (Inr sample_result, g')"
    by (simp add: settle_def write_cache_def tally_usage_def g'_def new_gateway_def cfg)
      (simp add: sample_result_def usage_total_def opt_str_def)
  ultimately have c: "complete ?gc (0, 0, 0) sample_request None [] None ?g () = (Inr sample_result, g', ())"
    by (simp add: complete_def)
  have t: "fst (9 :: real, 0 :: real, 0 :: real) \<le> snd (snd (0 :: real, 0 :: real, 0)) + real_of_int (effective_ttl (Some (lm_cache_ttl_seconds (gc_settings ?gc))) (gc_default_ttl ?gc))"
    by (simp add: sample_config_def sample_settings_def effective_ttl_def)
  have b: "fst (enforce_budget ?gc g') = Inr ()" by (simp add: cfg g'_def)
  have f: "gw_cache ?g \<noteq> None" "lm_cache_enabled (gc_settings ?gc)" "\<not> cp_cached sample_result" "\<not> cp_degraded sample_result"
      "opt_str (cp_error sample_result) = []"
    by (simp_all add: new_gateway_def sample_config_def sample_settings_def sample_result_def opt_str_def)
  have j: "jc_loads (gc_codec ?gc) (jc_dumps (gc_codec ?gc) (cache_payload sample_result)) = Some (cache_payload sample_result)"
    by (simp add: sample_config_def)
  obtain hit g'' where "complete ?gc (9, 0, 0) (sample_request\<lparr>rq_temperature := Some 2, rq_max_tokens := None\<rparr>) None [] None g' ()
      = (Inr hit, g'', ())" "cp_text hit = cp_text sample_result" "cp_cached hit"
    using completion_replayed_from_cache [OF c f j t b, of None "Some 2" None "[]" "()"] by blast
  then show ?thesis using c by (intro exI conjI) (assumption | simp add: sample_result_def)+
qed

end
