(* ===== verification/Structured.thy ===== *)
theory Structured
  imports Json Errors
begin

text \<open>
  \<open>llm/structured.py\<close>: turning a model's answer into validated data. The answer may wrap its JSON in a
  code fence or in prose; fences are stripped, and when the text does not parse as it is, the outermost
  array or object is located by a scanner that skips string literals.

  The JSON parser and the schema validation (pydantic) are arguments; both report a failure with its
  message. The regular expressions are written out as the string operations they perform.
\<close>

definition structured_error :: "string \<Rightarrow> py_error" where
  "structured_error msg = OtherError ''StructuredOutputError'' msg"

definition starts_with_fence :: "string \<Rightarrow> bool" where
  "starts_with_fence s = (take 3 s = ''```'')"

definition rstrip :: "string \<Rightarrow> string" where
  "rstrip s = rev (dropWhile is_space (rev s))"

text \<open>The first alternative of the pattern: the opening fence with its language tag, tried in order.\<close>

definition drop_tag :: "string \<Rightarrow> string" where
  "drop_tag s =
     (if str_lower (take 4 s) = ''json'' then drop 4 s
      else if str_lower (take 10 s) = ''javascript'' then drop 10 s
      else if str_lower (take 2 s) = ''js'' then drop 2 s
      else s)"

definition drop_opening_fence :: "string \<Rightarrow> string" where
  "drop_opening_fence s = dropWhile is_space (drop_tag (drop 3 s))"

text \<open>The second alternative: a fence at the end, with the white space around it.\<close>

definition drop_closing_fence :: "string \<Rightarrow> string" where
  "drop_closing_fence s =
     (let r = rev (rstrip s) in if take 3 r = ''```'' then rstrip (rev (drop 3 r)) else s)"

definition strip_fences :: "string \<Rightarrow> string" where
  "strip_fences text =
     (let cleaned = strip text
      in if starts_with_fence cleaned
         then strip (drop_closing_fence (drop_closing_fence (drop_opening_fence cleaned)))
         else cleaned)"

subsection \<open>The scanner\<close>

definition is_opener :: "char \<Rightarrow> bool" where
  "is_opener c = (c = CHR ''['' \<or> c = CHR ''{'')"

definition closer_of :: "char \<Rightarrow> char" where
  "closer_of c = (if c = CHR ''['' then CHR '']'' else CHR ''}'')"

definition quote :: char where "quote = CHR 0x22"
definition backslash :: char where "backslash = CHR 0x5C"

text \<open>
  The loop over the characters from the opener on, with \<open>depth\<close>, \<open>in_string\<close> and \<open>escaped\<close>; \<open>None\<close>
  when the text ends before the depth returns to zero.
\<close>

fun scan :: "char \<Rightarrow> int \<Rightarrow> bool \<Rightarrow> bool \<Rightarrow> string \<Rightarrow> string option" where
  "scan opener depth in_string escaped [] = None"
| "scan opener depth in_string escaped (c # cs) =
     (if in_string
      then map_option ((#) c)
             (if escaped then scan opener depth True False cs
              else if c = backslash then scan opener depth True True cs
              else if c = quote then scan opener depth False escaped cs
              else scan opener depth True escaped cs)
      else if c = quote then map_option ((#) c) (scan opener depth True escaped cs)
      else if c = opener then map_option ((#) c) (scan opener (depth + 1) False escaped cs)
      else if c = closer_of opener
           then (if depth - 1 = 0 then Some [c] else map_option ((#) c) (scan opener (depth - 1) False escaped cs))
      else map_option ((#) c) (scan opener depth False escaped cs))"

definition extract_json_span :: "string \<Rightarrow> string" where
  "extract_json_span text =
     (case dropWhile (\<lambda>c. \<not> is_opener c) text of
        [] \<Rightarrow> text
      | opener # rest \<Rightarrow>
          (case scan opener 0 False False (opener # rest) of Some found \<Rightarrow> found | None \<Rightarrow> opener # rest))"

subsection \<open>Parsing\<close>

type_synonym json_parser = "string \<Rightarrow> (string, json) res"

definition parse_json_payload :: "json_parser \<Rightarrow> string \<Rightarrow> (py_error, json) res" where
  "parse_json_payload loads text =
     (if text = [] \<or> strip text = [] then Inl (structured_error ''Model returned an empty response'')
      else let candidate = strip_fences text
           in case loads candidate of
                Inr j \<Rightarrow> Inr j
              | Inl e \<Rightarrow>
                  (case loads (extract_json_span candidate) of
                     Inr j \<Rightarrow> Inr j
                   | Inl e' \<Rightarrow> Inl (structured_error (''Model output is not valid JSON: '' @ or_str e' ''unknown error''))))"

type_synonym 'm validator = "json_dict \<Rightarrow> (string, 'm) res"

definition parse_model :: "json_parser \<Rightarrow> 'm validator \<Rightarrow> string \<Rightarrow> (py_error, 'm) res" where
  "parse_model loads validate text =
     bind_res (parse_json_payload loads text) (\<lambda>payload.
       let payload = (case payload of JList [] \<Rightarrow> JDict [] | JList (p # ps) \<Rightarrow> p | p \<Rightarrow> p)
       in case payload of
            JDict d \<Rightarrow>
              (case validate d of
                 Inl e \<Rightarrow> Inl (structured_error (''Model output failed schema validation: '' @ e))
               | Inr m \<Rightarrow> Inr m)
          | _ \<Rightarrow> Inl (structured_error ''Expected a JSON object from the model''))"

definition ENVELOPE_KEYS :: "string list" where
  "ENVELOPE_KEYS = [''items'', ''variants'', ''results'', ''data'', ''creatives'', ''segments'']"

definition list_under :: "json_dict \<Rightarrow> string \<Rightarrow> json list option" where
  "list_under d k = (case map_of d k of Some (JList js) \<Rightarrow> Some js | _ \<Rightarrow> None)"

definition unwrap_envelope :: "json \<Rightarrow> json" where
  "unwrap_envelope payload =
     (case payload of
        JDict d \<Rightarrow> (case List.map_filter (list_under d) ENVELOPE_KEYS of [] \<Rightarrow> JList [payload] | js # _ \<Rightarrow> JList js)
      | _ \<Rightarrow> payload)"

fun validated :: "'m validator \<Rightarrow> json list \<Rightarrow> 'm list" where
  "validated validate [] = []"
| "validated validate (JDict d # js) =
     (case validate d of Inl e \<Rightarrow> validated validate js | Inr m \<Rightarrow> m # validated validate js)"
| "validated validate (j # js) = validated validate js"

definition parse_model_list :: "json_parser \<Rightarrow> 'm validator \<Rightarrow> nat \<Rightarrow> string \<Rightarrow> (py_error, 'm list) res" where
  "parse_model_list loads validate max_items text =
     bind_res (parse_json_payload loads text) (\<lambda>payload.
       case unwrap_envelope payload of
         JList js \<Rightarrow>
           (let parsed = validated validate (take max_items js)
            in if parsed = [] then Inl (structured_error ''No item in the model output matched the schema'') else Inr parsed)
       | _ \<Rightarrow> Inl (structured_error ''Expected a JSON array from the model''))"

subsection \<open>A printed document is found in prose\<close>

text \<open>
  The reference: JSON text as a printer produces it. Numbers are printed by an argument whose characters
  are neither quotes nor brackets; \<open>quoted\<close> escapes quotes and backslashes.
\<close>

fun escaped_chars :: "string \<Rightarrow> string" where
  "escaped_chars [] = []"
| "escaped_chars (c # cs) = (if c = quote \<or> c = backslash then [backslash, c] else [c]) @ escaped_chars cs"

definition quoted :: "string \<Rightarrow> string" where
  "quoted s = quote # escaped_chars s @ [quote]"

fun comma_separated :: "string list \<Rightarrow> string" where
  "comma_separated [] = []"
| "comma_separated [x] = x"
| "comma_separated (x # y # ys) = x @ '', '' @ comma_separated (y # ys)"

fun render :: "(pyfloat \<Rightarrow> string) \<Rightarrow> json \<Rightarrow> string" where
  "render fl JNull = ''null''"
| "render fl (JBool b) = (if b then ''true'' else ''false'')"
| "render fl (JInt n) = show_int n"
| "render fl (JFloat x) = fl x"
| "render fl (JStr s) = quoted s"
| "render fl (JList js) = CHR ''['' # comma_separated (map (render fl) js) @ '']''"
| "render fl (JDict d) = CHR ''{'' # comma_separated (map (\<lambda>(k, j). quoted k @ '': '' @ render fl j) d) @ ''}''"

definition plain :: "string \<Rightarrow> bool" where
  "plain s \<longleftrightarrow> (\<forall>c\<in>set s. c \<notin> {quote, CHR ''['', CHR '']'', CHR ''{'', CHR ''}''})"


definition before :: "string \<Rightarrow> string option \<Rightarrow> string option" where
  "before s x = map_option (\<lambda>t. s @ t) x"

lemma before_simps [simp]:
  "before [] x = x"
  "before a (before b x) = before (a @ b) x"
  "before a (Some t) = Some (a @ t)"
  by (cases x; simp add: before_def)+

lemma before_Cons: "map_option ((#) c) x = before [c] x"
  by (cases x) (simp_all add: before_def)

text \<open>A text the scanner passes over, at any positive depth and for either kind of bracket.\<close>

definition transparent :: "string \<Rightarrow> bool" where
  "transparent s \<longleftrightarrow> (\<forall>opener d rest. is_opener opener \<longrightarrow> 1 \<le> d \<longrightarrow>
     scan opener d False False (s @ rest) = before s (scan opener d False False rest))"

lemma opener_cases: "is_opener c \<Longrightarrow> c = CHR ''['' \<or> c = CHR ''{''"
  by (simp add: is_opener_def)

lemma transparent_Nil [intro]: "transparent []"
  by (simp add: transparent_def)

lemma transparent_append [intro]: "transparent a \<Longrightarrow> transparent b \<Longrightarrow> transparent (a @ b)"
  by (simp add: transparent_def)

lemma transparent_plain: "plain s \<Longrightarrow> transparent s"
proof (induction s)
  case (Cons c s)
  then have c: "c \<noteq> quote" "\<not> is_opener c" "c \<noteq> CHR '']''" "c \<noteq> CHR ''}''" and s: "transparent s"
    by (simp_all add: plain_def is_opener_def)
  show ?case unfolding transparent_def
  proof (intro allI impI)
    fix opener d rest assume o: "is_opener opener" "(1 :: int) \<le> d"
    then have "scan opener d False False ((c # s) @ rest) = map_option ((#) c) (scan opener d False False (s @ rest))"
      using c by (auto simp: closer_of_def)
    also have "\<dots> = before (c # s) (scan opener d False False rest)"
      using s o by (simp add: transparent_def before_Cons)
    finally show "scan opener d False False ((c # s) @ rest) = before (c # s) (scan opener d False False rest)" .
  qed
qed blast

lemma scan_escaped:
  "scan opener d True False (escaped_chars s @ rest) = before (escaped_chars s) (scan opener d True False rest)"
proof (induction s)
  case (Cons c s)
  then show ?case by (auto simp: before_Cons backslash_def quote_def)
qed simp

lemma transparent_quoted: "transparent (quoted s)"
proof -
  have "scan opener d False False (quoted s @ rest) = before (quoted s) (scan opener d False False rest)"
    if "is_opener opener" for opener and d :: int and rest
    using opener_cases [OF that] scan_escaped [of opener d s "quote # rest"]
    by (auto simp: quoted_def before_Cons quote_def backslash_def)
  then show ?thesis by (simp add: transparent_def)
qed

lemma scan_inside:
  assumes "transparent s" "is_opener opener" "1 \<le> d"
  shows "scan opener d False False (s @ closer_of opener # rest) =
    (if d = 1 then Some (s @ [closer_of opener]) else before (s @ [closer_of opener]) (scan opener (d - 1) False False rest))"
proof -
  have "scan opener d False False (closer_of opener # rest) =
      (if d = 1 then Some [closer_of opener] else map_option ((#) (closer_of opener)) (scan opener (d - 1) False False rest))"
    using opener_cases [OF assms(2)] by (auto simp: closer_of_def quote_def)
  then show ?thesis using assms by (simp add: transparent_def before_Cons)
qed

lemma transparent_bracket:
  assumes "transparent s" "is_opener b"
  shows "transparent (b # s @ [closer_of b])"
  unfolding transparent_def
proof (intro allI impI)
  fix opener rest and d :: int assume o: "is_opener opener" "1 \<le> d"
  show "scan opener d False False ((b # s @ [closer_of b]) @ rest)
      = before (b # s @ [closer_of b]) (scan opener d False False rest)"
  proof (cases "opener = b")
    case True
    have "scan opener d False False ((b # s @ [closer_of b]) @ rest)
        = map_option ((#) b) (scan opener (d + 1) False False (s @ closer_of b # rest))"
      using True opener_cases [OF assms(2)] by (auto simp: quote_def)
    then show ?thesis using scan_inside [OF assms(1) o(1), of "d + 1" rest] o(2) True
      by (simp add: before_Cons)
  next
    case False
    then have "c \<noteq> quote \<and> c \<noteq> opener \<and> c \<noteq> closer_of opener" if "c \<in> {b, closer_of b}" for c
      using that opener_cases [OF o(1)] opener_cases [OF assms(2)] by (auto simp: closer_of_def quote_def)
    then have p: "b \<noteq> quote" "b \<noteq> opener" "b \<noteq> closer_of opener" "closer_of b \<noteq> quote" "closer_of b \<noteq> opener"
        "closer_of b \<noteq> closer_of opener" by simp_all
    have "scan opener d False False ((b # s @ [closer_of b]) @ rest)
        = map_option ((#) b) (scan opener d False False (s @ closer_of b # rest))"
      using p by simp
    also have "scan opener d False False (s @ closer_of b # rest) = before s (scan opener d False False (closer_of b # rest))"
      using assms(1) o by (simp add: transparent_def)
    also have "scan opener d False False (closer_of b # rest) = map_option ((#) (closer_of b)) (scan opener d False False rest)"
      using p by simp
    finally show ?thesis by (simp add: before_Cons)
  qed
qed

lemma transparent_commas: "(\<And>x. x \<in> set xs \<Longrightarrow> transparent x) \<Longrightarrow> transparent (comma_separated xs)"
proof (induction xs rule: comma_separated.induct)
  case (3 x y ys)
  have "transparent '', ''" by (rule transparent_plain) (simp add: plain_def quote_def)
  then have "transparent (x @ ('', '' @ comma_separated (y # ys)))"
    using 3 by (intro transparent_append) simp_all
  then show ?case by simp
qed auto

lemma plain_show_nat: "plain (show_nat n)"
proof -
  have "list_all is_digit (show_nat n)" using show_nat_digits by blast
  moreover have "\<not> is_digit c" if "c \<in> {quote, CHR ''['', CHR '']'', CHR ''{'', CHR ''}''}" for c
    using that by (auto simp: is_digit_def quote_def)
  ultimately show ?thesis by (auto simp: plain_def list_all_iff)
qed

lemma plain_show_int: "plain (show_int n)"
  using plain_show_nat by (simp add: show_int_def plain_def quote_def)

lemma transparent_render:
  assumes "\<forall>x. plain (fl x)"
  shows "transparent (render fl j)"
  using assms
proof (induction fl j rule: render.induct)
  case (2 fl b)
  show ?case by (rule transparent_plain) (simp add: plain_def quote_def)
next
  case (6 fl' js)
  have "transparent (CHR ''['' # comma_separated (map (render fl') js) @ [closer_of (CHR ''['')])"
    by (rule transparent_bracket [OF transparent_commas]) (use 6 in \<open>auto simp: is_opener_def\<close>)
  then show ?case by (simp add: closer_of_def)
next
  case (7 fl' d)
  have "transparent (quoted k @ ('': '' @ render fl' j))" if "(k, j) \<in> set d" for k j
    by (intro transparent_append transparent_quoted transparent_plain 7(1) [OF that refl 7(2)])
      (simp_all add: plain_def quote_def)
  then have "transparent (CHR ''{'' # comma_separated (map (\<lambda>(k, j). quoted k @ '': '' @ render fl' j) d) @ [closer_of (CHR ''{'')])"
    by (intro transparent_bracket [OF transparent_commas]) (auto simp: is_opener_def)
  then show ?case by (simp add: closer_of_def)
next
  case (1 fl)
  show ?case by (rule transparent_plain) (simp add: plain_def quote_def)
qed (simp_all add: transparent_plain transparent_quoted plain_show_int)


definition is_container :: "json \<Rightarrow> bool" where
  "is_container j = (case j of JList js \<Rightarrow> True | JDict d \<Rightarrow> True | _ \<Rightarrow> False)"

lemma container_brackets:
  assumes "is_container j" "\<forall>x. plain (fl x)"
  shows "\<exists>b s. render fl j = b # s @ [closer_of b] \<and> is_opener b \<and> transparent s"
proof (cases j)
  case (JList js)
  have "transparent (comma_separated (map (render fl) js))"
    by (rule transparent_commas) (auto simp: transparent_render [OF assms(2)])
  then show ?thesis using JList by (intro exI [of _ "CHR ''[''"]) (auto simp: closer_of_def is_opener_def)
next
  case (JDict d)
  have "transparent (quoted k @ ('': '' @ render fl j))" for k j
    by (intro transparent_append transparent_quoted transparent_plain transparent_render assms(2)) (simp add: plain_def quote_def)
  then have "transparent (comma_separated (map (\<lambda>(k, j). quoted k @ '': '' @ render fl j) d))"
    by (intro transparent_commas) auto
  then show ?thesis using JDict by (intro exI [of _ "CHR ''{''"]) (auto simp: closer_of_def is_opener_def)
qed (use assms(1) in \<open>simp_all add: is_container_def\<close>)

lemma extract_rendered:
  assumes "is_container j" "\<forall>x. plain (fl x)" "\<forall>c\<in>set pre. \<not> is_opener c"
  shows "extract_json_span (pre @ render fl j @ post) = render fl j"
proof -
  obtain b s where b: "render fl j = b # s @ [closer_of b]" "is_opener b" "transparent s"
    using container_brackets [OF assms(1,2)] by blast
  have "dropWhile (\<lambda>c. \<not> is_opener c) (pre @ render fl j @ post) = b # s @ closer_of b # post"
    using assms(3) b(1,2) by (simp add: dropWhile_append2)
  moreover have "scan b 0 False False (b # s @ closer_of b # post) = Some (b # s @ [closer_of b])"
    using opener_cases [OF b(2)] scan_inside [OF b(3,2), of 1 post] by (auto simp: quote_def)
  ultimately show ?thesis using b(1) by (simp add: extract_json_span_def)
qed

lemma dropWhile_prefix: "(\<And>c. c \<in> set a \<Longrightarrow> P c) \<Longrightarrow> \<not> P x \<Longrightarrow> dropWhile P (a @ x # b) = x # b"
  by (induction a) auto

text \<open>Stripping white space around a document with solid ends leaves the document with the solid prose.\<close>

lemma strip_around:
  assumes "\<not> is_space x" "\<not> is_space y"
  shows "\<exists>pre' post'. strip (pre @ x # m @ y # post) = pre' @ x # m @ y # post' \<and> set pre' \<subseteq> set pre
    \<and> (set pre \<subseteq> Collect is_space \<longrightarrow> pre' = []) \<and> (set post \<subseteq> Collect is_space \<longrightarrow> post' = [])"
proof -
  define pre' where "pre' = dropWhile is_space pre"
  define post' where "post' = rev (dropWhile is_space (rev post))"
  have 1: "dropWhile is_space (pre @ x # m @ y # post) = pre' @ x # m @ y # post"
    using assms(1) unfolding pre'_def by (induction pre) simp_all
  have "dropWhile is_space (rev post @ y # rest) = dropWhile is_space (rev post) @ y # rest" for rest
    using assms(2) by (induction "rev post" arbitrary: post) (simp_all add: dropWhile_append)
  then have "rev (dropWhile is_space (rev (pre' @ x # m @ y # post))) = pre' @ x # m @ y # post'"
    by (simp add: post'_def)
  then have "strip (pre @ x # m @ y # post) = pre' @ x # m @ y # post'" by (simp add: strip_def 1)
  moreover have "set pre' \<subseteq> set pre" unfolding pre'_def by (meson set_dropWhileD subsetI)
  moreover have "pre' = []" if "set pre \<subseteq> Collect is_space" using that by (auto simp: pre'_def dropWhile_eq_Nil_conv)
  moreover have "post' = []" if "set post \<subseteq> Collect is_space" using that by (auto simp: post'_def dropWhile_eq_Nil_conv)
  ultimately show ?thesis by blast
qed


lemma parse_second_attempt:
  assumes "strip text \<noteq> []" "loads (strip_fences text) = Inl e" "loads (extract_json_span (strip_fences text)) = Inr j"
  shows "parse_json_payload loads text = Inr j"
proof -
  have "text \<noteq> []" using assms(1) by (auto simp: strip_def)
  then show ?thesis using assms by (simp add: parse_json_payload_def Let_def)
qed

lemma solid_brackets:
  assumes "is_opener b" shows "\<not> is_space b" "\<not> is_space (closer_of b)" "b \<noteq> CHR ''`''"
  using opener_cases [OF assms] by (auto simp: is_space_def closer_of_def)

lemma rstrip_solid: "\<not> is_space y \<Longrightarrow> \<forall>c\<in>set w. is_space c \<Longrightarrow> rstrip (u @ y # w) = u @ [y]"
  using dropWhile_prefix [of "rev w" is_space y "rev u"] by (simp add: rstrip_def)

lemma drop_tagged:
  assumes "str_lower tag \<in> {[], ''json'', ''javascript'', ''js''}" "is_space x \<or> is_opener x"
  shows "drop_tag (tag @ x # r) = x # r"
proof -
  have x: "lower_char x \<noteq> CHR ''j''" "lower_char x \<noteq> CHR ''o''"
    using assms(2) by (auto simp: is_space_def is_opener_def lower_char_def Let_def)
  have len: "length tag = length (str_lower tag)" by (simp add: str_lower_def)
  have app: "str_lower (a @ b) = str_lower a @ str_lower b" for a b by (simp add: str_lower_def)
  consider "tag = []" | "str_lower tag = ''json''" | "str_lower tag = ''javascript''" | "str_lower tag = ''js''"
    using assms(1) by (auto simp: str_lower_def)
  then show ?thesis
  proof cases
    case 1
    have "str_lower (take (Suc n) (x # r)) \<noteq> CHR ''j'' # cs" for n cs using x(1) by (simp add: str_lower_def)
    from this [of 3 "''son''"] this [of 9 "''avascript''"] this [of 1 "''s''"] show ?thesis
      using 1 by (simp add: drop_tag_def)
  next
    case 2
    then show ?thesis using len by (simp add: drop_tag_def)
  next
    case 3
    then have "length tag = 10" using len by simp
    moreover have "str_lower (take 4 tag) = ''java''" using take_map [of 4 lower_char tag] 3 by (simp add: str_lower_def)
    ultimately show ?thesis using 3 by (simp add: drop_tag_def)
  next
    case 4
    then obtain c d where t: "tag = [c, d]" "lower_char c = CHR ''j''" "lower_char d = CHR ''s''"
      by (auto simp: str_lower_def map_eq_Cons_conv)
    have "lower_char d \<noteq> CHR ''a''" using t(3) by simp
    then have "str_lower (take 4 (tag @ x # r)) \<noteq> ''json''" "str_lower (take 10 (tag @ x # r)) \<noteq> ''javascript''"
      using t x(2) by (simp_all add: str_lower_def numeral_eq_Suc)
    then show ?thesis using t 4 x(2) by (simp add: drop_tag_def str_lower_def)
  qed
qed

text \<open>An answer that is the document inside a code fence is unwrapped to the document itself.\<close>

lemma strip_fenced:
  assumes doc: "is_container j" "\<forall>x. plain (fl x)"
    and tag: "str_lower tag \<in> {[], ''json'', ''javascript'', ''js''}"
    and space: "\<forall>c\<in>set (a @ w1 @ w2 @ z). is_space c"
  shows "strip_fences (a @ ''```'' @ tag @ w1 @ render fl j @ w2 @ ''```'' @ z) = render fl j"
proof -
  obtain b s where b: "render fl j = b # s @ [closer_of b]" "is_opener b" using container_brackets [OF doc] by blast
  note solid = solid_brackets [OF b(2)]
  have tick: "\<not> is_space CHR ''`''" by (simp add: is_space_def)
  let ?body = "tag @ w1 @ render fl j @ w2"
  have "strip (a @ CHR ''`'' # (''``'' @ ?body @ ''``'') @ CHR ''`'' # z) = CHR ''`'' # (''``'' @ ?body @ ''``'') @ [CHR ''`'']"
    using strip_around [OF tick tick, of a "''``'' @ ?body @ ''``''" z] space by auto
  then have clean: "strip (a @ ''```'' @ tag @ w1 @ render fl j @ w2 @ ''```'' @ z) = ''```'' @ ?body @ ''```''" by simp
  have "drop_tag (?body @ ''```'') = w1 @ render fl j @ w2 @ ''```''"
  proof (cases w1)
    case Nil
    then show ?thesis using drop_tagged [OF tag, of b "s @ [closer_of b] @ w2 @ ''```''"] b by simp
  next
    case (Cons x r)
    then show ?thesis using drop_tagged [OF tag, of x "r @ render fl j @ w2 @ ''```''"] space by simp
  qed
  then have 1: "drop_opening_fence (''```'' @ ?body @ ''```'') = render fl j @ w2 @ ''```''"
    using space solid(1) b(1) by (simp add: drop_opening_fence_def dropWhile_append2)
  have "rstrip (render fl j @ w2 @ ''```'') = render fl j @ w2 @ ''```''"
    using rstrip_solid [OF tick, of "[]" "render fl j @ w2 @ ''``''"] by simp
  moreover have 2: "rstrip (render fl j @ w) = render fl j" if "\<forall>c\<in>set w. is_space c" for w
    using rstrip_solid [OF solid(2) that, of "b # s"] b(1) by simp
  ultimately have 3: "drop_closing_fence (render fl j @ w2 @ ''```'') = render fl j"
    using space by (simp add: drop_closing_fence_def Let_def)
  have "closer_of b \<noteq> CHR ''`''" using opener_cases [OF b(2)] by (auto simp: closer_of_def)
  then have 4: "drop_closing_fence (render fl j) = render fl j"
    using 2 [of "[]"] b(1) by (simp add: drop_closing_fence_def Let_def)
  have "strip (render fl j) = render fl j" using strip_around [OF solid(1,2), of "[]" s "[]"] b(1) by auto
  then show ?thesis using clean 1 3 4 by (simp add: strip_fences_def Let_def starts_with_fence_def)
qed

lemma strip_prose:
  assumes doc: "is_container j" "\<forall>x. plain (fl x)" and pre: "\<forall>c\<in>set pre. \<not> is_opener c"
    and fence: "\<not> starts_with_fence (strip (pre @ render fl j @ post))"
  shows "strip (pre @ render fl j @ post) \<noteq> [] \<and> extract_json_span (strip_fences (pre @ render fl j @ post)) = render fl j"
proof -
  obtain b s where b: "render fl j = b # s @ [closer_of b]" "is_opener b" using container_brackets [OF doc] by blast
  obtain pre' post' where p: "strip (pre @ b # s @ closer_of b # post) = pre' @ b # s @ closer_of b # post'" "set pre' \<subseteq> set pre"
    using strip_around [OF solid_brackets(1,2) [OF b(2)]] by blast
  then have "strip_fences (pre @ render fl j @ post) = pre' @ render fl j @ post'"
    using fence b(1) by (simp add: strip_fences_def Let_def)
  moreover have "extract_json_span (pre' @ render fl j @ post') = render fl j"
    by (rule extract_rendered [OF doc]) (use p(2) pre in blast)
  ultimately show ?thesis using p(1) b(1) by simp
qed

subsection \<open>Lists of validated items\<close>

lemma validated_sound: "m \<in> set (validated validate js) \<Longrightarrow> \<exists>d. JDict d \<in> set js \<and> validate d = Inr m"
  by (induction validate js rule: validated.induct) (auto split: sum.splits)

lemma validated_length: "length (validated validate js) \<le> length js"
  by (induction validate js rule: validated.induct) (auto split: sum.splits)

lemma parse_model_list_sound:
  assumes "parse_model_list loads validate n text = Inr ms"
  shows "ms \<noteq> [] \<and> length ms \<le> n \<and> (\<forall>m\<in>set ms. \<exists>d. validate d = Inr m)"
proof -
  obtain payload where "parse_json_payload loads text = Inr payload"
    using assms by (auto simp: parse_model_list_def bind_res_Inr_iff)
  then obtain js where js: "unwrap_envelope payload = JList js" "ms = validated validate (take n js)" "ms \<noteq> []"
    using assms by (cases "unwrap_envelope payload") (auto simp: parse_model_list_def Let_def split: if_splits)
  have "length ms \<le> n" using validated_length [of validate "take n js"] js(2) by simp
  then show ?thesis using js(2,3) validated_sound [of _ validate "take n js"] by blast
qed

subsection \<open>Properties\<close>

text \<open>
  A model's answer is recovered from its wrapping: a printed array or object is parsed whether it comes
  inside a code fence (any of the language tags in any case, any white space around), or embedded in prose
  that holds no bracket before it, whatever follows it and whatever brackets, quotes and escapes its strings
  contain, provided the parser reads the printed document and rejects the whole answer.
\<close>

theorem wrapped_answer_parsed:
  assumes "is_container j" "\<forall>x. plain (fl x)" "loads (render fl j) = Inr j"
  shows "(str_lower tag \<in> {[], ''json'', ''javascript'', ''js''} \<and> (\<forall>c\<in>set (a @ w1 @ w2 @ z). is_space c) \<longrightarrow>
      parse_json_payload loads (a @ ''```'' @ tag @ w1 @ render fl j @ w2 @ ''```'' @ z) = Inr j)
    \<and> ((\<forall>c\<in>set pre. \<not> is_opener c) \<and> \<not> starts_with_fence (strip (pre @ render fl j @ post))
        \<and> loads (strip_fences (pre @ render fl j @ post)) = Inl e \<longrightarrow>
      parse_json_payload loads (pre @ render fl j @ post) = Inr j)"
proof (intro conjI impI; elim conjE)
  assume t: "str_lower tag \<in> {[], ''json'', ''javascript'', ''js''}" "\<forall>c\<in>set (a @ w1 @ w2 @ z). is_space c"
  let ?text = "a @ ''```'' @ tag @ w1 @ render fl j @ w2 @ ''```'' @ z"
  have s: "strip_fences ?text = render fl j" by (rule strip_fenced [OF assms(1,2) t])
  have "render fl j \<noteq> []" using container_brackets [OF assms(1,2)] by auto
  then have "strip ?text \<noteq> []" using s by (auto simp: strip_fences_def starts_with_fence_def)
  then show "parse_json_payload loads ?text = Inr j" using s assms(3) by (simp add: parse_json_payload_def Let_def)
next
  assume p: "\<forall>c\<in>set pre. \<not> is_opener c" "\<not> starts_with_fence (strip (pre @ render fl j @ post))"
    and l: "loads (strip_fences (pre @ render fl j @ post)) = Inl e"
  from strip_prose [OF assms(1,2) p] assms(3) l show "parse_json_payload loads (pre @ render fl j @ post) = Inr j"
    by (intro parse_second_attempt) simp_all
qed


theorem wrapped_answer_parsed_witness:
  "let doc = JList [JStr ''a]b'']; loads = (\<lambda>s. if s = render (\<lambda>x. ''0'') doc then Inr doc else Inl ''no'')
   in parse_json_payload loads (''```JSON '' @ render (\<lambda>x. ''0'') doc @ ''```'') = Inr doc
    \<and> parse_json_payload loads (''Here: '' @ render (\<lambda>x. ''0'') doc @ '' [done]'') = Inr doc"
proof -
  let ?doc = "JList [JStr ''a]b'']" and ?fl = "\<lambda>x :: pyfloat. ''0''"
  let ?loads = "\<lambda>s. if s = render ?fl ?doc then Inr ?doc else Inl ''no''"
  have doc: "is_container ?doc" "\<forall>x. plain (?fl x)" "?loads (render ?fl ?doc) = Inr ?doc"
    by (simp_all add: is_container_def plain_def quote_def)
  note parsed = wrapped_answer_parsed [where loads = ?loads, OF doc]
  have t: "str_lower ''JSON'' \<in> {[], ''json'', ''javascript'', ''js''} \<and> (\<forall>c\<in>set ([] @ '' '' @ [] @ []). is_space c)"
    by code_simp
  have p: "\<forall>c\<in>set ''Here: ''. \<not> is_opener c" by (simp add: is_opener_def)
  have q: "\<not> starts_with_fence (strip (''Here: '' @ render ?fl ?doc @ '' [done]''))" by code_simp
  have "strip_fences (''Here: '' @ render ?fl ?doc @ '' [done]'') \<noteq> render ?fl ?doc" by code_simp
  then have l: "?loads (strip_fences (''Here: '' @ render ?fl ?doc @ '' [done]'')) = Inl ''no''" by simp
  show ?thesis unfolding Let_def
    using parsed [where a = "[]" and tag = "''JSON''" and ?w1.0 = "'' ''" and ?w2.0 = "[]" and z = "[]", THEN conjunct1, THEN mp, OF t]
      parsed [THEN conjunct2, THEN mp, OF conjI [OF p conjI [OF q l]]] by simp
qed

end
