(* ===== verification/AudienceAgent.thy ===== *)
theory AudienceAgent
  imports AgentBase Gateway Structured
begin

text \<open>
  \<open>agents/audience.py\<close>: the observations the audience agent scores, the hypothesis it asks the model for,
  and its message. The model call is an argument (the supervisor instantiates it with the gateway), and so
  is \<open>json.loads\<close>; whatever they raise is swallowed by the agent.
\<close>

type_synonym 'e model_call = "completion_request \<Rightarrow> 'e \<Rightarrow> (py_error, completion_result) res \<times> 'e"

definition observation_of_snapshot :: "snapshot \<Rightarrow> segment_observation" where
  "observation_of_snapshot s =
     \<lparr>so_key = or_str (campaign_name s) (campaign_id s), so_dimension = ''campaign'', so_impressions = impressions s,
      so_clicks = clicks s, so_conversions = conversions s, so_cost = total_cost s, so_revenue = total_revenue s\<rparr>"

text \<open>\<open>SegmentObservation(**raw)\<close>: a dictionary with exactly the seven fields.\<close>

definition observation_keys :: "string list" where
  "observation_keys = [''key'', ''dimension'', ''impressions'', ''clicks'', ''conversions'', ''cost'', ''revenue'']"

definition json_real :: "json \<Rightarrow> real option" where
  "json_real j = (case j of JFloat (Fin x) \<Rightarrow> Some x | JInt n \<Rightarrow> Some (of_int n) | _ \<Rightarrow> None)"

definition observation_of_json :: "json \<Rightarrow> (py_error, segment_observation) res" where
  "observation_of_json j =
     (case j of
        JDict d \<Rightarrow>
          if set (map fst d) \<noteq> set observation_keys then Inl (OtherError ''TypeError'' ''unexpected fields'')
          else (case (map_of d ''key'', map_of d ''dimension'', map_of d ''impressions'', map_of d ''clicks'',
                      map_of d ''conversions'', Option.bind (map_of d ''cost'') json_real, Option.bind (map_of d ''revenue'') json_real) of
                  (Some (JStr k), Some (JStr m), Some (JInt i), Some (JInt c), Some (JInt v), Some x, Some r) \<Rightarrow>
                    Inr \<lparr>so_key = k, so_dimension = m, so_impressions = i, so_clicks = c, so_conversions = v, so_cost = x, so_revenue = r\<rparr>
                | _ \<Rightarrow> Inl (OtherError ''TypeError'' ''ill-typed field''))
      | _ \<Rightarrow> Inl (OtherError ''TypeError'' ''not a mapping''))"

definition snapshot_of_metric :: "metric \<Rightarrow> (py_error, snapshot) res" where
  "snapshot_of_metric m = (case m of MSnapshot s \<Rightarrow> Inr s | MDict d \<Rightarrow> snapshot_of_dict d)"

definition resolve_observations :: "agent_state \<Rightarrow> 'w agent_context \<Rightarrow> (py_error, segment_observation list) res" where
  "resolve_observations s ctx =
     (if ax_audience_observations ctx \<noteq> [] then Inr (ax_audience_observations ctx)
      else if st_audience_observations s \<noteq> [] then map_res observation_of_json (st_audience_observations s)
      else map_res (\<lambda>m. bind_res (snapshot_of_metric m) (\<lambda>snap. Inr (observation_of_snapshot snap))) (st_metrics s))"

subsection \<open>The hypothesis\<close>

definition format_segment :: "segment_insight \<Rightarrow> string" where
  "format_segment s =
     ''- '' @ si_key s @ '' ('' @ si_dimension s @ '')'' @ '' index='' @ fmt_fixed 2 (py_round 3 (si_index s))
     @ '' cvr='' @ fmt_percent 3 (py_round 6 (si_cvr s)) @ '' conversions='' @ show_int (si_conversions s)
     @ '' roas='' @ fmt_fixed 2 (py_round 4 (si_roas s))"

definition format_segments :: "segment_insight list \<Rightarrow> string" where
  "format_segments ss = join_with [CHR 0x0A] (map format_segment ss)"

definition AUDIENCE_SCHEMA_HINT :: string where
  "AUDIENCE_SCHEMA_HINT = ''{'' @ [quote] @ ''hypothesis'' @ [quote] @ '': str, '' @ [quote] @ ''recommended_exclusions'' @ [quote]
     @ '': [str], '' @ [quote] @ ''confidence'' @ [quote] @ '': float, '' @ [quote] @ ''notes'' @ [quote] @ '': str}''"

definition audience_request :: "string \<Rightarrow> segment_insight list \<Rightarrow> completion_request" where
  "audience_request system_prompt segments =
     \<lparr>rq_task = ''audience_insight'', rq_system_prompt = system_prompt,
      rq_user_prompt = ''Segment performance (conversion index > 1 means the slice converts ''
        @ ''better than its delivery share):'' @ [CHR 0x0A] @ format_segments segments,
      rq_temperature = None, rq_max_tokens = None, rq_json_mode = True, rq_schema_hint = AUDIENCE_SCHEMA_HINT\<rparr>"

fun truthy :: "json \<Rightarrow> bool" where
  "truthy JNull = False"
| "truthy (JBool b) = b"
| "truthy (JInt n) = (n \<noteq> 0)"
| "truthy (JFloat x) = (x \<noteq> Fin 0)"
| "truthy (JStr s) = (s \<noteq> [])"
| "truthy (JList js) = (js \<noteq> [])"
| "truthy (JDict d) = (d \<noteq> [])"

definition llm_hypothesis :: "'e model_call \<Rightarrow> json_parser \<Rightarrow> string \<Rightarrow> audience_analysis \<Rightarrow> 'e \<Rightarrow> json option \<times> 'e" where
  "llm_hypothesis ask loads system_prompt a e =
     (let segments = take 8 (aa_segments a)
      in if segments = [] then (None, e)
         else case ask (audience_request system_prompt segments) e of
                (Inl err, e1) \<Rightarrow> (None, e1)
              | (Inr res, e1) \<Rightarrow> (case loads (cp_text res) of Inl err \<Rightarrow> (None, e1) | Inr j \<Rightarrow> (Some j, e1)))"

definition audience_message :: "segment_insight list \<Rightarrow> segment_insight list \<Rightarrow> int \<Rightarrow> message" where
  "audience_message segments best iteration =
     (if segments = [] then message_of AGENT_AUDIENCE ''No audience segments had enough delivery to analyse.'' iteration
      else message_of AGENT_AUDIENCE
             (''Analysed '' @ show_nat (length segments) @ '' audience slices. Strongest: ''
              @ (if best = [] then ''none above the score gate'' else join_with '', '' (map si_key best)) @ ''.'') iteration)"

definition audience_insights :: "segment_observation list \<Rightarrow> audience_analysis \<Rightarrow> json option \<Rightarrow> json_dict" where
  "audience_insights os a hypothesis =
     analysis_dict a @ [(''observation_count'', JInt (int (length os)))]
     @ (case hypothesis of Some j \<Rightarrow> if truthy j then [(''hypothesis'', j)] else [] | None \<Rightarrow> [])"

definition audience_run :: "'e model_call \<Rightarrow> json_parser \<Rightarrow> string \<Rightarrow> agent_state \<Rightarrow> 'w agent_context \<Rightarrow> 'e
   \<Rightarrow> (py_error, channel_update list \<times> json_dict option) res \<times> 'e" where
  "audience_run ask loads system_prompt s ctx e =
     (case resolve_observations s ctx of
        Inl err \<Rightarrow> (Inl err, e)
      | Inr os \<Rightarrow>
          let a = analyze os TOP_N MIN_IMPRESSIONS; best = take 3 (top_segments a)
          in case llm_hypothesis ask loads system_prompt a e of
               (hypothesis, e1) \<Rightarrow>
                 (Inr ([UAudienceInsights (audience_insights os a hypothesis), UCurrentAgent (agent_name_value AGENT_AUDIENCE),
                        UAgentMessages [audience_message (aa_segments a) best (st_iteration s)]],
                       Some [(''segments'', JInt (int (length (aa_segments a)))), (''top_segments'', JList (map (\<lambda>t. JStr (si_key t)) best)),
                             (''lookalike_suggestions'', JInt (int (length (aa_lookalike_suggestions a))))]), e1))"

end
