(* ===== verification/Creative.thy ===== *)
theory Creative
  imports AudienceAgent
begin

text \<open>
  \<open>agents/creative.py\<close> and the \<open>CreativeVariant\<close> schema of \<open>schemas/agent.py\<close>: which campaigns get new
  copy, the request to the model, the validation and de-duplication of its variants, and the
  deterministic templates used instead when the model fails.

  The model call, the JSON parser and the hash that seeds the choice of a template are arguments. What the
  model call raises is swallowed by the agent.
\<close>

definition MAX_VARIANTS_PER_CAMPAIGN :: nat where "MAX_VARIANTS_PER_CAMPAIGN = 4"

definition EMOTION_STRATEGY :: "(string, string list) dict" where
  "EMOTION_STRATEGY =
     [(''weak_ctr'', [''curiosity'', ''social_proof'', ''urgency'']),
      (''weak_cvr'', [''benefit'', ''trust'', ''social_proof'']),
      (''weak_both'', [''benefit'', ''urgency'', ''trust'']),
      (''healthy'', [''curiosity'', ''benefit'', ''social_proof''])]"

text \<open>A template is what stands before and after its only \<open>{product}\<close>.\<close>

definition HEADLINE_TEMPLATES :: "(string, (string \<times> string) list) dict" where
  "HEADLINE_TEMPLATES =
     [(''urgency'', [(''Last chance: '', '' offer ends soon''),
        (''Your '', '' window is closing''),
        (''Only a few days left on '', [])]),
      (''trust'', [([], '', built to be relied on''),
        (''The '', '' choice that holds up''),
        (''Verified quality in every '', [])]),
      (''curiosity'', [(''What changes when you switch to '', []),
        (''The '', '' detail most people miss''),
        (''Why '', '' keeps getting recommended'')]),
      (''benefit'', [(''Get more from '', '' in less time''),
        ([], '': the outcome without the hassle''),
        (''Everything you want from '', '', included'')]),
      (''social_proof'', [(''The '', '' buyers keep coming back to''),
        ([], '' is the repeat purchase favourite''),
        (''Join the customers who chose '', [])])]"

definition DESCRIPTION_TEMPLATES :: "(string, string \<times> string) dict" where
  "DESCRIPTION_TEMPLATES =
     [(''urgency'', (''Current terms on '',
         '' are time-boxed. Review the offer and decide before it rotates out.'')),
      (''trust'', ([],
         '' is built on documented specifications and a straightforward support path, so the ''
          @ ''decision is easy to defend.'')),
      (''curiosity'', (''Most '',
         '' comparisons stop at the headline spec. Look at how it behaves in week three and the ''
          @ ''difference becomes obvious.'')),
      (''benefit'', ([],
         '' removes the steps between deciding and getting the result. Set up once, then it works in ''
          @ ''the background.'')),
      (''social_proof'', (''Repeat customers are the clearest signal available. '',
         '' keeps earning them, which is why it stays in rotation.''))]"

definition CTA_BY_EMOTION :: "(string, string) dict" where
  "CTA_BY_EMOTION =
     [(''urgency'', ''See the offer''), (''trust'', ''Learn more''), (''curiosity'', ''See how it works''), (''benefit'', ''Get started''), (''social_proof'', ''Read reviews'')]"


subsection \<open>The variant schema\<close>

definition TARGET_EMOTIONS :: "string list" where
  "TARGET_EMOTIONS = [''urgency'', ''trust'', ''curiosity'', ''benefit'', ''social_proof'']"

definition valid_variant :: "creative_variant \<Rightarrow> bool" where
  "valid_variant v \<longleftrightarrow> 4 \<le> length (cv_headline v) \<and> length (cv_headline v) \<le> 120 \<and> length (cv_description v) \<le> 600
     \<and> length (cv_cta_text v) \<le> 40 \<and> cv_target_emotion v \<in> set TARGET_EMOTIONS \<and> length (cv_ab_group v) \<le> 40
     \<and> length (cv_rationale v) \<le> 400 \<and> cv_source v \<in> {''llm'', ''rule''}"

definition check_variant :: "creative_variant \<Rightarrow> (string, creative_variant) res" where
  "check_variant v = (if valid_variant v then Inr v else Inl ''validation error for CreativeVariant'')"

text \<open>A string field: absent takes the default, anything but a string is an error; three fields are trimmed.\<close>

definition text_field :: "json_dict \<Rightarrow> string \<Rightarrow> string option \<Rightarrow> (string, string) res" where
  "text_field d k default_value =
     (case map_of d k of
        None \<Rightarrow> (case default_value of None \<Rightarrow> Inl (''Field required: '' @ k) | Some s \<Rightarrow> Inr s)
      | Some (JStr s) \<Rightarrow> Inr s
      | _ \<Rightarrow> Inl (''Input should be a valid string: '' @ k))"

definition trimmed_field :: "json_dict \<Rightarrow> string \<Rightarrow> string option \<Rightarrow> (string, string) res" where
  "trimmed_field d k default_value = bind_res (text_field d k default_value) (\<lambda>s. Inr (strip s))"

definition validate_variant :: "creative_variant validator" where
  "validate_variant d =
     bind_res (trimmed_field d ''headline'' None) (\<lambda>headline.
     bind_res (trimmed_field d ''description'' (Some [])) (\<lambda>description.
     bind_res (trimmed_field d ''cta_text'' (Some ''Learn More'')) (\<lambda>cta.
     bind_res (text_field d ''target_emotion'' (Some ''benefit'')) (\<lambda>emotion.
     bind_res (text_field d ''ab_group'' (Some ''variant'')) (\<lambda>ab_group.
     bind_res (text_field d ''rationale'' (Some [])) (\<lambda>rationale.
     bind_res (text_field d ''source'' (Some ''rule'')) (\<lambda>source.
       check_variant \<lparr>cv_headline = headline, cv_description = description, cv_cta_text = cta, cv_target_emotion = emotion,
         cv_ab_group = ab_group, cv_rationale = rationale, cv_source = source\<rparr>)))))))"

subsection \<open>Which campaigns, and why\<close>

definition needs_new_creative :: "snapshot \<Rightarrow> 'w agent_context \<Rightarrow> bool" where
  "needs_new_creative s ctx =
     (let opt = ax_optimization ctx
      in if impressions s < os_min_impressions_for_alerts opt then False
         else ctr s < os_alert_ctr_floor opt * 2 \<or> cvr s < CVR_PRIOR_MEAN * (8/10) \<or> ctr s < CTR_PRIOR_MEAN * (7/10))"

definition diagnose :: "snapshot \<Rightarrow> string" where
  "diagnose s =
     (let weak_ctr = ctr s < CTR_PRIOR_MEAN; weak_cvr = cvr s < CVR_PRIOR_MEAN
      in if weak_ctr \<and> weak_cvr then ''weak_both'' else if weak_ctr then ''weak_ctr''
         else if weak_cvr then ''weak_cvr'' else ''healthy'')"

definition emotions_for :: "string \<Rightarrow> string list" where
  "emotions_for diagnosis = (case map_of EMOTION_STRATEGY diagnosis of Some es \<Rightarrow> es | None \<Rightarrow> [])"

text \<open>\<open>name.split(separator)[0]\<close>, when the separator occurs.\<close>

fun before_first :: "string \<Rightarrow> string \<Rightarrow> string option" where
  "before_first sep s =
     (if take (length sep) s = sep then Some []
      else case s of [] \<Rightarrow> None | c # cs \<Rightarrow> map_option ((#) c) (before_first sep cs))"

declare before_first.simps [simp del]

definition product_of :: "string \<Rightarrow> string" where
  "product_of name =
     (case List.map_filter (\<lambda>sep. before_first sep name) ['' - '', '' | '', '' / '', '' -- ''] of
        head # _ \<Rightarrow> or_str (take 40 (strip head)) ''this offer''
      | [] \<Rightarrow> or_str (take 40 (strip name)) ''this offer'')"

subsection \<open>The templates\<close>

definition fill :: "string \<times> string \<Rightarrow> string \<Rightarrow> string" where
  "fill t product = fst t @ product @ snd t"

definition headline_key :: "string \<Rightarrow> string" where
  "headline_key h = str_lower (strip h)"

definition variant_letter :: "nat \<Rightarrow> string" where
  "variant_letter index = ''variant_'' @ [char_of (97 + index)]"

definition rule_rationale :: "string \<Rightarrow> string" where
  "rule_rationale emotion =
     ''Rule-based '' @ emotion @ '' angle for a campaign diagnosed as underperforming on ''
     @ (if emotion \<in> {''curiosity'', ''urgency'', ''social_proof''} then ''click-through'' else ''conversion'')"

definition pick_headline :: "nat \<Rightarrow> string \<Rightarrow> string \<Rightarrow> string set \<Rightarrow> string" where
  "pick_headline n emotion product existing =
     (let templates = the (map_of HEADLINE_TEMPLATES emotion);
          headline = fill (templates ! (n mod length templates)) product
      in if headline_key headline \<in> existing then fill (templates ! ((n + 1) mod length templates)) product else headline)"

definition rule_variant :: "nat \<Rightarrow> string \<Rightarrow> string set \<Rightarrow> nat \<times> string \<Rightarrow> (string, creative_variant) res" where
  "rule_variant seed product existing p =
     (case p of (index, emotion) \<Rightarrow>
        check_variant \<lparr>cv_headline = strip (take 120 (pick_headline (seed + index) emotion product existing)),
          cv_description = strip (take 600 (fill (the (map_of DESCRIPTION_TEMPLATES emotion)) product)),
          cv_cta_text = strip (the (map_of CTA_BY_EMOTION emotion)), cv_target_emotion = emotion,
          cv_ab_group = variant_letter index, cv_rationale = rule_rationale emotion, cv_source = ''rule''\<rparr>)"

definition rule_based :: "(string \<Rightarrow> nat) \<Rightarrow> snapshot \<Rightarrow> string list \<Rightarrow> string set \<Rightarrow> (string, creative_variant list) res" where
  "rule_based hash_seed s emotions existing =
     map_res (rule_variant (hash_seed (campaign_id s)) (product_of (or_str (campaign_name s) (campaign_id s))) existing)
       (enumerate 0 (take MAX_VARIANTS_PER_CAMPAIGN emotions))"

subsection \<open>Generation\<close>

fun dedupe_variants :: "string set \<Rightarrow> creative_variant list \<Rightarrow> creative_variant list" where
  "dedupe_variants seen [] = []"
| "dedupe_variants seen (v # vs) =
     (if headline_key (cv_headline v) \<in> seen then dedupe_variants seen vs
      else v # dedupe_variants (insert (headline_key (cv_headline v)) seen) vs)"

definition existing_headlines :: "'w agent_context \<Rightarrow> string \<Rightarrow> string set" where
  "existing_headlines ctx cid =
     set (map (\<lambda>c. headline_key (cr_headline c)) (case map_of (ax_existing_creatives ctx) cid of None \<Rightarrow> [] | Some rows \<Rightarrow> rows))"

definition CREATIVE_SCHEMA_HINT :: string where
  "CREATIVE_SCHEMA_HINT = ''[{'' @ join_with '', '' (map (\<lambda>k. quote # k @ quote # '': str'')
     [''headline'', ''description'', ''cta_text'', ''target_emotion'', ''rationale'']) @ ''}]''"

definition creative_prompt :: "snapshot \<Rightarrow> string \<Rightarrow> string list \<Rightarrow> real \<Rightarrow> real \<Rightarrow> string" where
  "creative_prompt s diagnosis emotions pctr pcvr =
     ''Campaign: '' @ or_str (campaign_name s) (campaign_id s) @ [CHR 0x0A] @ ''Diagnosis: '' @ diagnosis @ [CHR 0x0A]
     @ ''Observed CTR: '' @ fmt_percent 3 (ctr s) @ '' | Observed CVR: '' @ fmt_percent 3 (cvr s) @ [CHR 0x0A]
     @ ''Predicted CTR: '' @ fmt_percent 3 pctr @ '' | Predicted CVR: '' @ fmt_percent 3 pcvr @ [CHR 0x0A]
     @ ''Impressions: '' @ show_int (impressions s) @ '' | Clicks: '' @ show_int (clicks s)
     @ '' | Conversions: '' @ show_int (conversions s) @ [CHR 0x0A, CHR 0x0A]
     @ ''Write '' @ show_nat MAX_VARIANTS_PER_CAMPAIGN @ '' variants using these angles in order: ''
     @ join_with '', '' emotions @ ''.''"

definition creative_request :: "string \<Rightarrow> string \<Rightarrow> completion_request" where
  "creative_request system_prompt prompt =
     \<lparr>rq_task = ''creative_variants'', rq_system_prompt = system_prompt, rq_user_prompt = prompt, rq_temperature = None,
      rq_max_tokens = None, rq_json_mode = True, rq_schema_hint = CREATIVE_SCHEMA_HINT\<rparr>"

definition llm_variants :: "'e model_call \<Rightarrow> json_parser \<Rightarrow> completion_request \<Rightarrow> string set \<Rightarrow> 'e
   \<Rightarrow> creative_variant list \<times> 'e" where
  "llm_variants ask loads req existing e =
     (case ask req e of
        (Inl err, e1) \<Rightarrow> ([], e1)
      | (Inr res, e1) \<Rightarrow>
          (case parse_model_list loads validate_variant MAX_VARIANTS_PER_CAMPAIGN (cp_text res) of
             Inl err \<Rightarrow> ([], e1)
           | Inr parsed \<Rightarrow> (dedupe_variants existing parsed, e1)))"

definition schema_failure :: "string \<Rightarrow> py_error" where
  "schema_failure msg = OtherError ''ValidationError'' msg"

definition generate_variants :: "'e model_call \<Rightarrow> json_parser \<Rightarrow> (string \<Rightarrow> nat) \<Rightarrow> string \<Rightarrow> 'w agent_context \<Rightarrow> snapshot \<Rightarrow> 'e
   \<Rightarrow> (py_error, creative_variant list \<times> bool) res \<times> 'e" where
  "generate_variants ask loads hash_seed system_prompt ctx s e =
     (let diagnosis = diagnose s; emotions = emotions_for diagnosis; existing = existing_headlines ctx (campaign_id s)
      in case bind_res (predicted_ctr s) (\<lambda>p. bind_res (predicted_cvr s) (\<lambda>q. Inr (creative_prompt s diagnosis emotions p q))) of
           Inl err \<Rightarrow> (Inl err, e)
         | Inr prompt \<Rightarrow>
             (case llm_variants ask loads (creative_request system_prompt prompt) existing e of
                (unique, e1) \<Rightarrow>
                  if unique \<noteq> [] then (Inr (map (\<lambda>v. v\<lparr>cv_source := ''llm''\<rparr>) unique, True), e1)
                  else (case rule_based hash_seed s emotions existing of
                          Inl msg \<Rightarrow> (Inl (schema_failure msg), e1)
                        | Inr vs \<Rightarrow> (Inr (vs, False), e1))))"

definition tag_variants :: "snapshot \<Rightarrow> int \<Rightarrow> creative_variant list \<Rightarrow> generated_creative list" where
  "tag_variants s iteration vs =
     map (\<lambda>(index, v). \<lparr>gc_variant = v\<lparr>cv_ab_group := or_str (cv_ab_group v) (variant_letter index)\<rparr>,
            gc_campaign_id = campaign_id s, gc_campaign_name = campaign_name s, gc_iteration = iteration\<rparr>) (enumerate 0 vs)"

fun generate_all :: "'e model_call \<Rightarrow> json_parser \<Rightarrow> (string \<Rightarrow> nat) \<Rightarrow> string \<Rightarrow> 'w agent_context \<Rightarrow> int \<Rightarrow> snapshot list \<Rightarrow> 'e
   \<Rightarrow> (py_error, generated_creative list \<times> nat) res \<times> 'e" where
  "generate_all ask loads hash_seed prompt ctx iteration [] e = (Inr ([], 0), e)"
| "generate_all ask loads hash_seed prompt ctx iteration (s # ss) e =
     (case generate_variants ask loads hash_seed prompt ctx s e of
        (Inl err, e1) \<Rightarrow> (Inl err, e1)
      | (Inr (vs, used_llm), e1) \<Rightarrow>
          (case generate_all ask loads hash_seed prompt ctx iteration ss e1 of
             (Inl err, e2) \<Rightarrow> (Inl err, e2)
           | (Inr (rest, n), e2) \<Rightarrow> (Inr (tag_variants s iteration vs @ rest, (if used_llm then n + 1 else n)), e2)))"

definition creative_targets :: "agent_state \<Rightarrow> 'w agent_context \<Rightarrow> snapshot list" where
  "creative_targets s ctx = filter (\<lambda>snap. needs_new_creative snap ctx) (restore_snapshots (st_metrics s))"

definition creative_run :: "'e model_call \<Rightarrow> json_parser \<Rightarrow> (string \<Rightarrow> nat) \<Rightarrow> string \<Rightarrow> agent_state \<Rightarrow> 'w agent_context \<Rightarrow> 'e
   \<Rightarrow> (py_error, channel_update list \<times> json_dict option) res \<times> 'e" where
  "creative_run ask loads hash_seed prompt s ctx e =
     (let iteration = st_iteration s; targets = creative_targets s ctx
      in if targets = []
         then (Inr ([UCurrentAgent (agent_name_value AGENT_CREATIVE),
                     UAgentMessages [message_of AGENT_CREATIVE ''No campaign met the evidence gate for new creative this iteration.'' iteration]],
                    Some [(''campaigns_targeted'', JInt 0), (''variants'', JInt 0)]), e)
         else case generate_all ask loads hash_seed prompt ctx iteration (take (MAX_VARIANTS_PER_CAMPAIGN * 3) targets) e of
                (Inl err, e1) \<Rightarrow> (Inl err, e1)
              | (Inr (variants, llm_count), e1) \<Rightarrow>
                  (Inr ([UNewCreatives variants, UCurrentAgent (agent_name_value AGENT_CREATIVE),
                         UAgentMessages [message_of AGENT_CREATIVE
                           (''Generated '' @ show_nat (length variants) @ '' creative variants across '' @ show_nat (length targets)
                            @ '' campaign(s); '' @ show_nat llm_count @ '' produced by the model gateway.'') iteration]],
                        Some [(''campaigns_targeted'', JInt (int (length targets))), (''variants'', JInt (int (length variants))),
                              (''llm_campaigns'', JInt (int llm_count))]), e1))"


subsection \<open>Every variant meets its schema\<close>

lemma validate_variant_valid: "validate_variant d = Inr v \<Longrightarrow> valid_variant v"
  by (auto simp: validate_variant_def bind_res_Inr_iff check_variant_def split: if_splits)

lemma strip_length: "length (strip s) \<le> length s"
  using length_dropWhile_le [of is_space "rev (dropWhile is_space s)"] length_dropWhile_le [of is_space s]
  by (simp add: strip_def)

text \<open>Stripping a text that holds a solid word keeps at least the word.\<close>

lemma strip_keeps:
  assumes "\<forall>c\<in>set w. \<not> is_space c" "2 \<le> length w"
  shows "length w \<le> length (strip (a @ w @ b))"
proof -
  obtain x m where w: "w = x # m" "m \<noteq> []" using assms(2) by (cases w; cases "tl w") auto
  then obtain m' y where m: "m = m' @ [y]" by (metis rev_exhaust)
  have "\<not> is_space x" "\<not> is_space y" using assms(1) w m by auto
  from strip_around [OF this, of a m' b] obtain a' b' where "strip (a @ x # m' @ y # b) = a' @ x # m' @ y # b'" by blast
  then show ?thesis using w m by simp
qed

lemma pick_headline_cases:
  assumes "map_of HEADLINE_TEMPLATES emotion = Some ts" "ts \<noteq> []"
  shows "\<exists>t\<in>set ts. pick_headline n emotion product existing = fill t product"
proof -
  have "ts ! (k mod length ts) \<in> set ts" for k using assms(2) by (intro nth_mem) simp
  then show ?thesis using assms(1) unfolding pick_headline_def Let_def by (cases "headline_key (fill (ts ! (n mod length ts)) product) \<in> existing") auto
qed

text \<open>A word of four letters or more, near enough to the start to survive the cut at 120 characters.\<close>

definition anchored :: "string \<times> string \<Rightarrow> string \<Rightarrow> bool" where
  "anchored t w \<longleftrightarrow> 4 \<le> length w \<and> (\<forall>c\<in>set w. \<not> is_space c) \<and> length (fst t) + length (snd t) \<le> 80
     \<and> (\<exists>a b. fst t = a @ w @ b \<or> snd t = a @ w @ b)"

lemma anchored_headline:
  assumes "anchored t w" "length product \<le> 40"
  shows "4 \<le> length (strip (take 120 (fill t product)))"
proof -
  have "length (fst t @ product @ snd t) \<le> 120" using assms by (simp add: anchored_def)
  then have "take 120 (fill t product) = fst t @ product @ snd t" by (simp only: fill_def take_all)
  moreover obtain a b where "fst t = a @ w @ b \<or> snd t = a @ w @ b" using assms(1) by (auto simp: anchored_def)
  ultimately obtain a' b' where "take 120 (fill t product) = a' @ w @ b'"
    by (metis append.assoc)
  moreover have "\<forall>c\<in>set w. \<not> is_space c" "4 \<le> length w" using assms(1) by (auto simp: anchored_def)
  ultimately show ?thesis using strip_keeps [of w a' b'] by simp
qed


definition anchor_words :: "string list" where
  "anchor_words = [''Last'', ''Your'', ''Only'', ''built'', ''choice'', ''Verified'', ''What'', ''detail'', ''keeps'', ''from'',
     ''without'', ''Everything'', ''buyers'', ''repeat'', ''Join'']"

definition anchored_by :: "string \<times> string \<Rightarrow> string \<Rightarrow> bool" where
  "anchored_by t w \<longleftrightarrow> 4 \<le> length w \<and> \<not> list_ex is_space w \<and> length (fst t) + length (snd t) \<le> 80
     \<and> (contains_word w (fst t) \<or> contains_word w (snd t))"

lemma anchored_by_anchored: "anchored_by t w \<Longrightarrow> anchored t w"
  using contains_word_split unfolding anchored_by_def anchored_def list_ex_iff by blast

definition emotion_ok :: "string \<Rightarrow> bool" where
  "emotion_ok e \<longleftrightarrow>
     (case map_of HEADLINE_TEMPLATES e of
        None \<Rightarrow> False
      | Some ts \<Rightarrow> ts \<noteq> [] \<and> list_all (\<lambda>t. list_ex (anchored_by t) anchor_words) ts)
   \<and> (case map_of DESCRIPTION_TEMPLATES e of None \<Rightarrow> False | Some t \<Rightarrow> True)
   \<and> (case map_of CTA_BY_EMOTION e of None \<Rightarrow> False | Some c \<Rightarrow> length c \<le> 40)
   \<and> length (rule_rationale e) \<le> 400"

lemma emotions_ok: "list_all emotion_ok TARGET_EMOTIONS"
  by code_simp

lemma strategy_emotions: "list_all (\<lambda>(d, es). es \<noteq> [] \<and> length es \<le> 4 \<and> list_all (\<lambda>e. e \<in> set TARGET_EMOTIONS) es) EMOTION_STRATEGY"
  by code_simp

lemma product_of_length: "length (product_of name) \<le> 40"
  by (simp add: product_of_def or_str_def split: list.split)

lemma rule_variant_valid:
  assumes "e \<in> set TARGET_EMOTIONS" "length product \<le> 40"
  shows "\<exists>v. rule_variant n product existing (i, e) = Inr v \<and> valid_variant v"
proof -
  have ok: "emotion_ok e" using emotions_ok assms(1) by (simp add: list_all_iff)
  then obtain ts where ts: "map_of HEADLINE_TEMPLATES e = Some ts" "ts \<noteq> []" "list_all (\<lambda>t. list_ex (anchored_by t) anchor_words) ts"
    by (auto simp: emotion_ok_def split: option.splits)
  obtain t where t: "t \<in> set ts" "pick_headline (n + i) e product existing = fill t product"
    using pick_headline_cases [OF ts(1,2)] by blast
  obtain w where "anchored_by t w" using ts(3) t(1) by (auto simp: list_all_iff list_ex_iff)
  then have "4 \<le> length (strip (take 120 (pick_headline (n + i) e product existing)))"
    using anchored_headline [OF anchored_by_anchored assms(2)] t(2) by simp
  moreover have "length (strip (take k x)) \<le> k" for k x using strip_length [of "take k x"] by simp
  moreover obtain c where "map_of CTA_BY_EMOTION e = Some c" "length c \<le> 40" "length (rule_rationale e) \<le> 400"
    using ok by (auto simp: emotion_ok_def split: option.splits)
  moreover have "length (strip c) \<le> 40" using strip_length [of c] calculation(4) by simp
  ultimately show ?thesis using assms(1) by (simp add: rule_variant_def check_variant_def valid_variant_def variant_letter_def)
qed

lemma emotions_for_diagnosis: "emotions_for (diagnose s) \<noteq> [] \<and> length (emotions_for (diagnose s)) \<le> 4
    \<and> set (emotions_for (diagnose s)) \<subseteq> set TARGET_EMOTIONS"
proof -
  have "diagnose s \<in> set (map fst EMOTION_STRATEGY)" by (simp add: diagnose_def Let_def EMOTION_STRATEGY_def)
  then obtain es where "map_of EMOTION_STRATEGY (diagnose s) = Some es" by (metis list.set_map map_of_eq_None_iff not_None_eq)
  moreover then have "(diagnose s, es) \<in> set EMOTION_STRATEGY" by (rule map_of_SomeD)
  ultimately show ?thesis using strategy_emotions by (auto simp: emotions_for_def list_all_iff)
qed

lemma map_res_all_ok:
  "\<forall>x\<in>set xs. \<exists>y. f x = Inr y \<and> P y \<Longrightarrow> \<exists>ys. map_res f xs = Inr ys \<and> length ys = length xs \<and> (\<forall>y\<in>set ys. P y)"
  by (induction xs) auto

lemma rule_based_valid:
  "\<exists>vs. rule_based hash_seed s (emotions_for (diagnose s)) existing = Inr vs \<and> vs \<noteq> [] \<and> length vs \<le> 4 \<and> (\<forall>v\<in>set vs. valid_variant v)"
proof -
  let ?es = "emotions_for (diagnose s)"
  have "\<forall>p\<in>set (enumerate 0 (take MAX_VARIANTS_PER_CAMPAIGN ?es)). \<exists>v.
      rule_variant (hash_seed (campaign_id s)) (product_of (or_str (campaign_name s) (campaign_id s))) existing p = Inr v \<and> valid_variant v"
  proof
    fix p assume "p \<in> set (enumerate 0 (take MAX_VARIANTS_PER_CAMPAIGN ?es))"
    then have "snd p \<in> set (map snd (enumerate 0 (take MAX_VARIANTS_PER_CAMPAIGN ?es)))" by (metis imageI list.set_map)
    then have "snd p \<in> set ?es" by (metis in_set_takeD map_snd_enumerate)
    then obtain i e where p: "p = (i, e)" "e \<in> set ?es" by (cases p) simp
    then show "\<exists>v. rule_variant (hash_seed (campaign_id s)) (product_of (or_str (campaign_name s) (campaign_id s))) existing p = Inr v \<and> valid_variant v"
      using rule_variant_valid product_of_length emotions_for_diagnosis by blast
  qed
  from map_res_all_ok [OF this] show ?thesis
    using emotions_for_diagnosis [of s] by (force simp: rule_based_def MAX_VARIANTS_PER_CAMPAIGN_def)
qed

lemma dedupe_sound:
  "distinct (map (headline_key \<circ> cv_headline) (dedupe_variants seen vs))
   \<and> set (map (headline_key \<circ> cv_headline) (dedupe_variants seen vs)) \<inter> seen = {}
   \<and> set (dedupe_variants seen vs) \<subseteq> set vs \<and> length (dedupe_variants seen vs) \<le> length vs"
  by (induction seen vs rule: dedupe_variants.induct) (auto simp: le_Suc_eq)

lemma llm_variants_sound:
  assumes "llm_variants ask loads req existing e = (vs, e')"
  shows "distinct (map (headline_key \<circ> cv_headline) vs) \<and> set (map (headline_key \<circ> cv_headline) vs) \<inter> existing = {}
    \<and> length vs \<le> 4 \<and> (\<forall>v\<in>set vs. valid_variant v)"
proof -
  obtain r e1 where r: "ask req e = (r, e1)" by (rule prod.exhaust)
  show ?thesis
  proof (cases "\<exists>res parsed. r = Inr res \<and> parse_model_list loads validate_variant MAX_VARIANTS_PER_CAMPAIGN (cp_text res) = Inr parsed")
    case True
    then obtain res parsed where p: "r = Inr res" "parse_model_list loads validate_variant MAX_VARIANTS_PER_CAMPAIGN (cp_text res) = Inr parsed"
      by blast
    then have "vs = dedupe_variants existing parsed" using assms r by (simp add: llm_variants_def)
    moreover have "length parsed \<le> 4" "\<forall>v\<in>set parsed. valid_variant v"
      using parse_model_list_sound [OF p(2)] validate_variant_valid by (auto simp: MAX_VARIANTS_PER_CAMPAIGN_def)
    ultimately show ?thesis using dedupe_sound [of existing parsed] by auto
  next
    case False
    then have "vs = []" using assms r by (auto simp: llm_variants_def split: sum.splits)
    then show ?thesis by simp
  qed
qed

lemma rule_based_source: "rule_based hash_seed s es existing = Inr vs \<Longrightarrow> v \<in> set vs \<Longrightarrow> cv_source v = ''rule''"
proof -
  have "map_res f xs = Inr ys \<Longrightarrow> (\<And>x y. f x = Inr y \<Longrightarrow> cv_source y = ''rule'') \<Longrightarrow> \<forall>y\<in>set ys. cv_source y = ''rule''"
    for f :: "nat \<times> string \<Rightarrow> (string, creative_variant) res" and xs ys
    by (induction xs arbitrary: ys) (auto simp: bind_res_Inr_iff)
  moreover have "rule_variant n p ex x = Inr y \<Longrightarrow> cv_source y = ''rule''" for n p ex x y
    by (cases x) (auto simp: rule_variant_def check_variant_def split: if_splits)
  ultimately show "rule_based hash_seed s es existing = Inr vs \<Longrightarrow> v \<in> set vs \<Longrightarrow> cv_source v = ''rule''"
    unfolding rule_based_def by blast
qed

text \<open>What one campaign gets: schema-valid copy, and model copy only with headlines it does not have yet.\<close>

definition good_copy :: "'w agent_context \<Rightarrow> string \<Rightarrow> creative_variant \<Rightarrow> bool" where
  "good_copy ctx cid v \<longleftrightarrow> valid_variant v
     \<and> (cv_source v = ''rule'' \<or> headline_key (cv_headline v) \<notin> existing_headlines ctx cid)"

lemma generate_variants_good:
  assumes "valid_snapshot s"
  shows "\<exists>vs b e'. generate_variants ask loads hash_seed prompt ctx s e = (Inr (vs, b), e')
    \<and> vs \<noteq> [] \<and> length vs \<le> 4 \<and> (\<forall>v\<in>set vs. good_copy ctx (campaign_id s) v)"
proof -
  obtain x y where xy: "predicted_ctr s = Inr x" "predicted_cvr s = Inr y"
    using predicted_ctr_valid [OF assms] predicted_cvr_valid [OF assms] by blast
  let ?req = "creative_request prompt (creative_prompt s (diagnose s) (emotions_for (diagnose s)) x y)"
  let ?ex = "existing_headlines ctx (campaign_id s)"
  obtain us e1 where us: "llm_variants ask loads ?req ?ex e = (us, e1)" by (rule prod.exhaust)
  note sound = llm_variants_sound [OF us]
  obtain rs where rs: "rule_based hash_seed s (emotions_for (diagnose s)) ?ex = Inr rs" "rs \<noteq> []" "length rs \<le> 4"
      "\<forall>v\<in>set rs. valid_variant v" using rule_based_valid by blast
  show ?thesis
  proof (cases "us = []")
    case True
    then have "generate_variants ask loads hash_seed prompt ctx s e = (Inr (rs, False), e1)"
      by (simp add: generate_variants_def Let_def xy us rs(1))
    moreover have "\<forall>v\<in>set rs. good_copy ctx (campaign_id s) v"
      using rs(4) rule_based_source [OF rs(1)] by (simp add: good_copy_def)
    ultimately show ?thesis using rs by blast
  next
    case False
    then have "generate_variants ask loads hash_seed prompt ctx s e = (Inr (map (\<lambda>v. v\<lparr>cv_source := ''llm''\<rparr>) us, True), e1)"
      by (simp add: generate_variants_def Let_def xy us)
    moreover have "\<forall>v\<in>set (map (\<lambda>v. v\<lparr>cv_source := ''llm''\<rparr>) us). good_copy ctx (campaign_id s) v"
      using sound by (auto simp: good_copy_def valid_variant_def)
    ultimately show ?thesis using False sound by (metis length_map map_is_Nil_conv)
  qed
qed

lemma tag_variants_good:
  assumes "\<forall>v\<in>set vs. good_copy ctx (campaign_id s) v" "g \<in> set (tag_variants s it vs)"
  shows "good_copy ctx (gc_campaign_id g) (gc_variant g) \<and> gc_campaign_id g = campaign_id s \<and> gc_iteration g = it"
proof -
  obtain i v where g: "(i, v) \<in> set (enumerate 0 vs)"
      "g = \<lparr>gc_variant = v\<lparr>cv_ab_group := or_str (cv_ab_group v) (variant_letter i)\<rparr>,
        gc_campaign_id = campaign_id s, gc_campaign_name = campaign_name s, gc_iteration = it\<rparr>"
    using assms(2) by (auto simp: tag_variants_def)
  have "v \<in> set vs" using imageI [OF g(1), of snd] by (metis list.set_map map_snd_enumerate snd_conv)
  then have "good_copy ctx (campaign_id s) v" using assms(1) by blast
  then show ?thesis by (simp add: g(2) good_copy_def valid_variant_def or_str_def variant_letter_def)
qed

lemma generate_all_good:
  assumes "\<forall>s\<in>set ss. valid_snapshot s"
  shows "\<exists>vs n e'. generate_all ask loads hash_seed prompt ctx it ss e = (Inr (vs, n), e')
    \<and> length vs \<le> 4 * length ss \<and> n \<le> length ss \<and> remdups_adj (map campaign_id ss) = remdups_adj (map gc_campaign_id vs)
    \<and> (\<forall>g\<in>set vs. good_copy ctx (gc_campaign_id g) (gc_variant g) \<and> gc_iteration g = it)"
  using assms
proof (induction ss arbitrary: e)
  case (Cons s ss)
  obtain us b e1 where us: "generate_variants ask loads hash_seed prompt ctx s e = (Inr (us, b), e1)" "us \<noteq> []" "length us \<le> 4"
      "\<forall>v\<in>set us. good_copy ctx (campaign_id s) v" using generate_variants_good Cons.prems by (metis list.set_intros(1))
  obtain vs n e2 where vs: "generate_all ask loads hash_seed prompt ctx it ss e1 = (Inr (vs, n), e2)" "length vs \<le> 4 * length ss"
      "n \<le> length ss" "remdups_adj (map campaign_id ss) = remdups_adj (map gc_campaign_id vs)"
      "\<forall>g\<in>set vs. good_copy ctx (gc_campaign_id g) (gc_variant g) \<and> gc_iteration g = it"
    using Cons.IH [of e1] Cons.prems by auto
  let ?ts = "tag_variants s it us"
  have len: "length ?ts = length us" by (simp add: tag_variants_def)
  have "map gc_campaign_id ?ts = replicate (length us) (campaign_id s)"
    by (rule nth_equalityI) (simp_all add: tag_variants_def split_beta)
  then have "remdups_adj (map gc_campaign_id (?ts @ vs)) = remdups_adj (replicate (length us) (campaign_id s) @ map gc_campaign_id vs)"
    by simp
  also have "\<dots> = remdups_adj (campaign_id s # map gc_campaign_id vs)"
  proof -
    have "remdups_adj (replicate (Suc k) x @ ys) = remdups_adj (x # ys)" for k and x :: string and ys
      by (induction k) simp_all
    then show ?thesis using us(2) by (cases "length us") auto
  qed
  also have "\<dots> = remdups_adj (campaign_id s # map campaign_id ss)"
    by (simp only: remdups_adj_Cons vs(4))
  finally have runs: "remdups_adj (map gc_campaign_id (?ts @ vs)) = remdups_adj (map campaign_id (s # ss))" by simp
  have "generate_all ask loads hash_seed prompt ctx it (s # ss) e = (Inr (?ts @ vs, if b then n + 1 else n), e2)"
    using us(1) vs(1) by simp
  moreover have "\<forall>g\<in>set (?ts @ vs). good_copy ctx (gc_campaign_id g) (gc_variant g) \<and> gc_iteration g = it"
    using vs(5) tag_variants_good [OF us(4)] by auto
  moreover have "length (?ts @ vs) \<le> 4 * length (s # ss)" "(if b then n + 1 else n) \<le> length (s # ss)"
    using len us(3) vs(2,3) by auto
  ultimately show ?case by (intro exI conjI) (assumption | rule runs [symmetric])+
qed simp

text \<open>
  The request to the model does not ask for a group, so its variants take the schema's default and
  the agent's letters never apply to them: all variants of a campaign share one group.
\<close>

lemma unlabelled_variants_share_group:
  assumes "\<forall>d\<in>set ds. map_of d ''ab_group'' = None" "map_res validate_variant ds = Inr vs"
  shows "\<forall>g\<in>set (tag_variants s it (map (\<lambda>v. v\<lparr>cv_source := ''llm''\<rparr>) vs)). cv_ab_group (gc_variant g) = ''variant''"
proof -
  have one: "cv_ab_group v = ''variant''" if "map_of d ''ab_group'' = None" "validate_variant d = Inr v" for d v
    using that by (auto simp: validate_variant_def bind_res_Inr_iff check_variant_def text_field_def split: if_splits)
  have "\<forall>v\<in>set vs. cv_ab_group v = ''variant''"
    using assms
  proof (induction ds arbitrary: vs)
    case (Cons d ds)
    then show ?case by (auto simp: bind_res_Inr_iff one)
  qed simp
  moreover have "snd p \<in> set xs" if "p \<in> set (enumerate 0 xs)" for p and xs :: "creative_variant list"
    using imageI [OF that, of snd] by (metis list.set_map map_snd_enumerate)
  ultimately show ?thesis by (fastforce simp: tag_variants_def or_str_def)
qed

text \<open>
  Whatever the model answers, raises or leaves out, the creative agent does not fail on valid
  snapshots: when some campaign meets the gate, it serves the first twelve that do, in order, none left
  without copy, with at most four variants each; every variant it writes meets the schema, belongs to the
  current round, and one that came from the model does not repeat a headline its campaign already has.
\<close>

theorem creative_run_serves_targets:
  assumes "list_all valid_snapshot (restore_snapshots (st_metrics s))" "creative_targets s ctx \<noteq> []"
  shows "\<exists>vs m log e'. creative_run ask loads hash_seed prompt s ctx e
        = (Inr ([UNewCreatives vs, UCurrentAgent ''creative'', UAgentMessages [m]], Some log), e')
    \<and> remdups_adj (map gc_campaign_id vs) = remdups_adj (map campaign_id (take 12 (creative_targets s ctx)))
    \<and> length vs \<le> 4 * length (take 12 (creative_targets s ctx))
    \<and> (\<forall>g\<in>set vs. valid_variant (gc_variant g) \<and> gc_iteration g = st_iteration s
        \<and> (cv_source (gc_variant g) \<noteq> ''rule''
           \<longrightarrow> headline_key (cv_headline (gc_variant g)) \<notin> existing_headlines ctx (gc_campaign_id g)))"
proof -
  let ?ts = "take 12 (creative_targets s ctx)"
  have valid: "\<forall>t\<in>set ?ts. valid_snapshot t" using assms(1) by (auto simp: creative_targets_def list_all_iff dest: in_set_takeD)
  obtain vs n e' where g: "generate_all ask loads hash_seed prompt ctx (st_iteration s) ?ts e = (Inr (vs, n), e')"
      "length vs \<le> 4 * length ?ts" "remdups_adj (map campaign_id ?ts) = remdups_adj (map gc_campaign_id vs)"
      "\<forall>g\<in>set vs. good_copy ctx (gc_campaign_id g) (gc_variant g) \<and> gc_iteration g = st_iteration s"
    using generate_all_good [OF valid, of ask loads hash_seed prompt ctx "st_iteration s" e] by (elim exE conjE) (rule that)
  have twelve: "MAX_VARIANTS_PER_CAMPAIGN * 3 = 12" by (simp add: MAX_VARIANTS_PER_CAMPAIGN_def)
  have run: "\<exists>m log. creative_run ask loads hash_seed prompt s ctx e
      = (Inr ([UNewCreatives vs, UCurrentAgent ''creative'', UAgentMessages [m]], Some log), e')"
    unfolding creative_run_def Let_def twelve g(1) using assms(2) by simp
  have copy: "valid_variant (gc_variant x) \<and> gc_iteration x = st_iteration s
        \<and> (cv_source (gc_variant x) \<noteq> ''rule''
           \<longrightarrow> headline_key (cv_headline (gc_variant x)) \<notin> existing_headlines ctx (gc_campaign_id x))" if "x \<in> set vs" for x
    using g(4) that by (auto simp: good_copy_def)
  from run obtain m log where "creative_run ask loads hash_seed prompt s ctx e
      = (Inr ([UNewCreatives vs, UCurrentAgent ''creative'', UAgentMessages [m]], Some log), e')" by blast
  with copy g(2,3) show ?thesis by (intro exI [of _ vs] exI [of _ m] exI [of _ log] exI [of _ e']) simp
qed

definition weak_portfolio :: agent_state where
  "weak_portfolio = (initial_state ''r'' [] 3 7)\<lparr>st_metrics := [MSnapshot (plain_snapshot ''a'' 5000 10 0 100 0)]\<rparr>"

text \<open>The model times out: the templates take over.\<close>

theorem creative_run_serves_targets_witness:
  "\<exists>vs m log e'. creative_run (\<lambda>req e. (Inl (OtherError ''TimeoutError'' []), e)) (\<lambda>t. Inl t) (\<lambda>c. 5) [] weak_portfolio (example_context :: unit agent_context) ()
        = (Inr ([UNewCreatives vs, UCurrentAgent ''creative'', UAgentMessages [m]], Some log), e')
    \<and> remdups_adj (map gc_campaign_id vs) = [''a'']"
proof -
  have m: "restore_snapshots (st_metrics weak_portfolio) = [plain_snapshot ''a'' 5000 10 0 100 0]" by (simp add: weak_portfolio_def)
  have v: "list_all valid_snapshot (restore_snapshots (st_metrics weak_portfolio))" by (simp add: m valid_snapshot_def)
  have t: "creative_targets weak_portfolio (example_context :: unit agent_context) = [plain_snapshot ''a'' 5000 10 0 100 0]"
    unfolding creative_targets_def m by (simp add: needs_new_creative_def Let_def example_context_def default_optimization_settings_def cvr_def CVR_PRIOR_MEAN_def safe_ratio_def)
  have ne: "creative_targets weak_portfolio (example_context :: unit agent_context) \<noteq> []" by (simp add: t)
  show ?thesis
    by (rule exE [OF creative_run_serves_targets [OF v ne, of "\<lambda>req e. (Inl (OtherError ''TimeoutError'' []), e)" Inl "\<lambda>c. 5" "[]" "()"]];
        elim exE conjE; intro exI conjI; (assumption | simp add: t))
qed

end
