(* ===== verification/Security.thy ===== *)
theory Security
  imports Errors Enums
begin

text \<open>
  \<open>core/security.py\<close>: the role matrix, password hashing, the token pairs a sign-in issues and their
  verification, and the permission check of the routers.

  An instant is a number of microseconds since the epoch. The Argon2 hasher and PyJWT are records of their
  operations; a token is whatever the signing library returns, and the random session and token ids are
  arguments. The claims of a signed token have the JSON type the service gives them.
\<close>

subsection \<open>The role matrix\<close>

definition ROLE_PERMISSIONS :: "role \<Rightarrow> permission list" where
  "ROLE_PERMISSIONS r =
     (case r of
        ROLE_ADMIN \<Rightarrow> permission_members
      | ROLE_OPTIMIZER \<Rightarrow>
          [PERM_CAMPAIGN_READ, PERM_CAMPAIGN_WRITE, PERM_RUN_READ, PERM_RUN_TRIGGER, PERM_ACTION_APPROVE,
           PERM_ACTION_EXECUTE, PERM_ALERT_READ, PERM_ALERT_ACK, PERM_CREATIVE_WRITE, PERM_METRICS_READ,
           PERM_SYSTEM_READ]
      | ROLE_ANALYST \<Rightarrow>
          [PERM_CAMPAIGN_READ, PERM_RUN_READ, PERM_ALERT_READ, PERM_ALERT_ACK, PERM_METRICS_READ, PERM_SYSTEM_READ]
      | ROLE_VIEWER \<Rightarrow> [PERM_CAMPAIGN_READ, PERM_RUN_READ, PERM_ALERT_READ, PERM_METRICS_READ]
      | ROLE_INGESTOR \<Rightarrow> [PERM_METRICS_READ, PERM_METRICS_WRITE])"

definition permissions_for :: "string \<Rightarrow> (py_error, permission list) res" where
  "permissions_for role =
     (case role_of role of None \<Rightarrow> Inl (PermissionDeniedError (''Unknown role: '' @ role)) | Some r \<Rightarrow> Inr (ROLE_PERMISSIONS r))"

text \<open>The permission is parsed first, so an unknown one is False whatever the role.\<close>

definition role_has_permission :: "string \<Rightarrow> string \<Rightarrow> (py_error, bool) res" where
  "role_has_permission role perm =
     (case permission_of perm of
        None \<Rightarrow> Inr False
      | Some p \<Rightarrow> bind_res (permissions_for role) (\<lambda>ps. Inr (p \<in> set ps)))"

subsection \<open>Settings, passwords\<close>

record security_settings =
  ss_jwt_secret :: string
  ss_jwt_algorithm :: string
  ss_access_token_ttl_minutes :: int
  ss_refresh_token_ttl_days :: int
  ss_issuer :: string
  ss_audience :: string
  ss_bootstrap_admin_email :: string
  ss_bootstrap_admin_password :: string
  ss_password_min_length :: int
  ss_max_failed_logins :: int
  ss_lockout_seconds :: int
  ss_require_action_approval :: bool
  ss_verify_session_on_request :: bool

definition default_security_settings :: security_settings where
  "default_security_settings =
     \<lparr>ss_jwt_secret = ''dev-only-insecure-secret'', ss_jwt_algorithm = ''HS256'', ss_access_token_ttl_minutes = 30,
      ss_refresh_token_ttl_days = 7, ss_issuer = ''adoptimizer'', ss_audience = ''adoptimizer-api'',
      ss_bootstrap_admin_email = ''admin@adoptimizer.dev'', ss_bootstrap_admin_password = ''Adm1n!ChangeMe'',
      ss_password_min_length = 10, ss_max_failed_logins = 5, ss_lockout_seconds = 900,
      ss_require_action_approval = True, ss_verify_session_on_request = True\<rparr>"

text \<open>What \<open>argon2\<close> answers: a failed verification and an unreadable hash are exceptions there.\<close>

datatype 'a argon_result = ArgonOk 'a | VerifyMismatchError | VerificationError | InvalidHashError

record password_hasher =
  ph_hash :: "string \<Rightarrow> string"
  ph_verify :: "string \<Rightarrow> string \<Rightarrow> bool argon_result"
  ph_check_needs_rehash :: "string \<Rightarrow> bool argon_result"

definition verify_password :: "password_hasher \<Rightarrow> string \<Rightarrow> string \<Rightarrow> bool" where
  "verify_password h stored_hash password = (case ph_verify h stored_hash password of ArgonOk b \<Rightarrow> b | _ \<Rightarrow> False)"

definition needs_rehash :: "password_hasher \<Rightarrow> string \<Rightarrow> bool" where
  "needs_rehash h stored_hash = (case ph_check_needs_rehash h stored_hash of ArgonOk b \<Rightarrow> b | _ \<Rightarrow> True)"

subsection \<open>Tokens\<close>

definition micros :: "int \<Rightarrow> int" where
  "micros seconds = seconds * 1000000"

record token_payload =
  tp_sub :: string
  tp_email :: "string option"
  tp_role :: "string option"
  tp_sid :: "string option"
  tp_iat :: int
  tp_exp :: int
  tp_nbf :: int
  tp_iss :: string
  tp_aud :: string
  tp_typ :: "string option"
  tp_jti :: string
  tp_scopes :: "string list option"

record 'tok token_pair =
  pr_access_token :: 'tok
  pr_refresh_token :: 'tok
  pr_expires_in :: int
  pr_session_id :: string

record token_claims =
  tc_subject :: string
  tc_email :: string
  tc_role :: role
  tc_session_id :: string
  tc_issued_at :: int
  tc_expires_at :: int
  tc_token_type :: string
  tc_scopes :: "string list"

datatype jwt_error = ExpiredSignatureError | InvalidTokenError

text \<open>
  PyJWT: \<open>encode payload secret algorithm\<close>, and \<open>decode\<close> with the secret, the algorithm, issuer and audience,
  at an instant.
\<close>

record 'tok jwt =
  jw_encode :: "token_payload \<Rightarrow> string \<Rightarrow> string \<Rightarrow> 'tok"
  jw_decode :: "int \<Rightarrow> 'tok \<Rightarrow> string \<Rightarrow> string \<Rightarrow> string \<Rightarrow> string \<Rightarrow> (jwt_error, token_payload) res"

definition encode_token :: "'tok jwt \<Rightarrow> security_settings \<Rightarrow> string \<Rightarrow> string \<Rightarrow> string \<Rightarrow> string \<Rightarrow> int \<Rightarrow> int \<Rightarrow> string
   \<Rightarrow> string list \<Rightarrow> string \<Rightarrow> 'tok" where
  "encode_token jw cfg subject email role session_id issued_at expires_at token_type scopes jti =
     jw_encode jw
       \<lparr>tp_sub = subject, tp_email = Some email, tp_role = Some role, tp_sid = Some session_id,
        tp_iat = issued_at div 1000000, tp_exp = expires_at div 1000000, tp_nbf = issued_at div 1000000,
        tp_iss = ss_issuer cfg, tp_aud = ss_audience cfg, tp_typ = Some token_type, tp_jti = jti, tp_scopes = Some scopes\<rparr>
       (ss_jwt_secret cfg) (ss_jwt_algorithm cfg)"

text \<open>The three \<open>uuid4\<close> values: the session id and one token id each.\<close>

definition issue_pair :: "'tok jwt \<Rightarrow> security_settings \<Rightarrow> int \<Rightarrow> string \<times> string \<times> string \<Rightarrow> string \<Rightarrow> string \<Rightarrow> string
   \<Rightarrow> string list \<Rightarrow> 'tok token_pair" where
  "issue_pair jw cfg now ids subject email role scopes =
     (case ids of (session_id, jti_access, jti_refresh) \<Rightarrow>
        let access_ttl = micros (60 * ss_access_token_ttl_minutes cfg);
            refresh_ttl = micros (86400 * ss_refresh_token_ttl_days cfg)
        in \<lparr>pr_access_token = encode_token jw cfg subject email role session_id now (now + access_ttl) ''access'' scopes jti_access,
            pr_refresh_token = encode_token jw cfg subject email role session_id now (now + refresh_ttl) ''refresh'' [] jti_refresh,
            pr_expires_in = access_ttl div 1000000, pr_session_id = session_id\<rparr>)"

definition starts_with_vowel :: "string \<Rightarrow> bool" where
  "starts_with_vowel s = (case s of [] \<Rightarrow> True | c # _ \<Rightarrow> lower_char c \<in> set ''aeiou'')"

definition decode_token :: "'tok jwt \<Rightarrow> security_settings \<Rightarrow> int \<Rightarrow> 'tok \<Rightarrow> string \<Rightarrow> (py_error, token_claims) res" where
  "decode_token jw cfg now token expected_type =
     (case jw_decode jw now token (ss_jwt_secret cfg) (ss_jwt_algorithm cfg) (ss_issuer cfg) (ss_audience cfg) of
        Inl ExpiredSignatureError \<Rightarrow> Inl (AuthenticationError ''Token has expired'')
      | Inl InvalidTokenError \<Rightarrow> Inl (AuthenticationError ''Token is invalid'')
      | Inr p \<Rightarrow>
          if tp_typ p \<noteq> Some expected_type
          then Inl (AuthenticationError (''Expected '' @ (if starts_with_vowel expected_type then ''an'' else ''a'')
                 @ '' '' @ expected_type @ '' token''))
          else (case role_of (case tp_role p of Some r \<Rightarrow> r | None \<Rightarrow> []) of
                  None \<Rightarrow> Inl (AuthenticationError ''Token carries an unknown role'')
                | Some role \<Rightarrow>
                    Inr \<lparr>tc_subject = tp_sub p, tc_email = (case tp_email p of Some e \<Rightarrow> e | None \<Rightarrow> []), tc_role = role,
                      tc_session_id = (case tp_sid p of Some s \<Rightarrow> s | None \<Rightarrow> []), tc_issued_at = micros (tp_iat p),
                      tc_expires_at = micros (tp_exp p),
                      tc_token_type = (case tp_typ p of Some t \<Rightarrow> t | None \<Rightarrow> ''access''),
                      tc_scopes = (case tp_scopes p of Some ss \<Rightarrow> ss | None \<Rightarrow> [])\<rparr>))"

definition has_permission :: "token_claims \<Rightarrow> permission \<Rightarrow> bool" where
  "has_permission c p = (p \<in> set (ROLE_PERMISSIONS (tc_role c)))"

definition require_permission :: "permission \<Rightarrow> token_claims \<Rightarrow> (py_error, unit) res" where
  "require_permission p c =
     (if has_permission c p then Inr ()
      else Inl (PermissionDeniedError (''Role '' @ role_value (tc_role c) @ '' lacks permission '' @ permission_value p)))"

text \<open>\<open>RoleChecker\<close> of \<open>core/deps.py\<close>: membership in a set of roles.\<close>

definition require_role :: "role list \<Rightarrow> token_claims \<Rightarrow> (py_error, token_claims) res" where
  "require_role roles c =
     (if tc_role c \<in> set roles then Inr c
      else Inl (PermissionDeniedError (''This operation requires one of: ''
             @ join_with '', '' (sort (remdups (map role_value roles))))))"

lemma role_has_permission_claims: "role_has_permission (role_value r) (permission_value p) = Inr (p \<in> set (ROLE_PERMISSIONS r))"
  by (simp add: role_has_permission_def permissions_for_def)

subsection \<open>The documented behaviour of the signing library\<close>

text \<open>
  Under one secret and algorithm: a signed payload decodes to itself while it is valid for the issuer and
  the audience, and what is accepted is unexpired and was signed as it is.
\<close>

definition documented_jwt :: "'tok jwt \<Rightarrow> bool" where
  "documented_jwt jw \<longleftrightarrow>
     (\<forall>p key alg iss aud now.
        (tp_iss p = iss \<and> tp_aud p = aud \<and> micros (tp_nbf p) \<le> now \<and> micros (tp_iat p) \<le> now \<and> now < micros (tp_exp p)
         \<longrightarrow> jw_decode jw now (jw_encode jw p key alg) key alg iss aud = Inr p)
      \<and> (\<forall>q. jw_decode jw now (jw_encode jw p key alg) key alg iss aud = Inr q \<longrightarrow> q = p \<and> now < micros (tp_exp p)))"

definition transparent_jwt :: "(token_payload \<times> string \<times> string) jwt" where
  "transparent_jwt = \<lparr>jw_encode = (\<lambda>p key alg. (p, key, alg)),
     jw_decode = (\<lambda>now t key alg iss aud. case t of (p, key', alg') \<Rightarrow>
        if key' \<noteq> key \<or> alg' \<noteq> alg \<or> tp_iss p \<noteq> iss \<or> tp_aud p \<noteq> aud \<or> now < micros (tp_nbf p) \<or> now < micros (tp_iat p)
        then Inl InvalidTokenError else if micros (tp_exp p) \<le> now then Inl ExpiredSignatureError else Inr p)\<rparr>"

lemma documented_transparent_jwt: "documented_jwt transparent_jwt"
  by (auto simp: documented_jwt_def transparent_jwt_def split: if_splits)

lemma encode_token_decodes:
  assumes "documented_jwt jw" "issued_at \<le> now" "now < micros (expires_at div 1000000)" "typ = expected"
  shows "decode_token jw cfg now (encode_token jw cfg subject email (role_value r) sid issued_at expires_at typ scopes jti) expected
    = Inr \<lparr>tc_subject = subject, tc_email = email, tc_role = r, tc_session_id = sid, tc_issued_at = micros (issued_at div 1000000),
        tc_expires_at = micros (expires_at div 1000000), tc_token_type = typ, tc_scopes = scopes\<rparr>"
proof -
  have "micros (issued_at div 1000000) \<le> now" using assms(2) by (simp add: micros_def)
  then show ?thesis using assms unfolding decode_token_def encode_token_def documented_jwt_def by simp
qed

lemma encode_token_accepted:
  assumes "documented_jwt jw"
    and "decode_token jw cfg now (encode_token jw cfg subject email role sid issued_at expires_at typ scopes jti) expected = Inr c"
  shows "typ = expected \<and> tc_subject c = subject \<and> role = role_value (tc_role c) \<and> tc_session_id c = sid
    \<and> now < micros (expires_at div 1000000)"
proof -
  let ?p = "\<lparr>tp_sub = subject, tp_email = Some email, tp_role = Some role, tp_sid = Some sid,
        tp_iat = issued_at div 1000000, tp_exp = expires_at div 1000000, tp_nbf = issued_at div 1000000,
        tp_iss = ss_issuer cfg, tp_aud = ss_audience cfg, tp_typ = Some typ, tp_jti = jti, tp_scopes = Some scopes\<rparr>"
  obtain r where r: "jw_decode jw now (jw_encode jw ?p (ss_jwt_secret cfg) (ss_jwt_algorithm cfg)) (ss_jwt_secret cfg)
      (ss_jwt_algorithm cfg) (ss_issuer cfg) (ss_audience cfg) = r" by blast
  show ?thesis
  proof (cases r)
    case (Inl x)
    then show ?thesis using assms(2) r by (cases x) (simp_all add: decode_token_def encode_token_def)
  next
    case (Inr q)
    then have "q = ?p" "now < micros (tp_exp ?p)" using assms(1) r unfolding documented_jwt_def by blast+
    then show ?thesis using assms(2) r Inr role_of_Some
      by (auto simp: decode_token_def encode_token_def split: if_splits option.splits)
  qed
qed

subsection \<open>Properties\<close>

text \<open>
  C14. A token pair reads back: while a token lives, it decodes, under its own type only, to the subject,
  role, session and scopes it was issued for; an access token is never accepted as a refresh token nor the
  other way round, and neither is accepted once its lifetime has passed.
\<close>

theorem token_pair_roundtrip:
  assumes "documented_jwt jw" "issue_pair jw cfg t0 (sid, j1, j2) subject email (role_value r) scopes = pair" "t0 \<le> now"
  shows "(now < micros (t0 div 1000000 + 60 * ss_access_token_ttl_minutes cfg) \<longrightarrow>
      (\<exists>c. decode_token jw cfg now (pr_access_token pair) ''access'' = Inr c \<and> tc_subject c = subject \<and> tc_role c = r
         \<and> tc_session_id c = pr_session_id pair \<and> tc_scopes c = scopes \<and> tc_email c = email))
    \<and> (now < micros (t0 div 1000000 + 86400 * ss_refresh_token_ttl_days cfg) \<longrightarrow>
      (\<exists>c. decode_token jw cfg now (pr_refresh_token pair) ''refresh'' = Inr c \<and> tc_subject c = subject \<and> tc_role c = r
         \<and> tc_session_id c = pr_session_id pair \<and> tc_scopes c = []))
    \<and> (\<forall>c. decode_token jw cfg now (pr_access_token pair) ''refresh'' \<noteq> Inr c
         \<and> decode_token jw cfg now (pr_refresh_token pair) ''access'' \<noteq> Inr c)
    \<and> (micros (t0 div 1000000 + 60 * ss_access_token_ttl_minutes cfg) \<le> now \<longrightarrow>
         (\<forall>c. decode_token jw cfg now (pr_access_token pair) ''access'' \<noteq> Inr c))
    \<and> (micros (t0 div 1000000 + 86400 * ss_refresh_token_ttl_days cfg) \<le> now \<longrightarrow>
         (\<forall>c. decode_token jw cfg now (pr_refresh_token pair) ''refresh'' \<noteq> Inr c))"
proof -
  let ?ta = "t0 + micros (60 * ss_access_token_ttl_minutes cfg)" and ?tr = "t0 + micros (86400 * ss_refresh_token_ttl_days cfg)"
  have ttl: "micros ((t0 + micros s) div 1000000) = micros (t0 div 1000000 + s)" for s by (simp add: micros_def)
  have pair: "pr_access_token pair = encode_token jw cfg subject email (role_value r) sid t0 ?ta ''access'' scopes j1"
    "pr_refresh_token pair = encode_token jw cfg subject email (role_value r) sid t0 ?tr ''refresh'' [] j2"
    "pr_session_id pair = sid"
    using assms(2) by (auto simp: issue_pair_def Let_def)
  note good = encode_token_decodes [OF assms(1,3)] and accepted = encode_token_accepted [OF assms(1), of cfg now]
  have "ty = expected \<and> now < micros (e div 1000000)"
    if "decode_token jw cfg now (encode_token jw cfg subject email role sid t0 e ty s j) expected = Inr c" for role e ty s j expected c
    using accepted [OF that] by blast
  note only = this
  show ?thesis
  proof (intro conjI impI allI)
    assume "now < micros (t0 div 1000000 + 60 * ss_access_token_ttl_minutes cfg)"
    then show "\<exists>c. decode_token jw cfg now (pr_access_token pair) ''access'' = Inr c \<and> tc_subject c = subject \<and> tc_role c = r
         \<and> tc_session_id c = pr_session_id pair \<and> tc_scopes c = scopes \<and> tc_email c = email"
      using good [of ?ta "''access''" "''access''" cfg subject email r sid scopes j1] by (simp add: pair ttl)
  next
    assume "now < micros (t0 div 1000000 + 86400 * ss_refresh_token_ttl_days cfg)"
    then show "\<exists>c. decode_token jw cfg now (pr_refresh_token pair) ''refresh'' = Inr c \<and> tc_subject c = subject \<and> tc_role c = r
         \<and> tc_session_id c = pr_session_id pair \<and> tc_scopes c = []"
      using good [of ?tr "''refresh''" "''refresh''" cfg subject email r sid "[]" j2] by (simp add: pair ttl)
  next
    fix c show "decode_token jw cfg now (pr_access_token pair) ''refresh'' \<noteq> Inr c"
    proof
      assume "decode_token jw cfg now (pr_access_token pair) ''refresh'' = Inr c"
      from only [OF this [unfolded pair]] show False by simp
    qed
  next
    fix c show "decode_token jw cfg now (pr_refresh_token pair) ''access'' \<noteq> Inr c"
    proof
      assume "decode_token jw cfg now (pr_refresh_token pair) ''access'' = Inr c"
      from only [OF this [unfolded pair]] show False by simp
    qed
  next
    fix c assume late: "micros (t0 div 1000000 + 60 * ss_access_token_ttl_minutes cfg) \<le> now"
    show "decode_token jw cfg now (pr_access_token pair) ''access'' \<noteq> Inr c"
    proof
      assume "decode_token jw cfg now (pr_access_token pair) ''access'' = Inr c"
      from only [OF this [unfolded pair]] show False using late by (simp add: ttl)
    qed
  next
    fix c assume late: "micros (t0 div 1000000 + 86400 * ss_refresh_token_ttl_days cfg) \<le> now"
    show "decode_token jw cfg now (pr_refresh_token pair) ''refresh'' \<noteq> Inr c"
    proof
      assume "decode_token jw cfg now (pr_refresh_token pair) ''refresh'' = Inr c"
      from only [OF this [unfolded pair]] show False using late by (simp add: ttl)
    qed
  qed
qed

theorem token_pair_roundtrip_witness:
  "\<exists>c. decode_token transparent_jwt default_security_settings (micros 1059)
     (pr_access_token (issue_pair transparent_jwt default_security_settings (micros 1000) (''s'', ''j'', ''k'') ''u'' ''u@x'' ''viewer'' [])) ''access'' = Inr c
    \<and> tc_subject c = ''u'' \<and> tc_role c = ROLE_VIEWER"
  using token_pair_roundtrip [OF documented_transparent_jwt, of default_security_settings "micros 1000" "''s''" "''j''" "''k''" "''u''" "''u@x''"
      ROLE_VIEWER "[]" _ "micros 1059", OF refl]
  by (simp add: micros_def default_security_settings_def) blast

text \<open>
  Least privilege: the human roles form a chain below the administrator, only the administrator manages
  accounts or reads the audit log, and the machine role that may write metrics shares no other write with
  anyone: no role but the administrator can both fabricate numbers and act on them.
\<close>

theorem role_matrix_least_privilege:
  "set (ROLE_PERMISSIONS ROLE_VIEWER) \<subset> set (ROLE_PERMISSIONS ROLE_ANALYST)
   \<and> set (ROLE_PERMISSIONS ROLE_ANALYST) \<subset> set (ROLE_PERMISSIONS ROLE_OPTIMIZER)
   \<and> set (ROLE_PERMISSIONS ROLE_OPTIMIZER) \<subset> set (ROLE_PERMISSIONS ROLE_ADMIN)
   \<and> (\<forall>r. PERM_USER_MANAGE \<in> set (ROLE_PERMISSIONS r) \<or> PERM_AUDIT_READ \<in> set (ROLE_PERMISSIONS r) \<longleftrightarrow> r = ROLE_ADMIN)
   \<and> (\<forall>r. PERM_METRICS_WRITE \<in> set (ROLE_PERMISSIONS r) \<longleftrightarrow> r \<in> {ROLE_ADMIN, ROLE_INGESTOR})
   \<and> (\<forall>r. PERM_METRICS_WRITE \<in> set (ROLE_PERMISSIONS r)
        \<and> (\<exists>p\<in>{PERM_CAMPAIGN_WRITE, PERM_RUN_TRIGGER, PERM_ACTION_APPROVE, PERM_ACTION_EXECUTE, PERM_CREATIVE_WRITE}.
             p \<in> set (ROLE_PERMISSIONS r)) \<longleftrightarrow> r = ROLE_ADMIN)"
proof -
  have all: "(\<forall>r. P r) \<longleftrightarrow> P ROLE_ADMIN \<and> P ROLE_OPTIMIZER \<and> P ROLE_ANALYST \<and> P ROLE_VIEWER \<and> P ROLE_INGESTOR" for P
    by (metis role.exhaust)
  show ?thesis unfolding all by (simp add: ROLE_PERMISSIONS_def permission_members_def psubset_eq set_eq_iff) auto
qed

end
