(* ===== verification/Identity.thy ===== *)
theory Identity
  imports Security
begin

text \<open>
  Accounts and sign-in sessions: the rows of \<open>infra/db/models.py\<close>, the repositories of
  \<open>repositories/users.py\<close>, the service of \<open>services/auth.py\<close>, the endpoints of \<open>api/v1/auth.py\<close> with the unit of
  work they run in, and the authentication of a request in \<open>core/deps.py\<close>.

  A table is a dictionary from primary key to row. The readings of the clock within one request are taken
  as one; new ids are arguments, and a key or an e-mail that exists is the \<open>IntegrityError\<close> of the database.
\<close>

subsection \<open>Rows and repositories\<close>

record user_row =
  us_id :: string
  us_email :: string
  us_full_name :: string
  us_hashed_password :: string
  us_role :: string
  us_is_active :: bool
  us_failed_login_count :: int
  us_locked_until :: "int option"
  us_last_login_at :: "int option"
  us_must_change_password :: bool

record refresh_session =
  rf_id :: string
  rf_user_id :: string
  rf_expires_at :: int
  rf_revoked_at :: "int option"
  rf_user_agent :: string
  rf_ip_address :: string

definition session_is_valid :: "int \<Rightarrow> refresh_session \<Rightarrow> bool" where
  "session_is_valid now s = (rf_revoked_at s = None \<and> now < rf_expires_at s)"

record identity_db =
  id_users :: "(string, user_row) dict"
  id_sessions :: "(string, refresh_session) dict"

definition normalise_email :: "string \<Rightarrow> string" where
  "normalise_email email = str_lower (strip email)"

definition by_email :: "string \<Rightarrow> identity_db \<Rightarrow> user_row option" where
  "by_email email db = find (\<lambda>u. us_email u = normalise_email email) (map snd (id_users db))"

definition get_or_raise :: "string \<Rightarrow> identity_db \<Rightarrow> (py_error, user_row) res" where
  "get_or_raise user_id db =
     (case map_of (id_users db) user_id of
        None \<Rightarrow> Inl (NotFoundError (''user '' @ user_id @ '' was not found'')) | Some u \<Rightarrow> Inr u)"

definition put_user :: "user_row \<Rightarrow> identity_db \<Rightarrow> identity_db" where
  "put_user u db = db\<lparr>id_users := AList.update (us_id u) u (id_users db)\<rparr>"

definition put_session :: "refresh_session \<Rightarrow> identity_db \<Rightarrow> identity_db" where
  "put_session s db = db\<lparr>id_sessions := AList.update (rf_id s) s (id_sessions db)\<rparr>"

definition integrity_error :: py_error where
  "integrity_error = OtherError ''IntegrityError'' ''UNIQUE constraint failed''"

definition insert_user :: "user_row \<Rightarrow> identity_db \<Rightarrow> (py_error, user_row) res \<times> identity_db" where
  "insert_user u db =
     (if us_id u \<in> set (map fst (id_users db)) \<or> us_email u \<in> set (map (us_email \<circ> snd) (id_users db))
      then (Inl integrity_error, db) else (Inr u, db\<lparr>id_users := id_users db @ [(us_id u, u)]\<rparr>))"

definition create_user_row :: "string \<Rightarrow> string \<Rightarrow> string \<Rightarrow> role \<Rightarrow> string \<Rightarrow> bool \<Rightarrow> identity_db
   \<Rightarrow> (py_error, user_row) res \<times> identity_db" where
  "create_user_row new_id email hashed role full_name must_change db =
     insert_user \<lparr>us_id = new_id, us_email = normalise_email email, us_full_name = full_name, us_hashed_password = hashed,
       us_role = role_value role, us_is_active = True, us_failed_login_count = 0, us_locked_until = None,
       us_last_login_at = None, us_must_change_password = must_change\<rparr> db"

definition is_locked :: "int \<Rightarrow> user_row \<Rightarrow> bool" where
  "is_locked now u = (case us_locked_until u of None \<Rightarrow> False | Some t \<Rightarrow> now < t)"

definition login_failure :: "int \<Rightarrow> int \<Rightarrow> int \<Rightarrow> user_row \<Rightarrow> user_row" where
  "login_failure now max_failures lockout_seconds u =
     (if max_failures \<le> us_failed_login_count u + 1
      then u\<lparr>us_locked_until := Some (now + micros lockout_seconds), us_failed_login_count := 0\<rparr>
      else u\<lparr>us_failed_login_count := us_failed_login_count u + 1\<rparr>)"

definition login_success :: "int \<Rightarrow> string option \<Rightarrow> user_row \<Rightarrow> user_row" where
  "login_success now new_hash u =
     u\<lparr>us_failed_login_count := 0, us_locked_until := None, us_last_login_at := Some now,
       us_hashed_password := (case new_hash of Some h \<Rightarrow> if h = [] then us_hashed_password u else h | None \<Rightarrow> us_hashed_password u)\<rparr>"

definition create_session :: "int \<Rightarrow> string \<Rightarrow> string \<Rightarrow> int \<Rightarrow> string \<Rightarrow> string \<Rightarrow> identity_db
   \<Rightarrow> (py_error, refresh_session) res \<times> identity_db" where
  "create_session now user_id session_id ttl user_agent ip_address db =
     (let s = \<lparr>rf_id = session_id, rf_user_id = user_id, rf_expires_at = now + ttl, rf_revoked_at = None,
                rf_user_agent = take 400 user_agent, rf_ip_address = take 64 ip_address\<rparr>
      in if session_id \<in> set (map fst (id_sessions db)) then (Inl integrity_error, db)
         else (Inr s, db\<lparr>id_sessions := id_sessions db @ [(session_id, s)]\<rparr>))"

definition get_valid :: "int \<Rightarrow> string \<Rightarrow> identity_db \<Rightarrow> refresh_session option" where
  "get_valid now session_id db =
     (case map_of (id_sessions db) session_id of None \<Rightarrow> None | Some s \<Rightarrow> if session_is_valid now s then Some s else None)"

definition revoke :: "int \<Rightarrow> string \<Rightarrow> identity_db \<Rightarrow> bool \<times> identity_db" where
  "revoke now session_id db =
     (case map_of (id_sessions db) session_id of
        None \<Rightarrow> (False, db)
      | Some s \<Rightarrow> if rf_revoked_at s \<noteq> None then (False, db) else (True, put_session (s\<lparr>rf_revoked_at := Some now\<rparr>) db))"

definition revoke_row :: "int \<Rightarrow> string \<Rightarrow> refresh_session \<Rightarrow> refresh_session" where
  "revoke_row now user_id s =
     (if rf_user_id s = user_id \<and> rf_revoked_at s = None then s\<lparr>rf_revoked_at := Some now\<rparr> else s)"

definition revoke_all_for_user :: "int \<Rightarrow> string \<Rightarrow> identity_db \<Rightarrow> nat \<times> identity_db" where
  "revoke_all_for_user now user_id db =
     (length (filter (\<lambda>s. rf_user_id s = user_id \<and> rf_revoked_at s = None) (map snd (id_sessions db))),
      db\<lparr>id_sessions := map (\<lambda>(k, s). (k, revoke_row now user_id s)) (id_sessions db)\<rparr>)"

subsection \<open>The service\<close>

record 'tok auth_env =
  ae_settings :: security_settings
  ae_hasher :: password_hasher
  ae_jwt :: "'tok jwt"

definition PASSWORD_DIGITS :: string where "PASSWORD_DIGITS = ''0123456789''"
definition PASSWORD_LETTERS :: string where
  "PASSWORD_LETTERS = ''abcdefghijklmnopqrstuvwxyzABCDEFGHIJKLMNOPQRSTUVWXYZ''"
definition PASSWORD_SYMBOLS :: string where "PASSWORD_SYMBOLS = ''!@#$%^&*()-_=+[]{};:,.<>/?''"

definition password_problems :: "int \<Rightarrow> string \<Rightarrow> string list" where
  "password_problems minimum password =
     (if int (length password) < minimum then [''must be at least '' @ show_int minimum @ '' characters''] else [])
     @ (if \<not> list_ex (\<lambda>c. c \<in> set PASSWORD_DIGITS) password then [''must contain a digit''] else [])
     @ (if \<not> list_ex (\<lambda>c. c \<in> set PASSWORD_LETTERS) password then [''must contain a letter''] else [])
     @ (if \<not> list_ex (\<lambda>c. c \<in> set PASSWORD_SYMBOLS) password then [''must contain a symbol''] else [])"

definition validate_password_strength :: "security_settings \<Rightarrow> string \<Rightarrow> (py_error, unit) res" where
  "validate_password_strength cfg password =
     (let problems = password_problems (ss_password_min_length cfg) password
      in if problems \<noteq> [] then Inl (ValidationFailure (''Password is too weak: '' @ join_with '', '' problems)) else Inr ())"

definition bootstrap_admin :: "'tok auth_env \<Rightarrow> string \<Rightarrow> identity_db \<Rightarrow> (py_error, user_row option) res \<times> identity_db" where
  "bootstrap_admin env new_id db =
     (let cfg = ae_settings env
      in case by_email (ss_bootstrap_admin_email cfg) db of
           Some u \<Rightarrow> (Inr None, db)
         | None \<Rightarrow>
             (case create_user_row new_id (ss_bootstrap_admin_email cfg) (ph_hash (ae_hasher env) (ss_bootstrap_admin_password cfg))
                     ROLE_ADMIN ''Bootstrap Administrator'' True db of
                (Inl err, db1) \<Rightarrow> (Inl err, db1)
              | (Inr u, db1) \<Rightarrow> (Inr (Some u), db1)))"

text \<open>The pair for a user, and the session row that makes it valid.\<close>

definition open_session :: "'tok auth_env \<Rightarrow> int \<Rightarrow> string \<times> string \<times> string \<Rightarrow> user_row \<Rightarrow> string \<Rightarrow> string \<Rightarrow> identity_db
   \<Rightarrow> (py_error, user_row \<times> 'tok token_pair) res \<times> identity_db" where
  "open_session env now ids u user_agent ip_address db =
     (let pair = issue_pair (ae_jwt env) (ae_settings env) now ids (us_id u) (us_email u) (us_role u) []
      in case create_session now (us_id u) (pr_session_id pair) (micros (86400 * ss_refresh_token_ttl_days (ae_settings env)))
                user_agent ip_address db of
           (Inl err, db1) \<Rightarrow> (Inl err, db1)
         | (Inr s, db1) \<Rightarrow> (Inr (u, pair), db1))"

definition login :: "'tok auth_env \<Rightarrow> int \<Rightarrow> string \<times> string \<times> string \<Rightarrow> string \<Rightarrow> string \<Rightarrow> string \<Rightarrow> string \<Rightarrow> identity_db
   \<Rightarrow> (py_error, user_row \<times> 'tok token_pair) res \<times> identity_db" where
  "login env now ids email password user_agent ip_address db =
     (let cfg = ae_settings env; h = ae_hasher env
      in case by_email email db of
           None \<Rightarrow> (Inl (AuthenticationError ''Invalid email or password''), db)
         | Some u \<Rightarrow>
             if \<not> us_is_active u then (Inl (AuthenticationError ''This account has been deactivated''), db)
             else if is_locked now u
             then (Inl (AuthenticationError ''This account is temporarily locked after repeated failed sign-ins''), db)
             else if \<not> verify_password h (us_hashed_password u) password
             then (Inl (AuthenticationError ''Invalid email or password''),
                   put_user (login_failure now (ss_max_failed_logins cfg) (ss_lockout_seconds cfg) u) db)
             else let new_hash = (if needs_rehash h (us_hashed_password u) then Some (ph_hash h password) else None);
                      u' = login_success now new_hash u
                  in open_session env now ids u' user_agent ip_address (put_user u' db))"

definition refresh :: "'tok auth_env \<Rightarrow> int \<Rightarrow> string \<times> string \<times> string \<Rightarrow> 'tok \<Rightarrow> identity_db
   \<Rightarrow> (py_error, user_row \<times> 'tok token_pair) res \<times> identity_db" where
  "refresh env now ids refresh_token db =
     (case decode_token (ae_jwt env) (ae_settings env) now refresh_token ''refresh'' of
        Inl err \<Rightarrow> (Inl err, db)
      | Inr claims \<Rightarrow>
          (case get_valid now (tc_session_id claims) db of
             None \<Rightarrow> (Inl (AuthenticationError ''This session has been revoked or expired''), db)
           | Some stored \<Rightarrow>
               (case map_of (id_users db) (tc_subject claims) of
                  None \<Rightarrow> (Inl (AuthenticationError ''This account is no longer active''), db)
                | Some u \<Rightarrow>
                    if \<not> us_is_active u then (Inl (AuthenticationError ''This account is no longer active''), db)
                    else open_session env now ids u [] [] (snd (revoke now (tc_session_id claims) db)))))"

definition logout :: "'tok auth_env \<Rightarrow> int \<Rightarrow> 'tok \<Rightarrow> identity_db \<Rightarrow> bool \<times> identity_db" where
  "logout env now refresh_token db =
     (case decode_token (ae_jwt env) (ae_settings env) now refresh_token ''refresh'' of
        Inl err \<Rightarrow> (False, db) | Inr claims \<Rightarrow> revoke now (tc_session_id claims) db)"

definition logout_everywhere :: "int \<Rightarrow> string \<Rightarrow> identity_db \<Rightarrow> nat \<times> identity_db" where
  "logout_everywhere now user_id db = revoke_all_for_user now user_id db"

definition change_password :: "'tok auth_env \<Rightarrow> int \<Rightarrow> string \<Rightarrow> string \<Rightarrow> string \<Rightarrow> identity_db
   \<Rightarrow> (py_error, unit) res \<times> identity_db" where
  "change_password env now user_id current_password new_password db =
     (let h = ae_hasher env
      in case get_or_raise user_id db of
           Inl err \<Rightarrow> (Inl err, db)
         | Inr u \<Rightarrow>
             if \<not> verify_password h (us_hashed_password u) current_password
             then (Inl (AuthenticationError ''The current password is incorrect''), db)
             else (case validate_password_strength (ae_settings env) new_password of
                     Inl err \<Rightarrow> (Inl err, db)
                   | Inr _ \<Rightarrow>
                       if verify_password h (us_hashed_password u) new_password
                       then (Inl (ValidationFailure ''The new password must differ from the current one''), db)
                       else (Inr (), snd (logout_everywhere now user_id
                              (put_user (u\<lparr>us_hashed_password := ph_hash h new_password, us_must_change_password := False\<rparr>) db)))))"

definition create_user :: "'tok auth_env \<Rightarrow> string \<Rightarrow> string \<Rightarrow> string \<Rightarrow> role \<Rightarrow> string \<Rightarrow> identity_db
   \<Rightarrow> (py_error, user_row) res \<times> identity_db" where
  "create_user env new_id email password role full_name db =
     (case by_email email db of
        Some u \<Rightarrow> (Inl (ConflictError ''A user with that email already exists''), db)
      | None \<Rightarrow>
          (case validate_password_strength (ae_settings env) password of
             Inl err \<Rightarrow> (Inl err, db)
           | Inr _ \<Rightarrow> create_user_row new_id email (ph_hash (ae_hasher env) password) role full_name True db))"

definition is_active_admin :: "user_row \<Rightarrow> bool" where
  "is_active_admin u = (us_role u = role_value ROLE_ADMIN \<and> us_is_active u)"

definition count_active_admins :: "string option \<Rightarrow> identity_db \<Rightarrow> nat" where
  "count_active_admins excluding db =
     length (filter (\<lambda>u. is_active_admin u \<and> (case excluding of None \<Rightarrow> True | Some x \<Rightarrow> x = [] \<or> us_id u \<noteq> x)) (map snd (id_users db)))"

definition refuse_if_last_admin :: "string \<Rightarrow> string \<Rightarrow> identity_db \<Rightarrow> (py_error, unit) res" where
  "refuse_if_last_admin user_id verb db =
     (if filter (\<lambda>x. x \<noteq> user_id) (map us_id (filter is_active_admin (map snd (id_users db)))) = []
      then Inl (ConflictError (''Cannot '' @ verb @ '' the last active administrator; promote another administrator first''))
      else Inr ())"

definition set_active :: "int \<Rightarrow> string \<Rightarrow> bool \<Rightarrow> identity_db \<Rightarrow> (py_error, user_row) res \<times> identity_db" where
  "set_active now user_id active db =
     (case get_or_raise user_id db of
        Inl err \<Rightarrow> (Inl err, db)
      | Inr u \<Rightarrow>
          (case if \<not> active \<and> us_role u = role_value ROLE_ADMIN then refuse_if_last_admin (us_id u) ''deactivate'' db else Inr () of
             Inl err \<Rightarrow> (Inl err, db)
           | Inr _ \<Rightarrow>
               let u' = u\<lparr>us_is_active := active\<rparr>; db1 = put_user u' db
               in (Inr u', if active then db1 else snd (logout_everywhere now user_id db1))))"

definition set_role :: "int \<Rightarrow> string \<Rightarrow> role \<Rightarrow> identity_db \<Rightarrow> (py_error, user_row) res \<times> identity_db" where
  "set_role now user_id role db =
     (case get_or_raise user_id db of
        Inl err \<Rightarrow> (Inl err, db)
      | Inr u \<Rightarrow>
          (case if us_role u = role_value ROLE_ADMIN \<and> role \<noteq> ROLE_ADMIN then refuse_if_last_admin (us_id u) ''demote'' db else Inr () of
             Inl err \<Rightarrow> (Inl err, db)
           | Inr _ \<Rightarrow>
               let u' = u\<lparr>us_role := role_value role\<rparr>
               in (Inr u', snd (logout_everywhere now user_id (put_user u' db)))))"

subsection \<open>The endpoints\<close>

text \<open>\<open>unit_of_work\<close>: what the handler did is committed when it returns and rolled back when it raises.\<close>

definition unit_of_work :: "(py_error, 'a) res \<times> 'd \<Rightarrow> 'd \<Rightarrow> (py_error, 'a) res \<times> 'd" where
  "unit_of_work result before =
     (case result of (Inl err, after) \<Rightarrow> (Inl err, before) | (Inr a, after) \<Rightarrow> (Inr a, after))"

text \<open>The login endpoint commits a rejected sign-in itself, before the unit of work rolls back.\<close>

definition login_endpoint :: "'tok auth_env \<Rightarrow> int \<Rightarrow> string \<times> string \<times> string \<Rightarrow> string \<Rightarrow> string \<Rightarrow> string \<Rightarrow> string \<Rightarrow> identity_db
   \<Rightarrow> (py_error, user_row \<times> 'tok token_pair) res \<times> identity_db" where
  "login_endpoint env now ids email password user_agent ip_address db =
     (case login env now ids email password user_agent ip_address db of
        (Inl (AuthenticationError m), db1) \<Rightarrow> (Inl (AuthenticationError m), db1)
      | result \<Rightarrow> unit_of_work result db)"

text \<open>\<open>update_user\<close> of \<open>api/v1/admin.py\<close>: the role first, then the flag, each only when it changes.\<close>

definition update_user :: "int \<Rightarrow> string \<Rightarrow> role option \<Rightarrow> bool option \<Rightarrow> identity_db \<Rightarrow> (py_error, user_row) res \<times> identity_db" where
  "update_user now user_id new_role new_active db =
     (case get_or_raise user_id db of
        Inl err \<Rightarrow> (Inl err, db)
      | Inr u \<Rightarrow>
          (case (case new_role of
                   Some r \<Rightarrow> if role_value r \<noteq> us_role u then set_role now user_id r db else (Inr u, db)
                 | None \<Rightarrow> (Inr u, db)) of
             (Inl err, db1) \<Rightarrow> (Inl err, db1)
           | (Inr u1, db1) \<Rightarrow>
               (case new_active of
                  Some b \<Rightarrow> if b \<noteq> us_is_active u1 then set_active now user_id b db1 else (Inr u1, db1)
                | None \<Rightarrow> (Inr u1, db1))))"

text \<open>\<open>get_current_claims\<close>: decode the bearer token, then the session it names must be live.\<close>

definition get_current_claims :: "'tok auth_env \<Rightarrow> int \<Rightarrow> 'tok option \<Rightarrow> identity_db \<Rightarrow> (py_error, token_claims) res" where
  "get_current_claims env now credentials db =
     (case credentials of
        None \<Rightarrow> Inl (AuthenticationError ''A bearer token is required'')
      | Some token \<Rightarrow>
          bind_res (decode_token (ae_jwt env) (ae_settings env) now token ''access'') (\<lambda>claims.
            if ss_verify_session_on_request (ae_settings env) \<and> get_valid now (tc_session_id claims) db = None
            then Inl (AuthenticationError ''This session has been revoked or expired'') else Inr claims))"

end
