(* ===== verification/Accounts.thy ===== *)
theory Accounts
  imports Identity
begin

text \<open>
  The life of accounts and sessions under any sequence of requests: the endpoints as one step function, the
  atomic effects they are made of, the invariants of the reachable states, and what they give: revocation is
  immediate and final, a refresh token works once, an administrator always remains, and a locked account
  bounds the guesses.
\<close>

subsection \<open>Requests\<close>

datatype 'tok request =
    RLogin string string string string "string \<times> string \<times> string" \<comment> \<open>e-mail, password, user agent, address, new ids\<close>
  | RRefresh 'tok "string \<times> string \<times> string"
  | RLogout 'tok
  | RLogoutEverywhere string
  | RChangePassword string string string
  | RCreateUser string string string role string \<comment> \<open>new id, e-mail, password, role, name\<close>
  | RUpdateUser string "role option" "bool option"
  | RBootstrap string

text \<open>What was issued: the pair, for whom and with which role.\<close>

record 'tok issued =
  iu_subject :: string
  iu_role :: string
  iu_session :: string
  iu_pair :: "'tok token_pair"

definition issued_of :: "user_row \<times> 'tok token_pair \<Rightarrow> 'tok issued" where
  "issued_of p = \<lparr>iu_subject = us_id (fst p), iu_role = us_role (fst p), iu_session = pr_session_id (snd p), iu_pair = snd p\<rparr>"

definition answer :: "('a \<Rightarrow> 'b) \<Rightarrow> (py_error, 'a) res \<times> 'd \<Rightarrow> (py_error, 'b) res \<times> 'd" where
  "answer f p = (case p of (Inl e, d) \<Rightarrow> (Inl e, d) | (Inr a, d) \<Rightarrow> (Inr (f a), d))"

definition handle :: "'tok auth_env \<Rightarrow> int \<Rightarrow> 'tok request \<Rightarrow> identity_db \<Rightarrow> (py_error, 'tok issued list) res \<times> identity_db" where
  "handle env now rq db =
     (case rq of
        RLogin email password ua ip ids \<Rightarrow> answer (\<lambda>p. [issued_of p]) (login_endpoint env now ids email password ua ip db)
      | RRefresh t ids \<Rightarrow> answer (\<lambda>p. [issued_of p]) (unit_of_work (refresh env now ids t db) db)
      | RLogout t \<Rightarrow> (Inr [], snd (logout env now t db))
      | RLogoutEverywhere uid \<Rightarrow> (Inr [], snd (logout_everywhere now uid db))
      | RChangePassword uid old new \<Rightarrow> answer (\<lambda>u. []) (unit_of_work (change_password env now uid old new db) db)
      | RCreateUser nid email password role name \<Rightarrow>
          answer (\<lambda>u. []) (unit_of_work (create_user env nid email password role name db) db)
      | RUpdateUser uid r b \<Rightarrow> answer (\<lambda>u. []) (unit_of_work (update_user now uid r b db) db)
      | RBootstrap nid \<Rightarrow> answer (\<lambda>u. []) (unit_of_work (bootstrap_admin env nid db) db))"

definition issued_in :: "(py_error, 'tok issued list) res \<Rightarrow> 'tok issued list" where
  "issued_in r = (case r of Inl e \<Rightarrow> [] | Inr is \<Rightarrow> is)"

text \<open>One request, under any hasher: the salt of a hash is random.\<close>

inductive account_step :: "security_settings \<Rightarrow> 'tok jwt \<Rightarrow> identity_db \<times> 'tok issued list \<Rightarrow> identity_db \<times> 'tok issued list \<Rightarrow> bool"
  for cfg jw where
  "handle \<lparr>ae_settings = cfg, ae_hasher = h, ae_jwt = jw\<rparr> now rq db = (r, db')
   \<Longrightarrow> account_step cfg jw (db, is) (db', is @ issued_in r)"

abbreviation account_steps where "account_steps cfg jw \<equiv> (account_step cfg jw)\<^sup>*\<^sup>*"

definition empty_identity :: identity_db where
  "empty_identity = \<lparr>id_users = [], id_sessions = []\<rparr>"

definition reachable_accounts :: "security_settings \<Rightarrow> 'tok jwt \<Rightarrow> identity_db \<times> 'tok issued list \<Rightarrow> bool" where
  "reachable_accounts cfg jw s = account_steps cfg jw (empty_identity, []) s"

subsection \<open>Atomic effects\<close>

definition fresh_session :: "security_settings \<Rightarrow> int \<Rightarrow> string \<Rightarrow> string \<Rightarrow> string \<Rightarrow> string \<Rightarrow> refresh_session" where
  "fresh_session cfg now user_id sid ua ip =
     \<lparr>rf_id = sid, rf_user_id = user_id, rf_expires_at = now + micros (86400 * ss_refresh_token_ttl_days cfg),
      rf_revoked_at = None, rf_user_agent = take 400 ua, rf_ip_address = take 64 ip\<rparr>"

inductive effect :: "security_settings \<Rightarrow> 'tok jwt \<Rightarrow> identity_db \<times> 'tok issued list \<Rightarrow> identity_db \<times> 'tok issued list \<Rightarrow> bool"
  for cfg jw where
  ef_credentials: "map_of (id_users db) k = Some u \<Longrightarrow> us_id v = us_id u \<Longrightarrow> us_email v = us_email u \<Longrightarrow> us_role v = us_role u
    \<Longrightarrow> us_is_active v = us_is_active u \<Longrightarrow> effect cfg jw (db, is) (put_user v db, is)"
| ef_insert: "us_id u \<notin> set (map fst (id_users db)) \<Longrightarrow> us_email u \<notin> set (map (us_email \<circ> snd) (id_users db))
    \<Longrightarrow> effect cfg jw (db, is) (db\<lparr>id_users := id_users db @ [(us_id u, u)]\<rparr>, is)"
| ef_revoke: "map_of (id_sessions db) k = Some s
    \<Longrightarrow> effect cfg jw (db, is) (put_session (s\<lparr>rf_revoked_at := Some now\<rparr>) db, is)"
| ef_revoke_all: "effect cfg jw (db, is) (snd (revoke_all_for_user now uid db), is)"
| ef_open: "map_of (id_users db) (us_id u) = Some u \<Longrightarrow> us_is_active u \<Longrightarrow> sid \<notin> set (map fst (id_sessions db))
    \<Longrightarrow> pair = issue_pair jw cfg now (sid, j1, j2) (us_id u) (us_email u) (us_role u) []
    \<Longrightarrow> effect cfg jw (db, is)
          (db\<lparr>id_sessions := id_sessions db @ [(sid, fresh_session cfg now (us_id u) sid ua ip)]\<rparr>, is @ [issued_of (u, pair)])"
| ef_activate: "map_of (id_users db) k = Some u
    \<Longrightarrow> effect cfg jw (db, is) (put_user (u\<lparr>us_is_active := True\<rparr>) db, is)"
| ef_regrade: "map_of (id_users db) (us_id u) = Some u \<Longrightarrow> us_id v = us_id u \<Longrightarrow> us_email v = us_email u
    \<Longrightarrow> (is_active_admin u \<and> \<not> is_active_admin v \<Longrightarrow> \<exists>a\<in>set (map snd (id_users db)). is_active_admin a \<and> us_id a \<noteq> us_id u)
    \<Longrightarrow> effect cfg jw (db, is) (snd (revoke_all_for_user now (us_id u) (put_user v db)), is)"

abbreviation effects where "effects cfg jw \<equiv> (effect cfg jw)\<^sup>*\<^sup>*"

definition well_keyed_db :: "identity_db \<Rightarrow> bool" where
  "well_keyed_db db \<longleftrightarrow> distinct (map fst (id_users db)) \<and> distinct (map fst (id_sessions db))
     \<and> (\<forall>(k, u)\<in>set (id_users db). us_id u = k) \<and> (\<forall>(k, s)\<in>set (id_sessions db). rf_id s = k)
     \<and> distinct (map (us_email \<circ> snd) (id_users db))"

lemma well_keyed_user: "well_keyed_db db \<Longrightarrow> map_of (id_users db) k = Some u \<Longrightarrow> us_id u = k"
  unfolding well_keyed_db_def using map_of_SomeD [of "id_users db" k u] by blast

lemma well_keyed_session: "well_keyed_db db \<Longrightarrow> map_of (id_sessions db) k = Some s \<Longrightarrow> rf_id s = k"
  unfolding well_keyed_db_def using map_of_SomeD [of "id_sessions db" k s] by blast

lemma by_email_stored:
  assumes "well_keyed_db db" "by_email email db = Some u"
  shows "map_of (id_users db) (us_id u) = Some u \<and> us_email u = normalise_email email"
proof -
  have u: "u \<in> set (map snd (id_users db))" "us_email u = normalise_email email"
    using assms(2) by (auto simp: by_email_def find_Some_iff intro: imageI nth_mem)
  then obtain k where "(k, u) \<in> set (id_users db)" by auto
  moreover then have "k = us_id u" using assms(1) by (auto simp: well_keyed_db_def)
  ultimately show ?thesis using assms(1) u(2) by (simp add: well_keyed_db_def)
qed

lemma map_of_put_user [simp]: "map_of (id_users (put_user u db)) k = (if k = us_id u then Some u else map_of (id_users db) k)"
  by (simp add: put_user_def update_conv')

lemma map_of_put_session [simp]:
  "map_of (id_sessions (put_session s db)) k = (if k = rf_id s then Some s else map_of (id_sessions db) k)"
  by (simp add: put_session_def update_conv')

lemma put_unrelated [simp]: "id_sessions (put_user u db) = id_sessions db" "id_users (put_session s db) = id_users db"
  by (simp_all add: put_user_def put_session_def)

lemma map_of_revoke_all [simp]:
  "map_of (id_sessions (snd (revoke_all_for_user now uid db))) k = map_option (revoke_row now uid) (map_of (id_sessions db) k)"
  "id_users (snd (revoke_all_for_user now uid db)) = id_users db"
  by (simp_all add: revoke_all_for_user_def map_of_map)

subsection \<open>Every endpoint is a sequence of effects\<close>

lemma unit_of_work_cases:
  "unit_of_work p db = (r, db') \<Longrightarrow> (\<exists>e. r = Inl e \<and> db' = db) \<or> (\<exists>a. r = Inr a \<and> p = (Inr a, db'))"
  by (cases p; cases "fst p") (auto simp: unit_of_work_def)

lemma answer_cases:
  "answer f p = (r, db') \<Longrightarrow> (\<exists>e. r = Inl e \<and> p = (Inl e, db')) \<or> (\<exists>a. r = Inr (f a) \<and> p = (Inr a, db'))"
  by (cases p; cases "fst p") (auto simp: answer_def)

lemma answer_uow_cases:
  assumes "answer f (unit_of_work p db) = (r, db')"
  shows "(\<exists>e. r = Inl e \<and> db' = db) \<or> (\<exists>a. r = Inr (f a) \<and> p = (Inr a, db'))"
  using answer_cases [OF assms] unit_of_work_cases by fastforce

lemma open_session_effect:
  assumes "ae_settings env = cfg" "ae_jwt env = jw" "open_session env now ids u ua ip db = (Inr p, db')"
    and "map_of (id_users db) (us_id u) = Some u" "us_is_active u"
  shows "effect cfg jw (db, is) (db', is @ [issued_of p])"
proof -
  obtain sid j1 j2 where ids: "ids = (sid, j1, j2)" by (cases ids)
  define pair where "pair = issue_pair jw cfg now (sid, j1, j2) (us_id u) (us_email u) (us_role u) []"
  have sid: "pr_session_id pair = sid" by (simp add: pair_def issue_pair_def Let_def)
  have p: "p = (u, pair)" "sid \<notin> set (map fst (id_sessions db))"
    "db' = db\<lparr>id_sessions := id_sessions db @ [(sid, fresh_session cfg now (us_id u) sid ua ip)]\<rparr>"
    using assms(1-3) sid
    by (auto simp: open_session_def Let_def ids create_session_def fresh_session_def split: if_splits simp flip: pair_def)
  show ?thesis unfolding p(1,3) by (rule ef_open [OF assms(4,5) p(2) pair_def])
qed

lemma login_endpoint_effects:
  assumes "ae_settings env = cfg" "ae_jwt env = jw" "well_keyed_db db"
    and "login_endpoint env now ids email password ua ip db = (r, db')"
  shows "effects cfg jw (db, is) (db', is @ issued_in (map_sum id (\<lambda>p. [issued_of p]) r))"
proof (cases "by_email email db")
  case None
  then show ?thesis using assms(4) by (auto simp: login_endpoint_def login_def Let_def issued_in_def)
next
  case (Some u)
  have u: "map_of (id_users db) (us_id u) = Some u" using by_email_stored [OF assms(3) Some] by simp
  show ?thesis
  proof (cases "\<not> us_is_active u \<or> is_locked now u")
    case True
    then show ?thesis using assms(4) Some by (auto simp: login_endpoint_def login_def Let_def issued_in_def split: if_splits)
  next
    case False
    show ?thesis
    proof (cases "verify_password (ae_hasher env) (us_hashed_password u) password")
      case True
      define nh where "nh = (if needs_rehash (ae_hasher env) (us_hashed_password u) then Some (ph_hash (ae_hasher env) password) else None)"
      define v where "v = login_success now nh u"
      have v: "us_id v = us_id u" "us_email v = us_email u" "us_role v = us_role u" "us_is_active v = us_is_active u"
        by (simp_all add: v_def login_success_def)
      have "login env now ids email password ua ip db = open_session env now ids v ua ip (put_user v db)"
        using Some False True by (simp add: login_def Let_def nh_def v_def)
      moreover obtain q db1 where q: "open_session env now ids v ua ip (put_user v db) = (q, db1)" by (rule prod.exhaust)
      ultimately have login: "login env now ids email password ua ip db = (q, db1)" by simp
      have e1: "effect cfg jw (db, is) (put_user v db, is)" by (rule ef_credentials [OF u v])
      show ?thesis
      proof (cases q)
        case (Inl e)
        have "\<exists>m. e = OtherError ''IntegrityError'' m"
          using q Inl by (auto simp: open_session_def Let_def create_session_def integrity_error_def split: if_splits)
        then have "r = Inl e \<and> db' = db" using assms(4) login Inl by (auto simp: login_endpoint_def unit_of_work_def)
        then show ?thesis by (simp add: issued_in_def)
      next
        case (Inr p)
        have "effect cfg jw (put_user v db, is) (db1, is @ [issued_of p])"
          by (rule open_session_effect [OF assms(1,2) q [unfolded Inr]]) (use v False in simp_all)
        moreover have "r = Inr p \<and> db' = db1" using assms(4) login Inr by (simp add: login_endpoint_def unit_of_work_def)
        ultimately show ?thesis using e1 by (auto simp: issued_in_def)
      qed
    next
      case wrong: False
      define v where "v = login_failure now (ss_max_failed_logins cfg) (ss_lockout_seconds cfg) u"
      have "login env now ids email password ua ip db = (Inl (AuthenticationError ''Invalid email or password''), put_user v db)"
        using Some False wrong assms(1) by (simp add: login_def Let_def v_def)
      then have "r = Inl (AuthenticationError ''Invalid email or password'') \<and> db' = put_user v db"
        using assms(4) by (simp add: login_endpoint_def)
      moreover have "effect cfg jw (db, is) (put_user v db, is)"
        by (rule ef_credentials [OF u]) (simp_all add: v_def login_failure_def)
      ultimately show ?thesis by (auto simp: issued_in_def)
    qed
  qed
qed

lemma revoke_effects: "effects cfg jw (db, is) (snd (revoke now k db), is)"
  unfolding revoke_def by (auto split: option.splits intro: ef_revoke)

lemma refresh_success:
  assumes "refresh env now ids t db = (Inr p, db')"
  shows "\<exists>claims stored u. decode_token (ae_jwt env) (ae_settings env) now t ''refresh'' = Inr claims
    \<and> get_valid now (tc_session_id claims) db = Some stored \<and> map_of (id_users db) (tc_subject claims) = Some u \<and> us_is_active u
    \<and> open_session env now ids u [] [] (snd (revoke now (tc_session_id claims) db)) = (Inr p, db')"
proof -
  obtain claims where c: "decode_token (ae_jwt env) (ae_settings env) now t ''refresh'' = Inr claims"
    using assms by (cases "decode_token (ae_jwt env) (ae_settings env) now t ''refresh''") (auto simp: refresh_def)
  obtain stored where s: "get_valid now (tc_session_id claims) db = Some stored"
    using assms c by (cases "get_valid now (tc_session_id claims) db") (auto simp: refresh_def)
  obtain u where u: "map_of (id_users db) (tc_subject claims) = Some u"
    using assms c s by (cases "map_of (id_users db) (tc_subject claims)") (auto simp: refresh_def)
  have "us_is_active u" "open_session env now ids u [] [] (snd (revoke now (tc_session_id claims) db)) = (Inr p, db')"
    using assms c s u by (auto simp: refresh_def split: if_splits)
  then show ?thesis using c s u by blast
qed

lemma refresh_effects:
  assumes "ae_settings env = cfg" "ae_jwt env = jw" "well_keyed_db db" "refresh env now ids t db = (Inr p, db')"
  shows "effects cfg jw (db, is) (db', is @ [issued_of p])"
proof -
  obtain claims :: token_claims and u where c: "map_of (id_users db) (tc_subject claims) = Some u" "us_is_active u"
      "open_session env now ids u [] [] (snd (revoke now (tc_session_id claims) db)) = (Inr p, db')"
    using refresh_success [OF assms(4)] by blast
  have "id_users (snd (revoke now k db)) = id_users db" for k by (simp add: revoke_def split: option.split)
  then have "effect cfg jw (snd (revoke now (tc_session_id claims) db), is) (db', is @ [issued_of p])"
    using open_session_effect [OF assms(1,2) c(3)] c(1,2) well_keyed_user [OF assms(3) c(1)] by simp
  then show ?thesis using revoke_effects by (rule rtranclp.rtrancl_into_rtrancl [rotated])
qed

lemma change_password_effects:
  assumes "well_keyed_db db" "change_password env now uid old new db = (Inr x, db')"
  shows "effects cfg jw (db, is) (db', is)"
proof -
  obtain u where u: "map_of (id_users db) uid = Some u"
      "db' = snd (revoke_all_for_user now uid (put_user (u\<lparr>us_hashed_password := ph_hash (ae_hasher env) new, us_must_change_password := False\<rparr>) db))"
    using assms(2) by (auto simp: change_password_def Let_def get_or_raise_def logout_everywhere_def split: sum.splits option.splits if_splits)
  have "effect cfg jw (db, is) (put_user (u\<lparr>us_hashed_password := ph_hash (ae_hasher env) new, us_must_change_password := False\<rparr>) db, is)"
    by (rule ef_credentials [OF u(1)]) simp_all
  then show ?thesis unfolding u(2) by (meson ef_revoke_all converse_rtranclp_into_rtranclp r_into_rtranclp)
qed

lemma create_row_effect:
  assumes "create_user_row nid email hashed role name must db = (Inr u, db')"
  shows "effect cfg jw (db, is) (db', is)"
proof -
  define v where "v = \<lparr>us_id = nid, us_email = normalise_email email, us_full_name = name, us_hashed_password = hashed,
       us_role = role_value role, us_is_active = True, us_failed_login_count = 0, us_locked_until = None,
       us_last_login_at = None, us_must_change_password = must\<rparr>"
  have "us_id v \<notin> set (map fst (id_users db))" "us_email v \<notin> set (map (us_email \<circ> snd) (id_users db))"
    "db' = db\<lparr>id_users := id_users db @ [(us_id v, v)]\<rparr>"
    using assms by (auto simp: create_user_row_def insert_user_def split: if_splits simp flip: v_def)
  then show ?thesis using ef_insert by metis
qed

lemma last_admin_guard:
  assumes "refuse_if_last_admin uid verb db = Inr x"
  shows "\<exists>a\<in>set (map snd (id_users db)). is_active_admin a \<and> us_id a \<noteq> uid"
  using assms by (auto simp: refuse_if_last_admin_def filter_empty_conv split: if_splits)

lemma set_role_effects:
  assumes "well_keyed_db db" "set_role now uid role db = (Inr v, db')"
  shows "effect cfg jw (db, is) (db', is) \<and> map_of (id_users db') uid = Some v"
proof -
  obtain u where u: "map_of (id_users db) uid = Some u" "v = u\<lparr>us_role := role_value role\<rparr>"
      "db' = snd (revoke_all_for_user now uid (put_user v db))"
      "us_role u = role_value ROLE_ADMIN \<and> role \<noteq> ROLE_ADMIN \<Longrightarrow> \<exists>x. refuse_if_last_admin (us_id u) ''demote'' db = Inr x"
    using assms(2) by (auto simp: set_role_def Let_def get_or_raise_def logout_everywhere_def split: sum.splits option.splits if_splits)
  have uid: "us_id u = uid" by (rule well_keyed_user [OF assms(1) u(1)])
  have "effect cfg jw (db, is) (snd (revoke_all_for_user now (us_id u) (put_user v db)), is)"
  proof (rule ef_regrade)
    show "map_of (id_users db) (us_id u) = Some u" using u(1) uid by simp
    assume "is_active_admin u \<and> \<not> is_active_admin v"
    then have "us_role u = role_value ROLE_ADMIN \<and> role \<noteq> ROLE_ADMIN" by (auto simp: is_active_admin_def u(2))
    then show "\<exists>a\<in>set (map snd (id_users db)). is_active_admin a \<and> us_id a \<noteq> us_id u"
      using u(4) last_admin_guard by blast
  qed (simp_all add: u(2))
  then show ?thesis using u(2,3) uid by simp
qed

lemma set_active_effects:
  assumes "well_keyed_db db" "set_active now uid b db = (Inr v, db')"
  shows "effect cfg jw (db, is) (db', is)"
proof -
  obtain u where u: "map_of (id_users db) uid = Some u" "v = u\<lparr>us_is_active := b\<rparr>"
      "db' = (if b then put_user v db else snd (revoke_all_for_user now uid (put_user v db)))"
      "\<not> b \<and> us_role u = role_value ROLE_ADMIN \<Longrightarrow> \<exists>x. refuse_if_last_admin (us_id u) ''deactivate'' db = Inr x"
    using assms(2) by (auto simp: set_active_def Let_def get_or_raise_def logout_everywhere_def split: sum.splits option.splits if_splits)
  have uid: "us_id u = uid" by (rule well_keyed_user [OF assms(1) u(1)])
  show ?thesis
  proof (cases b)
    case True
    then show ?thesis using ef_activate [OF u(1)] u(2,3) by simp
  next
    case False
    have "effect cfg jw (db, is) (snd (revoke_all_for_user now (us_id u) (put_user v db)), is)"
    proof (rule ef_regrade)
      show "map_of (id_users db) (us_id u) = Some u" using u(1) uid by simp
      assume "is_active_admin u \<and> \<not> is_active_admin v"
      then show "\<exists>a\<in>set (map snd (id_users db)). is_active_admin a \<and> us_id a \<noteq> us_id u"
        using u(4) False last_admin_guard by (auto simp: is_active_admin_def)
    qed (simp_all add: u(2))
    then show ?thesis using u(3) uid False by simp
  qed
qed

subsection \<open>Effects keep the tables keyed\<close>

lemma update_same_key:
  "map_of al k = Some u \<Longrightarrow> map fst (AList.update k v al) = map fst al"
  "map_of al k = Some u \<Longrightarrow> f v = f u \<Longrightarrow> map (f \<circ> snd) (AList.update k v al) = map (f \<circ> snd) al"
  by (induction al) (auto split: if_splits)

lemma put_user_keyed:
  assumes "well_keyed_db db" "map_of (id_users db) (us_id v) = Some u" "us_email v = us_email u"
  shows "well_keyed_db (put_user v db)"
proof -
  have "\<forall>(k, u)\<in>set (AList.update (us_id v) v (id_users db)). us_id u = k"
    using assms(1) by (auto simp: well_keyed_db_def dest!: set_update)
  then show ?thesis
    using assms update_same_key(1) [OF assms(2)] update_same_key(2) [where f = us_email, OF assms(2,3)]
    by (simp add: well_keyed_db_def put_user_def)
qed

lemma put_session_keyed:
  assumes "well_keyed_db db" "map_of (id_sessions db) (rf_id t) = Some s"
  shows "well_keyed_db (put_session t db)"
proof -
  have "\<forall>(k, s)\<in>set (AList.update (rf_id t) t (id_sessions db)). rf_id s = k"
    using assms(1) by (auto simp: well_keyed_db_def dest!: set_update)
  then show ?thesis using assms update_same_key(1) [OF assms(2)] by (simp add: well_keyed_db_def put_session_def)
qed

lemma revoke_row_same [simp]: "rf_id (revoke_row now uid s) = rf_id s" "rf_user_id (revoke_row now uid s) = rf_user_id s"
  "rf_expires_at (revoke_row now uid s) = rf_expires_at s"
  by (simp_all add: revoke_row_def)

lemma revoke_all_keyed: "well_keyed_db db \<Longrightarrow> well_keyed_db (snd (revoke_all_for_user now uid db))"
  by (auto simp: well_keyed_db_def revoke_all_for_user_def split_beta comp_def)

lemma effect_keyed: "effect cfg jw s t \<Longrightarrow> well_keyed_db (fst s) \<Longrightarrow> well_keyed_db (fst t)"
proof (induction rule: effect.induct)
  case (ef_credentials db k u v "is")
  then have "us_id u = k" using well_keyed_user by simp
  then show ?case using ef_credentials by (simp add: put_user_keyed)
next
  case (ef_insert u db "is")
  then show ?case by (auto simp: well_keyed_db_def)
next
  case (ef_revoke db k s "is" now)
  then have "rf_id s = k" using well_keyed_session by simp
  then show ?case using ef_revoke by (simp add: put_session_keyed)
next
  case (ef_revoke_all db "is" now uid)
  then show ?case by (simp add: revoke_all_keyed)
next
  case (ef_open db u sid pair now j1 j2 "is" ua ip)
  then show ?case by (auto simp: well_keyed_db_def fresh_session_def)
next
  case (ef_activate db k u "is")
  then have "us_id u = k" using well_keyed_user by simp
  then show ?case using ef_activate by (simp add: put_user_keyed)
next
  case (ef_regrade db u v "is" now)
  then show ?case by (simp add: put_user_keyed revoke_all_keyed)
qed

lemma effects_keyed: "effects cfg jw s t \<Longrightarrow> well_keyed_db (fst s) \<Longrightarrow> well_keyed_db (fst t)"
  by (induction rule: rtranclp_induct) (auto dest: effect_keyed)

subsection \<open>The step refines the effects\<close>

lemma update_user_effects:
  assumes "well_keyed_db db" "update_user now uid r b db = (Inr v, db')"
  shows "effects cfg jw (db, is) (db', is)"
proof -
  obtain u where u: "map_of (id_users db) uid = Some u"
    using assms(2) by (cases "map_of (id_users db) uid") (auto simp: update_user_def get_or_raise_def)
  define p where "p = (case r of Some r \<Rightarrow> if role_value r \<noteq> us_role u then set_role now uid r db else (Inr u, db) | None \<Rightarrow> (Inr u, db))"
  obtain u1 db1 where p: "p = (Inr u1, db1)"
    using assms(2) u by (cases p; cases "fst p") (auto simp: update_user_def get_or_raise_def simp flip: p_def)
  have e1: "effects cfg jw (db, is) (db1, is)"
    using set_role_effects [OF assms(1)] p unfolding p_def by (fastforce split: option.splits if_splits)
  then have keyed: "well_keyed_db db1" using effects_keyed [OF e1] assms(1) by simp
  have "(case b of Some b \<Rightarrow> if b \<noteq> us_is_active u1 then set_active now uid b db1 else (Inr u1, db1) | None \<Rightarrow> (Inr u1, db1)) = (Inr v, db')"
    using assms(2) u p by (simp add: update_user_def get_or_raise_def flip: p_def)
  then have "effects cfg jw (db1, is) (db', is)"
    using set_active_effects [OF keyed] by (fastforce split: option.splits if_splits)
  then show ?thesis using e1 by (rule rtranclp_trans [rotated])
qed

lemma handle_effects:
  assumes env: "ae_settings env = cfg" "ae_jwt env = jw" and keyed: "well_keyed_db db" and run: "handle env now rq db = (r, db')"
  shows "effects cfg jw (db, is) (db', is @ issued_in r)"
proof (cases rq)
  case (RLogin email password ua ip ids)
  obtain q d where q: "login_endpoint env now ids email password ua ip db = (q, d)" by (rule prod.exhaust)
  then have "r = map_sum id (\<lambda>p. [issued_of p]) q \<and> db' = d"
    using run RLogin by (cases q) (auto simp: handle_def answer_def)
  then show ?thesis using login_endpoint_effects [OF env keyed q] by simp
next
  case (RRefresh t ids)
  then have "answer (\<lambda>p. [issued_of p]) (unit_of_work (refresh env now ids t db) db) = (r, db')" using run by (simp add: handle_def)
  from answer_uow_cases [OF this] show ?thesis
  proof (elim disjE exE conjE)
    fix p assume "refresh env now ids t db = (Inr p, db')" and r: "r = Inr [issued_of p]"
    from refresh_effects [OF env keyed this(1)] show ?thesis by (simp add: r issued_in_def)
  qed (simp add: issued_in_def)
next
  case (RLogout t)
  have "snd (logout env now t db) = db \<or> (\<exists>k. snd (logout env now t db) = snd (revoke now k db))"
    by (auto simp: logout_def split: sum.split)
  then show ?thesis using run RLogout revoke_effects [of cfg jw db "is" now] by (auto simp: handle_def issued_in_def)
next
  case (RLogoutEverywhere uid)
  then show ?thesis using run
    by (auto simp: handle_def issued_in_def logout_everywhere_def intro!: r_into_rtranclp ef_revoke_all)
next
  case (RChangePassword uid old new)
  then have "answer (\<lambda>u. []) (unit_of_work (change_password env now uid old new db) db) = (r, db')" using run by (simp add: handle_def)
  from answer_uow_cases [OF this] show ?thesis using change_password_effects [OF keyed] by (auto simp: issued_in_def)
next
  case (RCreateUser nid email password role name)
  then have "answer (\<lambda>u. []) (unit_of_work (create_user env nid email password role name db) db) = (r, db')" using run by (simp add: handle_def)
  from answer_uow_cases [OF this] show ?thesis
    using create_row_effect by (fastforce simp: issued_in_def create_user_def split: option.splits sum.splits)
next
  case (RUpdateUser uid ro b)
  then have "answer (\<lambda>u. []) (unit_of_work (update_user now uid ro b db) db) = (r, db')" using run by (simp add: handle_def)
  from answer_uow_cases [OF this] show ?thesis using update_user_effects [OF keyed] by (auto simp: issued_in_def)
next
  case (RBootstrap nid)
  then have "answer (\<lambda>u. []) (unit_of_work (bootstrap_admin env nid db) db) = (r, db')" using run by (simp add: handle_def)
  from answer_uow_cases [OF this] show ?thesis
    using create_row_effect by (fastforce simp: issued_in_def bootstrap_admin_def Let_def split: option.splits sum.splits prod.splits)
qed

lemma step_effects:
  assumes "account_step cfg jw s t" "well_keyed_db (fst s)"
  shows "effects cfg jw s t"
  using assms(1)
proof cases
  case (1 h now rq db r db' "is")
  have "effects cfg jw (db, is) (db', is @ issued_in r)"
    by (rule handle_effects [OF _ _ _ 1(3)]) (use assms(2) 1(1) in simp_all)
  then show ?thesis using 1 by simp
qed

lemma steps_effects:
  assumes "account_steps cfg jw s t" "well_keyed_db (fst s)"
  shows "effects cfg jw s t \<and> well_keyed_db (fst t)"
  using assms
proof (induction rule: rtranclp_induct)
  case (step t u)
  then have "effects cfg jw t u" using step_effects by blast
  then show ?case using step effects_keyed by (meson rtranclp_trans)
qed simp

lemma empty_keyed: "well_keyed_db empty_identity"
  by (simp add: well_keyed_db_def empty_identity_def)

lemma reachable_effects:
  "reachable_accounts cfg jw s \<Longrightarrow> effects cfg jw (empty_identity, []) s \<and> well_keyed_db (fst s)"
  unfolding reachable_accounts_def using steps_effects [of cfg jw "(empty_identity, [])" s] empty_keyed by simp

subsection \<open>The invariant of the reachable states\<close>

text \<open>
  Every issued pair has its session row, and while that row is not revoked the account exists, is active and
  has the role the pair was issued with.
\<close>

definition stands_for :: "identity_db \<Rightarrow> 'tok issued \<Rightarrow> bool" where
  "stands_for db i \<longleftrightarrow> (\<exists>u. map_of (id_users db) (iu_subject i) = Some u \<and> us_is_active u \<and> us_role u = iu_role i)"

definition issued_ok :: "security_settings \<Rightarrow> 'tok jwt \<Rightarrow> identity_db \<Rightarrow> 'tok issued \<Rightarrow> bool" where
  "issued_ok cfg jw db i \<longleftrightarrow>
     (\<exists>s. map_of (id_sessions db) (iu_session i) = Some s \<and> rf_user_id s = iu_subject i
        \<and> (rf_revoked_at s = None \<longrightarrow> stands_for db i))
   \<and> (\<exists>t0 j1 j2 email. iu_pair i = issue_pair jw cfg t0 (iu_session i, j1, j2) (iu_subject i) email (iu_role i) [])"

definition dead :: "identity_db \<Rightarrow> string \<Rightarrow> bool" where
  "dead db k \<longleftrightarrow> (\<exists>s. map_of (id_sessions db) k = Some s \<and> rf_revoked_at s \<noteq> None)"

lemma issued_ok_alive: "issued_ok cfg jw db i \<Longrightarrow> dead db (iu_session i) \<or> stands_for db i"
  by (auto simp: issued_ok_def dead_def)

lemma stands_for_same_users:
  "id_users db' = id_users db \<Longrightarrow> stands_for db' i = stands_for db i"
  by (simp add: stands_for_def)

lemma revoke_row_revoked: "rf_revoked_at s \<noteq> None \<Longrightarrow> rf_revoked_at (revoke_row now uid s) \<noteq> None"
  by (simp add: revoke_row_def)

lemma issued_ok_carry:
  assumes "issued_ok cfg jw db i"
    and "\<And>s. map_of (id_sessions db) (iu_session i) = Some s \<Longrightarrow> \<exists>s'. map_of (id_sessions db') (iu_session i) = Some s'
      \<and> rf_user_id s' = rf_user_id s \<and> (rf_revoked_at s \<noteq> None \<longrightarrow> rf_revoked_at s' \<noteq> None)"
    and "stands_for db i \<Longrightarrow> stands_for db' i"
  shows "issued_ok cfg jw db' i"
proof -
  obtain s where s: "map_of (id_sessions db) (iu_session i) = Some s" "rf_user_id s = iu_subject i"
      "rf_revoked_at s = None \<longrightarrow> stands_for db i" using assms(1) by (auto simp: issued_ok_def)
  obtain s' where "map_of (id_sessions db') (iu_session i) = Some s'" "rf_user_id s' = rf_user_id s"
      "rf_revoked_at s \<noteq> None \<longrightarrow> rf_revoked_at s' \<noteq> None" using assms(2) [OF s(1)] by blast
  then show ?thesis using s assms(1,3) by (auto simp: issued_ok_def)
qed

lemma effect_issued_ok:
  "effect cfg jw s t \<Longrightarrow> well_keyed_db (fst s) \<Longrightarrow> \<forall>i\<in>set (snd s). issued_ok cfg jw (fst s) i
    \<Longrightarrow> \<forall>i\<in>set (snd t). issued_ok cfg jw (fst t) i"
proof (induction rule: effect.induct)
  case (ef_credentials db k u v "is")
  then have "us_id u = k" using well_keyed_user by simp
  then have "stands_for (put_user v db) i" if "stands_for db i" for i :: "'tok issued"
    using that ef_credentials by (auto simp: stands_for_def)
  then show ?case using ef_credentials.prems by (auto intro!: issued_ok_carry [of cfg jw db _ "put_user v db"])
next
  case (ef_insert u db "is")
  then have "map_of (id_users db) (us_id u) = None" by (simp add: map_of_eq_None_iff)
  then have "stands_for (db\<lparr>id_users := id_users db @ [(us_id u, u)]\<rparr>) i" if "stands_for db i" for i :: "'tok issued"
    using that by (auto simp: stands_for_def map_add_def)
  then show ?case using ef_insert.prems
    by (auto intro!: issued_ok_carry [of cfg jw db _ "db\<lparr>id_users := id_users db @ [(us_id u, u)]\<rparr>"])
next
  case (ef_revoke db k s "is" now)
  then have "rf_id s = k" using well_keyed_session by simp
  moreover have "stands_for db i \<Longrightarrow> stands_for (put_session (s\<lparr>rf_revoked_at := Some now\<rparr>) db) i" for i :: "'tok issued"
    by (simp add: stands_for_def)
  ultimately show ?case using ef_revoke
    by (auto intro!: issued_ok_carry [of cfg jw db _ "put_session (s\<lparr>rf_revoked_at := Some now\<rparr>) db"])
next
  case (ef_revoke_all db "is" now uid)
  have "stands_for db i \<Longrightarrow> stands_for (snd (revoke_all_for_user now uid db)) i" for i :: "'tok issued"
    by (simp add: stands_for_def)
  then show ?case using ef_revoke_all.prems(2) revoke_row_revoked [of _ now uid]
    by (auto intro!: issued_ok_carry [of cfg jw db _ "snd (revoke_all_for_user now uid db)"])
next
  case (ef_open db u sid pair now j1 j2 "is" ua ip)
  let ?db = "db\<lparr>id_sessions := id_sessions db @ [(sid, fresh_session cfg now (us_id u) sid ua ip)]\<rparr>"
  have sid: "map_of (id_sessions db) sid = None" using ef_open.hyps(3) by (simp add: map_of_eq_None_iff)
  have "issued_ok cfg jw ?db i" if "i \<in> set is" for i
    using ef_open.prems(2) that stands_for_same_users [of ?db db i] by (auto simp: issued_ok_def map_add_def)
  moreover have "issued_ok cfg jw ?db (issued_of (u, pair))"
  proof -
    have "pr_session_id pair = sid" by (simp add: ef_open.hyps(4) issue_pair_def Let_def)
    then show ?thesis using sid ef_open.hyps(1,2,4)
      by (auto simp: issued_ok_def issued_of_def fresh_session_def stands_for_def map_add_def)
  qed
  ultimately show ?case by auto
next
  case (ef_activate db k u "is")
  then have "us_id u = k" using well_keyed_user by simp
  then have "stands_for (put_user (u\<lparr>us_is_active := True\<rparr>) db) i" if "stands_for db i" for i :: "'tok issued"
    using that ef_activate by (auto simp: stands_for_def)
  then show ?case using ef_activate.prems
    by (auto intro!: issued_ok_carry [of cfg jw db _ "put_user (u\<lparr>us_is_active := True\<rparr>) db"])
next
  case (ef_regrade db u v "is" now)
  let ?db = "snd (revoke_all_for_user now (us_id u) (put_user v db))"
  have "issued_ok cfg jw ?db i" if i: "i \<in> set is" for i
  proof -
    obtain s where s: "map_of (id_sessions db) (iu_session i) = Some s" "rf_user_id s = iu_subject i"
        "rf_revoked_at s = None \<longrightarrow> stands_for db i" using ef_regrade.prems(2) i by (auto simp: issued_ok_def)
    have "stands_for ?db i" if "rf_revoked_at (revoke_row now (us_id u) s) = None"
    proof -
      have "rf_revoked_at s = None" "iu_subject i \<noteq> us_id u" using that s(2) by (auto simp: revoke_row_def split: if_splits)
      then show ?thesis using s(3) ef_regrade.hyps(2) by (auto simp: stands_for_def)
    qed
    then show ?thesis using s ef_regrade.prems(2) i by (auto simp: issued_ok_def)
  qed
  then show ?case by simp
qed

lemma effects_issued_ok:
  "effects cfg jw s t \<Longrightarrow> well_keyed_db (fst s) \<Longrightarrow> \<forall>i\<in>set (snd s). issued_ok cfg jw (fst s) i
    \<Longrightarrow> \<forall>i\<in>set (snd t). issued_ok cfg jw (fst t) i"
proof (induction rule: rtranclp_induct)
  case (step t u)
  then show ?case using effect_issued_ok effects_keyed by blast
qed simp

lemma reachable_issued_ok: "reachable_accounts cfg jw (db, is) \<Longrightarrow> i \<in> set is \<Longrightarrow> issued_ok cfg jw db i"
  using effects_issued_ok [of cfg jw "(empty_identity, [])" "(db, is)"] reachable_effects [of cfg jw "(db, is)"] empty_keyed by simp

lemma reachable_step:
  assumes "reachable_accounts cfg jw (db, is)" "ae_settings env = cfg" "ae_jwt env = jw" "handle env now rq db = (r, db')"
  shows "reachable_accounts cfg jw (db', is @ issued_in r)"
proof -
  have "env = \<lparr>ae_settings = cfg, ae_hasher = ae_hasher env, ae_jwt = jw\<rparr>" using assms(2,3) by simp
  then have "account_step cfg jw (db, is) (db', is @ issued_in r)" using assms(4) account_step.intros by metis
  then show ?thesis using assms(1) unfolding reachable_accounts_def by (rule rtranclp.rtrancl_into_rtrancl [rotated])
qed

subsection \<open>A dead session stays dead\<close>

lemma effect_dead: "effect cfg jw s t \<Longrightarrow> well_keyed_db (fst s) \<Longrightarrow> dead (fst s) k \<Longrightarrow> dead (fst t) k"
proof (induction rule: effect.induct)
  case (ef_revoke db k' s "is" now)
  then have "rf_id s = k'" using well_keyed_session by simp
  then show ?case using ef_revoke by (auto simp: dead_def)
next
  case (ef_revoke_all db "is" now uid)
  then show ?case using revoke_row_revoked [of _ now uid] by (fastforce simp: dead_def)
next
  case (ef_regrade db u v "is" now)
  then show ?case using revoke_row_revoked [of _ now "us_id u"] by (fastforce simp: dead_def)
qed (auto simp: dead_def map_add_def)

lemma effects_dead: "effects cfg jw s t \<Longrightarrow> well_keyed_db (fst s) \<Longrightarrow> dead (fst s) k \<Longrightarrow> dead (fst t) k"
proof (induction rule: rtranclp_induct)
  case (step t u)
  then show ?case using effect_dead effects_keyed by blast
qed simp

lemma dead_invalid: "dead db k \<Longrightarrow> get_valid now k db = None"
  by (auto simp: dead_def get_valid_def session_is_valid_def)

text \<open>What an issued token decodes to, under the type it was issued for.\<close>

lemma issued_decodes:
  assumes "documented_jwt jw" "issued_ok cfg jw db i"
    and "decode_token jw cfg now (pr_access_token (iu_pair i)) ''access'' = Inr c
      \<or> decode_token jw cfg now (pr_refresh_token (iu_pair i)) ''refresh'' = Inr c"
  shows "tc_session_id c = iu_session i \<and> tc_subject c = iu_subject i \<and> iu_role i = role_value (tc_role c)"
proof -
  obtain t0 j1 j2 email where p: "iu_pair i = issue_pair jw cfg t0 (iu_session i, j1, j2) (iu_subject i) email (iu_role i) []"
    using assms(2) by (auto simp: issued_ok_def)
  show ?thesis using assms(3) encode_token_accepted [OF assms(1)] unfolding p issue_pair_def Let_def by auto
qed

lemma dead_token_refused:
  assumes "documented_jwt jw" "issued_ok cfg jw db0 i" "dead db (iu_session i)" "ss_verify_session_on_request cfg"
    and "ae_settings env = cfg" "ae_jwt env = jw"
  shows "(\<exists>m. get_current_claims env now (Some (pr_access_token (iu_pair i))) db = Inl m)
    \<and> (\<exists>m. refresh env now ids (pr_refresh_token (iu_pair i)) db = (Inl m, db))"
proof
  show "\<exists>m. get_current_claims env now (Some (pr_access_token (iu_pair i))) db = Inl m"
  proof (cases "decode_token jw cfg now (pr_access_token (iu_pair i)) ''access''")
    case (Inr c)
    then have "tc_session_id c = iu_session i" using issued_decodes [OF assms(1,2)] by blast
    then show ?thesis using Inr dead_invalid [OF assms(3)] assms(4-6) by (simp add: get_current_claims_def)
  qed (simp add: get_current_claims_def assms(5,6))
  show "\<exists>m. refresh env now ids (pr_refresh_token (iu_pair i)) db = (Inl m, db)"
  proof (cases "decode_token jw cfg now (pr_refresh_token (iu_pair i)) ''refresh''")
    case (Inr c)
    then have "tc_session_id c = iu_session i" using issued_decodes [OF assms(1,2)] by blast
    then show ?thesis using Inr dead_invalid [OF assms(3)] assms(5,6) by (simp add: refresh_def)
  qed (simp add: refresh_def assms(5,6))
qed

lemma refresh_kills:
  assumes "ae_settings env = cfg" "ae_jwt env = jw" "well_keyed_db db" "refresh env now ids t db = (Inr p, db')"
    and "decode_token jw cfg now t ''refresh'' = Inr c"
  shows "dead db' (tc_session_id c)"
proof -
  obtain stored u where r: "get_valid now (tc_session_id c) db = Some stored" "map_of (id_users db) (tc_subject c) = Some u"
      "us_is_active u" "open_session env now ids u [] [] (snd (revoke now (tc_session_id c) db)) = (Inr p, db')"
    using refresh_success [OF assms(4)] assms(1,2,5) by auto
  let ?db1 = "snd (revoke now (tc_session_id c) db)"
  have st: "map_of (id_sessions db) (tc_session_id c) = Some stored" "rf_revoked_at stored = None"
    using r(1) by (auto simp: get_valid_def session_is_valid_def split: option.splits if_splits)
  then have db1: "?db1 = put_session (stored\<lparr>rf_revoked_at := Some now\<rparr>) db" by (simp add: revoke_def)
  have "rf_id stored = tc_session_id c" by (rule well_keyed_session [OF assms(3) st(1)])
  then have d1: "dead ?db1 (tc_session_id c)" unfolding db1 by (simp add: dead_def)
  have k1: "well_keyed_db ?db1" unfolding db1 by (rule put_session_keyed [OF assms(3)]) (use st(1) \<open>rf_id stored = _\<close> in simp)
  have "id_users ?db1 = id_users db" unfolding db1 by simp
  then have "effect cfg jw (?db1, []) (db', [issued_of p])"
    using open_session_effect [OF assms(1,2) r(4), of "[]"] r(2,3) well_keyed_user [OF assms(3) r(2)] by simp
  then show ?thesis using effect_dead [of cfg jw "(?db1, [])" "(db', [issued_of p])"] d1 k1 by simp
qed

lemma revoke_all_dead:
  assumes "issued_ok cfg jw db i" "id_sessions db0 = id_sessions db"
  shows "dead (snd (revoke_all_for_user now (iu_subject i) db0)) (iu_session i)"
proof -
  obtain s where s: "map_of (id_sessions db) (iu_session i) = Some s" "rf_user_id s = iu_subject i"
    using assms(1) by (auto simp: issued_ok_def)
  have "rf_revoked_at (revoke_row now (iu_subject i) s) \<noteq> None" by (simp add: revoke_row_def s(2))
  then show ?thesis by (simp add: dead_def s(1) assms(2))
qed

lemma update_user_result:
  assumes "well_keyed_db db" "update_user now uid ro b db = (Inr v, db')"
  shows "map_of (id_users db') uid = Some v \<and> (\<forall>r. ro = Some r \<longrightarrow> us_role v = role_value r) \<and> (\<forall>x. b = Some x \<longrightarrow> us_is_active v = x)"
proof -
  obtain u where u: "map_of (id_users db) uid = Some u"
    using assms(2) by (cases "map_of (id_users db) uid") (auto simp: update_user_def get_or_raise_def)
  define p where "p = (case ro of Some r \<Rightarrow> if role_value r \<noteq> us_role u then set_role now uid r db else (Inr u, db) | None \<Rightarrow> (Inr u, db))"
  obtain u1 db1 where p: "p = (Inr u1, db1)"
    using assms(2) u by (cases p; cases "fst p") (auto simp: update_user_def get_or_raise_def simp flip: p_def)
  have "set_role now uid r db = (Inr u1, db1) \<Longrightarrow> us_role u1 = role_value r" for r
    by (auto simp: set_role_def Let_def get_or_raise_def u split: sum.splits if_splits)
  then have u1: "map_of (id_users db1) uid = Some u1" "\<forall>r. ro = Some r \<longrightarrow> us_role u1 = role_value r"
    using p u set_role_effects [OF assms(1), of now uid _ u1 db1] unfolding p_def by (fastforce split: option.splits if_splits)+
  have k1: "well_keyed_db db1"
    using p assms(1) set_role_effects [OF assms(1), of now uid _ u1 db1] effect_keyed [of undefined undefined "(db, [])" "(db1, [])"]
    unfolding p_def by (fastforce split: option.splits if_splits)
  have uid: "us_id u1 = uid" by (rule well_keyed_user [OF k1 u1(1)])
  have sa: "set_active now uid x db1 = (Inr v, db') \<Longrightarrow> map_of (id_users db') uid = Some v \<and> us_role v = us_role u1 \<and> us_is_active v = x" for x
    by (auto simp: set_active_def Let_def get_or_raise_def u1(1) uid logout_everywhere_def split: sum.splits if_splits)
  have "(case b of Some b \<Rightarrow> if b \<noteq> us_is_active u1 then set_active now uid b db1 else (Inr u1, db1) | None \<Rightarrow> (Inr u1, db1)) = (Inr v, db')"
    using assms(2) u p by (simp add: update_user_def get_or_raise_def flip: p_def)
  then show ?thesis using sa u1 by (auto split: option.splits if_splits)
qed

text \<open>The requests that end a pair: its own rotation or sign-out, and what ends every session of its account.\<close>

definition signs_off :: "'tok auth_env \<Rightarrow> int \<Rightarrow> 'tok issued \<Rightarrow> 'tok request \<Rightarrow> identity_db \<Rightarrow> bool" where
  "signs_off env now i rq db =
     (case rq of
        RRefresh t ids \<Rightarrow> t = pr_refresh_token (iu_pair i)
      | RLogout t \<Rightarrow> t = pr_refresh_token (iu_pair i) \<and> fst (logout env now t db)
      | RLogoutEverywhere uid \<Rightarrow> uid = iu_subject i
      | RChangePassword uid old new \<Rightarrow> uid = iu_subject i
      | RUpdateUser uid ro b \<Rightarrow> uid = iu_subject i \<and> (b = Some False \<or> ro \<noteq> None \<and> map_option role_value ro \<noteq> Some (iu_role i))
      | _ \<Rightarrow> False)"

subsection \<open>Properties\<close>

text \<open>
  C15. Authentication is current: in every state requests can reach, an access token that was issued passes the
  check of a request only while its account exists, is active and still has the role the token claims, so
  deactivation and a change of role take effect with the next request and not at the expiry of the token.
\<close>

theorem authenticated_principal_is_current:
  assumes "documented_jwt jw" "ss_verify_session_on_request cfg" "reachable_accounts cfg jw (db, is)" "i \<in> set is"
    and "ae_settings env = cfg" "ae_jwt env = jw"
    and "get_current_claims env now (Some (pr_access_token (iu_pair i))) db = Inr c"
  shows "\<exists>u. map_of (id_users db) (tc_subject c) = Some u \<and> us_is_active u \<and> us_role u = role_value (tc_role c)
    \<and> tc_subject c = iu_subject i"
proof -
  have ok: "issued_ok cfg jw db i" by (rule reachable_issued_ok [OF assms(3,4)])
  have d: "decode_token jw cfg now (pr_access_token (iu_pair i)) ''access'' = Inr c"
    using assms(5-7) by (auto simp: get_current_claims_def bind_res_Inr_iff split: if_splits)
  then have c: "tc_subject c = iu_subject i" "iu_role i = role_value (tc_role c)" using issued_decodes [OF assms(1) ok] by blast+
  have "\<not> dead db (iu_session i)"
  proof
    assume "dead db (iu_session i)"
    from dead_token_refused [OF assms(1) ok this assms(2,5,6), of now] show False using assms(7) by simp
  qed
  then show ?thesis using issued_ok_alive [OF ok] c by (auto simp: stands_for_def)
qed

text \<open>
  C16. Signing off is immediate and final: once a refresh token has been rotated or signed out, or its account was
  signed out everywhere, changed its password, was given another role or deactivated, neither token of the
  pair is ever accepted again, whatever requests follow, and presenting the refresh token changes nothing.
\<close>

theorem sign_off_is_final:
  assumes "documented_jwt jw" "ss_verify_session_on_request cfg" "reachable_accounts cfg jw (db, is)" "i \<in> set is"
    and "ae_settings env = cfg" "ae_jwt env = jw" "handle env now rq db = (Inr out, db1)"
    and "signs_off env now i rq db"
    and "account_steps cfg jw (db1, is @ out) (db2, is2)" "ae_settings env2 = cfg" "ae_jwt env2 = jw"
  shows "(\<exists>m. get_current_claims env2 now2 (Some (pr_access_token (iu_pair i))) db2 = Inl m)
    \<and> (\<exists>m. refresh env2 now2 ids2 (pr_refresh_token (iu_pair i)) db2 = (Inl m, db2))"
proof -
  have keyed: "well_keyed_db db" using reachable_effects [OF assms(3)] by simp
  have ok: "issued_ok cfg jw db i" by (rule reachable_issued_ok [OF assms(3,4)])
  have reach1: "reachable_accounts cfg jw (db1, is @ out)"
    using reachable_step [OF assms(3,5-7)] by (simp add: issued_in_def)
  have ok1: "issued_ok cfg jw db1 i" by (rule reachable_issued_ok [OF reach1]) (simp add: assms(4))
  have updated: "dead db1 (iu_session i)"
    if rq: "rq = RUpdateUser (iu_subject i) ro b" and ch: "(\<exists>r. ro = Some r \<and> role_value r \<noteq> iu_role i) \<or> b = Some False" for ro b
  proof -
    have "answer (\<lambda>u. []) (unit_of_work (update_user now (iu_subject i) ro b db) db) = (Inr out, db1)"
      using assms(7) rq by (simp add: handle_def)
    then obtain v where "update_user now (iu_subject i) ro b db = (Inr v, db1)" using answer_uow_cases by fastforce
    from update_user_result [OF keyed this] have "\<not> stands_for db1 i" using ch by (auto simp: stands_for_def)
    then show ?thesis using issued_ok_alive [OF ok1] by blast
  qed
  have d1: "dead db1 (iu_session i)"
  proof (cases rq)
    case (RRefresh t ids)
    then have t: "t = pr_refresh_token (iu_pair i)" using assms(8) by (simp add: signs_off_def)
    with RRefresh have "answer (\<lambda>p. [issued_of p]) (unit_of_work (refresh env now ids (pr_refresh_token (iu_pair i)) db) db) = (Inr out, db1)"
      using assms(7) by (simp add: handle_def)
    then obtain p where p: "refresh env now ids (pr_refresh_token (iu_pair i)) db = (Inr p, db1)"
      using answer_uow_cases by fastforce
    obtain c where c: "decode_token jw cfg now (pr_refresh_token (iu_pair i)) ''refresh'' = Inr c"
      using refresh_success [OF p] assms(5,6) by blast
    then have "tc_session_id c = iu_session i" using issued_decodes [OF assms(1) ok] by blast
    then show ?thesis using refresh_kills [OF assms(5,6) keyed p c] by simp
  next
    case (RLogout t)
    then have rq: "rq = RLogout (pr_refresh_token (iu_pair i))" and lo: "fst (logout env now (pr_refresh_token (iu_pair i)) db)"
      using assms(8) by (auto simp: signs_off_def)
    then obtain c where c: "decode_token jw cfg now (pr_refresh_token (iu_pair i)) ''refresh'' = Inr c"
        "fst (revoke now (tc_session_id c) db)" by (auto simp: logout_def assms(5,6) split: sum.splits)
    then have sid: "tc_session_id c = iu_session i" using issued_decodes [OF assms(1) ok] by blast
    have "db1 = snd (revoke now (iu_session i) db)" using assms(7) rq c(1) sid by (simp add: handle_def logout_def assms(5,6))
    moreover obtain s where s: "map_of (id_sessions db) (iu_session i) = Some s" "rf_revoked_at s = None"
      using c(2) sid by (auto simp: revoke_def split: option.splits if_splits)
    ultimately show ?thesis using well_keyed_session [OF keyed s(1)] by (simp add: revoke_def dead_def)
  next
    case (RLogoutEverywhere uid)
    then show ?thesis using assms(7,8) revoke_all_dead [OF ok refl] by (auto simp: handle_def logout_everywhere_def signs_off_def)
  next
    case (RChangePassword uid old new)
    then have "answer (\<lambda>u. []) (unit_of_work (change_password env now (iu_subject i) old new db) db) = (Inr out, db1)"
      using assms(7,8) by (simp add: handle_def signs_off_def)
    then obtain x where "change_password env now (iu_subject i) old new db = (Inr x, db1)" using answer_uow_cases by fastforce
    then obtain u where "db1 = snd (revoke_all_for_user now (iu_subject i) (put_user u db))"
      by (auto simp: change_password_def Let_def get_or_raise_def logout_everywhere_def split: sum.splits option.splits if_splits)
    then show ?thesis using revoke_all_dead [OF ok, of "put_user u db"] by simp
  next
    case (RUpdateUser uid ro b)
    then show ?thesis using assms(8) updated [of ro b] by (auto simp: signs_off_def)
  qed (use assms(8) in \<open>simp_all add: signs_off_def\<close>)
  have "well_keyed_db db1" using reachable_effects [OF reach1] by simp
  then have "dead db2 (iu_session i)"
    using steps_effects [OF assms(9)] effects_dead [of cfg jw "(db1, is @ out)" "(db2, is2)"] d1 by simp
  then show ?thesis by (rule dead_token_refused [OF assms(1) ok _ assms(2,10,11)])
qed

subsubsection \<open>A concrete history\<close>

definition demo_env :: "(token_payload \<times> string \<times> string) auth_env" where
  "demo_env = \<lparr>ae_settings = default_security_settings,
     ae_hasher = \<lparr>ph_hash = (\<lambda>p. p), ph_verify = (\<lambda>h p. if h = p then ArgonOk True else VerifyMismatchError),
       ph_check_needs_rehash = (\<lambda>h. ArgonOk False)\<rparr>,
     ae_jwt = transparent_jwt\<rparr>"

fun run_requests :: "'tok auth_env \<Rightarrow> (int \<times> 'tok request) list \<Rightarrow> identity_db \<times> 'tok issued list \<Rightarrow> identity_db \<times> 'tok issued list" where
  "run_requests env [] s = s"
| "run_requests env (nr # rqs) s =
     (case handle env (fst nr) (snd nr) (fst s) of (r, db) \<Rightarrow> run_requests env rqs (db, snd s @ issued_in r))"

lemma run_requests_steps: "account_steps (ae_settings env) (ae_jwt env) s (run_requests env rqs s)"
proof (induction rqs arbitrary: s)
  case (Cons nr rqs)
  obtain r db where h: "handle env (fst nr) (snd nr) (fst s) = (r, db)" by (rule prod.exhaust)
  have "env = \<lparr>ae_settings = ae_settings env, ae_hasher = ae_hasher env, ae_jwt = ae_jwt env\<rparr>" by simp
  then have "account_step (ae_settings env) (ae_jwt env) (fst s, snd s) (db, snd s @ issued_in r)"
    using h account_step.intros by metis
  then have "account_step (ae_settings env) (ae_jwt env) s (db, snd s @ issued_in r)" by simp
  then show ?case using Cons.IH [of "(db, snd s @ issued_in r)"] h by (simp add: converse_rtranclp_into_rtranclp)
qed simp

definition demo_login :: "int \<times> (token_payload \<times> string \<times> string) request" where
  "demo_login = (micros 1000, RLogin ''admin@adoptimizer.dev'' ''Adm1n!ChangeMe'' [] [] (''s1'', ''j1'', ''j2''))"

definition demo_signed_in :: "identity_db \<times> (token_payload \<times> string \<times> string) issued list" where
  "demo_signed_in = run_requests demo_env [(micros 0, RBootstrap ''u1''), demo_login] (empty_identity, [])"

definition demo_issued :: "(token_payload \<times> string \<times> string) issued" where
  "demo_issued = hd (snd demo_signed_in)"

lemma demo_reachable:
  "reachable_accounts default_security_settings transparent_jwt (fst demo_signed_in, snd demo_signed_in)"
  using run_requests_steps [of demo_env "(empty_identity, [])" "[(micros 0, RBootstrap ''u1''), demo_login]"]
  by (simp add: reachable_accounts_def demo_signed_in_def demo_env_def)

lemma demo_claims: "get_current_claims demo_env (micros 1001) (Some (pr_access_token (iu_pair demo_issued))) (fst demo_signed_in)
    = Inr \<lparr>tc_subject = ''u1'', tc_email = ''admin@adoptimizer.dev'', tc_role = ROLE_ADMIN, tc_session_id = ''s1'',
        tc_issued_at = micros 1000, tc_expires_at = micros 2800, tc_token_type = ''access'', tc_scopes = []\<rparr>"
  by code_simp

lemma demo_facts: "snd demo_signed_in \<noteq> []" "iu_subject demo_issued = ''u1''"
  by code_simp+

lemma demo_member: "demo_issued \<in> set (snd demo_signed_in)"
  using demo_facts(1) by (simp add: demo_issued_def)

lemma demo_env_settings: "ss_verify_session_on_request default_security_settings"
    "ae_settings demo_env = default_security_settings" "ae_jwt demo_env = transparent_jwt"
  by (simp_all add: demo_env_def default_security_settings_def)

theorem authenticated_principal_is_current_witness:
  "\<exists>u. map_of (id_users (fst demo_signed_in)) ''u1'' = Some u \<and> us_is_active u \<and> us_role u = ''admin''"
  using authenticated_principal_is_current [OF documented_transparent_jwt demo_env_settings(1) demo_reachable demo_member
      demo_env_settings(2,3) demo_claims]
  by (simp add: demo_facts(2))

text \<open>Signed out everywhere, signed in again: the first pair stays dead.\<close>

definition demo_signed_out :: "identity_db \<times> (token_payload \<times> string \<times> string) issued list" where
  "demo_signed_out = (snd (handle demo_env (micros 1002) (RLogoutEverywhere ''u1'') (fst demo_signed_in)), snd demo_signed_in @ [])"

definition demo_again :: "identity_db \<times> (token_payload \<times> string \<times> string) issued list" where
  "demo_again = run_requests demo_env
     [(micros 1003, RLogin ''admin@adoptimizer.dev'' ''Adm1n!ChangeMe'' [] [] (''s2'', ''j3'', ''j4''))] demo_signed_out"

theorem sign_off_is_final_witness:
  "\<exists>m. get_current_claims demo_env (micros 1004) (Some (pr_access_token (iu_pair demo_issued))) (fst demo_again) = Inl m"
proof -
  have run: "handle demo_env (micros 1002) (RLogoutEverywhere ''u1'') (fst demo_signed_in) = (Inr [], fst demo_signed_out)"
    by (simp add: handle_def demo_signed_out_def)
  have off: "signs_off demo_env (micros 1002) demo_issued (RLogoutEverywhere ''u1'') (fst demo_signed_in)"
    by (simp add: signs_off_def demo_facts(2))
  have "account_steps default_security_settings transparent_jwt demo_signed_out demo_again"
    using run_requests_steps [of demo_env demo_signed_out] unfolding demo_again_def demo_env_settings(2,3) .
  then have later: "account_steps default_security_settings transparent_jwt (fst demo_signed_out, snd demo_signed_in @ []) (fst demo_again, snd demo_again)"
    by (simp add: demo_signed_out_def)
  show ?thesis
    using sign_off_is_final [OF documented_transparent_jwt demo_env_settings(1) demo_reachable demo_member demo_env_settings(2,3)
        run off later demo_env_settings(2,3)] by blast
qed

subsubsection \<open>The last administrator\<close>

lemma has_admin_iff:
  assumes "well_keyed_db db"
  shows "0 < count_active_admins None db \<longleftrightarrow> (\<exists>k u. map_of (id_users db) k = Some u \<and> is_active_admin u)"
proof -
  have "0 < count_active_admins None db \<longleftrightarrow> (\<exists>p\<in>set (id_users db). is_active_admin (snd p))"
    by (auto simp: count_active_admins_def filter_empty_conv)
  also have "\<dots> \<longleftrightarrow> (\<exists>k u. map_of (id_users db) k = Some u \<and> is_active_admin u)"
  proof
    assume "\<exists>p\<in>set (id_users db). is_active_admin (snd p)"
    then obtain k u where "(k, u) \<in> set (id_users db)" "is_active_admin u" by auto
    moreover then have "map_of (id_users db) k = Some u" using assms by (simp add: well_keyed_db_def)
    ultimately show "\<exists>k u. map_of (id_users db) k = Some u \<and> is_active_admin u" by blast
  next
    assume "\<exists>k u. map_of (id_users db) k = Some u \<and> is_active_admin u"
    then obtain k u where "(k, u) \<in> set (id_users db)" "is_active_admin u" by (auto dest: map_of_SomeD)
    then show "\<exists>p\<in>set (id_users db). is_active_admin (snd p)" by force
  qed
  finally show ?thesis .
qed

lemma effect_keeps_admin:
  "effect cfg jw s t \<Longrightarrow> well_keyed_db (fst s) \<Longrightarrow> \<exists>k u. map_of (id_users (fst s)) k = Some u \<and> is_active_admin u
    \<Longrightarrow> \<exists>k u. map_of (id_users (fst t)) k = Some u \<and> is_active_admin u"
proof (induction rule: effect.induct)
  case (ef_credentials db k u v "is")
  then have "us_id v = k" using well_keyed_user by simp
  moreover obtain k' a where a: "map_of (id_users db) k' = Some a" "is_active_admin a" using ef_credentials.prems(2) by auto
  ultimately have "(if k' = us_id v then v else a) = (if k' = k then v else a)" "k' = k \<Longrightarrow> is_active_admin v"
    using ef_credentials.hyps by (auto simp: is_active_admin_def)
  then show ?case using a \<open>us_id v = k\<close> by (intro exI [of _ k'] exI [of _ "if k' = k then v else a"]) auto
next
  case (ef_insert u db "is")
  then have "map_of (id_users db) (us_id u) = None" by (simp add: map_of_eq_None_iff)
  moreover obtain k a where "map_of (id_users db) k = Some a" "is_active_admin a" using ef_insert.prems(2) by auto
  ultimately show ?case by (intro exI [of _ k] exI [of _ a]) (auto simp: map_add_def)
next
  case (ef_activate db k u "is")
  then have uid: "us_id u = k" using well_keyed_user by simp
  obtain k' a where a: "map_of (id_users db) k' = Some a" "is_active_admin a" using ef_activate.prems(2) by auto
  have "k' = k \<Longrightarrow> is_active_admin (u\<lparr>us_is_active := True\<rparr>)" using a ef_activate.hyps by (simp add: is_active_admin_def)
  then show ?case using a uid by (intro exI [of _ k'] exI [of _ "if k' = k then u\<lparr>us_is_active := True\<rparr> else a"]) auto
next
  case (ef_regrade db u v "is" now)
  show ?case
  proof (cases "is_active_admin u \<and> \<not> is_active_admin v")
    case True
    then obtain a where a: "a \<in> set (map snd (id_users db))" "is_active_admin a" "us_id a \<noteq> us_id u" using ef_regrade.hyps(4) by blast
    then obtain k where "(k, a) \<in> set (id_users db)" by auto
    then have "map_of (id_users db) k = Some a" "us_id a = k" using ef_regrade.prems(1) by (auto simp: well_keyed_db_def)
    then show ?thesis using a ef_regrade.hyps(2) by (intro exI [of _ k] exI [of _ a]) simp
  next
    case False
    obtain k a where a: "map_of (id_users db) k = Some a" "is_active_admin a" using ef_regrade.prems(2) by auto
    then have "k = us_id u \<Longrightarrow> is_active_admin v" using False ef_regrade.hyps(1) by auto
    then show ?thesis using a ef_regrade.hyps(2) by (intro exI [of _ k] exI [of _ "if k = us_id u then v else a"]) auto
  qed
qed simp_all

lemma effects_keep_admin:
  "effects cfg jw s t \<Longrightarrow> well_keyed_db (fst s) \<Longrightarrow> \<exists>k u. map_of (id_users (fst s)) k = Some u \<and> is_active_admin u
    \<Longrightarrow> \<exists>k u. map_of (id_users (fst t)) k = Some u \<and> is_active_admin u"
proof (induction rule: rtranclp_induct)
  case (step t u)
  then show ?case using effect_keeps_admin effects_keyed by blast
qed simp

text \<open>
  C17. The control plane is never locked out: once an active administrator exists, one exists after any sequence
  of requests, demotions and deactivations of administrators by each other or themselves included.
\<close>

theorem an_administrator_remains:
  assumes "reachable_accounts cfg jw s" "account_steps cfg jw s t" "0 < count_active_admins None (fst s)"
  shows "0 < count_active_admins None (fst t)"
proof -
  have k: "well_keyed_db (fst s)" using reachable_effects [OF assms(1)] by simp
  have st: "effects cfg jw s t" "well_keyed_db (fst t)" using steps_effects [OF assms(2) k] by simp_all
  have "\<exists>k u. map_of (id_users (fst s)) k = Some u \<and> is_active_admin u" using has_admin_iff [OF k] assms(3) by simp
  from effects_keep_admin [OF st(1) k this] show ?thesis using has_admin_iff [OF st(2)] by simp
qed

theorem an_administrator_remains_witness:
  "0 < count_active_admins None (fst (run_requests demo_env [(micros 1003, RUpdateUser ''u1'' (Some ROLE_VIEWER) (Some False))]
     (fst demo_signed_in, snd demo_signed_in)))"
proof (rule an_administrator_remains [OF demo_reachable])
  show "account_steps default_security_settings transparent_jwt (fst demo_signed_in, snd demo_signed_in)
     (run_requests demo_env [(micros 1003, RUpdateUser ''u1'' (Some ROLE_VIEWER) (Some False))] (fst demo_signed_in, snd demo_signed_in))"
    using run_requests_steps [of demo_env "(fst demo_signed_in, snd demo_signed_in)"] unfolding demo_env_settings(2,3) .
  show "0 < count_active_admins None (fst (fst demo_signed_in, snd demo_signed_in))" by code_simp
qed

subsubsection \<open>Locked accounts\<close>

lemma by_email_iff:
  assumes "well_keyed_db db"
  shows "by_email e db = Some u \<longleftrightarrow> map_of (id_users db) (us_id u) = Some u \<and> us_email u = normalise_email e"
proof
  assume "by_email e db = Some u"
  then show "map_of (id_users db) (us_id u) = Some u \<and> us_email u = normalise_email e" using by_email_stored [OF assms] by simp
next
  assume u: "map_of (id_users db) (us_id u) = Some u \<and> us_email u = normalise_email e"
  then have mem: "(us_id u, u) \<in> set (id_users db)" by (simp add: map_of_SomeD)
  then obtain v where v: "by_email e db = Some v"
    using u by (cases "by_email e db") (auto simp: by_email_def find_None_iff)
  then have "(us_id v, v) \<in> set (id_users db)" "us_email v = us_email u"
    using by_email_stored [OF assms v] u by (auto dest: map_of_SomeD)
  moreover have "inj_on (us_email \<circ> snd) (set (id_users db))" using assms by (simp add: well_keyed_db_def distinct_map)
  ultimately have "(us_id v, v) = (us_id u, u)" using mem by (intro inj_onD [of "us_email \<circ> snd" "set (id_users db)"]) simp_all
  then have "v = u" by simp
  then show "by_email e db = Some u" using v by simp
qed

lemma login_endpoint_users:
  assumes "ae_settings env = cfg" "login_endpoint env now ids email password ua ip db = (r, db')"
  shows "id_users db' = id_users db \<or> (\<exists>u. by_email email db = Some u \<and> us_is_active u \<and> \<not> is_locked now u \<and>
     (if verify_password (ae_hasher env) (us_hashed_password u) password
      then (\<exists>nh. id_users db' = id_users (put_user (login_success now nh u) db))
      else id_users db' = id_users (put_user (login_failure now (ss_max_failed_logins cfg) (ss_lockout_seconds cfg) u) db)))"
proof (cases "\<exists>u. by_email email db = Some u \<and> us_is_active u \<and> \<not> is_locked now u")
  case False
  then have "db' = db" using assms(2) by (auto simp: login_endpoint_def login_def Let_def split: option.splits if_splits)
  then show ?thesis by simp
next
  case True
  then obtain u where u: "by_email email db = Some u" "us_is_active u" "\<not> is_locked now u" by blast
  show ?thesis
  proof (cases "verify_password (ae_hasher env) (us_hashed_password u) password")
    case False
    then show ?thesis using u assms by (auto simp: login_endpoint_def login_def Let_def)
  next
    case True
    define nh where "nh = (if needs_rehash (ae_hasher env) (us_hashed_password u) then Some (ph_hash (ae_hasher env) password) else None)"
    define v where "v = login_success now nh u"
    have l: "login env now ids email password ua ip db = open_session env now ids v ua ip (put_user v db)"
      using u True by (simp add: login_def Let_def nh_def v_def)
    have "id_users db' = id_users db \<or> id_users db' = id_users (put_user v db)"
      using assms(2) unfolding login_endpoint_def l
      by (auto simp: open_session_def Let_def create_session_def integrity_error_def unit_of_work_def split: if_splits)
    then show ?thesis using u True unfolding v_def by auto
  qed
qed

record attempt =
  at_now :: int
  at_email :: string
  at_password :: string
  at_ids :: "string \<times> string \<times> string"

text \<open>How many sign-in attempts on an account get as far as the password check.\<close>

fun guesses :: "'tok auth_env \<Rightarrow> string \<Rightarrow> attempt list \<Rightarrow> identity_db \<Rightarrow> nat" where
  "guesses env e [] db = 0"
| "guesses env e (a # as) db =
     (case by_email e db of
        None \<Rightarrow> 0
      | Some u \<Rightarrow> if normalise_email (at_email a) = normalise_email e \<and> us_is_active u \<and> \<not> is_locked (at_now a) u then 1 else 0)
     + guesses env e as (snd (login_endpoint env (at_now a) (at_ids a) (at_email a) (at_password a) [] [] db))"

text \<open>What an attempt that does not have the password does to an account.\<close>

lemma wrong_attempt:
  assumes keyed: "well_keyed_db db" and u: "by_email e db = Some u"
    and wrong: "normalise_email (at_email a) = normalise_email e \<Longrightarrow> \<not> verify_password (ae_hasher env) (us_hashed_password u) (at_password a)"
    and db': "db' = snd (login_endpoint env (at_now a) (at_ids a) (at_email a) (at_password a) ua ip db)"
  shows "well_keyed_db db' \<and> (if normalise_email (at_email a) = normalise_email e \<and> us_is_active u \<and> \<not> is_locked (at_now a) u
      then by_email e db' = Some (login_failure (at_now a) (ss_max_failed_logins (ae_settings env)) (ss_lockout_seconds (ae_settings env)) u)
      else by_email e db' = Some u)"
proof -
  obtain r where run: "login_endpoint env (at_now a) (at_ids a) (at_email a) (at_password a) ua ip db = (r, db')"
    using db' by (metis prod.collapse)
  have keyed': "well_keyed_db db'"
    using effects_keyed [OF login_endpoint_effects [OF refl refl keyed run, of "[]"]] keyed by simp
  have st: "map_of (id_users db) (us_id u) = Some u" "us_email u = normalise_email e"
    using u by_email_iff [OF keyed] by blast+
  have kept: "by_email e db' = Some u" if "map_of (id_users db') (us_id u) = Some u"
    using that st(2) by_email_iff [OF keyed'] by blast
  note users = login_endpoint_users [OF refl run]
  show ?thesis
  proof (cases "normalise_email (at_email a) = normalise_email e")
    case True
    then have same: "by_email (at_email a) db = Some u" using u by (simp add: by_email_def)
    show ?thesis
    proof (cases "us_is_active u \<and> \<not> is_locked (at_now a) u")
      case check: True
      define v where "v = login_failure (at_now a) (ss_max_failed_logins (ae_settings env)) (ss_lockout_seconds (ae_settings env)) u"
      have "db' = put_user v db"
        using run same check wrong [OF True] by (auto simp: login_endpoint_def login_def Let_def v_def)
      moreover have "us_id v = us_id u" "us_email v = us_email u" by (simp_all add: v_def login_failure_def)
      ultimately have "map_of (id_users db') (us_id v) = Some v" "us_email v = normalise_email e" using st(2) by simp_all
      then have "by_email e db' = Some v" using by_email_iff [OF keyed'] by blast
      then show ?thesis using keyed' True check by (simp add: v_def)
    next
      case False
      then have "id_users db' = id_users db" using users same by auto
      then show ?thesis using keyed' kept st(1) False by auto
    qed
  next
    case False
    have "map_of (id_users db') (us_id u) = Some u"
    proof -
      have other: "us_id w \<noteq> us_id u" if "by_email (at_email a) db = Some w" for w
        using that st False by (auto simp: by_email_iff [OF keyed])
      have "us_id (login_success n nh w) = us_id w" "us_id (login_failure n k l w) = us_id w" for n nh k l w
        by (simp_all add: login_success_def login_failure_def)
      then show ?thesis using users other st(1) by (auto split: if_splits)
    qed
    then show ?thesis using keyed' kept False by simp
  qed
qed

lemma no_guess_while_locked:
  assumes "well_keyed_db db" "by_email e db = Some u" "us_locked_until u = Some l"
    and "\<forall>a\<in>set as. at_now a < l"
    and "\<forall>a\<in>set as. normalise_email (at_email a) = normalise_email e \<longrightarrow> \<not> verify_password (ae_hasher env) (us_hashed_password u) (at_password a)"
  shows "guesses env e as db = 0"
  using assms
proof (induction as arbitrary: db)
  case (Cons a as)
  let ?db = "snd (login_endpoint env (at_now a) (at_ids a) (at_email a) (at_password a) [] [] db)"
  have locked: "is_locked (at_now a) u" using Cons.prems(3,4) by (simp add: is_locked_def)
  have "well_keyed_db ?db \<and> by_email e ?db = Some u"
    using wrong_attempt [OF Cons.prems(1,2) _ refl, of a env "[]" "[]"] Cons.prems(5) locked by simp
  then have "guesses env e as ?db = 0" using Cons.IH [of ?db] Cons.prems(3-5) by simp
  then show ?case using Cons.prems(2) locked by simp
qed simp

lemma guesses_within_window:
  assumes "well_keyed_db db" "by_email e db = Some u"
    and "\<forall>a\<in>set as. t \<le> at_now a \<and> at_now a < t + micros (ss_lockout_seconds (ae_settings env))"
    and "\<forall>a\<in>set as. normalise_email (at_email a) = normalise_email e \<longrightarrow> \<not> verify_password (ae_hasher env) (us_hashed_password u) (at_password a)"
  shows "int (guesses env e as db) \<le> max 1 (ss_max_failed_logins (ae_settings env) - us_failed_login_count u)"
  using assms
proof (induction as arbitrary: db u)
  case (Cons a as)
  let ?m = "ss_max_failed_logins (ae_settings env)" and ?l = "ss_lockout_seconds (ae_settings env)"
  let ?db = "snd (login_endpoint env (at_now a) (at_ids a) (at_email a) (at_password a) [] [] db)"
  have step: "well_keyed_db ?db \<and> (if normalise_email (at_email a) = normalise_email e \<and> us_is_active u \<and> \<not> is_locked (at_now a) u
      then by_email e ?db = Some (login_failure (at_now a) ?m ?l u) else by_email e ?db = Some u)"
    by (rule wrong_attempt [OF Cons.prems(1,2) _ refl]) (use Cons.prems(4) in simp)
  have later: "\<forall>a\<in>set as. t \<le> at_now a \<and> at_now a < t + micros ?l"
    "\<forall>a\<in>set as. normalise_email (at_email a) = normalise_email e \<longrightarrow> \<not> verify_password (ae_hasher env) (us_hashed_password u) (at_password a)"
    using Cons.prems(3,4) by simp_all
  show ?case
  proof (cases "normalise_email (at_email a) = normalise_email e \<and> us_is_active u \<and> \<not> is_locked (at_now a) u")
    case False
    then have "by_email e ?db = Some u" using step by (simp split: if_splits)
    from Cons.IH [OF _ this later] show ?thesis using step False Cons.prems(2) by auto
  next
    case True
    define v where "v = login_failure (at_now a) ?m ?l u"
    have v: "by_email e ?db = Some v" "us_hashed_password v = us_hashed_password u"
      using step True by (simp_all add: v_def login_failure_def)
    have rest: "int (guesses env e as ?db) \<le> max 0 (?m - us_failed_login_count u - 1)"
    proof (cases "?m \<le> us_failed_login_count u + 1")
      case full: True
      have lock: "us_locked_until v = Some (at_now a + micros ?l)" using full by (simp add: v_def login_failure_def)
      have "\<forall>b\<in>set as. at_now b < at_now a + micros ?l" using later(1) Cons.prems(3) by fastforce
      from no_guess_while_locked [OF _ v(1) lock this] have "guesses env e as ?db = 0" using step later(2) v(2) by simp
      then show ?thesis by simp
    next
      case room: False
      have "us_failed_login_count v = us_failed_login_count u + 1" using room by (simp add: v_def login_failure_def)
      moreover have "int (guesses env e as ?db) \<le> max 1 (?m - us_failed_login_count v)"
        by (rule Cons.IH [OF _ v(1) later(1)]) (use step later(2) v(2) in simp_all)
      ultimately show ?thesis using room by simp
    qed
    then show ?thesis using True Cons.prems(2) by simp
  qed
qed simp

text \<open>
  C18. The lockout bounds guessing: within any span shorter than the lockout period, however many sign-ins are
  attempted, from however many places and interleaved with sign-ins to other accounts, at most the configured
  number of wrong passwords is ever compared with the hash of an account.
\<close>

theorem lockout_bounds_guesses:
  assumes "reachable_accounts cfg jw (db, is)" "by_email e db = Some u" "0 \<le> us_failed_login_count u" "1 \<le> ss_max_failed_logins cfg"
    and "ae_settings env = cfg"
    and "\<forall>a\<in>set as. t \<le> at_now a \<and> at_now a < t + micros (ss_lockout_seconds cfg)"
    and "\<forall>a\<in>set as. normalise_email (at_email a) = normalise_email e \<longrightarrow> \<not> verify_password (ae_hasher env) (us_hashed_password u) (at_password a)"
  shows "int (guesses env e as db) \<le> ss_max_failed_logins cfg"
  using guesses_within_window [of db e u as t env] reachable_effects [OF assms(1)] assms(2-7) by auto

definition wrong_try :: "int \<Rightarrow> attempt" where
  "wrong_try t = \<lparr>at_now = t, at_email = ''Admin@adoptimizer.dev'', at_password = ''guess'', at_ids = ([], [], [])\<rparr>"

theorem lockout_bounds_guesses_witness:
  "int (guesses demo_env ''admin@adoptimizer.dev'' (map wrong_try [micros 2000 .. micros 2000 + 7]) (fst demo_signed_in)) \<le> 5"
proof -
  have "map_option (\<lambda>u. (us_failed_login_count u, us_hashed_password u)) (by_email ''admin@adoptimizer.dev'' (fst demo_signed_in))
      = Some (0, ''Adm1n!ChangeMe'')" by code_simp
  then obtain u where u: "by_email ''admin@adoptimizer.dev'' (fst demo_signed_in) = Some u" "0 \<le> us_failed_login_count u"
      "us_hashed_password u = ''Adm1n!ChangeMe''" by (auto simp: map_option_eq_Some)
  have "int (guesses demo_env ''admin@adoptimizer.dev'' (map wrong_try [micros 2000 .. micros 2000 + 7]) (fst demo_signed_in))
      \<le> ss_max_failed_logins default_security_settings"
    by (rule lockout_bounds_guesses [OF demo_reachable u(1,2) _ demo_env_settings(2), of _ "micros 2000"])
      (auto simp: wrong_try_def default_security_settings_def micros_def u(3) verify_password_def demo_env_def)
  then show ?thesis by (simp add: default_security_settings_def)
qed

end
