(* ===== verification/Actions.thy ===== *)
theory Actions
  imports Platform Security Statistics
begin

text \<open>
  \<open>services/actions.py\<close> with the endpoints of \<open>api/v1/actions.py\<close>: the approval, rejection and execution of the
  proposals the optimizer queued, the audit rows of \<open>services/audit.py\<close>, and the choice of an adapter of
  \<open>infra/ads/registry.py\<close>.

  The database is a record of tables; the tool executor and the outside world are threaded beside it, because
  a rollback undoes the first and not the other two. The readings of the clock within a request are taken as
  one, new ids are arguments, and \<open>str\<close> of a JSON value that is not a string is an argument.
\<close>

subsection \<open>Rows\<close>

record action_row =
  oa_id :: string
  oa_run_id :: "string option"
  oa_campaign_id :: string
  oa_creative_id :: "string option"
  oa_action_type :: string
  oa_status :: string
  oa_before_value :: string
  oa_after_value :: string
  oa_reason :: string
  oa_confidence :: real
  oa_direction :: "string option"
  oa_proposed_by :: string
  oa_approved_by :: "string option"
  oa_approved_at :: "int option"
  oa_executed_at :: "int option"
  oa_external_reference :: "string option"
  oa_error_message :: "string option"

record campaign_row =
  cp_id :: string
  cp_name :: string
  cp_platform :: string
  cp_status :: string
  cp_external_id :: "string option"
  cp_daily_budget :: pyfloat
  cp_total_budget :: pyfloat
  cp_target_cpa :: pyfloat
  cp_target_roas :: pyfloat
  cp_current_bid_cpm :: pyfloat
  cp_start_date :: int
  cp_end_date :: "int option"
  cp_target_audience :: string
  cp_objective :: string
  cp_created_by :: "string option"

record creative_entity =
  ce_id :: string
  ce_campaign_id :: string
  ce_headline :: string
  ce_description :: string
  ce_cta_text :: string
  ce_creative_type :: string
  ce_target_emotion :: string
  ce_status :: string
  ce_ab_group :: string
  ce_origin :: string
  ce_created_at :: int

record ab_test =
  ab_id :: string
  ab_campaign_id :: string
  ab_name :: string
  ab_hypothesis :: string
  ab_control_creative_id :: "string option"
  ab_variant_creative_id :: "string option"
  ab_metric :: string
  ab_minimum_detectable_effect :: real
  ab_required_sample_size :: int
  ab_traffic_split :: real
  ab_created_by_run_id :: "string option"

record audit_row =
  au_actor_id :: "string option"
  au_actor_email :: string
  au_actor_role :: string
  au_action :: string
  au_resource_type :: string
  au_resource_id :: "string option"
  au_before :: "json_dict option"
  au_after :: "json_dict option"
  au_ip_address :: string
  au_user_agent :: string
  au_request_id :: string

record client_meta =
  cm_ip_address :: string
  cm_user_agent :: string
  cm_request_id :: string

record action_db =
  ad_actions :: "(string, action_row) dict"
  ad_campaigns :: "(string, campaign_row) dict"
  ad_creatives :: "(string, creative_entity) dict"
  ad_experiments :: "ab_test list"
  ad_audit :: "audit_row list"

record 'w action_state =
  as_db :: action_db
  as_executor :: "'w executor"
  as_world :: 'w

definition with_db :: "(action_db \<Rightarrow> action_db) \<Rightarrow> 'w action_state \<Rightarrow> 'w action_state" where
  "with_db f st = st\<lparr>as_db := f (as_db st)\<rparr>"

definition put_action :: "action_row \<Rightarrow> action_db \<Rightarrow> action_db" where
  "put_action a db = db\<lparr>ad_actions := AList.update (oa_id a) a (ad_actions db)\<rparr>"

definition put_campaign :: "campaign_row \<Rightarrow> action_db \<Rightarrow> action_db" where
  "put_campaign c db = db\<lparr>ad_campaigns := AList.update (cp_id c) c (ad_campaigns db)\<rparr>"

definition put_creative :: "creative_entity \<Rightarrow> action_db \<Rightarrow> action_db" where
  "put_creative c db = db\<lparr>ad_creatives := AList.update (ce_id c) c (ad_creatives db)\<rparr>"

subsection \<open>The audit trail\<close>

definition audit_entry :: "string \<Rightarrow> string \<Rightarrow> string option \<Rightarrow> token_claims option \<Rightarrow> json_dict option \<Rightarrow> json_dict option
   \<Rightarrow> client_meta option \<Rightarrow> audit_row" where
  "audit_entry action resource_type resource_id claims before after client =
     \<lparr>au_actor_id = map_option tc_subject claims,
      au_actor_email = take 320 (case claims of Some c \<Rightarrow> tc_email c | None \<Rightarrow> ''system''),
      au_actor_role = take 20 (case claims of Some c \<Rightarrow> role_value (tc_role c) | None \<Rightarrow> ''system''),
      au_action = take 60 action, au_resource_type = take 40 resource_type, au_resource_id = resource_id,
      au_before = before, au_after = after,
      au_ip_address = take 64 (case client of Some m \<Rightarrow> cm_ip_address m | None \<Rightarrow> []),
      au_user_agent = take 400 (case client of Some m \<Rightarrow> cm_user_agent m | None \<Rightarrow> []),
      au_request_id = take 64 (case client of Some m \<Rightarrow> cm_request_id m | None \<Rightarrow> [])\<rparr>"

definition add_audit :: "audit_row \<Rightarrow> action_db \<Rightarrow> action_db" where
  "add_audit r db = db\<lparr>ad_audit := ad_audit db @ [r]\<rparr>"

definition audit_action :: "string \<Rightarrow> string \<Rightarrow> token_claims \<Rightarrow> json_dict option \<Rightarrow> json_dict option \<Rightarrow> client_meta option
   \<Rightarrow> action_db \<Rightarrow> action_db" where
  "audit_action action aid claims before after client =
     add_audit (audit_entry action ''optimization_action'' (Some aid) (Some claims) before after client)"

subsection \<open>Adapters\<close>

record adapter_registry =
  ar_mock_mode :: bool
  ar_registered :: "platform list"
  ar_configured :: "platform list"

text \<open>\<open>for_platform\<close>: the client of a platform; in mock mode the mock answers for every known one.\<close>

definition for_platform :: "adapter_registry \<Rightarrow> string \<Rightarrow> (py_error, platform) res" where
  "for_platform ar name =
     (case platform_of name of
        None \<Rightarrow> Inl (ValueError (name @ '' is not a valid Platform''))
      | Some p \<Rightarrow>
          if ar_mock_mode ar then Inr PLATFORM_MOCK
          else if p \<notin> set (ar_registered ar)
          then Inl (ExternalServiceError (''No adapter registered for platform '' @ platform_value p))
          else if p \<notin> set (ar_configured ar)
          then Inl (ExternalServiceError (''Platform '' @ platform_value p @ '' is not configured; set its credentials or use mock mode''))
          else Inr p)"

text \<open>The operations of a client, by the platform of the client; a budget may be any float here.\<close>

record 'w adapter_calls =
  nc_update_budget :: "platform \<Rightarrow> string \<Rightarrow> pyfloat \<Rightarrow> 'w network_call"
  nc_pause_campaign :: "platform \<Rightarrow> string \<Rightarrow> string \<Rightarrow> 'w network_call"
  nc_resume_campaign :: "platform \<Rightarrow> string \<Rightarrow> string \<Rightarrow> 'w network_call"
  nc_pause_creative :: "platform \<Rightarrow> string \<Rightarrow> string \<Rightarrow> 'w network_call"
  nc_resume_creative :: "platform \<Rightarrow> string \<Rightarrow> string \<Rightarrow> 'w network_call"

record 'w action_service =
  av_require_approval :: bool
  av_tools :: "(tool_settings \<times> 'w registry) option"
  av_platforms :: adapter_registry
  av_clients :: "'w adapter_calls"
  av_str :: "json \<Rightarrow> string"

subsection \<open>Values\<close>

definition parse_amount :: "string \<Rightarrow> pyfloat option" where
  "parse_amount v = parse_float (strip (replace_char (CHR '','') [] (replace_char (CHR ''$'') [] (replace_char (CHR 0xA5) [] v))))"

text \<open>\<open>x <= 0\<close> on a float: NaN compares false.\<close>

definition non_positive :: "pyfloat \<Rightarrow> bool" where
  "non_positive x = (case x of Fin r \<Rightarrow> r \<le> 0 | NInf \<Rightarrow> True | PInf \<Rightarrow> False | NaN \<Rightarrow> False)"

definition reason_for :: "action_row \<Rightarrow> string" where
  "reason_for a = or_str (take 200 (strip (oa_reason a))) (oa_action_type a)"

definition synced_id :: "campaign_row option \<Rightarrow> string option" where
  "synced_id c = (case c of None \<Rightarrow> None | Some r \<Rightarrow> (case cp_external_id r of None \<Rightarrow> None | Some x \<Rightarrow> if x = [] then None else Some x))"

definition platform_on :: "campaign_row option \<Rightarrow> platform option" where
  "platform_on c = (case c of None \<Rightarrow> None | Some r \<Rightarrow> if synced_id c = None then None else platform_of (cp_platform r))"

definition execution_from_tool :: "(json \<Rightarrow> string) \<Rightarrow> string \<Rightarrow> 'w tool_result \<Rightarrow> platform \<Rightarrow> string \<Rightarrow> execution_result" where
  "execution_from_tool str_of now_text r p operation =
     (if result_dry_run r
      then \<lparr>xr_success = True, xr_platform = p, xr_operation = operation, xr_external_reference = None, xr_detail = tr_data r,
            xr_error = None, xr_executed_at = now_text, xr_dry_run = True\<rparr>
      else let d = tr_data r;
               text_or_none = (\<lambda>k. case map_of d k of Some j \<Rightarrow> if json_truthy j then Some (text_of str_of j) else None | None \<Rightarrow> None)
           in \<lparr>xr_success = (case map_of d ''success'' of Some j \<Rightarrow> json_truthy j | None \<Rightarrow> True), xr_platform = p,
               xr_operation = (case text_or_none ''operation'' of Some s \<Rightarrow> s | None \<Rightarrow> operation),
               xr_external_reference = text_or_none ''external_reference'',
               xr_detail = (case map_of d ''detail'' of Some (JDict x) \<Rightarrow> x | _ \<Rightarrow> []),
               xr_error = text_or_none ''error'', xr_executed_at = now_text,
               xr_dry_run = (case map_of d ''dry_run'' of Some j \<Rightarrow> json_truthy j | None \<Rightarrow> False)\<rparr>)"

subsection \<open>Pushing a change to the network\<close>

type_synonym ('w, 'a) action_step = "'w action_state \<Rightarrow> (py_error, 'a) res \<times> 'w action_state"

definition push_request :: "action_row \<Rightarrow> string \<Rightarrow> json_dict \<Rightarrow> platform \<Rightarrow> tool_request" where
  "push_request a tool arguments p =
     \<lparr>rq_tool = tool, rq_arguments = AList.update ''platform'' (JStr (platform_value p)) arguments, rq_agent = None,
      rq_run_id = (case oa_run_id a of Some r \<Rightarrow> r | None \<Rightarrow> []),
      rq_actor = (case oa_approved_by a of Some s \<Rightarrow> or_str s ''system'' | None \<Rightarrow> ''system''),
      rq_idempotency_key = ''action:'' @ oa_id a, rq_dry_run = None\<rparr>"

definition push :: "'w action_service \<Rightarrow> real \<times> real \<Rightarrow> string \<Rightarrow> action_row \<Rightarrow> string \<Rightarrow> string \<Rightarrow> platform option \<Rightarrow> json_dict
   \<Rightarrow> ('w, execution_result option) action_step" where
  "push sv clock now_text a tool operation plat arguments st =
     (case (av_tools sv, plat) of
        (Some (cfg, reg), Some p) \<Rightarrow>
          if \<not> ts_enabled cfg then (Inr None, st)
          else (case call_tool cfg reg (fst clock) (snd clock) (push_request a tool arguments p) (as_executor st) (as_world st) of
                  (r, ex, w) \<Rightarrow>
                    let st1 = st\<lparr>as_executor := ex, as_world := w\<rparr>;
                        why = (\<lambda>fallback. case tr_error r of Some e \<Rightarrow> or_str e fallback | None \<Rightarrow> fallback)
                    in if tr_outcome r = TOOL_VALIDATION_FAILED
                       then (Inl (ValidationFailure (''Action '' @ oa_id a @ '' could not be sent to '' @ tool @ '': ''
                               @ why ''rejected by the tool schema'')), st1)
                       else if tr_outcome r = TOOL_FAILED \<or> result_refused r
                       then (Inl (ExternalServiceError (tool @ '' did not run for action '' @ oa_id a @ '' ('' @ tool_outcome_value (tr_outcome r)
                               @ ''): '' @ why ''no reason reported'')), st1)
                       else (Inr (Some (execution_from_tool (av_str sv) now_text r p operation)), st1))
      | _ \<Rightarrow> (Inr None, st))"

text \<open>A call of the adapter itself, when the tool layer is off or does not know the platform.\<close>

definition call_adapter :: "'w network_call option \<Rightarrow> ('w, execution_result option) action_step" where
  "call_adapter call st =
     (case call of
        None \<Rightarrow> (Inr None, st)
      | Some f \<Rightarrow> (case f (as_world st) of
                    (Inl e, w) \<Rightarrow> (Inl e, st\<lparr>as_world := w\<rparr>) | (Inr r, w) \<Rightarrow> (Inr (Some r), st\<lparr>as_world := w\<rparr>)))"

definition push_or_adapter :: "('w, execution_result option) action_step \<Rightarrow> 'w network_call option \<Rightarrow> ('w, execution_result option) action_step" where
  "push_or_adapter pushed call st =
     (case pushed st of
        (Inl e, st1) \<Rightarrow> (Inl e, st1)
      | (Inr (Some r), st1) \<Rightarrow> (Inr (Some r), st1)
      | (Inr None, st1) \<Rightarrow> call_adapter call st1)"

subsection \<open>Applying an action\<close>

text \<open>What every step of one execution shares: the service, the call clock, now as a text, and the id of a new row.\<close>

record 'w apply_env =
  ap_service :: "'w action_service"
  ap_clock :: "real \<times> real"
  ap_now_text :: string
  ap_new_id :: string

definition apply_budget :: "'w apply_env \<Rightarrow> action_row \<Rightarrow> campaign_row option \<Rightarrow> platform option \<Rightarrow> platform option
   \<Rightarrow> ('w, execution_result option) action_step" where
  "apply_budget env a campaign client plat st =
     (case parse_amount (oa_after_value a) of
        None \<Rightarrow> (Inl (ConflictError (''Action carries no usable budget value: '' @ oa_after_value a)), st)
      | Some v \<Rightarrow>
          if non_positive v then (Inl (ConflictError (''Action carries no usable budget value: '' @ oa_after_value a)), st)
          else let rounded = round_float 2 v;
                   st1 = (case campaign of Some c \<Rightarrow> with_db (put_campaign (c\<lparr>cp_daily_budget := rounded\<rparr>)) st | None \<Rightarrow> st)
               in case synced_id campaign of
                    None \<Rightarrow> (Inr None, st1)
                  | Some x \<Rightarrow>
                      push_or_adapter
                        (push (ap_service env) (ap_clock env) (ap_now_text env) a ''platform.set_daily_budget'' ''update_budget'' plat
                          [(''campaign_external_id'', JStr x), (''daily_budget'', JFloat rounded), (''reason'', JStr (reason_for a))])
                        (map_option (\<lambda>p. nc_update_budget (av_clients (ap_service env)) p x rounded) client) st1)"

definition apply_campaign_status :: "'w apply_env \<Rightarrow> action_row \<Rightarrow> campaign_row option \<Rightarrow> platform option \<Rightarrow> bool \<Rightarrow> platform option
   \<Rightarrow> ('w, execution_result option) action_step" where
  "apply_campaign_status env a campaign client pausing plat st =
     (let status = campaign_status_value (if pausing then CAMPAIGN_PAUSED else CAMPAIGN_ACTIVE);
          st1 = (case campaign of Some c \<Rightarrow> with_db (put_campaign (c\<lparr>cp_status := status\<rparr>)) st | None \<Rightarrow> st);
          calls = av_clients (ap_service env)
      in case synced_id campaign of
           None \<Rightarrow> (Inr None, st1)
         | Some x \<Rightarrow>
             push_or_adapter
               (push (ap_service env) (ap_clock env) (ap_now_text env) a
                 (if pausing then ''platform.pause_campaign'' else ''platform.resume_campaign'')
                 (if pausing then ''pause_campaign'' else ''resume_campaign'') plat
                 [(''campaign_external_id'', JStr x), (''reason'', JStr (reason_for a))])
               (map_option (\<lambda>p. (if pausing then nc_pause_campaign calls else nc_resume_campaign calls) p x (take 200 (oa_reason a))) client)
               st1)"

text \<open>\<open>for_campaign\<close>: newest first, at most 200.\<close>

definition creatives_of :: "string \<Rightarrow> action_db \<Rightarrow> creative_entity list" where
  "creatives_of cid db = take 200 (sort_key (\<lambda>c. - ce_created_at c) (filter (\<lambda>c. ce_campaign_id c = cid) (map snd (ad_creatives db))))"

definition target_creative :: "action_row \<Rightarrow> action_db \<Rightarrow> creative_entity option" where
  "target_creative a db =
     (let named = (case oa_creative_id a of None \<Rightarrow> None | Some k \<Rightarrow> if k = [] then None else map_of (ad_creatives db) k)
      in case named of Some c \<Rightarrow> Some c | None \<Rightarrow> (case creatives_of (oa_campaign_id a) db of [] \<Rightarrow> None | c # _ \<Rightarrow> Some c))"

definition apply_creative_status :: "'w apply_env \<Rightarrow> action_row \<Rightarrow> platform option \<Rightarrow> bool \<Rightarrow> platform option
   \<Rightarrow> ('w, execution_result option) action_step" where
  "apply_creative_status env a client pausing plat st =
     (let calls = av_clients (ap_service env)
      in case target_creative a (as_db st) of
           None \<Rightarrow> (Inl (NotFoundError (''No creative found to '' @ oa_action_type a)), st)
         | Some c \<Rightarrow>
             let st1 = with_db (put_creative (c\<lparr>ce_status := creative_status_value (if pausing then CREATIVE_PAUSED else CREATIVE_ACTIVE)\<rparr>)) st
             in if ce_id c = [] then (Inr None, st1)
                else push_or_adapter
                       (push (ap_service env) (ap_clock env) (ap_now_text env) a
                         (if pausing then ''platform.pause_creative'' else ''platform.resume_creative'')
                         (if pausing then ''pause_creative'' else ''resume_creative'') plat
                         [(''creative_external_id'', JStr (ce_id c)), (''reason'', JStr (reason_for a))])
                       (map_option (\<lambda>p. (if pausing then nc_pause_creative calls else nc_resume_creative calls) p (ce_id c)
                          (take 200 (oa_reason a))) client) st1)"

definition apply_bid :: "action_row \<Rightarrow> campaign_row option \<Rightarrow> ('w, execution_result option) action_step" where
  "apply_bid a campaign st =
     (case parse_amount (oa_after_value a) of
        None \<Rightarrow> (Inl (ConflictError (''Action carries no usable bid value: '' @ oa_after_value a)), st)
      | Some v \<Rightarrow>
          if non_positive v then (Inl (ConflictError (''Action carries no usable bid value: '' @ oa_after_value a)), st)
          else (Inr None, case campaign of
                  Some c \<Rightarrow> with_db (put_campaign (c\<lparr>cp_current_bid_cpm := round_float 4 v\<rparr>)) st | None \<Rightarrow> st))"

definition start_ab_test :: "'w apply_env \<Rightarrow> action_row \<Rightarrow> action_db \<Rightarrow> action_db" where
  "start_ab_test env a db =
     (let cs = creatives_of (oa_campaign_id a) db;
          control = find (\<lambda>c. ce_ab_group c = ''control'') cs;
          variants = filter (\<lambda>c. ce_ab_group c \<noteq> ''control'' \<and> ce_status c \<noteq> ''rejected'') cs
      in db\<lparr>ad_experiments := ad_experiments db @
           [\<lparr>ab_id = ap_new_id env, ab_campaign_id = oa_campaign_id a, ab_name = ''Agent experiment for '' @ oa_campaign_id a,
             ab_hypothesis = take 500 (oa_reason a), ab_control_creative_id = map_option ce_id control,
             ab_variant_creative_id = (if variants = [] then None else Some (ce_id (List.last variants))), ab_metric = ''ctr'',
             ab_minimum_detectable_effect = 1/10, ab_required_sample_size = required_sample_size (25/1000) (1/10) Z_95,
             ab_traffic_split = 1/2, ab_created_by_run_id = oa_run_id a\<rparr>]\<rparr>)"

definition adapter_on :: "'w action_service \<Rightarrow> campaign_row option \<Rightarrow> platform option" where
  "adapter_on sv campaign =
     (case campaign of
        None \<Rightarrow> None
      | Some c \<Rightarrow> if synced_id campaign = None then None
                  else (case for_platform (av_platforms sv) (cp_platform c) of Inl e \<Rightarrow> None | Inr p \<Rightarrow> Some p))"

definition apply_action :: "'w apply_env \<Rightarrow> action_row \<Rightarrow> campaign_row option \<Rightarrow> ('w, execution_result option) action_step" where
  "apply_action env a campaign st =
     (let client = adapter_on (ap_service env) campaign; plat = platform_on campaign
      in case action_type_of (oa_action_type a) of
           None \<Rightarrow> (Inl (ValueError (oa_action_type a @ '' is not a valid ActionType'')), st)
         | Some ADJUST_BUDGET \<Rightarrow> apply_budget env a campaign client plat st
         | Some PAUSE_CAMPAIGN \<Rightarrow> apply_campaign_status env a campaign client True plat st
         | Some RESUME_CAMPAIGN \<Rightarrow> apply_campaign_status env a campaign client False plat st
         | Some PAUSE_CREATIVE \<Rightarrow> apply_creative_status env a client True plat st
         | Some RESUME_CREATIVE \<Rightarrow> apply_creative_status env a client False plat st
         | Some ADJUST_BID \<Rightarrow> apply_bid a campaign st
         | Some START_AB_TEST \<Rightarrow> (Inr None, with_db (start_ab_test env a) st)
         | Some _ \<Rightarrow> (Inr None, st))"

subsection \<open>The service\<close>

definition get_action :: "string \<Rightarrow> action_db \<Rightarrow> (py_error, action_row) res" where
  "get_action aid db =
     (case map_of (ad_actions db) aid of
        None \<Rightarrow> Inl (NotFoundError (''optimization_action '' @ aid @ '' was not found'')) | Some a \<Rightarrow> Inr a)"

definition status_json :: "string \<Rightarrow> json_dict" where
  "status_json s = [(''status'', JStr s)]"

definition approve :: "int \<Rightarrow> token_claims \<Rightarrow> client_meta option \<Rightarrow> string \<Rightarrow> action_db \<Rightarrow> (py_error, action_row) res \<times> action_db" where
  "approve now claims client aid db =
     (case bind_res (require_permission PERM_ACTION_APPROVE claims) (\<lambda>u. get_action aid db) of
        Inl e \<Rightarrow> (Inl e, db)
      | Inr a \<Rightarrow>
          if oa_status a \<notin> {''proposed'', ''suppressed''} then (Inl (ConflictError (''Action is already '' @ oa_status a)), db)
          else let a' = a\<lparr>oa_status := ''approved'', oa_approved_by := Some (tc_subject claims), oa_approved_at := Some now\<rparr>
               in (Inr a', audit_action ''action.approved'' aid claims (Some (status_json (oa_status a)))
                     (Some [(''status'', JStr ''approved''), (''action_type'', JStr (oa_action_type a)),
                            (''overruled_critic'', JBool (oa_status a = ''suppressed''))]) client (put_action a' db)))"

definition reject :: "int \<Rightarrow> token_claims \<Rightarrow> client_meta option \<Rightarrow> string \<Rightarrow> string \<Rightarrow> action_db
   \<Rightarrow> (py_error, action_row) res \<times> action_db" where
  "reject now claims client reason aid db =
     (case bind_res (require_permission PERM_ACTION_APPROVE claims) (\<lambda>u. get_action aid db) of
        Inl e \<Rightarrow> (Inl e, db)
      | Inr a \<Rightarrow>
          if oa_status a \<notin> {''proposed'', ''approved'', ''suppressed''}
          then (Inl (ConflictError (''Action is already '' @ oa_status a)), db)
          else let a' = a\<lparr>oa_status := ''rejected'', oa_approved_by := Some (tc_subject claims), oa_approved_at := Some now,
                          oa_reason := (if reason = [] then oa_reason a else oa_reason a @ '' | Rejected: '' @ take 400 reason)\<rparr>
               in (Inr a', audit_action ''action.rejected'' aid claims (Some (status_json (oa_status a)))
                     (Some [(''status'', JStr ''rejected''), (''reason'', JStr reason)]) client (put_action a' db)))"

text \<open>The row \<open>execute\<close> works on: without the approval gate, executing a proposal approves it on the way.\<close>

definition admitted :: "'w action_service \<Rightarrow> int \<Rightarrow> token_claims \<Rightarrow> action_row \<Rightarrow> (py_error, action_row) res" where
  "admitted sv now claims a =
     (if oa_status a \<in> {''executed'', ''rejected''} then Inl (ConflictError (''Action is already '' @ oa_status a))
      else if av_require_approval sv \<and> oa_status a \<noteq> ''approved''
      then Inl (ActionRequiresApprovalError (''Action '' @ oa_id a @ '' must be approved before execution (current: '' @ oa_status a @ '')''))
      else if \<not> av_require_approval sv \<and> oa_status a = ''proposed''
      then Inr (a\<lparr>oa_approved_by := Some (tc_subject claims), oa_approved_at := Some now, oa_status := ''approved''\<rparr>)
      else Inr a)"

definition record_success :: "int \<Rightarrow> token_claims \<Rightarrow> client_meta option \<Rightarrow> action_row \<Rightarrow> execution_result option \<Rightarrow> action_db
   \<Rightarrow> action_row \<times> action_db" where
  "record_success now claims client a result db =
     (let a' = a\<lparr>oa_status := ''executed'', oa_executed_at := Some now,
                 oa_external_reference := (case result of Some r \<Rightarrow> xr_external_reference r | None \<Rightarrow> oa_external_reference a)\<rparr>
      in (a', audit_action ''action.executed'' (oa_id a) claims
                (Some [(''status'', JStr ''approved''), (''campaign_id'', JStr (oa_campaign_id a))])
                (Some [(''status'', JStr ''executed''), (''action_type'', JStr (oa_action_type a)),
                       (''after_value'', JStr (oa_after_value a)), (''external_reference'', opt_json (oa_external_reference a')),
                       (''dry_run'', (case result of Some r \<Rightarrow> JBool (xr_dry_run r) | None \<Rightarrow> JNull))]) client (put_action a' db)))"

definition record_failure :: "token_claims \<Rightarrow> client_meta option \<Rightarrow> action_row \<Rightarrow> py_error \<Rightarrow> action_db \<Rightarrow> action_db" where
  "record_failure claims client a e db =
     (let message = take 2000 (error_message e);
          a' = a\<lparr>oa_status := ''failed'', oa_error_message := Some message\<rparr>
      in audit_action ''action.failed'' (oa_id a) claims None (Some [(''error'', JStr message)]) client (put_action a' db))"

definition execute_action :: "'w apply_env \<Rightarrow> int \<Rightarrow> token_claims \<Rightarrow> client_meta option \<Rightarrow> string
   \<Rightarrow> ('w, action_row \<times> execution_result option) action_step" where
  "execute_action env now claims client aid st =
     (case bind_res (require_permission PERM_ACTION_EXECUTE claims) (\<lambda>u. bind_res (get_action aid (as_db st)) (admitted (ap_service env) now claims)) of
        Inl e \<Rightarrow> (Inl e, st)
      | Inr a \<Rightarrow>
          let st0 = with_db (put_action a) st
          in case apply_action env a (map_of (ad_campaigns (as_db st0)) (oa_campaign_id a)) st0 of
               (Inl e, st1) \<Rightarrow> (Inl e, with_db (record_failure claims client a e) st1)
             | (Inr result, st1) \<Rightarrow>
                 (case record_success now claims client a result (as_db st1) of
                    (a', db) \<Rightarrow> (Inr (a', result), st1\<lparr>as_db := db\<rparr>)))"

record bulk_result =
  bk_approved :: "string list"
  bk_skipped :: "(string \<times> string) list"
  bk_executed :: "string list"
  bk_failed :: "(string \<times> string) list"

fun bulk_approve :: "int \<Rightarrow> token_claims \<Rightarrow> client_meta option \<Rightarrow> real \<Rightarrow> string list \<Rightarrow> action_db
   \<Rightarrow> (py_error, string list \<times> (string \<times> string) list) res \<times> action_db" where
  "bulk_approve now claims client min_confidence [] db = (Inr ([], []), db)"
| "bulk_approve now claims client min_confidence (aid # aids) db =
     (let skip = (\<lambda>reason. case bulk_approve now claims client min_confidence aids db of
                     (Inr (ok, sk), db1) \<Rightarrow> (Inr (ok, (aid, reason) # sk), db1) | (Inl e, db1) \<Rightarrow> (Inl e, db1))
      in case map_of (ad_actions db) aid of
           None \<Rightarrow> skip ''not_found''
         | Some a \<Rightarrow>
             if oa_status a \<noteq> ''proposed'' then skip (''status_'' @ oa_status a)
             else if oa_confidence a < min_confidence then skip ''low_confidence''
             else (case approve now claims client aid db of
                     (Inl e, db1) \<Rightarrow> (Inl e, db1)
                   | (Inr a', db1) \<Rightarrow>
                       (case bulk_approve now claims client min_confidence aids db1 of
                          (Inr (ok, sk), db2) \<Rightarrow> (Inr (aid # ok, sk), db2) | (Inl e, db2) \<Rightarrow> (Inl e, db2))))"

fun bulk_execute :: "'w apply_env \<Rightarrow> int \<Rightarrow> token_claims \<Rightarrow> client_meta option \<Rightarrow> string list \<Rightarrow> 'w action_state
   \<Rightarrow> string list \<times> (string \<times> string) list \<times> 'w action_state" where
  "bulk_execute env now claims client [] st = ([], [], st)"
| "bulk_execute env now claims client (aid # aids) st =
     (case execute_action env now claims client aid st of
        (r, st1) \<Rightarrow>
          (case bulk_execute env now claims client aids st1 of
             (ok, bad, st2) \<Rightarrow>
               (case r of Inr x \<Rightarrow> (aid # ok, bad, st2) | Inl e \<Rightarrow> (ok, (aid, take 200 (error_message e)) # bad, st2))))"

subsection \<open>The endpoints\<close>

text \<open>The unit of work of a request: a raise rolls the database back, and nothing else.\<close>

definition request_scope :: "(py_error, 'a) res \<times> 'w action_state \<Rightarrow> 'w action_state \<Rightarrow> (py_error, 'a) res \<times> 'w action_state" where
  "request_scope result before =
     (case result of (Inl e, after) \<Rightarrow> (Inl e, after\<lparr>as_db := as_db before\<rparr>) | (Inr a, after) \<Rightarrow> (Inr a, after))"

definition on_db :: "(action_db \<Rightarrow> (py_error, 'a) res \<times> action_db) \<Rightarrow> ('w, 'a) action_step" where
  "on_db f st = (case f (as_db st) of (r, db) \<Rightarrow> (r, st\<lparr>as_db := db\<rparr>))"

definition bulk_actions :: "'w apply_env \<Rightarrow> int \<Rightarrow> token_claims \<Rightarrow> client_meta option \<Rightarrow> real \<Rightarrow> bool \<Rightarrow> string list
   \<Rightarrow> ('w, bulk_result) action_step" where
  "bulk_actions env now claims client min_confidence run_them aids st =
     (case bind_res (require_permission PERM_ACTION_APPROVE claims) (\<lambda>u. Inr ()) of
        Inl e \<Rightarrow> (Inl e, st)
      | Inr _ \<Rightarrow>
          (case on_db (bulk_approve now claims client min_confidence aids) st of
             (Inl e, st1) \<Rightarrow> (Inl e, st1)
           | (Inr (ok, sk), st1) \<Rightarrow>
               if \<not> run_them then (Inr \<lparr>bk_approved = ok, bk_skipped = sk, bk_executed = [], bk_failed = []\<rparr>, st1)
               else if \<not> has_permission claims PERM_ACTION_EXECUTE
               then (Inl (PermissionDeniedError ''Executing actions requires the action:execute permission''), st1)
               else (case bulk_execute env now claims client ok st1 of
                       (dn, bad, st2) \<Rightarrow> (Inr \<lparr>bk_approved = ok, bk_skipped = sk, bk_executed = dn, bk_failed = bad\<rparr>, st2))))"

datatype action_request =
    AApprove string
  | AReject string string
  | AExecute string
  | ABulk "string list" real bool

definition drop_value :: "(py_error, 'a) res \<times> 's \<Rightarrow> (py_error, unit) res \<times> 's" where
  "drop_value p = (case p of (Inl e, s) \<Rightarrow> (Inl e, s) | (Inr x, s) \<Rightarrow> (Inr (), s))"

definition handle_action :: "'w apply_env \<Rightarrow> int \<Rightarrow> token_claims \<Rightarrow> client_meta option \<Rightarrow> action_request \<Rightarrow> ('w, unit) action_step" where
  "handle_action env now claims client rq st =
     (case rq of
        AApprove aid \<Rightarrow> drop_value (request_scope (on_db (approve now claims client aid) st) st)
      | AReject aid reason \<Rightarrow> drop_value (request_scope (on_db (reject now claims client reason aid) st) st)
      | AExecute aid \<Rightarrow> drop_value (request_scope (execute_action env now claims client aid st) st)
      | ABulk aids min_confidence run_them \<Rightarrow>
          drop_value (request_scope (bulk_actions env now claims client min_confidence run_them aids st) st))"

end
