(* ===== verification/ActionFlow.thy ===== *)
theory ActionFlow
  imports Actions
begin

text \<open>
  The life of a proposal under any sequence of requests and of other writers: what one request does to the
  rows and to the outside world, the invariants of the reachable states, and what they give: an approval
  stands in the audit trail before anything is executed, settled proposals stay settled, a paper-trading
  deployment touches nothing, and what a failed execution leaves behind.
\<close>

subsection \<open>What a step leaves alone\<close>

lemma with_db_simps [simp]:
  "as_db (with_db f st) = f (as_db st)" "as_world (with_db f st) = as_world st" "as_executor (with_db f st) = as_executor st"
  by (simp_all add: with_db_def)

lemma put_other_tables [simp]:
  "ad_actions (put_campaign c db) = ad_actions db" "ad_audit (put_campaign c db) = ad_audit db"
  "ad_actions (put_creative x db) = ad_actions db" "ad_audit (put_creative x db) = ad_audit db"
  "ad_audit (put_action a db) = ad_audit db" "ad_campaigns (put_action a db) = ad_campaigns db"
  "ad_actions (audit_action n k cl b f m db) = ad_actions db" "ad_campaigns (audit_action n k cl b f m db) = ad_campaigns db"
  "ad_actions (start_ab_test env a db) = ad_actions db" "ad_audit (start_ab_test env a db) = ad_audit db"
  by (simp_all add: put_campaign_def put_creative_def put_action_def audit_action_def add_audit_def start_ab_test_def Let_def)

lemma push_db [simp]: "as_db (snd (push sv ck tx a tool opn plat args st)) = as_db st"
  by (simp add: push_def Let_def split_beta split: option.split)

lemma call_adapter_db [simp]: "as_db (snd (call_adapter call st)) = as_db st"
  by (simp add: call_adapter_def split_beta split: option.split sum.split prod.split)

lemma push_or_adapter_db:
  assumes "\<And>st. as_db (snd (p st)) = as_db st"
  shows "as_db (snd (push_or_adapter p call st)) = as_db st"
proof -
  obtain r st1 where p: "p st = (r, st1)" by (rule prod.exhaust)
  then have "as_db st1 = as_db st" using assms [of st] by simp
  then show ?thesis using call_adapter_db [of call st1] by (simp add: push_or_adapter_def p split: sum.split option.split)
qed

lemma push_then_adapter_db [simp]:
  "as_db (snd (push_or_adapter (push sv ck tx a tool opn plat args) call st)) = as_db st"
  by (rule push_or_adapter_db) simp

definition same_rows :: "action_db \<Rightarrow> action_db \<Rightarrow> bool" where
  "same_rows db db' \<longleftrightarrow> ad_actions db' = ad_actions db \<and> ad_audit db' = ad_audit db"

lemma apply_action_rows: "same_rows (as_db st) (as_db (snd (apply_action env a c st)))"
proof -
  have bid: "same_rows (as_db st) (as_db (snd (apply_bid a c st)))"
    by (simp add: same_rows_def apply_bid_def split: option.split)
  have budget: "same_rows (as_db st) (as_db (snd (apply_budget env a c k p st)))" for k p
    by (simp add: same_rows_def apply_budget_def Let_def split: option.split)
  have camp: "same_rows (as_db st) (as_db (snd (apply_campaign_status env a c k b p st)))" for k b p
    by (simp add: same_rows_def apply_campaign_status_def Let_def split: option.split)
  have crea: "same_rows (as_db st) (as_db (snd (apply_creative_status env a k b p st)))" for k b p
    by (simp add: same_rows_def apply_creative_status_def Let_def split: option.split)
  show ?thesis using bid budget camp crea
    by (simp add: apply_action_def Let_def same_rows_def split: option.split action_type.split)
qed

subsection \<open>Keys\<close>

definition keyed_actions :: "action_db \<Rightarrow> bool" where
  "keyed_actions db \<longleftrightarrow> (\<forall>k a. map_of (ad_actions db) k = Some a \<longrightarrow> oa_id a = k)"

lemma map_of_put_action [simp]:
  "map_of (ad_actions (put_action a db)) k = (if k = oa_id a then Some a else map_of (ad_actions db) k)"
  by (simp add: put_action_def update_conv')

lemma keyed_put_action: "keyed_actions db \<Longrightarrow> keyed_actions (put_action a db)"
  by (simp add: keyed_actions_def)

lemma keyed_audit [simp]: "keyed_actions (audit_action n k c b f m db) = keyed_actions db"
  by (simp add: keyed_actions_def)

lemma get_action_Inr: "get_action aid db = Inr a \<longleftrightarrow> map_of (ad_actions db) aid = Some a"
  by (simp add: get_action_def split: option.split)

text \<open>The approval in the trail.\<close>

definition approval_of :: "string \<Rightarrow> audit_row \<Rightarrow> bool" where
  "approval_of aid r \<longleftrightarrow> au_action r = ''action.approved'' \<and> au_resource_id r = Some aid
     \<and> (\<exists>role. au_actor_role r = role_value role \<and> PERM_ACTION_APPROVE \<in> set (ROLE_PERMISSIONS role))"

definition approved_on_record :: "action_db \<Rightarrow> string \<Rightarrow> bool" where
  "approved_on_record db aid \<longleftrightarrow> (\<exists>r\<in>set (ad_audit db). approval_of aid r)"

definition flow_ok :: "action_db \<Rightarrow> bool" where
  "flow_ok db \<longleftrightarrow> keyed_actions db \<and> (\<forall>k a. map_of (ad_actions db) k = Some a \<and> oa_status a \<in> {''approved'', ''executed'', ''failed''}
     \<longrightarrow> approved_on_record db k)"

text \<open>How the status of a proposal may move, over any number of requests.\<close>

definition moves_to :: "string \<Rightarrow> string \<Rightarrow> bool" where
  "moves_to s s' \<longleftrightarrow> s' = s \<or> s \<in> {''proposed'', ''suppressed''} \<and> s' \<in> {''approved'', ''rejected'', ''executed'', ''failed''}
     \<or> s = ''approved'' \<and> s' \<in> {''rejected'', ''executed'', ''failed''}"

lemma moves_to_trans: "moves_to a b \<Longrightarrow> moves_to b c \<Longrightarrow> moves_to a c"
  by (auto simp: moves_to_def)

lemma moves_to_refl [simp]: "moves_to a a"
  by (simp add: moves_to_def)

definition evolves :: "action_db \<Rightarrow> action_db \<Rightarrow> bool" where
  "evolves db db' \<longleftrightarrow> (\<exists>xs. ad_audit db' = ad_audit db @ xs)
     \<and> (\<forall>k a. map_of (ad_actions db) k = Some a \<longrightarrow> (\<exists>a'. map_of (ad_actions db') k = Some a' \<and> moves_to (oa_status a) (oa_status a')))"

lemma evolves_refl [simp]: "evolves db db"
  by (auto simp: evolves_def)

lemma evolves_trans: "evolves a b \<Longrightarrow> evolves b c \<Longrightarrow> evolves a c"
proof -
  assume a: "evolves a b" and b: "evolves b c"
  have "\<exists>xs. ad_audit c = ad_audit a @ xs" using a b unfolding evolves_def by (metis append.assoc)
  moreover have "\<exists>z. map_of (ad_actions c) k = Some z \<and> moves_to (oa_status x) (oa_status z)" if x: "map_of (ad_actions a) k = Some x" for k x
  proof -
    obtain y where y: "map_of (ad_actions b) k = Some y" "moves_to (oa_status x) (oa_status y)" using a x unfolding evolves_def by blast
    obtain z where "map_of (ad_actions c) k = Some z" "moves_to (oa_status y) (oa_status z)" using b y(1) unfolding evolves_def by blast
    then show ?thesis using moves_to_trans [OF y(2)] by blast
  qed
  ultimately show "evolves a c" unfolding evolves_def by blast
qed

lemma evolves_same_rows: "same_rows db db' \<Longrightarrow> evolves db db'"
  by (auto simp: evolves_def same_rows_def)

lemma same_rows_flow: "same_rows db db' \<Longrightarrow> flow_ok db \<Longrightarrow> flow_ok db'"
  by (simp add: flow_ok_def keyed_actions_def approved_on_record_def same_rows_def)

lemma approved_evolves: "evolves db db' \<Longrightarrow> approved_on_record db k \<Longrightarrow> approved_on_record db' k"
  by (auto simp: evolves_def approved_on_record_def)

text \<open>Writing one row with its audit entry.\<close>

lemma write_row:
  assumes "flow_ok db" "map_of (ad_actions db) (oa_id a') = Some a" "moves_to (oa_status a) (oa_status a')"
    and "oa_status a' \<in> {''approved'', ''executed'', ''failed''}
      \<Longrightarrow> approved_on_record db (oa_id a') \<or> approval_of (oa_id a') (audit_entry n ''optimization_action'' (Some k) (Some c) b f m)"
  shows "flow_ok (audit_action n k c b f m (put_action a' db)) \<and> evolves db (audit_action n k c b f m (put_action a' db))"
proof -
  let ?db = "audit_action n k c b f m (put_action a' db)"
  have audit: "ad_audit ?db = ad_audit db @ [audit_entry n ''optimization_action'' (Some k) (Some c) b f m]"
    by (simp add: audit_action_def add_audit_def)
  have ev: "evolves db ?db" using assms(2,3) audit by (auto simp: evolves_def)
  have "approved_on_record ?db j" if "map_of (ad_actions ?db) j = Some x" "oa_status x \<in> {''approved'', ''executed'', ''failed''}" for j x
  proof (cases "j = oa_id a'")
    case True
    then have "x = a'" using that(1) by simp
    then show ?thesis using assms(4) that(2) True approved_evolves [OF ev] audit by (auto simp: approved_on_record_def)
  next
    case False
    then show ?thesis using that assms(1) approved_evolves [OF ev] by (auto simp: flow_ok_def)
  qed
  moreover have "keyed_actions ?db" using assms(1) by (simp add: flow_ok_def keyed_put_action)
  ultimately show ?thesis using ev by (simp add: flow_ok_def)
qed

lemma approval_entry:
  assumes "has_permission c PERM_ACTION_APPROVE"
  shows "approval_of k (audit_entry ''action.approved'' ''optimization_action'' (Some k) (Some c) b f m)"
proof -
  have "take 20 (role_value r) = role_value r" for r by (cases r) simp_all
  then show ?thesis using assms by (auto simp: approval_of_def audit_entry_def has_permission_def)
qed

lemma require_permission_Inr [simp]: "require_permission p c = Inr u \<longleftrightarrow> has_permission c p"
  by (simp add: require_permission_def)

subsection \<open>The decisions\<close>

lemma approve_flow:
  assumes "flow_ok db"
  shows "flow_ok (snd (approve now c m aid db)) \<and> evolves db (snd (approve now c m aid db))"
proof (cases "\<exists>a. has_permission c PERM_ACTION_APPROVE \<and> map_of (ad_actions db) aid = Some a \<and> oa_status a \<in> {''proposed'', ''suppressed''}")
  case True
  then obtain a where a: "has_permission c PERM_ACTION_APPROVE" "map_of (ad_actions db) aid = Some a" "oa_status a \<in> {''proposed'', ''suppressed''}"
    by blast
  have "oa_id a = aid" using assms a(2) by (simp add: flow_ok_def keyed_actions_def)
  define a' where "a' = a\<lparr>oa_status := ''approved'', oa_approved_by := Some (tc_subject c), oa_approved_at := Some now\<rparr>"
  have id': "oa_id a' = aid" and st': "oa_status a' = ''approved''" using \<open>oa_id a = aid\<close> by (simp_all add: a'_def)
  have "snd (approve now c m aid db) = audit_action ''action.approved'' aid c (Some (status_json (oa_status a)))
      (Some [(''status'', JStr ''approved''), (''action_type'', JStr (oa_action_type a)),
         (''overruled_critic'', JBool (oa_status a = ''suppressed''))]) m (put_action a' db)"
    using a by (simp add: approve_def get_action_def bind_res_def require_permission_def a'_def Let_def)
  then show ?thesis
    using write_row [OF assms, of a' a "''action.approved''" aid c] a id' st' approval_entry [OF a(1)] by (auto simp: moves_to_def)
next
  case False
  then have "snd (approve now c m aid db) = db"
    by (auto simp: approve_def get_action_def bind_res_def require_permission_def split: option.splits)
  then show ?thesis using assms by simp
qed

lemma reject_flow:
  assumes "flow_ok db"
  shows "flow_ok (snd (reject now c m reason aid db)) \<and> evolves db (snd (reject now c m reason aid db))"
proof (cases "\<exists>a. has_permission c PERM_ACTION_APPROVE \<and> map_of (ad_actions db) aid = Some a
    \<and> oa_status a \<in> {''proposed'', ''approved'', ''suppressed''}")
  case True
  then obtain a where a: "has_permission c PERM_ACTION_APPROVE" "map_of (ad_actions db) aid = Some a"
      "oa_status a \<in> {''proposed'', ''approved'', ''suppressed''}" by blast
  have "oa_id a = aid" using assms a(2) by (simp add: flow_ok_def keyed_actions_def)
  define a' where "a' = a\<lparr>oa_status := ''rejected'', oa_approved_by := Some (tc_subject c), oa_approved_at := Some now,
      oa_reason := (if reason = [] then oa_reason a else oa_reason a @ '' | Rejected: '' @ take 400 reason)\<rparr>"
  have id': "oa_id a' = aid" and st': "oa_status a' = ''rejected''" using \<open>oa_id a = aid\<close> by (simp_all add: a'_def)
  have "snd (reject now c m reason aid db) = audit_action ''action.rejected'' aid c (Some (status_json (oa_status a)))
      (Some [(''status'', JStr ''rejected''), (''reason'', JStr reason)]) m (put_action a' db)"
    using a by (simp add: reject_def get_action_def bind_res_def require_permission_def a'_def Let_def)
  then show ?thesis
    using write_row [OF assms, of a' a "''action.rejected''" aid c] a id' st' by (auto simp: moves_to_def)
next
  case False
  then have "snd (reject now c m reason aid db) = db"
    by (auto simp: reject_def get_action_def bind_res_def require_permission_def split: option.splits)
  then show ?thesis using assms by simp
qed

subsection \<open>Execution\<close>

text \<open>With the approval gate, what execute works on is an approved row, as stored.\<close>

lemma admitted_gated: "av_require_approval sv \<Longrightarrow> admitted sv now c a = Inr a' \<longleftrightarrow> a' = a \<and> oa_status a = ''approved''"
  by (auto simp: admitted_def)

lemma execute_cases:
  assumes gate: "av_require_approval (ap_service env)" and run: "execute_action env now c m aid st = (r, st')"
  shows "(\<exists>e. r = Inl e \<and> st' = st) \<or>
     (\<exists>a n a' b f. has_permission c PERM_ACTION_EXECUTE \<and> map_of (ad_actions (as_db st)) aid = Some a \<and> oa_status a = ''approved''
        \<and> oa_id a' = oa_id a \<and> oa_status a' \<in> {''executed'', ''failed''}
        \<and> as_db st' = audit_action n (oa_id a) c b f m
              (put_action a' (as_db (snd (apply_action env a (map_of (ad_campaigns (as_db st)) (oa_campaign_id a)) (with_db (put_action a) st))))))"
proof (cases "bind_res (require_permission PERM_ACTION_EXECUTE c) (\<lambda>u. bind_res (get_action aid (as_db st)) (admitted (ap_service env) now c))")
  case (Inl e)
  then have "r = Inl e \<and> st' = st" using run by (auto simp: execute_action_def)
  then show ?thesis by blast
next
  case (Inr a)
  then have a: "has_permission c PERM_ACTION_EXECUTE" "map_of (ad_actions (as_db st)) aid = Some a" "oa_status a = ''approved''"
    by (auto simp: bind_res_Inr_iff get_action_Inr admitted_gated [OF gate])
  define st0 where "st0 = with_db (put_action a) st"
  obtain q st1 where q: "apply_action env a (map_of (ad_campaigns (as_db st)) (oa_campaign_id a)) st0 = (q, st1)" by (rule prod.exhaust)
  have st1: "st1 = snd (apply_action env a (map_of (ad_campaigns (as_db st)) (oa_campaign_id a)) (with_db (put_action a) st))"
    using q by (simp add: st0_def)
  have camps: "ad_campaigns (as_db st0) = ad_campaigns (as_db st)" by (simp add: st0_def)
  show ?thesis
  proof (cases q)
    case (Inl e)
    define a' where "a' = a\<lparr>oa_status := ''failed'', oa_error_message := Some (take 2000 (error_message e))\<rparr>"
    have "as_db st' = audit_action ''action.failed'' (oa_id a) c None (Some [(''error'', JStr (take 2000 (error_message e)))]) m
        (put_action a' (as_db st1))"
      using run \<open>bind_res _ _ = Inr a\<close> q Inl camps
      by (auto simp: execute_action_def Let_def record_failure_def a'_def simp flip: st0_def)
    moreover have "oa_id a' = oa_id a" "oa_status a' \<in> {''executed'', ''failed''}" by (simp_all add: a'_def)
    ultimately show ?thesis using a unfolding st1 by blast
  next
    case (Inr result)
    define a' where "a' = a\<lparr>oa_status := ''executed'', oa_executed_at := Some now,
        oa_external_reference := (case result of Some r \<Rightarrow> xr_external_reference r | None \<Rightarrow> oa_external_reference a)\<rparr>"
    have "\<exists>b f. as_db st' = audit_action ''action.executed'' (oa_id a) c b f m (put_action a' (as_db st1))"
    proof -
      have "as_db st' = snd (record_success now c m a result (as_db st1))"
        using run \<open>bind_res _ _ = Inr a\<close> q Inr camps
        by (auto simp: execute_action_def Let_def split_beta simp flip: st0_def)
      then show ?thesis unfolding record_success_def Let_def snd_conv a'_def by (intro exI) assumption
    qed
    moreover have "oa_id a' = oa_id a" "oa_status a' \<in> {''executed'', ''failed''}" by (simp_all add: a'_def)
    ultimately show ?thesis using a unfolding st1 by blast
  qed
qed

lemma put_same_flow:
  assumes "flow_ok db" "map_of (ad_actions db) aid = Some a"
  shows "flow_ok (put_action a db) \<and> evolves db (put_action a db)"
proof -
  have "oa_id a = aid" using assms by (simp add: flow_ok_def keyed_actions_def)
  then show ?thesis using assms by (auto simp: flow_ok_def keyed_actions_def evolves_def approved_on_record_def)
qed

lemma execute_flow:
  assumes gate: "av_require_approval (ap_service env)" and ok: "flow_ok (as_db st)" and run: "execute_action env now c m aid st = (r, st')"
  shows "flow_ok (as_db st') \<and> evolves (as_db st) (as_db st')
    \<and> (as_world st' \<noteq> as_world st \<longrightarrow> has_permission c PERM_ACTION_EXECUTE \<and> approved_on_record (as_db st) aid)"
  using execute_cases [OF gate run]
proof (elim disjE exE conjE)
  fix a n a' b f
  assume p: "has_permission c PERM_ACTION_EXECUTE" and a: "map_of (ad_actions (as_db st)) aid = Some a" "oa_status a = ''approved''"
    and a': "oa_id a' = oa_id a" "oa_status a' \<in> {''executed'', ''failed''}"
    and db: "as_db st' = audit_action n (oa_id a) c b f m
          (put_action a' (as_db (snd (apply_action env a (map_of (ad_campaigns (as_db st)) (oa_campaign_id a)) (with_db (put_action a) st)))))"
  define st1 where "st1 = snd (apply_action env a (map_of (ad_campaigns (as_db st)) (oa_campaign_id a)) (with_db (put_action a) st))"
  have rec: "approved_on_record (as_db st) aid" using ok a by (simp add: flow_ok_def)
  have put: "flow_ok (put_action a (as_db st))" "evolves (as_db st) (put_action a (as_db st))" using put_same_flow [OF ok a(1)] by simp_all
  have rows: "same_rows (put_action a (as_db st)) (as_db st1)"
    using apply_action_rows [of "with_db (put_action a) st"] by (simp add: st1_def)
  have f1: "flow_ok (as_db st1)" "evolves (put_action a (as_db st)) (as_db st1)"
    using same_rows_flow [OF rows] evolves_same_rows [OF rows] put by simp_all
  have e1: "evolves (as_db st) (as_db st1)" using evolves_trans [OF put(2) f1(2)] .
  have id: "oa_id a = aid" using ok a(1) by (simp add: flow_ok_def keyed_actions_def)
  have "map_of (ad_actions (as_db st1)) (oa_id a') = Some a" using rows a'(1) by (simp add: same_rows_def)
  moreover have "approved_on_record (as_db st1) (oa_id a')" using approved_evolves [OF e1 rec] a'(1) id by simp
  ultimately have "flow_ok (as_db st') \<and> evolves (as_db st1) (as_db st')"
    unfolding db st1_def [symmetric] using write_row [OF f1(1), of a' a] a'(2) a(2) by (auto simp: moves_to_def)
  then show ?thesis using e1 evolves_trans p rec by blast
qed (use ok in simp)

lemma bulk_approve_flow:
  "flow_ok db \<Longrightarrow> flow_ok (snd (bulk_approve now c m conf aids db)) \<and> evolves db (snd (bulk_approve now c m conf aids db))
    \<and> (\<forall>ok sk. fst (bulk_approve now c m conf aids db) = Inr (ok, sk) \<longrightarrow> set ok \<subseteq> set aids)"
proof (induction aids arbitrary: db)
  case (Cons aid aids)
  let ?tail = "\<lambda>d. flow_ok (snd (bulk_approve now c m conf aids d)) \<and> evolves d (snd (bulk_approve now c m conf aids d))
    \<and> (\<forall>ok sk. fst (bulk_approve now c m conf aids d) = Inr (ok, sk) \<longrightarrow> set ok \<subseteq> set aids)"
  have skip: "?tail db" by (rule Cons.IH [OF Cons.prems])
  obtain q d where q: "approve now c m aid db = (q, d)" by (rule prod.exhaust)
  have d: "flow_ok d" "evolves db d" using approve_flow [OF Cons.prems, of now c m aid] q by simp_all
  have later: "?tail d" by (rule Cons.IH [OF d(1)])
  obtain q1 d1 where q1: "bulk_approve now c m conf aids db = (q1, d1)" by (rule prod.exhaust)
  obtain q2 d2 where q2: "bulk_approve now c m conf aids d = (q2, d2)" by (rule prod.exhaust)
  show ?case
  proof (cases "\<exists>a. map_of (ad_actions db) aid = Some a \<and> oa_status a = ''proposed'' \<and> \<not> oa_confidence a < conf")
    case True
    then have "bulk_approve now c m conf (aid # aids) db = (case (q, d) of (Inl e, db1) \<Rightarrow> (Inl e, db1)
        | (Inr a', db1) \<Rightarrow> (case (q2, d2) of (Inr (ok, sk), db2) \<Rightarrow> (Inr (aid # ok, sk), db2) | (Inl e, db2) \<Rightarrow> (Inl e, db2)))"
      using q q2 by (auto split: sum.split)
    then show ?thesis using later d q2 evolves_trans [OF d(2)] by (fastforce split: sum.splits prod.splits)
  next
    case False
    then have "\<exists>why. bulk_approve now c m conf (aid # aids) db
        = (case (q1, d1) of (Inr (ok, sk), db1) \<Rightarrow> (Inr (ok, (aid, why) # sk), db1) | (Inl e, db1) \<Rightarrow> (Inl e, db1))"
      using q1 by (auto simp: Let_def split: option.split)
    then show ?thesis using skip q1 by (fastforce split: sum.splits prod.splits)
  qed
qed simp

lemma bulk_execute_flow:
  assumes gate: "av_require_approval (ap_service env)"
  shows "flow_ok (as_db st) \<Longrightarrow> bulk_execute env now c m aids st = (ok, bad, st') \<Longrightarrow>
    flow_ok (as_db st') \<and> evolves (as_db st) (as_db st')
    \<and> (as_world st' \<noteq> as_world st \<longrightarrow> has_permission c PERM_ACTION_EXECUTE \<and> (\<exists>k\<in>set aids. approved_on_record (as_db st') k))"
proof (induction aids arbitrary: st ok bad st')
  case (Cons aid aids)
  obtain r st1 where r: "execute_action env now c m aid st = (r, st1)" by (rule prod.exhaust)
  obtain ok2 bad2 st2 where b: "bulk_execute env now c m aids st1 = (ok2, bad2, st2)" by (rule prod_cases3)
  have st': "st' = st2" using Cons.prems(2) r b by (auto split: sum.splits)
  note one = execute_flow [OF gate Cons.prems(1) r]
  have rest: "flow_ok (as_db st2) \<and> evolves (as_db st1) (as_db st2)
    \<and> (as_world st2 \<noteq> as_world st1 \<longrightarrow> has_permission c PERM_ACTION_EXECUTE \<and> (\<exists>k\<in>set aids. approved_on_record (as_db st2) k))"
    using Cons.IH [OF _ b] one by blast
  have ev: "evolves (as_db st) (as_db st2)" using one rest evolves_trans by blast
  have "has_permission c PERM_ACTION_EXECUTE \<and> (\<exists>k\<in>set (aid # aids). approved_on_record (as_db st2) k)" if "as_world st2 \<noteq> as_world st"
  proof (cases "as_world st1 = as_world st")
    case True
    then show ?thesis using that rest by auto
  next
    case False
    then have "has_permission c PERM_ACTION_EXECUTE" "approved_on_record (as_db st) aid" using one by blast+
    then show ?thesis using approved_evolves [OF ev] by auto
  qed
  then show ?case using rest ev st' by blast
qed simp

subsection \<open>Requests\<close>

definition concerns :: "action_request \<Rightarrow> string \<Rightarrow> bool" where
  "concerns rq aid =
     (case rq of AApprove k \<Rightarrow> k = aid | AReject k reason \<Rightarrow> k = aid | AExecute k \<Rightarrow> k = aid | ABulk ks conf run_them \<Rightarrow> aid \<in> set ks)"

definition request_ok :: "token_claims \<Rightarrow> action_request \<Rightarrow> 'w action_state \<Rightarrow> 'w action_state \<Rightarrow> bool" where
  "request_ok c rq st st' \<longleftrightarrow> flow_ok (as_db st') \<and> evolves (as_db st) (as_db st')
     \<and> (as_world st' \<noteq> as_world st \<longrightarrow> has_permission c PERM_ACTION_EXECUTE)"

lemma scope_cases:
  assumes "drop_value (request_scope p st) = (r, st')"
  shows "(\<exists>e st1. p = (Inl e, st1) \<and> st' = st1\<lparr>as_db := as_db st\<rparr>) \<or> (\<exists>x. p = (Inr x, st'))"
  using assms by (cases p; cases "fst p") (auto simp: drop_value_def request_scope_def)

lemma on_db_parts: "on_db f st = (q, st1) \<Longrightarrow> as_db st1 = snd (f (as_db st)) \<and> as_world st1 = as_world st \<and> q = fst (f (as_db st))"
  by (auto simp: on_db_def split: prod.splits)

lemma bulk_actions_flow:
  assumes gate: "av_require_approval (ap_service env)" and ok: "flow_ok (as_db st)" and run: "bulk_actions env now c m conf run_them aids st = (q, st')"
  shows "(as_world st' \<noteq> as_world st \<longrightarrow> has_permission c PERM_ACTION_EXECUTE)
    \<and> (\<forall>x. q = Inr x \<longrightarrow> flow_ok (as_db st') \<and> evolves (as_db st) (as_db st')
         \<and> (as_world st' \<noteq> as_world st \<longrightarrow> (\<exists>k\<in>set aids. approved_on_record (as_db st') k)))
    \<and> (\<forall>e. q = Inl e \<longrightarrow> as_world st' = as_world st)"
proof (cases "has_permission c PERM_ACTION_APPROVE")
  case False
  then have "\<exists>e. q = Inl e \<and> st' = st" using run by (auto simp: bulk_actions_def bind_res_def require_permission_def)
  then show ?thesis by auto
next
  case True
  obtain p st1 where p: "on_db (bulk_approve now c m conf aids) st = (p, st1)" by (rule prod.exhaust)
  note parts = on_db_parts [OF p]
  have f: "flow_ok (as_db st1)" "evolves (as_db st) (as_db st1)" using bulk_approve_flow [OF ok, of now c m conf aids] parts by simp_all
  show ?thesis
  proof (cases p)
    case (Inl e)
    then have "q = Inl e \<and> st' = st1" using run p True by (auto simp: bulk_actions_def bind_res_def require_permission_def)
    then show ?thesis using parts by simp
  next
    case (Inr pair)
    obtain okl sk where pair: "pair = (okl, sk)" by (cases pair)
    have "fst (bulk_approve now c m conf aids (as_db st)) = Inr (okl, sk)" using parts Inr pair by simp
    then have sub: "set okl \<subseteq> set aids" using bulk_approve_flow [OF ok, of now c m conf aids] by blast
    obtain dn bad st2 where b: "bulk_execute env now c m okl st1 = (dn, bad, st2)" by (rule prod_cases3)
    note be = bulk_execute_flow [OF gate f(1) b]
    have "(\<not> run_them \<and> st' = st1) \<or> (run_them \<and> \<not> has_permission c PERM_ACTION_EXECUTE \<and> st' = st1 \<and> (\<exists>e. q = Inl e)) \<or> (st' = st2 \<and> (\<exists>x. q = Inr x))"
      using run p True Inr pair b by (auto simp: bulk_actions_def bind_res_def require_permission_def split: if_splits)
    then show ?thesis
    proof (elim disjE conjE)
      assume "st' = st2" "\<exists>x. q = Inr x"
      then show ?thesis using be parts f evolves_trans [OF f(2)] sub by auto
    qed (use parts f in auto)
  qed
qed

lemma handle_action_flow:
  assumes gate: "av_require_approval (ap_service env)" and ok: "flow_ok (as_db st)" and run: "handle_action env now c m rq st = (r, st')"
  shows "flow_ok (as_db st') \<and> evolves (as_db st) (as_db st')
    \<and> (as_world st' \<noteq> as_world st \<longrightarrow> has_permission c PERM_ACTION_EXECUTE \<and> (\<exists>k. concerns rq k \<and> approved_on_record (as_db st') k))"
proof (cases rq)
  case (AApprove aid)
  then have "drop_value (request_scope (on_db (approve now c m aid) st) st) = (r, st')" using run by (simp add: handle_action_def)
  from scope_cases [OF this] show ?thesis
    using ok approve_flow [OF ok, of now c m aid] by (auto dest!: on_db_parts)
next
  case (AReject aid reason)
  then have "drop_value (request_scope (on_db (reject now c m reason aid) st) st) = (r, st')" using run by (simp add: handle_action_def)
  from scope_cases [OF this] show ?thesis
    using ok reject_flow [OF ok, of now c m reason aid] by (auto dest!: on_db_parts)
next
  case (AExecute aid)
  obtain q st1 where q: "execute_action env now c m aid st = (q, st1)" by (rule prod.exhaust)
  note ex = execute_flow [OF gate ok q]
  have "drop_value (request_scope (q, st1) st) = (r, st')" using run AExecute q by (simp add: handle_action_def)
  from scope_cases [OF this] have "st' = st1 \<or> st' = st1\<lparr>as_db := as_db st\<rparr>" by auto
  then show ?thesis using ok ex approved_evolves [of "as_db st" "as_db st1" aid] AExecute by (auto simp: concerns_def)
next
  case (ABulk aids conf run_them)
  obtain q st1 where q: "bulk_actions env now c m conf run_them aids st = (q, st1)" by (rule prod.exhaust)
  note b = bulk_actions_flow [OF gate ok q]
  have "drop_value (request_scope (q, st1) st) = (r, st')" using run ABulk q by (simp add: handle_action_def)
  from scope_cases [OF this] show ?thesis using ok b ABulk by (auto simp: concerns_def)
qed

text \<open>
  The runs queue new proposals, withheld ones included; every other writer leaves the proposals alone and only
  appends to the trail, whatever it does to the campaigns, the executor and the world.
\<close>

inductive action_flow :: "'w action_state \<Rightarrow> 'w action_state \<Rightarrow> bool" where
  requested: "av_require_approval (ap_service env) \<Longrightarrow> handle_action env now c m rq st = (r, st') \<Longrightarrow> action_flow st st'"
| queued: "map_of (ad_actions (as_db st)) (oa_id a) = None \<Longrightarrow> oa_status a \<in> {''proposed'', ''suppressed''}
    \<Longrightarrow> action_flow st (with_db (put_action a) st)"
| elsewhere: "ad_actions (as_db st') = ad_actions (as_db st) \<Longrightarrow> ad_audit (as_db st') = ad_audit (as_db st) @ xs \<Longrightarrow> action_flow st st'"

abbreviation action_flows where "action_flows \<equiv> action_flow\<^sup>*\<^sup>*"

lemma action_flow_ok: "action_flow st st' \<Longrightarrow> flow_ok (as_db st) \<Longrightarrow> flow_ok (as_db st') \<and> evolves (as_db st) (as_db st')"
proof (induction rule: action_flow.induct)
  case (requested env now c m rq st r st')
  then show ?case using handle_action_flow by blast
next
  case (queued st a)
  then have "flow_ok (put_action a (as_db st)) \<and> evolves (as_db st) (put_action a (as_db st))"
    by (auto simp: flow_ok_def keyed_actions_def evolves_def approved_on_record_def)
  then show ?case by simp
next
  case (elsewhere st' st xs)
  then have "evolves (as_db st) (as_db st')" by (auto simp: evolves_def)
  moreover have "keyed_actions (as_db st')" using elsewhere by (simp add: flow_ok_def keyed_actions_def)
  ultimately show ?case using elsewhere approved_evolves by (auto simp: flow_ok_def)
qed

lemma action_flows_ok: "action_flows st st' \<Longrightarrow> flow_ok (as_db st) \<Longrightarrow> flow_ok (as_db st') \<and> evolves (as_db st) (as_db st')"
proof (induction rule: rtranclp_induct)
  case (step y z)
  then have y: "flow_ok (as_db y)" "evolves (as_db st) (as_db y)" by simp_all
  from action_flow_ok [OF step.hyps(2) y(1)] show ?case using evolves_trans [OF y(2)] by blast
qed simp

subsection \<open>Properties\<close>



subsubsection \<open>Paper trading\<close>

lemma push_dry:
  assumes "av_tools sv = Some (cfg, reg)" "ts_enabled cfg" "ts_dry_run cfg"
    and "\<And>spec. map_of reg tool = Some spec \<Longrightarrow> \<not> sp_read_only spec"
  shows "as_world (snd (push sv ck tx a tool opn plat args st)) = as_world st
    \<and> (plat \<noteq> None \<longrightarrow> fst (push sv ck tx a tool opn plat args st) \<noteq> Inr None)"
proof (cases plat)
  case None
  then show ?thesis by (simp add: push_def assms(1))
next
  case (Some p)
  let ?req = "push_request a tool args p"
  have req: "rq_tool ?req = tool" "rq_agent ?req = None" "rq_dry_run ?req = None" by (simp_all add: push_request_def)
  obtain r ex w where call: "call_tool cfg reg (fst ck) (snd ck) ?req (as_executor st) (as_world st) = (r, ex, w)" by (rule prod_cases3)
  have "w = as_world st"
  proof (cases "map_of reg tool")
    case None
    then show ?thesis using call by (auto simp: call_tool_def req Let_def split_beta assms(2))
  next
    case (Some spec)
    have dry: "should_dry_run cfg ?req spec" using assms(3,4) Some by (simp add: should_dry_run_def from_agent_def req)
    have "run_tool cfg (fst ck) (snd ck) ?req spec (as_executor st) (as_world st) = (r, ex, w)"
      using call Some by (simp add: call_tool_def req assms(2) allows_def from_agent_def)
    then show ?thesis using run_tool_world [of cfg "fst ck" "snd ck" ?req spec "as_executor st" "as_world st"] dry by simp
  qed
  then show ?thesis using Some call assms(1,2) by (simp add: push_def Let_def)
qed

lemma push_or_adapter_dry:
  assumes "\<And>st. as_world (snd (p st)) = as_world st" "call = None \<or> (\<forall>st. fst (p st) \<noteq> Inr None)"
  shows "as_world (snd (push_or_adapter p call st)) = as_world st"
proof -
  obtain r st1 where p: "p st = (r, st1)" by (rule prod.exhaust)
  then have w: "as_world st1 = as_world st" using assms(1) [of st] by simp
  have "r \<noteq> Inr None" if "call \<noteq> None" using assms(2) that p by (metis fst_conv)
  then show ?thesis using w by (cases r) (auto simp: push_or_adapter_def p call_adapter_def split: option.splits)
qed

lemma write_tools_registered:
  assumes "platform_registry ac = Inr reg" "map_of reg t = Some spec"
    and "t \<in> {''platform.set_daily_budget'', ''platform.pause_campaign'', ''platform.resume_campaign'', ''platform.pause_creative'',
      ''platform.resume_creative''}"
  shows "\<not> sp_read_only spec"
  using registered_write_tool [OF assms(1,2)] assms(3) by auto

lemma adapter_needs_platform: "platform_on c = None \<Longrightarrow> adapter_on sv c = None"
  by (auto simp: platform_on_def adapter_on_def for_platform_def synced_id_def split: option.splits if_splits)

lemma apply_action_dry:
  assumes "av_tools (ap_service env) = Some (cfg, reg)" "platform_registry ac = Inr reg" "ts_enabled cfg" "ts_dry_run cfg"
  shows "as_world (snd (apply_action env a c st)) = as_world st"
proof -
  note pushed = push_dry [OF assms(1,3,4)] and writes = write_tools_registered [OF assms(2)]
  have step: "as_world (snd (push_or_adapter (push (ap_service env) ck tx a t opn (platform_on c) args)
      (map_option f (adapter_on (ap_service env) c)) st1)) = as_world st1"
    if "t \<in> {''platform.set_daily_budget'', ''platform.pause_campaign'', ''platform.resume_campaign'', ''platform.pause_creative'',
      ''platform.resume_creative''}" for ck tx t opn args f st1
  proof (rule push_or_adapter_dry)
    show "as_world (snd (push (ap_service env) ck tx a t opn (platform_on c) args st)) = as_world st" for st
      using pushed [OF writes [OF _ that]] by simp
    show "map_option f (adapter_on (ap_service env) c) = None
        \<or> (\<forall>st. fst (push (ap_service env) ck tx a t opn (platform_on c) args st) \<noteq> Inr None)"
      using conjunct2 [OF pushed [where tool = t and plat = "platform_on c" and ck = ck and tx = tx and a = a and opn = opn
        and args = args, OF writes [OF _ that]]] adapter_needs_platform [of c "ap_service env"]
      by (cases "platform_on c") simp_all
  qed
  have bid: "as_world (snd (apply_bid a c st)) = as_world st"
    by (simp add: apply_bid_def split: option.split)
  have budget: "as_world (snd (apply_budget env a c (adapter_on (ap_service env) c) (platform_on c) st)) = as_world st"
    using step [of "''platform.set_daily_budget''"] by (simp add: apply_budget_def Let_def split: option.split)
  have camp: "as_world (snd (apply_campaign_status env a c (adapter_on (ap_service env) c) b (platform_on c) st)) = as_world st" for b
    using step [of "''platform.pause_campaign''"] step [of "''platform.resume_campaign''"]
    by (cases b) (simp_all add: apply_campaign_status_def Let_def split: option.split)
  have crea: "as_world (snd (apply_creative_status env a (adapter_on (ap_service env) c) b (platform_on c) st)) = as_world st" for b
    using step [of "''platform.pause_creative''"] step [of "''platform.resume_creative''"]
    by (cases b) (simp_all add: apply_creative_status_def Let_def split: option.split)
  show ?thesis using bid budget camp crea by (simp add: apply_action_def Let_def split: option.split action_type.split)
qed

lemma execute_dry:
  assumes "av_tools (ap_service env) = Some (cfg, reg)" "platform_registry ac = Inr reg" "ts_enabled cfg" "ts_dry_run cfg"
  shows "as_world (snd (execute_action env now c m aid st)) = as_world st"
proof (cases "bind_res (require_permission PERM_ACTION_EXECUTE c) (\<lambda>u. bind_res (get_action aid (as_db st)) (admitted (ap_service env) now c))")
  case (Inr a)
  obtain q st1 where q: "apply_action env a (map_of (ad_campaigns (as_db (with_db (put_action a) st))) (oa_campaign_id a)) (with_db (put_action a) st) = (q, st1)"
    by (rule prod.exhaust)
  then have "as_world st1 = as_world st" using apply_action_dry [OF assms, of a] by (metis snd_conv with_db_simps(2))
  then show ?thesis using Inr q by (simp add: execute_action_def Let_def split_beta split: sum.split)
qed (simp add: execute_action_def)

lemma bulk_execute_dry:
  assumes "av_tools (ap_service env) = Some (cfg, reg)" "platform_registry ac = Inr reg" "ts_enabled cfg" "ts_dry_run cfg"
  shows "as_world (snd (snd (bulk_execute env now c m aids st))) = as_world st"
  using execute_dry [OF assms, of now c m] by (induction aids arbitrary: st) (simp_all add: split_beta split: sum.split)

text \<open>
  Paper trading touches nothing: with the tool layer on and \<open>TOOLS__DRY_RUN\<close> set, no request changes the outside
  world, whoever sends it, whatever was approved and whatever the adapters would do.
\<close>

theorem paper_trading_touches_nothing:
  assumes "av_tools (ap_service env) = Some (cfg, reg)" "platform_registry ac = Inr reg" "ts_enabled cfg" "ts_dry_run cfg"
    and "handle_action env now c m rq st = (r, st')"
  shows "as_world st' = as_world st"
proof -
  have scope: "as_world (snd (drop_value (request_scope p st))) = as_world (snd p)" for p :: "(py_error, 'b) res \<times> 'a action_state"
    by (cases p; cases "fst p") (auto simp: drop_value_def request_scope_def)
  have db: "as_world (snd (on_db f st)) = as_world st" for f :: "action_db \<Rightarrow> (py_error, 'b) res \<times> action_db"
    by (simp add: on_db_def split_beta)
  have bulk: "as_world (snd (bulk_actions env now c m conf b aids st)) = as_world st" for conf b aids
  proof -
    obtain q st1 where q: "on_db (bulk_approve now c m conf aids) st = (q, st1)" by (rule prod.exhaust)
    then have "as_world st1 = as_world st" by (auto dest: on_db_parts)
    then show ?thesis using q bulk_execute_dry [OF assms(1-4), of now c m _ st1]
      by (simp add: bulk_actions_def split_beta split: sum.split)
  qed
  have "as_world (snd (handle_action env now c m rq st)) = as_world st"
    using execute_dry [OF assms(1-4), of now c m] bulk
    by (cases rq) (simp_all add: handle_action_def scope on_db_def split_beta)
  then show ?thesis using assms(5) by simp
qed

subsubsection \<open>What a failed execution leaves\<close>


subsubsection \<open>Without the approval gate\<close>

text \<open>
  With the approval gate off, a proposal the critic withheld is executed by one request, and nobody signs it: the row
  keeps its empty approver, the trail gains no approval and its row for the execution names the state before it
  as approved.
\<close>

theorem withheld_proposal_runs_unsigned:
  assumes "map_of (ad_actions (as_db st)) aid = Some a" "oa_id a = aid" "oa_status a = ''suppressed''"
    and "\<not> av_require_approval (ap_service env)" "execute_action env now c m aid st = (Inr (a', res), st')"
  shows "oa_status a' = ''executed'' \<and> oa_approved_by a' = oa_approved_by a \<and> map_of (ad_actions (as_db st')) aid = Some a'
    \<and> (\<exists>x. ad_audit (as_db st') = ad_audit (as_db st) @ [x] \<and> au_action x = ''action.executed'' \<and> \<not> approval_of aid x
         \<and> au_before x = Some [(''status'', JStr ''approved''), (''campaign_id'', JStr (oa_campaign_id a))])"
proof -
  have adm: "bind_res (require_permission PERM_ACTION_EXECUTE c) (\<lambda>u. bind_res (get_action aid (as_db st)) (admitted (ap_service env) now c)) = Inr a"
    if "has_permission c PERM_ACTION_EXECUTE"
    using assms(1,3,4) that by (simp add: bind_res_def require_permission_def get_action_def admitted_def)
  have perm: "has_permission c PERM_ACTION_EXECUTE"
    using assms(5) by (rule_tac ccontr) (simp add: execute_action_def bind_res_def require_permission_def)
  obtain q st1 where q: "apply_action env a (map_of (ad_campaigns (as_db (with_db (put_action a) st))) (oa_campaign_id a)) (with_db (put_action a) st) = (q, st1)"
    by (rule prod.exhaust)
  then have rows: "same_rows (as_db (with_db (put_action a) st)) (as_db st1)" by (metis apply_action_rows snd_conv)
  have settled: "record_success now c m a res (as_db st1) = (a', as_db st')"
    using assms(5) adm [OF perm] q by (auto simp: execute_action_def Let_def split: sum.splits prod.splits)
  have parts: "a' = fst (record_success now c m a res (as_db st1))" "as_db st' = snd (record_success now c m a res (as_db st1))"
    by (simp_all add: settled)
  have row: "map_of (ad_actions (as_db st')) aid = Some a'" "oa_status a' = ''executed''" "oa_approved_by a' = oa_approved_by a"
    using assms(2) by (simp_all add: parts record_success_def Let_def)
  have "ad_audit (as_db st1) = ad_audit (as_db st)" using rows by (simp add: same_rows_def put_action_def)
  then show ?thesis using row assms(2)
    by (simp add: parts(2) record_success_def Let_def audit_action_def add_audit_def audit_entry_def approval_of_def put_action_def)
qed

subsection \<open>Concrete requests\<close>

text \<open>A network that counts the calls it takes, refusing budgets; the manager signs and executes.\<close>

definition network_report :: "platform \<Rightarrow> execution_result" where
  "network_report p = \<lparr>xr_success = True, xr_platform = p, xr_operation = ''pause_campaign'', xr_external_reference = Some ''x1'',
     xr_detail = [], xr_error = None, xr_executed_at = [], xr_dry_run = False\<rparr>"

definition counting_calls :: "nat adapter_calls" where
  "counting_calls =
     \<lparr>nc_update_budget = (\<lambda>p x b w. (Inl (ExternalServiceError ''refused''), w)),
      nc_pause_campaign = (\<lambda>p x r w. (Inr (network_report p), w + 1)),
      nc_resume_campaign = (\<lambda>p x r w. (Inr (network_report p), w + 1)),
      nc_pause_creative = (\<lambda>p x r w. (Inr (network_report p), w + 1)),
      nc_resume_creative = (\<lambda>p x r w. (Inr (network_report p), w + 1))\<rparr>"

definition gated_env :: "nat apply_env" where
  "gated_env =
     \<lparr>ap_service = \<lparr>av_require_approval = True, av_tools = None,
        av_platforms = \<lparr>ar_mock_mode = False, ar_registered = [PLATFORM_META], ar_configured = [PLATFORM_META]\<rparr>,
        av_clients = counting_calls, av_str = (\<lambda>j. [])\<rparr>,
      ap_clock = (0, 1), ap_now_text = [], ap_new_id = ''e1''\<rparr>"

definition manager_claims :: token_claims where
  "manager_claims = \<lparr>tc_subject = ''u1'', tc_email = ''m'', tc_role = ROLE_OPTIMIZER, tc_session_id = ''s1'', tc_issued_at = 0,
     tc_expires_at = 900, tc_token_type = ''access'', tc_scopes = []\<rparr>"

definition queued_action :: "string \<Rightarrow> string \<Rightarrow> string \<Rightarrow> action_row" where
  "queued_action kind value status = \<lparr>oa_id = ''a1'', oa_run_id = Some ''r1'', oa_campaign_id = ''c1'', oa_creative_id = None,
     oa_action_type = kind, oa_status = status, oa_before_value = [], oa_after_value = value, oa_reason = ''weak'',
     oa_confidence = 9/10, oa_direction = None, oa_proposed_by = ''optimize'', oa_approved_by = None, oa_approved_at = None,
     oa_executed_at = None, oa_external_reference = None, oa_error_message = None\<rparr>"

definition running_campaign :: campaign_row where
  "running_campaign = \<lparr>cp_id = ''c1'', cp_name = ''Spring'', cp_platform = ''meta'', cp_status = ''active'',
     cp_external_id = Some ''x1'', cp_daily_budget = Fin 10, cp_total_budget = Fin 300, cp_target_cpa = Fin 100, cp_target_roas = Fin 2,
     cp_current_bid_cpm = Fin 5, cp_start_date = 0, cp_end_date = None, cp_target_audience = [], cp_objective = ''conversions'',
     cp_created_by = None\<rparr>"

definition desk :: "(string, action_row) dict \<Rightarrow> 'w \<Rightarrow> 'w action_state" where
  "desk actions w = \<lparr>as_db = \<lparr>ad_actions = actions, ad_campaigns = [(''c1'', running_campaign)], ad_creatives = [],
     ad_experiments = [], ad_audit = []\<rparr>, as_executor = new_executor, as_world = w\<rparr>"

lemmas desk_simps = desk_def queued_action_def running_campaign_def manager_claims_def gated_env_def counting_calls_def network_report_def

definition pause_queued :: "nat action_state" where
  "pause_queued = with_db (put_action (queued_action ''pause_campaign'' [] ''proposed'')) (desk [] 0)"

definition pause_approved :: "nat action_state" where
  "pause_approved = snd (handle_action gated_env 5 manager_claims None (AApprove ''a1'') pause_queued)"

lemma pause_flows: "action_flows (desk [] 0) pause_approved"
proof -
  have "action_flow (desk [] 0) pause_queued"
    unfolding pause_queued_def by (rule action_flow.queued) (simp_all add: desk_simps)
  moreover have "action_flow pause_queued pause_approved"
    by (rule action_flow.requested [where env = gated_env and now = 5 and c = manager_claims and m = None and rq = "AApprove ''a1''"
          and r = "fst (handle_action gated_env 5 manager_claims None (AApprove ''a1'') pause_queued)"])
      (simp_all add: pause_approved_def gated_env_def)
  ultimately show ?thesis by (metis converse_rtranclp_into_rtranclp r_into_rtranclp)
qed

lemmas approve_eval = pause_approved_def pause_queued_def handle_action_def drop_value_def request_scope_def on_db_def approve_def
  bind_res_def require_permission_def has_permission_def ROLE_PERMISSIONS_def get_action_def desk_simps audit_action_def add_audit_def
  put_action_def with_db_def Let_def

lemma pause_approved_row: "map_of (ad_actions (as_db pause_approved)) ''a1''
    = Some (queued_action ''pause_campaign'' [] ''approved''\<lparr>oa_approved_by := Some ''u1'', oa_approved_at := Some 5\<rparr>)"
  by (simp add: approve_eval)

lemma pause_executed: "as_world (snd (handle_action gated_env 6 manager_claims None (AExecute ''a1'') pause_approved)) = 1"
proof -
  have "as_world pause_approved = 0" "ad_campaigns (as_db pause_approved) = [(''c1'', running_campaign)]"
    by (simp_all add: approve_eval)
  then show ?thesis
    by (simp add: handle_action_def execute_action_def pause_approved_row bind_res_def require_permission_def has_permission_def
      ROLE_PERMISSIONS_def get_action_def admitted_def desk_simps apply_action_def action_type_of_def find_member_def action_type_members_def
      apply_campaign_status_def Let_def synced_id_def push_or_adapter_def push_def call_adapter_def adapter_on_def for_platform_def
      platform_of_def platform_members_def record_success_def drop_value_def request_scope_def)
qed



definition paper_settings :: tool_settings where
  "paper_settings = \<lparr>ts_enabled = True, ts_dry_run = True, ts_allow_agent_writes = True, ts_max_calls_per_run = 100\<rparr>"

definition paper_env :: "real list apply_env" where
  "paper_env =
     \<lparr>ap_service = \<lparr>av_require_approval = True,
        av_tools = Some (paper_settings,
          map (\<lambda>t. (sp_name t, t)) (build_platform_tools recording_clients)),
        av_platforms = \<lparr>ar_mock_mode = False, ar_registered = [PLATFORM_META], ar_configured = [PLATFORM_META]\<rparr>,
        av_clients = \<lparr>nc_update_budget = (\<lambda>p x b w. (Inr (network_report p), 0 # w)),
          nc_pause_campaign = (\<lambda>p x r w. (Inr (network_report p), 0 # w)), nc_resume_campaign = (\<lambda>p x r w. (Inr (network_report p), 0 # w)),
          nc_pause_creative = (\<lambda>p x r w. (Inr (network_report p), 0 # w)), nc_resume_creative = (\<lambda>p x r w. (Inr (network_report p), 0 # w))\<rparr>,
        av_str = (\<lambda>j. [])\<rparr>,
      ap_clock = (0, 1), ap_now_text = [], ap_new_id = ''e1''\<rparr>"

theorem paper_trading_touches_nothing_witness:
  "as_world (snd (handle_action paper_env 6 manager_claims None (AExecute ''a1'')
     (desk [(''a1'', queued_action ''adjust_budget'' ''12'' ''approved'')] []))) = []"
proof -
  let ?st = "desk [(''a1'', queued_action ''adjust_budget'' ''12'' ''approved'')] []"
  let ?run = "handle_action paper_env 6 manager_claims None (AExecute ''a1'') ?st"
  have "as_world (snd ?run) = as_world ?st"
    by (rule paper_trading_touches_nothing [where r = "fst ?run" and cfg = paper_settings, OF _ platform_registry_eq [of recording_clients]])
      (simp_all add: paper_env_def paper_settings_def)
  then show ?thesis by (simp add: desk_def)
qed


definition ungated_env :: "nat apply_env" where
  "ungated_env = gated_env\<lparr>ap_service := ap_service gated_env\<lparr>av_require_approval := False\<rparr>\<rparr>"

theorem withheld_proposal_runs_unsigned_witness:
  "map_option oa_approved_by (map_of (ad_actions (as_db (snd (execute_action ungated_env 6 manager_claims None ''a1''
     (desk [(''a1'', queued_action ''expand_audience'' [] ''suppressed'')] 0))))) ''a1'') = Some None"
proof -
  let ?st = "desk [(''a1'', queued_action ''expand_audience'' [] ''suppressed'')] (0 :: nat)"
  have "\<exists>p. fst (execute_action ungated_env 6 manager_claims None ''a1'' ?st) = Inr p"
    by (simp add: execute_action_def bind_res_def require_permission_def has_permission_def ROLE_PERMISSIONS_def get_action_def
        admitted_def desk_simps ungated_env_def apply_action_def action_type_of_def find_member_def action_type_members_def Let_def
        record_success_def)
  then obtain p where p: "fst (execute_action ungated_env 6 manager_claims None ''a1'' ?st) = Inr p" ..
  obtain a' res where "p = (a', res)" by (cases p)
  then obtain st' where run: "execute_action ungated_env 6 manager_claims None ''a1'' ?st = (Inr (a', res), st')"
    using p by (metis prod.collapse)
  show ?thesis
    using withheld_proposal_runs_unsigned [OF _ _ _ _ run, of "queued_action ''expand_audience'' [] ''suppressed''"] run
    by (simp add: desk_def queued_action_def ungated_env_def)
qed

end
