(* ===== verification/Metrics.thy ===== *)
theory Metrics
  imports Actions Kpi
begin

text \<open>
  The daily delivery table and its readers, \<open>MetricRepository\<close> of \<open>repositories/campaigns.py\<close>: the upsert of a
  slot, in which an absent column never overwrites, the merge of the two granularities a feed may report
  (the roll-up of a campaign and the breakdown by creative), the snapshots the agents work on, the statistics
  by creative and the reach.

  A slot is a campaign, a creative or none, and a day; the table is the list of its rows, whose own ids are
  left out. Sums over a group are written as sums over the matching rows; SQL leaves the order of the groups
  open, and the first occurrence is taken. Today's date is an argument.
\<close>

subsection \<open>Rows\<close>

record daily_metric =
  dm_campaign_id :: string
  dm_creative_id :: "string option"
  dm_stat_date :: int
  dm_impressions :: int
  dm_clicks :: int
  dm_conversions :: int
  dm_cost :: real
  dm_revenue :: real
  dm_unique_reach :: int
  dm_source :: "string option"
  dm_batch_id :: "string option"

type_synonym slot = "string \<times> string option \<times> int"

definition slot_of :: "daily_metric \<Rightarrow> slot" where
  "slot_of r = (dm_campaign_id r, dm_creative_id r, dm_stat_date r)"

text \<open>The columns a feed may assert; the absent ones are None.\<close>

record measured =
  ms_impressions :: "int option"
  ms_clicks :: "int option"
  ms_conversions :: "int option"
  ms_cost :: "real option"
  ms_revenue :: "real option"
  ms_unique_reach :: "int option"

subsection \<open>Writing a slot\<close>

definition or_old :: "'a option \<Rightarrow> 'a \<Rightarrow> 'a" where
  "or_old v x = (case v of None \<Rightarrow> x | Some y \<Rightarrow> y)"

definition new_metric :: "slot \<Rightarrow> measured \<Rightarrow> string option \<Rightarrow> string option \<Rightarrow> daily_metric" where
  "new_metric k m source batch =
     \<lparr>dm_campaign_id = fst k, dm_creative_id = fst (snd k), dm_stat_date = snd (snd k),
      dm_impressions = or_old (ms_impressions m) 0, dm_clicks = or_old (ms_clicks m) 0,
      dm_conversions = or_old (ms_conversions m) 0, dm_cost = or_old (ms_cost m) 0, dm_revenue = or_old (ms_revenue m) 0,
      dm_unique_reach = or_old (ms_unique_reach m) 0, dm_source = source, dm_batch_id = batch\<rparr>"

definition assert_columns :: "measured \<Rightarrow> string option \<Rightarrow> string option \<Rightarrow> daily_metric \<Rightarrow> daily_metric" where
  "assert_columns m source batch r =
     r\<lparr>dm_impressions := or_old (ms_impressions m) (dm_impressions r), dm_clicks := or_old (ms_clicks m) (dm_clicks r),
       dm_conversions := or_old (ms_conversions m) (dm_conversions r), dm_cost := or_old (ms_cost m) (dm_cost r),
       dm_revenue := or_old (ms_revenue m) (dm_revenue r), dm_unique_reach := or_old (ms_unique_reach m) (dm_unique_reach r),
       dm_source := (case source of None \<Rightarrow> dm_source r | Some s \<Rightarrow> Some s),
       dm_batch_id := (case batch of None \<Rightarrow> dm_batch_id r | Some b \<Rightarrow> Some b)\<rparr>"

text \<open>\<open>scalar_one_or_none\<close> raises on a slot with several rows, which the unique indexes rule out.\<close>

definition upsert_daily :: "slot \<Rightarrow> measured \<Rightarrow> string option \<Rightarrow> string option \<Rightarrow> daily_metric list
   \<Rightarrow> (py_error, daily_metric list) res" where
  "upsert_daily k m source batch table =
     (case filter (\<lambda>r. slot_of r = k) table of
        [] \<Rightarrow> Inr (table @ [new_metric k m source batch])
      | [_] \<Rightarrow> Inr (map (\<lambda>r. if slot_of r = k then assert_columns m source batch r else r) table)
      | _ \<Rightarrow> Inl (OtherError ''MultipleResultsFound'' ''Multiple rows were found when one or none was required''))"

definition existing_slots :: "string list \<Rightarrow> int list \<Rightarrow> daily_metric list \<Rightarrow> slot set" where
  "existing_slots cids dates table =
     (if cids = [] \<or> dates = [] then {}
      else set (map slot_of (filter (\<lambda>r. dm_campaign_id r \<in> set cids \<and> dm_stat_date r \<in> set dates) table)))"

subsection \<open>One granularity per bucket\<close>

record slot_measures =
  sl_name :: string
  sl_impressions :: int
  sl_clicks :: int
  sl_conversions :: int
  sl_cost :: real
  sl_revenue :: real

definition cutoff_for :: "int \<Rightarrow> int \<Rightarrow> int" where
  "cutoff_for today days = today - (max 1 days - 1)"

definition selected :: "int \<Rightarrow> string list \<Rightarrow> daily_metric \<Rightarrow> bool" where
  "selected cutoff ids r \<longleftrightarrow> cutoff \<le> dm_stat_date r \<and> (ids = [] \<or> dm_campaign_id r \<in> set ids)"

definition bucket_of :: "daily_metric \<Rightarrow> string \<times> int" where
  "bucket_of r = (dm_campaign_id r, dm_stat_date r)"

definition sum_rows :: "string \<Rightarrow> daily_metric list \<Rightarrow> slot_measures" where
  "sum_rows name rows =
     \<lparr>sl_name = name, sl_impressions = sum_list (map dm_impressions rows), sl_clicks = sum_list (map dm_clicks rows),
      sl_conversions = sum_list (map dm_conversions rows), sl_cost = sum_list (map dm_cost rows),
      sl_revenue = sum_list (map dm_revenue rows)\<rparr>"

text \<open>The join keeps the rows whose campaign exists.\<close>

definition daily_slots :: "int \<Rightarrow> string list \<Rightarrow> bool \<Rightarrow> (string, campaign_row) dict \<Rightarrow> daily_metric list
   \<Rightarrow> (string \<times> int, slot_measures) dict" where
  "daily_slots cutoff ids breakdown campaigns table =
     (let rows = filter (\<lambda>r. selected cutoff ids r \<and> (dm_creative_id r \<noteq> None) = breakdown
                   \<and> map_of campaigns (dm_campaign_id r) \<noteq> None) table
      in map (\<lambda>(k, rs). (k, sum_rows (case map_of campaigns (fst k) of Some c \<Rightarrow> cp_name c | None \<Rightarrow> []) rs))
           (group_by_key bucket_of rows []))"

definition merged_slots :: "int \<Rightarrow> string list \<Rightarrow> (string, campaign_row) dict \<Rightarrow> daily_metric list
   \<Rightarrow> (string \<times> int, slot_measures) dict" where
  "merged_slots cutoff ids campaigns table =
     (let slots = daily_slots cutoff ids False campaigns table
      in slots @ filter (\<lambda>(k, v). map_of slots k = None) (daily_slots cutoff ids True campaigns table))"

subsection \<open>Snapshots\<close>

definition snapshot_from :: "string \<Rightarrow> slot_measures list \<Rightarrow> (py_error, snapshot) res" where
  "snapshot_from cid bs =
     (let d = reconcile_delivery (sum_list (map sl_impressions bs)) (sum_list (map sl_clicks bs)) (sum_list (map sl_conversions bs))
                (sum_list (map sl_cost bs)) (sum_list (map sl_revenue bs))
      in validate_snapshot \<lparr>campaign_id = cid, campaign_name = (case bs of [] \<Rightarrow> [] | b # _ \<Rightarrow> sl_name b),
           impressions = d_impressions d, clicks = d_clicks d, conversions = d_conversions d,
           total_cost = d_cost d, total_revenue = d_revenue d, window_start = None, window_end = None\<rparr>)"

definition snapshots :: "int \<Rightarrow> int \<Rightarrow> string list \<Rightarrow> (string, campaign_row) dict \<Rightarrow> daily_metric list
   \<Rightarrow> (py_error, snapshot list) res" where
  "snapshots today days ids campaigns table =
     (let slots = merged_slots (cutoff_for today days) ids campaigns table
      in map_res (\<lambda>cid. snapshot_from cid (map snd (filter (\<lambda>(k, v). fst k = cid) slots)))
           (sort (remdups (map (fst \<circ> fst) slots))))"

subsection \<open>By creative, and reach\<close>

record creative_row_stats =
  cs_creative_id :: string
  cs_impressions :: int
  cs_clicks :: int
  cs_conversions :: int
  cs_cost :: real
  cs_revenue :: real

definition creative_stats :: "int \<Rightarrow> int \<Rightarrow> string list \<Rightarrow> daily_metric list \<Rightarrow> (string, creative_row_stats list) dict" where
  "creative_stats today days ids table =
     (let rows = filter (\<lambda>r. selected (cutoff_for today days) ids r \<and> dm_creative_id r \<noteq> None) table;
          groups = group_by_key (\<lambda>r. (dm_campaign_id r, the (dm_creative_id r))) rows [];
          stats = map (\<lambda>(k, rs). (fst k, let s = sum_rows [] rs in
                    \<lparr>cs_creative_id = snd k, cs_impressions = sl_impressions s, cs_clicks = sl_clicks s,
                     cs_conversions = sl_conversions s, cs_cost = sl_cost s, cs_revenue = sl_revenue s\<rparr>)) groups
      in map (\<lambda>(c, ps). (c, map snd ps)) (group_by_key fst stats []))"

definition reach :: "int \<Rightarrow> int \<Rightarrow> string list \<Rightarrow> daily_metric list \<Rightarrow> (string, int) dict" where
  "reach today days ids table =
     (let rows = filter (\<lambda>r. selected (cutoff_for today days) ids r \<and> 0 < dm_unique_reach r) table
      in map (\<lambda>(c, rs). (c, foldr max (map dm_unique_reach rs) 0)) (group_by_key dm_campaign_id rows []))"


subsection \<open>The table\<close>

definition unique_slots :: "daily_metric list \<Rightarrow> bool" where
  "unique_slots table \<longleftrightarrow> distinct (map slot_of table)"

definition counts_nonneg :: "daily_metric \<Rightarrow> bool" where
  "counts_nonneg r \<longleftrightarrow> 0 \<le> dm_impressions r \<and> 0 \<le> dm_clicks r \<and> 0 \<le> dm_conversions r \<and> 0 \<le> dm_cost r \<and> 0 \<le> dm_revenue r
     \<and> 0 \<le> dm_unique_reach r"

definition measured_nonneg :: "measured \<Rightarrow> bool" where
  "measured_nonneg m \<longleftrightarrow> (\<forall>v. ms_impressions m = Some v \<longrightarrow> 0 \<le> v) \<and> (\<forall>v. ms_clicks m = Some v \<longrightarrow> 0 \<le> v)
     \<and> (\<forall>v. ms_conversions m = Some v \<longrightarrow> 0 \<le> v) \<and> (\<forall>v. ms_cost m = Some v \<longrightarrow> 0 \<le> v)
     \<and> (\<forall>v. ms_revenue m = Some v \<longrightarrow> 0 \<le> v) \<and> (\<forall>v. ms_unique_reach m = Some v \<longrightarrow> 0 \<le> v)"

text \<open>The row of a slot, if there is one.\<close>

definition row_at :: "slot \<Rightarrow> daily_metric list \<Rightarrow> daily_metric option" where
  "row_at k table = find (\<lambda>r. slot_of r = k) table"

lemma slot_of_assert [simp]: "slot_of (assert_columns m s b r) = slot_of r"
  by (simp add: slot_of_def assert_columns_def)

lemma slot_of_new [simp]: "slot_of (new_metric k m s b) = k"
  by (simp add: slot_of_def new_metric_def)

lemma unique_filter:
  assumes "unique_slots table"
  shows "filter (\<lambda>r. slot_of r = k) table = (case row_at k table of None \<Rightarrow> [] | Some r \<Rightarrow> [r])"
  using assms unfolding unique_slots_def row_at_def
proof (induction table)
  case (Cons r rs)
  show ?case
  proof (cases "slot_of r = k")
    case True
    have "slot_of x \<noteq> k" if "x \<in> set rs" for x
      using Cons.prems True that by (metis distinct.simps(2) image_eqI list.map(2) list.set_map)
    then have "filter (\<lambda>x. slot_of x = k) rs = []" by (simp add: filter_empty_conv)
    then show ?thesis using True by simp
  qed (use Cons in simp)
qed simp

lemma row_at_slot: "row_at k table = Some r \<Longrightarrow> slot_of r = k \<and> r \<in> set table"
  by (auto simp: row_at_def find_Some_iff)

lemma row_at_None: "row_at k table = None \<longleftrightarrow> k \<notin> slot_of ` set table"
  by (auto simp: row_at_def find_None_iff)

lemma row_at_mem: "unique_slots table \<Longrightarrow> r \<in> set table \<Longrightarrow> row_at (slot_of r) table = Some r"
proof -
  assume "unique_slots table" "r \<in> set table"
  then have "r \<in> set (case row_at (slot_of r) table of None \<Rightarrow> [] | Some x \<Rightarrow> [x])"
    by (simp flip: unique_filter)
  then show ?thesis by (cases "row_at (slot_of r) table") simp_all
qed

lemma row_at_append: "row_at k (xs @ ys) = (case row_at k xs of None \<Rightarrow> row_at k ys | Some r \<Rightarrow> Some r)"
  by (induction xs) (auto simp: row_at_def)

text \<open>The written row: the new one, or the old one with the asserted columns.\<close>

definition written :: "slot \<Rightarrow> measured \<Rightarrow> string option \<Rightarrow> string option \<Rightarrow> daily_metric option \<Rightarrow> daily_metric" where
  "written k m source batch old = (case old of None \<Rightarrow> new_metric k m source batch | Some r \<Rightarrow> assert_columns m source batch r)"

lemma row_at_map: "(\<And>r. slot_of (f r) = slot_of r) \<Longrightarrow> row_at k (map f table) = map_option f (row_at k table)"
  by (induction table) (auto simp: row_at_def)

lemma upsert_daily_unique:
  assumes "unique_slots table"
  shows "\<exists>table'. upsert_daily k m source batch table = Inr table' \<and> unique_slots table'
    \<and> (\<forall>j. row_at j table' = (if j = k then Some (written k m source batch (row_at k table)) else row_at j table))
    \<and> slot_of ` set table' = insert k (slot_of ` set table)"
proof (cases "row_at k table")
  case None
  have "row_at j (table @ [new_metric k m source batch]) = (if j = k then Some (new_metric k m source batch) else row_at j table)" for j
    using None by (cases "row_at j table") (auto simp: row_at_append, auto simp: row_at_def)
  moreover have "unique_slots (table @ [new_metric k m source batch])"
    using assms None by (auto simp: unique_slots_def row_at_None)
  ultimately show ?thesis using None by (simp add: upsert_daily_def unique_filter [OF assms] written_def)
next
  case (Some r)
  let ?f = "\<lambda>x. if slot_of x = k then assert_columns m source batch x else x"
  have keep: "slot_of (?f x) = slot_of x" for x by simp
  have up: "upsert_daily k m source batch table = Inr (map ?f table)"
    by (simp add: upsert_daily_def unique_filter [OF assms] Some)
  have at: "row_at j (map ?f table) = (if j = k then Some (written k m source batch (row_at k table)) else row_at j table)" for j
  proof -
    have "row_at j (map ?f table) = map_option ?f (row_at j table)" by (rule row_at_map) (rule keep)
    then show ?thesis using Some row_at_slot [of j table] by (cases "row_at j table") (auto simp: written_def)
  qed
  have same: "map slot_of (map ?f table) = map slot_of table" unfolding map_map comp_def keep ..
  then have uniq: "unique_slots (map ?f table)" using assms unfolding unique_slots_def by (rule ssubst)
  have "slot_of ` set (map ?f table) = slot_of ` set table" using arg_cong [OF same, of set] unfolding set_map .
  also have "\<dots> = insert k (slot_of ` set table)" using row_at_slot [OF Some] by (metis image_eqI insert_absorb)
  finally show ?thesis using up at uniq by blast
qed

lemma or_old_nonneg: "(\<And>y. v = Some y \<Longrightarrow> 0 \<le> y) \<Longrightarrow> 0 \<le> x \<Longrightarrow> 0 \<le> or_old v (x :: 'a :: linordered_semidom)"
  by (simp add: or_old_def split: option.split)

lemma column_sel [simp]:
  "dm_impressions (assert_columns m s b r) = or_old (ms_impressions m) (dm_impressions r)"
  "dm_clicks (assert_columns m s b r) = or_old (ms_clicks m) (dm_clicks r)"
  "dm_conversions (assert_columns m s b r) = or_old (ms_conversions m) (dm_conversions r)"
  "dm_cost (assert_columns m s b r) = or_old (ms_cost m) (dm_cost r)"
  "dm_revenue (assert_columns m s b r) = or_old (ms_revenue m) (dm_revenue r)"
  "dm_unique_reach (assert_columns m s b r) = or_old (ms_unique_reach m) (dm_unique_reach r)"
  "dm_impressions (new_metric k m s b) = or_old (ms_impressions m) 0" "dm_clicks (new_metric k m s b) = or_old (ms_clicks m) 0"
  "dm_conversions (new_metric k m s b) = or_old (ms_conversions m) 0" "dm_cost (new_metric k m s b) = or_old (ms_cost m) 0"
  "dm_revenue (new_metric k m s b) = or_old (ms_revenue m) 0" "dm_unique_reach (new_metric k m s b) = or_old (ms_unique_reach m) 0"
  by (simp_all add: assert_columns_def new_metric_def)

lemma written_nonneg:
  assumes "measured_nonneg m" "\<And>r. old = Some r \<Longrightarrow> counts_nonneg r"
  shows "counts_nonneg (written k m s b old)"
proof (cases old)
  case None
  show ?thesis using assms(1) unfolding None written_def counts_nonneg_def measured_nonneg_def option.case column_sel
    by (intro conjI or_old_nonneg) (blast | simp)+
next
  case (Some r)
  show ?thesis using assms(1) assms(2) [OF Some]
    unfolding Some written_def counts_nonneg_def measured_nonneg_def option.case column_sel
    by (intro conjI or_old_nonneg) blast+
qed


subsection \<open>What a snapshot counts\<close>

text \<open>The rows a reader may see, and those that speak for a campaign and a day: the roll-up where there is one.\<close>

definition live_rows :: "int \<Rightarrow> string list \<Rightarrow> (string, campaign_row) dict \<Rightarrow> daily_metric list \<Rightarrow> daily_metric list" where
  "live_rows cutoff ids campaigns table = filter (\<lambda>r. selected cutoff ids r \<and> map_of campaigns (dm_campaign_id r) \<noteq> None) table"

definition delivery_rows :: "string \<times> int \<Rightarrow> daily_metric list \<Rightarrow> daily_metric list" where
  "delivery_rows k table =
     (let rows = filter (\<lambda>r. bucket_of r = k) table; rollup = filter (\<lambda>r. dm_creative_id r = None) rows
      in if rollup = [] then rows else rollup)"

definition name_in :: "(string, campaign_row) dict \<Rightarrow> string \<Rightarrow> string" where
  "name_in campaigns cid = (case map_of campaigns cid of Some c \<Rightarrow> cp_name c | None \<Rightarrow> [])"

definition delivered_days :: "string \<Rightarrow> daily_metric list \<Rightarrow> int set" where
  "delivered_days cid rows = dm_stat_date ` {r \<in> set rows. dm_campaign_id r = cid}"

lemma map_of_map_snd: "map_of (map (\<lambda>(k, v). (k, f k v)) xs) k = map_option (f k) (map_of xs k)"
  by (induction xs) auto

lemma map_of_daily_slots:
  "map_of (daily_slots cutoff ids b campaigns table) k =
     (let rows = filter (\<lambda>r. bucket_of r = k \<and> (dm_creative_id r \<noteq> None) = b) (live_rows cutoff ids campaigns table)
      in if rows = [] then None else Some (sum_rows (name_in campaigns (fst k)) rows))"
proof -
  have f: "filter (\<lambda>r. bucket_of r = k) (filter (\<lambda>r. selected cutoff ids r \<and> (dm_creative_id r \<noteq> None) = b
      \<and> map_of campaigns (dm_campaign_id r) \<noteq> None) table)
    = filter (\<lambda>r. bucket_of r = k \<and> (dm_creative_id r \<noteq> None) = b) (live_rows cutoff ids campaigns table)"
    unfolding live_rows_def filter_filter by (rule filter_cong) auto
  show ?thesis unfolding daily_slots_def Let_def map_of_map_snd map_of_group f by (simp add: name_in_def)
qed

lemma map_fst_map: "map fst (map (\<lambda>(k, v). (k, f k v)) xs) = map fst xs"
  by (induction xs) auto

lemma map_fst_filter: "map fst (filter (\<lambda>(k, v). P k) xs) = filter P (map fst xs)"
  by (induction xs) auto

lemma keys_daily_slots: "distinct (map fst (daily_slots cutoff ids b campaigns table))"
  unfolding daily_slots_def Let_def map_fst_map by (simp add: distinct_keys_group)

lemma map_of_filter_case: "map_of (filter (\<lambda>(k, v). P k) xs) k = (if P k then map_of xs k else None)"
  by (induction xs) auto

lemma map_of_merged_slots:
  "map_of (merged_slots cutoff ids campaigns table) k =
     (let rows = delivery_rows k (live_rows cutoff ids campaigns table)
      in if rows = [] then None else Some (sum_rows (name_in campaigns (fst k)) rows))"
proof -
  let ?live = "live_rows cutoff ids campaigns table"
  have up: "filter (\<lambda>r. bucket_of r = k \<and> (dm_creative_id r \<noteq> None) = False) ?live
      = filter (\<lambda>r. dm_creative_id r = None) (filter (\<lambda>r. bucket_of r = k) ?live)"
    by (simp add: conj_commute)
  have down: "filter (\<lambda>r. bucket_of r = k \<and> (dm_creative_id r \<noteq> None) = True) ?live = filter (\<lambda>r. bucket_of r = k) ?live"
    if "filter (\<lambda>r. dm_creative_id r = None) (filter (\<lambda>r. bucket_of r = k) ?live) = []"
    using that by (auto simp: filter_empty_conv intro!: filter_cong)
  show ?thesis
    unfolding merged_slots_def Let_def map_of_append map_of_filter_case map_of_daily_slots delivery_rows_def up
    using down by (simp add: map_add_def map_of_filter_case map_of_daily_slots up Let_def)
qed

lemma keys_merged_slots: "distinct (map fst (merged_slots cutoff ids campaigns table))"
  using keys_daily_slots [of cutoff ids _ campaigns table]
  unfolding merged_slots_def Let_def map_append map_fst_filter by (auto simp: map_of_eq_None_iff simp del: map_map)

text \<open>Sums over a dictionary with distinct keys.\<close>

lemma sum_list_keys:
  assumes "distinct (map fst xs)"
  shows "sum_list (map (\<lambda>(k, v). f v) (filter (\<lambda>(k, v). P k) xs))
    = (\<Sum>k\<in>{k \<in> fst ` set xs. P k}. case map_of xs k of Some v \<Rightarrow> f v | None \<Rightarrow> (0 :: 'n :: comm_monoid_add))"
  using assms
proof (induction xs)
  case (Cons x xs)
  obtain k v where x: "x = (k, v)" by (cases x)
  have new: "k \<notin> fst ` set xs" using Cons.prems x by simp
  let ?g = "\<lambda>j. case map_of xs j of Some v \<Rightarrow> f v | None \<Rightarrow> 0"
  let ?h = "\<lambda>j. case map_of (x # xs) j of Some v \<Rightarrow> f v | None \<Rightarrow> 0"
  have same: "(\<Sum>j\<in>{j \<in> fst ` set xs. P j}. ?h j) = (\<Sum>j\<in>{j \<in> fst ` set xs. P j}. ?g j)"
    by (rule sum.cong) (use new x in auto)
  have split: "{j \<in> fst ` set (x # xs). P j} = (if P k then insert k {j \<in> fst ` set xs. P j} else {j \<in> fst ` set xs. P j})"
    using x by auto
  have "sum ?h {j \<in> fst ` set (x # xs). P j} = (if P k then f v else 0) + sum ?h {j \<in> fst ` set xs. P j}"
    unfolding split using new x by (cases "P k") (subst if_P, simp, subst sum.insert, auto)
  moreover have "sum_list (map (\<lambda>(k, v). f v) (filter (\<lambda>(k, v). P k) xs)) = sum ?g {j \<in> fst ` set xs. P j}"
    using Cons by simp
  ultimately show ?case using x same by simp
qed simp

text \<open>What a campaign delivered on its days, each counted from one granularity.\<close>

definition delivered :: "(daily_metric \<Rightarrow> 'n :: comm_monoid_add) \<Rightarrow> string \<Rightarrow> daily_metric list \<Rightarrow> 'n" where
  "delivered f cid rows = (\<Sum>d\<in>delivered_days cid rows. sum_list (map f (delivery_rows (cid, d) rows)))"

lemma delivery_rows_empty: "delivery_rows k rows = [] \<longleftrightarrow> k \<notin> bucket_of ` set rows"
  by (auto simp: delivery_rows_def Let_def filter_empty_conv)

lemma keys_merged:
  "fst ` set (merged_slots cutoff ids campaigns table) = bucket_of ` set (live_rows cutoff ids campaigns table)"
proof -
  have "k \<in> fst ` set (merged_slots cutoff ids campaigns table) \<longleftrightarrow> k \<in> bucket_of ` set (live_rows cutoff ids campaigns table)" for k
    using map_of_eq_None_iff [of "merged_slots cutoff ids campaigns table" k] map_of_merged_slots [of cutoff ids campaigns table k]
    by (auto simp: Let_def delivery_rows_empty split: if_splits)
  then show ?thesis by blast
qed

lemma merged_sum:
  fixes f :: "slot_measures \<Rightarrow> 'n :: comm_monoid_add"
  assumes "\<And>n rs. f (sum_rows n rs) = sum_list (map g rs)"
  shows "sum_list (map f (map snd (filter (\<lambda>(k, v). fst k = cid) (merged_slots cutoff ids campaigns table))))
    = delivered g cid (live_rows cutoff ids campaigns table)"
proof -
  let ?live = "live_rows cutoff ids campaigns table" and ?m = "merged_slots cutoff ids campaigns table"
  have "sum_list (map f (map snd (filter (\<lambda>(k, v). fst k = cid) ?m))) = sum_list (map (\<lambda>(k, v). f v) (filter (\<lambda>(k, v). fst k = cid) ?m))"
    unfolding map_map comp_def split_beta ..
  also have "\<dots> = (\<Sum>k\<in>{k \<in> bucket_of ` set ?live. fst k = cid}. case map_of ?m k of Some v \<Rightarrow> f v | None \<Rightarrow> 0)"
    unfolding sum_list_keys [OF keys_merged_slots] keys_merged ..
  also have "{k \<in> bucket_of ` set ?live. fst k = cid} = Pair cid ` delivered_days cid ?live"
    by (auto simp: delivered_days_def bucket_of_def)
  also have "(\<Sum>k\<in>Pair cid ` delivered_days cid ?live. case map_of ?m k of Some v \<Rightarrow> f v | None \<Rightarrow> 0)
      = (\<Sum>d\<in>delivered_days cid ?live. case map_of ?m (cid, d) of Some v \<Rightarrow> f v | None \<Rightarrow> 0)"
    by (rule sum.reindex [unfolded comp_def]) (simp add: inj_on_def)
  also have "\<dots> = delivered g cid ?live"
    unfolding delivered_def by (rule sum.cong) (simp_all add: map_of_merged_slots Let_def assms)
  finally show ?thesis .
qed

lemma delivered_nonneg:
  fixes f :: "daily_metric \<Rightarrow> 'n :: ordered_comm_monoid_add"
  assumes "\<And>r. r \<in> set rows \<Longrightarrow> 0 \<le> f r"
  shows "0 \<le> delivered f cid rows"
proof -
  have "set (delivery_rows k rows) \<subseteq> set rows" for k by (auto simp: delivery_rows_def Let_def)
  then have "x \<in> set (delivery_rows k rows) \<Longrightarrow> 0 \<le> f x" for x k using assms by blast
  then show ?thesis unfolding delivered_def by (auto intro!: sum_nonneg sum_list_nonneg)
qed

lemma snapshots_spec:
  assumes "\<forall>r\<in>set table. counts_nonneg r" "live = live_rows (cutoff_for today days) ids campaigns table"
  shows "\<exists>ss. snapshots today days ids campaigns table = Inr ss
    \<and> map campaign_id ss = sorted_list_of_set (dm_campaign_id ` set live)
    \<and> (\<forall>s\<in>set ss. valid_snapshot s \<and> impressions s = delivered dm_impressions (campaign_id s) live
         \<and> clicks s = min (delivered dm_clicks (campaign_id s) live) (impressions s)
         \<and> conversions s = min (delivered dm_conversions (campaign_id s) live) (clicks s)
         \<and> total_cost s = py_round MONEY_DECIMALS (delivered dm_cost (campaign_id s) live)
         \<and> total_revenue s = py_round MONEY_DECIMALS (delivered dm_revenue (campaign_id s) live))"
proof -
  let ?slots = "merged_slots (cutoff_for today days) ids campaigns table"
  let ?of = "\<lambda>cid. map snd (filter (\<lambda>(k, v). fst k = cid) ?slots)"
  let ?d = "\<lambda>f cid. delivered f cid live"
  define snap where "snap cid = (let d = reconcile_delivery (delivered dm_impressions cid live) (delivered dm_clicks cid live)
      (delivered dm_conversions cid live) (delivered dm_cost cid live) (delivered dm_revenue cid live)
    in \<lparr>campaign_id = cid, campaign_name = (case ?of cid of [] \<Rightarrow> [] | b # _ \<Rightarrow> sl_name b), impressions = d_impressions d,
        clicks = d_clicks d, conversions = d_conversions d, total_cost = d_cost d, total_revenue = d_revenue d,
        window_start = None, window_end = None\<rparr>)" for cid
  have sub: "\<forall>r\<in>set live. counts_nonneg r" using assms by (simp add: live_rows_def)
  have nn: "0 \<le> ?d dm_impressions c" "0 \<le> ?d dm_clicks c" "0 \<le> ?d dm_conversions c" "0 \<le> delivered dm_cost c live"
    "0 \<le> delivered dm_revenue c live" for c
    using sub by (auto intro!: delivered_nonneg simp: counts_nonneg_def)
  have valid: "valid_snapshot (snap c)" for c
    using nn [of c] by (auto simp: snap_def reconcile_delivery_def Let_def valid_snapshot_def py_round_nonneg)
  have run: "snapshot_from c (?of c) = Inr (snap c)" for c
  proof -
    have sums: "sum_list (map sl_impressions (?of c)) = ?d dm_impressions c" "sum_list (map sl_clicks (?of c)) = ?d dm_clicks c"
      "sum_list (map sl_conversions (?of c)) = ?d dm_conversions c" "sum_list (map sl_cost (?of c)) = delivered dm_cost c live"
      "sum_list (map sl_revenue (?of c)) = delivered dm_revenue c live"
      unfolding assms(2) by (rule merged_sum, simp add: sum_rows_def)+
    show ?thesis using valid [of c] unfolding snapshot_from_def sums by (simp add: snap_def Let_def validate_snapshot_iff)
  qed
  let ?ids = "sort (remdups (map (fst \<circ> fst) ?slots))"
  have "snapshots today days ids campaigns table = Inr (map snap ?ids)"
    unfolding snapshots_def Let_def by (rule map_res_total) (rule run)
  moreover have "map campaign_id (map snap ?ids) = ?ids" by (simp add: comp_def snap_def Let_def)
  moreover have "?ids = sorted_list_of_set (dm_campaign_id ` set live)"
  proof -
    have "set (map (fst \<circ> fst) ?slots) = fst ` (fst ` set ?slots)" by (simp add: image_image)
    also have "\<dots> = dm_campaign_id ` set live" unfolding keys_merged assms(2) by (simp add: image_image bucket_of_def)
    finally show ?thesis by (metis sorted_list_of_set_sort_remdups)
  qed
  moreover have "\<forall>s\<in>set (map snap ?ids). valid_snapshot s \<and> impressions s = delivered dm_impressions (campaign_id s) live
         \<and> clicks s = min (delivered dm_clicks (campaign_id s) live) (impressions s)
         \<and> conversions s = min (delivered dm_conversions (campaign_id s) live) (clicks s)
         \<and> total_cost s = py_round MONEY_DECIMALS (delivered dm_cost (campaign_id s) live)
         \<and> total_revenue s = py_round MONEY_DECIMALS (delivered dm_revenue (campaign_id s) live)"
    using valid by (auto simp: snap_def reconcile_delivery_def Let_def)
  ultimately show ?thesis by metis
qed

lemma snapshots_valid:
  assumes "\<forall>r\<in>set table. counts_nonneg r"
  shows "\<exists>ss. snapshots today days ids campaigns table = Inr ss \<and> (\<forall>s\<in>set ss. valid_snapshot s)"
  using snapshots_spec [OF assms refl] by blast

text \<open>
  C22. Every figure is counted once: on a table of non-negative counts the snapshots always exist, one valid snapshot
  per campaign with rows in the window, in order of the ids, and each adds up every day of its campaign from
  exactly one granularity, the roll-up where a feed reported one and the breakdown otherwise; clicks and
  conversions are then cut to a consistent funnel and money is rounded to four decimals.
\<close>

theorem snapshots_count_each_day_once:
  assumes "\<forall>r\<in>set table. counts_nonneg r" "live = live_rows (cutoff_for today days) ids campaigns table"
  shows "\<exists>ss. snapshots today days ids campaigns table = Inr ss
    \<and> map campaign_id ss = sorted_list_of_set (dm_campaign_id ` set live)
    \<and> (\<forall>s\<in>set ss. valid_snapshot s \<and> impressions s = delivered dm_impressions (campaign_id s) live
         \<and> clicks s = min (delivered dm_clicks (campaign_id s) live) (impressions s)
         \<and> conversions s = min (delivered dm_conversions (campaign_id s) live) (clicks s)
         \<and> total_cost s = py_round MONEY_DECIMALS (delivered dm_cost (campaign_id s) live)
         \<and> total_revenue s = py_round MONEY_DECIMALS (delivered dm_revenue (campaign_id s) live))"
  using assms by (rule snapshots_spec)

text \<open>A day reported twice, as the total of the campaign and by creative.\<close>

definition shop_campaign :: campaign_row where
  "shop_campaign = \<lparr>cp_id = ''c1'', cp_name = ''Spring'', cp_platform = ''meta'', cp_status = ''active'',
     cp_external_id = Some ''x1'', cp_daily_budget = Fin 10, cp_total_budget = Fin 300, cp_target_cpa = Fin 100, cp_target_roas = Fin 2,
     cp_current_bid_cpm = Fin 5, cp_start_date = 0, cp_end_date = None, cp_target_audience = [], cp_objective = ''conversions'',
     cp_created_by = None\<rparr>"

definition day_row :: "string option \<Rightarrow> int \<Rightarrow> daily_metric" where
  "day_row creative n = \<lparr>dm_campaign_id = ''c1'', dm_creative_id = creative, dm_stat_date = 8, dm_impressions = n, dm_clicks = 2,
     dm_conversions = 1, dm_cost = 3, dm_revenue = 5, dm_unique_reach = 0, dm_source = None, dm_batch_id = None\<rparr>"

theorem snapshots_count_each_day_once_witness:
  "\<exists>ss. snapshots 10 7 [] [(''c1'', shop_campaign)] [day_row None 100, day_row (Some ''k1'') 60] = Inr ss
     \<and> map campaign_id ss = [''c1''] \<and> (\<forall>s\<in>set ss. impressions s = 100)"
proof -
  let ?t = "[day_row None 100, day_row (Some ''k1'') 60]"
  have live: "live_rows (cutoff_for 10 7) [] [(''c1'', shop_campaign)] ?t = ?t"
    by (simp add: live_rows_def cutoff_for_def selected_def day_row_def)
  have "{r \<in> set ?t. dm_campaign_id r = ''c1''} = {day_row None 100, day_row (Some ''k1'') 60}" by (auto simp: day_row_def)
  then have days: "delivered_days ''c1'' ?t = {8}" unfolding delivered_days_def by (simp add: day_row_def)
  have "delivered dm_impressions ''c1'' ?t = 100"
    unfolding delivered_def days by (simp add: delivery_rows_def bucket_of_def day_row_def)
  moreover have "dm_campaign_id ` set ?t = {''c1''}" by (simp add: day_row_def)
  moreover have "\<forall>r\<in>set ?t. counts_nonneg r" by (simp add: counts_nonneg_def day_row_def)
  ultimately show ?thesis
    using snapshots_count_each_day_once [of ?t _ 10 7 "[]" "[(''c1'', shop_campaign)]", OF _ refl, unfolded live] by fastforce
qed

end
