(* ===== verification/Ingest.thy ===== *)
theory Ingest
  imports Metrics Dates
begin

text \<open>
  Metric ingestion: the record a feed asserts with its validators (\<open>schemas/ingest.py\<close>), the registry of feeds
  (\<open>infra/ingest/registry.py\<close>), and \<open>services/ingest.py\<close>: the value checks, the attribution to campaigns and
  creatives, the refusal of slots asserted twice, the writes, the batch row, the audit row and the report.

  Today's date and the id of the batch are arguments. A query is the function of the tables it computes; the
  counters of Prometheus and the log are left out.
\<close>

subsection \<open>Records\<close>

definition MAX_ISSUES_REPORTED :: nat where "MAX_ISSUES_REPORTED = 200"
definition MAX_FUTURE_DAYS :: int where "MAX_FUTURE_DAYS = 1"

record metric_in =
  mi_platform :: "platform option"
  mi_external_id :: "string option"
  mi_campaign_id :: "string option"
  mi_creative_id :: "string option"
  mi_stat_date :: int
  mi_measured :: measured

text \<open>The validators: a fractional count is rounded half away from zero, an empty identity is absent.\<close>

definition round_count :: "real \<Rightarrow> int" where
  "round_count v = (if 0 \<le> v then \<lfloor>v + 1/2\<rfloor> else - \<lfloor>- v + 1/2\<rfloor>)"

definition blank_is_absent :: "string option \<Rightarrow> string option" where
  "blank_is_absent v = (case v of None \<Rightarrow> None | Some s \<Rightarrow> if strip s = [] then None else Some (strip s))"

definition too_long :: "nat \<Rightarrow> string option \<Rightarrow> bool" where
  "too_long n v = (case v of None \<Rightarrow> False | Some s \<Rightarrow> n < length s)"

text \<open>A pulled row has the same fields; building the record runs the length limits and the validators.\<close>

type_synonym source_record = metric_in

definition to_metric_input :: "source_record \<Rightarrow> (py_error, metric_in) res" where
  "to_metric_input r =
     (if too_long 120 (mi_external_id r) \<or> too_long 40 (mi_campaign_id r) \<or> too_long 40 (mi_creative_id r)
      then Inl (OtherError ''ValidationError'' ''String should have at most the declared number of characters'')
      else Inr (r\<lparr>mi_external_id := blank_is_absent (mi_external_id r), mi_campaign_id := blank_is_absent (mi_campaign_id r),
                  mi_creative_id := blank_is_absent (mi_creative_id r)\<rparr>))"

definition given :: "string option \<Rightarrow> string option" where
  "given v = (case v of Some s \<Rightarrow> if s = [] then None else Some s | None \<Rightarrow> None)"

text \<open>The platform coordinates, when both are there.\<close>

definition coordinates :: "metric_in \<Rightarrow> (string \<times> string) option" where
  "coordinates r = (case (mi_platform r, given (mi_external_id r)) of (Some p, Some x) \<Rightarrow> Some (platform_value p, x) | _ \<Rightarrow> None)"

definition identity :: "metric_in \<Rightarrow> string" where
  "identity r =
     (case given (mi_campaign_id r) of
        Some c \<Rightarrow> ''campaign_id='' @ c
      | None \<Rightarrow> (case coordinates r of Some (p, x) \<Rightarrow> p @ ''/'' @ x | None \<Rightarrow> ''unaddressed''))"

definition int_column :: "int option \<Rightarrow> real option" where
  "int_column v = map_option of_int v"

text \<open>\<open>DAILY_MEASUREMENTS\<close> with the values of a record.\<close>

definition columns :: "measured \<Rightarrow> (string \<times> real option) list" where
  "columns m = [(''impressions'', int_column (ms_impressions m)), (''clicks'', int_column (ms_clicks m)),
     (''conversions'', int_column (ms_conversions m)), (''cost'', ms_cost m), (''revenue'', ms_revenue m),
     (''unique_reach'', int_column (ms_unique_reach m))]"

definition measurements_present :: "measured \<Rightarrow> string list" where
  "measurements_present m = map fst (filter (\<lambda>(n, v). v \<noteq> None) (columns m))"

definition negative_columns :: "measured \<Rightarrow> string list" where
  "negative_columns m = map fst (filter (\<lambda>(n, v). case v of None \<Rightarrow> False | Some x \<Rightarrow> x < 0) (columns m))"

definition exceeds :: "int option \<Rightarrow> int option \<Rightarrow> bool" where
  "exceeds a b = (case (a, b) of (Some x, Some y) \<Rightarrow> y < x | _ \<Rightarrow> False)"

subsection \<open>Value checks\<close>

definition semantic_problem :: "int \<Rightarrow> metric_in \<Rightarrow> string option" where
  "semantic_problem today r =
     (let m = mi_measured r
      in if given (mi_campaign_id r) = None \<and> coordinates r = None
         then Some (''record carries neither campaign_id nor platform+external_id, so it cannot be attributed to a campaign'')
         else if negative_columns m \<noteq> [] then Some (''negative value for '' @ join_with '', '' (negative_columns m))
         else if exceeds (ms_clicks m) (ms_impressions m) then Some ''clicks exceed impressions within one record''
         else if exceeds (ms_conversions m) (ms_clicks m) then Some ''conversions exceed clicks within one record''
         else if measurements_present m = [] then Some ''record asserts no measurements; every column is absent''
         else if today + MAX_FUTURE_DAYS < mi_stat_date r
         then Some (''stat_date '' @ iso_date (mi_stat_date r) @ '' is more than '' @ show_int MAX_FUTURE_DAYS @ '' day(s) ahead of today'')
         else None)"

record issue =
  is_index :: nat
  is_reason :: string
  is_identity :: string
  is_stat_date :: int

definition issue_for :: "nat \<Rightarrow> metric_in \<Rightarrow> string \<Rightarrow> issue" where
  "issue_for i r reason = \<lparr>is_index = i, is_reason = reason, is_identity = identity r, is_stat_date = mi_stat_date r\<rparr>"

fun check_records :: "int \<Rightarrow> (nat \<times> metric_in) list \<Rightarrow> (nat \<times> metric_in) list \<times> issue list" where
  "check_records today [] = ([], [])"
| "check_records today ((i, r) # rs) =
     (case check_records today rs of (ok, bad) \<Rightarrow>
        (case semantic_problem today r of
           Some p \<Rightarrow> (ok, issue_for i r p # bad)
         | None \<Rightarrow> ((i, r) # ok, bad)))"

subsection \<open>Attribution\<close>

definition ids_by_external :: "(string \<times> string) list \<Rightarrow> (string, campaign_row) dict \<Rightarrow> (string \<times> string) \<Rightarrow> string option" where
  "ids_by_external wanted campaigns pair =
     (if pair \<in> set wanted
      then map_of (rev (concat (map (\<lambda>c. case cp_external_id c of None \<Rightarrow> [] | Some x \<Rightarrow> [((cp_platform c, x), cp_id c)])
             (map snd campaigns)))) pair
      else None)"

definition existing_ids :: "string list \<Rightarrow> (string, campaign_row) dict \<Rightarrow> string set" where
  "existing_ids ids campaigns = set (filter (\<lambda>i. map_of campaigns i \<noteq> None) ids)"

definition campaign_by_id :: "string list \<Rightarrow> (string, creative_entity) dict \<Rightarrow> string \<Rightarrow> string option" where
  "campaign_by_id ids creatives k = (if k \<in> set ids then map_option ce_campaign_id (map_of creatives k) else None)"

definition resolve_campaign :: "metric_in \<Rightarrow> string set \<Rightarrow> (string \<times> string \<Rightarrow> string option) \<Rightarrow> (string, string) res" where
  "resolve_campaign r known ext =
     (let by_id = (case given (mi_campaign_id r) of
                     None \<Rightarrow> None | Some c \<Rightarrow> Some (if c \<in> known then Inr c else Inl (''no campaign has id '' @ c)));
          by_ext = (case coordinates r of
                     None \<Rightarrow> None
                   | Some (p, x) \<Rightarrow> Some (case ext (p, x) of Some c \<Rightarrow> Inr c | None \<Rightarrow> Inl (''no campaign matches '' @ p @ ''/'' @ x)));
          outcomes = (case by_id of Some x \<Rightarrow> [x] | None \<Rightarrow> []) @ (case by_ext of Some x \<Rightarrow> [x] | None \<Rightarrow> []);
          problems = concat (map (\<lambda>x. case x of Inl e \<Rightarrow> [e] | Inr c \<Rightarrow> []) outcomes);
          distinct_ids = sort (remdups (concat (map (\<lambda>x. case x of Inl e \<Rightarrow> [] | Inr c \<Rightarrow> [c]) outcomes)))
      in if problems \<noteq> [] then Inl (join_with ''; '' problems)
         else if 1 < length distinct_ids
         then Inl (''record addresses two different campaigns ('' @ join_with '' and '' distinct_ids
                 @ ''); the internal id and the platform coordinates disagree'')
         else (case distinct_ids of [] \<Rightarrow> Inl ''record could not be resolved to a campaign'' | c # _ \<Rightarrow> Inr c))"

record attributed =
  at_index :: nat
  at_record :: metric_in
  at_campaign_id :: string
  at_creative_id :: "string option"

definition slot_for :: "attributed \<Rightarrow> slot" where
  "slot_for a = (at_campaign_id a, at_creative_id a, mi_stat_date (at_record a))"

definition attribute_one :: "string set \<Rightarrow> (string \<times> string \<Rightarrow> string option) \<Rightarrow> (string \<Rightarrow> string option) \<Rightarrow> nat \<Rightarrow> metric_in
   \<Rightarrow> (issue, attributed) res" where
  "attribute_one known ext owners i r =
     (case resolve_campaign r known ext of
        Inl p \<Rightarrow> Inl (issue_for i r p)
      | Inr c \<Rightarrow>
          let a = \<lparr>at_index = i, at_record = r, at_campaign_id = c, at_creative_id = mi_creative_id r\<rparr>
          in (case mi_creative_id r of
                None \<Rightarrow> Inr a
              | Some k \<Rightarrow> (case owners k of
                             None \<Rightarrow> Inl (issue_for i r (''no creative has id '' @ k))
                           | Some o' \<Rightarrow> if o' = c then Inr a
                                        else Inl (issue_for i r (''creative '' @ k @ '' belongs to campaign '' @ o' @ '', not '' @ c)))))"

definition attribute :: "(string, campaign_row) dict \<Rightarrow> (string, creative_entity) dict \<Rightarrow> (nat \<times> metric_in) list
   \<Rightarrow> attributed list \<times> issue list" where
  "attribute campaigns creatives validated =
     (let pairs = List.map_filter (coordinates \<circ> snd) validated;
          ext = ids_by_external pairs campaigns;
          known = existing_ids (List.map_filter (given \<circ> mi_campaign_id \<circ> snd) validated) campaigns;
          owners = campaign_by_id (List.map_filter (given \<circ> mi_creative_id \<circ> snd) validated) creatives;
          results = map (\<lambda>(i, r). attribute_one known ext owners i r) validated
      in (concat (map (\<lambda>x. case x of Inr a \<Rightarrow> [a] | Inl e \<Rightarrow> []) results),
          concat (map (\<lambda>x. case x of Inl e \<Rightarrow> [e] | Inr a \<Rightarrow> []) results)))"

subsection \<open>Slots asserted twice\<close>

definition collision_reason :: "nat \<Rightarrow> nat list \<Rightarrow> string" where
  "collision_reason i indexes =
     ''this batch asserts the same campaign/creative/day as record ''
       @ join_with '', '' (map (\<lambda>j. ''#'' @ show_nat j) (filter (\<lambda>j. j \<noteq> i) indexes)) @ ''; refusing to guess which is right''"

definition reject_duplicate_slots :: "attributed list \<Rightarrow> attributed list \<times> issue list" where
  "reject_duplicate_slots items =
     (let indexes = (\<lambda>a. map at_index (filter (\<lambda>b. slot_for b = slot_for a) items));
          twice = (\<lambda>a. 1 < length (indexes a))
      in (filter (\<lambda>a. \<not> twice a) items,
          map (\<lambda>a. issue_for (at_index a) (at_record a) (collision_reason (at_index a) (indexes a))) (filter twice items)))"

subsection \<open>One batch\<close>

record ingest_batch =
  ib_id :: string
  ib_source :: string
  ib_actor :: string
  ib_received :: nat
  ib_created :: nat
  ib_updated :: nat
  ib_rejected :: nat
  ib_unresolved :: nat
  ib_dry_run :: bool
  ib_window_start :: "int option"
  ib_window_end :: "int option"

record metric_db =
  md_campaigns :: "(string, campaign_row) dict"
  md_creatives :: "(string, creative_entity) dict"
  md_metrics :: "daily_metric list"
  md_batches :: "ingest_batch list"
  md_audit :: "audit_row list"

record ingest_report =
  ir_batch_id :: string
  ir_source :: string
  ir_dry_run :: bool
  ir_received :: nat
  ir_created :: nat
  ir_updated :: nat
  ir_rejected_count :: nat
  ir_unresolved_count :: nat
  ir_rejected :: "issue list"
  ir_unresolved :: "issue list"
  ir_issues_truncated :: bool
  ir_window_start :: "int option"
  ir_window_end :: "int option"

text \<open>Who ingests what: the arguments of \<open>ingest\<close>, with today's date and the id of the new batch.\<close>

record ingest_call =
  ic_source :: string
  ic_dry_run :: bool
  ic_actor :: string
  ic_claims :: "token_claims option"
  ic_client :: "client_meta option"
  ic_today :: int
  ic_batch_id :: string

definition cap_issues :: "issue list \<Rightarrow> issue list" where
  "cap_issues is = take MAX_ISSUES_REPORTED (sort_key is_index is)"

definition reconciles :: "ingest_report \<Rightarrow> (py_error, ingest_report) res" where
  "reconciles r =
     (if ir_received r \<noteq> ir_created r + ir_updated r + ir_rejected_count r + ir_unresolved_count r
      then Inl (AssertionError (''ingest report does not reconcile: received='' @ show_nat (ir_received r) @ '' created='' @ show_nat (ir_created r)
             @ '' updated='' @ show_nat (ir_updated r) @ '' rejected='' @ show_nat (ir_rejected_count r)
             @ '' unresolved='' @ show_nat (ir_unresolved_count r)))
      else Inr r)"

text \<open>The writes of the batch, in the order of the records.\<close>

fun write_slots :: "bool \<Rightarrow> string \<Rightarrow> string \<Rightarrow> attributed list \<Rightarrow> daily_metric list \<Rightarrow> (py_error, daily_metric list) res" where
  "write_slots dry source batch [] table = Inr table"
| "write_slots dry source batch (a # as) table =
     (if dry then write_slots dry source batch as table
      else bind_res (upsert_daily (slot_for a) (mi_measured (at_record a)) (Some source) (Some batch) table)
             (write_slots dry source batch as))"

definition opt_date :: "int option \<Rightarrow> json" where
  "opt_date d = (case d of None \<Rightarrow> JNull | Some x \<Rightarrow> JStr (iso_date x))"

text \<open>What becomes of every record: written, rejected or unresolved.\<close>

definition triage :: "int \<Rightarrow> metric_in list \<Rightarrow> metric_db \<Rightarrow> attributed list \<times> issue list \<times> issue list" where
  "triage today records db =
     (case check_records today (enumerate 0 records) of (validated, rejected0) \<Rightarrow>
        (case attribute (md_campaigns db) (md_creatives db) validated of (candidates, unresolved) \<Rightarrow>
          (case reject_duplicate_slots candidates of (items, rejected1) \<Rightarrow> (items, rejected0 @ rejected1, unresolved))))"

definition ingest :: "ingest_call \<Rightarrow> metric_in list \<Rightarrow> metric_db \<Rightarrow> (py_error, ingest_report) res \<times> metric_db" where
  "ingest cl records db =
     (case triage (ic_today cl) records db of (items, rejected, unresolved) \<Rightarrow>
            let dates = sort (remdups (map mi_stat_date records));
                first = (case dates of [] \<Rightarrow> None | d # _ \<Rightarrow> Some d);
                final = (if dates = [] then None else Some (List.last dates));
                known = existing_slots (sort (remdups (map at_campaign_id items)))
                          (sort (remdups (map (mi_stat_date \<circ> at_record) items))) (md_metrics db);
                created = length (filter (\<lambda>a. slot_for a \<notin> known) items);
                updated = length (filter (\<lambda>a. slot_for a \<in> known) items);
                batch = \<lparr>ib_id = ic_batch_id cl, ib_source = ic_source cl, ib_actor = take 64 (ic_actor cl),
                         ib_received = length records, ib_created = created, ib_updated = updated, ib_rejected = length rejected,
                         ib_unresolved = length unresolved, ib_dry_run = ic_dry_run cl, ib_window_start = first, ib_window_end = final\<rparr>;
                entry = audit_entry ''metrics.ingested'' ''ingest_batch'' (Some (ic_batch_id cl)) (ic_claims cl) None
                  (Some [(''source'', JStr (ic_source cl)), (''actor'', JStr (ic_actor cl)), (''dry_run'', JBool (ic_dry_run cl)),
                         (''received'', JInt (int (length records))), (''created'', JInt (int created)), (''updated'', JInt (int updated)),
                         (''rejected'', JInt (int (length rejected))), (''unresolved'', JInt (int (length unresolved))),
                         (''window_start'', opt_date first), (''window_end'', opt_date final)]) (ic_client cl);
                report = \<lparr>ir_batch_id = ic_batch_id cl, ir_source = ic_source cl, ir_dry_run = ic_dry_run cl,
                          ir_received = length records, ir_created = created, ir_updated = updated,
                          ir_rejected_count = length rejected, ir_unresolved_count = length unresolved,
                          ir_rejected = cap_issues rejected, ir_unresolved = cap_issues unresolved,
                          ir_issues_truncated = (MAX_ISSUES_REPORTED < length rejected \<or> MAX_ISSUES_REPORTED < length unresolved),
                          ir_window_start = first, ir_window_end = final\<rparr>
            in (case write_slots (ic_dry_run cl) (ic_source cl) (ic_batch_id cl) items (md_metrics db) of
                  Inl e \<Rightarrow> (Inl e, db)
                | Inr table \<Rightarrow>
                    (reconciles report,
                     db\<lparr>md_metrics := table, md_batches := md_batches db @ [batch], md_audit := md_audit db @ [entry]\<rparr>)))"

subsection \<open>Pulling a feed\<close>

record source_target =
  tg_platform :: platform
  tg_external_id :: string
  tg_campaign_id :: string

text \<open>A feed: whether it is configured, and what it answers for a closed interval; it may raise.\<close>

record metric_source =
  so_configured :: bool
  so_fetch :: "int \<Rightarrow> int \<Rightarrow> source_target list \<Rightarrow> (py_error, source_record list) res"

type_synonym source_registry = "(string, metric_source) dict"

fun register_sources :: "(string \<times> metric_source) list \<Rightarrow> source_registry \<Rightarrow> (py_error, source_registry) res" where
  "register_sources [] reg = Inr reg"
| "register_sources ((n, s) # rest) reg =
     (if map_of reg n \<noteq> None then Inl (ValueError (''Duplicate metric source name: '' @ n))
      else register_sources rest (AList.update n s reg))"

definition get_source :: "source_registry \<Rightarrow> string \<Rightarrow> (py_error, metric_source) res" where
  "get_source reg n =
     (case map_of reg n of
        Some s \<Rightarrow> Inr s
      | None \<Rightarrow> Inl (NotFoundError (''Unknown metric source: '' @ n @ ''. Available: ''
                  @ or_str (join_with '', '' (sort (map fst reg))) ''none'')))"

text \<open>\<open>syncable\<close>: the campaigns that carry an external id, by name, at most 500.\<close>

definition syncable :: "nat \<Rightarrow> (string, campaign_row) dict \<Rightarrow> campaign_row list" where
  "syncable limit campaigns = take limit (sort_key cp_name (filter (\<lambda>c. given (cp_external_id c) \<noteq> None) (map snd campaigns)))"

definition targets :: "(string, campaign_row) dict \<Rightarrow> source_target list" where
  "targets campaigns =
     List.map_filter (\<lambda>c. let x = strip (case cp_external_id c of Some s \<Rightarrow> s | None \<Rightarrow> [])
            in case platform_of (cp_platform c) of
                 None \<Rightarrow> None
               | Some p \<Rightarrow> if x = [] then None else Some \<lparr>tg_platform = p, tg_external_id = x, tg_campaign_id = cp_id c\<rparr>)
       (syncable 500 campaigns)"

definition pull :: "source_registry \<Rightarrow> string \<Rightarrow> int \<Rightarrow> int \<Rightarrow> ingest_call \<Rightarrow> metric_db \<Rightarrow> (py_error, ingest_report) res \<times> metric_db" where
  "pull reg name start final cl db =
     (case bind_res (get_source reg name) (\<lambda>s. bind_res (so_fetch s start final (targets (md_campaigns db))) (map_res to_metric_input)) of
        Inl e \<Rightarrow> (Inl e, db)
      | Inr records \<Rightarrow> ingest (cl\<lparr>ic_source := name\<rparr>) records db)"

end
