(* ===== verification/IngestFlow.thy ===== *)
theory IngestFlow
  imports Ingest
begin

text \<open>
  What an ingestion does to every record and to every slot: each record is written, rejected or unresolved
  exactly once, a written slot belongs to the campaign its record names, an absent column keeps what is
  stored, a rehearsal writes nothing and reports what the real run would, and the same batch again changes no
  figure. The table keeps one row per slot with non-negative counts, so its readers always answer.
\<close>

subsection \<open>Where the records go\<close>

lemma check_records_eq:
  "check_records today irs =
     (filter (\<lambda>(i, r). semantic_problem today r = None) irs,
      map (\<lambda>(i, r). issue_for i r (the (semantic_problem today r))) (filter (\<lambda>(i, r). semantic_problem today r \<noteq> None) irs))"
  by (induction irs) (auto split: option.split)

lemma mset_filter_split: "mset (map f (filter P xs)) + mset (map f (filter (\<lambda>x. \<not> P x) xs)) = mset (map f xs)"
  by (induction xs) auto

lemma issue_for_index [simp]: "is_index (issue_for i r p) = i"
  by (simp add: issue_for_def)

lemma mset_sum_split:
  assumes "\<And>x. x \<in> set xs \<Longrightarrow> case f x of Inl e \<Rightarrow> g e = k x | Inr a \<Rightarrow> h a = k x"
  shows "mset (map h (concat (map (\<lambda>x. case x of Inr a \<Rightarrow> [a] | Inl e \<Rightarrow> []) (map f xs))))
      + mset (map g (concat (map (\<lambda>x. case x of Inl e \<Rightarrow> [e] | Inr a \<Rightarrow> []) (map f xs)))) = mset (map k xs)"
  using assms by (induction xs) (fastforce split: sum.splits)+

lemma attribute_one_cases:
  "case attribute_one known ext owners i r of
     Inl e \<Rightarrow> is_index e = i
   | Inr a \<Rightarrow> at_index a = i \<and> at_record a = r \<and> resolve_campaign r known ext = Inr (at_campaign_id a) \<and> at_creative_id a = mi_creative_id r
       \<and> (\<forall>k. mi_creative_id r = Some k \<longrightarrow> owners k = Some (at_campaign_id a))"
  by (auto simp: attribute_one_def Let_def split: sum.splits option.splits)

lemma attribute_indexes:
  "mset (map at_index (fst (attribute cs ks irs))) + mset (map is_index (snd (attribute cs ks irs))) = mset (map fst irs)"
proof -
  have "case (case x of (i, r) \<Rightarrow> attribute_one known ext owners i r) of Inl e \<Rightarrow> is_index e = fst x | Inr a \<Rightarrow> at_index a = fst x"
    for x known ext owners
    using attribute_one_cases [where known = known and ext = ext and owners = owners and i = "fst x" and r = "snd x"] by (auto simp: split_beta split: sum.splits)
  then show ?thesis unfolding attribute_def Let_def fst_conv snd_conv by (rule mset_sum_split)
qed

lemma reject_indexes:
  "mset (map at_index (fst (reject_duplicate_slots items))) + mset (map is_index (snd (reject_duplicate_slots items))) = mset (map at_index items)"
  unfolding reject_duplicate_slots_def Let_def fst_conv snd_conv map_map comp_def issue_for_index
  using mset_filter_split [of at_index "\<lambda>a. \<not> 1 < length (map at_index (filter (\<lambda>b. slot_for b = slot_for a) items))" items] by simp

lemma distinct_map_filter:
  assumes "\<And>a. a \<in> set xs \<Longrightarrow> P a \<Longrightarrow> length (filter (\<lambda>b. f b = f a) xs) \<le> 1"
  shows "distinct (map f (filter P xs))"
proof -
  have "count (mset (map f (filter P xs))) k = (if k \<in> set (map f (filter P xs)) then 1 else 0)" for k
  proof (cases "k \<in> set (map f (filter P xs))")
    case True
    then obtain a where a: "a \<in> set xs" "P a" "f a = k" by auto
    have "count (mset (map f (filter P xs))) k = length (filter (\<lambda>b. f b = k) (filter P xs))"
      unfolding count_mset by (induction xs) auto
    also have "\<dots> = length (filter P (filter (\<lambda>b. f b = k) xs))" by (simp add: conj_commute)
    also have "\<dots> \<le> 1" using assms [OF a(1,2)] a(3) length_filter_le [of P "filter (\<lambda>b. f b = k) xs"] by simp
    finally show ?thesis using True by (metis One_nat_def count_greater_zero_iff le_antisym less_eq_Suc_le set_mset_mset)
  qed (metis not_in_iff set_mset_mset)
  then show ?thesis by (simp only: distinct_count_atmost_1) simp
qed

lemma reject_distinct: "distinct (map slot_for (fst (reject_duplicate_slots items)))"
  unfolding reject_duplicate_slots_def Let_def fst_conv by (rule distinct_map_filter) simp

subsection \<open>What is written\<close>

text \<open>The record a batch writes to a slot.\<close>

definition writer_of :: "slot \<Rightarrow> attributed list \<Rightarrow> attributed option" where
  "writer_of k items = find (\<lambda>a. slot_for a = k) items"

definition row_after :: "string \<Rightarrow> string \<Rightarrow> attributed list \<Rightarrow> daily_metric list \<Rightarrow> slot \<Rightarrow> daily_metric option" where
  "row_after source batch items table k =
     (case writer_of k items of
        None \<Rightarrow> row_at k table
      | Some a \<Rightarrow> Some (written k (mi_measured (at_record a)) (Some source) (Some batch) (row_at k table)))"

lemma writer_of_Some: "writer_of k items = Some a \<Longrightarrow> a \<in> set items \<and> slot_for a = k"
  by (auto simp: writer_of_def find_Some_iff)

lemma writer_of_None: "writer_of k items = None \<longleftrightarrow> k \<notin> slot_for ` set items"
  by (auto simp: writer_of_def find_None_iff)

lemma write_slots_dry [simp]: "write_slots True source batch items table = Inr table"
  by (induction items) simp_all

lemma write_slots_spec:
  assumes "unique_slots table" "distinct (map slot_for items)"
  shows "\<exists>table'. write_slots False source batch items table = Inr table' \<and> unique_slots table'
    \<and> (\<forall>k. row_at k table' = row_after source batch items table k)
    \<and> slot_of ` set table' = slot_of ` set table \<union> slot_for ` set items"
  using assms
proof (induction items arbitrary: table)
  case Nil
  then show ?case by (simp add: row_after_def writer_of_def)
next
  case (Cons a items)
  obtain t1 where t1: "upsert_daily (slot_for a) (mi_measured (at_record a)) (Some source) (Some batch) table = Inr t1" "unique_slots t1"
    "\<forall>j. row_at j t1 = (if j = slot_for a then Some (written (slot_for a) (mi_measured (at_record a)) (Some source) (Some batch)
         (row_at (slot_for a) table)) else row_at j table)"
    "slot_of ` set t1 = insert (slot_for a) (slot_of ` set table)"
    using upsert_daily_unique [OF Cons.prems(1)] by blast
  have d: "distinct (map slot_for items)" and new: "slot_for a \<notin> slot_for ` set items" using Cons.prems(2) by simp_all
  obtain t2 where t2: "write_slots False source batch items t1 = Inr t2" "unique_slots t2"
    "\<forall>k. row_at k t2 = row_after source batch items t1 k" "slot_of ` set t2 = slot_of ` set t1 \<union> slot_for ` set items"
    using Cons.IH [OF t1(2) d] by blast
  have "row_at k t2 = row_after source batch (a # items) table k" for k
  proof (cases "k = slot_for a")
    case True
    then have "writer_of k items = None" using new by (simp add: writer_of_None)
    then show ?thesis using True spec [OF t1(3), of k] spec [OF t2(3), of k]
      by (simp add: row_after_def) (simp add: writer_of_def)
  next
    case False
    then have "writer_of k (a # items) = writer_of k items" by (simp add: writer_of_def)
    then show ?thesis using False spec [OF t1(3), of k] spec [OF t2(3), of k]
      by (simp add: row_after_def split: option.split)
  qed
  then show ?case using t1(1,4) t2 by (simp add: insert_commute Un_commute)
qed

text \<open>A batch on a table with unique slots always produces its report; what it leaves.\<close>

lemma triage_parts:
  assumes "triage today records db = (items, rejected, unresolved)"
  shows "distinct (map slot_for items)"
    and "mset (map at_index items) + mset (map is_index rejected) + mset (map is_index unresolved) = mset [0..<length records]"
proof -
  let ?ir = "enumerate 0 records"
  define ok where "ok = fst (check_records today ?ir)"
  define cand where "cand = fst (attribute (md_campaigns db) (md_creatives db) ok)"
  have parts: "items = fst (reject_duplicate_slots cand)" "unresolved = snd (attribute (md_campaigns db) (md_creatives db) ok)"
    "rejected = snd (check_records today ?ir) @ snd (reject_duplicate_slots cand)"
    using assms by (simp_all add: triage_def ok_def cand_def split_beta)
  show "distinct (map slot_for items)" unfolding parts(1) by (rule reject_distinct)
  have "mset (map fst ok) + mset (map is_index (snd (check_records today ?ir))) = mset (map fst ?ir)"
    unfolding ok_def check_records_eq fst_conv snd_conv
    using mset_filter_split [of fst "\<lambda>(i, r). semantic_problem today r = None" ?ir] by (simp add: split_beta comp_def)
  then have A: "mset [0..<length records] = mset (map fst ok) + mset (map is_index (snd (check_records today ?ir)))"
    by (simp add: enumerate_eq_zip)
  note B = attribute_indexes [of "md_campaigns db" "md_creatives db" ok, folded cand_def] and C = reject_indexes [of cand]
  show "mset (map at_index items) + mset (map is_index rejected) + mset (map is_index unresolved) = mset [0..<length records]"
    unfolding A B [symmetric] C [symmetric] unfolding parts map_append mset_append by (simp only: ac_simps)
qed

lemma existing_slots_iff:
  assumes "a \<in> set items"
  shows "slot_for a \<in> existing_slots (sort (remdups (map at_campaign_id items)))
      (sort (remdups (map (mi_stat_date \<circ> at_record) items))) table \<longleftrightarrow> slot_for a \<in> slot_of ` set table"
proof -
  have "items \<noteq> []" using assms by auto
  then have ne: "sort (remdups (map at_campaign_id items)) \<noteq> []" "sort (remdups (map (mi_stat_date \<circ> at_record) items)) \<noteq> []"
    by (metis list.map_disc_iff remdups_eq_nil_iff set_empty set_sort)+
  have "slot_of r = slot_for a \<Longrightarrow> dm_campaign_id r \<in> at_campaign_id ` set items \<and> dm_stat_date r \<in> (mi_stat_date \<circ> at_record) ` set items" for r
    using assms by (auto simp: slot_of_def slot_for_def)
  then show ?thesis using ne by (auto simp: existing_slots_def image_iff)
qed

lemma ingest_run:
  assumes "unique_slots (md_metrics db)" "triage (ic_today cl) records db = (items, rejected, unresolved)"
  shows "\<exists>report db'. ingest cl records db = (Inr report, db') \<and> ir_received report = length records \<and> ir_dry_run report = ic_dry_run cl
    \<and> ir_created report = length (filter (\<lambda>a. slot_for a \<notin> slot_of ` set (md_metrics db)) items)
    \<and> ir_updated report = length (filter (\<lambda>a. slot_for a \<in> slot_of ` set (md_metrics db)) items)
    \<and> ir_rejected_count report = length rejected \<and> ir_unresolved_count report = length unresolved
    \<and> ir_rejected report = cap_issues rejected \<and> ir_unresolved report = cap_issues unresolved
    \<and> md_campaigns db' = md_campaigns db \<and> md_creatives db' = md_creatives db \<and> unique_slots (md_metrics db')
    \<and> (if ic_dry_run cl then md_metrics db' = md_metrics db
       else (\<forall>k. row_at k (md_metrics db') = row_after (ic_source cl) (ic_batch_id cl) items (md_metrics db) k)
         \<and> slot_of ` set (md_metrics db') = slot_of ` set (md_metrics db) \<union> slot_for ` set items)"
proof -
  let ?known = "existing_slots (sort (remdups (map at_campaign_id items)))
      (sort (remdups (map (mi_stat_date \<circ> at_record) items))) (md_metrics db)"
  have new: "filter (\<lambda>a. slot_for a \<notin> ?known) items = filter (\<lambda>a. slot_for a \<notin> slot_of ` set (md_metrics db)) items"
    and old: "filter (\<lambda>a. slot_for a \<in> ?known) items = filter (\<lambda>a. slot_for a \<in> slot_of ` set (md_metrics db)) items"
    by (rule filter_cong [OF refl], simp only: existing_slots_iff)+
  have "length (map at_index items) + length (map is_index rejected) + length (map is_index unresolved) = length [0..<length records]"
    using arg_cong [OF triage_parts(2) [OF assms(2)], of size] by (simp only: size_union size_mset)
  then have total: "length records = length (filter (\<lambda>a. slot_for a \<notin> slot_of ` set (md_metrics db)) items)
      + length (filter (\<lambda>a. slot_for a \<in> slot_of ` set (md_metrics db)) items) + length rejected + length unresolved"
    using sum_length_filter_compl [of "\<lambda>a. slot_for a \<in> slot_of ` set (md_metrics db)" items] by simp
  have "\<exists>table. write_slots (ic_dry_run cl) (ic_source cl) (ic_batch_id cl) items (md_metrics db) = Inr table \<and> unique_slots table
    \<and> (if ic_dry_run cl then table = md_metrics db
     else (\<forall>k. row_at k table = row_after (ic_source cl) (ic_batch_id cl) items (md_metrics db) k)
       \<and> slot_of ` set table = slot_of ` set (md_metrics db) \<union> slot_for ` set items)"
  proof (cases "ic_dry_run cl")
    case False
    then show ?thesis using write_slots_spec [OF assms(1) triage_parts(1) [OF assms(2)], of "ic_source cl" "ic_batch_id cl"] by simp
  qed (use assms(1) in simp)
  then obtain table where table: "write_slots (ic_dry_run cl) (ic_source cl) (ic_batch_id cl) items (md_metrics db) = Inr table" "unique_slots table"
    "if ic_dry_run cl then table = md_metrics db
     else (\<forall>k. row_at k table = row_after (ic_source cl) (ic_batch_id cl) items (md_metrics db) k)
       \<and> slot_of ` set table = slot_of ` set (md_metrics db) \<union> slot_for ` set items"
    by blast
  show ?thesis
    unfolding ingest_def assms(2) Let_def split_beta fst_conv snd_conv table(1) sum.case new old reconciles_def
    using table(2,3) total by (cases "ic_dry_run cl") simp_all
qed

subsection \<open>Attribution\<close>

lemma ids_by_external_sound:
  assumes "ids_by_external wanted campaigns (p, x) = Some c"
  shows "\<exists>row\<in>snd ` set campaigns. cp_platform row = p \<and> cp_external_id row = Some x \<and> cp_id row = c"
  using map_of_SomeD [of _ "(p, x)" c] assms by (fastforce simp: ids_by_external_def split: if_splits option.splits)

lemma resolve_campaign_sound:
  assumes "resolve_campaign r known ext = Inr c"
  shows "(given (mi_campaign_id r) = None \<or> given (mi_campaign_id r) = Some c \<and> c \<in> known)
    \<and> (coordinates r = None \<or> (\<exists>p x. coordinates r = Some (p, x) \<and> ext (p, x) = Some c))
    \<and> (given (mi_campaign_id r) \<noteq> None \<or> coordinates r \<noteq> None)"
proof (cases "given (mi_campaign_id r)")
  case None
  then show ?thesis using assms
    by (cases "coordinates r") (auto simp: resolve_campaign_def Let_def split: option.splits if_splits)
next
  case (Some i)
  show ?thesis
  proof (cases "coordinates r")
    case None
    then show ?thesis using Some assms by (auto simp: resolve_campaign_def Let_def split: if_splits)
  next
    case (Some px)
    obtain p x where px: "px = (p, x)" by (cases px)
    have "i \<in> known" "ext (p, x) \<noteq> None" using \<open>given _ = Some i\<close> Some px assms
      by (auto simp: resolve_campaign_def Let_def split: if_splits option.splits)
    moreover obtain d where "ext (p, x) = Some d" using calculation(2) by blast
    moreover have "d = i"
    proof (rule ccontr)
      assume "d \<noteq> i"
      then have "1 < length (sort (remdups [i, d]))" by simp
      then show False using \<open>given _ = Some i\<close> Some px assms calculation by (simp add: resolve_campaign_def Let_def)
    qed
    ultimately show ?thesis using \<open>given _ = Some i\<close> Some px assms by (simp add: resolve_campaign_def Let_def)
  qed
qed

text \<open>A record may be written to a campaign: it names it, by each of the schemes it uses.\<close>

definition names_campaign :: "metric_db \<Rightarrow> metric_in \<Rightarrow> string \<Rightarrow> bool" where
  "names_campaign db r c \<longleftrightarrow>
     (given (mi_campaign_id r) = None \<or> given (mi_campaign_id r) = Some c \<and> map_of (md_campaigns db) c \<noteq> None)
   \<and> (\<forall>p x. coordinates r = Some (p, x) \<longrightarrow>
        (\<exists>row\<in>snd ` set (md_campaigns db). cp_platform row = p \<and> cp_external_id row = Some x \<and> cp_id row = c))
   \<and> (given (mi_campaign_id r) \<noteq> None \<or> coordinates r \<noteq> None)
   \<and> (\<forall>k. mi_creative_id r = Some k \<longrightarrow> map_option ce_campaign_id (map_of (md_creatives db) k) = Some c)"

lemma triage_item:
  assumes "triage today records db = (items, rejected, unresolved)" "a \<in> set items"
  shows "at_index a < length records \<and> at_record a = records ! at_index a \<and> semantic_problem today (at_record a) = None
    \<and> names_campaign db (at_record a) (at_campaign_id a) \<and> at_creative_id a = mi_creative_id (at_record a)"
proof -
  define ok where "ok = fst (check_records today (enumerate 0 records))"
  define ext where "ext = ids_by_external (List.map_filter (coordinates \<circ> snd) ok) (md_campaigns db)"
  define known where "known = existing_ids (List.map_filter (given \<circ> mi_campaign_id \<circ> snd) ok) (md_campaigns db)"
  define owners where "owners = campaign_by_id (List.map_filter (given \<circ> mi_creative_id \<circ> snd) ok) (md_creatives db)"
  have "items = fst (reject_duplicate_slots (fst (attribute (md_campaigns db) (md_creatives db) ok)))"
    using assms(1) by (simp add: triage_def ok_def split_beta)
  then have "a \<in> set (fst (attribute (md_campaigns db) (md_creatives db) ok))"
    using assms(2) by (auto simp: reject_duplicate_slots_def Let_def)
  then obtain i r where ir: "(i, r) \<in> set ok" and one: "attribute_one known ext owners i r = Inr a"
    by (auto simp: attribute_def Let_def ext_def known_def owners_def split: sum.splits)
  have facts: "at_index a = i" "at_record a = r" "resolve_campaign r known ext = Inr (at_campaign_id a)" "at_creative_id a = mi_creative_id r"
    "\<forall>k. mi_creative_id r = Some k \<longrightarrow> owners k = Some (at_campaign_id a)"
    using attribute_one_cases [where known = known and ext = ext and owners = owners and i = i and r = r] one by auto
  have "i < length records \<and> r = records ! i \<and> semantic_problem today r = None"
    using ir by (auto simp: ok_def check_records_eq in_set_enumerate_eq)
  moreover have "names_campaign db r (at_campaign_id a)"
    using resolve_campaign_sound [OF facts(3)] facts(5) ids_by_external_sound
    by (fastforce simp: names_campaign_def known_def existing_ids_def ext_def owners_def campaign_by_id_def split: if_splits)
  ultimately show ?thesis using facts(1,2,4) by auto
qed

subsection \<open>Properties\<close>

lemma triage_cases: obtains items rejected unresolved where "triage today records db = (items, rejected, unresolved)"
  by (rule prod_cases3)

text \<open>
  C23. Nothing is silently dropped: on a table with unique slots every batch is answered with a report that
  reconciles, and every record of the batch is either written, or rejected, or unresolved, exactly once; the report
  lists every refusal, by index, unless one of the two lists is longer than 200.
\<close>

theorem ingest_accounts_for_every_record:
  assumes "unique_slots (md_metrics db)" "triage (ic_today cl) records db = (items, rejected, unresolved)"
  shows "\<exists>report db'. ingest cl records db = (Inr report, db')
    \<and> ir_received report = length records
    \<and> ir_received report = ir_created report + ir_updated report + ir_rejected_count report + ir_unresolved_count report
    \<and> mset (map at_index items) + mset (map is_index rejected) + mset (map is_index unresolved) = mset [0..<length records]
    \<and> (ir_rejected_count report \<le> MAX_ISSUES_REPORTED \<longrightarrow> mset (ir_rejected report) = mset rejected)
    \<and> (ir_unresolved_count report \<le> MAX_ISSUES_REPORTED \<longrightarrow> mset (ir_unresolved report) = mset unresolved)"
proof -
  have "length (map at_index items) + length (map is_index rejected) + length (map is_index unresolved) = length [0..<length records]"
    using arg_cong [OF triage_parts(2) [OF assms(2)], of size] by (simp only: size_union size_mset)
  then have "length records = length (filter (\<lambda>a. slot_for a \<notin> slot_of ` set (md_metrics db)) items)
      + length (filter (\<lambda>a. slot_for a \<in> slot_of ` set (md_metrics db)) items) + length rejected + length unresolved"
    using sum_length_filter_compl [of "\<lambda>a. slot_for a \<in> slot_of ` set (md_metrics db)" items] by simp
  then show ?thesis using ingest_run [OF assms] triage_parts(2) [OF assms(2)]
    by (auto simp: cap_issues_def) 
qed

text \<open>
  C24. Attribution is never guessed: whatever slot a batch changes belongs to the campaign a record names by every
  scheme it uses, for the creative and the day of that record, which passed the value checks; the row holds
  what the record asserts and, where it is silent, what the slot held before.
\<close>

theorem ingest_attribution_sound:
  assumes "unique_slots (md_metrics db)" "ingest cl records db = (Inr report, db')" "row_at k (md_metrics db') \<noteq> row_at k (md_metrics db)"
  shows "\<not> ic_dry_run cl \<and> (\<exists>i<length records. let r = records ! i in semantic_problem (ic_today cl) r = None
    \<and> names_campaign db r (fst k) \<and> k = (fst k, mi_creative_id r, mi_stat_date r)
    \<and> row_at k (md_metrics db') = Some (written k (mi_measured r) (Some (ic_source cl)) (Some (ic_batch_id cl)) (row_at k (md_metrics db))))"
proof -
  obtain items rejected unresolved where t: "triage (ic_today cl) records db = (items, rejected, unresolved)" by (rule triage_cases)
  have eff: "if ic_dry_run cl then md_metrics db' = md_metrics db
       else (\<forall>k. row_at k (md_metrics db') = row_after (ic_source cl) (ic_batch_id cl) items (md_metrics db) k)"
    using ingest_run [OF assms(1) t] assms(2) by (auto split: if_splits)
  then have real: "\<not> ic_dry_run cl" using assms(3) by (auto split: if_splits)
  then have row: "row_at k (md_metrics db') = row_after (ic_source cl) (ic_batch_id cl) items (md_metrics db) k" using eff real by (simp del: split_paired_All)
  then obtain a where a: "writer_of k items = Some a" using assms(3) by (auto simp: row_after_def split: option.splits)
  then have mem: "a \<in> set items" "slot_for a = k" using writer_of_Some by blast+
  have item: "at_index a < length records" "at_record a = records ! at_index a" "semantic_problem (ic_today cl) (at_record a) = None"
    "names_campaign db (at_record a) (at_campaign_id a)" "at_creative_id a = mi_creative_id (at_record a)"
    using triage_item [OF t mem(1)] by blast+
  have "k = (fst k, mi_creative_id (at_record a), mi_stat_date (at_record a))" "fst k = at_campaign_id a"
    using mem(2) item(5) by (auto simp: slot_for_def)
  then show ?thesis using real row a item by (intro conjI exI [of _ "at_index a"]) (simp_all add: row_after_def Let_def)
qed


text \<open>The figures of a row, without the stamps of the feed and the batch that asserted them last.\<close>

definition figures :: "daily_metric \<Rightarrow> int \<times> int \<times> int \<times> real \<times> real \<times> int" where
  "figures r = (dm_impressions r, dm_clicks r, dm_conversions r, dm_cost r, dm_revenue r, dm_unique_reach r)"

lemma figures_written_again: "figures (written k m s b' (Some (written k m s b old))) = figures (written k m s b old)"
  by (cases old) (simp_all add: figures_def written_def or_old_def split: option.split)

text \<open>
  Asserting the same numbers again is harmless: a second delivery of a batch, under whatever batch id, creates no
  slot, updates exactly the slots the first one wrote, refuses the same records, and changes no figure of any row.
\<close>

theorem ingest_again_changes_nothing:
  assumes "unique_slots (md_metrics db)" "\<not> ic_dry_run cl" "ingest cl records db = (Inr report, db1)"
    and "ic_source cl' = ic_source cl" "ic_today cl' = ic_today cl" "\<not> ic_dry_run cl'"
  shows "\<exists>report' db2. ingest cl' records db1 = (Inr report', db2)
    \<and> ir_created report' = 0 \<and> ir_updated report' = ir_created report + ir_updated report
    \<and> ir_rejected report' = ir_rejected report \<and> ir_unresolved report' = ir_unresolved report
    \<and> (\<forall>k. map_option figures (row_at k (md_metrics db2)) = map_option figures (row_at k (md_metrics db1)))"
proof -
  obtain items rejected unresolved where t: "triage (ic_today cl) records db = (items, rejected, unresolved)" by (rule triage_cases)
  have one: "md_campaigns db1 = md_campaigns db" "md_creatives db1 = md_creatives db" "unique_slots (md_metrics db1)"
    "\<forall>k. row_at k (md_metrics db1) = row_after (ic_source cl) (ic_batch_id cl) items (md_metrics db) k"
    "slot_of ` set (md_metrics db1) = slot_of ` set (md_metrics db) \<union> slot_for ` set items"
    "ir_created report = length (filter (\<lambda>a. slot_for a \<notin> slot_of ` set (md_metrics db)) items)"
    "ir_updated report = length (filter (\<lambda>a. slot_for a \<in> slot_of ` set (md_metrics db)) items)"
    "ir_rejected report = cap_issues rejected" "ir_unresolved report = cap_issues unresolved"
    using ingest_run [OF assms(1) t] assms(2,3) by simp_all
  have t': "triage (ic_today cl') records db1 = (items, rejected, unresolved)"
    using t one(1,2) assms(5) by (simp add: triage_def)
  obtain report' db2 where two: "ingest cl' records db1 = (Inr report', db2)"
    "\<forall>k. row_at k (md_metrics db2) = row_after (ic_source cl') (ic_batch_id cl') items (md_metrics db1) k"
    "ir_created report' = length (filter (\<lambda>a. slot_for a \<notin> slot_of ` set (md_metrics db1)) items)"
    "ir_updated report' = length (filter (\<lambda>a. slot_for a \<in> slot_of ` set (md_metrics db1)) items)"
    "ir_rejected report' = cap_issues rejected" "ir_unresolved report' = cap_issues unresolved"
    using ingest_run [OF one(3) t'] assms(6) by auto
  have all: "filter (\<lambda>a. slot_for a \<notin> slot_of ` set (md_metrics db1)) items = []"
    "filter (\<lambda>a. slot_for a \<in> slot_of ` set (md_metrics db1)) items = items"
    unfolding one(5) by (auto simp: filter_empty_conv intro!: filter_True)
  have "map_option figures (row_at k (md_metrics db2)) = map_option figures (row_at k (md_metrics db1))" for k
  proof (cases "writer_of k items")
    case (Some a)
    then show ?thesis
      using spec [OF two(2), of k] spec [OF one(4), of k] assms(4) by (simp add: row_after_def figures_written_again)
  qed (use spec [OF two(2), of k] in \<open>simp add: row_after_def\<close>)
  moreover have "ir_updated report' = ir_created report + ir_updated report"
    unfolding two(4) one(6,7) all by (simp add: sum_length_filter_compl add.commute [of "length (filter (\<lambda>a. slot_for a \<notin> _) _)"])
  ultimately show ?thesis using two one(8,9) all by auto
qed

subsection \<open>The tables the readers see\<close>

definition table_ok :: "daily_metric list \<Rightarrow> bool" where
  "table_ok table \<longleftrightarrow> unique_slots table \<and> (\<forall>r\<in>set table. counts_nonneg r)"

lemma semantic_nonneg: "semantic_problem today r = None \<Longrightarrow> measured_nonneg (mi_measured r)"
  by (auto simp: semantic_problem_def Let_def measured_nonneg_def negative_columns_def columns_def int_column_def not_less
      split: if_splits option.splits)

lemma ingest_table_ok:
  assumes "table_ok (md_metrics db)"
  shows "table_ok (md_metrics (snd (ingest cl records db)))"
proof -
  obtain items rejected unresolved where t: "triage (ic_today cl) records db = (items, rejected, unresolved)" by (rule triage_cases)
  have u: "unique_slots (md_metrics db)" using assms by (simp add: table_ok_def)
  obtain report db' where run: "ingest cl records db = (Inr report, db')" "unique_slots (md_metrics db')"
    "if ic_dry_run cl then md_metrics db' = md_metrics db
     else (\<forall>k. row_at k (md_metrics db') = row_after (ic_source cl) (ic_batch_id cl) items (md_metrics db) k)"
    using ingest_run [OF u t] by (auto split: if_splits)
  have "counts_nonneg r" if r: "r \<in> set (md_metrics db')" "\<not> ic_dry_run cl" for r
  proof -
    have now: "row_after (ic_source cl) (ic_batch_id cl) items (md_metrics db) (slot_of r) = Some r"
      using row_at_mem [OF run(2) r(1)] run(3) r(2) by (metis (full_types))
    have old: "counts_nonneg x" if "row_at j (md_metrics db) = Some x" for j x
      using row_at_slot [OF that] assms by (simp add: table_ok_def)
    show ?thesis
    proof (cases "writer_of (slot_of r) items")
      case None
      then show ?thesis using now old by (simp add: row_after_def del: split_paired_All)
    next
      case (Some a)
      have "measured_nonneg (mi_measured (at_record a))" using triage_item [OF t] writer_of_Some [OF Some] semantic_nonneg by blast
      then have "counts_nonneg (written (slot_of r) (mi_measured (at_record a)) (Some (ic_source cl)) (Some (ic_batch_id cl))
          (row_at (slot_of r) (md_metrics db)))"
        using old by (rule written_nonneg)
      then show ?thesis using now Some by (simp add: row_after_def)
    qed
  qed
  then show ?thesis using run assms by (cases "ic_dry_run cl") (simp_all add: table_ok_def)
qed

text \<open>
  Whatever the feeds assert, the agents can read: after any batches on a sound table it keeps one row per slot with
  non-negative counts, so the snapshots of any campaigns over any window exist and are consistent funnels.
\<close>

theorem ingested_tables_stay_readable:
  assumes "table_ok (md_metrics db)"
  shows "let table = md_metrics (foldl (\<lambda>d (cl, records). snd (ingest cl records d)) db batches)
    in table_ok table \<and> (\<exists>ss. snapshots today days ids campaigns table = Inr ss \<and> (\<forall>s\<in>set ss. valid_snapshot s))"
proof -
  have ok: "table_ok (md_metrics (foldl (\<lambda>d (cl, records). snd (ingest cl records d)) db batches))"
    using assms
  proof (induction batches arbitrary: db)
    case (Cons b bs)
    then show ?case using ingest_table_ok [OF Cons.prems, of "fst b" "snd b"] by (simp add: split_beta)
  qed simp
  have "\<exists>ss. snapshots today days ids campaigns table = Inr ss \<and> (\<forall>s\<in>set ss. valid_snapshot s)" if "table_ok table" for table
    using snapshots_valid that by (simp add: table_ok_def)
  then show ?thesis using ok by (simp add: Let_def)
qed

subsection \<open>A concrete batch\<close>

text \<open>Two records of one feed: clicks for a known campaign, and one for a campaign nobody has.\<close>

definition clicks_only :: "int \<Rightarrow> measured" where
  "clicks_only n = \<lparr>ms_impressions = None, ms_clicks = Some n, ms_conversions = None, ms_cost = None, ms_revenue = None,
     ms_unique_reach = None\<rparr>"

definition feed_record :: "string \<Rightarrow> metric_in" where
  "feed_record x = \<lparr>mi_platform = Some PLATFORM_META, mi_external_id = Some x, mi_campaign_id = None, mi_creative_id = None,
     mi_stat_date = 8, mi_measured = clicks_only 9\<rparr>"

definition shop_db :: metric_db where
  "shop_db = \<lparr>md_campaigns = [(''c1'', shop_campaign)], md_creatives = [], md_metrics = [day_row None 100], md_batches = [], md_audit = []\<rparr>"

definition shop_call :: "bool \<Rightarrow> ingest_call" where
  "shop_call dry = \<lparr>ic_source = ''platform'', ic_dry_run = dry, ic_actor = ''tester'', ic_claims = None, ic_client = None, ic_today = 9,
     ic_batch_id = ''b1''\<rparr>"

definition shop_item :: attributed where
  "shop_item = \<lparr>at_index = 0, at_record = feed_record ''x1'', at_campaign_id = ''c1'', at_creative_id = None\<rparr>"

lemma shop_triage: "triage 9 [feed_record ''x1'', feed_record ''x2''] shop_db
    = ([shop_item], [], [issue_for 1 (feed_record ''x2'') ''no campaign matches meta/x2''])"
proof -
  have coord: "coordinates (feed_record x) = (if x = [] then None else Some (''meta'', x))" for x
    by (simp add: coordinates_def feed_record_def given_def)
  have fine: "semantic_problem 9 (feed_record x) = None" if "x \<noteq> []" for x
    using that by (simp add: semantic_problem_def coord) (simp add: feed_record_def clicks_only_def negative_columns_def columns_def
        int_column_def exceeds_def measurements_present_def MAX_FUTURE_DAYS_def)
  have sel: "mi_campaign_id (feed_record x) = None" "mi_creative_id (feed_record x) = None" for x by (simp_all add: feed_record_def)
  have ext: "ids_by_external [(''meta'', ''x1''), (''meta'', ''x2'')] (md_campaigns shop_db) (''meta'', x)
      = (if x = ''x1'' then Some ''c1'' else None)" for x
    by (simp add: ids_by_external_def shop_db_def shop_campaign_def)
  have res: "resolve_campaign (feed_record x) K (ids_by_external [(''meta'', ''x1''), (''meta'', ''x2'')] (md_campaigns shop_db))
      = (if x = ''x1'' then Inr ''c1'' else Inl (''no campaign matches meta/'' @ x))" if "x \<noteq> []" for x K
    using that by (simp add: resolve_campaign_def coord sel given_def ext join_with_def)
  show ?thesis
    by (simp add: triage_def fine attribute_def List.map_filter_def coord sel given_def attribute_one_def res
        reject_duplicate_slots_def shop_item_def)
qed

lemma shop_unique: "unique_slots (md_metrics shop_db)"
  by (simp add: unique_slots_def shop_db_def)

lemma shop_call_triage: "triage (ic_today (shop_call dry)) [feed_record ''x1'', feed_record ''x2''] shop_db
    = ([shop_item], [], [issue_for 1 (feed_record ''x2'') ''no campaign matches meta/x2''])"
  using shop_triage by (simp add: shop_call_def)

theorem ingest_accounts_for_every_record_witness:
  "\<exists>report db'. ingest (shop_call False) [feed_record ''x1'', feed_record ''x2''] shop_db = (Inr report, db')
     \<and> ir_received report = 2 \<and> mset (ir_unresolved report) = {#issue_for 1 (feed_record ''x2'') ''no campaign matches meta/x2''#}"
proof -
  obtain report db' where run: "ingest (shop_call False) [feed_record ''x1'', feed_record ''x2''] shop_db = (Inr report, db')"
    "ir_unresolved_count report = 1"
    using ingest_run [OF shop_unique shop_call_triage [of False]] by auto
  then show ?thesis using ingest_accounts_for_every_record [OF shop_unique shop_call_triage [of False]] by (auto simp: MAX_ISSUES_REPORTED_def)
qed

theorem ingest_attribution_sound_witness:
  "\<exists>r\<in>set [feed_record ''x1'', feed_record ''x2'']. names_campaign shop_db r ''c1''"
proof -
  let ?k = "(''c1'', None, 8)"
  obtain report db' where run: "ingest (shop_call False) [feed_record ''x1'', feed_record ''x2''] shop_db = (Inr report, db')"
    and rows: "\<forall>k. row_at k (md_metrics db') = row_after ''platform'' ''b1'' [shop_item] (md_metrics shop_db) k"
    using ingest_run [OF shop_unique shop_call_triage [of False]] by (auto simp: shop_call_def simp del: split_paired_All)
  have "row_at ?k (md_metrics shop_db) = Some (day_row None 100)"
    by (simp add: row_at_def shop_db_def slot_of_def day_row_def)
  moreover have "writer_of ?k [shop_item] = Some shop_item"
    by (simp add: writer_of_def slot_for_def shop_item_def feed_record_def)
  ultimately have "map_option dm_clicks (row_at ?k (md_metrics db')) = Some 9" "map_option dm_clicks (row_at ?k (md_metrics shop_db)) = Some 2"
    using spec [OF rows, of ?k]
    by (simp_all add: row_after_def written_def shop_item_def feed_record_def clicks_only_def or_old_def day_row_def)
  then have "row_at ?k (md_metrics db') \<noteq> row_at ?k (md_metrics shop_db)" by auto
  from ingest_attribution_sound [OF shop_unique run this]
  show ?thesis by (auto simp: less_Suc_eq Let_def)
qed


theorem ingest_again_changes_nothing_witness:
  "\<exists>report db1 report' db2. ingest (shop_call False) [feed_record ''x1'', feed_record ''x2''] shop_db = (Inr report, db1)
    \<and> ingest (shop_call False) [feed_record ''x1'', feed_record ''x2''] db1 = (Inr report', db2)
    \<and> ir_created report' = 0 \<and> ir_updated report' = 1"
proof -
  obtain report db1 where run: "ingest (shop_call False) [feed_record ''x1'', feed_record ''x2''] shop_db = (Inr report, db1)"
    and counts: "ir_created report = length (filter (\<lambda>a. slot_for a \<notin> slot_of ` set (md_metrics shop_db)) [shop_item])"
      "ir_updated report = length (filter (\<lambda>a. slot_for a \<in> slot_of ` set (md_metrics shop_db)) [shop_item])"
    using ingest_run [OF shop_unique shop_call_triage [of False]] by blast
  have "ir_created report + ir_updated report = 1" using counts by simp
  then show ?thesis
    using ingest_again_changes_nothing [OF shop_unique _ run, of "shop_call False"] run by (auto simp: shop_call_def)
qed

theorem ingested_tables_stay_readable_witness:
  "\<exists>ss. snapshots 10 7 [] [(''c1'', shop_campaign)] (md_metrics (snd (ingest (shop_call False) [feed_record ''x1''] shop_db))) = Inr ss"
proof -
  have "table_ok (md_metrics shop_db)" by (simp add: table_ok_def shop_unique) (simp add: shop_db_def counts_nonneg_def day_row_def)
  from ingested_tables_stay_readable [OF this, where today = 10 and days = 7 and ids = "[]" and campaigns = "[(''c1'', shop_campaign)]"
      and batches = "[(shop_call False, [feed_record ''x1''])]"]
  show ?thesis by (auto simp: Let_def)
qed

end
