(* ===== verification/Scheduling.thy ===== *)
theory Scheduling
  imports Ingest
begin

text \<open>
  The scheduled pull: the window a run should ask for (\<open>plan_window\<close>), the watermark and the lease of
  \<open>repositories/scheduling.py\<close>, and one attempt at one feed or at all of them, \<open>tick\<close> and \<open>tick_all\<close> of
  \<open>services/scheduling.py\<close>, with the three units of work an attempt is split into.

  Days and instants are integers and arguments. The claim of a lease is two statements: the conditional
  update, and on first use an insert, between which another process may act; what the others do is an argument.
  Any unit of work may fail on the database, which is an argument too. The counters, the log and the
  measured duration are left out.
\<close>

subsection \<open>Settings and plans\<close>

record ingest_settings =
  ig_sources :: "string list"
  ig_lookback_days :: int
  ig_max_catchup_days :: int
  ig_dry_run :: bool
  ig_lease_ttl_seconds :: int

text \<open>The bounds and the validator of \<open>IngestSettings\<close>.\<close>

definition valid_ingest_settings :: "ingest_settings \<Rightarrow> bool" where
  "valid_ingest_settings g \<longleftrightarrow> 1 \<le> ig_lookback_days g \<and> ig_lookback_days g \<le> 90 \<and> 1 \<le> ig_max_catchup_days g
     \<and> ig_max_catchup_days g \<le> 365 \<and> 30 \<le> ig_lease_ttl_seconds g \<and> ig_lease_ttl_seconds g \<le> 86400
     \<and> ig_lookback_days g \<le> ig_max_catchup_days g"

datatype plan_reason = PLAN_COVERED | PLAN_FIRST | PLAN_NOMINAL | PLAN_CATCHUP | PLAN_CAPPED

datatype tick_result = TICK_RAN | TICK_SKIPPED | TICK_LOST_LEASE | TICK_FAILED

fun tick_result_value :: "tick_result \<Rightarrow> string" where
  "tick_result_value TICK_RAN = ''ran''"
| "tick_result_value TICK_SKIPPED = ''skipped''"
| "tick_result_value TICK_LOST_LEASE = ''lost_lease''"
| "tick_result_value TICK_FAILED = ''failed''"

record pull_plan =
  pl_source :: string
  pl_start :: int
  pl_end :: int
  pl_days :: int
  pl_reason :: plan_reason
  pl_detail :: string
  pl_catchup_days :: int
  pl_gap_days :: int
  pl_covered :: bool

definition plan_window :: "string \<Rightarrow> int \<Rightarrow> int \<Rightarrow> int \<Rightarrow> (int \<times> int) option \<Rightarrow> pull_plan" where
  "plan_window source today lookback_days max_catchup_days covered =
     (let nominal_start = today - (lookback_days - 1);
          floor = today - (max_catchup_days - 1);
          build = (\<lambda>start reason detail catchup gap is_covered.
            \<lparr>pl_source = source, pl_start = start, pl_end = today, pl_days = today - start + 1, pl_reason = reason, pl_detail = detail,
             pl_catchup_days = catchup, pl_gap_days = gap, pl_covered = is_covered\<rparr>)
      in case covered of
           None \<Rightarrow> build nominal_start PLAN_FIRST (''no watermark for this feed, so this pulls the nominal lookback. ''
               @ ''History before it is a deliberate backfill, not something a scheduler should invent on its own initiative.'') 0 0 False
         | Some (covered_start, covered_end) \<Rightarrow>
             if covered_start \<le> nominal_start \<and> today \<le> covered_end
             then build nominal_start PLAN_COVERED (''already covered '' @ iso_date covered_start @ ''..'' @ iso_date covered_end
                 @ ''; pulling again would only re-assert what is stored'') 0 0 True
             else let wanted = covered_end + 1
                  in if nominal_start \<le> wanted
                     then build nominal_start PLAN_NOMINAL (''watermark ends '' @ iso_date covered_end
                         @ ''; the nominal lookback overlaps it, so the overlap re-checks the days a platform may still be revising'') 0 0 False
                     else if floor \<le> wanted
                     then build wanted PLAN_CATCHUP (''watermark ends '' @ iso_date covered_end @ ''; reaching back over the missed run(s)'')
                            (nominal_start - wanted) 0 False
                     else build floor PLAN_CAPPED (''the gap starts '' @ iso_date wanted
                         @ '' but INGEST__MAX_CATCHUP_DAYS stops the window at '' @ iso_date floor @ ''; run adoptimizer ingest --start ''
                         @ iso_date wanted @ '' --end '' @ iso_date (floor - 1) @ '' to backfill the rest'')
                            (nominal_start - floor) (floor - wanted) False)"

subsection \<open>The watermark\<close>

record watermark =
  wm_window_start :: int
  wm_window_end :: int
  wm_batch_id :: "string option"
  wm_received :: nat
  wm_dry_run :: bool

type_synonym watermarks = "(string, watermark) dict"

definition advance :: "string \<Rightarrow> int \<Rightarrow> int \<Rightarrow> string option \<Rightarrow> nat \<Rightarrow> bool \<Rightarrow> watermarks \<Rightarrow> watermarks" where
  "advance source start final batch received dry marks =
     (if dry then marks
      else AList.update source
             (case map_of marks source of
                None \<Rightarrow> \<lparr>wm_window_start = start, wm_window_end = final, wm_batch_id = batch, wm_received = received, wm_dry_run = False\<rparr>
              | Some w \<Rightarrow> \<lparr>wm_window_start = min (wm_window_start w) start, wm_window_end = max (wm_window_end w) final,
                          wm_batch_id = batch, wm_received = received, wm_dry_run = False\<rparr>) marks)"

definition span_of :: "watermark \<Rightarrow> int \<times> int" where
  "span_of w = (wm_window_start w, wm_window_end w)"

subsection \<open>The lease\<close>

record lease =
  le_holder :: string
  le_acquired_at :: "int option"
  le_expires_at :: "int option"
  le_last_outcome :: string
  le_last_message :: string
  le_last_batch_id :: "string option"
  le_last_finished_at :: "int option"
  le_consecutive_failures :: nat

type_synonym leases = "(string, lease) dict"

text \<open>The row matches the condition of the update: no expiry, or one in the past.\<close>

definition lease_free :: "int \<Rightarrow> lease \<Rightarrow> bool" where
  "lease_free now l = (case le_expires_at l of None \<Rightarrow> True | Some t \<Rightarrow> t < now)"

definition claim_update :: "string \<Rightarrow> string \<Rightarrow> int \<Rightarrow> int \<Rightarrow> leases \<Rightarrow> nat \<times> leases" where
  "claim_update name holder ttl now ls =
     (case map_of ls name of
        Some l \<Rightarrow> if lease_free now l
                  then (1, AList.update name (l\<lparr>le_holder := holder, le_acquired_at := Some now, le_expires_at := Some (now + ttl)\<rparr>) ls)
                  else (0, ls)
      | None \<Rightarrow> (0, ls))"

definition new_lease :: "string \<Rightarrow> int \<Rightarrow> int \<Rightarrow> lease" where
  "new_lease holder ttl now = \<lparr>le_holder = holder, le_acquired_at = Some now, le_expires_at = Some (now + ttl), le_last_outcome = [],
     le_last_message = [], le_last_batch_id = None, le_last_finished_at = None, le_consecutive_failures = 0\<rparr>"

text \<open>\<open>others\<close> is what other processes commit between the failed update and the insert.\<close>

definition acquire :: "string \<Rightarrow> string \<Rightarrow> int \<Rightarrow> int \<Rightarrow> (leases \<Rightarrow> leases) \<Rightarrow> leases \<Rightarrow> (bool \<times> lease option) \<times> leases" where
  "acquire name holder ttl now others ls =
     (case claim_update name holder ttl now ls of
        (n, ls1) \<Rightarrow>
          if n = 1 then ((True, map_of ls1 name), ls1)
          else (case map_of ls1 name of
                  Some l \<Rightarrow> ((False, Some l), ls1)
                | None \<Rightarrow> let ls2 = others ls1
                          in (case map_of ls2 name of
                                Some l \<Rightarrow> ((False, Some l), ls2)
                              | None \<Rightarrow> ((True, Some (new_lease holder ttl now)), AList.update name (new_lease holder ttl now) ls2))))"

definition record_outcome :: "string \<Rightarrow> string \<Rightarrow> tick_result \<Rightarrow> string \<Rightarrow> string option \<Rightarrow> bool \<Rightarrow> int \<Rightarrow> leases \<Rightarrow> bool \<times> leases" where
  "record_outcome name holder outcome message batch failed now ls =
     (case map_of ls name of
        None \<Rightarrow> (False, ls)
      | Some l \<Rightarrow>
          if le_holder l = holder
          then (True, AList.update name (l\<lparr>le_holder := [], le_expires_at := None, le_last_outcome := tick_result_value outcome,
                 le_last_message := take 300 message, le_last_batch_id := batch, le_last_finished_at := Some now,
                 le_consecutive_failures := (if failed then le_consecutive_failures l + 1 else 0)\<rparr>) ls)
          else (False, ls))"

subsection \<open>One attempt\<close>

record schedule_db =
  sd_tables :: metric_db
  sd_watermarks :: watermarks
  sd_leases :: leases

text \<open>The units of work of an attempt, each of which the database may refuse.\<close>

datatype tick_unit = UNIT_PLAN | UNIT_ACQUIRE | UNIT_PULL | UNIT_RELEASE

record tick_env =
  te_today :: int
  te_now :: int
  te_finished :: int
  te_batch_id :: string
  te_fails :: "tick_unit \<Rightarrow> py_error option"
  te_others :: "leases \<Rightarrow> leases"

record tick_out =
  to_source :: string
  to_outcome :: tick_result
  to_reason :: plan_reason
  to_detail :: string
  to_start :: int
  to_end :: int
  to_gap_days :: int
  to_report :: "ingest_report option"
  to_error :: "string option"

definition lease_name :: "string \<Rightarrow> string" where
  "lease_name source = ''ingest:'' @ source"

definition tick_out_of :: "string \<Rightarrow> tick_result \<Rightarrow> pull_plan \<Rightarrow> string \<Rightarrow> ingest_report option \<Rightarrow> string option \<Rightarrow> tick_out" where
  "tick_out_of source outcome plan detail report error =
     \<lparr>to_source = source, to_outcome = outcome, to_reason = pl_reason plan, to_detail = or_str detail (pl_detail plan),
      to_start = pl_start plan, to_end = pl_end plan, to_gap_days = pl_gap_days plan, to_report = report, to_error = error\<rparr>"

definition plan_for :: "ingest_settings \<Rightarrow> string \<Rightarrow> int \<Rightarrow> watermarks \<Rightarrow> pull_plan" where
  "plan_for g source today marks =
     plan_window source today (ig_lookback_days g) (ig_max_catchup_days g) (map_option span_of (map_of marks source))"

text \<open>\<open>_pull\<close>: the rows and the watermark are one unit, so a failure of either leaves both.\<close>

definition pull_unit :: "source_registry \<Rightarrow> string \<Rightarrow> pull_plan \<Rightarrow> bool \<Rightarrow> string \<Rightarrow> tick_env \<Rightarrow> schedule_db
   \<Rightarrow> (py_error, ingest_report) res \<times> schedule_db" where
  "pull_unit reg source plan rehearsal holder env db =
     (case pull reg source (pl_start plan) (pl_end plan)
             \<lparr>ic_source = source, ic_dry_run = rehearsal, ic_actor = ''scheduler:'' @ holder, ic_claims = None, ic_client = None,
              ic_today = te_today env, ic_batch_id = te_batch_id env\<rparr> (sd_tables db) of
        (Inl e, t) \<Rightarrow> (Inl e, db)
      | (Inr report, t) \<Rightarrow>
          (case te_fails env UNIT_PULL of
             Some e \<Rightarrow> (Inl e, db)
           | None \<Rightarrow> (Inr report, db\<lparr>sd_tables := t, sd_watermarks := advance source (pl_start plan) (pl_end plan)
                        (Some (ir_batch_id report)) (ir_received report) rehearsal (sd_watermarks db)\<rparr>)))"

text \<open>\<open>_release\<close> swallows its own failure.\<close>

definition release :: "string \<Rightarrow> string \<Rightarrow> tick_result \<Rightarrow> string \<Rightarrow> string option \<Rightarrow> bool \<Rightarrow> tick_env \<Rightarrow> schedule_db \<Rightarrow> schedule_db" where
  "release source holder outcome message batch failed env db =
     (case te_fails env UNIT_RELEASE of
        Some e \<Rightarrow> db
      | None \<Rightarrow> db\<lparr>sd_leases := snd (record_outcome (lease_name source) holder outcome message batch failed (te_finished env) (sd_leases db))\<rparr>)"

definition tick :: "ingest_settings \<Rightarrow> source_registry \<Rightarrow> string \<Rightarrow> bool option \<Rightarrow> bool \<Rightarrow> string \<Rightarrow> tick_env \<Rightarrow> schedule_db
   \<Rightarrow> (py_error, tick_out) res \<times> schedule_db" where
  "tick g reg holder dry_run force source env db =
     (let rehearsal = (case dry_run of None \<Rightarrow> ig_dry_run g | Some b \<Rightarrow> b)
      in case te_fails env UNIT_PLAN of
           Some e \<Rightarrow> (Inl e, db)
         | None \<Rightarrow>
             let plan = plan_for g source (te_today env) (sd_watermarks db)
             in if pl_covered plan \<and> \<not> force then (Inr (tick_out_of source TICK_SKIPPED plan [] None None), db)
                else (case te_fails env UNIT_ACQUIRE of
                        Some e \<Rightarrow> (Inl e, db)
                      | None \<Rightarrow>
                          (case acquire (lease_name source) holder (ig_lease_ttl_seconds g) (te_now env) (te_others env) (sd_leases db) of
                             ((won, row), ls) \<Rightarrow>
                               let db1 = db\<lparr>sd_leases := ls\<rparr>
                               in if \<not> won
                                  then (Inr (tick_out_of source TICK_LOST_LEASE plan (''held by ''
                                          @ or_str (case row of Some l \<Rightarrow> le_holder l | None \<Rightarrow> []) ''an unidentified process'') None None), db1)
                                  else (case pull_unit reg source plan rehearsal holder env db1 of
                                          (Inl e, db2) \<Rightarrow>
                                            let message = take 300 (error_type_name e @ '': '' @ error_message e)
                                            in (Inr (tick_out_of source TICK_FAILED plan [] None (Some message)),
                                                release source holder TICK_FAILED message None True env db2)
                                        | (Inr report, db2) \<Rightarrow>
                                            (Inr (tick_out_of source TICK_RAN plan [] (Some report) None),
                                             release source holder TICK_RAN (pl_detail plan) (Some (ir_batch_id report)) False env db2)))))"

text \<open>One pass over the configured feeds; an attempt that raises ends the pass.\<close>

fun tick_all :: "ingest_settings \<Rightarrow> source_registry \<Rightarrow> string \<Rightarrow> bool option \<Rightarrow> bool \<Rightarrow> (string \<Rightarrow> tick_env) \<Rightarrow> string list \<Rightarrow> schedule_db
   \<Rightarrow> (py_error, tick_out list) res \<times> schedule_db" where
  "tick_all g reg holder dry_run force env [] db = (Inr [], db)"
| "tick_all g reg holder dry_run force env (s # ss) db =
     (case tick g reg holder dry_run force s (env s) db of
        (Inl e, db1) \<Rightarrow> (Inl e, db1)
      | (Inr t, db1) \<Rightarrow> (case tick_all g reg holder dry_run force env ss db1 of
                          (Inl e, db2) \<Rightarrow> (Inl e, db2) | (Inr ts, db2) \<Rightarrow> (Inr (t # ts), db2)))"

definition pass_ok :: "tick_out list \<Rightarrow> bool" where
  "pass_ok ts \<longleftrightarrow> length (filter (\<lambda>t. to_outcome t = TICK_FAILED) ts) = 0"

text \<open>The resident loop, for the passes until it is asked to stop: it goes on after a failed pass, not after a raised one.\<close>

fun run_forever :: "ingest_settings \<Rightarrow> source_registry \<Rightarrow> string \<Rightarrow> (string \<Rightarrow> tick_env) list \<Rightarrow> schedule_db
   \<Rightarrow> (py_error, tick_out list list) res \<times> schedule_db" where
  "run_forever g reg holder [] db = (Inr [], db)"
| "run_forever g reg holder (env # envs) db =
     (case tick_all g reg holder None False env (ig_sources g) db of
        (Inl e, db1) \<Rightarrow> (Inl e, db1)
      | (Inr ts, db1) \<Rightarrow> (case run_forever g reg holder envs db1 of
                          (Inl e, db2) \<Rightarrow> (Inl e, db2) | (Inr rest, db2) \<Rightarrow> (Inr (ts # rest), db2)))"

end
