(* ===== verification/ScheduleFlow.thy ===== *)
theory ScheduleFlow
  imports Scheduling IngestFlow
begin

text \<open>
  What the schedule guarantees: every plan reports exactly the days it leaves out, the watermark overstates what was
  pulled by exactly the reported days, one holder at a time pulls a feed, a failed attempt leaves the tables and
  the watermark alone and frees the lease, a rehearsal changes no figure, and which failures end the schedule.
\<close>

subsection \<open>Plans\<close>

lemma plan_window_facts:
  assumes "1 \<le> L" "L \<le> C" "b \<le> today"
  shows "let p = plan_window s today L C (Some (a, b)) in pl_end p = today \<and> pl_start p \<le> today \<and> today - C + 1 \<le> pl_start p
    \<and> b - L + 1 \<le> pl_start p \<and> pl_start p \<le> today - L + 1 \<and> pl_days p = today - pl_start p + 1
    \<and> pl_gap_days p = (if b + 1 < pl_start p \<and> pl_reason p = PLAN_CAPPED then pl_start p - (b + 1) else 0)
    \<and> (pl_reason p = PLAN_CAPPED \<longrightarrow> pl_start p = today - C + 1 \<and> b + 1 < pl_start p)
    \<and> (pl_reason p \<noteq> PLAN_CAPPED \<longrightarrow> pl_start p \<le> b + 1)"
  using assms by (auto simp: plan_window_def Let_def)

lemma plan_gap:
  assumes "1 \<le> L" "L \<le> C" "b \<le> today"
  shows "pl_gap_days (plan_window s today L C (Some (a, b)))
    = int (card ({b + 1..today} - {pl_start (plan_window s today L C (Some (a, b)))..today}))"
proof -
  let ?p = "plan_window s today L C (Some (a, b))"
  note f = plan_window_facts [OF assms, of s a, unfolded Let_def]
  show ?thesis
  proof (cases "pl_reason ?p = PLAN_CAPPED")
    case True
    then have "{b + 1..today} - {pl_start ?p..today} = {b + 1..pl_start ?p - 1}" using f by auto
    then show ?thesis using True f by simp
  next
    case False
    then have "{b + 1..today} - {pl_start ?p..today} = {}" using f by auto
    then show ?thesis using False f by simp
  qed
qed

text \<open>
  No gap is silent in the plan: with a watermark that ends at the latest today, the planned window ends today, is
  no longer than the recovery bound and no shorter than the lookback, and the days since the watermark that
  it leaves out are counted exactly by \<open>gap_days\<close>, which is positive precisely when the plan says \<open>capped\<close>.
\<close>

theorem plan_reports_every_gap:
  assumes "valid_ingest_settings g" "map_of marks source = Some w" "wm_window_end w \<le> today"
  shows "let p = plan_for g source today marks in pl_end p = today \<and> ig_lookback_days g \<le> pl_days p \<and> pl_days p \<le> ig_max_catchup_days g
    \<and> pl_days p = int (card {pl_start p..pl_end p})
    \<and> pl_gap_days p = int (card ({wm_window_end w + 1..today} - {pl_start p..pl_end p}))
    \<and> (0 < pl_gap_days p \<longleftrightarrow> pl_reason p = PLAN_CAPPED)"
proof -
  have b: "1 \<le> ig_lookback_days g" "ig_lookback_days g \<le> ig_max_catchup_days g" using assms(1) by (simp_all add: valid_ingest_settings_def)
  have p: "plan_for g source today marks
      = plan_window source today (ig_lookback_days g) (ig_max_catchup_days g) (Some (wm_window_start w, wm_window_end w))"
    using assms(2) by (simp add: plan_for_def span_of_def)
  let ?p = "plan_window source today (ig_lookback_days g) (ig_max_catchup_days g) (Some (wm_window_start w, wm_window_end w))"
  note f = plan_window_facts [OF b assms(3), of source "wm_window_start w", unfolded Let_def]
  have e: "pl_end ?p = today" using f by blast
  have days: "pl_days ?p = int (card {pl_start ?p..today})" using f by (simp only: card_atLeastAtMost_int) linarith
  have gap: "pl_gap_days ?p = int (card ({wm_window_end w + 1..today} - {pl_start ?p..today}))" by (rule plan_gap [OF b assms(3)])
  have capped: "0 < pl_gap_days ?p \<longleftrightarrow> pl_reason ?p = PLAN_CAPPED" using f by (cases "pl_reason ?p = PLAN_CAPPED") auto
  show ?thesis unfolding p Let_def e using days gap capped f by (intro conjI) (blast | linarith)+
qed

subsection \<open>One attempt\<close>

lemma pull_unit_cases:
  "(\<exists>e. fst (pull_unit reg source plan r h env db) = Inl e \<and> snd (pull_unit reg source plan r h env db) = db)
   \<or> (\<exists>report t. pull_unit reg source plan r h env db
        = (Inr report, db\<lparr>sd_tables := t, sd_watermarks := advance source (pl_start plan) (pl_end plan)
             (Some (ir_batch_id report)) (ir_received report) r (sd_watermarks db)\<rparr>))"
  by (auto simp: pull_unit_def split: prod.split sum.split option.split)

lemma release_keeps [simp]:
  "sd_tables (release s h oc m b f env db) = sd_tables db" "sd_watermarks (release s h oc m b f env db) = sd_watermarks db"
  by (simp_all add: release_def split: option.split)

lemma tick_out_sel [simp]:
  "to_outcome (tick_out_of s oc p d r e) = oc" "to_report (tick_out_of s oc p d r e) = r" "to_start (tick_out_of s oc p d r e) = pl_start p"
  "to_end (tick_out_of s oc p d r e) = pl_end p" "to_gap_days (tick_out_of s oc p d r e) = pl_gap_days p"
  by (simp_all add: tick_out_of_def)

lemma tick_cases:
  assumes "tick g reg holder dry_run force source env db = (res, db')"
  obtains
    (raised) e where "res = Inl e" "db' = db" "te_fails env UNIT_PLAN = Some e \<or> te_fails env UNIT_ACQUIRE = Some e"
  | (skipped) t where "res = Inr t" "db' = db" "to_outcome t = TICK_SKIPPED"
  | (lost) t ls where "res = Inr t" "db' = db\<lparr>sd_leases := ls\<rparr>" "to_outcome t = TICK_LOST_LEASE"
  | (failed) t ls row db1 e where "res = Inr t" "to_outcome t = TICK_FAILED"
      "acquire (lease_name source) holder (ig_lease_ttl_seconds g) (te_now env) (te_others env) (sd_leases db) = ((True, row), ls)"
      "db1 = db\<lparr>sd_leases := ls\<rparr>" "db' = release source holder TICK_FAILED e None True env db1"
  | (ran) t ls row report tabs where "res = Inr t" "to_outcome t = TICK_RAN" "to_report t = Some report"
      "acquire (lease_name source) holder (ig_lease_ttl_seconds g) (te_now env) (te_others env) (sd_leases db) = ((True, row), ls)"
      "to_start t = pl_start (plan_for g source (te_today env) (sd_watermarks db))"
      "to_end t = pl_end (plan_for g source (te_today env) (sd_watermarks db))"
      "to_gap_days t = pl_gap_days (plan_for g source (te_today env) (sd_watermarks db))"
      "pull_unit reg source (plan_for g source (te_today env) (sd_watermarks db)) (case dry_run of None \<Rightarrow> ig_dry_run g | Some b \<Rightarrow> b)
         holder env (db\<lparr>sd_leases := ls\<rparr>) = (Inr report, db\<lparr>sd_leases := ls, sd_tables := tabs, sd_watermarks := advance source (to_start t) (to_end t)
             (Some (ir_batch_id report)) (ir_received report) (case dry_run of None \<Rightarrow> ig_dry_run g | Some b \<Rightarrow> b) (sd_watermarks db)\<rparr>)"
      "db' = release source holder TICK_RAN (pl_detail (plan_for g source (te_today env) (sd_watermarks db))) (Some (ir_batch_id report)) False env
        (db\<lparr>sd_leases := ls, sd_tables := tabs, sd_watermarks := advance source (to_start t) (to_end t)
             (Some (ir_batch_id report)) (ir_received report) (case dry_run of None \<Rightarrow> ig_dry_run g | Some b \<Rightarrow> b) (sd_watermarks db)\<rparr>)"
proof (cases "te_fails env UNIT_PLAN")
  case (Some e)
  then show ?thesis using assms [symmetric] by (intro raised [of e]) (simp_all add: tick_def Let_def)
next
  case planned: None
  let ?plan = "plan_for g source (te_today env) (sd_watermarks db)" and ?r = "case dry_run of None \<Rightarrow> ig_dry_run g | Some b \<Rightarrow> b"
  show ?thesis
  proof (cases "pl_covered ?plan \<and> \<not> force")
    case True
    then show ?thesis using assms [symmetric] planned
      by (intro skipped [of "tick_out_of source TICK_SKIPPED ?plan [] None None"]) (simp_all add: tick_def Let_def)
  next
    case due: False
    show ?thesis
    proof (cases "te_fails env UNIT_ACQUIRE")
      case (Some e)
      then show ?thesis using assms [symmetric] planned due by (intro raised [of e]) (simp_all add: tick_def Let_def split: if_splits)
    next
      case None
      obtain won row ls where acq: "acquire (lease_name source) holder (ig_lease_ttl_seconds g) (te_now env) (te_others env) (sd_leases db)
          = ((won, row), ls)" by (metis prod.exhaust)
      show ?thesis
      proof (cases won)
        case False
        then show ?thesis using assms [symmetric] planned due None acq
          by (intro lost [of "tick_out_of source TICK_LOST_LEASE ?plan (''held by ''
              @ or_str (case row of Some l \<Rightarrow> le_holder l | None \<Rightarrow> []) ''an unidentified process'') None None" ls])
            (simp_all add: tick_def Let_def)
      next
        case True
        let ?u = "pull_unit reg source ?plan ?r holder env (db\<lparr>sd_leases := ls\<rparr>)"
        have run: "(res, db') = (case ?u of
              (Inl e, db2) \<Rightarrow> (Inr (tick_out_of source TICK_FAILED ?plan [] None (Some (take 300 (error_type_name e @ '': '' @ error_message e)))),
                 release source holder TICK_FAILED (take 300 (error_type_name e @ '': '' @ error_message e)) None True env db2)
            | (Inr report, db2) \<Rightarrow> (Inr (tick_out_of source TICK_RAN ?plan [] (Some report) None),
                 release source holder TICK_RAN (pl_detail ?plan) (Some (ir_batch_id report)) False env db2))"
          using assms [symmetric] unfolding tick_def Let_def using planned due None acq True by simp
        from pull_unit_cases [of reg source ?plan ?r holder env "db\<lparr>sd_leases := ls\<rparr>"] show ?thesis
        proof (elim disjE exE conjE)
          fix e assume "fst ?u = Inl e" "snd ?u = db\<lparr>sd_leases := ls\<rparr>"
          then have "?u = (Inl e, db\<lparr>sd_leases := ls\<rparr>)" by (metis prod.collapse)
          then show ?thesis using run acq True
            by (intro failed [of "tick_out_of source TICK_FAILED ?plan [] None (Some (take 300 (error_type_name e @ '': '' @ error_message e)))"
                  row ls "db\<lparr>sd_leases := ls\<rparr>" "take 300 (error_type_name e @ '': '' @ error_message e)"]) simp_all
        next
          fix report t assume "?u = (Inr report, (db\<lparr>sd_leases := ls\<rparr>)\<lparr>sd_tables := t, sd_watermarks := advance source (pl_start ?plan)
             (pl_end ?plan) (Some (ir_batch_id report)) (ir_received report) ?r (sd_watermarks (db\<lparr>sd_leases := ls\<rparr>))\<rparr>)"
          then show ?thesis using run acq True
            by (intro ran [of "tick_out_of source TICK_RAN ?plan [] (Some report) None" report row ls t]) simp_all
        qed
      qed
    qed
  qed
qed

subsection \<open>What the watermark knows\<close>

text \<open>
  The life of one feed from its first attempt: the days pulled for it so far, the sum of the gaps its attempts
  reported, and the latest day. Attempts at the other feeds and the rest of the program leave its watermark alone.
\<close>

inductive scheduled :: "ingest_settings \<Rightarrow> string \<Rightarrow> schedule_db \<Rightarrow> int set \<Rightarrow> int \<Rightarrow> int \<Rightarrow> bool" for g source where
  fresh: "map_of (sd_watermarks db) source = None \<Longrightarrow> scheduled g source db {} 0 today"
| ran: "scheduled g source db days gap day \<Longrightarrow> day \<le> te_today env
    \<Longrightarrow> tick g reg holder dry_run force source env db = (Inr t, db') \<Longrightarrow> to_outcome t = TICK_RAN
    \<Longrightarrow> \<not> (case dry_run of None \<Rightarrow> ig_dry_run g | Some b \<Rightarrow> b)
    \<Longrightarrow> scheduled g source db' (days \<union> {to_start t..to_end t}) (gap + to_gap_days t) (te_today env)"
| idle: "scheduled g source db days gap day \<Longrightarrow> day \<le> te_today env
    \<Longrightarrow> tick g reg holder dry_run force source env db = (res, db') \<Longrightarrow> (\<And>t. res = Inr t \<Longrightarrow> to_outcome t = TICK_RAN
           \<Longrightarrow> (case dry_run of None \<Rightarrow> ig_dry_run g | Some b \<Rightarrow> b))
    \<Longrightarrow> scheduled g source db' days gap (te_today env)"
| elsewhere: "scheduled g source db days gap day \<Longrightarrow> day \<le> today
    \<Longrightarrow> map_of (sd_watermarks db') source = map_of (sd_watermarks db) source \<Longrightarrow> scheduled g source db' days gap today"

definition mark_ok :: "ingest_settings \<Rightarrow> watermark option \<Rightarrow> int set \<Rightarrow> int \<Rightarrow> int \<Rightarrow> bool" where
  "mark_ok g w days gap day =
     (case w of
        None \<Rightarrow> days = {} \<and> gap = 0
      | Some w \<Rightarrow> let a = wm_window_start w; b = wm_window_end w; missing = {a..b} - days
                  in days \<subseteq> {a..b} \<and> b \<le> day \<and> a \<le> b - ig_lookback_days g + 1 \<and> int (card missing) = gap
                     \<and> (\<forall>m\<in>missing. m < b - ig_max_catchup_days g + 1))"

lemma mark_ok_step:
  assumes g: "valid_ingest_settings g" and ok: "mark_ok g (map_of marks source) days gap day" and le: "day \<le> today"
    and p: "p = plan_for g source today marks"
  shows "mark_ok g (map_of (advance source (pl_start p) (pl_end p) batch received False marks) source)
    (days \<union> {pl_start p..pl_end p}) (gap + pl_gap_days p) today"
proof -
  let ?L = "ig_lookback_days g" and ?C = "ig_max_catchup_days g"
  have b: "1 \<le> ?L" "?L \<le> ?C" using g by (simp_all add: valid_ingest_settings_def)
  show ?thesis
  proof (cases "map_of marks source")
    case None
    then have "pl_start p = today - ?L + 1" "pl_end p = today" "pl_gap_days p = 0" "days = {}" "gap = 0"
      using p ok by (simp_all add: plan_for_def plan_window_def Let_def mark_ok_def)
    then show ?thesis using None b by (simp add: mark_ok_def advance_def update_conv' Let_def)
  next
    case (Some w)
    let ?a = "wm_window_start w" and ?b = "wm_window_end w"
    let ?old = "{?a..?b} - days" and ?new = "{?b + 1..today} - {pl_start p..today}"
    have o: "days \<subseteq> {?a..?b}" "?b \<le> day" "?a \<le> ?b - ?L + 1" "int (card ?old) = gap" "\<forall>m\<in>?old. m < ?b - ?C + 1"
      using ok Some by (simp_all add: mark_ok_def Let_def)
    have bt: "?b \<le> today" using o(2) le by simp
    have pw: "p = plan_window source today ?L ?C (Some (?a, ?b))" using p Some by (simp add: plan_for_def span_of_def)
    note f = plan_window_facts [OF b bt, of source ?a, unfolded Let_def, folded pw]
    have e: "pl_end p = today" and st: "?b - ?L + 1 \<le> pl_start p" "pl_start p \<le> today" "today - ?C + 1 \<le> pl_start p" using f by blast+
    have gap: "pl_gap_days p = int (card ?new)" using plan_gap [OF b bt, of source ?a] pw by simp
    have miss: "{?a..today} - (days \<union> {pl_start p..today}) = ?old \<union> ?new"
    proof (rule set_eqI)
      fix m
      show "m \<in> {?a..today} - (days \<union> {pl_start p..today}) \<longleftrightarrow> m \<in> ?old \<union> ?new"
      proof (cases "m \<le> ?b")
        case True
        have "m < pl_start p" if "m \<in> ?old" using bspec [OF o(5) that] st(1) b by linarith
        then show ?thesis using True bt by auto
      next
        case False
        then have "m \<notin> days" "?a \<le> m" using o(1,3) b by auto
        then show ?thesis using False by auto
      qed
    qed
    have far: "m < today - ?C + 1" if "m \<in> ?new" for m
      using that f b by (cases "pl_reason p = PLAN_CAPPED") auto
    have "?old \<inter> ?new = {}" by auto
    then have card: "int (card (?old \<union> ?new)) = gap + pl_gap_days p" using gap o(4) by (simp add: card_Un_disjoint)
    have "min ?a (pl_start p) = ?a" "max ?b today = today" using o(3) st(1) bt by simp_all
    then have "map_of (advance source (pl_start p) (pl_end p) batch received False marks) source
        = Some \<lparr>wm_window_start = ?a, wm_window_end = today, wm_batch_id = batch, wm_received = received, wm_dry_run = False\<rparr>"
      using Some by (simp add: advance_def update_conv' e)
    moreover have "days \<union> {pl_start p..today} \<subseteq> {?a..today}" using o(1,3) st(1) bt by auto
    moreover have "m < today - ?C + 1" if "m \<in> ?old" for m using bspec [OF o(5) that] bt by linarith
    then have "\<forall>m\<in>?old \<union> ?new. m < today - ?C + 1" using far by blast
    moreover have "?a \<le> today - ?L + 1" using o(3) bt by simp
    ultimately show ?thesis using card by (simp add: mark_ok_def Let_def e miss)
  qed
qed

lemma mark_ok_later: "mark_ok g w days gap day \<Longrightarrow> day \<le> today \<Longrightarrow> mark_ok g w days gap today"
  by (auto simp: mark_ok_def Let_def split: option.splits)

lemma tick_marks:
  assumes "tick g reg holder dry_run force source env db = (res, db')"
    and "\<And>t. res = Inr t \<Longrightarrow> to_outcome t = TICK_RAN \<Longrightarrow> (case dry_run of None \<Rightarrow> ig_dry_run g | Some b \<Rightarrow> b)"
  shows "sd_watermarks db' = sd_watermarks db"
  using assms(1) by (cases rule: tick_cases) (use assms(2) in \<open>auto simp: advance_def\<close>)

lemma scheduled_mark_ok:
  assumes "scheduled g source db days gap day" "valid_ingest_settings g"
  shows "mark_ok g (map_of (sd_watermarks db) source) days gap day"
  using assms
proof (induction rule: scheduled.induct)
  case (ran db days gap day env reg holder dry_run force t db')
  let ?p = "plan_for g source (te_today env) (sd_watermarks db)"
  from ran.hyps(3) obtain batch received where "to_start t = pl_start ?p" "to_end t = pl_end ?p" "to_gap_days t = pl_gap_days ?p"
    "sd_watermarks db' = advance source (pl_start ?p) (pl_end ?p) batch received False (sd_watermarks db)"
    by (cases rule: tick_cases) (use ran.hyps(4,5) in auto)
  then show ?case using mark_ok_step [OF ran.prems ran.IH [OF ran.prems] ran.hyps(2) refl] by simp
next
  case (idle db days gap day env reg holder dry_run force res db')
  then show ?case using tick_marks [OF idle.hyps(3,4)] mark_ok_later by simp
next
  case (elsewhere db days gap day today db')
  then show ?case using mark_ok_later by simp
qed (simp add: mark_ok_def)


subsection \<open>Single flight\<close>

text \<open>What other processes do to the leases: claim one, or settle one they hold.\<close>

datatype lease_op = Claim string string int int | Settle string string tick_result int

definition apply_lease_op :: "leases \<Rightarrow> lease_op \<Rightarrow> leases" where
  "apply_lease_op ls p =
     (case p of
        Claim n h ttl t \<Rightarrow> snd (acquire n h ttl t id ls)
      | Settle n h oc t \<Rightarrow> snd (record_outcome n h oc [] None False t ls))"

text \<open>An operation before the lease runs out that is not the settlement of its holder.\<close>

definition leaves_held :: "string \<Rightarrow> string \<Rightarrow> int \<Rightarrow> lease_op \<Rightarrow> bool" where
  "leaves_held name h expiry p =
     (case p of Claim n h' ttl t \<Rightarrow> (t \<le> expiry) | Settle n h' oc t \<Rightarrow> (n = name \<longrightarrow> h' \<noteq> h))"

definition held_until :: "string \<Rightarrow> string \<Rightarrow> int \<Rightarrow> leases \<Rightarrow> bool" where
  "held_until name h expiry ls = (\<exists>l. map_of ls name = Some l \<and> le_holder l = h \<and> le_expires_at l = Some expiry)"

lemma acquire_wins_holds: "acquire name h ttl t others ls = ((True, row), ls') \<Longrightarrow> held_until name h (t + ttl) ls'"
  by (auto simp: acquire_def claim_update_def held_until_def Let_def update_conv' new_lease_def split: option.splits if_splits)

lemma acquire_held: "held_until name h expiry ls \<Longrightarrow> t \<le> expiry \<Longrightarrow> fst (fst (acquire name h' ttl t others ls)) = False
    \<and> held_until name h expiry (snd (acquire name h' ttl t others ls))"
  by (auto simp: acquire_def claim_update_def held_until_def Let_def lease_free_def)

lemma acquire_other: "n \<noteq> name \<Longrightarrow> held_until name h expiry ls \<Longrightarrow> held_until name h expiry (snd (acquire n h' ttl t id ls))"
  by (auto simp: acquire_def claim_update_def held_until_def Let_def update_conv' split: option.splits)

lemma leaves_held_keeps: "leaves_held name h expiry p \<Longrightarrow> held_until name h expiry ls \<Longrightarrow> held_until name h expiry (apply_lease_op ls p)"
proof (cases p)
  case (Claim n h' ttl t)
  then show "leaves_held name h expiry p \<Longrightarrow> held_until name h expiry ls \<Longrightarrow> ?thesis"
    using acquire_held [of name h expiry ls t h' ttl id] acquire_other [of n name h expiry ls h' ttl t]
    by (cases "n = name") (simp_all add: leaves_held_def apply_lease_op_def)
next
  case (Settle n h' oc t)
  then show "leaves_held name h expiry p \<Longrightarrow> held_until name h expiry ls \<Longrightarrow> ?thesis"
    by (auto simp: leaves_held_def apply_lease_op_def record_outcome_def held_until_def update_conv' split: option.split)
qed

text \<open>
  C27. One pull per feed at a time: once a claim of a lease has won, no later claim of it wins until it expires or its
  holder settles it, whatever other processes claim and settle in between, on first use too.
\<close>

theorem lease_is_single_flight:
  assumes "acquire name h ttl t others ls = ((True, row), ls1)" "\<forall>p\<in>set ops. leaves_held name h (t + ttl) p" "t2 \<le> t + ttl"
  shows "fst (fst (acquire name h2 ttl2 t2 others2 (foldl apply_lease_op ls1 ops))) = False"
proof -
  have "held_until name h (t + ttl) (foldl apply_lease_op l ops)" if "held_until name h (t + ttl) l" for l
    using that assms(2) by (induction ops arbitrary: l) (simp_all add: leaves_held_keeps)
  then show ?thesis using acquire_held [OF _ assms(3)] acquire_wins_holds [OF assms(1)] by blast
qed

subsection \<open>Failures\<close>

text \<open>
  A failed attempt costs nothing but itself: an attempt that does not report \<open>ran\<close> leaves every table and the
  watermark as they were, and one that did or failed leaves the lease free at any instant, unless the database
  refused the release, with the failures counted in a row.
\<close>

theorem attempt_is_all_or_nothing:
  assumes "tick g reg holder dry_run force source env db = (res, db')"
  shows "(\<forall>t. res = Inr t \<longrightarrow> to_outcome t \<noteq> TICK_RAN \<longrightarrow> sd_tables db' = sd_tables db \<and> sd_watermarks db' = sd_watermarks db)
    \<and> (\<forall>e. res = Inl e \<longrightarrow> db' = db)
    \<and> (\<forall>t. res = Inr t \<longrightarrow> to_outcome t \<in> {TICK_RAN, TICK_FAILED} \<longrightarrow> te_fails env UNIT_RELEASE = None \<longrightarrow>
         (\<exists>l l0. map_of (sd_leases db') (lease_name source) = Some l \<and> (\<forall>now. lease_free now l)
            \<and> le_consecutive_failures l = (if to_outcome t = TICK_FAILED then l0 + 1 else 0)))"
proof -
  have freed: "\<exists>l l0. map_of (sd_leases (release source holder oc m b f env d)) (lease_name source) = Some l \<and> (\<forall>now. lease_free now l)
      \<and> le_consecutive_failures l = (if f then l0 + 1 else 0)"
    if "acquire (lease_name source) holder ttl t0 others (sd_leases db) = ((True, row), sd_leases d)" "te_fails env UNIT_RELEASE = None"
    for ttl t0 others row d oc m b f
    using acquire_wins_holds [OF that(1)] that(2)
    by (auto simp: release_def record_outcome_def held_until_def update_conv' lease_free_def)
  from assms show ?thesis
  proof (cases rule: tick_cases)
    case (failed t ls row db1 e)
    then show ?thesis using freed [of _ _ _ row db1 TICK_FAILED e None True] by simp
  next
    case (ran t ls row report tabs)
    then show ?thesis
      using freed [of _ _ _ row "db\<lparr>sd_leases := ls, sd_tables := tabs, sd_watermarks := advance source (to_start t) (to_end t)
             (Some (ir_batch_id report)) (ir_received report) (case dry_run of None \<Rightarrow> ig_dry_run g | Some b \<Rightarrow> b) (sd_watermarks db)\<rparr>"
            TICK_RAN _ _ False] by simp
  qed simp_all
qed

lemma ingest_dry: "ic_dry_run cl \<Longrightarrow> md_metrics (snd (ingest cl records db)) = md_metrics db"
  by (simp add: ingest_def Let_def split_beta)

lemma pull_dry: "ic_dry_run cl \<Longrightarrow> md_metrics (snd (pull reg name a b cl db)) = md_metrics db"
  using ingest_dry [of "cl\<lparr>ic_source := name\<rparr>"] by (simp add: pull_def split: sum.split)

text \<open>
  A rehearsed attempt moves nothing: with the rehearsal switch on no stored figure and no watermark changes, so the
  next real attempt plans the same window.
\<close>

theorem rehearsed_attempt_moves_nothing:
  assumes "tick g reg holder (Some True) force source env db = (res, db')"
  shows "md_metrics (sd_tables db') = md_metrics (sd_tables db) \<and> sd_watermarks db' = sd_watermarks db
    \<and> plan_for g source today (sd_watermarks db') = plan_for g source today (sd_watermarks db)"
proof -
  have marks: "sd_watermarks db' = sd_watermarks db" by (rule tick_marks [OF assms]) simp
  from assms have "md_metrics (sd_tables db') = md_metrics (sd_tables db)"
  proof (cases rule: tick_cases)
    case (ran t ls row report tabs)
    from ran(8) have "tabs = snd (pull reg source (pl_start (plan_for g source (te_today env) (sd_watermarks db)))
        (pl_end (plan_for g source (te_today env) (sd_watermarks db)))
        \<lparr>ic_source = source, ic_dry_run = True, ic_actor = ''scheduler:'' @ holder, ic_claims = None, ic_client = None,
         ic_today = te_today env, ic_batch_id = te_batch_id env\<rparr> (sd_tables db))"
      by (auto simp: pull_unit_def split: prod.splits sum.splits option.splits dest: arg_cong [where f = sd_tables])
    then show ?thesis using ran(9) by (simp add: pull_dry)
  qed simp_all
  then show ?thesis using marks by simp
qed

text \<open>
  What ends the schedule: an attempt answers whatever the feed does, refuses or breaks, as long as the database
  lets it plan and claim the lease; but if the planning of one feed fails, the error leaves the attempt, the feeds
  queued behind it are not reached, and the resident loop ends.
\<close>

theorem attempt_raises_on_planning_only:
  "(te_fails env UNIT_PLAN = None \<and> te_fails env UNIT_ACQUIRE = None
      \<longrightarrow> (\<exists>t. fst (tick g reg holder dry_run force source env db) = Inr t))
   \<and> (ig_sources g = feed # rest \<and> te_fails (envs feed) UNIT_PLAN = Some e
      \<longrightarrow> run_forever g reg holder (envs # later) db = (Inl e, db))"
proof (intro conjI impI; elim conjE)
  assume fine: "te_fails env UNIT_PLAN = None" "te_fails env UNIT_ACQUIRE = None"
  obtain res db' where run: "tick g reg holder dry_run force source env db = (res, db')" by (rule prod.exhaust)
  then have "\<exists>t. res = Inr t" by (cases rule: tick_cases) (use fine in auto)
  then show "\<exists>t. fst (tick g reg holder dry_run force source env db) = Inr t" using run by simp
next
  assume "ig_sources g = feed # rest" "te_fails (envs feed) UNIT_PLAN = Some e"
  then show "run_forever g reg holder (envs # later) db = (Inl e, db)" by (simp add: tick_def)
qed

subsection \<open>A concrete schedule\<close>

definition three_day_settings :: ingest_settings where
  "three_day_settings = \<lparr>ig_sources = [''feed''], ig_lookback_days = 3, ig_max_catchup_days = 14, ig_dry_run = False,
     ig_lease_ttl_seconds = 1800\<rparr>"

definition quiet_feed :: source_registry where
  "quiet_feed = [(''feed'', \<lparr>so_configured = True, so_fetch = (\<lambda>a b ts. Inr [])\<rparr>)]"

definition empty_schedule :: schedule_db where
  "empty_schedule = \<lparr>sd_tables = shop_db, sd_watermarks = [], sd_leases = []\<rparr>"

definition day_env :: "int \<Rightarrow> tick_env" where
  "day_env d = \<lparr>te_today = d, te_now = d * 86400, te_finished = d * 86400 + 5, te_batch_id = ''b'', te_fails = (\<lambda>u. None), te_others = id\<rparr>"

definition tick_on :: "int \<Rightarrow> schedule_db \<Rightarrow> (py_error, tick_out) res \<times> schedule_db" where
  "tick_on d db = tick three_day_settings quiet_feed ''p1'' None False ''feed'' (day_env d) db"

lemma three_day_valid: "valid_ingest_settings three_day_settings"
  by (simp add: valid_ingest_settings_def three_day_settings_def)

definition pulled_until :: "int \<Rightarrow> watermarks" where
  "pulled_until d = [(''feed'', \<lparr>wm_window_start = 8, wm_window_end = d, wm_batch_id = None, wm_received = 0, wm_dry_run = False\<rparr>)]"

theorem plan_reports_every_gap_witness:
  "pl_gap_days (plan_for three_day_settings ''feed'' 60 (pulled_until 10))
     = int (card ({11..60} - {pl_start (plan_for three_day_settings ''feed'' 60 (pulled_until 10))..60}))"
proof -
  let ?w = "\<lparr>wm_window_start = 8, wm_window_end = 10, wm_batch_id = None, wm_received = 0, wm_dry_run = False\<rparr>"
  have "map_of (pulled_until 10) ''feed'' = Some ?w" by (simp add: pulled_until_def)
  from plan_reports_every_gap [OF three_day_valid this, of 60] show ?thesis by (simp add: Let_def)
qed

lemma tick_on_10: "case tick_on 10 empty_schedule of (Inr t, db) \<Rightarrow> to_outcome t = TICK_RAN \<and> to_start t = 8 \<and> to_end t = 10
    \<and> to_gap_days t = 0 | (Inl e, db) \<Rightarrow> False"
  by code_simp

lemma tick_on_60: "case tick_on 60 (snd (tick_on 10 empty_schedule)) of (Inr t, db) \<Rightarrow> to_outcome t = TICK_RAN \<and> to_start t = 47
    \<and> to_end t = 60 \<and> to_gap_days t = 36 \<and> map_option span_of (map_of (sd_watermarks db) ''feed'') = Some (8, 60) | (Inl e, db) \<Rightarrow> False"
  by code_simp


theorem lease_is_single_flight_witness:
  "fst (fst (acquire ''ingest:feed'' ''p2'' 30 20 id
     (foldl apply_lease_op (snd (acquire ''ingest:feed'' ''p1'' 30 0 id []))
        [Claim ''ingest:feed'' ''p2'' 30 10, Settle ''ingest:feed'' ''p2'' TICK_RAN 12]))) = False"
proof -
  obtain row ls1 where won: "acquire ''ingest:feed'' ''p1'' 30 0 id [] = ((True, row), ls1)"
    by (simp add: acquire_def claim_update_def Let_def)
  have "\<forall>p\<in>set [Claim ''ingest:feed'' ''p2'' 30 10, Settle ''ingest:feed'' ''p2'' TICK_RAN 12].
      leaves_held ''ingest:feed'' ''p1'' (0 + 30) p" by (simp add: leaves_held_def)
  from lease_is_single_flight [OF won this, of 20 "''p2''" 30 id] show ?thesis using won by simp
qed

theorem attempt_is_all_or_nothing_witness:
  "sd_watermarks (snd (tick three_day_settings [] ''p1'' None False ''feed'' (day_env 10) empty_schedule)) = []"
proof -
  obtain res db' where run: "tick three_day_settings [] ''p1'' None False ''feed'' (day_env 10) empty_schedule = (res, db')"
    by (rule prod.exhaust)
  have "case tick three_day_settings [] ''p1'' None False ''feed'' (day_env 10) empty_schedule of (Inr t, db) \<Rightarrow> to_outcome t = TICK_FAILED
      | (Inl e, db) \<Rightarrow> False" by code_simp
  then obtain t where "res = Inr t" "to_outcome t = TICK_FAILED" unfolding run by (auto split: sum.splits)
  then show ?thesis using attempt_is_all_or_nothing [OF run] run by (simp add: empty_schedule_def)
qed

theorem rehearsed_attempt_moves_nothing_witness:
  "sd_watermarks (snd (tick three_day_settings quiet_feed ''p1'' (Some True) False ''feed'' (day_env 10) empty_schedule)) = []"
proof -
  obtain res db' where run: "tick three_day_settings quiet_feed ''p1'' (Some True) False ''feed'' (day_env 10) empty_schedule = (res, db')"
    by (rule prod.exhaust)
  from rehearsed_attempt_moves_nothing [OF run] show ?thesis by (simp add: run) (simp add: empty_schedule_def)
qed

definition broken_env :: "int \<Rightarrow> tick_env" where
  "broken_env d = (day_env d)\<lparr>te_fails := (\<lambda>u. if u = UNIT_PLAN then Some (OtherError ''OperationalError'' []) else None)\<rparr>"

theorem attempt_raises_on_planning_only_witness:
  "run_forever three_day_settings quiet_feed ''p1'' [\<lambda>s. broken_env 10, \<lambda>s. day_env 11] empty_schedule
     = (Inl (OtherError ''OperationalError'' []), empty_schedule)
   \<and> (\<exists>t. fst (tick three_day_settings [] ''p1'' None False ''feed'' (day_env 10) empty_schedule) = Inr t)"
  using attempt_raises_on_planning_only [where g = three_day_settings and feed = "''feed''" and rest = "[]" and envs = "\<lambda>s. broken_env 10"
      and later = "[\<lambda>s. day_env 11]" and reg = quiet_feed and holder = "''p1''" and db = empty_schedule and env = "day_env 10"
      and source = "''feed''" and dry_run = None and force = False and e = "OtherError ''OperationalError'' []"]
    attempt_raises_on_planning_only [where g = three_day_settings and feed = "''feed''" and rest = "[]" and envs = "\<lambda>s. broken_env 10"
      and later = "[]" and reg = "[]" and holder = "''p1''" and db = empty_schedule and env = "day_env 10"
      and source = "''feed''" and dry_run = None and force = False and e = "OtherError ''OperationalError'' []"]
  by (simp add: broken_env_def three_day_settings_def day_env_def)

end
