(* ===== verification/Runs.thy ===== *)
theory Runs
  imports Actions Orchestrator
begin

text \<open>
  Optimization runs as the database keeps them: \<open>repositories/runs.py\<close>, the part of \<open>repositories/alerts.py\<close> a run
  uses, and \<open>services/optimization.py\<close>: starting a run under an idempotency key, the row's way through its
  states, the durable event sink, the finalisation that queues the outputs of the agents, cancellation and the
  reaper of stale runs.

  Each operation is the function of the tables one unit of work computes; where other requests may commit inside an
  operation, what they do is an argument. New ids, readings of the clock and the usage of tools and models
  are arguments. The execution of the agents between the start and the end of a run is the supervisor's.
\<close>

subsection \<open>Rows\<close>

record run_row =
  rr_id :: string
  rr_status :: string
  rr_trigger_type :: string
  rr_requested_by :: "string option"
  rr_campaign_ids :: "string list"
  rr_parameters :: json_dict
  rr_iteration :: int
  rr_max_iterations :: int
  rr_started_at :: "int option"
  rr_finished_at :: "int option"
  rr_error_message :: "string option"
  rr_summary :: json_dict
  rr_prompt_tokens :: int
  rr_completion_tokens :: int
  rr_llm_cost_usd :: pyfloat
  rr_idempotency_key :: "string option"
  rr_created_at :: int

record run_event_row =
  re_event :: agent_event
  re_created_at :: int

record finding_row =
  fw_id :: string
  fw_run_id :: string
  fw_iteration :: int
  fw_kind :: string
  fw_scope :: string
  fw_campaign_id :: string
  fw_creative_id :: "string option"
  fw_kept_action_id :: "string option"
  fw_kept_action_type :: string
  fw_kept_confidence :: real
  fw_reason :: string
  fw_suppressed_action_ids :: "string list"
  fw_suppressed_actions :: "brief list"
  fw_escalate :: bool

record allocation_row =
  bw_id :: string
  bw_run_id :: string
  bw_campaign_id :: string
  bw_current_budget :: real
  bw_recommended_budget :: real
  bw_score :: real
  bw_change_pct :: real
  bw_reason :: string
  bw_solver :: string
  bw_status :: string

record alert_row =
  aw_id :: string
  aw_campaign_id :: string
  aw_run_id :: "string option"
  aw_rule :: string
  aw_severity :: string
  aw_status :: string
  aw_observed :: "real option"
  aw_threshold :: real
  aw_message :: string
  aw_dedup_key :: string
  aw_context :: "(string, pyval) dict"
  aw_detected_at :: datetime
  aw_acknowledged_by :: "string option"
  aw_acknowledged_at :: "int option"
  aw_resolved_at :: "int option"

record draft_creative =
  dw_id :: string
  dw_campaign_id :: string
  dw_headline :: string
  dw_description :: string
  dw_cta_text :: string
  dw_target_emotion :: string
  dw_ab_group :: string
  dw_origin :: string
  dw_status :: string
  dw_generated_by_run_id :: string

record run_db =
  rd_runs :: "(string, run_row) dict"
  rd_events :: "run_event_row list"
  rd_actions :: "(string, action_row) dict"
  rd_findings :: "finding_row list"
  rd_allocations :: "allocation_row list"
  rd_alerts :: "alert_row list"
  rd_creatives :: "draft_creative list"

definition integrity_error :: py_error where
  "integrity_error = OtherError ''IntegrityError'' ''UNIQUE constraint failed''"

definition put_run :: "run_row \<Rightarrow> run_db \<Rightarrow> run_db" where
  "put_run r db = db\<lparr>rd_runs := AList.update (rr_id r) r (rd_runs db)\<rparr>"

definition get_run :: "string \<Rightarrow> run_db \<Rightarrow> (py_error, run_row) res" where
  "get_run rid db =
     (case map_of (rd_runs db) rid of
        None \<Rightarrow> Inl (NotFoundError (''optimization_run '' @ rid @ '' was not found'')) | Some r \<Rightarrow> Inr r)"

definition parse_status :: "string \<Rightarrow> (py_error, run_status) res" where
  "parse_status s = (case run_status_of s of None \<Rightarrow> Inl (ValueError (s @ '' is not a valid RunStatus'')) | Some x \<Rightarrow> Inr x)"

subsection \<open>The life of the row\<close>

definition mark_running :: "string \<Rightarrow> int \<Rightarrow> run_db \<Rightarrow> (py_error, run_db) res" where
  "mark_running rid now db =
     bind_res (get_run rid db) (\<lambda>r. Inr (put_run (r\<lparr>rr_status := ''running'', rr_started_at := Some now\<rparr>) db))"

definition mark_progress :: "string \<Rightarrow> int \<Rightarrow> run_db \<Rightarrow> (py_error, run_db) res" where
  "mark_progress rid iteration db =
     bind_res (get_run rid db) (\<lambda>r. bind_res (parse_status (rr_status r)) (\<lambda>s.
       if is_terminal s then Inr db
       else if iteration \<le> rr_iteration r then Inr db
       else Inr (put_run (r\<lparr>rr_iteration := iteration\<rparr>) db)))"

definition usage_int :: "string \<Rightarrow> json_dict \<Rightarrow> int" where
  "usage_int k d = (case map_of d k of Some (JInt n) \<Rightarrow> n | Some (JFloat (Fin x)) \<Rightarrow> py_trunc x | _ \<Rightarrow> 0)"

definition usage_cost :: "json_dict \<Rightarrow> pyfloat" where
  "usage_cost d = (case map_of d ''cost_usd'' of Some (JFloat x) \<Rightarrow> x | Some (JInt n) \<Rightarrow> Fin (of_int n) | _ \<Rightarrow> Fin 0)"

definition mark_finished :: "string \<Rightarrow> run_status \<Rightarrow> json_dict \<Rightarrow> int \<Rightarrow> json_dict \<Rightarrow> string option \<Rightarrow> int \<Rightarrow> run_db
   \<Rightarrow> (py_error, run_db) res" where
  "mark_finished rid status summary iteration usage error now db =
     bind_res (get_run rid db) (\<lambda>r. bind_res (parse_status (rr_status r)) (\<lambda>stored.
       if is_terminal stored \<and> stored \<noteq> status then Inr db
       else let r1 = r\<lparr>rr_status := run_status_value status, rr_finished_at := Some now, rr_summary := summary,
                      rr_iteration := iteration, rr_error_message := error\<rparr>
            in Inr (put_run (if usage = [] then r1
                             else r1\<lparr>rr_prompt_tokens := usage_int ''prompt_tokens'' usage,
                                     rr_completion_tokens := usage_int ''completion_tokens'' usage,
                                     rr_llm_cost_usd := usage_cost usage\<rparr>) db)))"

definition status_of :: "string \<Rightarrow> run_db \<Rightarrow> (py_error, run_status option) res" where
  "status_of rid db =
     (case map_of (rd_runs db) rid of None \<Rightarrow> Inr None | Some r \<Rightarrow> bind_res (parse_status (rr_status r)) (\<lambda>s. Inr (Some s)))"

text \<open>\<open>_cancellation_check\<close>: the probe between two agents.\<close>

definition run_is_closed :: "string \<Rightarrow> run_db \<Rightarrow> (py_error, bool) res" where
  "run_is_closed rid db = bind_res (status_of rid db) (\<lambda>s. Inr (case s of None \<Rightarrow> True | Some x \<Rightarrow> is_terminal x))"

definition in_flight :: "run_row \<Rightarrow> bool" where
  "in_flight r \<longleftrightarrow> rr_status r \<in> {''pending'', ''running''}"

definition active_count :: "run_db \<Rightarrow> nat" where
  "active_count db = length (filter (in_flight \<circ> snd) (rd_runs db))"

subsection \<open>Starting a run\<close>

definition find_by_idempotency_key :: "string \<Rightarrow> string \<Rightarrow> run_db \<Rightarrow> run_row option" where
  "find_by_idempotency_key key actor db =
     find (\<lambda>r. rr_idempotency_key r = Some key \<and> rr_requested_by r = Some actor) (map snd (rd_runs db))"

text \<open>The insert, under the primary key and the unique index on key and actor, in which NULL differs from NULL.\<close>

definition insert_run :: "run_row \<Rightarrow> run_db \<Rightarrow> (py_error, run_db) res" where
  "insert_run r db =
     (if map_of (rd_runs db) (rr_id r) \<noteq> None
         \<or> (case (rr_idempotency_key r, rr_requested_by r) of
              (Some k, Some a) \<Rightarrow> find_by_idempotency_key k a db \<noteq> None | _ \<Rightarrow> False)
      then Inl integrity_error else Inr (put_run r db))"

record run_limits =
  rl_max_iterations :: int
  rl_optimize_runs_per_hour :: nat
  rl_max_campaigns_per_run :: nat

record start_request =
  sq_max_iterations :: "int option"
  sq_window_days :: int
  sq_trigger_type :: string
  sq_actor_id :: "string option"
  sq_idempotency_key :: "string option"

definition given_text :: "string option \<Rightarrow> string option" where
  "given_text v = (case v of Some s \<Rightarrow> if s = [] then None else Some s | None \<Rightarrow> None)"

definition allowed_iterations :: "run_limits \<Rightarrow> int option \<Rightarrow> int" where
  "allowed_iterations rl wanted =
     (let cap = rl_max_iterations rl;
          n = (case wanted of None \<Rightarrow> cap | Some k \<Rightarrow> if k = 0 then cap else k)
      in min (max 1 n) cap)"

definition pending_run :: "start_request \<Rightarrow> int \<Rightarrow> string list \<Rightarrow> string \<Rightarrow> int \<Rightarrow> run_row" where
  "pending_run rq iterations selected rid now =
     \<lparr>rr_id = rid, rr_status = ''pending'', rr_trigger_type = sq_trigger_type rq, rr_requested_by = sq_actor_id rq,
      rr_campaign_ids = selected,
      rr_parameters = [(''max_iterations'', JInt iterations), (''window_days'', JInt (sq_window_days rq)),
                       (''campaign_count'', JInt (int (length selected)))],
      rr_iteration = 0, rr_max_iterations = iterations, rr_started_at = None, rr_finished_at = None, rr_error_message = None,
      rr_summary = [], rr_prompt_tokens = 0, rr_completion_tokens = 0, rr_llm_cost_usd = Fin 0,
      rr_idempotency_key = sq_idempotency_key rq, rr_created_at = now\<rparr>"

text \<open>
  The answer is the run and whether it was dispatched; \<open>inputs\<close> is what \<open>collect_run_inputs\<close> selects or raises, and
  \<open>others\<close> what other requests commit between the look-up and the insert.
\<close>

definition start_run :: "run_limits \<Rightarrow> start_request \<Rightarrow> (py_error, string list) res \<Rightarrow> string \<Rightarrow> int \<Rightarrow> (run_db \<Rightarrow> run_db) \<Rightarrow> run_db
   \<Rightarrow> (py_error, run_row \<times> bool) res \<times> run_db" where
  "start_run rl rq inputs rid now others db =
     (if given_text (sq_idempotency_key rq) \<noteq> None \<and> given_text (sq_actor_id rq) = None
      then (Inl (ValidationFailure ''An Idempotency-Key requires an actor: the key is scoped to whoever sent it''), db)
      else let existing = (case (given_text (sq_idempotency_key rq), given_text (sq_actor_id rq)) of
                 (Some k, Some a) \<Rightarrow> find_by_idempotency_key k a db | _ \<Rightarrow> None)
           in case existing of
                Some r \<Rightarrow> (Inr (r, False), db)
              | None \<Rightarrow>
                  if rl_optimize_runs_per_hour rl \<le> active_count db
                  then (Inl (RunInProgressError ''Too many optimization runs are in flight; wait for the current ones to finish''), db)
                  else (case inputs of
                          Inl e \<Rightarrow> (Inl e, db)
                        | Inr selected \<Rightarrow>
                            if rl_max_campaigns_per_run rl < length selected
                            then (Inl (ConflictError (''A run may cover at most '' @ show_nat (rl_max_campaigns_per_run rl) @ '' campaigns'')), db)
                            else let r = pending_run rq (allowed_iterations rl (sq_max_iterations rq)) selected rid now;
                                     db1 = others db
                                 in (case insert_run r db1 of
                                       Inr db2 \<Rightarrow> (Inr (r, True), db2)
                                     | Inl e \<Rightarrow>
                                         (case (sq_idempotency_key rq, sq_actor_id rq) of
                                            (Some k, Some a) \<Rightarrow>
                                              (case find_by_idempotency_key k a db1 of
                                                 Some w \<Rightarrow> (Inr (w, False), db1) | None \<Rightarrow> (Inl e, db1))
                                          | _ \<Rightarrow> (Inl e, db1)))))"

subsection \<open>The event sink\<close>

text \<open>\<open>_seen_iterations\<close>; it is written before the database answers.\<close>

type_synonym sink = "(string, int) dict"

definition payload_iteration :: "json_dict \<Rightarrow> int" where
  "payload_iteration d = usage_int ''iteration'' d"

definition mirror_progress :: "agent_event \<Rightarrow> sink \<Rightarrow> run_db \<Rightarrow> (py_error, run_db) res \<times> sink" where
  "mirror_progress e seen db =
     (if terminal_event e then (Inr db, AList.delete (ev_run_id e) seen)
      else if ev_type e \<noteq> ''agent.completed'' then (Inr db, seen)
      else let n = payload_iteration (ev_payload e)
           in if n \<le> (case map_of seen (ev_run_id e) of None \<Rightarrow> 0 | Some k \<Rightarrow> k) then (Inr db, seen)
              else (mark_progress (ev_run_id e) n db, AList.update (ev_run_id e) n seen))"

definition event_stored :: "agent_event \<Rightarrow> run_db \<Rightarrow> bool" where
  "event_stored e db \<longleftrightarrow> (\<exists>x\<in>set (rd_events db). ev_run_id (re_event x) = ev_run_id e \<and> ev_seq (re_event x) = ev_seq e)"

text \<open>\<open>persist\<close>, one unit of work: the event under its unique constraint, and the mirrored round.\<close>

definition persist_event :: "int \<Rightarrow> agent_event \<Rightarrow> sink \<Rightarrow> run_db \<Rightarrow> (py_error, unit) res \<times> sink \<times> run_db" where
  "persist_event now e seen db =
     (case mirror_progress e seen (db\<lparr>rd_events := rd_events db @ [\<lparr>re_event = e, re_created_at = now\<rparr>]\<rparr>) of
        (r, seen1) \<Rightarrow>
          if event_stored e db then (Inl integrity_error, seen1, db)
          else (case r of Inl x \<Rightarrow> (Inl x, seen1, db) | Inr db1 \<Rightarrow> (Inr (), seen1, db1)))"

text \<open>\<open>EventBus.publish\<close> with this sink: a failure to persist is logged and the event goes out all the same.\<close>

definition publish_durable :: "int \<Rightarrow> string \<Rightarrow> string \<Rightarrow> string \<Rightarrow> json_dict \<Rightarrow> event_bus \<times> sink \<times> run_db \<Rightarrow> event_bus \<times> sink \<times> run_db" where
  "publish_durable now rid ty agent payload v =
     (case v of (bus, seen, db) \<Rightarrow>
        (case publish rid ty agent payload bus of
           (e, bus1) \<Rightarrow> (case persist_event now e seen db of (r, seen1, db1) \<Rightarrow> (bus1, seen1, db1))))"

subsection \<open>The outputs of a run\<close>

text \<open>A new id is an argument: \<open>fresh k\<close> for the \<open>k\<close>-th row of a table that needs one.\<close>

definition or_none :: "string \<Rightarrow> string option" where
  "or_none s = (if s = [] then None else Some s)"

definition action_record :: "string \<Rightarrow> string set \<Rightarrow> string \<Rightarrow> proposal \<Rightarrow> action_row" where
  "action_record rid held new_act p =
     \<lparr>oa_id = (if pr_id p = [] then new_act else pr_id p), oa_run_id = Some rid, oa_campaign_id = pr_campaign_id p,
      oa_creative_id = pr_creative_id p, oa_action_type = pr_action_type p,
      oa_status = (if pr_id p \<in> held then ''suppressed'' else pr_status p), oa_before_value = pr_before_value p,
      oa_after_value = pr_after_value p, oa_reason = pr_reason p, oa_confidence = pr_confidence p,
      oa_direction = Some (pr_direction p), oa_proposed_by = pr_proposed_by p, oa_approved_by = None, oa_approved_at = None,
      oa_executed_at = None, oa_external_reference = None, oa_error_message = None\<rparr>"

fun insert_actions :: "action_row list \<Rightarrow> (string, action_row) dict \<Rightarrow> (py_error, (string, action_row) dict) res" where
  "insert_actions [] d = Inr d"
| "insert_actions (a # as) d =
     (if map_of d (oa_id a) \<noteq> None then Inl integrity_error else insert_actions as (d @ [(oa_id a, a)]))"

definition add_actions :: "(nat \<Rightarrow> string) \<Rightarrow> string \<Rightarrow> proposal list \<Rightarrow> string set \<Rightarrow> run_db \<Rightarrow> (py_error, run_db) res" where
  "add_actions fresh rid ps held db =
     bind_res (insert_actions (map (\<lambda>(k, p). action_record rid held (fresh k) p) (enumerate 0 ps)) (rd_actions db))
       (\<lambda>d. Inr (db\<lparr>rd_actions := d\<rparr>))"

definition finding_record :: "string \<Rightarrow> string \<Rightarrow> finding \<Rightarrow> finding_row" where
  "finding_record rid new_cfd f =
     \<lparr>fw_id = new_cfd, fw_run_id = rid, fw_iteration = fd_iteration f, fw_kind = fd_kind f, fw_scope = fd_scope f,
      fw_campaign_id = fd_campaign_id f, fw_creative_id = or_none (fd_creative_id f),
      fw_kept_action_id = or_none (fd_kept_action_id f), fw_kept_action_type = fd_kept_action_type f,
      fw_kept_confidence = fd_kept_confidence f, fw_reason = fd_reason f,
      fw_suppressed_action_ids = suppressed_action_ids f, fw_suppressed_actions = fd_suppressed f,
      fw_escalate = fd_escalate f\<rparr>"

definition add_findings :: "(nat \<Rightarrow> string) \<Rightarrow> string \<Rightarrow> finding list \<Rightarrow> run_db \<Rightarrow> run_db" where
  "add_findings fresh rid fs db =
     db\<lparr>rd_findings := rd_findings db @ map (\<lambda>(k, f). finding_record rid (fresh k) f) (enumerate 0 fs)\<rparr>"

definition allocation_record :: "string \<Rightarrow> string \<Rightarrow> allocation \<Rightarrow> allocation_row" where
  "allocation_record rid new_bud b =
     \<lparr>bw_id = new_bud, bw_run_id = rid, bw_campaign_id = ba_campaign_id b, bw_current_budget = ba_current_budget b,
      bw_recommended_budget = ba_recommended_budget b, bw_score = ba_score b, bw_change_pct = ba_change_pct b,
      bw_reason = ba_reason b, bw_solver = ba_solver b, bw_status = ''proposed''\<rparr>"

definition add_allocations :: "(nat \<Rightarrow> string) \<Rightarrow> string \<Rightarrow> (allocation \<times> int) list \<Rightarrow> run_db \<Rightarrow> run_db" where
  "add_allocations fresh rid bs db =
     db\<lparr>rd_allocations := rd_allocations db @ map (\<lambda>(k, b). allocation_record rid (fresh k) (fst b)) (enumerate 0 bs)\<rparr>"

subsection \<open>The alert table\<close>

definition unresolved :: "alert_row \<Rightarrow> bool" where
  "unresolved a \<longleftrightarrow> aw_status a \<in> {''open'', ''acknowledged''}"

definition matches_open :: "alert \<Rightarrow> alert_row \<Rightarrow> bool" where
  "matches_open a r \<longleftrightarrow> aw_dedup_key r = al_dedup_key a \<and> unresolved r"

definition refresh_alert :: "alert \<Rightarrow> string option \<Rightarrow> alert_row \<Rightarrow> alert_row" where
  "refresh_alert a rid r =
     r\<lparr>aw_observed := al_observed a, aw_threshold := al_threshold a, aw_severity := alert_severity_value (al_severity a),
       aw_message := al_message a, aw_context := al_context a, aw_detected_at := al_detected_at a,
       aw_run_id := (case given_text rid of Some i \<Rightarrow> Some i | None \<Rightarrow> aw_run_id r)\<rparr>"

definition open_alert :: "string \<Rightarrow> alert \<Rightarrow> string option \<Rightarrow> alert_row" where
  "open_alert new_alr a rid =
     \<lparr>aw_id = new_alr, aw_campaign_id = al_campaign_id a, aw_run_id = rid, aw_rule = alert_rule_value (al_rule a),
      aw_severity = alert_severity_value (al_severity a), aw_status = ''open'', aw_observed = al_observed a,
      aw_threshold = al_threshold a, aw_message = al_message a, aw_dedup_key = al_dedup_key a, aw_context = al_context a,
      aw_detected_at = al_detected_at a, aw_acknowledged_by = None, aw_acknowledged_at = None, aw_resolved_at = None\<rparr>"

text \<open>\<open>upsert_from_detection\<close>: the first unresolved row with the fingerprint, else a new one.\<close>

fun update_first :: "('a \<Rightarrow> bool) \<Rightarrow> ('a \<Rightarrow> 'a) \<Rightarrow> 'a list \<Rightarrow> 'a list" where
  "update_first P f [] = []"
| "update_first P f (x # xs) = (if P x then f x # xs else x # update_first P f xs)"

definition upsert_alert :: "string \<Rightarrow> alert \<Rightarrow> string option \<Rightarrow> alert_row list \<Rightarrow> alert_row list \<times> bool" where
  "upsert_alert new_alr a rid rows =
     (if list_ex (matches_open a) rows then (update_first (matches_open a) (refresh_alert a rid) rows, False)
      else (rows @ [open_alert new_alr a rid], True))"

fun record_many :: "(nat \<Rightarrow> string) \<Rightarrow> string option \<Rightarrow> alert list \<Rightarrow> nat \<Rightarrow> alert_row list \<Rightarrow> alert_row list \<times> nat" where
  "record_many fresh rid [] created rows = (rows, created)"
| "record_many fresh rid (a # as) created rows =
     (case upsert_alert (fresh created) a rid rows of
        (rows1, is_new) \<Rightarrow> record_many fresh rid as (created + (if is_new then 1 else 0)) rows1)"

definition find_alert :: "string \<Rightarrow> alert_row list \<Rightarrow> (py_error, alert_row) res" where
  "find_alert aid rows =
     (case find (\<lambda>r. aw_id r = aid) rows of
        None \<Rightarrow> Inl (NotFoundError (''alert '' @ aid @ '' was not found'')) | Some r \<Rightarrow> Inr r)"

definition acknowledge_alert :: "string \<Rightarrow> string \<Rightarrow> int \<Rightarrow> alert_row list \<Rightarrow> (py_error, alert_row list) res" where
  "acknowledge_alert aid actor now rows =
     bind_res (find_alert aid rows) (\<lambda>r. Inr (update_first (\<lambda>x. aw_id x = aid)
       (\<lambda>x. x\<lparr>aw_status := ''acknowledged'', aw_acknowledged_by := Some actor, aw_acknowledged_at := Some now\<rparr>) rows))"

definition close_alert :: "int \<Rightarrow> alert_row \<Rightarrow> alert_row" where
  "close_alert now x = x\<lparr>aw_status := ''resolved'', aw_resolved_at := Some now\<rparr>"

definition resolve_alert :: "string \<Rightarrow> string option \<Rightarrow> int \<Rightarrow> alert_row list \<Rightarrow> (py_error, alert_row list) res" where
  "resolve_alert aid actor now rows =
     bind_res (find_alert aid rows) (\<lambda>r. Inr (update_first (\<lambda>x. aw_id x = aid)
       (\<lambda>x. let y = close_alert now x
            in if given_text actor \<noteq> None \<and> aw_acknowledged_by x = None
               then y\<lparr>aw_acknowledged_by := given_text actor, aw_acknowledged_at := Some now\<rparr> else y) rows))"

definition resolve_for_campaign :: "string \<Rightarrow> string option \<Rightarrow> int \<Rightarrow> alert_row list \<Rightarrow> alert_row list \<times> nat" where
  "resolve_for_campaign cid rule now rows =
     (let hit = (\<lambda>x. aw_campaign_id x = cid \<and> aw_status x \<noteq> ''resolved''
                     \<and> (case given_text rule of None \<Rightarrow> True | Some k \<Rightarrow> aw_rule x = k))
      in (map (\<lambda>x. if hit x then close_alert now x else x) rows, length (filter hit rows)))"

definition counts_by_severity :: "alert_row list \<Rightarrow> (string, nat) dict" where
  "counts_by_severity rows = count_by aw_severity (filter (\<lambda>x. aw_status x \<noteq> ''resolved'') rows)"

definition counts_by_status :: "alert_row list \<Rightarrow> (string, nat) dict" where
  "counts_by_status rows = count_by aw_status rows"

text \<open>\<open>_persist_alerts\<close>: an alert of the state whose rule or severity is unknown is skipped.\<close>

definition rebuild_alert :: "datetime \<Rightarrow> alert_dict \<Rightarrow> alert option" where
  "rebuild_alert now d =
     (case (alert_rule_of (ad_rule d), alert_severity_of (ad_severity d)) of
        (Some rule, Some severity) \<Rightarrow>
          Some \<lparr>al_campaign_id = ad_campaign_id d, al_rule = rule, al_severity = severity, al_observed = ad_observed d,
                al_threshold = ad_threshold d, al_message = ad_message d, al_dedup_key = ad_dedup_key d,
                al_context = ad_context d, al_detected_at = now, al_urgency = 0\<rparr>
      | _ \<Rightarrow> None)"

definition persist_alerts :: "datetime \<Rightarrow> (nat \<Rightarrow> string) \<Rightarrow> string \<Rightarrow> agent_state \<Rightarrow> run_db \<Rightarrow> run_db" where
  "persist_alerts now fresh rid s db =
     db\<lparr>rd_alerts := fst (record_many fresh (Some rid)
        (deduplicate (List.map_filter (rebuild_alert now) (st_alerts s))) 0 (rd_alerts db))\<rparr>"

definition draft_record :: "string \<Rightarrow> string \<Rightarrow> generated_creative \<Rightarrow> draft_creative" where
  "draft_record rid new_cre g =
     \<lparr>dw_id = new_cre, dw_campaign_id = gc_campaign_id g, dw_headline = take 300 (cv_headline (gc_variant g)),
      dw_description = take 2000 (cv_description (gc_variant g)), dw_cta_text = take 60 (cv_cta_text (gc_variant g)),
      dw_target_emotion = take 40 (cv_target_emotion (gc_variant g)), dw_ab_group = take 40 (cv_ab_group (gc_variant g)),
      dw_origin = cv_source (gc_variant g), dw_status = ''draft'', dw_generated_by_run_id = rid\<rparr>"

definition persist_generated_creatives :: "(nat \<Rightarrow> string) \<Rightarrow> string \<Rightarrow> agent_state \<Rightarrow> run_db \<Rightarrow> run_db" where
  "persist_generated_creatives fresh rid s db =
     db\<lparr>rd_creatives := rd_creatives db
        @ map (\<lambda>(k, g). draft_record rid (fresh k) g)
            (enumerate 0 (filter (\<lambda>g. gc_campaign_id g \<noteq> []) (st_new_creatives s)))\<rparr>"

subsection \<open>The end of a run\<close>

record fresh_ids =
  fi_act :: "nat \<Rightarrow> string"
  fi_cfd :: "nat \<Rightarrow> string"
  fi_bud :: "nat \<Rightarrow> string"
  fi_alr :: "nat \<Rightarrow> string"
  fi_cre :: "nat \<Rightarrow> string"

definition persist_outputs :: "fresh_ids \<Rightarrow> datetime \<Rightarrow> string \<Rightarrow> agent_state \<Rightarrow> run_db \<Rightarrow> (py_error, run_db) res" where
  "persist_outputs fi now rid s db =
     bind_res (add_actions (fi_act fi) rid (st_optimization_actions s) (suppressed_ids s) db) (\<lambda>db1.
       Inr (persist_generated_creatives (fi_cre fi) rid s
             (persist_alerts now (fi_alr fi) rid s
               (add_allocations (fi_bud fi) rid (st_budget_allocations s)
                 (add_findings (fi_cfd fi) rid (st_critic_findings s) db1)))))"

text \<open>\<open>tools\<close> is what the executor reports for the run, \<open>gateway\<close> what the model gateway does.\<close>

definition final_usage :: "agent_state \<Rightarrow> json_dict \<Rightarrow> json_dict" where
  "final_usage s gateway = dict_update (st_usage s) gateway"

definition final_summary :: "agent_state \<Rightarrow> run_status \<Rightarrow> json_dict \<Rightarrow> json_dict \<Rightarrow> json_dict" where
  "final_summary s status tools gateway =
     dict_update (summary_json (summarise_state s status))
       [(''tools'', JDict tools), (''usage'', JDict (final_usage s gateway))]"

text \<open>The unit of work of \<open>_finalise\<close>; a failure rolls all of it back.\<close>

definition settle_run :: "fresh_ids \<Rightarrow> int \<Rightarrow> json_dict \<Rightarrow> json_dict \<Rightarrow> string \<Rightarrow> agent_state \<Rightarrow> run_status \<Rightarrow> string option \<Rightarrow> run_db
   \<Rightarrow> (py_error, run_db) res" where
  "settle_run fi now tools gateway rid s status error db =
     bind_res (if status = RUN_SUCCEEDED then persist_outputs fi (Aware now) rid s db else Inr db) (\<lambda>db1.
       mark_finished rid status (final_summary s status tools gateway) (st_iteration s) (final_usage s gateway) error now db1)"

definition finalise :: "fresh_ids \<Rightarrow> int \<Rightarrow> json_dict \<Rightarrow> json_dict \<Rightarrow> string \<Rightarrow> agent_state \<Rightarrow> run_status \<Rightarrow> string option
   \<Rightarrow> event_bus \<times> run_db \<Rightarrow> (py_error, json_dict) res \<times> event_bus \<times> run_db" where
  "finalise fi now tools gateway rid s status error v =
     (case settle_run fi now tools gateway rid s status error (snd v) of
        Inl e \<Rightarrow> (Inl e, v)
      | Inr db1 \<Rightarrow>
          (case close_run rid (fst v) of
             (Inl e, bus1) \<Rightarrow> (Inl e, bus1, db1)
           | (Inr _, bus1) \<Rightarrow> (Inr (final_summary s status tools gateway), bus1, db1)))"

text \<open>
  \<open>execute_run\<close>: \<open>outcome\<close> is what the supervisor returns or raises, \<open>meanwhile\<close> what the event sink and other
  requests commit while it works. A run that raises leaves the initial state behind.
\<close>

definition execute_run :: "fresh_ids \<Rightarrow> int \<Rightarrow> int \<Rightarrow> json_dict \<Rightarrow> json_dict \<Rightarrow> string \<Rightarrow> string list \<Rightarrow> int \<Rightarrow> int
   \<Rightarrow> (run_exception, agent_state) res \<Rightarrow> (event_bus \<times> run_db \<Rightarrow> event_bus \<times> run_db) \<Rightarrow> event_bus \<times> run_db
   \<Rightarrow> (py_error, json_dict) res \<times> event_bus \<times> run_db" where
  "execute_run fi started now tools gateway rid cids max_iterations window outcome meanwhile v =
     (case mark_running rid started (snd v) of
        Inl e \<Rightarrow> (Inl e, v)
      | Inr db1 \<Rightarrow>
          let v1 = meanwhile (fst v, db1); s0 = initial_state rid cids max_iterations window
          in (case outcome of
                Inr s \<Rightarrow> finalise fi now tools gateway rid s RUN_SUCCEEDED None v1
              | Inl (RunCancelled c) \<Rightarrow>
                  finalise fi now tools gateway rid s0 RUN_CANCELLED (Some ''Cancelled by operator'') v1
              | Inl (Raised e) \<Rightarrow>
                  finalise fi now tools gateway rid s0 RUN_FAILED (Some (take 2000 (error_message e))) v1))"

subsection \<open>Cancellation and the reaper\<close>

text \<open>A request whose \<open>close_run\<close> raises is rolled back; the bus keeps what it did.\<close>

definition cancel_run :: "string \<Rightarrow> string option \<Rightarrow> int \<Rightarrow> event_bus \<times> run_db \<Rightarrow> (py_error, run_row) res \<times> event_bus \<times> run_db" where
  "cancel_run rid actor now v =
     (case bind_res (get_run rid (snd v)) (\<lambda>r. bind_res (parse_status (rr_status r)) (\<lambda>st. Inr (r, st))) of
        Inl e \<Rightarrow> (Inl e, v)
      | Inr (r, st) \<Rightarrow>
          if is_terminal st
          then (Inl (ConflictError (''This run has already finished with status '' @ rr_status r)), v)
          else let r1 = r\<lparr>rr_status := ''cancelled'', rr_finished_at := Some now,
                          rr_error_message := Some (''Cancelled by '' @ (case given_text actor of None \<Rightarrow> ''operator'' | Some a \<Rightarrow> a))\<rparr>
               in (case close_run rid (fst v) of
                     (Inl e, bus1) \<Rightarrow> (Inl e, bus1, snd v)
                   | (Inr _, bus1) \<Rightarrow> (Inr r1, bus1, put_run r1 (snd v))))"

definition REAPER_STALE_AFTER :: int where "REAPER_STALE_AFTER = 30 * 60 * 1000000"

definition last_event :: "string \<Rightarrow> run_db \<Rightarrow> int option" where
  "last_event rid db =
     (case map re_created_at (filter (\<lambda>x. ev_run_id (re_event x) = rid) (rd_events db)) of
        [] \<Rightarrow> None | t # ts \<Rightarrow> Some (fold max ts t))"

definition progress_of :: "run_db \<Rightarrow> run_row \<Rightarrow> int" where
  "progress_of db r =
     (case last_event (rr_id r) db of
        Some t \<Rightarrow> t | None \<Rightarrow> (case rr_started_at r of Some t \<Rightarrow> t | None \<Rightarrow> rr_created_at r))"

definition stale_run :: "int \<Rightarrow> run_db \<Rightarrow> run_row \<Rightarrow> bool" where
  "stale_run now db r \<longleftrightarrow> in_flight r \<and> progress_of db r < now - REAPER_STALE_AFTER"

definition fail_run :: "int \<Rightarrow> run_row \<Rightarrow> run_row" where
  "fail_run now r = r\<lparr>rr_status := ''failed'', rr_finished_at := Some now,
     rr_error_message := Some ''Reaped: no progress recorded within the stale-run window''\<rparr>"

fun close_runs :: "string list \<Rightarrow> event_bus \<Rightarrow> (py_error, unit) res \<times> event_bus" where
  "close_runs [] bus = (Inr (), bus)"
| "close_runs (rid # rids) bus =
     (case close_run rid bus of (Inl e, bus1) \<Rightarrow> (Inl e, bus1) | (Inr _, bus1) \<Rightarrow> close_runs rids bus1)"

definition reap_stale_runs :: "int \<Rightarrow> event_bus \<times> run_db \<Rightarrow> (py_error, nat) res \<times> event_bus \<times> run_db" where
  "reap_stale_runs now v =
     (let db = snd v;
          stale = filter (stale_run now db) (map snd (rd_runs db))
      in (case close_runs (map rr_id stale) (fst v) of
            (Inl e, bus1) \<Rightarrow> (Inl e, bus1, db)
          | (Inr _, bus1) \<Rightarrow>
              (Inr (length stale), bus1,
               db\<lparr>rd_runs := map (\<lambda>(k, r). (k, if stale_run now db r then fail_run now r else r)) (rd_runs db)\<rparr>)))"

end
