(* ===== verification/RunFlow.thy ===== *)
theory RunFlow
  imports Runs
begin

text \<open>
  What the life of an optimization run guarantees: one execution per idempotency key, terminal states that stay
  (and the one write that does not respect them), the queue a finished run leaves, one unresolved alert per
  fingerprint, the reaper, and the fate of the durable event log after a cancellation.
\<close>

subsection \<open>Rows by id\<close>

text \<open>Every row is stored under its own id.\<close>

definition keyed_runs :: "run_db \<Rightarrow> bool" where
  "keyed_runs db \<longleftrightarrow> (\<forall>(k, r)\<in>set (rd_runs db). rr_id r = k)"

lemma keyed_runsD: "keyed_runs db \<Longrightarrow> map_of (rd_runs db) rid = Some r \<Longrightarrow> rr_id r = rid"
  by (auto simp: keyed_runs_def dest!: map_of_SomeD)

lemma map_of_put_run [simp]:
  "map_of (rd_runs (put_run r db)) k = (if k = rr_id r then Some r else map_of (rd_runs db) k)"
  by (simp add: put_run_def update_conv')

lemma put_run_other [simp]:
  "rd_events (put_run r db) = rd_events db" "rd_actions (put_run r db) = rd_actions db"
  "rd_alerts (put_run r db) = rd_alerts db" "rd_findings (put_run r db) = rd_findings db"
  "rd_allocations (put_run r db) = rd_allocations db" "rd_creatives (put_run r db) = rd_creatives db"
  by (simp_all add: put_run_def)

lemma update_absent: "map_of d k = None \<Longrightarrow> AList.update k v d = d @ [(k, v)]"
  by (induction d) (auto split: if_splits)

lemma keyed_runs_put [intro]: "keyed_runs db \<Longrightarrow> keyed_runs (put_run r db)"
  by (fastforce simp: keyed_runs_def put_run_def dest!: set_update)

lemma get_run_Inr [simp]: "get_run rid db = Inr r \<longleftrightarrow> map_of (rd_runs db) rid = Some r"
  by (auto simp: get_run_def split: option.splits)

lemma get_run_at [simp]: "map_of (rd_runs db) rid = Some r \<Longrightarrow> get_run rid db = Inr r"
  by simp

definition run_status_at :: "string \<Rightarrow> run_db \<Rightarrow> string option" where
  "run_status_at rid db = map_option rr_status (map_of (rd_runs db) rid)"

subsection \<open>One execution per key\<close>

lemma find_append: "find P (xs @ ys) = (case find P xs of Some x \<Rightarrow> Some x | None \<Rightarrow> find P ys)"
  by (induction xs) simp_all

lemma insert_run_Inr:
  assumes "insert_run r db = Inr db1" and "rr_idempotency_key r = Some k" and "rr_requested_by r = Some a"
  shows "find_by_idempotency_key k a db = None" and "find_by_idempotency_key k a db1 = Some r"
    and "map_of (rd_runs db) (rr_id r) = None"
proof -
  show none: "find_by_idempotency_key k a db = None" and new: "map_of (rd_runs db) (rr_id r) = None"
    using assms by (auto simp: insert_run_def split: if_splits)
  have "rd_runs db1 = rd_runs db @ [(rr_id r, r)]"
    using assms new by (auto simp: insert_run_def put_run_def update_absent split: if_splits)
  then show "find_by_idempotency_key k a db1 = Some r"
    using none assms(2,3) by (simp add: find_by_idempotency_key_def find_append)
qed

lemma pending_run_fields [simp]:
  "rr_id (pending_run rq n sel rid now) = rid" "rr_status (pending_run rq n sel rid now) = ''pending''"
  "rr_idempotency_key (pending_run rq n sel rid now) = sq_idempotency_key rq"
  "rr_requested_by (pending_run rq n sel rid now) = sq_actor_id rq"
  by (simp_all add: pending_run_def)

definition keyed_request :: "string \<Rightarrow> string \<Rightarrow> start_request \<Rightarrow> bool" where
  "keyed_request k a rq \<longleftrightarrow> sq_idempotency_key rq = Some k \<and> sq_actor_id rq = Some a \<and> k \<noteq> [] \<and> a \<noteq> []"

lemma start_run_replay:
  "keyed_request k a rq \<Longrightarrow> find_by_idempotency_key k a db = Some r \<Longrightarrow>
   start_run rl rq inputs rid now others db = (Inr (r, False), db)"
  by (simp add: start_run_def keyed_request_def given_text_def)

lemma start_run_keyed:
  assumes "keyed_request k a rq" and "start_run rl rq inputs rid now others db = (Inr (r, d), db1)"
  shows "find_by_idempotency_key k a db1 = Some r" and "d \<Longrightarrow> find_by_idempotency_key k a db = None"
proof -
  note key = assms(1) [unfolded keyed_request_def]
  have "find_by_idempotency_key k a db1 = Some r \<and> (d \<longrightarrow> find_by_idempotency_key k a db = None)"
  proof (cases "find_by_idempotency_key k a db")
    case (Some w)
    then show ?thesis using start_run_replay [OF assms(1) Some] assms(2) by simp
  next
    case None
    obtain sel where sel: "inputs = Inr sel"
      using assms(2) None key by (cases inputs) (simp_all add: start_run_def given_text_def Let_def split: if_splits)
    let ?r = "pending_run rq (allowed_iterations rl (sq_max_iterations rq)) sel rid now"
    show ?thesis
    proof (cases "insert_run ?r (others db)")
      case (Inr db2)
      then have "r = ?r" "db1 = db2"
        using assms(2) None key sel by (simp_all add: start_run_def given_text_def Let_def split: if_splits)
      then show ?thesis using insert_run_Inr(2) [OF Inr] key None by simp
    next
      case (Inl e)
      then show ?thesis
        using assms(2) None key sel by (auto simp: start_run_def given_text_def Let_def split: if_splits option.splits)
    qed
  qed
  then show "find_by_idempotency_key k a db1 = Some r" and "d \<Longrightarrow> find_by_idempotency_key k a db = None"
    by simp_all
qed

lemma start_run_error_db:
  assumes "start_run rl rq inputs rid now others db = (Inl e, db1)"
  shows "db1 = db \<or> db1 = others db"
  using assms by (auto simp: start_run_def Let_def split: if_splits option.splits sum.splits)

text \<open>Requests served one after the other, each with what other requests commit before and inside it.\<close>

record served =
  sd_limits :: run_limits
  sd_request :: start_request
  sd_inputs :: "(py_error, string list) res"
  sd_id :: string
  sd_now :: int
  sd_before :: "run_db \<Rightarrow> run_db"
  sd_others :: "run_db \<Rightarrow> run_db"

fun serve :: "served list \<Rightarrow> run_db \<Rightarrow> (py_error, run_row \<times> bool) res list" where
  "serve [] db = []"
| "serve (x # xs) db =
     (case start_run (sd_limits x) (sd_request x) (sd_inputs x) (sd_id x) (sd_now x) (sd_others x) (sd_before x db) of
        (a, db1) \<Rightarrow> a # serve xs db1)"

definition dispatched :: "(py_error, run_row \<times> bool) res \<Rightarrow> bool" where
  "dispatched a = (case a of Inr (r, d) \<Rightarrow> d | Inl e \<Rightarrow> False)"

lemma dispatched_simps [simp]: "\<not> dispatched (Inl e)" "dispatched (Inr (r, d)) \<longleftrightarrow> d"
  by (simp_all add: dispatched_def)

lemma length_serve [simp]: "length (serve xs db) = length xs"
  by (induction xs arbitrary: db) (simp_all add: split_beta)

definition keeps_runs :: "(run_db \<Rightarrow> run_db) \<Rightarrow> bool" where
  "keeps_runs f \<longleftrightarrow> (\<forall>db k a r. find_by_idempotency_key k a db = Some r \<longrightarrow>
     (\<exists>r'. find_by_idempotency_key k a (f db) = Some r' \<and> rr_id r' = rr_id r))"

lemma serve_replays:
  assumes "\<forall>x\<in>set xs. keyed_request k a (sd_request x) \<and> keeps_runs (sd_before x)"
    and "find_by_idempotency_key k a db = Some r"
  shows "\<forall>y\<in>set (serve xs db). \<exists>r'. y = Inr (r', False) \<and> rr_id r' = rr_id r"
  using assms
proof (induction xs arbitrary: db r)
  case (Cons x xs)
  obtain r' where r': "find_by_idempotency_key k a (sd_before x db) = Some r'" "rr_id r' = rr_id r"
    using Cons.prems by (fastforce simp: keeps_runs_def)
  have "keyed_request k a (sd_request x)" using Cons.prems by simp
  from start_run_replay [OF this r'(1)] show ?case
    using Cons.IH [OF _ r'(1)] Cons.prems r'(2) by simp
qed simp


subsection \<open>Terminal states\<close>

definition finished_at :: "string \<Rightarrow> string \<Rightarrow> run_db \<Rightarrow> bool" where
  "finished_at rid st db \<longleftrightarrow> keyed_runs db \<and> run_status_at rid db = Some st
     \<and> st \<in> {''succeeded'', ''failed'', ''cancelled''}"

lemma finished_atD:
  assumes "finished_at rid st db" and "map_of (rd_runs db) rid = Some r"
  shows "rr_status r = st" "\<exists>x. parse_status (rr_status r) = Inr x \<and> is_terminal x \<and> run_status_value x = st"
proof -
  show st: "rr_status r = st" using assms by (simp add: finished_at_def run_status_at_def)
  show "\<exists>x. parse_status (rr_status r) = Inr x \<and> is_terminal x \<and> run_status_value x = st"
    using assms(1) unfolding st finished_at_def
    using run_status_of_value [of RUN_SUCCEEDED] run_status_of_value [of RUN_FAILED] run_status_of_value [of RUN_CANCELLED]
    by (auto simp: parse_status_def)
qed

lemma finished_at_put:
  assumes "finished_at rid st db" and "rr_id r = rid \<Longrightarrow> rr_status r = st"
  shows "finished_at rid st (put_run r db)"
  using assms by (auto simp: finished_at_def run_status_at_def)

lemma mark_progress_finished:
  assumes "finished_at rid st db" and "mark_progress i n db = Inr db1"
  shows "finished_at rid st db1"
proof -
  obtain r where r: "map_of (rd_runs db) i = Some r"
    using assms(2) by (auto simp: mark_progress_def bind_res_Inr_iff)
  then have "rr_id r = i" using assms(1) keyed_runsD by (auto simp: finished_at_def)
  then show ?thesis
    using assms r finished_atD [OF assms(1)]
    by (auto simp: mark_progress_def bind_res_Inr_iff intro!: finished_at_put split: if_splits)
qed

lemma mark_finished_finished:
  assumes "finished_at rid st db" and "mark_finished i status sm n us err now db = Inr db1"
  shows "finished_at rid st db1"
proof -
  obtain r stored where r: "map_of (rd_runs db) i = Some r" and stored: "parse_status (rr_status r) = Inr stored"
    using assms(2) by (auto simp: mark_finished_def bind_res_Inr_iff)
  have get: "get_run i db = Inr r" using r by simp
  have id: "rr_id r = i" using assms(1) r keyed_runsD by (auto simp: finished_at_def)
  show ?thesis
  proof (cases "is_terminal stored \<and> stored \<noteq> status")
    case True
    then show ?thesis using assms get stored by (simp add: mark_finished_def)
  next
    case False
    then have "i = rid \<Longrightarrow> run_status_value status = st"
      using finished_atD(2) [OF assms(1)] r stored by auto
    then show ?thesis
      using assms get stored id False by (auto simp: mark_finished_def Let_def intro!: finished_at_put)
  qed
qed

lemma finished_at_runs: "rd_runs db1 = rd_runs db \<Longrightarrow> finished_at rid st db1 \<longleftrightarrow> finished_at rid st db"
  by (simp add: finished_at_def run_status_at_def keyed_runs_def)

lemma add_outputs_runs [simp]:
  "rd_runs (add_findings g rid fs db) = rd_runs db" "rd_runs (add_allocations g rid bs db) = rd_runs db"
  "rd_runs (persist_alerts t g rid s db) = rd_runs db" "rd_runs (persist_generated_creatives g rid s db) = rd_runs db"
  by (simp_all add: add_findings_def add_allocations_def persist_alerts_def persist_generated_creatives_def)

lemma add_actions_runs: "add_actions g rid ps held db = Inr db1 \<Longrightarrow> rd_runs db1 = rd_runs db"
  by (auto simp: add_actions_def bind_res_Inr_iff)

lemma persist_outputs_runs: "persist_outputs fi t rid s db = Inr db1 \<Longrightarrow> rd_runs db1 = rd_runs db"
  by (auto simp: persist_outputs_def bind_res_Inr_iff dest: add_actions_runs)

lemma settle_run_finished:
  assumes "finished_at rid st db" and "settle_run fi now tools gw i s status err db = Inr db1"
  shows "finished_at rid st db1"
proof -
  define r0 where "r0 = (if status = RUN_SUCCEEDED then persist_outputs fi (Aware now) i s db else Inr db)"
  obtain db0 where r0: "r0 = Inr db0"
    and m: "mark_finished i status (final_summary s status tools gw) (st_iteration s) (final_usage s gw) err now db0 = Inr db1"
    using assms(2) unfolding settle_run_def r0_def [symmetric] bind_res_Inr_iff by blast
  have "rd_runs db0 = rd_runs db"
    using r0 by (auto simp: r0_def dest: persist_outputs_runs split: if_splits)
  then have "finished_at rid st db0" using assms(1) by (rule finished_at_runs [THEN iffD2])
  then show ?thesis using mark_finished_finished [OF _ m] by simp
qed

lemma finalise_finished:
  "finished_at rid st (snd v) \<Longrightarrow> finalise fi now tools gw i s status err v = (a, w) \<Longrightarrow> finished_at rid st (snd w)"
  using settle_run_finished by (fastforce simp: finalise_def split: sum.splits prod.splits)

lemma start_run_finished:
  assumes "finished_at rid st db" and "start_run rl rq inputs i now (\<lambda>x. x) db = (a, db1)"
  shows "finished_at rid st db1"
proof -
  have ins: "finished_at rid st db2" if "insert_run r db = Inr db2" for r db2
  proof -
    have "map_of (rd_runs db) (rr_id r) = None" "db2 = put_run r db" using that by (auto simp: insert_run_def split: if_splits)
    then show ?thesis using assms(1) by (auto simp: finished_at_def run_status_at_def intro!: finished_at_put)
  qed
  show ?thesis
    using assms ins by (auto simp: start_run_def Let_def split: if_splits option.splits sum.splits)
qed

lemma mirror_progress_finished:
  "finished_at rid st db \<Longrightarrow> mirror_progress e seen db = (Inr db1, seen1) \<Longrightarrow> finished_at rid st db1"
  using mark_progress_finished by (auto simp: mirror_progress_def Let_def split: if_splits option.splits)

lemma persist_event_finished:
  assumes "finished_at rid st db" and "persist_event now e seen db = (a, seen1, db1)"
  shows "finished_at rid st db1"
proof -
  let ?db = "db\<lparr>rd_events := rd_events db @ [\<lparr>re_event = e, re_created_at = now\<rparr>]\<rparr>"
  obtain r s where m: "mirror_progress e seen ?db = (r, s)" by (rule prod.exhaust)
  have "finished_at rid st ?db" using assms(1) finished_at_runs [of ?db db] by simp
  then show ?thesis
    using assms m mirror_progress_finished by (cases r) (auto simp: persist_event_def split: if_splits)
qed

lemma publish_durable_finished:
  assumes "finished_at rid st (snd (snd v))"
  shows "finished_at rid st (snd (snd (publish_durable now i ty agent payload v)))"
proof -
  obtain bus seen db where v: "v = (bus, seen, db)" by (rule prod_cases3)
  obtain e bus1 where "publish i ty agent payload bus = (e, bus1)" by (rule prod.exhaust)
  moreover obtain a seen1 db1 where p: "persist_event now e seen db = (a, seen1, db1)" by (rule prod_cases3)
  ultimately show ?thesis using persist_event_finished [OF _ p] assms v by (simp add: publish_durable_def)
qed

lemma cancel_run_finished:
  assumes "finished_at rid st (snd v)" and "cancel_run i actor now v = (a, w)"
  shows "finished_at rid st (snd w)"
proof (cases "map_of (rd_runs (snd v)) i")
  case None
  then have "\<exists>e. get_run i (snd v) = Inl e" by (simp add: get_run_def)
  then show ?thesis using assms by (auto simp: cancel_run_def)
next
  case (Some r)
  then have get: "get_run i (snd v) = Inr r" and id: "rr_id r = i"
    using assms(1) keyed_runsD by (auto simp: finished_at_def)
  show ?thesis
  proof (cases "parse_status (rr_status r)")
    case (Inl e)
    then show ?thesis using assms get by (simp add: cancel_run_def)
  next
    case (Inr x)
    then have other: "i \<noteq> rid \<or> is_terminal x" using finished_atD(2) [OF assms(1)] Some by auto
    obtain c bus1 where "close_run i (fst v) = (c, bus1)" by (rule prod.exhaust)
    then show ?thesis
      using assms get Inr id other
      by (cases c) (auto simp: cancel_run_def Let_def intro!: finished_at_put split: if_splits)
  qed
qed

lemma reap_finished:
  assumes "finished_at rid st (snd v)" and "reap_stale_runs now v = (a, w)"
  shows "finished_at rid st (snd w)"
proof -
  let ?f = "\<lambda>r. if stale_run now (snd v) r then fail_run now r else r"
  have key: "keyed_runs ((snd v)\<lparr>rd_runs := map (\<lambda>(k, r). (k, ?f r)) (rd_runs (snd v))\<rparr>)"
    using assms(1) by (auto simp: finished_at_def keyed_runs_def fail_run_def)
  obtain r where r: "map_of (rd_runs (snd v)) rid = Some r" "rr_status r = st"
    using assms(1) by (auto simp: finished_at_def run_status_at_def)
  have "\<not> in_flight r" using assms(1) r by (auto simp: finished_at_def in_flight_def)
  then have "?f r = r" by (simp add: stale_run_def)
  moreover have "map_of (map (\<lambda>(k, r). (k, ?f r)) (rd_runs (snd v))) rid = Some (?f r)"
    using r by (simp add: map_of_map)
  ultimately have "finished_at rid st ((snd v)\<lparr>rd_runs := map (\<lambda>(k, r). (k, ?f r)) (rd_runs (snd v))\<rparr>)"
    using assms(1) r key by (simp add: finished_at_def run_status_at_def)
  then show ?thesis using assms by (auto simp: reap_stale_runs_def Let_def split: sum.splits prod.splits)
qed

text \<open>
  Every write to the run table except the \<open>mark_running\<close> of the run itself, in any order; \<open>elsewhere\<close> is any
  write to the other tables.
\<close>

inductive run_step :: "string \<Rightarrow> event_bus \<times> sink \<times> run_db \<Rightarrow> event_bus \<times> sink \<times> run_db \<Rightarrow> bool" for rid where
  starts: "start_run rl rq inputs i now (\<lambda>x. x) db = (a, db1) \<Longrightarrow> run_step rid (b, q, db) (b, q, db1)"
| begins: "i \<noteq> rid \<Longrightarrow> mark_running i now db = Inr db1 \<Longrightarrow> run_step rid (b, q, db) (b, q, db1)"
| publishes: "run_step rid v (publish_durable now i ty agent payload v)"
| settles: "finalise fi now tools gw i s status err (b, db) = (a, b1, db1) \<Longrightarrow> run_step rid (b, q, db) (b1, q, db1)"
| cancels: "cancel_run i actor now (b, db) = (a, b1, db1) \<Longrightarrow> run_step rid (b, q, db) (b1, q, db1)"
| reaps: "reap_stale_runs now (b, db) = (a, b1, db1) \<Longrightarrow> run_step rid (b, q, db) (b1, q, db1)"
| elsewhere: "rd_runs db1 = rd_runs db \<Longrightarrow> run_step rid (b, q, db) (b1, q1, db1)"

lemma run_step_finished:
  assumes "run_step rid v w" and "finished_at rid st (snd (snd v))"
  shows "finished_at rid st (snd (snd w))"
  using assms
proof (cases rule: run_step.cases)
  case (begins i now db db1 b q)
  obtain r where "map_of (rd_runs db) i = Some r" "db1 = put_run (r\<lparr>rr_status := ''running'', rr_started_at := Some now\<rparr>) db"
    using begins(4) by (auto simp: mark_running_def bind_res_Inr_iff)
  moreover from this have "rr_id r = i" using assms(2) begins keyed_runsD by (auto simp: finished_at_def)
  ultimately show ?thesis using assms(2) begins by (auto intro!: finished_at_put)
next
  case (starts rl rq inputs i now db a db1 b q)
  then show ?thesis using assms(2) start_run_finished [OF _ starts(3)] by simp
next
  case publishes
  then show ?thesis using assms(2) publish_durable_finished by simp
next
  case (settles fi now tools gw i s status err b db a b1 db1 q)
  then show ?thesis using assms(2) finalise_finished [OF _ settles(3)] by simp
next
  case (cancels i actor now b db a b1 db1 q)
  then show ?thesis using assms(2) cancel_run_finished [OF _ cancels(3)] by simp
next
  case (reaps now b db a b1 db1 q)
  then show ?thesis using assms(2) reap_finished [OF _ reaps(3)] by simp
next
  case (elsewhere db1 db b q b1 q1)
  then show ?thesis using assms(2) finished_at_runs [OF elsewhere(3)] by simp
qed

text \<open>
  C29. A finished run stays finished. Once a run has succeeded, failed or been cancelled, no sequence of
  requests, progress reports, late results, cancellations, reaper sweeps and starts of other runs changes its
  status: the only write of the program that can is the \<open>mark_running\<close> of the run itself.
\<close>

theorem finished_runs_stay_finished:
  assumes "(run_step rid)\<^sup>*\<^sup>* v w" and "finished_at rid st (snd (snd v))"
  shows "run_status_at rid (snd (snd w)) = Some st"
proof -
  have "finished_at rid st (snd (snd w))"
    using assms by (induction rule: rtranclp_induct) (auto intro: run_step_finished)
  then show ?thesis by (simp add: finished_at_def)
qed

subsection \<open>The queue a run leaves\<close>

lemma insert_actions_Inr:
  assumes "insert_actions as d = Inr d1"
  shows "d1 = d @ map (\<lambda>a. (oa_id a, a)) as \<and> distinct (map oa_id as) \<and> (\<forall>a\<in>set as. map_of d (oa_id a) = None)"
  using assms
proof (induction as arbitrary: d)
  case (Cons a as)
  then have new: "map_of d (oa_id a) = None" and ins: "insert_actions as (d @ [(oa_id a, a)]) = Inr d1"
    by (simp_all split: if_splits)
  note IH = Cons.IH [OF ins]
  have "oa_id b \<noteq> oa_id a \<and> map_of d (oa_id b) = None" if "b \<in> set as" for b
    using IH that by (auto simp: map_add_def split: if_splits option.splits)
  then show ?case using IH new by (auto dest: sym)
qed simp

lemma action_records:
  assumes "\<forall>p\<in>set ps. pr_id p \<noteq> []"
  shows "map (\<lambda>(k, p). action_record rid held (fresh k) p) (enumerate n ps) = map (action_record rid held []) ps"
  using assms by (induction ps arbitrary: n) (simp_all add: action_record_def)

lemma add_actions_Inr:
  assumes "add_actions fresh rid ps held db = Inr db1" and "\<forall>p\<in>set ps. pr_id p \<noteq> []"
  shows "rd_actions db1 = rd_actions db @ map (\<lambda>p. (pr_id p, action_record rid held [] p)) ps"
    and "distinct (map pr_id ps)" and "\<forall>p\<in>set ps. map_of (rd_actions db) (pr_id p) = None"
proof -
  let ?as = "map (action_record rid held []) ps"
  obtain d where d: "insert_actions ?as (rd_actions db) = Inr d" and db1: "db1 = db\<lparr>rd_actions := d\<rparr>"
    using assms(1) unfolding add_actions_def action_records [OF assms(2)] by (auto simp: bind_res_Inr_iff)
  have id: "oa_id (action_record rid held [] p) = pr_id p" if "p \<in> set ps" for p
    using assms(2) that by (simp add: action_record_def)
  then have ids: "map oa_id ?as = map pr_id ps" by simp
  note spec = insert_actions_Inr [OF d]
  have "d = rd_actions db @ map (\<lambda>p. (pr_id p, action_record rid held [] p)) ps"
    using spec id by simp
  then show "rd_actions db1 = rd_actions db @ map (\<lambda>p. (pr_id p, action_record rid held [] p)) ps"
    by (simp add: db1)
  show "distinct (map pr_id ps)" using spec ids by metis
  show "\<forall>p\<in>set ps. map_of (rd_actions db) (pr_id p) = None" using spec id by auto
qed

lemma persist_outputs_actions:
  "persist_outputs fi t rid s db = Inr db1 \<Longrightarrow>
   \<exists>db0. add_actions (fi_act fi) rid (st_optimization_actions s) (suppressed_ids s) db = Inr db0 \<and> rd_actions db1 = rd_actions db0"
  by (auto simp: persist_outputs_def bind_res_Inr_iff add_findings_def add_allocations_def persist_alerts_def
      persist_generated_creatives_def)

lemma mark_finished_outputs:
  assumes "mark_finished rid status sm n us err now db = Inr db1"
  shows "rd_actions db1 = rd_actions db" "rd_findings db1 = rd_findings db" "rd_allocations db1 = rd_allocations db"
    "rd_alerts db1 = rd_alerts db" "rd_creatives db1 = rd_creatives db" "rd_events db1 = rd_events db"
  using assms by (auto simp: mark_finished_def bind_res_Inr_iff Let_def split: if_splits)

lemma mark_finished_open:
  assumes "mark_finished rid status sm n us err now db = Inr db1" and "map_of (rd_runs db) rid = Some r"
    and "rr_id r = rid" and "parse_status (rr_status r) = Inr st" and "\<not> is_terminal st"
  shows "run_status_at rid db1 = Some (run_status_value status)"
proof -
  have get: "get_run rid db = Inr r" using assms(2) by simp
  obtain r1 where "db1 = put_run r1 db" and "rr_id r1 = rr_id r" and "rr_status r1 = run_status_value status"
    using assms(1,5) by (cases "us = []") (simp_all add: mark_finished_def get assms(4) Let_def, (drule sym, rule that, assumption, simp, simp)+)
  then show ?thesis using assms(3) by (simp add: run_status_at_def)
qed

lemma surviving_actions_filter: "surviving_actions s = filter (\<lambda>p. pr_id p \<notin> suppressed_ids s) (st_optimization_actions s)"
  by (auto simp: surviving_actions_def Let_def)

lemma settle_run_actions:
  assumes "settle_run fi now tools gw rid s RUN_SUCCEEDED err db = Inr db1"
  obtains db0 where "add_actions (fi_act fi) rid (st_optimization_actions s) (suppressed_ids s) db = Inr db0"
    and "rd_actions db1 = rd_actions db0"
proof -
  obtain db2 where "persist_outputs fi (Aware now) rid s db = Inr db2"
    and "mark_finished rid RUN_SUCCEEDED (final_summary s RUN_SUCCEEDED tools gw) (st_iteration s) (final_usage s gw) err now db2
      = Inr db1"
    using assms unfolding settle_run_def bind_res_Inr_iff if_P [OF refl] by blast
  then show ?thesis using persist_outputs_actions mark_finished_outputs(1) that by metis
qed

text \<open>
  C30. A run queues every proposal once. When a run that succeeded is settled, the action table
  gains exactly one row per proposal of the run, under ids that are new and distinct: the approval queue
  gets the proposals the critic let through, in order, those it withheld are stored as suppressed, and none is
  approved or executed. A run that failed or was cancelled leaves no output row of any kind.
\<close>

theorem settled_run_queues_each_proposal_once:
  assumes "settle_run fi now tools gw rid s status err db = Inr db1"
    and "\<forall>p\<in>set (st_optimization_actions s). pr_id p \<noteq> [] \<and> pr_status p = ''proposed''"
  shows "if status = RUN_SUCCEEDED
    then \<exists>new. rd_actions db1 = rd_actions db @ new \<and> distinct (map fst new)
      \<and> (\<forall>(k, a)\<in>set new. map_of (rd_actions db) k = None \<and> oa_id a = k \<and> oa_run_id a = Some rid
            \<and> oa_approved_by a = None \<and> oa_executed_at a = None)
      \<and> map fst (filter (\<lambda>(k, a). oa_status a = ''proposed'') new) = map pr_id (surviving_actions s)
      \<and> map fst (filter (\<lambda>(k, a). oa_status a = ''suppressed'') new)
          = map pr_id (filter (\<lambda>p. pr_id p \<in> suppressed_ids s) (st_optimization_actions s))
    else rd_actions db1 = rd_actions db \<and> rd_findings db1 = rd_findings db \<and> rd_allocations db1 = rd_allocations db
      \<and> rd_alerts db1 = rd_alerts db \<and> rd_creatives db1 = rd_creatives db"
proof (cases "status = RUN_SUCCEEDED")
  case True
  let ?ps = "st_optimization_actions s"
  let ?row = "action_record rid (suppressed_ids s) []"
  let ?new = "map (\<lambda>p. (pr_id p, ?row p)) ?ps"
  obtain db0 where a: "add_actions (fi_act fi) rid ?ps (suppressed_ids s) db = Inr db0" and eq: "rd_actions db1 = rd_actions db0"
    using assms(1) True by (auto elim: settle_run_actions)
  have ids: "\<forall>p\<in>set ?ps. pr_id p \<noteq> []" using assms(2) by blast
  note spec = add_actions_Inr [OF a ids]
  have st: "oa_status (?row p) = (if pr_id p \<in> suppressed_ids s then ''suppressed'' else ''proposed'')" if "p \<in> set ?ps" for p
    using assms(2) that by (simp add: action_record_def)
  have "map fst (filter (\<lambda>(k, a). oa_status a = ''proposed'') ?new) = map pr_id (surviving_actions s)"
    "map fst (filter (\<lambda>(k, a). oa_status a = ''suppressed'') ?new)
       = map pr_id (filter (\<lambda>p. pr_id p \<in> suppressed_ids s) ?ps)"
    using st by (auto simp: surviving_actions_filter filter_map comp_def intro!: arg_cong [where f = "map pr_id"] filter_cong
        split: if_splits)
  moreover have "distinct (map fst ?new)" using spec(2) by (simp add: comp_def)
  moreover have "\<forall>(k, a)\<in>set ?new. map_of (rd_actions db) k = None \<and> oa_id a = k \<and> oa_run_id a = Some rid
      \<and> oa_approved_by a = None \<and> oa_executed_at a = None"
    using spec(3) ids by (auto simp: action_record_def)
  ultimately show ?thesis using spec(1) eq True by (auto intro!: exI [of _ ?new])
next
  case False
  then have "mark_finished rid status (final_summary s status tools gw) (st_iteration s) (final_usage s gw) err now db = Inr db1"
    using assms(1) by (simp add: settle_run_def)
  from mark_finished_outputs [OF this] show ?thesis using False by simp
qed

subsection \<open>Alerts\<close>

definition open_keys :: "alert_row list \<Rightarrow> string list" where
  "open_keys rows = map aw_dedup_key (filter unresolved rows)"

text \<open>No two unresolved rows carry the same fingerprint.\<close>

definition one_open_each :: "alert_row list \<Rightarrow> bool" where
  "one_open_each rows \<longleftrightarrow> distinct (open_keys rows)"

definition noted_by :: "string \<Rightarrow> string \<Rightarrow> alert_row list \<Rightarrow> bool" where
  "noted_by rid k rows \<longleftrightarrow> (\<exists>r\<in>set rows. unresolved r \<and> aw_dedup_key r = k \<and> aw_run_id r = Some rid)"

lemma refresh_alert_keeps [simp]:
  "unresolved (refresh_alert a rid r) = unresolved r" "aw_dedup_key (refresh_alert a rid r) = aw_dedup_key r"
  "i \<noteq> [] \<Longrightarrow> aw_run_id (refresh_alert a (Some i) r) = Some i"
  by (simp_all add: refresh_alert_def unresolved_def given_text_def)

lemma open_alert_fields [simp]:
  "unresolved (open_alert n a rid)" "aw_dedup_key (open_alert n a rid) = al_dedup_key a" "aw_run_id (open_alert n a rid) = rid"
  by (simp_all add: open_alert_def unresolved_def)

lemma update_first_keys:
  assumes "\<And>x. unresolved (f x) = unresolved x" "\<And>x. aw_dedup_key (f x) = aw_dedup_key x" "\<And>x. P x \<Longrightarrow> unresolved x"
  shows "open_keys (update_first P f rows) = open_keys rows"
    and "filter (\<lambda>r. \<not> unresolved r) (update_first P f rows) = filter (\<lambda>r. \<not> unresolved r) rows"
  using assms by (induction rows) (auto simp: open_keys_def)

lemma open_keys_mem: "k \<in> set (open_keys rows) \<longleftrightarrow> (\<exists>r\<in>set rows. unresolved r \<and> aw_dedup_key r = k)"
  by (auto simp: open_keys_def)

lemma set_update_first: "x \<in> set (update_first P f xs) \<Longrightarrow> x \<in> set xs \<or> (\<exists>y\<in>set xs. P y \<and> x = f y)"
  by (induction xs) (auto split: if_splits)

lemma update_first_hit: "list_ex P xs \<Longrightarrow> \<exists>y\<in>set xs. P y \<and> f y \<in> set (update_first P f xs)"
  by (induction xs) auto

lemma update_first_other: "y \<in> set xs \<Longrightarrow> y \<in> set (update_first P f xs) \<or> (P y \<and> f y \<in> set (update_first P f xs))"
  by (induction xs) auto

lemma matches_open_keys: "list_ex (matches_open a) rows \<longleftrightarrow> al_dedup_key a \<in> set (open_keys rows)"
  by (auto simp: list_ex_iff open_keys_mem matches_open_def)

lemma upsert_alert_spec:
  assumes "upsert_alert n a (Some rid) rows = (rows1, new)"
  shows "open_keys rows1 = open_keys rows @ (if al_dedup_key a \<in> set (open_keys rows) then [] else [al_dedup_key a])"
    and "filter (\<lambda>r. \<not> unresolved r) rows1 = filter (\<lambda>r. \<not> unresolved r) rows"
    and "new \<longleftrightarrow> al_dedup_key a \<notin> set (open_keys rows)"
    and "rid \<noteq> [] \<Longrightarrow> noted_by rid (al_dedup_key a) rows1"
    and "rid \<noteq> [] \<Longrightarrow> noted_by rid k rows \<Longrightarrow> noted_by rid k rows1"
proof -
  let ?P = "matches_open a" and ?f = "refresh_alert a (Some rid)"
  have keep: "open_keys (update_first ?P ?f rows) = open_keys rows"
    "filter (\<lambda>r. \<not> unresolved r) (update_first ?P ?f rows) = filter (\<lambda>r. \<not> unresolved r) rows"
    by (rule update_first_keys; simp add: matches_open_def)+
  show "open_keys rows1 = open_keys rows @ (if al_dedup_key a \<in> set (open_keys rows) then [] else [al_dedup_key a])"
    and "filter (\<lambda>r. \<not> unresolved r) rows1 = filter (\<lambda>r. \<not> unresolved r) rows"
    and "new \<longleftrightarrow> al_dedup_key a \<notin> set (open_keys rows)"
    using assms keep by (auto simp: upsert_alert_def matches_open_keys open_keys_def split: if_splits)
  show "noted_by rid (al_dedup_key a) rows1" if "rid \<noteq> []"
  proof (cases "list_ex ?P rows")
    case True
    then obtain y where "?P y" "?f y \<in> set rows1"
      using assms update_first_hit [of ?P rows ?f] by (auto simp: upsert_alert_def)
    then show ?thesis using that by (auto simp: noted_by_def matches_open_def intro!: bexI [of _ "?f y"])
  next
    case False
    then have "open_alert n a (Some rid) \<in> set rows1" using assms by (auto simp: upsert_alert_def)
    then show ?thesis by (auto simp: noted_by_def intro!: bexI [of _ "open_alert n a (Some rid)"])
  qed
  show "noted_by rid k rows1" if r: "rid \<noteq> []" and noted: "noted_by rid k rows"
  proof -
    obtain y where y: "y \<in> set rows" "unresolved y" "aw_dedup_key y = k" "aw_run_id y = Some rid"
      using noted by (auto simp: noted_by_def)
    have "y \<in> set rows1 \<or> ?f y \<in> set rows1"
      using y(1) assms update_first_other [of y rows ?P ?f] by (auto simp: upsert_alert_def split: if_splits)
    moreover have "unresolved (?f y)" "aw_dedup_key (?f y) = k" "aw_run_id (?f y) = Some rid" using y r by simp_all
    ultimately show ?thesis using y unfolding noted_by_def by blast
  qed
qed

lemma record_many_spec:
  assumes "record_many fresh (Some rid) as n rows = (rows1, m)" and "one_open_each rows" and "rid \<noteq> []"
  shows "one_open_each rows1 \<and> (\<forall>a\<in>set as. noted_by rid (al_dedup_key a) rows1)
    \<and> (\<forall>k. noted_by rid k rows \<longrightarrow> noted_by rid k rows1)
    \<and> set (open_keys rows1) = set (open_keys rows) \<union> al_dedup_key ` set as
    \<and> filter (\<lambda>r. \<not> unresolved r) rows1 = filter (\<lambda>r. \<not> unresolved r) rows
    \<and> length (open_keys rows1) = length (open_keys rows) + (m - n) \<and> n \<le> m"
  using assms
proof (induction as arbitrary: n rows)
  case (Cons a as)
  obtain rows0 new where u: "upsert_alert (fresh n) a (Some rid) rows = (rows0, new)" by (rule prod.exhaust)
  note spec = upsert_alert_spec [OF u]
  have r: "record_many fresh (Some rid) as (n + (if new then 1 else 0)) rows0 = (rows1, m)"
    using Cons.prems(1) u by simp
  have one: "one_open_each rows0"
    using Cons.prems(2) spec(1) by (auto simp: one_open_each_def)
  note IH = Cons.IH [OF r one Cons.prems(3)]
  have "\<forall>k. noted_by rid k rows \<longrightarrow> noted_by rid k rows1" using IH spec(5) Cons.prems(3) by blast
  moreover have "\<forall>b\<in>set (a # as). noted_by rid (al_dedup_key b) rows1"
    using IH spec(4) Cons.prems(3) by simp
  moreover have "set (open_keys rows1) = set (open_keys rows) \<union> al_dedup_key ` set (a # as)"
  proof -
    have "set (open_keys rows1) = set (open_keys rows0) \<union> al_dedup_key ` set as" using IH by blast
    then show ?thesis by (auto simp: spec(1))
  qed
  moreover have "length (open_keys rows1) = length (open_keys rows) + (m - n) \<and> n \<le> m"
  proof -
    have "length (open_keys rows1) = length (open_keys rows0) + (m - (n + (if new then 1 else 0)))"
      and "n + (if new then 1 else 0) \<le> m" using IH by blast+
    then show ?thesis by (auto simp: spec(1,3) split: if_splits)
  qed
  ultimately show ?case using IH spec(2) by simp
qed (simp add: one_open_each_def)

lemma fingerprints_deduplicate: "fingerprint ` set (deduplicate as) = fingerprint ` set as"
proof (intro equalityI subsetI)
  fix k assume "k \<in> fingerprint ` set (deduplicate as)"
  then show "k \<in> fingerprint ` set as"
    using alert_dedup.collapse_spec(2) [of as] unfolding deduplicate_def by blast
next
  fix k assume "k \<in> fingerprint ` set as"
  then obtain a where "a \<in> set as" "k = fingerprint a" by blast
  then show "k \<in> fingerprint ` set (deduplicate as)"
    using alert_dedup.collapse_spec(3) [of a as] unfolding deduplicate_def by (metis image_eqI)
qed

text \<open>
  One unresolved alert per fingerprint. Persisting the alerts of a run never leaves two
  unresolved rows with the same fingerprint: each alert of the run with a known rule and severity has one,
  which names the run; every other unresolved fingerprint was there before; and resolved rows are not touched.
\<close>

theorem one_unresolved_alert_per_fingerprint:
  assumes "one_open_each (rd_alerts db)" and "rid \<noteq> []"
  shows "let rows = rd_alerts (persist_alerts now fresh rid s db);
      raised = List.map_filter (rebuild_alert now) (st_alerts s)
    in one_open_each rows \<and> (\<forall>a\<in>set raised. noted_by rid (al_dedup_key a) rows)
      \<and> set (open_keys rows) = set (open_keys (rd_alerts db)) \<union> al_dedup_key ` set raised
      \<and> filter (\<lambda>r. \<not> unresolved r) rows = filter (\<lambda>r. \<not> unresolved r) (rd_alerts db)"
proof -
  define raised where "raised = List.map_filter (rebuild_alert now) (st_alerts s)"
  obtain rows m where rm: "record_many fresh (Some rid) (deduplicate raised) 0 (rd_alerts db) = (rows, m)"
    by (rule prod.exhaust)
  then have rows: "rd_alerts (persist_alerts now fresh rid s db) = rows"
    by (simp add: raised_def persist_alerts_def)
  note spec = record_many_spec [OF rm assms]
  have keys: "al_dedup_key ` set (deduplicate raised) = al_dedup_key ` set raised"
    using fingerprints_deduplicate [of raised] by (simp add: fingerprint_def [abs_def])
  have "noted_by rid (al_dedup_key a) rows" if "a \<in> set raised" for a
  proof -
    have "al_dedup_key a \<in> al_dedup_key ` set (deduplicate raised)" using keys that by simp
    then show ?thesis using spec by auto
  qed
  then show ?thesis using spec keys by (simp add: Let_def rows flip: raised_def)
qed

subsection \<open>The reaper\<close>

text \<open>
  The reaper leaves no stuck run. A sweep that returns has failed exactly the pending and
  running runs whose last sign of progress is older than thirty minutes, and counted them; every other row is as
  it was, so each run still in flight has shown progress within the window. A sweep that raises changes no row.
\<close>

theorem reaper_fails_exactly_the_stale_runs:
  "case reap_stale_runs now (bus, db) of
     (Inl e, bus1, db1) \<Rightarrow> db1 = db
   | (Inr n, bus1, db1) \<Rightarrow>
       n = length (filter (stale_run now db) (map snd (rd_runs db)))
       \<and> (\<forall>k. map_of (rd_runs db1) k =
            map_option (\<lambda>r. if stale_run now db r then fail_run now r else r) (map_of (rd_runs db) k))
       \<and> (\<forall>(k, r)\<in>set (rd_runs db1). in_flight r \<longrightarrow> now - REAPER_STALE_AFTER \<le> progress_of db1 r)
       \<and> rd_events db1 = rd_events db \<and> rd_actions db1 = rd_actions db"
proof -
  let ?f = "\<lambda>r. if stale_run now db r then fail_run now r else r"
  let ?db = "db\<lparr>rd_runs := map (\<lambda>(k, r). (k, ?f r)) (rd_runs db)\<rparr>"
  obtain c bus1 where c: "close_runs (map rr_id (filter (stale_run now db) (map snd (rd_runs db)))) bus = (c, bus1)"
    by (rule prod.exhaust)
  have "progress_of ?db r = progress_of db r" for r by (simp add: progress_of_def last_event_def)
  moreover have "\<not> in_flight (fail_run now r)" for r by (simp add: in_flight_def fail_run_def)
  ultimately have "\<forall>(k, r)\<in>set (rd_runs ?db). in_flight r \<longrightarrow> now - REAPER_STALE_AFTER \<le> progress_of ?db r"
    by (auto simp: stale_run_def)
  moreover have "map_of (rd_runs ?db) k = map_option ?f (map_of (rd_runs db) k)" for k
    by (simp add: map_of_map)
  ultimately show ?thesis using c by (cases c) (simp_all add: reap_stale_runs_def Let_def)
qed

subsection \<open>What cancelling a run does to the rest of it\<close>

lemma close_run_counter: "close_run run bus = (Inr u, bus1) \<Longrightarrow> counter_of bus1 run = 0"
  by (auto simp: close_run_def counter_of_def Let_def delete_conv' split: prod.splits option.splits)

definition logged :: "string \<Rightarrow> int \<Rightarrow> run_db \<Rightarrow> bool" where
  "logged rid n db \<longleftrightarrow> (\<exists>x\<in>set (rd_events db). ev_run_id (re_event x) = rid \<and> ev_seq (re_event x) = n)"

definition publish_each :: "int \<Rightarrow> string \<Rightarrow> (string \<times> string \<times> json_dict) list \<Rightarrow> event_bus \<times> sink \<times> run_db
   \<Rightarrow> event_bus \<times> sink \<times> run_db" where
  "publish_each now rid es v = fold (\<lambda>(ty, agent, payload). publish_durable now rid ty agent payload) es v"

lemma publish_durable_collides:
  assumes "logged rid (counter_of bus rid + 1) db"
  obtains bus1 seen1 where "publish_durable now rid ty agent payload (bus, seen, db) = (bus1, seen1, db)"
    and "counter_of bus1 rid = counter_of bus rid + 1"
proof -
  obtain e bus1 where p: "publish rid ty agent payload bus = (e, bus1)" by (rule prod.exhaust)
  note f = publish_fields [OF p]
  have "event_stored e db" using assms f by (simp add: event_stored_def logged_def)
  then obtain r seen1 where "persist_event now e seen db = (r, seen1, db)"
    by (auto simp: persist_event_def split_beta)
  then show ?thesis using p f(4) that by (simp add: publish_durable_def)
qed

lemma publish_each_collides:
  assumes "\<forall>n. counter_of bus rid < n \<longrightarrow> n \<le> counter_of bus rid + int (length es) \<longrightarrow> logged rid n db"
  shows "snd (snd (publish_each now rid es (bus, seen, db))) = db"
  using assms
proof (induction es arbitrary: bus seen)
  case (Cons m es)
  obtain ty agent payload where m: "m = (ty, agent, payload)" by (rule prod_cases3)
  have "logged rid (counter_of bus rid + 1) db" using Cons.prems by simp
  then obtain bus1 seen1 where p: "publish_durable now rid ty agent payload (bus, seen, db) = (bus1, seen1, db)"
    and c: "counter_of bus1 rid = counter_of bus rid + 1"
    by (rule publish_durable_collides)
  have "snd (snd (publish_each now rid es (bus1, seen1, db))) = db"
    using Cons.prems c by (intro Cons.IH) auto
  then show ?case by (simp add: publish_each_def m p)
qed (simp add: publish_each_def)

lemma cancel_run_Inr:
  assumes "cancel_run rid actor now (bus, db) = (Inr r1, bus1, db1)" and "keyed_runs db"
  shows "rr_id r1 = rid" "rr_status r1 = ''cancelled''" "db1 = put_run r1 db" "counter_of bus1 rid = 0"
proof -
  let ?q = "bind_res (get_run rid db) (\<lambda>r. bind_res (parse_status (rr_status r)) (\<lambda>st. Inr (r, st)))"
  obtain r st where q: "?q = Inr (r, st)"
    using assms(1) by (cases ?q) (auto simp: cancel_run_def)
  then have get: "get_run rid db = Inr r" unfolding bind_res_Inr_iff by blast
  have open_run: "\<not> is_terminal st" using assms(1) q by (auto simp: cancel_run_def)
  obtain c b where c: "close_run rid bus = (c, b)" by (rule prod.exhaust)
  have id: "rr_id r = rid" using get assms(2) keyed_runsD by simp
  show "rr_id r1 = rid" "rr_status r1 = ''cancelled''" "db1 = put_run r1 db" "counter_of bus1 rid = 0"
    using assms(1) q open_run c id close_run_counter by (cases c; auto simp: cancel_run_def Let_def)+
qed

text \<open>
  Cancelling a run truncates its durable timeline. The cancellation resets the sequence of
  the run on the bus, so the events the supervisor still publishes restart at one: as long as the log already
  holds events with those numbers, each of them, the final \<open>run.cancelled\<close> included, violates the unique
  constraint and is dropped, and the log stays as it was when the run was cancelled.
\<close>

theorem cancelled_run_loses_its_last_events:
  assumes "cancel_run rid actor now (bus, db) = (Inr r, bus1, db1)" and "keyed_runs db"
    and "\<forall>n. 1 \<le> n \<longrightarrow> n \<le> int (length es) \<longrightarrow> logged rid n db"
  shows "rd_events (snd (snd (publish_each later rid es (bus1, seen, db1)))) = rd_events db"
proof -
  note c = cancel_run_Inr [OF assms(1,2)]
  have "\<forall>n. counter_of bus1 rid < n \<longrightarrow> n \<le> counter_of bus1 rid + int (length es) \<longrightarrow> logged rid n db1"
    using assms(3) c(3,4) by (simp add: logged_def)
  from publish_each_collides [OF this] show ?thesis using c(3) by simp
qed

text \<open>
  A run cancelled before it starts runs anyway. When the worker of a cancelled run gets to
  its first write, \<open>mark_running\<close> makes the run running again, the probe the agents poll says it is open, and
  the run ends as succeeded with its proposals in the queue.
\<close>

theorem cancelled_before_start_runs_anyway:
  assumes "cancel_run rid actor t0 (bus, db) = (Inr r, bus1, db1)" and "keyed_runs db"
    and "execute_run fi t1 t2 tools gw rid cids n w (Inr s) (\<lambda>v. v) (bus1, db1) = (Inr sm, bus2, db2)"
  shows "run_status_at rid db1 = Some ''cancelled''
    \<and> (\<exists>db0. mark_running rid t1 db1 = Inr db0 \<and> run_is_closed rid db0 = Inr False)
    \<and> run_status_at rid db2 = Some ''succeeded''"
proof -
  note c = cancel_run_Inr [OF assms(1,2)]
  let ?r = "r\<lparr>rr_status := ''running'', rr_started_at := Some t1\<rparr>"
  have get: "get_run rid db1 = Inr r" using c by simp
  then have m: "mark_running rid t1 db1 = Inr (put_run ?r db1)" by (simp add: mark_running_def)
  have "run_status_of ''running'' = Some RUN_RUNNING"
    using run_status_of_value [of RUN_RUNNING] by simp
  then have running: "parse_status (rr_status ?r) = Inr RUN_RUNNING" by (simp add: parse_status_def)
  have at: "map_of (rd_runs (put_run ?r db1)) rid = Some ?r" using c by simp
  have closed: "run_is_closed rid (put_run ?r db1) = Inr False"
    using at running by (simp add: run_is_closed_def status_of_def)
  define db0 where "db0 = put_run ?r db1"
  obtain db3 where settle: "settle_run fi t2 tools gw rid s RUN_SUCCEEDED None db0 = Inr db3" and "db3 = db2"
    using assms(3) m by (auto simp: execute_run_def Let_def finalise_def db0_def split: sum.splits prod.splits)
  then obtain db4 where p: "persist_outputs fi (Aware t2) rid s db0 = Inr db4"
    and f: "mark_finished rid RUN_SUCCEEDED (final_summary s RUN_SUCCEEDED tools gw) (st_iteration s) (final_usage s gw)
      None t2 db4 = Inr db2"
    unfolding settle_run_def bind_res_Inr_iff if_P [OF refl] by blast
  have "map_of (rd_runs db4) rid = Some ?r" using persist_outputs_runs [OF p] at by (simp add: db0_def)
  from mark_finished_open [OF f this _ running] c(1) have "run_status_at rid db2 = Some ''succeeded''" by simp
  moreover have "run_status_at rid db1 = Some ''cancelled''" using c by (simp add: run_status_at_def)
  ultimately show ?thesis using m closed by blast
qed

subsection \<open>Instances\<close>

definition sample_proposal :: "string \<Rightarrow> proposal" where
  "sample_proposal i = \<lparr>pr_id = i, pr_run_id = Some ''run_1'', pr_campaign_id = ''cmp_1'', pr_creative_id = None,
     pr_action_type = ''PAUSE_CAMPAIGN'', pr_status = ''proposed'', pr_before_value = ''active'', pr_after_value = ''paused'',
     pr_reason = ''roas'', pr_confidence = 1 / 2, pr_proposed_by = ''optimize'', pr_iteration = 1, pr_severity = ''warning'',
     pr_urgency = None, pr_direction = ''decrease'', pr_basis = [], pr_preflight = None\<rparr>"

definition sample_finding :: finding where
  "sample_finding = \<lparr>fd_kind = ''duplicate'', fd_scope = ''campaign'', fd_campaign_id = ''cmp_1'', fd_creative_id = [],
     fd_kept_action_id = ''act_1'', fd_kept_action_type = ''PAUSE_CAMPAIGN'', fd_kept_confidence = 1 / 2,
     fd_suppressed = [brief_of (sample_proposal ''act_2'')], fd_reason = ''duplicate'', fd_iteration = 1, fd_escalate = False\<rparr>"

definition sample_state :: agent_state where
  "sample_state = (initial_state ''run_1'' [''cmp_1''] 1 7)
     \<lparr>st_optimization_actions := [sample_proposal ''act_1'', sample_proposal ''act_2''],
      st_critic_findings := [sample_finding], st_iteration := 1\<rparr>"

definition sample_request :: start_request where
  "sample_request = \<lparr>sq_max_iterations = None, sq_window_days = 7, sq_trigger_type = ''api'', sq_actor_id = Some ''usr_1'',
     sq_idempotency_key = Some ''k''\<rparr>"

definition sample_served :: "string \<Rightarrow> served" where
  "sample_served i = \<lparr>sd_limits = \<lparr>rl_max_iterations = 3, rl_optimize_runs_per_hour = 20, rl_max_campaigns_per_run = 50\<rparr>,
     sd_request = sample_request, sd_inputs = Inr [''cmp_1''], sd_id = i, sd_now = 0, sd_before = (\<lambda>db. db), sd_others = (\<lambda>db. db)\<rparr>"

definition empty_runs :: run_db where
  "empty_runs = \<lparr>rd_runs = [], rd_events = [], rd_actions = [], rd_findings = [], rd_allocations = [], rd_alerts = [], rd_creatives = []\<rparr>"

definition one_run :: "string \<Rightarrow> run_db" where
  "one_run st = put_run ((pending_run sample_request 3 [''cmp_1''] ''run_1'' 0)\<lparr>rr_status := st\<rparr>)
     (empty_runs\<lparr>rd_events := [\<lparr>re_event = heartbeat ''run_1''\<lparr>ev_seq := 1\<rparr>, re_created_at = 0\<rparr>]\<rparr>)"

definition sample_ids :: fresh_ids where
  "sample_ids = \<lparr>fi_act = (\<lambda>k. ''a''), fi_cfd = (\<lambda>k. ''f''), fi_bud = (\<lambda>k. ''b''), fi_alr = (\<lambda>k. ''l''), fi_cre = (\<lambda>k. ''c'')\<rparr>"

lemma keyed_one_run: "keyed_runs (one_run st)"
  by (simp add: keyed_runs_def one_run_def put_run_def empty_runs_def)


theorem finished_runs_stay_finished_witness:
  "run_status_at ''run_1'' (snd (snd (publish_durable 5 ''run_1'' ''agent.completed'' ''monitor'' [(''iteration'', JInt 2)]
     (new_bus 8, [], one_run ''failed'')))) = Some ''failed''"
proof (rule finished_runs_stay_finished)
  show "(run_step ''run_1'')\<^sup>*\<^sup>* (new_bus 8, [], one_run ''failed'')
     (publish_durable 5 ''run_1'' ''agent.completed'' ''monitor'' [(''iteration'', JInt 2)] (new_bus 8, [], one_run ''failed''))"
    by (intro r_into_rtranclp run_step.publishes)
  show "finished_at ''run_1'' ''failed'' (snd (snd (new_bus 8, [], one_run ''failed'')))"
    using keyed_one_run by (simp add: finished_at_def) (simp add: run_status_at_def one_run_def)
qed

theorem settled_run_queues_each_proposal_once_witness:
  "\<exists>db1 new. settle_run sample_ids 5 [] [] ''run_1'' sample_state RUN_SUCCEEDED None (one_run ''running'') = Inr db1
     \<and> rd_actions db1 = new \<and> map fst (filter (\<lambda>(k, a). oa_status a = ''suppressed'') new) = [''act_2'']"
proof -
  let ?r = "settle_run sample_ids 5 [] [] ''run_1'' sample_state RUN_SUCCEEDED None (one_run ''running'')"
  have "isl ?r = False" by code_simp
  then obtain db1 where db1: "?r = Inr db1" by (cases ?r) auto
  have ok: "\<forall>p\<in>set (st_optimization_actions sample_state). pr_id p \<noteq> [] \<and> pr_status p = ''proposed''"
    by (simp add: sample_state_def sample_proposal_def)
  have "map pr_id (filter (\<lambda>p. pr_id p \<in> suppressed_ids sample_state) (st_optimization_actions sample_state)) = [''act_2'']"
    by (simp add: sample_state_def sample_proposal_def suppressed_ids_def suppressed_action_ids_def sample_finding_def
        brief_of_def initial_state_def)
  moreover have "rd_actions (one_run ''running'') = []" by (simp add: one_run_def empty_runs_def)
  ultimately show ?thesis
    using settled_run_queues_each_proposal_once [OF db1 ok] db1 by auto
qed

theorem one_unresolved_alert_per_fingerprint_witness:
  "one_open_each (rd_alerts (persist_alerts (Aware 0) (\<lambda>k. ''l'') ''run_1'' sample_state (one_run ''running'')))"
proof -
  have "one_open_each (rd_alerts (one_run ''running''))"
    by (simp add: one_run_def empty_runs_def one_open_each_def open_keys_def)
  from one_unresolved_alert_per_fingerprint [OF this, of "''run_1''" "Aware 0" "\<lambda>k. ''l''" sample_state]
  show ?thesis by (simp add: Let_def)
qed

theorem cancelled_run_loses_its_last_events_witness:
  "\<exists>r bus1 db1. cancel_run ''run_1'' None 9 (new_bus 8, one_run ''running'') = (Inr r, bus1, db1)
    \<and> length (rd_events (snd (snd (publish_each 9 ''run_1'' [(''run.cancelled'', ''supervisor'', [])] (bus1, [], db1))))) = 1"
proof -
  let ?c = "cancel_run ''run_1'' None 9 (new_bus 8, one_run ''running'')"
  have "isl (fst ?c) = False" by code_simp
  then obtain r bus1 db1 where c: "?c = (Inr r, bus1, db1)" by (cases ?c; cases "fst ?c") auto
  have ev: "rd_events (one_run ''running'') = [\<lparr>re_event = heartbeat ''run_1''\<lparr>ev_seq := 1\<rparr>, re_created_at = 0\<rparr>]"
    by (simp add: one_run_def)
  have "\<forall>n. 1 \<le> n \<longrightarrow> n \<le> int (length [(''run.cancelled'', ''supervisor'', [] :: json_dict)])
      \<longrightarrow> logged ''run_1'' n (one_run ''running'')"
    by (auto simp: logged_def ev heartbeat_def)
  from cancelled_run_loses_its_last_events [OF c keyed_one_run this] show ?thesis using c ev by auto
qed

theorem cancelled_before_start_runs_anyway_witness:
  "\<exists>r bus1 db1 sm bus2 db2. cancel_run ''run_1'' None 1 (new_bus 8, one_run ''pending'') = (Inr r, bus1, db1)
    \<and> execute_run sample_ids 2 3 [] [] ''run_1'' [''cmp_1''] 1 7 (Inr sample_state) (\<lambda>v. v) (bus1, db1) = (Inr sm, bus2, db2)
    \<and> run_status_at ''run_1'' db2 = Some ''succeeded''"
proof -
  let ?c = "cancel_run ''run_1'' None 1 (new_bus 8, one_run ''pending'')"
  let ?x = "execute_run sample_ids 2 3 [] [] ''run_1'' [''cmp_1''] 1 7 (Inr sample_state) (\<lambda>v. v) (snd ?c)"
  have "isl (fst ?c) = False" "isl (fst ?x) = False" by code_simp+
  moreover obtain a bus1 db1 where c: "?c = (a, bus1, db1)" by (rule prod_cases3)
  moreover obtain b bus2 db2 where x: "?x = (b, bus2, db2)" by (rule prod_cases3)
  ultimately obtain r sm where r: "a = Inr r" "b = Inr sm" by (cases a; cases b) auto
  then have "execute_run sample_ids 2 3 [] [] ''run_1'' [''cmp_1''] 1 7 (Inr sample_state) (\<lambda>v. v) (bus1, db1) = (Inr sm, bus2, db2)"
    using c x by simp
  moreover from cancelled_before_start_runs_anyway [OF _ keyed_one_run this] c r(1)
  have "run_status_at ''run_1'' db2 = Some ''succeeded''" by blast
  ultimately show ?thesis using c r by auto
qed

end
