(* ===== verification/AdsHttp.thy ===== *)
theory AdsHttp
  imports Platform AgentState
begin

text \<open>
  \<open>infra/ads/http_client.py\<close>: the HTTP wrapper of the real network adapters, with the retries of its decorator, and
  the readings of JSON payloads the adapters make.

  The transport is an argument, a function of the request and the state of the outside world; the pauses between
  attempts only take time. A relative path is sent as it is joined to the base URL, a body is a JSON object.
\<close>

subsection \<open>Requests and answers\<close>

record wire_request =
  wr_method :: string
  wr_base :: string
  wr_url :: string
  wr_params :: json_dict
  wr_body :: "json_dict option"
  wr_headers :: "(string, string) dict"

text \<open>An answer has a status, a text and, if there is any content, what \<open>json()\<close> makes of it.\<close>

datatype http_answer =
    TransportFailed string
  | Answer int string "json option option"

type_synonym 'n transport = "wire_request \<Rightarrow> 'n \<Rightarrow> http_answer \<times> 'n"

definition RETRYABLE_STATUS :: "int list" where
  "RETRYABLE_STATUS = [408, 425, 429, 500, 502, 503, 504]"

definition MAX_ATTEMPTS :: nat where
  "MAX_ATTEMPTS = 4"

record http_client =
  hc_base_url :: string
  hc_timeout :: real
  hc_max_retries :: int
  hc_headers :: "(string, string) dict"

definition rstrip_char :: "char \<Rightarrow> string \<Rightarrow> string" where
  "rstrip_char c s = rev (dropWhile (\<lambda>d. d = c) (rev s))"

definition new_http_client :: "string \<Rightarrow> real \<Rightarrow> int \<Rightarrow> (string, string) dict \<Rightarrow> http_client" where
  "new_http_client base timeout retries headers =
     \<lparr>hc_base_url = rstrip_char (CHR ''/'') base, hc_timeout = timeout, hc_max_retries = max 1 retries, hc_headers = headers\<rparr>"

text \<open>The headers of \<open>_ensure_client\<close> and the URL of \<open>request\<close>.\<close>

definition http_headers :: "http_client \<Rightarrow> (string, string) dict" where
  "http_headers c = dict_update [(''Accept'', ''application/json'')] (hc_headers c)"

definition request_url :: "string \<Rightarrow> string" where
  "request_url path = (if take 4 path = ''http'' then path else CHR ''/'' # dropWhile (\<lambda>d. d = CHR ''/'') path)"

definition wire_request_of :: "http_client \<Rightarrow> string \<Rightarrow> string \<Rightarrow> json_dict \<Rightarrow> json_dict option \<Rightarrow> wire_request" where
  "wire_request_of c meth path params body =
     \<lparr>wr_method = meth, wr_base = hc_base_url c, wr_url = request_url path, wr_params = params, wr_body = body,
      wr_headers = http_headers c\<rparr>"

subsection \<open>One attempt and the retries\<close>

definition transient :: "http_answer \<Rightarrow> bool" where
  "transient a = (case a of TransportFailed m \<Rightarrow> True | Answer st t j \<Rightarrow> st \<in> set RETRYABLE_STATUS)"

definition transient_message :: "http_answer \<Rightarrow> string" where
  "transient_message a = (case a of TransportFailed m \<Rightarrow> m | Answer st t j \<Rightarrow> ''Upstream returned '' @ show_int st)"

text \<open>What the code makes of an answer that is not transient.\<close>

definition read_answer :: "http_answer \<Rightarrow> (py_error, json_dict) res" where
  "read_answer a =
     (case a of
        TransportFailed m \<Rightarrow> Inl (OtherError ''RetryableHTTPError'' m)
      | Answer st t content \<Rightarrow>
          if st \<ge> 400
          then Inl (ExternalServiceError (''Platform request failed with status '' @ show_int st @ '': '' @ take 500 t))
          else case content of
                 None \<Rightarrow> Inr []
               | Some None \<Rightarrow> Inl (ExternalServiceError ''Platform returned a non-JSON body'')
               | Some (Some (JDict d)) \<Rightarrow> Inr d
               | Some (Some j) \<Rightarrow> Inr [(''data'', j)])"

text \<open>
  \<open>attempts n\<close> has \<open>n\<close> further attempts after this one; the last transient failure is raised as it is
  (\<open>reraise=True\<close>).
\<close>

fun attempts :: "'n transport \<Rightarrow> nat \<Rightarrow> wire_request \<Rightarrow> 'n \<Rightarrow> (py_error, json_dict) res \<times> 'n" where
  "attempts tr n rq w =
     (case tr rq w of
        (a, w1) \<Rightarrow>
          if \<not> transient a then (read_answer a, w1)
          else (case n of 0 \<Rightarrow> (Inl (OtherError ''RetryableHTTPError'' (transient_message a)), w1)
                        | Suc m \<Rightarrow> attempts tr m rq w1))"

definition http_call :: "'n transport \<Rightarrow> http_client \<Rightarrow> string \<Rightarrow> string \<Rightarrow> json_dict \<Rightarrow> json_dict option \<Rightarrow> 'n
   \<Rightarrow> (py_error, json_dict) res \<times> 'n" where
  "http_call tr c meth path params body w = attempts tr (MAX_ATTEMPTS - 1) (wire_request_of c meth path params body) w"

subsection \<open>Reading a payload\<close>

definition attribute_error :: py_error where
  "attribute_error = OtherError ''AttributeError'' ''object has no attribute get''"

definition type_error :: "string \<Rightarrow> py_error" where
  "type_error m = OtherError ''TypeError'' m"

definition as_dict :: "json \<Rightarrow> (py_error, json_dict) res" where
  "as_dict j = (case j of JDict d \<Rightarrow> Inr d | _ \<Rightarrow> Inl attribute_error)"

definition get_or :: "string \<Rightarrow> json \<Rightarrow> json_dict \<Rightarrow> json" where
  "get_or k dflt d = (case map_of d k of Some j \<Rightarrow> j | None \<Rightarrow> dflt)"

definition iterate :: "json \<Rightarrow> (py_error, json list) res" where
  "iterate j =
     (case j of JList js \<Rightarrow> Inr js | JStr s \<Rightarrow> Inr (map (\<lambda>c. JStr [c]) s) | JDict d \<Rightarrow> Inr (map (\<lambda>p. JStr (fst p)) d)
        | _ \<Rightarrow> Inl (type_error ''object is not iterable''))"

text \<open>\<open>j[0]\<close>.\<close>

definition first_item :: "json \<Rightarrow> (py_error, json) res" where
  "first_item j =
     (case j of
        JList (x # xs) \<Rightarrow> Inr x
      | JList [] \<Rightarrow> Inl (OtherError ''IndexError'' ''list index out of range'')
      | JStr (c # cs) \<Rightarrow> Inr (JStr [c])
      | JStr [] \<Rightarrow> Inl (OtherError ''IndexError'' ''string index out of range'')
      | JDict d \<Rightarrow> Inl (OtherError ''KeyError'' ''0'')
      | _ \<Rightarrow> Inl (type_error ''object is not subscriptable''))"

text \<open>\<open>float(v or 0)\<close> and \<open>int(float(v or 0))\<close>.\<close>

definition float_or_0 :: "json \<Rightarrow> (py_error, pyfloat) res" where
  "float_or_0 j =
     (if \<not> json_truthy j then Inr (Fin 0)
      else case j of
             JBool b \<Rightarrow> Inr (Fin 1) | JInt n \<Rightarrow> Inr (Fin (of_int n)) | JFloat x \<Rightarrow> Inr x
           | JStr s \<Rightarrow> (case parse_float s of Some x \<Rightarrow> Inr x | None \<Rightarrow> Inl (ValueError (''could not convert string to float: '' @ s)))
           | _ \<Rightarrow> Inl (type_error ''float() argument must be a string or a real number''))"

definition int_of_float :: "pyfloat \<Rightarrow> (py_error, int) res" where
  "int_of_float x =
     (case x of Fin r \<Rightarrow> Inr (py_trunc r) | NaN \<Rightarrow> Inl (ValueError ''cannot convert float NaN to integer'')
        | _ \<Rightarrow> Inl (OtherError ''OverflowError'' ''cannot convert float infinity to integer''))"

definition count_or_0 :: "json \<Rightarrow> (py_error, int) res" where
  "count_or_0 j = bind_res (float_or_0 j) int_of_float"

subsection \<open>What is sent\<close>

text \<open>A transport that also keeps the requests it was given, oldest first.\<close>

definition recording :: "'n transport \<Rightarrow> (wire_request list \<times> 'n) transport" where
  "recording tr rq w = (case w of (sent, n) \<Rightarrow> (case tr rq n of (a, n1) \<Rightarrow> (a, sent @ [rq], n1)))"

text \<open>The answers to \<open>k\<close> repetitions of a request.\<close>

fun answers :: "'n transport \<Rightarrow> wire_request \<Rightarrow> nat \<Rightarrow> 'n \<Rightarrow> http_answer list" where
  "answers tr rq 0 n = []"
| "answers tr rq (Suc k) n = (case tr rq n of (a, n1) \<Rightarrow> a # answers tr rq k n1)"

lemma length_answers [simp]: "length (answers tr rq k n) = k"
  by (induction k arbitrary: n) (simp_all add: split_beta)

lemma recording_eq: "recording tr rq (sent, n) = (fst (tr rq n), sent @ [rq], snd (tr rq n))"
  by (simp add: recording_def split_beta)

lemma attempts_spec:
  assumes "attempts (recording tr) m rq (sent, n) = (r, sent1, n1)"
  shows "\<exists>k. k \<le> m \<and> sent1 = sent @ replicate (Suc k) rq
    \<and> (\<forall>a\<in>set (butlast (answers tr rq (Suc k) n)). transient a)
    \<and> (let a = last (answers tr rq (Suc k) n)
       in if transient a then k = m \<and> r = Inl (OtherError ''RetryableHTTPError'' (transient_message a)) else r = read_answer a)"
  using assms
proof (induction m arbitrary: sent n)
  case 0
  obtain a n2 where t: "tr rq n = (a, n2)" by (rule prod.exhaust)
  show ?case
    using 0 by (intro exI [of _ 0]) (auto simp: recording_eq t Let_def split: if_splits)
next
  case (Suc m)
  obtain a n2 where t: "tr rq n = (a, n2)" by (rule prod.exhaust)
  show ?case
  proof (cases "transient a")
    case False
    then show ?thesis
      using Suc.prems by (intro exI [of _ 0]) (auto simp: recording_eq t Let_def)
  next
    case True
    then have "attempts (recording tr) m rq (sent @ [rq], n2) = (r, sent1, n1)"
      using Suc.prems by (subst (asm) attempts.simps) (simp add: recording_eq t del: attempts.simps)
    from Suc.IH [OF this] obtain k where k: "k \<le> m" "sent1 = (sent @ [rq]) @ replicate (Suc k) rq"
      "\<forall>a\<in>set (butlast (answers tr rq (Suc k) n2)). transient a"
      "let a = last (answers tr rq (Suc k) n2)
       in if transient a then k = m \<and> r = Inl (OtherError ''RetryableHTTPError'' (transient_message a)) else r = read_answer a"
      by blast
    have ne: "answers tr rq (Suc k) n2 \<noteq> []" by (simp add: split_beta)
    have "answers tr rq (Suc (Suc k)) n = a # answers tr rq (Suc k) n2" by (simp add: t)
    then show ?thesis
      using k True ne by (intro exI [of _ "Suc k"]) (simp add: Let_def del: answers.simps)
  qed
qed

text \<open>
  A request is sent at most four times. A call of the HTTP client sends one and the same
  request between one and four times; it is repeated only after a transport failure or a transient status, every
  other answer ends the call and is its result, and four transient answers end it with the last failure.
\<close>

theorem http_call_bounded_retries:
  assumes "http_call (recording tr) c meth path params body (sent, n) = (r, sent1, n1)"
  shows "\<exists>k rq. 1 \<le> k \<and> k \<le> 4 \<and> rq = wire_request_of c meth path params body \<and> sent1 = sent @ replicate k rq
    \<and> (\<forall>a\<in>set (butlast (answers tr rq k n)). transient a)
    \<and> (let a = last (answers tr rq k n)
       in if transient a then k = 4 \<and> r = Inl (OtherError ''RetryableHTTPError'' (transient_message a)) else r = read_answer a)"
proof -
  let ?rq = "wire_request_of c meth path params body"
  obtain k where k: "k \<le> MAX_ATTEMPTS - 1" "sent1 = sent @ replicate (Suc k) ?rq"
    "\<forall>a\<in>set (butlast (answers tr ?rq (Suc k) n)). transient a"
    "let a = last (answers tr ?rq (Suc k) n)
     in if transient a then k = MAX_ATTEMPTS - 1 \<and> r = Inl (OtherError ''RetryableHTTPError'' (transient_message a))
        else r = read_answer a"
    using attempts_spec [OF assms [unfolded http_call_def]] by blast
  have m: "MAX_ATTEMPTS - 1 = 3" by (simp add: MAX_ATTEMPTS_def)
  show ?thesis
  proof (intro exI conjI)
    show "1 \<le> Suc k" "Suc k \<le> 4" using k(1) m by simp_all
    show "?rq = ?rq" ..
    show "sent1 = sent @ replicate (Suc k) ?rq" by (rule k(2))
    show "\<forall>a\<in>set (butlast (answers tr ?rq (Suc k) n)). transient a" by (rule k(3))
    show "let a = last (answers tr ?rq (Suc k) n)
      in if transient a then Suc k = 4 \<and> r = Inl (OtherError ''RetryableHTTPError'' (transient_message a)) else r = read_answer a"
      using k(4) m by (simp add: Let_def del: answers.simps split: if_splits)
  qed
qed

definition steady_transport :: "int transport" where
  "steady_transport rq n = (if n < 2 then Answer 503 [] None else Answer 200 ''{}'' (Some (Some (JDict []))), n + 1)"

theorem http_call_bounded_retries_witness:
  "\<exists>k rq. 1 \<le> k \<and> k \<le> 4 \<and> rq = wire_request_of (new_http_client ''https://host/'' 30 3 []) ''GET'' ''path'' [] None
    \<and> replicate 3 (wire_request_of (new_http_client ''https://host/'' 30 3 []) ''GET'' ''path'' [] None) = [] @ replicate k rq
    \<and> (\<forall>a\<in>set (butlast (answers steady_transport rq k 0)). transient a)
    \<and> (let a = last (answers steady_transport rq k 0)
       in if transient a then k = 4 \<and> Inr ([] :: json_dict) = Inl (OtherError ''RetryableHTTPError'' (transient_message a)) else Inr [] = read_answer a)"
proof -
  let ?c = "new_http_client ''https://host/'' 30 3 []"
  have "http_call (recording steady_transport) ?c ''GET'' ''path'' [] None ([], 0)
      = (Inr [], replicate 3 (wire_request_of ?c ''GET'' ''path'' [] None), 3)"
    by (simp add: http_call_def MAX_ATTEMPTS_def recording_def steady_transport_def transient_def RETRYABLE_STATUS_def
        read_answer_def numeral_3_eq_3)
  then show ?thesis by (rule http_call_bounded_retries)
qed

end
