(* ===== verification/AdsClients.thy ===== *)
theory AdsClients
  imports AdsHttp
begin

text \<open>
  The network adapters: \<open>infra/ads/google.py\<close>, \<open>infra/ads/meta.py\<close>, \<open>infra/ads/tiktok.py\<close>, \<open>infra/ads/mock.py\<close>.

  The outside world of an operation is the state \<open>'n\<close> of the network and the state the adapters keep in the process:
  Google's OAuth token and HTTP client, the recorder's calls. The transport, the readings of the clock, \<open>str\<close>
  of a JSON value that is not a string and \<open>json.dumps\<close> are arguments. The \<open>detail\<close> of an error is left out.
\<close>

subsection \<open>The setting\<close>

record 'n net =
  nt_transport :: "'n transport"
  nt_now :: string
  nt_str :: "json \<Rightarrow> string"
  nt_dumps :: "json \<Rightarrow> string"

definition executed :: "'n net \<Rightarrow> platform \<Rightarrow> string \<Rightarrow> bool \<Rightarrow> string \<Rightarrow> json_dict \<Rightarrow> execution_result" where
  "executed nt p operation success reference detail =
     \<lparr>xr_success = success, xr_platform = p, xr_operation = operation, xr_external_reference = Some reference,
      xr_detail = detail, xr_error = None, xr_executed_at = nt_now nt, xr_dry_run = False\<rparr>"

definition status_detail :: "string \<Rightarrow> string \<Rightarrow> json_dict" where
  "status_detail status reason = [(''status'', JStr status), (''reason'', JStr reason)]"

text \<open>A call, and what to make of its payload.\<close>

definition and_then :: "(py_error, 'a) res \<times> 'w \<Rightarrow> ('a \<Rightarrow> (py_error, 'b) res) \<Rightarrow> (py_error, 'b) res \<times> 'w" where
  "and_then rw f = (bind_res (fst rw) f, snd rw)"

subsection \<open>Meta\<close>

record meta_client =
  mc_access_token :: string
  mc_ad_account_id :: string

definition GRAPH_BASE :: string where "GRAPH_BASE = ''https://graph.facebook.com''"
definition GRAPH_VERSION :: string where "GRAPH_VERSION = ''v21.0''"

definition new_meta_client :: "string \<Rightarrow> string \<Rightarrow> meta_client" where
  "new_meta_client token account =
     \<lparr>mc_access_token = token,
      mc_ad_account_id = (if take 4 account = ''act_'' \<or> account = [] then account else ''act_'' @ account)\<rparr>"

definition meta_configured :: "meta_client \<Rightarrow> bool" where
  "meta_configured m \<longleftrightarrow> mc_access_token m \<noteq> [] \<and> mc_ad_account_id m \<noteq> []"

definition meta_headers :: "meta_client \<Rightarrow> (string, string) dict" where
  "meta_headers m = (if mc_access_token m = [] then [] else [(''Authorization'', ''Bearer '' @ mc_access_token m)])"

definition meta_http :: "meta_client \<Rightarrow> http_client" where
  "meta_http m = new_http_client GRAPH_BASE 30 3 (meta_headers m)"

definition meta_call :: "'n net \<Rightarrow> meta_client \<Rightarrow> string \<Rightarrow> string \<Rightarrow> json_dict \<Rightarrow> 'n \<Rightarrow> (py_error, json_dict) res \<times> 'n" where
  "meta_call nt m meth path params n =
     (if \<not> meta_configured m
      then (Inl (ExternalServiceError ''Meta Ads is not configured; set META_ACCESS_TOKEN and META_AD_ACCOUNT_ID''), n)
      else http_call (nt_transport nt) (meta_http m) meth path params None n)"

definition meta_path :: "string \<Rightarrow> string" where
  "meta_path i = ''/'' @ GRAPH_VERSION @ ''/'' @ i"

definition meta_success :: "json_dict \<Rightarrow> bool" where
  "meta_success payload = json_truthy (get_or ''success'' (JBool True) payload)"

definition meta_update_budget :: "'n net \<Rightarrow> meta_client \<Rightarrow> string \<Rightarrow> real \<Rightarrow> 'n network_call" where
  "meta_update_budget nt m i daily_budget n =
     (let cents = round_half_even (daily_budget * 100)
      in and_then (meta_call nt m ''POST'' (meta_path i) [(''daily_budget'', JInt cents)] n)
           (\<lambda>payload. Inr (executed nt PLATFORM_META ''update_budget'' (meta_success payload) i
              [(''daily_budget_cents'', JInt cents)])))"

definition meta_set_status :: "'n net \<Rightarrow> meta_client \<Rightarrow> string \<Rightarrow> string \<Rightarrow> string \<Rightarrow> string \<Rightarrow> 'n network_call" where
  "meta_set_status nt m i status operation reason n =
     and_then (meta_call nt m ''POST'' (meta_path i) [(''status'', JStr status)] n)
       (\<lambda>payload. Inr (executed nt PLATFORM_META operation (meta_success payload) i (status_detail status reason)))"

definition meta_cta :: "string \<Rightarrow> string" where
  "meta_cta text =
     (case find (\<lambda>p. contains_word (fst p) (str_lower text))
             [(''buy'', ''SHOP_NOW''), (''shop'', ''SHOP_NOW''), (''learn'', ''LEARN_MORE''), (''sign'', ''SIGN_UP''),
              (''download'', ''MOBILE_APP''), (''contact'', ''CONTACT_US''), (''book'', ''BOOK_NOW'')] of
        Some p \<Rightarrow> snd p | None \<Rightarrow> ''LEARN_MORE'')"

definition meta_spec :: "string \<Rightarrow> creative_draft \<Rightarrow> json" where
  "meta_spec page d =
     (let link = JStr (case map_of (dr_asset_urls d) ''link'' of Some l \<Rightarrow> l | None \<Rightarrow> [])
      in JDict [(''page_id'', JStr page),
                (''link_data'', JDict [(''message'', JStr (dr_description d)), (''link'', link),
                   (''call_to_action'', JDict [(''type'', JStr (meta_cta (dr_cta_text d))), (''value'', JDict [(''link'', link)])])])])"

definition meta_create_creative :: "'n net \<Rightarrow> meta_client \<Rightarrow> string \<Rightarrow> creative_draft \<Rightarrow> 'n network_call" where
  "meta_create_creative nt m i d n =
     and_then (meta_call nt m ''POST'' (meta_path (mc_ad_account_id m @ ''/adcreatives''))
                 [(''name'', JStr (take 100 (dr_headline d))), (''object_story_spec'', JStr (nt_dumps nt (meta_spec i d)))] n)
       (\<lambda>payload. Inr (executed nt PLATFORM_META ''create_creative'' (map_of payload ''id'' \<noteq> None)
          (text_of (nt_str nt) (get_or ''id'' (JStr []) payload)) [(''headline'', JStr (dr_headline d))]))"

text \<open>\<open>_normalise_row\<close>: purchases are the conversions.\<close>

definition meta_conversions :: "json_dict \<Rightarrow> (py_error, int) res" where
  "meta_conversions row =
     bind_res (iterate (get_or ''actions'' (JList []) row)) (\<lambda>acts.
       bind_res (map_res (\<lambda>act. bind_res (as_dict act) (\<lambda>d.
           if map_of d ''action_type'' \<in> {Some (JStr ''offsite_conversion.fb_pixel_purchase''), Some (JStr ''purchase'')}
           then count_or_0 (get_or ''value'' (JInt 0) d) else Inr 0)) acts)
         (\<lambda>vs. Inr (sum_list vs)))"

definition delivery_row :: "json \<Rightarrow> int \<Rightarrow> int \<Rightarrow> int \<Rightarrow> pyfloat \<Rightarrow> json" where
  "delivery_row day shown clicked converted spent =
     JDict [(''date'', day), (''impressions'', JInt shown), (''clicks'', JInt clicked), (''conversions'', JInt converted),
            (''cost'', JFloat spent)]"

definition meta_row :: "json \<Rightarrow> (py_error, json) res" where
  "meta_row j =
     bind_res (as_dict j) (\<lambda>row. bind_res (meta_conversions row) (\<lambda>converted.
       bind_res (count_or_0 (get_or ''impressions'' (JInt 0) row)) (\<lambda>shown.
       bind_res (count_or_0 (get_or ''clicks'' (JInt 0) row)) (\<lambda>clicked.
       bind_res (float_or_0 (get_or ''spend'' (JInt 0) row)) (\<lambda>spent.
         Inr (delivery_row (get_or ''date_start'' JNull row) shown clicked converted (round_float 4 spent)))))))"

definition report :: "string \<Rightarrow> string \<Rightarrow> json list \<Rightarrow> json_dict" where
  "report i source rows = [(''campaign_id'', JStr i), (''source'', JStr source), (''rows'', JList rows)]"

definition meta_fetch_report :: "'n net \<Rightarrow> meta_client \<Rightarrow> string \<Rightarrow> string \<Rightarrow> string \<Rightarrow> 'n \<Rightarrow> (py_error, json_dict) res \<times> 'n" where
  "meta_fetch_report nt m i start stop n =
     and_then (meta_call nt m ''GET'' (meta_path (i @ ''/insights''))
                 [(''time_range'', JStr (''{\"since\":\"'' @ start @ ''\",\"until\":\"'' @ stop @ ''\"}'')), (''time_increment'', JInt 1),
                  (''fields'', JStr ''impressions,clicks,actions,spend,date_start,date_stop'')] n)
       (\<lambda>payload. bind_res (iterate (get_or ''data'' (JList []) payload)) (\<lambda>js. bind_res (map_res meta_row js) (\<lambda>rows.
          Inr (report i ''meta'' rows))))"

subsection \<open>TikTok\<close>

record tiktok_client =
  tk_access_token :: string
  tk_advertiser_id :: string

definition TIKTOK_BASE :: string where "TIKTOK_BASE = ''https://business-api.tiktok.com''"
definition API_VERSION :: string where "API_VERSION = ''open_api/v1.3''"

definition tiktok_configured :: "tiktok_client \<Rightarrow> bool" where
  "tiktok_configured t \<longleftrightarrow> tk_access_token t \<noteq> [] \<and> tk_advertiser_id t \<noteq> []"

definition tiktok_headers :: "tiktok_client \<Rightarrow> (string, string) dict" where
  "tiktok_headers t = (if tk_access_token t = [] then [] else [(''Access-Token'', tk_access_token t)])"

definition tiktok_http :: "tiktok_client \<Rightarrow> http_client" where
  "tiktok_http t = new_http_client TIKTOK_BASE 30 3 (tiktok_headers t)"

definition tiktok_call :: "'n net \<Rightarrow> tiktok_client \<Rightarrow> string \<Rightarrow> string \<Rightarrow> json_dict \<Rightarrow> json_dict option \<Rightarrow> 'n
   \<Rightarrow> (py_error, json_dict) res \<times> 'n" where
  "tiktok_call nt t meth path params body n =
     (if \<not> tiktok_configured t
      then (Inl (ExternalServiceError ''TikTok Ads is not configured; set TIKTOK_ACCESS_TOKEN and TIKTOK_ADVERTISER_ID''), n)
      else http_call (nt_transport nt) (tiktok_http t) meth (''/'' @ API_VERSION @ ''/'' @ path) params body n)"

text \<open>\<open>code in (0, None)\<close>, by Python's equality.\<close>

definition no_error_code :: "json \<Rightarrow> bool" where
  "no_error_code j \<longleftrightarrow> j \<in> {JNull, JInt 0, JFloat (Fin 0), JBool False}"

definition tiktok_data :: "'n net \<Rightarrow> json_dict \<Rightarrow> (py_error, json) res" where
  "tiktok_data nt payload =
     (let code = get_or ''code'' JNull payload
      in if \<not> no_error_code code
         then Inl (ExternalServiceError (''TikTok API error '' @ text_of (nt_str nt) code @ '': ''
                @ text_of (nt_str nt) (get_or ''message'' (JStr []) payload)))
         else let d = get_or ''data'' (JDict []) payload in Inr (if json_truthy d then d else JDict []))"

definition tiktok_post :: "'n net \<Rightarrow> tiktok_client \<Rightarrow> string \<Rightarrow> json_dict \<Rightarrow> 'n \<Rightarrow> (py_error, json) res \<times> 'n" where
  "tiktok_post nt t path body n =
     and_then (tiktok_call nt t ''POST'' path [] (Some (dict_update [(''advertiser_id'', JStr (tk_advertiser_id t))] body)) n)
       (tiktok_data nt)"

definition tiktok_update_budget :: "'n net \<Rightarrow> tiktok_client \<Rightarrow> string \<Rightarrow> real \<Rightarrow> 'n network_call" where
  "tiktok_update_budget nt t i daily_budget n =
     (let amount = JFloat (Fin (py_round 2 daily_budget))
      in and_then (tiktok_post nt t ''campaign/update/''
                     [(''campaign_id'', JStr i), (''budget'', amount), (''budget_mode'', JStr ''BUDGET_MODE_DAY'')] n)
           (\<lambda>data. bind_res (as_dict data) (\<lambda>d.
              Inr (executed nt PLATFORM_TIKTOK ''update_budget'' True (text_of (nt_str nt) (get_or ''campaign_id'' (JStr i) d))
                [(''daily_budget'', amount)]))))"

definition tiktok_set_status :: "'n net \<Rightarrow> tiktok_client \<Rightarrow> string \<Rightarrow> string \<Rightarrow> string \<Rightarrow> string \<Rightarrow> 'n network_call" where
  "tiktok_set_status nt t i operation status reason n =
     and_then (tiktok_post nt t ''campaign/status/update/'' [(''campaign_ids'', JList [JStr i]), (''operation'', JStr status)] n)
       (\<lambda>data. Inr (executed nt PLATFORM_TIKTOK operation True i (status_detail status reason)))"

definition tiktok_set_ad_status :: "'n net \<Rightarrow> tiktok_client \<Rightarrow> string \<Rightarrow> string \<Rightarrow> string \<Rightarrow> string \<Rightarrow> 'n network_call" where
  "tiktok_set_ad_status nt t i operation status reason n =
     and_then (tiktok_post nt t ''ad/status/update/'' [(''ad_ids'', JList [JStr i]), (''operation'', JStr status)] n)
       (\<lambda>data. Inr (executed nt PLATFORM_TIKTOK operation True i (status_detail status reason)))"

definition tiktok_create_creative :: "creative_draft \<Rightarrow> 'n network_call" where
  "tiktok_create_creative d n =
     (Inl (ExternalServiceError ''TikTok creative creation needs an uploaded video asset id; run the asset upload flow before creating the creative''), n)"

definition tiktok_row :: "json \<Rightarrow> (py_error, json) res" where
  "tiktok_row j =
     bind_res (as_dict j) (\<lambda>row. bind_res (as_dict (get_or ''metrics'' (JDict []) row)) (\<lambda>ms.
       bind_res (let d = get_or ''dimensions'' JNull row in as_dict (if json_truthy d then d else JDict [])) (\<lambda>dims.
       bind_res (count_or_0 (get_or ''impressions'' (JInt 0) ms)) (\<lambda>shown.
       bind_res (count_or_0 (get_or ''clicks'' (JInt 0) ms)) (\<lambda>clicked.
       bind_res (count_or_0 (get_or ''conversion'' (JInt 0) ms)) (\<lambda>converted.
       bind_res (float_or_0 (get_or ''spend'' (JInt 0) ms)) (\<lambda>spent.
         Inr (delivery_row (get_or ''stat_time_day'' JNull dims) shown clicked converted (round_float 4 spent)))))))))"

definition tiktok_fetch_report :: "'n net \<Rightarrow> tiktok_client \<Rightarrow> string \<Rightarrow> string \<Rightarrow> string \<Rightarrow> 'n \<Rightarrow> (py_error, json_dict) res \<times> 'n" where
  "tiktok_fetch_report nt t i start stop n =
     and_then (tiktok_call nt t ''GET'' ''report/integrated/get/''
                 [(''advertiser_id'', JStr (tk_advertiser_id t)), (''report_type'', JStr ''BASIC''),
                  (''dimensions'', JStr ''[\"stat_time_day\"]''), (''data_level'', JStr ''AUCTION_CAMPAIGN''),
                  (''filters'', JStr (''[{\"field\":\"campaign_id\",\"operator\":\"=\",\"values\":[\"'' @ i @ ''\"]}]'')),
                  (''start_date'', JStr start), (''end_date'', JStr stop)] None n)
       (\<lambda>payload. bind_res (as_dict (get_or ''data'' (JDict []) payload)) (\<lambda>data.
          bind_res (iterate (get_or ''list'' (JList []) data)) (\<lambda>js. bind_res (map_res tiktok_row js) (\<lambda>rows.
            Inr (report i ''tiktok'' rows)))))"

subsection \<open>Google\<close>

record google_credentials =
  gk_client_id :: string
  gk_client_secret :: string
  gk_refresh_token :: string
  gk_developer_token :: string
  gk_customer_id :: string

text \<open>The state of the adapter: the access token with its expiry, and the HTTP client once it is built.\<close>

record google_state =
  gs_access_token :: "string option"
  gs_expires_at :: pyfloat
  gs_http :: "http_client option"

definition new_credentials :: "string \<Rightarrow> string \<Rightarrow> string \<Rightarrow> string \<Rightarrow> string \<Rightarrow> google_credentials" where
  "new_credentials client_id secret refresh developer customer =
     \<lparr>gk_client_id = client_id, gk_client_secret = secret, gk_refresh_token = refresh, gk_developer_token = developer,
      gk_customer_id = filter (\<lambda>c. c \<noteq> CHR ''-'') customer\<rparr>"

definition google_start :: google_state where
  "google_start = \<lparr>gs_access_token = None, gs_expires_at = Fin 0, gs_http = None\<rparr>"

definition google_configured :: "google_credentials \<Rightarrow> bool" where
  "google_configured k \<longleftrightarrow> gk_client_id k \<noteq> [] \<and> gk_client_secret k \<noteq> [] \<and> gk_refresh_token k \<noteq> []
     \<and> gk_developer_token k \<noteq> [] \<and> gk_customer_id k \<noteq> []"

definition TOKEN_URL :: string where "TOKEN_URL = ''https://oauth2.googleapis.com/token''"
definition GOOGLE_ADS_API_BASE :: string where "GOOGLE_ADS_API_BASE = ''https://googleads.googleapis.com''"
definition GOOGLE_ADS_VERSION :: string where "GOOGLE_ADS_VERSION = ''v18''"

text \<open>The form post of the OAuth refresh; it is not retried.\<close>

definition token_request :: "google_credentials \<Rightarrow> wire_request" where
  "token_request k =
     \<lparr>wr_method = ''POST'', wr_base = [], wr_url = TOKEN_URL, wr_params = [],
      wr_body = Some [(''client_id'', JStr (gk_client_id k)), (''client_secret'', JStr (gk_client_secret k)),
        (''refresh_token'', JStr (gk_refresh_token k)), (''grant_type'', JStr ''refresh_token'')], wr_headers = []\<rparr>"

text \<open>\<open>float(v)\<close> and \<open>d[k]\<close>.\<close>

definition float_value :: "json \<Rightarrow> (py_error, pyfloat) res" where
  "float_value j = (if j = JStr [] then Inl (ValueError ''could not convert string to float: '')
     else if j \<in> {JNull, JList [], JDict []} then Inl (type_error ''float() argument must be a string or a real number'')
     else float_or_0 j)"

definition item_of :: "string \<Rightarrow> json \<Rightarrow> (py_error, json) res" where
  "item_of k j =
     (case j of JDict d \<Rightarrow> (case map_of d k of Some v \<Rightarrow> Inr v | None \<Rightarrow> Inl (OtherError ''KeyError'' k))
        | _ \<Rightarrow> Inl (type_error ''indices must be integers or slices''))"

text \<open>The token and its expiry; \<open>later\<close> is the clock when the answer is there.\<close>

definition read_token :: "'n net \<Rightarrow> real \<Rightarrow> http_answer \<Rightarrow> (py_error, string \<times> pyfloat) res" where
  "read_token nt later a =
     (case a of
        TransportFailed m \<Rightarrow> Inl (OtherError ''TransportError'' m)
      | Answer st t content \<Rightarrow>
          if st \<ge> 400 then Inl (ExternalServiceError ''Google OAuth token refresh failed'')
          else (case content of
                  Some (Some j) \<Rightarrow> bind_res (item_of ''access_token'' j) (\<lambda>tok. bind_res (as_dict j) (\<lambda>d.
                    bind_res (float_value (get_or ''expires_in'' (JInt 3600) d)) (\<lambda>lifetime.
                      Inr (text_of (nt_str nt) tok, case lifetime of Fin x \<Rightarrow> Fin (later + x) | y \<Rightarrow> y))))
                | _ \<Rightarrow> Inl (ValueError ''Expecting value'')))"

definition still_fresh :: "real \<Rightarrow> pyfloat \<Rightarrow> bool" where
  "still_fresh now e = (case e of Fin x \<Rightarrow> now < x - 60 | PInf \<Rightarrow> True | _ \<Rightarrow> False)"

definition adopt_token :: "'n net \<Rightarrow> real \<Rightarrow> http_answer \<Rightarrow> google_state \<Rightarrow> (py_error, string) res \<times> google_state" where
  "adopt_token nt later a g =
     (case read_token nt later a of
        Inr (t, e) \<Rightarrow> (Inr t, g\<lparr>gs_access_token := Some t, gs_expires_at := e\<rparr>)
      | Inl err \<Rightarrow> (Inl err, case a of Answer st x (Some (Some (JDict d))) \<Rightarrow>
                     (if st \<ge> 400 then g else (case map_of d ''access_token'' of
                        Some tok \<Rightarrow> g\<lparr>gs_access_token := Some (text_of (nt_str nt) tok)\<rparr> | None \<Rightarrow> g)) | _ \<Rightarrow> g))"

text \<open>\<open>clock\<close> is the time when the token is looked at and when the answer to a refresh is there.\<close>

definition access_token :: "'n net \<Rightarrow> google_credentials \<Rightarrow> real \<times> real \<Rightarrow> google_state \<times> 'n
   \<Rightarrow> (py_error, string) res \<times> google_state \<times> 'n" where
  "access_token nt k clock w =
     (case w of (g, n) \<Rightarrow>
        let refresh = (case nt_transport nt (token_request k) n of
               (a, n1) \<Rightarrow> (case adopt_token nt (snd clock) a g of (r, g1) \<Rightarrow> (r, g1, n1)))
        in case gs_access_token g of
             Some t \<Rightarrow> if t \<noteq> [] \<and> still_fresh (fst clock) (gs_expires_at g) then (Inr t, w) else refresh
           | None \<Rightarrow> refresh)"

definition google_headers :: "google_credentials \<Rightarrow> string \<Rightarrow> (string, string) dict" where
  "google_headers k token =
     [(''Authorization'', ''Bearer '' @ token), (''developer-token'', gk_developer_token k),
      (''Content-Type'', ''application/json'')]"

text \<open>\<open>_client\<close>: the HTTP client is built once, with the token of that moment.\<close>

definition google_client :: "'n net \<Rightarrow> google_credentials \<Rightarrow> real \<times> real \<Rightarrow> google_state \<times> 'n
   \<Rightarrow> (py_error, http_client) res \<times> google_state \<times> 'n" where
  "google_client nt k clock w =
     (if \<not> google_configured k
      then (Inl (ExternalServiceError ''Google Ads is not configured; set GOOGLE_ADS_* environment variables''), w)
      else case gs_http (fst w) of
             Some c \<Rightarrow> (Inr c, w)
           | None \<Rightarrow>
               (case access_token nt k clock w of
                  (Inl e, w1) \<Rightarrow> (Inl e, w1)
                | (Inr token, (g, n)) \<Rightarrow>
                    let c = new_http_client GOOGLE_ADS_API_BASE 30 3 (google_headers k token)
                    in (Inr c, (g\<lparr>gs_http := Some c\<rparr>, n))))"

definition google_call :: "'n net \<Rightarrow> google_credentials \<Rightarrow> real \<times> real \<Rightarrow> string \<Rightarrow> json_dict \<Rightarrow> google_state \<times> 'n
   \<Rightarrow> (py_error, json_dict) res \<times> google_state \<times> 'n" where
  "google_call nt k clock path body w =
     (case google_client nt k clock w of
        (Inl e, w1) \<Rightarrow> (Inl e, w1)
      | (Inr c, (g, n)) \<Rightarrow>
          (case http_call (nt_transport nt) c ''POST'' (GOOGLE_ADS_VERSION @ ''/customers/'' @ gk_customer_id k @ ''/'' @ path) []
                  (Some body) n of
             (r, n1) \<Rightarrow> (r, (g, n1))))"

definition google_mutate :: "'n net \<Rightarrow> google_credentials \<Rightarrow> real \<times> real \<Rightarrow> string \<Rightarrow> json_dict \<Rightarrow> string \<Rightarrow> google_state \<times> 'n
   \<Rightarrow> (py_error, json_dict) res \<times> google_state \<times> 'n" where
  "google_mutate nt k clock service upd touched w =
     google_call nt k clock (service @ '':mutate'')
       [(''operations'', JList [JDict [(''update'', JDict upd), (''updateMask'', JStr touched)]])] w"

definition google_reference :: "'n net \<Rightarrow> string \<Rightarrow> json_dict \<Rightarrow> (py_error, string) res" where
  "google_reference nt i payload =
     bind_res (first_item (get_or ''results'' (JList [JDict []]) payload)) (\<lambda>x. bind_res (as_dict x) (\<lambda>d.
       Inr (text_of (nt_str nt) (get_or ''resourceName'' (JStr i) d))))"

definition google_update_budget :: "'n net \<Rightarrow> google_credentials \<Rightarrow> real \<times> real \<Rightarrow> string \<Rightarrow> real \<Rightarrow> (google_state \<times> 'n) network_call" where
  "google_update_budget nt k clock i daily_budget w =
     (let micros = round_half_even (daily_budget * 1000000)
      in and_then (google_mutate nt k clock ''campaignBudgets''
                     [(''resourceName'', JStr (''campaignBudgets/'' @ i)), (''amountMicros'', JStr (show_int micros))] ''amountMicros'' w)
           (\<lambda>payload. bind_res (google_reference nt i payload) (\<lambda>reference.
              Inr (executed nt PLATFORM_GOOGLE ''update_budget'' True reference [(''amount_micros'', JInt micros)]))))"

definition google_set_status :: "'n net \<Rightarrow> google_credentials \<Rightarrow> real \<times> real \<Rightarrow> string \<Rightarrow> string \<Rightarrow> string \<Rightarrow> string \<Rightarrow> string
   \<Rightarrow> (google_state \<times> 'n) network_call" where
  "google_set_status nt k clock service i status operation reason w =
     and_then (google_mutate nt k clock service
                 [(''resourceName'', JStr (service @ ''/'' @ i)), (''status'', JStr status)] ''status'' w)
       (\<lambda>payload. bind_res (google_reference nt i payload) (\<lambda>reference.
          Inr (executed nt PLATFORM_GOOGLE operation True reference (status_detail status reason))))"

definition google_set_campaign_status :: "'n net \<Rightarrow> google_credentials \<Rightarrow> real \<times> real \<Rightarrow> string \<Rightarrow> string \<Rightarrow> string \<Rightarrow> string
   \<Rightarrow> (google_state \<times> 'n) network_call" where
  "google_set_campaign_status nt k clock = google_set_status nt k clock ''campaigns''"

definition google_set_ad_status :: "'n net \<Rightarrow> google_credentials \<Rightarrow> real \<times> real \<Rightarrow> string \<Rightarrow> string \<Rightarrow> string \<Rightarrow> string
   \<Rightarrow> (google_state \<times> 'n) network_call" where
  "google_set_ad_status nt k clock = google_set_status nt k clock ''adGroupAds''"

definition google_create_creative :: "creative_draft \<Rightarrow> 'w network_call" where
  "google_create_creative d w =
     (Inl (ExternalServiceError (''Creating Google Ads creatives requires an ad group and asset set; ''
        @ ''use the campaign setup flow instead of the optimizer action path'')), w)"

definition google_query :: "string \<Rightarrow> string \<Rightarrow> string \<Rightarrow> string" where
  "google_query i start stop =
     ''SELECT campaign.id, metrics.impressions, metrics.clicks, metrics.conversions, metrics.cost_micros, segments.date ''
     @ ''FROM campaign WHERE campaign.id = '' @ i @ '' AND segments.date BETWEEN '' @ [CHR 0x27] @ start @ [CHR 0x27] @ '' AND ''
     @ [CHR 0x27] @ stop @ [CHR 0x27]"

definition google_row :: "json \<Rightarrow> (py_error, json) res" where
  "google_row j =
     bind_res (as_dict j) (\<lambda>row. bind_res (as_dict (get_or ''metrics'' (JDict []) row)) (\<lambda>ms.
       bind_res (float_or_0 (get_or ''costMicros'' (JInt 0) ms)) (\<lambda>micros.
       bind_res (as_dict (get_or ''segments'' (JDict []) row)) (\<lambda>sg.
       bind_res (count_or_0 (get_or ''impressions'' (JInt 0) ms)) (\<lambda>shown.
       bind_res (count_or_0 (get_or ''clicks'' (JInt 0) ms)) (\<lambda>clicked.
       bind_res (count_or_0 (get_or ''conversions'' (JInt 0) ms)) (\<lambda>converted.
         Inr (delivery_row (get_or ''date'' JNull sg) shown clicked converted
           (round_float 4 (case micros of Fin x \<Rightarrow> Fin (x / 1000000) | y \<Rightarrow> y))))))))))"

definition google_fetch_report :: "'n net \<Rightarrow> google_credentials \<Rightarrow> real \<times> real \<Rightarrow> string \<Rightarrow> string \<Rightarrow> string \<Rightarrow> google_state \<times> 'n
   \<Rightarrow> (py_error, json_dict) res \<times> google_state \<times> 'n" where
  "google_fetch_report nt k clock i start stop w =
     and_then (google_call nt k clock ''googleAds:search'' [(''query'', JStr (google_query i start stop))] w)
       (\<lambda>payload. bind_res (iterate (get_or ''results'' (JList []) payload)) (\<lambda>js. bind_res (map_res google_row js) (\<lambda>rows.
          Inr (report i ''google'' rows))))"

subsection \<open>The recorder\<close>

record mock_state =
  mk_calls :: "(string \<times> int \<times> json_dict) list"
  mk_sequence :: int

definition mock_record :: "'n net \<Rightarrow> platform \<Rightarrow> string set \<Rightarrow> string \<Rightarrow> json_dict \<Rightarrow> mock_state
   \<Rightarrow> (py_error, execution_result) res \<times> mock_state" where
  "mock_record nt p failing operation detail m =
     (let k = mk_sequence m + 1; m1 = m\<lparr>mk_sequence := k, mk_calls := mk_calls m @ [(operation, k, detail)]\<rparr>
      in if operation \<in> failing
         then (Inr ((executed nt p operation False [] detail)\<lparr>xr_external_reference := None,
                 xr_error := Some (''Simulated platform failure for '' @ operation)\<rparr>), m1)
         else (Inr (executed nt p operation True (''mock_'' @ operation @ ''_'' @ show_int k) detail), m1))"

end
