(* ===== verification/AdsFlow.thy ===== *)
theory AdsFlow
  imports AdsClients Actions
begin

text \<open>
  The adapters behind the registry of \<open>infra/ads/registry.py\<close>, and what they put on the wire: one request per
  operation, whose every part but the headers is a function of the operation and of the public account ids.
\<close>

subsection \<open>The networks behind the registry\<close>

record ad_networks =
  an_mock_mode :: bool
  an_google :: google_credentials
  an_meta :: meta_client
  an_tiktok :: tiktok_client

record 'n ads_world =
  wn_net :: 'n
  wn_google :: google_state
  wn_mock :: mock_state

datatype ads_op =
    UpdateBudget real
  | PauseCampaign string
  | ResumeCampaign string
  | PauseCreative string
  | ResumeCreative string
  | CreateCreative creative_draft

text \<open>\<open>build_platform_clients\<close>: four adapters are registered and the recorder is always configured.\<close>

definition registry_of :: "ad_networks \<Rightarrow> adapter_registry" where
  "registry_of an =
     \<lparr>ar_mock_mode = an_mock_mode an, ar_registered = [PLATFORM_MOCK, PLATFORM_GOOGLE, PLATFORM_META, PLATFORM_TIKTOK],
      ar_configured = PLATFORM_MOCK # (if google_configured (an_google an) then [PLATFORM_GOOGLE] else [])
        @ (if meta_configured (an_meta an) then [PLATFORM_META] else [])
        @ (if tiktok_configured (an_tiktok an) then [PLATFORM_TIKTOK] else [])\<rparr>"

definition meta_perform :: "'n net \<Rightarrow> meta_client \<Rightarrow> ads_op \<Rightarrow> string \<Rightarrow> 'n network_call" where
  "meta_perform nt m op i =
     (case op of
        UpdateBudget b \<Rightarrow> meta_update_budget nt m i b
      | PauseCampaign r \<Rightarrow> meta_set_status nt m i ''PAUSED'' ''pause_campaign'' r
      | ResumeCampaign r \<Rightarrow> meta_set_status nt m i ''ACTIVE'' ''resume_campaign'' r
      | PauseCreative r \<Rightarrow> meta_set_status nt m i ''PAUSED'' ''pause_creative'' r
      | ResumeCreative r \<Rightarrow> meta_set_status nt m i ''ACTIVE'' ''resume_creative'' r
      | CreateCreative d \<Rightarrow> meta_create_creative nt m i d)"

definition tiktok_perform :: "'n net \<Rightarrow> tiktok_client \<Rightarrow> ads_op \<Rightarrow> string \<Rightarrow> 'n network_call" where
  "tiktok_perform nt t op i =
     (case op of
        UpdateBudget b \<Rightarrow> tiktok_update_budget nt t i b
      | PauseCampaign r \<Rightarrow> tiktok_set_status nt t i ''pause_campaign'' ''DISABLE'' r
      | ResumeCampaign r \<Rightarrow> tiktok_set_status nt t i ''resume_campaign'' ''ENABLE'' r
      | PauseCreative r \<Rightarrow> tiktok_set_ad_status nt t i ''pause_creative'' ''DISABLE'' r
      | ResumeCreative r \<Rightarrow> tiktok_set_ad_status nt t i ''resume_creative'' ''ENABLE'' r
      | CreateCreative d \<Rightarrow> tiktok_create_creative d)"

definition google_perform :: "'n net \<Rightarrow> google_credentials \<Rightarrow> real \<times> real \<Rightarrow> ads_op \<Rightarrow> string \<Rightarrow> (google_state \<times> 'n) network_call" where
  "google_perform nt k clock op i =
     (case op of
        UpdateBudget b \<Rightarrow> google_update_budget nt k clock i b
      | PauseCampaign r \<Rightarrow> google_set_campaign_status nt k clock i ''PAUSED'' ''pause_campaign'' r
      | ResumeCampaign r \<Rightarrow> google_set_campaign_status nt k clock i ''ENABLED'' ''resume_campaign'' r
      | PauseCreative r \<Rightarrow> google_set_ad_status nt k clock i ''PAUSED'' ''pause_creative'' r
      | ResumeCreative r \<Rightarrow> google_set_ad_status nt k clock i ''ENABLED'' ''resume_creative'' r
      | CreateCreative d \<Rightarrow> google_create_creative d)"

definition mock_perform :: "'n net \<Rightarrow> ads_op \<Rightarrow> string \<Rightarrow> mock_state \<Rightarrow> (py_error, execution_result) res \<times> mock_state" where
  "mock_perform nt op i =
     (let about = (\<lambda>r. [(''external_id'', JStr i), (''reason'', JStr r)]); note = mock_record nt PLATFORM_MOCK {}
      in case op of
           UpdateBudget b \<Rightarrow> note ''update_budget'' [(''external_id'', JStr i), (''daily_budget'', JFloat (Fin (py_round 2 b)))]
         | PauseCampaign r \<Rightarrow> note ''pause_campaign'' (about r)
         | ResumeCampaign r \<Rightarrow> note ''resume_campaign'' (about r)
         | PauseCreative r \<Rightarrow> note ''pause_creative'' (about r)
         | ResumeCreative r \<Rightarrow> note ''resume_creative'' (about r)
         | CreateCreative d \<Rightarrow> note ''create_creative''
             [(''campaign_external_id'', JStr i), (''headline'', JStr (dr_headline d)), (''cta_text'', JStr (dr_cta_text d))])"

definition mock_report :: "string \<Rightarrow> string \<Rightarrow> string \<Rightarrow> json_dict" where
  "mock_report i start stop =
     [(''campaign_id'', JStr i), (''start_date'', JStr start), (''end_date'', JStr stop), (''source'', JStr ''mock''), (''rows'', JList [])]"

text \<open>An operation, and a report, on the client the registry resolves a platform to.\<close>

definition perform :: "'n net \<Rightarrow> ad_networks \<Rightarrow> real \<times> real \<Rightarrow> ads_op \<Rightarrow> platform \<Rightarrow> string \<Rightarrow> 'n ads_world network_call" where
  "perform nt an clock op p i w =
     (case for_platform (registry_of an) (platform_value p) of
        Inl e \<Rightarrow> (Inl e, w)
      | Inr PLATFORM_MOCK \<Rightarrow> (case mock_perform nt op i (wn_mock w) of (r, m) \<Rightarrow> (r, w\<lparr>wn_mock := m\<rparr>))
      | Inr PLATFORM_META \<Rightarrow> (case meta_perform nt (an_meta an) op i (wn_net w) of (r, n) \<Rightarrow> (r, w\<lparr>wn_net := n\<rparr>))
      | Inr PLATFORM_TIKTOK \<Rightarrow> (case tiktok_perform nt (an_tiktok an) op i (wn_net w) of (r, n) \<Rightarrow> (r, w\<lparr>wn_net := n\<rparr>))
      | Inr PLATFORM_GOOGLE \<Rightarrow>
          (case google_perform nt (an_google an) clock op i (wn_google w, wn_net w) of
             (r, g, n) \<Rightarrow> (r, w\<lparr>wn_google := g, wn_net := n\<rparr>)))"

definition fetch_report :: "'n net \<Rightarrow> ad_networks \<Rightarrow> real \<times> real \<Rightarrow> platform \<Rightarrow> string \<Rightarrow> string \<Rightarrow> string \<Rightarrow> 'n ads_world
   \<Rightarrow> (py_error, json_dict) res \<times> 'n ads_world" where
  "fetch_report nt an clock p i start stop w =
     (case for_platform (registry_of an) (platform_value p) of
        Inl e \<Rightarrow> (Inl e, w)
      | Inr PLATFORM_MOCK \<Rightarrow> (Inr (mock_report i start stop), w)
      | Inr PLATFORM_META \<Rightarrow> (case meta_fetch_report nt (an_meta an) i start stop (wn_net w) of (r, n) \<Rightarrow> (r, w\<lparr>wn_net := n\<rparr>))
      | Inr PLATFORM_TIKTOK \<Rightarrow> (case tiktok_fetch_report nt (an_tiktok an) i start stop (wn_net w) of (r, n) \<Rightarrow> (r, w\<lparr>wn_net := n\<rparr>))
      | Inr PLATFORM_GOOGLE \<Rightarrow>
          (case google_fetch_report nt (an_google an) clock i start stop (wn_google w, wn_net w) of
             (r, g, n) \<Rightarrow> (r, w\<lparr>wn_google := g, wn_net := n\<rparr>)))"

subsection \<open>What an operation may send\<close>

definition public :: "wire_request \<Rightarrow> wire_request" where
  "public rq = rq\<lparr>wr_headers := []\<rparr>"

definition public_request :: "string \<Rightarrow> string \<Rightarrow> string \<Rightarrow> json_dict \<Rightarrow> json_dict option \<Rightarrow> wire_request" where
  "public_request base meth path params body =
     \<lparr>wr_method = meth, wr_base = rstrip_char (CHR ''/'') base, wr_url = request_url path, wr_params = params, wr_body = body,
      wr_headers = []\<rparr>"

text \<open>The account an operation is charged to, which is all of a configuration the requests may show.\<close>

record accounts =
  ac_meta_account :: string
  ac_tiktok_advertiser :: string
  ac_google_customer :: string

definition accounts_of :: "ad_networks \<Rightarrow> accounts" where
  "accounts_of an = \<lparr>ac_meta_account = mc_ad_account_id (an_meta an), ac_tiktok_advertiser = tk_advertiser_id (an_tiktok an),
     ac_google_customer = gk_customer_id (an_google an)\<rparr>"

definition meta_sends :: "(json \<Rightarrow> string) \<Rightarrow> accounts \<Rightarrow> ads_op \<Rightarrow> string \<Rightarrow> wire_request" where
  "meta_sends dumps ac op i =
     (let post = (\<lambda>x ps. public_request GRAPH_BASE ''POST'' (''/v21.0/'' @ x) ps None)
      in case op of
           UpdateBudget b \<Rightarrow> post i [(''daily_budget'', JInt (round_half_even (b * 100)))]
         | PauseCampaign r \<Rightarrow> post i [(''status'', JStr ''PAUSED'')]
         | ResumeCampaign r \<Rightarrow> post i [(''status'', JStr ''ACTIVE'')]
         | PauseCreative r \<Rightarrow> post i [(''status'', JStr ''PAUSED'')]
         | ResumeCreative r \<Rightarrow> post i [(''status'', JStr ''ACTIVE'')]
         | CreateCreative d \<Rightarrow> post (ac_meta_account ac @ ''/adcreatives'')
             [(''name'', JStr (take 100 (dr_headline d))), (''object_story_spec'', JStr (dumps (meta_spec i d)))])"

definition tiktok_sends :: "accounts \<Rightarrow> ads_op \<Rightarrow> string \<Rightarrow> wire_request option" where
  "tiktok_sends ac op i =
     (let post = (\<lambda>x ps. Some (public_request TIKTOK_BASE ''POST'' (''/open_api/v1.3/'' @ x) []
              (Some ((''advertiser_id'', JStr (ac_tiktok_advertiser ac)) # ps))));
          set_to = (\<lambda>x ids s. post x [(ids, JList [JStr i]), (''operation'', JStr s)])
      in case op of
           UpdateBudget b \<Rightarrow> post ''campaign/update/'' [(''campaign_id'', JStr i), (''budget'', JFloat (Fin (py_round 2 b))),
             (''budget_mode'', JStr ''BUDGET_MODE_DAY'')]
         | PauseCampaign r \<Rightarrow> set_to ''campaign/status/update/'' ''campaign_ids'' ''DISABLE''
         | ResumeCampaign r \<Rightarrow> set_to ''campaign/status/update/'' ''campaign_ids'' ''ENABLE''
         | PauseCreative r \<Rightarrow> set_to ''ad/status/update/'' ''ad_ids'' ''DISABLE''
         | ResumeCreative r \<Rightarrow> set_to ''ad/status/update/'' ''ad_ids'' ''ENABLE''
         | CreateCreative d \<Rightarrow> None)"

definition google_sends :: "accounts \<Rightarrow> ads_op \<Rightarrow> string \<Rightarrow> wire_request option" where
  "google_sends ac op i =
     (let mutate = (\<lambda>service upd touched. Some (public_request GOOGLE_ADS_API_BASE ''POST''
              (''v18/customers/'' @ ac_google_customer ac @ ''/'' @ service @ '':mutate'') []
              (Some [(''operations'', JList [JDict [(''update'',
                 JDict [(''resourceName'', JStr (service @ ''/'' @ i)), upd]), (''updateMask'', JStr touched)]])])));
          set_to = (\<lambda>service s. mutate service (''status'', JStr s) ''status'')
      in case op of
           UpdateBudget b \<Rightarrow> mutate ''campaignBudgets'' (''amountMicros'', JStr (show_int (round_half_even (b * 1000000)))) ''amountMicros''
         | PauseCampaign r \<Rightarrow> set_to ''campaigns'' ''PAUSED''
         | ResumeCampaign r \<Rightarrow> set_to ''campaigns'' ''ENABLED''
         | PauseCreative r \<Rightarrow> set_to ''adGroupAds'' ''PAUSED''
         | ResumeCreative r \<Rightarrow> set_to ''adGroupAds'' ''ENABLED''
         | CreateCreative d \<Rightarrow> None)"

definition sends :: "(json \<Rightarrow> string) \<Rightarrow> accounts \<Rightarrow> platform \<Rightarrow> ads_op \<Rightarrow> string \<Rightarrow> wire_request option" where
  "sends dumps ac p op i =
     (case p of PLATFORM_META \<Rightarrow> Some (meta_sends dumps ac op i) | PLATFORM_TIKTOK \<Rightarrow> tiktok_sends ac op i
        | PLATFORM_GOOGLE \<Rightarrow> google_sends ac op i | PLATFORM_MOCK \<Rightarrow> None)"

text \<open>The same setting with every request kept.\<close>

definition logged_net :: "'n net \<Rightarrow> (wire_request list \<times> 'n) net" where
  "logged_net nt = \<lparr>nt_transport = recording (nt_transport nt), nt_now = nt_now nt, nt_str = nt_str nt, nt_dumps = nt_dumps nt\<rparr>"

lemma logged_net_fields [simp]:
  "nt_transport (logged_net nt) = recording (nt_transport nt)" "nt_dumps (logged_net nt) = nt_dumps nt"
  by (simp_all add: logged_net_def)

text \<open>At most four copies of one request, whose public part is the one given.\<close>

definition sent_copies :: "wire_request option \<Rightarrow> wire_request list \<Rightarrow> bool" where
  "sent_copies pub new \<longleftrightarrow> (\<exists>k rq. k \<le> 4 \<and> new = replicate k rq \<and> (0 < k \<longrightarrow> Some (public rq) = pub))"

definition adds :: "wire_request option \<Rightarrow> wire_request list \<Rightarrow> wire_request list \<Rightarrow> bool" where
  "adds pub sent sent1 \<longleftrightarrow> (\<exists>new. sent1 = sent @ new \<and> sent_copies pub new)"

lemma adds_refl [simp]: "adds pub sent sent"
  by (auto simp: adds_def sent_copies_def intro: exI [of _ 0])

lemma snd_and_then [simp]: "snd (and_then rw f) = snd rw"
  by (simp add: and_then_def)

lemma public_wire_request_of [simp]:
  "public (wire_request_of (new_http_client base t m h) meth path params body) = public_request base meth path params body"
  by (simp add: public_def wire_request_of_def new_http_client_def public_request_def)

lemma http_call_adds:
  assumes "c = new_http_client base t m h"
  shows "adds (Some (public_request base meth path params body)) (fst w)
    (fst (snd (http_call (recording tr) c meth path params body w)))"
proof -
  obtain sent n where w: "w = (sent, n)" by (rule prod.exhaust)
  obtain r sent1 n1 where c: "attempts (recording tr) (MAX_ATTEMPTS - 1) (wire_request_of c meth path params body) (sent, n) = (r, sent1, n1)"
    by (rule prod_cases3)
  from attempts_spec [OF this] obtain k where "k \<le> MAX_ATTEMPTS - 1"
    and "sent1 = sent @ replicate (Suc k) (wire_request_of c meth path params body)" by blast
  moreover have "public (wire_request_of c meth path params body) = public_request base meth path params body"
    using assms by simp
  ultimately have "adds (Some (public_request base meth path params body)) sent sent1"
    by (auto simp: adds_def sent_copies_def MAX_ATTEMPTS_def intro!: exI [of _ "Suc k"])
  then show ?thesis using c by (simp add: http_call_def w)
qed

lemma meta_call_adds:
  "adds (Some (public_request GRAPH_BASE meth path params None)) (fst w) (fst (snd (meta_call (logged_net nt) m meth path params w)))"
  by (simp add: meta_call_def http_call_adds [OF meta_http_def])

lemma meta_perform_adds:
  "adds (Some (meta_sends (nt_dumps nt) (accounts_of an) op i)) (fst w) (fst (snd (meta_perform (logged_net nt) (an_meta an) op i w)))"
  by (cases op) (simp_all add: meta_call_adds meta_perform_def meta_sends_def meta_update_budget_def meta_set_status_def meta_create_creative_def
      meta_path_def GRAPH_VERSION_def accounts_of_def Let_def)

lemma tiktok_call_adds:
  "adds (Some (public_request TIKTOK_BASE meth (''/open_api/v1.3/'' @ path) params body)) (fst w)
     (fst (snd (tiktok_call (logged_net nt) t meth path params body w)))"
  using http_call_adds [OF tiktok_http_def [of t], where path = "''/open_api/v1.3/'' @ path" and w = w and tr = "nt_transport nt"]
  by (simp add: tiktok_call_def API_VERSION_def)

lemma tiktok_post_adds:
  assumes "''advertiser_id'' \<notin> fst ` set body" and "distinct (map fst body)"
  shows "adds (Some (public_request TIKTOK_BASE ''POST'' (''/open_api/v1.3/'' @ path) [] (Some ((''advertiser_id'', JStr (tk_advertiser_id t)) # body))))
     (fst w) (fst (snd (tiktok_post (logged_net nt) t path body w)))"
proof -
  have "dict_update d body = d @ body" if "fst ` set d \<inter> fst ` set body = {}" "distinct (map fst body)"
    for d :: json_dict and body
    using that
  proof (induction body arbitrary: d)
    case (Cons p body)
    obtain k v where p: "p = (k, v)" by (rule prod.exhaust)
    have "map_of d k = None" using Cons.prems(1) p by (auto simp: map_of_eq_None_iff)
    then have "AList.update k v d = d @ [(k, v)]" by (induction d) (auto split: if_splits)
    then show ?case using Cons p by (auto simp: Cons.IH)
  qed simp
  then have "dict_update [(''advertiser_id'', JStr (tk_advertiser_id t))] body = (''advertiser_id'', JStr (tk_advertiser_id t)) # body"
    using assms by auto
  then show ?thesis by (simp add: tiktok_post_def tiktok_call_adds del: append.simps)
qed

lemma tiktok_perform_adds:
  "adds (tiktok_sends (accounts_of an) op i) (fst w) (fst (snd (tiktok_perform (logged_net nt) (an_tiktok an) op i w)))"
  by (cases op) (simp_all add: tiktok_perform_def tiktok_sends_def tiktok_update_budget_def tiktok_set_status_def
        tiktok_set_ad_status_def tiktok_create_creative_def accounts_of_def Let_def tiktok_post_adds del: append.simps)

text \<open>The adapter's HTTP client, once built, is one of the API with some token.\<close>

definition google_sound :: "google_credentials \<Rightarrow> google_state \<Rightarrow> bool" where
  "google_sound k g \<longleftrightarrow> (\<forall>c. gs_http g = Some c \<longrightarrow> (\<exists>token. c = new_http_client GOOGLE_ADS_API_BASE 30 3 (google_headers k token)))"

definition adds_after_oauth :: "google_credentials \<Rightarrow> wire_request option \<Rightarrow> wire_request list \<Rightarrow> wire_request list \<Rightarrow> bool" where
  "adds_after_oauth k pub sent sent1 \<longleftrightarrow>
     (\<exists>oauth new. sent1 = sent @ oauth @ new \<and> oauth \<in> {[], [token_request k]} \<and> sent_copies pub new)"

lemma after_oauth:
  assumes "sent2 \<in> {sent, sent @ [token_request k]}" and "adds pub sent2 sent1"
  shows "adds_after_oauth k pub sent sent1"
proof -
  obtain new where "sent1 = sent2 @ new" "sent_copies pub new" using assms(2) by (auto simp: adds_def)
  then have "sent1 = sent @ (if sent2 = sent then [] else [token_request k]) @ new" using assms(1) by auto
  then show ?thesis using \<open>sent_copies pub new\<close> unfolding adds_after_oauth_def by (metis insertCI)
qed

lemma access_token_adds:
  assumes "access_token (logged_net nt) k clock (g, (sent, n)) = (r, g1, (sent1, n1))"
  shows "sent1 \<in> {sent, sent @ [token_request k]}" and "gs_http g1 = gs_http g"
proof -
  obtain a n2 where t: "nt_transport nt (token_request k) n = (a, n2)" by (rule prod.exhaust)
  obtain b g2 where ad: "adopt_token (logged_net nt) (snd clock) a g = (b, g2)" by (rule prod.exhaust)
  have "gs_http g2 = gs_http g"
    using ad by (auto simp: adopt_token_def split: sum.splits prod.splits http_answer.splits option.splits json.splits if_splits)
  moreover have "(g1 = g \<and> sent1 = sent) \<or> (g1 = g2 \<and> sent1 = sent @ [token_request k])"
    using assms by (auto simp: access_token_def Let_def recording_eq t ad split: option.splits if_splits)
  ultimately show "sent1 \<in> {sent, sent @ [token_request k]}" and "gs_http g1 = gs_http g" by auto
qed

lemma google_call_adds:
  assumes "google_call (logged_net nt) k clock path body (g, (sent, n)) = (r, g1, (sent1, n1))" and "google_sound k g"
  shows "adds_after_oauth k (Some (public_request GOOGLE_ADS_API_BASE ''POST'' (''v18/customers/'' @ gk_customer_id k @ ''/'' @ path) [] (Some body)))
      sent sent1 \<and> google_sound k g1"
proof -
  obtain c g2 sent2 n2 where c: "google_client (logged_net nt) k clock (g, (sent, n)) = (c, g2, (sent2, n2))"
    by (metis prod.exhaust)
  have client: "sent2 \<in> {sent, sent @ [token_request k]} \<and> google_sound k g2
      \<and> (\<forall>x. c = Inr x \<longrightarrow> (\<exists>token. x = new_http_client GOOGLE_ADS_API_BASE 30 3 (google_headers k token)))"
  proof (cases "google_configured k")
    case False
    then show ?thesis using c assms(2) by (auto simp: google_client_def)
  next
    case True
    show ?thesis
    proof (cases "gs_http g")
      case (Some x)
      then show ?thesis using c assms(2) True by (auto simp: google_client_def google_sound_def)
    next
      case None
      obtain t g3 sent3 n3 where t: "access_token (logged_net nt) k clock (g, (sent, n)) = (t, g3, (sent3, n3))"
        by (metis prod.exhaust)
      show ?thesis
        using c None True access_token_adds [OF t] t
        by (cases t) (auto simp: google_client_def google_sound_def Let_def)
    qed
  qed
  show ?thesis
  proof (cases c)
    case (Inl e)
    then have "sent1 = sent2" "g1 = g2" using assms(1) c by (auto simp: google_call_def)
    then show ?thesis using client after_oauth adds_refl by blast
  next
    case (Inr x)
    then obtain token where x: "x = new_http_client GOOGLE_ADS_API_BASE 30 3 (google_headers k token)" using client by blast
    let ?path = "''v18/customers/'' @ gk_customer_id k @ ''/'' @ path"
    obtain r4 sent4 n4 where h: "http_call (recording (nt_transport nt)) x ''POST'' ?path [] (Some body) (sent2, n2) = (r4, sent4, n4)"
      by (rule prod_cases3)
    then have eq: "sent1 = sent4" "g1 = g2"
      using assms(1) c Inr by (auto simp: google_call_def GOOGLE_ADS_VERSION_def)
    have "adds (Some (public_request GOOGLE_ADS_API_BASE ''POST'' ?path [] (Some body))) sent2 sent1"
      using http_call_adds [OF x, of "''POST''" ?path "[]" "Some body" "(sent2, n2)" "nt_transport nt"] h eq by simp
    then show ?thesis using client eq after_oauth by blast
  qed
qed

lemma google_perform_adds:
  assumes "google_perform (logged_net nt) (an_google an) clock op i (g, (sent, n)) = (r, g1, (sent1, n1))" and "google_sound (an_google an) g"
  shows "adds_after_oauth (an_google an) (google_sends (accounts_of an) op i) sent sent1 \<and> google_sound (an_google an) g1"
proof -
  have none: "adds_after_oauth k pub sent sent" for k pub
    using after_oauth [OF _ adds_refl] by blast
  have call: "\<exists>r. google_call (logged_net nt) k clock path body (g, (sent, n)) = (r, g1, (sent1, n1))"
    if "and_then (google_call (logged_net nt) k clock path body (g, (sent, n))) f = (r, g1, (sent1, n1))" for k path body f r
    using that by (cases "google_call (logged_net nt) k clock path body (g, (sent, n))") (simp add: and_then_def)
  note defs = google_perform_def google_sends_def google_update_budget_def google_set_campaign_status_def google_set_ad_status_def
    google_set_status_def google_create_creative_def google_mutate_def accounts_of_def Let_def
  show ?thesis
    using assms google_call_adds [of nt "an_google an" clock _ _ g sent n _ g1 sent1 n1] none
    by (cases op) (auto simp: defs dest!: call)
qed

subsection \<open>Properties\<close>

lemma for_platform_registry:
  "for_platform (registry_of an) (platform_value p) = Inr q \<Longrightarrow> q = (if an_mock_mode an then PLATFORM_MOCK else p)"
  by (auto simp: for_platform_def registry_of_def split: if_splits)


subsection \<open>Google's token\<close>

type_synonym timed_op = "(real \<times> real) \<times> ads_op \<times> string"

definition google_session :: "'n net \<Rightarrow> google_credentials \<Rightarrow> timed_op list \<Rightarrow> google_state \<times> 'n \<Rightarrow> google_state \<times> 'n" where
  "google_session nt k xs w = fold (\<lambda>(clock, op, i) v. snd (google_perform nt k clock op i v)) xs w"

lemma google_call_built:
  assumes "gs_http g = Some c"
  shows "\<exists>new n1. snd (google_call (logged_net nt) k clock path body (g, (sent, n))) = (g, (sent @ new, n1))
    \<and> (\<forall>rq\<in>set new. wr_headers rq = http_headers c)"
proof (cases "google_configured k")
  case False
  then show ?thesis by (simp add: google_call_def google_client_def)
next
  case True
  let ?path = "GOOGLE_ADS_VERSION @ ''/customers/'' @ gk_customer_id k @ ''/'' @ path"
  obtain r sent1 n1 where h: "http_call (recording (nt_transport nt)) c ''POST'' ?path [] (Some body) (sent, n) = (r, sent1, n1)"
    by (rule prod_cases3)
  from attempts_spec [OF this [unfolded http_call_def]] obtain m
    where "sent1 = sent @ replicate (Suc m) (wire_request_of c ''POST'' ?path [] (Some body))" by blast
  moreover have "snd (google_call (logged_net nt) k clock path body (g, (sent, n))) = (g, (sent1, n1))"
    using h True assms by (simp add: google_call_def google_client_def)
  ultimately show ?thesis
    by (intro exI [of _ "replicate (Suc m) (wire_request_of c ''POST'' ?path [] (Some body))"]) (auto simp: wire_request_of_def)
qed

lemma google_perform_built:
  assumes "gs_http g = Some c"
  shows "\<exists>new n1. snd (google_perform (logged_net nt) k clock op i (g, (sent, n))) = (g, (sent @ new, n1))
    \<and> (\<forall>rq\<in>set new. wr_headers rq = http_headers c)"
  using google_call_built [OF assms, of nt k clock _ _ sent n]
  by (cases op) (simp_all add: google_perform_def google_update_budget_def google_set_campaign_status_def google_set_ad_status_def
      google_set_status_def google_create_creative_def google_mutate_def Let_def del: append.simps)

lemma google_session_built:
  assumes "gs_http g = Some c"
  shows "\<exists>new n1. google_session (logged_net nt) k xs (g, (sent, n)) = (g, (sent @ new, n1))
    \<and> (\<forall>rq\<in>set new. wr_headers rq = http_headers c)"
proof (induction xs arbitrary: sent n)
  case Nil
  show ?case by (simp add: google_session_def)
next
  case (Cons x xs)
  obtain clock op i where x: "x = (clock, op, i)" by (rule prod_cases3)
  obtain new n1 where p: "snd (google_perform (logged_net nt) k clock op i (g, (sent, n))) = (g, (sent @ new, n1))"
    and hd: "\<forall>rq\<in>set new. wr_headers rq = http_headers c"
    using google_perform_built [OF assms, of nt k clock op i sent n] by blast
  obtain new2 n2 where s: "google_session (logged_net nt) k xs (g, (sent @ new, n1)) = (g, ((sent @ new) @ new2, n2))"
    and hd2: "\<forall>rq\<in>set new2. wr_headers rq = http_headers c"
    using Cons.IH [of "sent @ new" n1] by blast
  have "google_session (logged_net nt) k (x # xs) (g, (sent, n)) = google_session (logged_net nt) k xs (g, (sent @ new, n1))"
    using p by (simp add: google_session_def x)
  then show ?case using s hd hd2 by (intro exI [of _ "new @ new2"] exI [of _ n2]) auto
qed

text \<open>
  C32. Google's access token is never renewed. Once the HTTP client is built with a token, every
  later operation, at whatever time, is sent with that token, and the adapter never asks for another one, although
  the token it remembers has expired and a look at it would refresh it.
\<close>

theorem google_keeps_its_first_token:
  assumes "gs_http g = Some (new_http_client GOOGLE_ADS_API_BASE 30 3 (google_headers k token))"
    and "\<not> still_fresh now (gs_expires_at g)"
  shows "\<exists>new n1. google_session (logged_net nt) k xs (g, ([], n)) = (g, (new, n1))
    \<and> (\<forall>rq\<in>set new. map_of (wr_headers rq) ''Authorization'' = Some (''Bearer '' @ token)) \<and> token_request k \<notin> set new
    \<and> fst (snd (snd (access_token (logged_net nt) k (now, later) (g, ([], n))))) = [token_request k]"
proof -
  let ?c = "new_http_client GOOGLE_ADS_API_BASE 30 3 (google_headers k token)"
  have auth: "map_of (http_headers ?c) ''Authorization'' = Some (''Bearer '' @ token)"
    by (simp add: http_headers_def new_http_client_def google_headers_def)
  obtain new n1 where s: "google_session (logged_net nt) k xs (g, ([], n)) = (g, (new, n1))"
    and h: "\<forall>rq\<in>set new. wr_headers rq = http_headers ?c"
    using google_session_built [OF assms(1), of nt k xs "[]" n] by auto
  have "wr_headers (token_request k) \<noteq> http_headers ?c"
    using auth by (auto simp: token_request_def)
  then have "token_request k \<notin> set new" using h by blast
  moreover have "fst (snd (snd (access_token (logged_net nt) k (now, later) (g, ([], n))))) = [token_request k]"
    using assms(2) by (simp add: access_token_def Let_def recording_eq split_beta split: option.splits)
  ultimately show ?thesis using s h auth by auto
qed

subsection \<open>Amounts and reports\<close>

text \<open>
  The networks are asked for the same money. A budget of a whole number of cents reaches
  Google as that many times ten thousand micros, Meta as that many cents and TikTok as the amount itself; any other
  budget is off by at most half of the unit of the network.
\<close>

theorem networks_are_asked_for_the_same_amount:
  "\<bar>of_int (round_half_even (b * 1000000)) - b * 1000000\<bar> \<le> (1 / 2 :: real)
   \<and> \<bar>of_int (round_half_even (b * 100)) - b * 100\<bar> \<le> (1 / 2 :: real) \<and> \<bar>py_round 2 b - b\<bar> \<le> 1 / 200
   \<and> (b = of_int cents / 100 \<longrightarrow>
       wr_params (meta_sends dumps ac (UpdateBudget b) i) = [(''daily_budget'', JInt cents)]
       \<and> (\<exists>rq d. google_sends ac (UpdateBudget b) i = Some rq \<and> wr_body rq = Some d
            \<and> map_of d ''operations'' = Some (JList [JDict [(''update'', JDict [(''resourceName'', JStr (''campaignBudgets/'' @ i)),
                 (''amountMicros'', JStr (show_int (10000 * cents)))]), (''updateMask'', JStr ''amountMicros'')]]))
       \<and> (\<exists>rq d. tiktok_sends ac (UpdateBudget b) i = Some rq \<and> wr_body rq = Some d \<and> map_of d ''budget'' = Some (JFloat (Fin b))))"
proof -
  have half: "\<bar>of_int (round_half_even x) - x\<bar> \<le> 1 / 2" for x :: real
    using round_half_even_bounds [of x] by linarith
  have "\<bar>py_round 2 b - b\<bar> \<le> 1 / 200"
    using half [of "b * 100"] by (simp add: py_round_def field_simps abs_le_iff)
  moreover have "round_half_even (b * 100) = cents" "round_half_even (b * 1000000) = 10000 * cents" "py_round 2 b = b"
    if b: "b = of_int cents / 100"
  proof -
    have "b * 1000000 = of_int (10000 * cents)" by (simp add: b)
    then show "round_half_even (b * 1000000) = 10000 * cents" by (simp only: round_half_even_of_int)
    show "round_half_even (b * 100) = cents" by (simp add: b)
    show "py_round 2 b = b" using py_round_decimal [of 2 cents] unfolding b by simp
  qed
  ultimately show ?thesis
    using half by (simp add: meta_sends_def google_sends_def tiktok_sends_def public_request_def Let_def)
qed

text \<open>A network that answers every request with the same payload.\<close>

definition answering :: "json_dict \<Rightarrow> 'n transport" where
  "answering payload rq n = (Answer 200 [] (Some (Some (JDict payload))), n)"

lemma http_call_answering: "http_call (answering payload) c meth path params body n = (Inr payload, n)"
  by (simp add: http_call_def answering_def transient_def RETRYABLE_STATUS_def read_answer_def MAX_ATTEMPTS_def)

text \<open>
  A TikTok error is read as an empty report. When the TikTok API answers with an error code and
  no data, every change is refused as an external error, and the report of any campaign and window is returned
  as a successful one without rows.
\<close>

theorem tiktok_error_becomes_an_empty_report:
  assumes "nt_transport nt = answering payload" and "tiktok_configured t"
    and "map_of payload ''code'' = Some (JInt code)" and "code \<noteq> 0" and "map_of payload ''data'' \<in> {None, Some (JDict [])}"
  shows "tiktok_fetch_report nt t i start stop n = (Inr (report i ''tiktok'' []), n)
    \<and> (\<forall>op. \<exists>m. tiktok_perform nt t op i n = (Inl (ExternalServiceError m), n))"
proof -
  have call: "tiktok_call nt t meth path params body n = (Inr payload, n)" for meth path params body
    using assms(1,2) by (simp add: tiktok_call_def http_call_answering)
  have data: "get_or ''data'' (JDict []) payload = JDict []" using assms(5) by (auto simp: get_or_def)
  have "tiktok_fetch_report nt t i start stop n = (Inr (report i ''tiktok'' []), n)"
    by (simp add: tiktok_fetch_report_def call and_then_def data as_dict_def iterate_def del: append.simps) (simp add: get_or_def)
  moreover have "\<exists>m. tiktok_post nt t path body n = (Inl (ExternalServiceError m), n)" for path body
    using assms(3,4) by (auto simp: tiktok_post_def call and_then_def tiktok_data_def get_or_def no_error_code_def Let_def)
  then have "\<exists>m. and_then (tiktok_post nt t path body n) f = (Inl (ExternalServiceError m), n)"
    for path body and f :: "json \<Rightarrow> (py_error, execution_result) res"
    by (metis and_then_def bind_res_simps(1) fst_conv snd_conv)
  then have "\<exists>m. tiktok_perform nt t op i n = (Inl (ExternalServiceError m), n)" for op
    by (cases op) (auto simp: tiktok_perform_def tiktok_update_budget_def tiktok_set_status_def tiktok_set_ad_status_def
        tiktok_create_creative_def Let_def)
  ultimately show ?thesis by blast
qed

subsection \<open>Instances\<close>

definition sample_net :: "json_dict \<Rightarrow> nat net" where
  "sample_net payload = \<lparr>nt_transport = answering payload, nt_now = ''now'', nt_str = (\<lambda>j. ''json''), nt_dumps = (\<lambda>j. ''spec'')\<rparr>"

definition sample_credentials :: google_credentials where
  "sample_credentials = new_credentials ''id'' ''secret'' ''refresh'' ''dev'' ''12-34''"

definition sample_networks :: ad_networks where
  "sample_networks = \<lparr>an_mock_mode = False, an_google = sample_credentials, an_meta = new_meta_client ''token'' ''7'',
     an_tiktok = \<lparr>tk_access_token = ''token'', tk_advertiser_id = ''9''\<rparr>\<rparr>"

definition sample_world :: "(wire_request list \<times> nat) ads_world" where
  "sample_world = \<lparr>wn_net = ([], 0), wn_google = google_start, wn_mock = \<lparr>mk_calls = [], mk_sequence = 0\<rparr>\<rparr>"

lemma sound_start: "google_sound k google_start"
  by (simp add: google_sound_def google_start_def)


theorem google_keeps_its_first_token_witness:
  "\<exists>gs new n1. google_session (logged_net (sample_net [])) sample_credentials [((9999, 9999), PauseCampaign ''r'', ''c1'')]
      (\<lparr>gs_access_token = Some ''t'', gs_expires_at = Fin 3600,
        gs_http = Some (new_http_client GOOGLE_ADS_API_BASE 30 3 (google_headers sample_credentials ''t''))\<rparr>, ([], 0)) = (gs, (new, n1))
    \<and> token_request sample_credentials \<notin> set new"
proof -
  let ?g = "\<lparr>gs_access_token = Some ''t'', gs_expires_at = Fin 3600,
     gs_http = Some (new_http_client GOOGLE_ADS_API_BASE 30 3 (google_headers sample_credentials ''t''))\<rparr>"
  have "\<not> still_fresh 9999 (gs_expires_at ?g)" by (simp add: still_fresh_def)
  from google_keeps_its_first_token [where g = ?g and k = sample_credentials and token = "''t''" and nt = "sample_net []" and n = 0
      and later = 9999 and xs = "[((9999, 9999), PauseCampaign ''r'', ''c1'')]", OF _ this]
  show ?thesis by auto
qed

theorem networks_are_asked_for_the_same_amount_witness:
  "wr_params (meta_sends (\<lambda>j. []) (accounts_of sample_networks) (UpdateBudget (1999 / 100)) ''c1'') = [(''daily_budget'', JInt 1999)]"
  using networks_are_asked_for_the_same_amount [of "1999 / 100" 1999 "\<lambda>j. []" "accounts_of sample_networks" "''c1''"] by simp

theorem tiktok_error_becomes_an_empty_report_witness:
  "tiktok_fetch_report (sample_net [(''code'', JInt 40105), (''message'', JStr ''expired'')]) (an_tiktok sample_networks) ''c1'' ''a'' ''b'' 0
     = (Inr (report ''c1'' ''tiktok'' []), 0)"
  using tiktok_error_becomes_an_empty_report [of "sample_net [(''code'', JInt 40105), (''message'', JStr ''expired'')]"
      "[(''code'', JInt 40105), (''message'', JStr ''expired'')]" "an_tiktok sample_networks" 40105 "''c1''" "''a''" "''b''" 0]
  by (simp add: sample_net_def tiktok_configured_def sample_networks_def)

end
