(* ===== verification/Calendar.thy ===== *)
theory Calendar
  imports Dates PyFloat
begin

text \<open>
  \<open>date.fromisoformat\<close> on ten characters, with the day numbers of CPython's \<open>datetime\<close>: days before a year and
  before a month, and the ISO week date. The theorem is the round trip with \<open>isoformat\<close>, which theory Dates
  computes by another algorithm.
\<close>

subsection \<open>Ordinals\<close>

definition is_leap :: "int \<Rightarrow> bool" where
  "is_leap y \<longleftrightarrow> y mod 4 = 0 \<and> (y mod 100 \<noteq> 0 \<or> y mod 400 = 0)"

definition days_before_year :: "int \<Rightarrow> int" where
  "days_before_year y = (let p = y - 1 in p * 365 + p div 4 - p div 100 + p div 400)"

definition days_in_month :: "int \<Rightarrow> int \<Rightarrow> int" where
  "days_in_month y m = (if m = 2 \<and> is_leap y then 29 else [31, 28, 31, 30, 31, 30, 31, 31, 30, 31, 30, 31] ! nat (m - 1))"

definition days_before_month :: "int \<Rightarrow> int \<Rightarrow> int" where
  "days_before_month y m =
     [0, 31, 59, 90, 120, 151, 181, 212, 243, 273, 304, 334] ! nat (m - 1) + (if 2 < m \<and> is_leap y then 1 else 0)"

definition ymd_to_ordinal :: "int \<Rightarrow> int \<Rightarrow> int \<Rightarrow> int" where
  "ymd_to_ordinal y m d = days_before_year y + days_before_month y m + d"

definition EPOCH_ORDINAL :: int where "EPOCH_ORDINAL = 719163"
definition MAX_ORDINAL :: int where "MAX_ORDINAL = 3652059"

text \<open>\<open>date(y, m, d)\<close>, as a day number; the constructor raises on anything that is not a date.\<close>

definition make_date :: "int \<Rightarrow> int \<Rightarrow> int \<Rightarrow> int option" where
  "make_date y m d =
     (if 1 \<le> y \<and> y \<le> 9999 \<and> 1 \<le> m \<and> m \<le> 12 \<and> 1 \<le> d \<and> d \<le> days_in_month y m
      then Some (ymd_to_ordinal y m d - EPOCH_ORDINAL) else None)"

subsection \<open>ISO weeks\<close>

definition iso_week1_monday :: "int \<Rightarrow> int" where
  "iso_week1_monday y =
     (let firstday = ymd_to_ordinal y 1 1; firstweekday = (firstday + 6) mod 7; monday = firstday - firstweekday
      in if 3 < firstweekday then monday + 7 else monday)"

definition make_week_date :: "int \<Rightarrow> int \<Rightarrow> int \<Rightarrow> int option" where
  "make_week_date y w d =
     (let first = ymd_to_ordinal y 1 1 mod 7; long_year = (first = 4 \<or> first = 3 \<and> is_leap y);
          ord = iso_week1_monday y + (w - 1) * 7 + (d - 1)
      in if 1 \<le> y \<and> y \<le> 9999 \<and> (0 < w \<and> w < 53 \<or> w = 53 \<and> long_year) \<and> 0 < d \<and> d < 8 \<and> 1 \<le> ord \<and> ord \<le> MAX_ORDINAL
         then Some (ord - EPOCH_ORDINAL) else None)"

definition number_of :: "string \<Rightarrow> int option" where
  "number_of s = (if list_all is_digit s then Some (int (nat_of_digits s)) else None)"

text \<open>\<open>date.fromisoformat(s)\<close> for a string of ten characters; \<open>None\<close> is its \<open>ValueError\<close>.\<close>

definition from_isoformat :: "string \<Rightarrow> int option" where
  "from_isoformat s =
     (if length s \<noteq> 10 \<or> s ! 4 \<noteq> CHR ''-'' then None
      else if s ! 5 = CHR ''W''
      then (if s ! 8 \<noteq> CHR ''-'' then None
            else case (number_of (take 4 s), number_of (take 2 (drop 6 s)), number_of (drop 9 s)) of
                   (Some y, Some w, Some d) \<Rightarrow> make_week_date y w d | _ \<Rightarrow> None)
      else if s ! 7 \<noteq> CHR ''-'' then None
      else (case (number_of (take 4 s), number_of (take 2 (drop 5 s)), number_of (drop 8 s)) of
              (Some y, Some m, Some d) \<Rightarrow> make_date y m d | _ \<Rightarrow> None))"

subsection \<open>Two calendars\<close>

text \<open>The first day of the \<open>y\<close>-th year of an era of 400 years that begins in March.\<close>

definition year_start :: "int \<Rightarrow> int" where
  "year_start y = 365 * y + y div 4 - y div 100"

definition year_index :: "int \<Rightarrow> int" where
  "year_index doe = doe - doe div 1460 + doe div 36524 - doe div 146096"

lemma div_succ:
  assumes "0 < k"
  shows "(n + 1) div k = n div k + (if k dvd n + 1 then 1 else (0 :: int))"
proof (cases "k dvd n + 1")
  case True
  then obtain q where q: "n + 1 = k * q" by blast
  then have "n = k * (q - 1) + (k - 1)" by (simp add: algebra_simps)
  then have "n div k = q - 1" using assms by (intro int_div_pos_eq [of _ _ _ "k - 1"]) simp_all
  then show ?thesis using True q assms by simp
next
  case False
  have "n mod k \<noteq> k - 1"
  proof
    assume "n mod k = k - 1"
    then have "n + 1 = k * (n div k) + k" using mult_div_mod_eq [of k n] by linarith
    then have "n + 1 = k * (n div k + 1)" by (simp add: distrib_left)
    then show False using False by simp
  qed
  then have r: "n mod k + 1 < k" "0 \<le> n mod k" using pos_mod_bound [OF assms, of n] pos_mod_sign [OF assms, of n] by simp_all
  have "n + 1 = k * (n div k) + (n mod k + 1)" using mult_div_mod_eq [of k n] by simp
  then have "(n + 1) div k = n div k" by (rule int_div_pos_eq) (use r in simp_all)
  then show ?thesis using False by simp
qed

lemma century_dvd: "(146096 :: int) dvd n \<Longrightarrow> 36524 dvd n"
proof -
  assume "146096 dvd n"
  then obtain k where "n = 36524 * (4 * k)" by (auto elim!: dvdE)
  then show ?thesis by (rule dvdI)
qed

lemma year_index_step: "year_index n \<le> year_index (n + 1)"
  using century_dvd [of "n + 1"] by (simp add: year_index_def div_succ)

lemma year_index_mono: "a \<le> b \<Longrightarrow> year_index a \<le> year_index b"
proof -
  assume a: "a \<le> b"
  have "year_index a \<le> year_index (a + int n)" for n
  proof (induction n)
    case (Suc n)
    then show ?case using year_index_step [of "a + int n"] a by (simp add: algebra_simps)
  qed simp
  from this [of "nat (b - a)"] a show ?thesis by simp
qed

text \<open>Within an era the years are found exactly.\<close>

lemma year_parts:
  assumes "0 \<le> y" "y < 400" "q = y div 4" "r = y mod 4" "b = y div 100"
  shows "year_start y = 1460 * q + (365 * r + q - b)" "0 \<le> 365 * r + q - b" "365 * r + q - b < 1460"
    and "year_start y = 36524 * b + (365 * (y - 100 * b) + (q - 25 * b))"
    and "0 \<le> 365 * (y - 100 * b) + (q - 25 * b)" "365 * (y - 100 * b) + (q - 25 * b) < 36524"
    and "0 \<le> b" "b \<le> 3" "1 \<le> y \<Longrightarrow> 0 < 365 * r + q - b" "1 \<le> y \<Longrightarrow> 0 < year_start y"
proof -
  have y: "y = 4 * q + r" "0 \<le> r" "r \<le> 3" using assms(3,4) by simp_all
  have c: "100 * b \<le> y" "y \<le> 100 * b + 99" using assms(5) by simp_all
  have p: "0 \<le> b" "b \<le> 3" "25 * b \<le> q" "q \<le> 25 * b + 24" "0 \<le> q" "q \<le> 99"
    using assms(1,2) y c by linarith+
  have s: "year_start y = 365 * y + q - b" by (simp add: year_start_def assms(3,5))
  show "year_start y = 1460 * q + (365 * r + q - b)" using s y(1) by linarith
  show "year_start y = 36524 * b + (365 * (y - 100 * b) + (q - 25 * b))" unfolding s by simp
  show "0 \<le> b" "b \<le> 3" by (rule p)+
  have "b \<le> q" using p by linarith
  then show "0 \<le> 365 * r + q - b" "365 * r + q - b < 1460" using y(2,3) p by linarith+
  define u v where "u = y - 100 * b" and "v = q - 25 * b"
  have "0 \<le> u" "u \<le> 99" "0 \<le> v" "v \<le> 24" using c p by (simp_all add: u_def v_def)
  then have "0 \<le> 365 * u + v \<and> 365 * u + v < 36524" by linarith
  then show "0 \<le> 365 * (y - 100 * b) + (q - 25 * b)" "365 * (y - 100 * b) + (q - 25 * b) < 36524" by (simp_all add: u_def v_def)
  show "0 < 365 * r + q - b" if "1 \<le> y" using that y p \<open>b \<le> q\<close> by linarith
  show "0 < year_start y" if "1 \<le> y" using that p s by linarith
qed

text \<open>Arithmetic over plain variables, so that no decision procedure looks into the quotients.\<close>

lemma index_of: "n div 1460 = a \<Longrightarrow> n div 36524 = b \<Longrightarrow> n div 146096 = c \<Longrightarrow> year_index n = n - a + b - c"
  by (simp only: year_index_def)

lemma century_bound: "s = 36524 * b + x \<Longrightarrow> x < 36524 \<Longrightarrow> b \<le> 3 \<Longrightarrow> s < (146096 :: int)"
  by linarith

lemma cancel_quotients: "365 * y + a - b - a + b - 0 = 365 * (y :: int)"
  by simp

lemma year_start_nonneg: "0 \<le> y \<Longrightarrow> y < 400 \<Longrightarrow> 0 \<le> year_start y"
  using year_parts(10) [of y, OF _ _ refl refl refl] by (cases "y = 0") (simp_all add: year_start_def)

lemma year_index_start:
  assumes "0 \<le> y" "y < 400"
  shows "year_index (year_start y) = 365 * y"
proof -
  note p = year_parts [OF assms refl refl refl]
  have "year_start y div 1460 = y div 4" by (rule int_div_pos_eq [OF p(1-3)])
  moreover have "year_start y div 36524 = y div 100" by (rule int_div_pos_eq [OF p(4-6)])
  moreover have "year_start y div 146096 = 0"
    by (rule div_pos_pos_trivial [OF _ century_bound [OF p(4,6,8)]]) (rule year_start_nonneg [OF assms])
  ultimately have "year_index (year_start y) = year_start y - y div 4 + y div 100 - 0" by (rule index_of)
  then show ?thesis unfolding year_start_def [of y] cancel_quotients .
qed

lemma year_index_before:
  assumes "1 \<le> y" "y < 400"
  shows "year_index (year_start y - 1) \<le> 365 * y - 1"
proof -
  have y: "0 \<le> y" using assms by simp
  note p = year_parts [OF y assms(2) refl refl refl]
  have "0 < year_start y mod 1460" unfolding int_mod_pos_eq [OF p(1-3)] by (rule p(9) [OF assms(1)])
  then have a: "\<not> 1460 dvd year_start y" by (metis dvd_eq_mod_eq_0 less_irrefl)
  have "year_start y < 146096" by (rule century_bound [OF p(4,6,8)])
  then have c: "\<not> 146096 dvd year_start y" using p(10) assms(1) by (simp add: zdvd_not_zless)
  have "year_index (year_start y) = year_index (year_start y - 1) + 1 + (if 36524 dvd year_start y then 1 else 0)"
    using div_succ [of 1460 "year_start y - 1"] div_succ [of 36524 "year_start y - 1"] div_succ [of 146096 "year_start y - 1"] a c
    by (simp add: year_index_def)
  then show ?thesis using year_index_start [OF y assms(2)] by (simp split: if_splits)
qed

lemma year_of_day:
  assumes "0 \<le> doe" "doe < 146097" "y = year_index doe div 365"
  shows "0 \<le> y" "y < 400" "year_start y \<le> doe" "doe < (if y = 399 then 146097 else year_start (y + 1))"
proof -
  have "year_index 0 \<le> year_index doe" "year_index doe \<le> year_index 146096" using assms by (auto intro: year_index_mono)
  then have i: "0 \<le> year_index doe" "year_index doe \<le> 145999" by (simp_all add: year_index_def)
  have e: "year_index doe = 365 * y + year_index doe mod 365" "0 \<le> year_index doe mod 365" "year_index doe mod 365 < 365"
    unfolding assms(3) by simp_all
  then show y: "0 \<le> y" "y < 400" using i by linarith+
  have d: "365 * y \<le> year_index doe" "year_index doe < 365 * y + 365" using e by linarith+
  show "year_start y \<le> doe"
  proof (rule ccontr)
    assume n: "\<not> ?thesis"
    then have "1 \<le> y" using assms(1) y by (cases "y = 0") (auto simp: year_start_def)
    then have "year_index (year_start y - 1) \<le> 365 * y - 1" using year_index_before [of y] y by simp
    moreover have "year_index doe \<le> year_index (year_start y - 1)" using n by (intro year_index_mono) simp
    ultimately show False using d by simp
  qed
  show "doe < (if y = 399 then 146097 else year_start (y + 1))"
  proof (rule ccontr)
    assume n: "\<not> ?thesis"
    then have "y + 1 < 400" "year_start (y + 1) \<le> doe" using assms(2) y by (auto split: if_splits)
    then have "365 * y + 365 \<le> year_index doe" using year_index_start [of "y + 1"] y year_index_mono [of "year_start (y + 1)" doe] by simp
    then show False using d by simp
  qed
qed

definition days_before_march :: "int \<Rightarrow> int" where
  "days_before_march mp = (153 * mp + 2) div 5"

lemma march_months:
  assumes "0 \<le> doy" "doy \<le> 365" "mp = (5 * doy + 2) div 153" "d = doy - days_before_march mp + 1"
  shows "0 \<le> mp" "mp \<le> 11" "1 \<le> d" "d \<le> [31, 30, 31, 30, 31, 31, 30, 31, 30, 31, 31, 29] ! nat mp"
    "doy \<le> 364 \<Longrightarrow> mp = 11 \<Longrightarrow> d \<le> 28"
proof -
  have e: "153 * mp \<le> 5 * doy + 2" "5 * doy + 2 \<le> 153 * mp + 152" using assms(3) by simp_all
  show mp: "0 \<le> mp" "mp \<le> 11" using e assms(1,2) by linarith+
  have "mp = 0 \<or> mp = 1 \<or> mp = 2 \<or> mp = 3 \<or> mp = 4 \<or> mp = 5 \<or> mp = 6 \<or> mp = 7 \<or> mp = 8 \<or> mp = 9 \<or> mp = 10 \<or> mp = 11"
    using mp by presburger
  then have "1 \<le> d \<and> d \<le> [31, 30, 31, 30, 31, 31, 30, 31, 30, 31, 31, 29] ! nat mp \<and> (doy \<le> 364 \<and> mp = 11 \<longrightarrow> d \<le> 28)"
    unfolding assms(4) days_before_march_def by (elim disjE) (use e assms(2) in simp)+
  then show "1 \<le> d" "d \<le> [31, 30, 31, 30, 31, 31, 30, 31, 30, 31, 31, 29] ! nat mp" "doy \<le> 364 \<Longrightarrow> mp = 11 \<Longrightarrow> d \<le> 28"
    by blast+
qed

lemma leap_fold: "n = y * 365 + (a + A) - (b + B) + (c + C) \<Longrightarrow> m = (y - 1) * 365 + a - b + c \<Longrightarrow> A - B + C = L \<Longrightarrow> n = m + 365 + (L :: int)"
  by (simp add: left_diff_distrib)

lemma leap_years: "days_before_year (y + 1) = days_before_year y + 365 + (if is_leap y then 1 else 0)"
proof -
  have l: "is_leap y \<longleftrightarrow> 4 dvd y \<and> (\<not> 100 dvd y \<or> 400 dvd y)" by (simp add: is_leap_def dvd_eq_mod_eq_0)
  have q: "y div k = (y - 1) div k + (if k dvd y then 1 else 0)" if "0 < k" for k
    using div_succ [OF that, of "y - 1"] by simp
  have d: "100 dvd y \<Longrightarrow> 4 dvd y" "400 dvd y \<Longrightarrow> 100 dvd y"
    using dvd_trans [of 4 100 y] dvd_trans [of 100 400 y] by simp_all
  have "(if A then 1 else 0) - (if B then 1 else 0) + (if C then 1 else 0) = (if A \<and> (\<not> B \<or> C) then 1 else (0 :: int))"
    if "B \<Longrightarrow> A" "C \<Longrightarrow> B" for A B C
    by (cases A; cases B; cases C) (use that in simp_all)
  from leap_fold [OF _ _ this [OF d]]
  show ?thesis
    unfolding l days_before_year_def Let_def add_diff_cancel_right' q [of 4, OF zero_less_numeral] q [of 100, OF zero_less_numeral]
      q [of 400, OF zero_less_numeral] by blast
qed

text \<open>The days before the year in terms of the era.\<close>

lemma era_fold: "(y + e * 400) * 365 + (e * 100 + a) - (e * 4 + b) + e = e * 146097 + (365 * y + a - (b :: int))"
  by (simp add: distrib_right)

lemma days_before_era:
  assumes "0 \<le> yoe" "yoe < 400"
  shows "days_before_year (yoe + era * 400 + 1) = era * 146097 + year_start yoe"
proof -
  have e: "era * 400 = era * 100 * 4" "era * 400 = era * 4 * 100" by simp_all
  have "(yoe + era * 400) div 4 = era * 100 + yoe div 4" unfolding e(1) by (rule div_mult_self1) simp
  moreover have "(yoe + era * 400) div 100 = era * 4 + yoe div 100" unfolding e(2) by (rule div_mult_self1) simp
  moreover have "(yoe + era * 400) div 400 = era"
    using div_mult_self1 [of 400 yoe era] div_pos_pos_trivial [OF assms] by simp
  ultimately have "days_before_year (yoe + era * 400 + 1) = (yoe + era * 400) * 365 + (era * 100 + yoe div 4) - (era * 4 + yoe div 100) + era"
    by (simp only: days_before_year_def Let_def add_diff_cancel_right')
  also have "\<dots> = era * 146097 + year_start yoe" unfolding year_start_def by (rule era_fold)
  finally show ?thesis .
qed

lemma leap_era: "is_leap (yoe + era * 400) = is_leap yoe"
proof -
  have "(yoe + era * 400) mod 4 = yoe mod 4" "(yoe + era * 400) mod 100 = yoe mod 100" "(yoe + era * 400) mod 400 = yoe mod 400"
    using mod_mult_self1 [of yoe "era * 100" 4] mod_mult_self1 [of yoe "era * 4" 100] mod_mult_self1 [of yoe era 400] by (simp_all add: mult.assoc)
  then show ?thesis by (simp add: is_leap_def)
qed

text \<open>The date of a day, counted from the first of March of a year.\<close>

lemma civil_parts:
  assumes "civil_of_days z = (y, m, d)"
  obtains Y doy mp where "0 \<le> doy" "doy \<le> 364 + (if is_leap (Y + 1) then 1 else 0)" "mp = (5 * doy + 2) div 153"
    "d = doy - days_before_march mp + 1" "m = (if mp < 10 then mp + 3 else mp - 9)" "y = (if m \<le> 2 then Y + 1 else Y)"
    "z + 719468 = days_before_year (Y + 1) + doy"
proof -
  define era doe where "era = (z + 719468) div 146097" and "doe = (z + 719468) mod 146097"
  define yoe where "yoe = year_index doe div 365"
  define doy where "doy = doe - year_start yoe"
  define mp where "mp = (5 * doy + 2) div 153"
  have doe: "0 \<le> doe" "doe < 146097" by (simp_all add: doe_def)
  note yoe = year_of_day [OF doe yoe_def]
  have z: "z + 719468 = era * 146097 + doe" unfolding era_def doe_def by (rule div_mult_mod_eq [symmetric])
  have len: "doy \<le> 364 + (if is_leap (yoe + era * 400 + 1) then 1 else 0)"
  proof (cases "yoe = 399")
    case True
    have "is_leap 400" by (simp add: is_leap_def)
    then have "is_leap (yoe + era * 400 + 1)" using leap_era [of 400 era] True by (simp add: algebra_simps)
    then show ?thesis using doe(2) True by (simp add: doy_def year_start_def)
  next
    case False
    have "days_before_year (yoe + 1 + 0 * 400 + 1) = days_before_year (yoe + 1) + 365 + (if is_leap (yoe + 1) then 1 else 0)"
      using leap_years [of "yoe + 1"] by simp
    moreover have "days_before_year (yoe + 1 + 0 * 400 + 1) = year_start (yoe + 1)"
      using days_before_era [of "yoe + 1" 0] yoe(1,2) False by simp
    moreover have "days_before_year (yoe + 1) = year_start yoe" using days_before_era [of yoe 0] yoe(1,2) by simp
    moreover have "is_leap (yoe + era * 400 + 1) = is_leap (yoe + 1)" using leap_era [of "yoe + 1" era] by (simp add: algebra_simps)
    ultimately show ?thesis using yoe(4) False by (simp add: doy_def)
  qed
  have "civil_of_days z = (if (if mp < 10 then mp + 3 else mp - 9) \<le> 2 then yoe + era * 400 + 1 else yoe + era * 400,
      if mp < 10 then mp + 3 else mp - 9, doy - days_before_march mp + 1)"
    unfolding civil_of_days_def Let_def era_def [symmetric] doe_def [symmetric] year_index_def [symmetric] yoe_def [symmetric]
      year_start_def [symmetric] doy_def [symmetric] days_before_march_def [symmetric] mp_def [symmetric] by (rule refl)
  then have ymd: "y = (if m \<le> 2 then yoe + era * 400 + 1 else yoe + era * 400)" "m = (if mp < 10 then mp + 3 else mp - 9)"
    "d = doy - days_before_march mp + 1"
    using assms by simp_all
  have "z + 719468 = days_before_year (yoe + era * 400 + 1) + doy"
    unfolding z days_before_era [OF yoe(1,2)] doy_def by (simp only: diff_add_cancel add.assoc add_diff_eq add_diff_cancel_left')
  moreover have "0 \<le> doy" using yoe(3) by (simp only: doy_def diff_ge_0_iff_ge)
  ultimately show ?thesis using len ymd by (intro that [of doy "yoe + era * 400" mp]) (simp_all only: mp_def)
qed

lemma march_list:
  "0 \<le> mp \<Longrightarrow> mp \<le> (11 :: int) \<Longrightarrow>
     (\<And>k. k \<in> {0, 1, 2, 3, 4, 5, 6, 7, 8, 9, 10, 11} \<Longrightarrow> P k) \<Longrightarrow> P mp"
proof -
  assume mp: "0 \<le> mp" "mp \<le> 11" and P: "\<And>k. k \<in> {0, 1, 2, 3, 4, 5, 6, 7, 8, 9, 10, 11} \<Longrightarrow> P k"
  have "mp = 0 \<or> mp = 1 \<or> mp = 2 \<or> mp = 3 \<or> mp = 4 \<or> mp = 5 \<or> mp = 6 \<or> mp = 7 \<or> mp = 8 \<or> mp = 9 \<or> mp = 10 \<or> mp = 11"
    using mp by presburger
  then show "P mp" by (intro P) simp
qed

lemma month_matches:
  assumes "0 \<le> mp" "mp \<le> 11" "m = (if mp < 10 then mp + 3 else mp - 9)"
  shows "1 \<le> m" "m \<le> 12" "m \<le> 2 \<longleftrightarrow> 10 \<le> mp"
    and "3 \<le> m \<Longrightarrow> days_before_month y m = days_before_march mp + 59 + (if is_leap y then 1 else 0)"
    and "m \<le> 2 \<Longrightarrow> days_before_month y m = days_before_march mp - 306"
    and "days_in_month y m = (if mp = 11 then 28 + (if is_leap y then 1 else 0)
           else [31, 30, 31, 30, 31, 31, 30, 31, 30, 31, 31, 29] ! nat mp)"
proof -
  show "1 \<le> m" "m \<le> 12" "m \<le> 2 \<longleftrightarrow> 10 \<le> mp" using assms by (auto split: if_splits)
  show "3 \<le> m \<Longrightarrow> days_before_month y m = days_before_march mp + 59 + (if is_leap y then 1 else 0)"
    using assms(3) by (induction rule: march_list [OF assms(1,2)])
      (elim insertE emptyE; simp add: days_before_month_def days_before_march_def)
  show "m \<le> 2 \<Longrightarrow> days_before_month y m = days_before_march mp - 306"
    using assms(3) by (induction rule: march_list [OF assms(1,2)])
      (elim insertE emptyE; simp add: days_before_month_def days_before_march_def)
  show "days_in_month y m = (if mp = 11 then 28 + (if is_leap y then 1 else 0)
           else [31, 30, 31, 30, 31, 31, 30, 31, 30, 31, 31, 29] ! nat mp)"
    using assms(3) by (induction rule: march_list [OF assms(1,2)])
      (elim insertE emptyE; simp add: days_in_month_def)
qed

lemma make_date_civil:
  assumes "civil_of_days z = (y, m, d)" "1 \<le> y" "y \<le> 9999"
  shows "make_date y m d = Some z" "1 \<le> m" "m \<le> 12" "1 \<le> d" "d \<le> 31"
proof -
  from assms(1) obtain Y doy mp where c: "0 \<le> doy" "doy \<le> 364 + (if is_leap (Y + 1) then 1 else 0)" "mp = (5 * doy + 2) div 153"
    "d = doy - days_before_march mp + 1" "m = (if mp < 10 then mp + 3 else mp - 9)" "y = (if m \<le> 2 then Y + 1 else Y)"
    "z + 719468 = days_before_year (Y + 1) + doy" by (rule civil_parts)
  have l: "doy \<le> 365" using c(2) by (simp split: if_splits)
  note mm = march_months [OF c(1) l c(3,4)]
  note k = month_matches [OF mm(1,2) c(5)]
  have d: "d \<le> days_in_month y m"
    using mm(4,5) c(2,6) k(3) unfolding k(6) by (auto split: if_splits)
  have "[31, 30, 31, 30, 31, 31, 30, 31, 30, 31, 31, 29 :: int] ! nat mp \<le> 31"
    by (induction rule: march_list [OF mm(1,2)]) (elim insertE emptyE; simp)
  then show "d \<le> 31" using mm(4) by simp
  show "1 \<le> m" "m \<le> 12" "1 \<le> d" by (rule k mm)+
  have "ymd_to_ordinal y m d = z + 719163"
  proof (cases "m \<le> 2")
    case True
    then show ?thesis using c(4,6,7) k(5) [OF True, of y] by (simp add: ymd_to_ordinal_def)
  next
    case False
    then show ?thesis using c(4,6,7) k(4) [of y] leap_years [of Y] by (simp add: ymd_to_ordinal_def)
  qed
  then show "make_date y m d = Some z" using assms(2,3) k(1,2) mm(3) d by (simp add: make_date_def EPOCH_ORDINAL_def)
qed

lemma number_of_pad: "number_of (pad_digits k n) = Some (int (n mod 10 ^ k))"
  using pad_digits_digits [of k n] nat_of_digits_pad [of "[]" k n] by (simp add: number_of_def nat_of_digits_def)

lemma digit_char_not_W: "digit_char (n mod 10) \<noteq> CHR ''W''"
proof
  assume "digit_char (n mod 10) = CHR ''W''"
  moreover have "is_digit (digit_char (n mod 10))" using pad_digits_digits [of 1 n] by simp
  ultimately show False by (simp add: is_digit_def)
qed

lemma from_isoformat_parts:
  assumes "length a = 4" "length b = 2" "length c = 2" "number_of a = Some y" "number_of b = Some m" "number_of c = Some d"
    and "hd b \<noteq> CHR ''W''"
  shows "from_isoformat (a @ ''-'' @ b @ ''-'' @ c) = make_date y m d"
proof -
  from assms(1) obtain a0 a1 a2 a3 where a: "a = [a0, a1, a2, a3]" by (auto simp: numeral_eq_Suc length_Suc_conv)
  from assms(2) obtain b0 b1 where b: "b = [b0, b1]" by (auto simp: numeral_eq_Suc length_Suc_conv)
  from assms(3) obtain c0 c1 where c: "c = [c0, c1]" by (auto simp: numeral_eq_Suc length_Suc_conv)
  show ?thesis using assms(4-7) unfolding a b c by (simp add: from_isoformat_def)
qed

lemma from_isoformat_iso_date:
  assumes "civil_of_days z = (y, m, d)" "1 \<le> y" "y \<le> 9999"
  shows "from_isoformat (iso_date z) = Some z"
proof -
  note k = make_date_civil [OF assms]
  have n: "number_of (pad_digits 4 (nat y)) = Some y" "number_of (pad_digits 2 (nat m)) = Some m" "number_of (pad_digits 2 (nat d)) = Some d"
    using assms(2,3) k(2-5) by (simp_all add: number_of_pad)
  have "hd (pad_digits 2 (nat m)) \<noteq> CHR ''W''" by (simp add: pad_digits_2 digit_char_not_W)
  then have "from_isoformat (iso_date z) = make_date y m d"
    unfolding iso_date_def assms(1) prod.case by (intro from_isoformat_parts n) simp_all
  then show ?thesis using k(1) by simp
qed

lemma length_iso_date: "length (iso_date z) = 10"
  by (simp add: iso_date_def split: prod.split)

end
