(* ===== verification/Feeds.thy ===== *)
theory Feeds
  imports AdsFlow IngestFlow Calendar
begin

text \<open>
  The two feeds behind the registry of \<open>infra/ingest/registry.py\<close>: \<open>infra/ingest/platform_report.py\<close>, over the report
  operation of the adapters, and \<open>infra/ingest/synthetic.py\<close>, whose generator is an argument: what the seeded
  generator of a key draws, by the position and the bounds of the draw.
\<close>

subsection \<open>The platform feed\<close>

text \<open>One row of a feed. Costs are Python floats here, for a network may report \<open>inf\<close> or \<open>nan\<close>.\<close>

record feed_row =
  fr_target :: source_target
  fr_stat_date :: int
  fr_impressions :: "int option"
  fr_clicks :: "int option"
  fr_conversions :: "int option"
  fr_cost :: "pyfloat option"

definition parse_stat_date :: "json \<Rightarrow> int option" where
  "parse_stat_date v = (case v of JStr s \<Rightarrow> if length (strip s) < 10 then None else from_isoformat (take 10 (strip s)) | _ \<Rightarrow> None)"

text \<open>\<open>float(value)\<close> where only \<open>TypeError\<close> and \<open>ValueError\<close> are caught.\<close>

definition float_given :: "json \<Rightarrow> pyfloat option" where
  "float_given v =
     (case v of JBool b \<Rightarrow> Some (Fin (if b then 1 else 0)) | JInt n \<Rightarrow> Some (Fin (of_int n)) | JFloat x \<Rightarrow> Some x
        | JStr s \<Rightarrow> parse_float s | _ \<Rightarrow> None)"

definition as_int :: "json \<Rightarrow> (py_error, int option) res" where
  "as_int v =
     (case float_given v of
        None \<Rightarrow> Inr None
      | Some NaN \<Rightarrow> Inr None
      | Some x \<Rightarrow> bind_res (int_of_float x) (\<lambda>n. Inr (Some n)))"

definition as_float :: "json \<Rightarrow> pyfloat option" where
  "as_float v = map_option (round_float 4) (float_given v)"

definition to_record :: "source_target \<Rightarrow> json \<Rightarrow> (py_error, feed_row option) res" where
  "to_record t j =
     (case j of
        JDict row \<Rightarrow>
          (case parse_stat_date (get_or ''date'' JNull row) of
             None \<Rightarrow> Inr None
           | Some d \<Rightarrow>
               bind_res (as_int (get_or ''impressions'' JNull row)) (\<lambda>shown.
               bind_res (as_int (get_or ''clicks'' JNull row)) (\<lambda>clicked.
               bind_res (as_int (get_or ''conversions'' JNull row)) (\<lambda>converted.
                 Inr (Some \<lparr>fr_target = t, fr_stat_date = d, fr_impressions = shown, fr_clicks = clicked, fr_conversions = converted,
                            fr_cost = as_float (get_or ''cost'' JNull row)\<rparr>)))))
      | _ \<Rightarrow> Inr None)"

definition platform_configured :: "ad_networks \<Rightarrow> bool" where
  "platform_configured an \<longleftrightarrow> \<not> ar_mock_mode (registry_of an)
     \<and> list_ex (\<lambda>p. p \<in> set (ar_configured (registry_of an))) (ar_registered (registry_of an))"

definition rows_of :: "json_dict \<Rightarrow> (py_error, json list) res" where
  "rows_of payload = (let j = get_or ''rows'' JNull payload in if json_truthy j then iterate j else Inr [])"

text \<open>One report per target, in order; the first error ends the fetch.\<close>

fun fetch_targets :: "'n net \<Rightarrow> ad_networks \<Rightarrow> real \<times> real \<Rightarrow> string \<Rightarrow> string \<Rightarrow> source_target list \<Rightarrow> 'n ads_world
   \<Rightarrow> (py_error, feed_row list) res \<times> 'n ads_world" where
  "fetch_targets nt an clock start stop [] w = (Inr [], w)"
| "fetch_targets nt an clock start stop (t # ts) w =
     (case fetch_report nt an clock (tg_platform t) (tg_external_id t) start stop w of
        (Inl e, w1) \<Rightarrow> (Inl e, w1)
      | (Inr payload, w1) \<Rightarrow>
          (case bind_res (rows_of payload) (map_res (to_record t)) of
             Inl e \<Rightarrow> (Inl e, w1)
           | Inr rows \<Rightarrow>
               (case fetch_targets nt an clock start stop ts w1 of
                  (Inl e, w2) \<Rightarrow> (Inl e, w2)
                | (Inr rest, w2) \<Rightarrow> (Inr (List.map_filter id rows @ rest), w2))))"

definition window_error :: "int \<Rightarrow> int \<Rightarrow> py_error" where
  "window_error start final = ValueError (''end precedes start: '' @ iso_date start @ '' > '' @ iso_date final)"

definition platform_fetch :: "'n net \<Rightarrow> ad_networks \<Rightarrow> real \<times> real \<Rightarrow> int \<Rightarrow> int \<Rightarrow> source_target list \<Rightarrow> 'n ads_world
   \<Rightarrow> (py_error, feed_row list) res \<times> 'n ads_world" where
  "platform_fetch nt an clock start final ts w =
     (if final < start then (Inl (window_error start final), w)
      else if \<not> platform_configured an
      then (Inl (ExternalServiceError (''The platform report source needs DATA_MODE=warehouse and at least one ''
             @ ''configured adapter; run `adoptimizer creds` to see what is missing'')), w)
      else fetch_targets nt an clock (iso_date start) (iso_date final) ts w)"

text \<open>The record of a row with a finite cost, which is what theory Ingest models.\<close>

definition row_record :: "feed_row \<Rightarrow> source_record option" where
  "row_record r =
     (let rec = (\<lambda>c. \<lparr>mi_platform = Some (tg_platform (fr_target r)), mi_external_id = Some (tg_external_id (fr_target r)),
            mi_campaign_id = Some (tg_campaign_id (fr_target r)), mi_creative_id = None, mi_stat_date = fr_stat_date r,
            mi_measured = \<lparr>ms_impressions = fr_impressions r, ms_clicks = fr_clicks r, ms_conversions = fr_conversions r, ms_cost = c,
              ms_revenue = None, ms_unique_reach = None\<rparr>\<rparr>)
      in case fr_cost r of None \<Rightarrow> Some (rec None) | Some (Fin x) \<Rightarrow> Some (rec (Some x)) | _ \<Rightarrow> None)"

subsection \<open>The synthetic feed\<close>

text \<open>What \<open>random.Random(key)\<close> yields: the first integer, and the \<open>i\<close>-th uniform draw between two bounds.\<close>

record generator =
  gn_randint :: "string \<Rightarrow> int \<Rightarrow> int \<Rightarrow> int"
  gn_uniform :: "string \<Rightarrow> nat \<Rightarrow> real \<Rightarrow> real \<Rightarrow> real"

definition SYNTHETIC_SEED :: int where "SYNTHETIC_SEED = 20260909"
definition IMPRESSION_FLOOR :: int where "IMPRESSION_FLOOR = 4000"
definition IMPRESSION_SPAN :: int where "IMPRESSION_SPAN = 176000"
definition CTR_RANGE :: "real \<times> real" where "CTR_RANGE = (8 / 1000, 55 / 1000)"
definition CVR_RANGE :: "real \<times> real" where "CVR_RANGE = (15 / 1000, 90 / 1000)"
definition CPC_RANGE :: "real \<times> real" where "CPC_RANGE = (35 / 100, 260 / 100)"
definition AOV_RANGE :: "real \<times> real" where "AOV_RANGE = (45, 320)"
definition REACH_DIVISOR_RANGE :: "real \<times> real" where "REACH_DIVISOR_RANGE = (16 / 10, 32 / 10)"
definition WEEKEND_UPLIFT :: real where "WEEKEND_UPLIFT = 115 / 100"
definition DAILY_JITTER :: real where "DAILY_JITTER = 10 / 100"

definition DAILY_MEASUREMENTS :: "string list" where
  "DAILY_MEASUREMENTS = [''impressions'', ''clicks'', ''conversions'', ''cost'', ''revenue'', ''unique_reach'']"

record synthetic_source =
  sy_seed :: int
  sy_columns :: "string list"

definition new_synthetic :: "int \<Rightarrow> string list option \<Rightarrow> (py_error, synthetic_source) res" where
  "new_synthetic seed cols =
     (let requested = (case cols of Some cs \<Rightarrow> cs | None \<Rightarrow> DAILY_MEASUREMENTS);
          unknown = filter (\<lambda>n. n \<notin> set DAILY_MEASUREMENTS) requested
      in if unknown \<noteq> [] then Inl (ValueError (''Unknown measurement columns: '' @ join_with '', '' (sort unknown)))
         else Inr \<lparr>sy_seed = seed, sy_columns = requested\<rparr>)"

definition synthetic_key :: "synthetic_source \<Rightarrow> string \<Rightarrow> string \<Rightarrow> string" where
  "synthetic_key sy external_id salt = show_int (sy_seed sy) @ ''|'' @ external_id @ ''|'' @ salt"

record campaign_profile =
  pr_impressions :: real
  pr_ctr :: real
  pr_cvr :: real
  pr_cpc :: real
  pr_aov :: real

definition synthetic_profile :: "generator \<Rightarrow> synthetic_source \<Rightarrow> source_target \<Rightarrow> campaign_profile" where
  "synthetic_profile gn sy t =
     (let key = synthetic_key sy (tg_external_id t) ''profile''; u = (\<lambda>i range. gn_uniform gn key i (fst range) (snd range))
      in \<lparr>pr_impressions = of_int (gn_randint gn key IMPRESSION_FLOOR (IMPRESSION_FLOOR + IMPRESSION_SPAN)),
          pr_ctr = u 0 CTR_RANGE, pr_cvr = u 1 CVR_RANGE, pr_cpc = u 2 CPC_RANGE, pr_aov = u 3 AOV_RANGE\<rparr>)"

definition weekday :: "int \<Rightarrow> int" where
  "weekday z = (z + 3) mod 7"

definition synthetic_measures :: "generator \<Rightarrow> synthetic_source \<Rightarrow> source_target \<Rightarrow> int \<Rightarrow> campaign_profile \<Rightarrow> measured" where
  "synthetic_measures gn sy t day p =
     (let u = gn_uniform gn (synthetic_key sy (tg_external_id t) (iso_date day));
          uplift = (if 5 \<le> weekday day then WEEKEND_UPLIFT else 1);
          jitter = 1 + u 0 (- DAILY_JITTER) DAILY_JITTER;
          shown = max 1 (py_trunc (pr_impressions p * uplift * jitter));
          clicked = py_trunc (of_int shown * max (5 / 10000) (pr_ctr p * u 1 (9 / 10) (11 / 10)));
          converted = py_trunc (of_int clicked * max (1 / 1000) (pr_cvr p * u 2 (9 / 10) (11 / 10)));
          spent = py_round 2 (of_int clicked * pr_cpc p * u 3 (95 / 100) (105 / 100));
          earned = py_round 2 (of_int converted * pr_aov p * u 4 (92 / 100) (108 / 100));
          reach = max 1 (py_trunc (of_int shown / u 5 (fst REACH_DIVISOR_RANGE) (snd REACH_DIVISOR_RANGE)))
      in \<lparr>ms_impressions = Some shown, ms_clicks = Some clicked, ms_conversions = Some converted, ms_cost = Some spent,
          ms_revenue = Some earned, ms_unique_reach = Some reach\<rparr>)"

definition keep_columns :: "string list \<Rightarrow> measured \<Rightarrow> measured" where
  "keep_columns cols m =
     \<lparr>ms_impressions = (if ''impressions'' \<in> set cols then ms_impressions m else None),
      ms_clicks = (if ''clicks'' \<in> set cols then ms_clicks m else None),
      ms_conversions = (if ''conversions'' \<in> set cols then ms_conversions m else None),
      ms_cost = (if ''cost'' \<in> set cols then ms_cost m else None),
      ms_revenue = (if ''revenue'' \<in> set cols then ms_revenue m else None),
      ms_unique_reach = (if ''unique_reach'' \<in> set cols then ms_unique_reach m else None)\<rparr>"

definition synthetic_record :: "generator \<Rightarrow> synthetic_source \<Rightarrow> source_target \<Rightarrow> int \<Rightarrow> campaign_profile \<Rightarrow> source_record" where
  "synthetic_record gn sy t day p =
     \<lparr>mi_platform = Some (tg_platform t), mi_external_id = Some (tg_external_id t), mi_campaign_id = Some (tg_campaign_id t),
      mi_creative_id = None, mi_stat_date = day, mi_measured = keep_columns (sy_columns sy) (synthetic_measures gn sy t day p)\<rparr>"

definition synthetic_fetch :: "generator \<Rightarrow> synthetic_source \<Rightarrow> int \<Rightarrow> int \<Rightarrow> source_target list \<Rightarrow> (py_error, source_record list) res" where
  "synthetic_fetch gn sy start final ts =
     (if final < start then Inl (window_error start final)
      else Inr (concat (map (\<lambda>t. map (\<lambda>day. synthetic_record gn sy t day (synthetic_profile gn sy t)) [start..final]) ts)))"

text \<open>The feed as the registry holds it.\<close>

definition synthetic_feed :: "generator \<Rightarrow> synthetic_source \<Rightarrow> metric_source" where
  "synthetic_feed gn sy = \<lparr>so_configured = True, so_fetch = synthetic_fetch gn sy\<rparr>"

subsection \<open>Dates of a network\<close>

lemma digit_not_space: "is_digit c \<Longrightarrow> \<not> is_space c"
  by (auto simp: is_digit_def is_space_def)

lemma strip_keeps_core:
  assumes "list_all is_space pre" "s \<noteq> []" "\<not> is_space (hd s)" "\<not> is_space (List.last s)"
  shows "\<exists>rest. strip (pre @ s @ post) = s @ rest"
proof -
  obtain c cs where s: "s = c # cs" using assms(2) by (cases s) auto
  have "dropWhile is_space (pre @ s @ post) = s @ post"
    using assms(1,3) by (subst dropWhile_append2) (auto simp: list_all_iff s)
  moreover have "\<exists>rest. dropWhile is_space (rev (s @ post)) = rest @ rev s"
  proof (cases "list_all is_space post")
    case True
    then have "dropWhile is_space (rev post @ rev s) = dropWhile is_space (rev s)" by (intro dropWhile_append2) (auto simp: list_all_iff)
    moreover have r: "rev s = List.last s # rev (butlast s)" by (subst append_butlast_last_id [OF assms(2), symmetric]) (simp only: rev_append rev.simps append.simps)
    have "dropWhile is_space (rev s) = rev s" by (simp only: r dropWhile.simps assms(4) if_False)
    ultimately show ?thesis by simp
  next
    case False
    then obtain x where "x \<in> set (rev post)" "\<not> is_space x" by (auto simp: list_all_iff)
    then show ?thesis by (simp add: dropWhile_append1)
  qed
  ultimately show ?thesis unfolding strip_def by (auto simp: rev_append)
qed

lemma iso_date_ends: "iso_date z \<noteq> []" "is_digit (hd (iso_date z))" "is_digit (List.last (iso_date z))"
proof -
  obtain y m d where c: "civil_of_days z = (y, m, d)" by (rule prod_cases3)
  have ne: "pad_digits (Suc k) n \<noteq> []" for k n using pad_digits_length [of "Suc k" n] by (metis length_0_conv nat.distinct(1))
  have "set (pad_digits (Suc k) n) \<subseteq> Collect is_digit" for k n using pad_digits_digits [of "Suc k" n] by (auto simp only: list_all_iff mem_Collect_eq)
  then have e: "is_digit (hd (pad_digits (Suc k) n))" "is_digit (List.last (pad_digits (Suc k) n))" for k n
    using hd_in_set [OF ne] last_in_set [OF ne] by blast+
  have n: "4 = Suc 3" "2 = Suc 1" by simp_all
  show "iso_date z \<noteq> []" by (simp add: iso_date_def c)
  show "is_digit (hd (iso_date z))" "is_digit (List.last (iso_date z))"
    unfolding iso_date_def c prod.case n using ne e by (simp_all only: hd_append last_append if_False append_is_Nil_conv not_Cons_self2 simp_thms list.distinct)
qed

text \<open>
  The days a network reports are the days it meant: for every calendar day of the years 1 to 9999, \<open>parse_stat_date\<close>
  reads the day back from its ISO date, whatever white space precedes it and whatever follows, such as the midnight
  that TikTok appends.
\<close>

theorem platform_dates_read_back:
  assumes "civil_of_days z = (y, m, d)" "1 \<le> y" "y \<le> 9999" "list_all is_space pre"
  shows "parse_stat_date (JStr (pre @ iso_date z @ post)) = Some z"
proof -
  obtain rest where s: "strip (pre @ iso_date z @ post) = iso_date z @ rest"
    using strip_keeps_core [OF assms(4) iso_date_ends(1)] iso_date_ends(2,3) digit_not_space by blast
  show ?thesis
    using from_isoformat_iso_date [OF assms(1-3)] by (simp add: parse_stat_date_def s length_iso_date)
qed

theorem platform_dates_read_back_witness:
  "parse_stat_date (JStr (iso_date 20705 @ '' 00:00:00'')) = Some 20705"
proof -
  have "civil_of_days 20705 = (2026, 9, 9)" by code_simp
  from platform_dates_read_back [OF this, of "[]"] show ?thesis by simp
qed

subsection \<open>What the platform feed claims\<close>

lemma map_res_mem: "map_res f xs = Inr ys \<Longrightarrow> y \<in> set ys \<Longrightarrow> \<exists>x\<in>set xs. f x = Inr y"
  by (induction xs arbitrary: ys) (auto simp: bind_res_Inr_iff)

lemma to_record_target: "to_record t j = Inr (Some r) \<Longrightarrow> fr_target r = t"
  by (auto simp: to_record_def bind_res_Inr_iff split: json.splits option.splits)

lemma fetch_targets_rows:
  "fst (fetch_targets nt an clock start stop ts w) = Inr rows \<Longrightarrow> fr_target ` set rows \<subseteq> set ts"
proof (induction ts arbitrary: w rows)
  case (Cons t ts)
  obtain payload w1 where p: "fetch_report nt an clock (tg_platform t) (tg_external_id t) start stop w = (Inr payload, w1)"
    using Cons.prems by (auto split: prod.splits sum.splits)
  then obtain js ys where js: "rows_of payload = Inr js" "map_res (to_record t) js = Inr ys"
    using Cons.prems by (auto simp: bind_res_Inr_iff split: prod.splits sum.splits)
  then obtain more w2 where m: "fetch_targets nt an clock start stop ts w1 = (Inr more, w2)" "rows = List.map_filter id ys @ more"
    using Cons.prems p by (auto split: prod.splits sum.splits)
  have "fr_target r = t" if "Some r \<in> set ys" for r
    using map_res_mem [OF js(2) that] to_record_target by blast
  then have "fr_target ` set (List.map_filter id ys) \<subseteq> {t}" by (auto simp: List.map_filter_def)
  moreover have "fr_target ` set more \<subseteq> set ts" using Cons.IH [of w1 more] m(1) by simp
  ultimately show ?case using m(2) by auto
qed simp

lemma row_record_silent:
  assumes "row_record r = Some x"
  shows "ms_revenue (mi_measured x) = None" "ms_unique_reach (mi_measured x) = None" "mi_creative_id x = None"
  using assms by (auto simp: row_record_def Let_def split: option.splits pyfloat.splits)

lemma to_metric_input_same: "to_metric_input x = Inr y \<Longrightarrow> mi_measured y = mi_measured x"
  by (auto simp: to_metric_input_def split: if_splits)

text \<open>A batch that is silent on revenue and reach leaves both as they were.\<close>

lemma silent_batch_keeps:
  assumes "unique_slots (md_metrics db)" "\<forall>r\<in>set records. ms_revenue (mi_measured r) = None \<and> ms_unique_reach (mi_measured r) = None"
    and "ingest cl records db = (Inr answer, db')" "row_at k (md_metrics db) = Some old"
  shows "\<exists>new. row_at k (md_metrics db') = Some new \<and> dm_revenue new = dm_revenue old \<and> dm_unique_reach new = dm_unique_reach old"
proof -
  obtain items rejected unresolved where t: "triage (ic_today cl) records db = (items, rejected, unresolved)" by (rule triage_cases)
  show ?thesis
  proof (cases "ic_dry_run cl")
    case True
    then show ?thesis using ingest_run [OF assms(1) t] assms(3,4) by auto
  next
    case False
    then have row: "row_at k (md_metrics db') = row_after (ic_source cl) (ic_batch_id cl) items (md_metrics db) k"
      using ingest_run [OF assms(1) t] assms(3) by (auto simp del: split_paired_All)
    show ?thesis
    proof (cases "writer_of k items")
      case None
      then show ?thesis using row assms(4) by (simp add: row_after_def)
    next
      case (Some a)
      then have "at_record a \<in> set records" using triage_item [OF t] writer_of_Some by (metis nth_mem)
      then show ?thesis using row assms(2,4) Some by (simp add: row_after_def written_def or_old_def)
    qed
  qed
qed

text \<open>
  C37. No ad network knows the revenue: a batch of the platform feed, whatever the networks answer, asserts rows of the
  targets only, and for every slot that is already stored it leaves the revenue and the reach exactly as they are.
\<close>

theorem platform_feed_leaves_revenue_alone:
  assumes "unique_slots (md_metrics db)"
    and "fst (platform_fetch nt an clock start final (targets (md_campaigns db)) w) = Inr rows"
    and "map row_record rows = map Some pulled" "map_res to_metric_input pulled = Inr records"
    and "row_at k (md_metrics db) = Some old"
  shows "fr_target ` set rows \<subseteq> set (targets (md_campaigns db))
    \<and> (\<exists>answer db' new. ingest cl records db = (Inr answer, db') \<and> row_at k (md_metrics db') = Some new
         \<and> dm_revenue new = dm_revenue old \<and> dm_unique_reach new = dm_unique_reach old)"
proof -
  have "fr_target ` set rows \<subseteq> set (targets (md_campaigns db))"
    using assms(2) fetch_targets_rows [of nt an clock _ _ "targets (md_campaigns db)" w rows]
    by (auto simp: platform_fetch_def split: if_splits)
  moreover have "\<forall>r\<in>set records. ms_revenue (mi_measured r) = None \<and> ms_unique_reach (mi_measured r) = None"
  proof
    fix r assume "r \<in> set records"
    then obtain x where x: "x \<in> set pulled" "to_metric_input x = Inr r" using map_res_mem [OF assms(4)] by blast
    then have "Some x \<in> set (map row_record rows)" using assms(3) by simp
    then obtain f where "row_record f = Some x" by auto
    then show "ms_revenue (mi_measured r) = None \<and> ms_unique_reach (mi_measured r) = None"
      using row_record_silent to_metric_input_same [OF x(2)] by simp
  qed
  moreover obtain answer db' where "ingest cl records db = (Inr answer, db')"
    using ingest_run [OF assms(1), of cl records] triage_cases by metis
  ultimately show ?thesis using silent_batch_keeps [OF assms(1) _ _ assms(5), of records cl] by blast
qed

text \<open>
  C38. One campaign on a network without credentials stops the whole feed: outside mock mode the feed calls itself
  configured whatever credentials there are, since the recorder is among the adapters and always configured, and
  a single target whose adapter is not configured makes the fetch an error, whatever the others answered.
\<close>

theorem unconfigured_target_stops_the_feed:
  assumes "\<not> an_mock_mode an" "t \<in> set ts" "tg_platform t \<notin> set (ar_configured (registry_of an))"
  shows "platform_configured an \<and> (\<exists>e. fst (platform_fetch nt an clock start final ts w) = Inl e)"
proof -
  have c: "platform_configured an" using assms(1) by (simp add: platform_configured_def registry_of_def)
  have "\<not> ar_mock_mode (registry_of an)" using assms(1) by (simp add: registry_of_def)
  then have "for_platform (registry_of an) (platform_value (tg_platform t)) = Inr p \<Longrightarrow> False" for p
    using assms(3) by (simp add: for_platform_def split: if_splits)
  then obtain e where e: "for_platform (registry_of an) (platform_value (tg_platform t)) = Inl e"
    by (cases "for_platform (registry_of an) (platform_value (tg_platform t))") blast+
  have "\<exists>e. fst (fetch_targets nt an clock a b ts w) = Inl e" if "t \<in> set ts" for a b ts w
    using that
  proof (induction ts arbitrary: w)
    case (Cons s ts)
    show ?case
    proof (cases "s = t")
      case True
      then show ?thesis by (simp add: fetch_report_def e)
    next
      case False
      obtain r w1 where f: "fetch_report nt an clock (tg_platform s) (tg_external_id s) a b w = (r, w1)" by (rule prod.exhaust)
      obtain q w2 where g: "fetch_targets nt an clock a b ts w1 = (q, w2)" by (rule prod.exhaust)
      have "\<exists>e. q = Inl e" using Cons.IH [of w1] Cons.prems False g by simp
      then show ?thesis using f g by (auto split: sum.splits)
    qed
  qed simp
  then show ?thesis using c assms(2) by (simp add: platform_fetch_def)
qed


subsection \<open>What the synthetic feed claims\<close>

text \<open>A generator draws within the bounds it is given.\<close>

definition draws_within :: "generator \<Rightarrow> bool" where
  "draws_within gn \<longleftrightarrow>
     (\<forall>key a b. a \<le> b \<longrightarrow> a \<le> gn_randint gn key a b \<and> gn_randint gn key a b \<le> b)
     \<and> (\<forall>key i a b. a \<le> b \<longrightarrow> a \<le> gn_uniform gn key i a b \<and> gn_uniform gn key i a b \<le> b)"

lemma uniform_within: "draws_within gn \<Longrightarrow> a \<le> b \<Longrightarrow> a \<le> gn_uniform gn key i a b \<and> gn_uniform gn key i a b \<le> b"
  by (simp add: draws_within_def)

lemma trunc_share:
  assumes "0 \<le> n" "0 \<le> f" "f \<le> 1"
  shows "0 \<le> py_trunc (of_int n * f)" "py_trunc (of_int n * f) \<le> n"
proof -
  have "0 \<le> of_int n * f" using assms by simp
  moreover have "of_int n * f \<le> of_int n" using assms mult_left_le [of f "of_int n"] by simp
  ultimately show "0 \<le> py_trunc (of_int n * f)" "py_trunc (of_int n * f) \<le> n" by (simp_all add: py_trunc_def floor_le_iff)
qed

lemma share_bounds:
  assumes "0 \<le> (x :: real)" "x \<le> a" "0 \<le> y" "y \<le> b" "a * b \<le> 1" "0 \<le> c" "c \<le> 1" "0 \<le> a"
  shows "0 \<le> max c (x * y)" "max c (x * y) \<le> 1"
proof -
  have "x * y \<le> a * b" using assms by (intro mult_mono) simp_all
  then show "0 \<le> max c (x * y)" "max c (x * y) \<le> 1" using assms by simp_all
qed

definition funnel :: "measured \<Rightarrow> bool" where
  "funnel m \<longleftrightarrow> (\<exists>a b c x y r. m = \<lparr>ms_impressions = Some a, ms_clicks = Some b, ms_conversions = Some c, ms_cost = Some x,
     ms_revenue = Some y, ms_unique_reach = Some r\<rparr> \<and> 0 \<le> c \<and> c \<le> b \<and> b \<le> a \<and> 0 \<le> x \<and> 0 \<le> y \<and> 0 \<le> r)"

lemma synthetic_funnel:
  assumes "draws_within gn"
  shows "funnel (synthetic_measures gn sy t day (synthetic_profile gn sy t))"
proof -
  note u = uniform_within [OF assms]
  define p where "p = synthetic_profile gn sy t"
  define k where "k = synthetic_key sy (tg_external_id t) ''profile''"
  have sel: "pr_ctr p = gn_uniform gn k 0 (8 / 1000) (55 / 1000)" "pr_cvr p = gn_uniform gn k 1 (15 / 1000) (90 / 1000)"
    "pr_cpc p = gn_uniform gn k 2 (35 / 100) (260 / 100)" "pr_aov p = gn_uniform gn k 3 45 320"
    unfolding p_def k_def synthetic_profile_def Let_def CTR_RANGE_def CVR_RANGE_def CPC_RANGE_def AOV_RANGE_def fst_conv snd_conv
      campaign_profile.select_convs by (rule refl)+
  have p: "0 \<le> pr_ctr p" "pr_ctr p \<le> 55 / 1000" "0 \<le> pr_cvr p" "pr_cvr p \<le> 90 / 1000" "0 \<le> pr_cpc p" "0 \<le> pr_aov p"
    using u [of "8 / 1000" "55 / 1000" k 0] u [of "15 / 1000" "90 / 1000" k 1] u [of "35 / 100" "260 / 100" k 2] u [of 45 320 k 3]
    unfolding sel by linarith+
  have d: "0 \<le> gn_uniform gn key i (9 / 10) (11 / 10)" "gn_uniform gn key i (9 / 10) (11 / 10) \<le> 11 / 10"
    "0 \<le> gn_uniform gn key i (95 / 100) (105 / 100)" "0 \<le> gn_uniform gn key i (92 / 100) (108 / 100)" for key i
    using u [of "9 / 10" "11 / 10" key i] u [of "95 / 100" "105 / 100" key i] u [of "92 / 100" "108 / 100" key i] by linarith+
  define r where "r = gn_uniform gn (synthetic_key sy (tg_external_id t) (iso_date day))"
  define shown where "shown = max 1 (py_trunc (pr_impressions p * (if 5 \<le> weekday day then WEEKEND_UPLIFT else 1) * (1 + r 0 (- DAILY_JITTER) DAILY_JITTER)))"
  define clicked where "clicked = py_trunc (of_int shown * max (5 / 10000) (pr_ctr p * r 1 (9 / 10) (11 / 10)))"
  define converted where "converted = py_trunc (of_int clicked * max (1 / 1000) (pr_cvr p * r 2 (9 / 10) (11 / 10)))"
  have r: "0 \<le> r i (9 / 10) (11 / 10)" "r i (9 / 10) (11 / 10) \<le> 11 / 10" "0 \<le> r i (95 / 100) (105 / 100)" "0 \<le> r i (92 / 100) (108 / 100)" for i
    unfolding r_def by (rule d)+
  have m: "synthetic_measures gn sy t day p = \<lparr>ms_impressions = Some shown, ms_clicks = Some clicked, ms_conversions = Some converted,
      ms_cost = Some (py_round 2 (of_int clicked * pr_cpc p * r 3 (95 / 100) (105 / 100))),
      ms_revenue = Some (py_round 2 (of_int converted * pr_aov p * r 4 (92 / 100) (108 / 100))),
      ms_unique_reach = Some (max 1 (py_trunc (of_int shown / r 5 (fst REACH_DIVISOR_RANGE) (snd REACH_DIVISOR_RANGE))))\<rparr>"
    unfolding synthetic_measures_def Let_def r_def shown_def clicked_def converted_def by (rule refl)
  have i: "0 \<le> shown" by (simp add: shown_def)
  have c: "0 \<le> clicked" "clicked \<le> shown"
    unfolding clicked_def by (intro trunc_share i share_bounds [OF p(1,2) r(1,2)]; simp)+
  have v: "0 \<le> converted" "converted \<le> clicked"
    unfolding converted_def by (intro trunc_share c(1) share_bounds [OF p(3,4) r(1,2)]; simp)+
  have "0 \<le> of_int clicked * pr_cpc p * r 3 (95 / 100) (105 / 100)" using c(1) p(5) r(3) by simp
  moreover have "0 \<le> of_int converted * pr_aov p * r 4 (92 / 100) (108 / 100)" using v(1) p(6) r(4) by simp
  ultimately show ?thesis unfolding p_def [symmetric] m funnel_def using c v by (simp add: py_round_nonneg)
qed


lemma negative_columns_none:
  "negative_columns m = [] \<longleftrightarrow> (\<forall>x. ms_impressions m = Some x \<longrightarrow> 0 \<le> x) \<and> (\<forall>x. ms_clicks m = Some x \<longrightarrow> 0 \<le> x)
     \<and> (\<forall>x. ms_conversions m = Some x \<longrightarrow> 0 \<le> x) \<and> (\<forall>x. ms_cost m = Some x \<longrightarrow> 0 \<le> x)
     \<and> (\<forall>x. ms_revenue m = Some x \<longrightarrow> 0 \<le> x) \<and> (\<forall>x. ms_unique_reach m = Some x \<longrightarrow> 0 \<le> x)"
  unfolding negative_columns_def columns_def int_column_def map_is_Nil_conv filter_empty_conv
  by (auto split: option.splits)

lemma funnel_passes:
  assumes "funnel m"
  shows "negative_columns (keep_columns cols m) = []"
    "\<not> exceeds (ms_clicks (keep_columns cols m)) (ms_impressions (keep_columns cols m))"
    "\<not> exceeds (ms_conversions (keep_columns cols m)) (ms_clicks (keep_columns cols m))"
    "c \<in> set cols \<Longrightarrow> c \<in> set DAILY_MEASUREMENTS \<Longrightarrow> measurements_present (keep_columns cols m) \<noteq> []"
proof -
  obtain a b c x y r where m: "m = \<lparr>ms_impressions = Some a, ms_clicks = Some b, ms_conversions = Some c, ms_cost = Some x,
     ms_revenue = Some y, ms_unique_reach = Some r\<rparr>" and n: "0 \<le> c" "c \<le> b" "b \<le> a" "0 \<le> x" "0 \<le> y" "0 \<le> r"
    using assms by (auto simp: funnel_def)
  show "negative_columns (keep_columns cols m) = []" unfolding negative_columns_none using n by (simp add: m keep_columns_def)
  show "\<not> exceeds (ms_clicks (keep_columns cols m)) (ms_impressions (keep_columns cols m))"
    "\<not> exceeds (ms_conversions (keep_columns cols m)) (ms_clicks (keep_columns cols m))"
    using n by (simp_all add: m keep_columns_def exceeds_def)
  show "measurements_present (keep_columns cols m) \<noteq> []" if "k \<in> set cols" "k \<in> set DAILY_MEASUREMENTS" for k
    unfolding measurements_present_def map_is_Nil_conv filter_empty_conv
    using that by (auto simp: m keep_columns_def columns_def int_column_def DAILY_MEASUREMENTS_def)
qed

text \<open>
  The synthetic feed tells a consistent story: for a window that ends no later than tomorrow it yields one record per target
  and day, every one of which passes the value checks of the ingestion, whichever columns it is asked for; and
  leaving columns out changes no figure of those that remain.
\<close>

theorem synthetic_records_pass_every_check:
  assumes "draws_within gn" "sy_columns sy \<noteq> []" "set (sy_columns sy) \<subseteq> set DAILY_MEASUREMENTS"
    and "start \<le> final" "final \<le> today + 1" "\<forall>t\<in>set ts. tg_campaign_id t \<noteq> []"
  shows "\<exists>records complete. synthetic_fetch gn sy start final ts = Inr records
    \<and> length records = length ts * nat (final - start + 1)
    \<and> (\<forall>r\<in>set records. semantic_problem today r = None \<and> start \<le> mi_stat_date r \<and> mi_stat_date r \<le> final)
    \<and> synthetic_fetch gn (sy\<lparr>sy_columns := DAILY_MEASUREMENTS\<rparr>) start final ts = Inr complete
    \<and> records = map (\<lambda>r. r\<lparr>mi_measured := keep_columns (sy_columns sy) (mi_measured r)\<rparr>) complete"
proof -
  let ?all = "sy\<lparr>sy_columns := DAILY_MEASUREMENTS\<rparr>"
  let ?rec = "\<lambda>s t day. synthetic_record gn s t day (synthetic_profile gn s t)"
  have key: "synthetic_key ?all = synthetic_key sy" by (intro ext) (simp add: synthetic_key_def)
  have keep: "keep_columns cols (keep_columns DAILY_MEASUREMENTS m) = keep_columns cols m" for cols m
    by (simp add: keep_columns_def DAILY_MEASUREMENTS_def)
  have narrow: "?rec sy t day = (?rec ?all t day)\<lparr>mi_measured := keep_columns (sy_columns sy) (mi_measured (?rec ?all t day))\<rparr>" for t day
    by (simp add: synthetic_record_def synthetic_profile_def synthetic_measures_def key keep Let_def)
  obtain c where c: "c \<in> set (sy_columns sy)" "c \<in> set DAILY_MEASUREMENTS" using assms(2,3) by (cases "sy_columns sy") auto
  have ok: "semantic_problem today (?rec sy t day) = None" if "t \<in> set ts" "day \<le> final" for t day
  proof -
    note f = funnel_passes [OF synthetic_funnel [OF assms(1), of sy t day]]
    have "given (Some (tg_campaign_id t)) = Some (tg_campaign_id t)" using assms(6) that(1) by (simp add: given_def)
    then show ?thesis using f(1-3) f(4) [OF c] that(2) assms(5)
      by (simp add: semantic_problem_def synthetic_record_def MAX_FUTURE_DAYS_def Let_def)
  qed
  define records where "records = concat (map (\<lambda>t. map (?rec sy t) [start..final]) ts)"
  define complete where "complete = concat (map (\<lambda>t. map (?rec ?all t) [start..final]) ts)"
  have "synthetic_fetch gn sy start final ts = Inr records" "synthetic_fetch gn ?all start final ts = Inr complete"
    using assms(4) by (simp_all add: synthetic_fetch_def records_def complete_def)
  moreover have "length records = length ts * nat (final - start + 1)" unfolding records_def by (induction ts) simp_all
  moreover have "records = map (\<lambda>r. r\<lparr>mi_measured := keep_columns (sy_columns sy) (mi_measured r)\<rparr>) complete"
    unfolding records_def complete_def map_concat map_map comp_def narrow [symmetric] by (rule refl)
  moreover have "semantic_problem today r = None \<and> start \<le> mi_stat_date r \<and> mi_stat_date r \<le> final" if "r \<in> set records" for r
  proof -
    obtain t day where "t \<in> set ts" "start \<le> day" "day \<le> final" "r = ?rec sy t day"
      using \<open>r \<in> set records\<close> by (auto simp: records_def)
    then show ?thesis using ok [of t day] by (simp add: synthetic_record_def)
  qed
  ultimately show ?thesis by blast
qed


subsection \<open>Instances\<close>

definition low_generator :: generator where
  "low_generator = \<lparr>gn_randint = (\<lambda>key a b. a), gn_uniform = (\<lambda>key i a b. a)\<rparr>"

definition shop_target :: source_target where
  "shop_target = \<lparr>tg_platform = PLATFORM_META, tg_external_id = ''x1'', tg_campaign_id = ''c1''\<rparr>"

theorem synthetic_records_pass_every_check_witness:
  "\<exists>records. synthetic_fetch low_generator \<lparr>sy_seed = SYNTHETIC_SEED, sy_columns = [''clicks'', ''cost'']\<rparr> 8 10 [shop_target] = Inr records
     \<and> length records = 3 \<and> (\<forall>r\<in>set records. semantic_problem 9 r = None)"
proof -
  have "draws_within low_generator" by (simp add: draws_within_def low_generator_def)
  from synthetic_records_pass_every_check [OF this, of "\<lparr>sy_seed = SYNTHETIC_SEED, sy_columns = [''clicks'', ''cost'']\<rparr>" 8 10 9 "[shop_target]"]
  show ?thesis by (auto simp: DAILY_MEASUREMENTS_def shop_target_def)
qed

definition shop_payload :: json_dict where
  "shop_payload = [(''data'', JList [JDict [(''date_start'', JStr ''1970-01-09''), (''impressions'', JInt 10), (''clicks'', JInt 9),
     (''spend'', JFloat (Fin 2))]])]"

lemma shop_targets: "targets (md_campaigns shop_db) = [shop_target]"
proof -
  have "strip ''x1'' = ''x1''" "platform_of ''meta'' = Some PLATFORM_META" by code_simp+
  then show ?thesis
    by (simp add: targets_def syncable_def shop_db_def shop_campaign_def shop_target_def given_def List.map_filter_def Let_def)
qed

definition quiet_world :: "nat ads_world" where
  "quiet_world = \<lparr>wn_net = 0, wn_google = google_start, wn_mock = \<lparr>mk_calls = [], mk_sequence = 0\<rparr>\<rparr>"

theorem unconfigured_target_stops_the_feed_witness:
  "\<exists>e. fst (platform_fetch (sample_net []) (sample_networks\<lparr>an_tiktok := \<lparr>tk_access_token = [], tk_advertiser_id = []\<rparr>\<rparr>) (0, 0) 8 9
      [shop_target, shop_target\<lparr>tg_platform := PLATFORM_TIKTOK\<rparr>] quiet_world) = Inl e"
  using unconfigured_target_stops_the_feed [of "sample_networks\<lparr>an_tiktok := \<lparr>tk_access_token = [], tk_advertiser_id = []\<rparr>\<rparr>"
      "shop_target\<lparr>tg_platform := PLATFORM_TIKTOK\<rparr>" "[shop_target, shop_target\<lparr>tg_platform := PLATFORM_TIKTOK\<rparr>]"
      "sample_net []" "(0, 0)" 8 9 quiet_world]
  by (simp add: sample_networks_def registry_of_def tiktok_configured_def)

definition shop_row :: feed_row where
  "shop_row = \<lparr>fr_target = shop_target, fr_stat_date = 8, fr_impressions = Some 10, fr_clicks = Some 9, fr_conversions = Some 0,
     fr_cost = Some (Fin 2)\<rparr>"

definition shop_record :: source_record where
  "shop_record = \<lparr>mi_platform = Some PLATFORM_META, mi_external_id = Some ''x1'', mi_campaign_id = Some ''c1'', mi_creative_id = None,
     mi_stat_date = 8, mi_measured = \<lparr>ms_impressions = Some 10, ms_clicks = Some 9, ms_conversions = Some 0, ms_cost = Some 2,
     ms_revenue = None, ms_unique_reach = None\<rparr>\<rparr>"

lemma shop_report: "meta_fetch_report (sample_net shop_payload) (an_meta sample_networks) ''x1'' a b 0
    = (Inr (report ''x1'' ''meta'' [delivery_row (JStr ''1970-01-09'') 10 9 0 (Fin 2)]), 0)"
  by (simp add: meta_fetch_report_def meta_call_def sample_net_def http_call_answering sample_networks_def meta_configured_def
      new_meta_client_def and_then_def shop_payload_def get_or_def iterate_def meta_row_def as_dict_def meta_conversions_def
      count_or_0_def float_or_0_def json_truthy_def int_of_float_def round_float_def py_trunc_def)

lemma shop_fetch: "fst (platform_fetch (sample_net shop_payload) sample_networks (0, 0) 8 8 [shop_target] quiet_world) = Inr [shop_row]"
proof -
  have conf: "platform_configured sample_networks" "for_platform (registry_of sample_networks) (platform_value PLATFORM_META) = Inr PLATFORM_META"
    by (simp_all add: platform_configured_def for_platform_def registry_of_def sample_networks_def meta_configured_def new_meta_client_def
        del: platform_value.simps)
  have day: "parse_stat_date (JStr ''1970-01-09'') = Some 8" by code_simp
  have "to_record shop_target (delivery_row (JStr ''1970-01-09'') 10 9 0 (Fin 2)) = Inr (Some shop_row)"
    by (simp add: delivery_row_def to_record_def get_or_def day as_int_def as_float_def float_given_def int_of_float_def py_trunc_def
        round_float_def shop_row_def)
  moreover have "fetch_report (sample_net shop_payload) sample_networks (0, 0) PLATFORM_META ''x1'' a b quiet_world
      = (Inr (report ''x1'' ''meta'' [delivery_row (JStr ''1970-01-09'') 10 9 0 (Fin 2)]), quiet_world)" for a b
    by (simp add: fetch_report_def conf(2) shop_report quiet_world_def del: platform_value.simps)
  moreover have "tg_platform shop_target = PLATFORM_META" "tg_external_id shop_target = ''x1''" by (simp_all add: shop_target_def)
  ultimately show ?thesis
    by (simp add: platform_fetch_def conf(1) rows_of_def report_def get_or_def json_truthy_def iterate_def List.map_filter_def)
qed

theorem platform_feed_leaves_revenue_alone_witness:
  "\<exists>answer db' new. ingest (shop_call False) [shop_record] shop_db = (Inr answer, db')
     \<and> row_at (''c1'', None, 8) (md_metrics db') = Some new \<and> dm_revenue new = dm_revenue (day_row None 100)"
proof -
  have "row_record shop_row = Some shop_record"
    by (simp add: row_record_def shop_row_def shop_record_def shop_target_def)
  moreover have "to_metric_input shop_record = Inr shop_record"
  proof -
    have "strip ''x1'' = ''x1''" "strip ''c1'' = ''c1''" by code_simp+
    then show ?thesis by (simp add: to_metric_input_def shop_record_def too_long_def blank_is_absent_def)
  qed
  moreover have "row_at (''c1'', None, 8) (md_metrics shop_db) = Some (day_row None 100)"
    by (simp add: row_at_def shop_db_def slot_of_def day_row_def)
  ultimately show ?thesis
    using platform_feed_leaves_revenue_alone [OF shop_unique, of "sample_net shop_payload" sample_networks "(0, 0)" 8 8 quiet_world
        "[shop_row]" "[shop_record]" "[shop_record]" "(''c1'', None, 8)" "day_row None 100" "shop_call False"] shop_fetch
    by (simp add: shop_targets) blast
qed

end
