(* ===== verification/Campaigns.thy ===== *)
theory Campaigns
  imports Metrics AgentBase
begin

text \<open>
  Campaigns and creatives as people administer them: \<open>services/campaigns.py\<close>, the campaign and creative
  repositories of \<open>repositories/campaigns.py\<close>, the payloads of \<open>schemas/api.py\<close> and the endpoints of
  \<open>api/v1/campaigns.py\<close>, and \<open>collect_run_inputs\<close>, which gathers what an optimization run reads.

  The rows are those of theory Actions, so the requests here and the actions there work on one database. A request is
  one unit of work; today's date, the time and the ids of new rows are arguments.
\<close>

subsection \<open>Payloads\<close>

record campaign_create =
  ca_name :: string
  ca_platform :: platform
  ca_daily_budget :: real
  ca_total_budget :: real
  ca_target_cpa :: real
  ca_target_roas :: real
  ca_start_date :: "int option"
  ca_end_date :: "int option"
  ca_objective :: string
  ca_target_audience :: string
  ca_external_id :: "string option"

text \<open>\<open>None\<close> is a field the client left out, \<open>Some None\<close> one sent as null.\<close>

record campaign_update =
  cu_name :: "string option option"
  cu_status :: "campaign_status option option"
  cu_daily_budget :: "real option option"
  cu_total_budget :: "real option option"
  cu_target_cpa :: "real option option"
  cu_target_roas :: "real option option"
  cu_end_date :: "int option option"
  cu_objective :: "string option option"
  cu_target_audience :: "string option option"
  cu_external_id :: "string option option"

definition no_update :: campaign_update where
  "no_update = \<lparr>cu_name = None, cu_status = None, cu_daily_budget = None, cu_total_budget = None, cu_target_cpa = None,
     cu_target_roas = None, cu_end_date = None, cu_objective = None, cu_target_audience = None, cu_external_id = None\<rparr>"

record creative_create =
  cc_headline :: string
  cc_description :: string
  cc_cta_text :: string
  cc_creative_type :: string
  cc_target_emotion :: string
  cc_ab_group :: string
  cc_origin :: string
  cc_status :: creative_status

text \<open>The bounds of the schemas; a number that is not finite fails them.\<close>

definition sent :: "('a \<Rightarrow> bool) \<Rightarrow> 'a option option \<Rightarrow> bool" where
  "sent P v = (case v of Some (Some x) \<Rightarrow> P x | _ \<Rightarrow> True)"

definition valid_create :: "campaign_create \<Rightarrow> bool" where
  "valid_create p \<longleftrightarrow> 2 \<le> length (ca_name p) \<and> length (ca_name p) \<le> 300 \<and> 0 < ca_daily_budget p \<and> ca_daily_budget p \<le> 10000000
     \<and> 0 \<le> ca_total_budget p \<and> ca_total_budget p \<le> 100000000 \<and> 0 < ca_target_cpa p \<and> ca_target_cpa p \<le> 1000000
     \<and> 0 < ca_target_roas p \<and> ca_target_roas p \<le> 100 \<and> length (ca_objective p) \<le> 60 \<and> length (ca_target_audience p) \<le> 2000
     \<and> sent (\<lambda>x. length x \<le> 120) (Some (ca_external_id p))
     \<and> (case (ca_start_date p, ca_end_date p) of (Some a, Some b) \<Rightarrow> a \<le> b | _ \<Rightarrow> True)"

definition valid_update :: "campaign_update \<Rightarrow> bool" where
  "valid_update u \<longleftrightarrow> sent (\<lambda>x. 2 \<le> length x \<and> length x \<le> 300) (cu_name u) \<and> sent (\<lambda>x. 0 < x \<and> x \<le> 10000000) (cu_daily_budget u)
     \<and> sent (\<lambda>x. 0 \<le> x \<and> x \<le> 100000000) (cu_total_budget u) \<and> sent (\<lambda>x. 0 < x \<and> x \<le> 1000000) (cu_target_cpa u)
     \<and> sent (\<lambda>x. 0 < x \<and> x \<le> 100) (cu_target_roas u) \<and> sent (\<lambda>x. length x \<le> 60) (cu_objective u)
     \<and> sent (\<lambda>x. length x \<le> 2000) (cu_target_audience u) \<and> sent (\<lambda>x. length x \<le> 120) (cu_external_id u)"

definition valid_creative :: "creative_create \<Rightarrow> bool" where
  "valid_creative p \<longleftrightarrow> 4 \<le> length (cc_headline p) \<and> length (cc_headline p) \<le> 300 \<and> length (cc_description p) \<le> 2000
     \<and> length (cc_cta_text p) \<le> 60 \<and> cc_creative_type p \<in> set [''text'', ''image'', ''video'']
     \<and> length (cc_target_emotion p) \<le> 40 \<and> length (cc_ab_group p) \<le> 40 \<and> cc_origin p \<in> set [''human'', ''llm'', ''rule'']"

definition payload_error :: py_error where
  "payload_error = ValidationFailure ''Request payload failed validation''"

subsection \<open>The repositories\<close>

definition constraint_error :: "string \<Rightarrow> py_error" where
  "constraint_error m = OtherError ''IntegrityError'' (m @ '' constraint failed'')"

text \<open>\<open>uq_campaign_platform_external\<close>, in which a null equals nothing.\<close>

definition external_taken :: "campaign_row \<Rightarrow> action_db \<Rightarrow> bool" where
  "external_taken c db =
     (cp_external_id c \<noteq> None
        \<and> list_ex (\<lambda>(k, r). k \<noteq> cp_id c \<and> cp_platform r = cp_platform c \<and> cp_external_id r = cp_external_id c) (ad_campaigns db))"

definition insert_campaign :: "campaign_row \<Rightarrow> action_db \<Rightarrow> (py_error, campaign_row) res \<times> action_db" where
  "insert_campaign c db =
     (if map_of (ad_campaigns db) (cp_id c) \<noteq> None \<or> external_taken c db then (Inl (constraint_error ''UNIQUE''), db)
      else (Inr c, db\<lparr>ad_campaigns := ad_campaigns db @ [(cp_id c, c)]\<rparr>))"

definition insert_creative :: "creative_entity \<Rightarrow> action_db \<Rightarrow> (py_error, creative_entity) res \<times> action_db" where
  "insert_creative x db =
     (if map_of (ad_creatives db) (ce_id x) \<noteq> None then (Inl (constraint_error ''UNIQUE''), db)
      else (Inr x, db\<lparr>ad_creatives := ad_creatives db @ [(ce_id x, x)]\<rparr>))"

definition get_campaign :: "string \<Rightarrow> action_db \<Rightarrow> (py_error, campaign_row) res" where
  "get_campaign cid db =
     (case map_of (ad_campaigns db) cid of None \<Rightarrow> Inl (NotFoundError (''campaign '' @ cid @ '' was not found'')) | Some c \<Rightarrow> Inr c)"

definition get_creative :: "string \<Rightarrow> action_db \<Rightarrow> (py_error, creative_entity) res" where
  "get_creative xid db =
     (case map_of (ad_creatives db) xid of None \<Rightarrow> Inl (NotFoundError (''creative '' @ xid @ '' was not found'')) | Some x \<Rightarrow> Inr x)"

definition active_campaigns :: "nat \<Rightarrow> action_db \<Rightarrow> campaign_row list" where
  "active_campaigns n db =
     take n (sort_key cp_name (filter (\<lambda>c. cp_status c = campaign_status_value CAMPAIGN_ACTIVE) (map snd (ad_campaigns db))))"

definition campaigns_by_ids :: "string list \<Rightarrow> action_db \<Rightarrow> campaign_row list" where
  "campaigns_by_ids ids db = filter (\<lambda>c. cp_id c \<in> set ids) (map snd (ad_campaigns db))"

definition refs :: "string list \<Rightarrow> action_db \<Rightarrow> (string, campaign_ref) dict" where
  "refs ids db =
     map (\<lambda>c. (cp_id c, \<lparr>rf_platform = cp_platform c, rf_external_id = opt_str (cp_external_id c), rf_name = cp_name c,
                        rf_status = cp_status c\<rparr>)) (campaigns_by_ids ids db)"

definition daily_budgets :: "string list \<Rightarrow> action_db \<Rightarrow> (string, pyfloat) dict" where
  "daily_budgets ids db =
     map (\<lambda>c. (cp_id c, cp_daily_budget c)) (if ids = [] then map snd (ad_campaigns db) else campaigns_by_ids ids db)"

definition campaign_targets :: "string list \<Rightarrow> action_db \<Rightarrow> (string, (string, pyfloat) dict) dict" where
  "campaign_targets ids db =
     map (\<lambda>c. (cp_id c, [(''target_cpa'', cp_target_cpa c), (''target_roas'', cp_target_roas c)]))
       (if ids = [] then map snd (ad_campaigns db) else campaigns_by_ids ids db)"

subsection \<open>Creating and changing a campaign\<close>

definition or_number :: "real \<Rightarrow> real \<Rightarrow> real" where
  "or_number x y = (if x = 0 then y else x)"

definition create_campaign :: "int \<Rightarrow> string \<Rightarrow> string option \<Rightarrow> campaign_create \<Rightarrow> action_db \<Rightarrow> (py_error, campaign_row) res \<times> action_db" where
  "create_campaign today new_id actor p db =
     (let start = (case ca_start_date p of Some d \<Rightarrow> d | None \<Rightarrow> today)
      in if ca_daily_budget p \<le> 0 then (Inl (ValidationFailure ''daily_budget must be greater than zero''), db)
         else if ca_total_budget p \<noteq> 0 \<and> ca_total_budget p < ca_daily_budget p
         then (Inl (ValidationFailure ''total_budget cannot be smaller than daily_budget''), db)
         else if (case ca_end_date p of Some d \<Rightarrow> d < start | None \<Rightarrow> False)
         then (Inl (ValidationFailure ''end_date cannot precede start_date''), db)
         else insert_campaign
           \<lparr>cp_id = new_id, cp_name = strip (ca_name p), cp_platform = platform_value (ca_platform p),
            cp_status = campaign_status_value CAMPAIGN_ACTIVE, cp_external_id = ca_external_id p,
            cp_daily_budget = Fin (ca_daily_budget p), cp_total_budget = Fin (or_number (ca_total_budget p) (ca_daily_budget p * 30)),
            cp_target_cpa = Fin (or_number (ca_target_cpa p) 100), cp_target_roas = Fin (or_number (ca_target_roas p) 2),
            cp_current_bid_cpm = Fin 0, cp_start_date = start, cp_end_date = ca_end_date p,
            cp_target_audience = ca_target_audience p, cp_objective = ca_objective p, cp_created_by = actor\<rparr> db)"

text \<open>\<open>x < y\<close> on floats.\<close>

definition float_less :: "pyfloat \<Rightarrow> pyfloat \<Rightarrow> bool" where
  "float_less x y =
     (case (x, y) of
        (Fin a, Fin b) \<Rightarrow> a < b | (NInf, Fin b) \<Rightarrow> True | (NInf, PInf) \<Rightarrow> True | (Fin a, PInf) \<Rightarrow> True | _ \<Rightarrow> False)"

definition number_or_0 :: "real option \<Rightarrow> real" where
  "number_or_0 v = (case v of None \<Rightarrow> 0 | Some x \<Rightarrow> x)"

definition set_status :: "campaign_update \<Rightarrow> campaign_row \<Rightarrow> (py_error, campaign_row) res" where
  "set_status u c =
     (case cu_status u of
        None \<Rightarrow> Inr c
      | Some None \<Rightarrow> Inl (ValidationFailure ''Unknown campaign status'')
      | Some (Some s) \<Rightarrow> Inr (c\<lparr>cp_status := campaign_status_value s\<rparr>))"

definition set_budgets :: "campaign_update \<Rightarrow> campaign_row \<Rightarrow> (py_error, campaign_row) res" where
  "set_budgets u c =
     (if (case cu_daily_budget u of Some v \<Rightarrow> number_or_0 v \<le> 0 | None \<Rightarrow> False)
      then Inl (ValidationFailure ''daily_budget must be greater than zero'')
      else let c1 = c\<lparr>cp_daily_budget := (case cu_daily_budget u of Some v \<Rightarrow> Fin (number_or_0 v) | None \<Rightarrow> cp_daily_budget c),
                      cp_total_budget := (case cu_total_budget u of Some v \<Rightarrow> Fin (number_or_0 v) | None \<Rightarrow> cp_total_budget c)\<rparr>
           in if cp_total_budget c1 \<noteq> Fin 0 \<and> float_less (cp_total_budget c1) (cp_daily_budget c1)
              then Inl (ConflictError ''total_budget cannot be smaller than daily_budget'') else Inr c1)"

text \<open>
  A null in a text column is only noticed when the row is flushed (\<open>not_null\<close>), which undoes the request, so
  the row here keeps its text.
\<close>

definition or_kept :: "'a option option \<Rightarrow> 'a \<Rightarrow> 'a" where
  "or_kept v x = (case v of Some (Some y) \<Rightarrow> y | _ \<Rightarrow> x)"

definition set_texts :: "campaign_update \<Rightarrow> campaign_row \<Rightarrow> campaign_row" where
  "set_texts u c =
     c\<lparr>cp_name := or_kept (cu_name u) (cp_name c), cp_target_audience := or_kept (cu_target_audience u) (cp_target_audience c),
       cp_objective := or_kept (cu_objective u) (cp_objective c),
       cp_external_id := (case cu_external_id u of Some v \<Rightarrow> v | None \<Rightarrow> cp_external_id c)\<rparr>"

definition not_null :: "campaign_update \<Rightarrow> bool" where
  "not_null u \<longleftrightarrow> cu_name u \<noteq> Some None \<and> cu_target_audience u \<noteq> Some None \<and> cu_objective u \<noteq> Some None"

definition set_targets :: "campaign_update \<Rightarrow> campaign_row \<Rightarrow> (py_error, campaign_row) res" where
  "set_targets u c =
     (if (case cu_target_cpa u of Some v \<Rightarrow> number_or_0 v \<le> 0 | None \<Rightarrow> False)
      then Inl (ValidationFailure ''target_cpa must be greater than zero'')
      else if (case cu_target_roas u of Some v \<Rightarrow> number_or_0 v \<le> 0 | None \<Rightarrow> False)
      then Inl (ValidationFailure ''target_roas must be greater than zero'')
      else Inr (c\<lparr>cp_target_cpa := (case cu_target_cpa u of Some v \<Rightarrow> Fin (number_or_0 v) | None \<Rightarrow> cp_target_cpa c),
                  cp_target_roas := (case cu_target_roas u of Some v \<Rightarrow> Fin (number_or_0 v) | None \<Rightarrow> cp_target_roas c)\<rparr>))"

definition set_end :: "campaign_update \<Rightarrow> campaign_row \<Rightarrow> (py_error, campaign_row) res" where
  "set_end u c =
     (case cu_end_date u of
        None \<Rightarrow> Inr c
      | Some v \<Rightarrow> if (case v of Some d \<Rightarrow> d < cp_start_date c | None \<Rightarrow> False)
                  then Inl (ValidationFailure ''end_date cannot precede start_date'') else Inr (c\<lparr>cp_end_date := v\<rparr>))"

definition updated_row :: "campaign_update \<Rightarrow> campaign_row \<Rightarrow> (py_error, campaign_row) res" where
  "updated_row u c =
     bind_res (set_status u c) (\<lambda>c1. bind_res (set_budgets u c1) (\<lambda>c2.
       bind_res (set_targets u (set_texts u c2)) (set_end u)))"

definition update_campaign :: "string \<Rightarrow> campaign_update \<Rightarrow> action_db \<Rightarrow> (py_error, campaign_row) res \<times> action_db" where
  "update_campaign cid u db =
     (case bind_res (get_campaign cid db) (updated_row u) of
        Inl e \<Rightarrow> (Inl e, db)
      | Inr c \<Rightarrow> if \<not> not_null u then (Inl (constraint_error ''NOT NULL''), db)
                 else if external_taken c db then (Inl (constraint_error ''UNIQUE''), db)
                 else (Inr c, put_campaign c db))"

text \<open>The creatives go with their campaign; experiments and proposals only carry its id and stay.\<close>

definition delete_campaign :: "string \<Rightarrow> action_db \<Rightarrow> (py_error, unit) res \<times> action_db" where
  "delete_campaign cid db =
     (case get_campaign cid db of
        Inl e \<Rightarrow> (Inl e, db)
      | Inr c \<Rightarrow> (Inr (), db\<lparr>ad_campaigns := filter (\<lambda>(k, r). k \<noteq> cid) (ad_campaigns db),
                            ad_creatives := filter (\<lambda>(k, x). ce_campaign_id x \<noteq> cid) (ad_creatives db)\<rparr>))"

subsection \<open>Creatives\<close>

definition add_creative :: "int \<Rightarrow> string \<Rightarrow> string \<Rightarrow> creative_create \<Rightarrow> action_db \<Rightarrow> (py_error, creative_entity) res \<times> action_db" where
  "add_creative now new_id cid p db =
     (case get_campaign cid db of
        Inl e \<Rightarrow> (Inl e, db)
      | Inr c \<Rightarrow>
          let headline = strip (cc_headline p)
          in if length headline < 4 then (Inl (ValidationFailure ''headline must be at least 4 characters''), db)
             else insert_creative
               \<lparr>ce_id = new_id, ce_campaign_id = cid, ce_headline = take 300 headline, ce_description = take 2000 (cc_description p),
                ce_cta_text = take 60 (cc_cta_text p), ce_creative_type = cc_creative_type p, ce_target_emotion = cc_target_emotion p,
                ce_status = creative_status_value (cc_status p), ce_ab_group = cc_ab_group p, ce_origin = cc_origin p,
                ce_created_at = now\<rparr> db)"

definition set_creative_status :: "string \<Rightarrow> string \<Rightarrow> creative_status \<Rightarrow> action_db \<Rightarrow> (py_error, creative_entity) res \<times> action_db" where
  "set_creative_status cid xid status db =
     (case get_creative xid db of
        Inl e \<Rightarrow> (Inl e, db)
      | Inr x \<Rightarrow>
          if ce_campaign_id x \<noteq> cid
          then (Inl (NotFoundError (''Creative '' @ xid @ '' does not belong to campaign '' @ cid)), db)
          else let x' = x\<lparr>ce_status := creative_status_value status\<rparr> in (Inr x', put_creative x' db))"

subsection \<open>The endpoints\<close>

datatype campaign_request =
    CCreate campaign_create
  | CUpdate string campaign_update
  | CDelete string
  | CAddCreative string creative_create
  | CCreativeStatus string string creative_status

record campaign_env =
  cn_today :: int
  cn_now :: int
  cn_new_id :: string

definition audit_campaign :: "string \<Rightarrow> string \<Rightarrow> token_claims \<Rightarrow> json_dict option \<Rightarrow> json_dict option \<Rightarrow> action_db \<Rightarrow> action_db" where
  "audit_campaign action cid claims before after =
     add_audit (audit_entry action ''campaign'' (Some cid) (Some claims) before after None)"

definition budget_and_status :: "campaign_row \<Rightarrow> json_dict" where
  "budget_and_status c = [(''daily_budget'', JFloat (cp_daily_budget c)), (''status'', JStr (cp_status c))]"

definition campaign_work :: "campaign_env \<Rightarrow> token_claims \<Rightarrow> campaign_request \<Rightarrow> action_db \<Rightarrow> (py_error, unit) res \<times> action_db" where
  "campaign_work env claims rq db =
     (case rq of
        CCreate p \<Rightarrow>
          (case create_campaign (cn_today env) (cn_new_id env) (Some (tc_subject claims)) p db of
             (Inl e, db1) \<Rightarrow> (Inl e, db1)
           | (Inr c, db1) \<Rightarrow> (Inr (), audit_campaign ''campaign.created'' (cp_id c) claims None
                               (Some [(''name'', JStr (cp_name c)), (''platform'', JStr (cp_platform c))]) db1))
      | CUpdate cid u \<Rightarrow>
          (case get_campaign cid db of
             Inl e \<Rightarrow> (Inl e, db)
           | Inr before \<Rightarrow>
               (case update_campaign cid u db of
                  (Inl e, db1) \<Rightarrow> (Inl e, db1)
                | (Inr c, db1) \<Rightarrow> (Inr (), audit_campaign ''campaign.updated'' cid claims (Some (budget_and_status before))
                                    (Some (budget_and_status c)) db1)))
      | CDelete cid \<Rightarrow>
          (case delete_campaign cid db of
             (Inl e, db1) \<Rightarrow> (Inl e, db1) | (Inr u, db1) \<Rightarrow> (Inr (), audit_campaign ''campaign.deleted'' cid claims None None db1))
      | CAddCreative cid p \<Rightarrow> drop_value (add_creative (cn_now env) (cn_new_id env) cid p db)
      | CCreativeStatus cid xid status \<Rightarrow> drop_value (set_creative_status cid xid status db))"

definition needed_permission :: "campaign_request \<Rightarrow> permission" where
  "needed_permission rq = (case rq of CAddCreative _ _ \<Rightarrow> PERM_CREATIVE_WRITE | CCreativeStatus _ _ _ \<Rightarrow> PERM_CREATIVE_WRITE | _ \<Rightarrow> PERM_CAMPAIGN_WRITE)"

definition valid_payload :: "campaign_request \<Rightarrow> bool" where
  "valid_payload rq = (case rq of CCreate p \<Rightarrow> valid_create p | CUpdate cid u \<Rightarrow> valid_update u | CAddCreative cid p \<Rightarrow> valid_creative p | _ \<Rightarrow> True)"

text \<open>One request: what raises leaves the database as it was.\<close>

definition handle_campaign :: "campaign_env \<Rightarrow> token_claims \<Rightarrow> campaign_request \<Rightarrow> action_db \<Rightarrow> (py_error, unit) res \<times> action_db" where
  "handle_campaign env claims rq db =
     (case require_permission (needed_permission rq) claims of
        Inl e \<Rightarrow> (Inl e, db)
      | Inr _ \<Rightarrow> if \<not> valid_payload rq then (Inl payload_error, db)
                 else (case campaign_work env claims rq db of (Inl e, db1) \<Rightarrow> (Inl e, db) | (Inr u, db1) \<Rightarrow> (Inr (), db1)))"

subsection \<open>What a run reads\<close>

record existing_creative = creative_row +
  ec_origin :: string

definition creative_entry :: "(string, creative_row_stats) dict \<Rightarrow> creative_entity \<Rightarrow> existing_creative" where
  "creative_entry stats x =
     (let figure = (\<lambda>f. case map_of stats (ce_id x) of Some r \<Rightarrow> f r | None \<Rightarrow> 0);
          money = (\<lambda>f. case map_of stats (ce_id x) of Some r \<Rightarrow> f r | None \<Rightarrow> 0)
      in \<lparr>cr_creative_id = ce_id x, cr_headline = ce_headline x, cr_status = ce_status x, cr_impressions = figure cs_impressions,
          cr_clicks = figure cs_clicks, cr_conversions = figure cs_conversions, cr_cost = money cs_cost, cr_revenue = money cs_revenue,
          cr_ab_group = ce_ab_group x, ec_origin = ce_origin x\<rparr>)"

text \<open>\<open>_existing_creative_map\<close>; a later row of the same creative replaces an earlier one.\<close>

definition existing_creative_map :: "int \<Rightarrow> string list \<Rightarrow> action_db \<Rightarrow> daily_metric list \<Rightarrow> (string, existing_creative list) dict" where
  "existing_creative_map today ids db table =
     (let stats = creative_stats today 30 ids table
      in fold (\<lambda>cid. AList.update cid
           (map (creative_entry (map (\<lambda>r. (cs_creative_id r, r)) (rev (case map_of stats cid of Some rs \<Rightarrow> rs | None \<Rightarrow> []))))
              (creatives_of cid db))) ids [])"

record run_inputs =
  ri_campaign_ids :: "string list"
  ri_snapshots :: "snapshot list"
  ri_campaign_refs :: "(string, campaign_ref) dict"
  ri_daily_budgets :: "(string, pyfloat) dict"
  ri_campaign_targets :: "(string, (string, pyfloat) dict) dict"
  ri_creative_stats :: "(string, creative_row_stats list) dict"
  ri_reach :: "(string, int) dict"
  ri_existing_creatives :: "(string, existing_creative list) dict"

definition MAX_CAMPAIGNS_PER_RUN :: nat where
  "MAX_CAMPAIGNS_PER_RUN = 500"

definition run_campaigns :: "string list \<Rightarrow> action_db \<Rightarrow> string list" where
  "run_campaigns named db = (if named \<noteq> [] then named else map cp_id (active_campaigns MAX_CAMPAIGNS_PER_RUN db))"

definition collect_run_inputs :: "int \<Rightarrow> int \<Rightarrow> string list \<Rightarrow> action_db \<Rightarrow> daily_metric list \<Rightarrow> (py_error, run_inputs) res" where
  "collect_run_inputs today days named db table =
     (let ids = run_campaigns named db
      in if ids = [] then Inl (NotFoundError ''No active campaigns are available to optimize'')
         else bind_res (snapshots today days ids (ad_campaigns db) table) (\<lambda>ss.
           if ss = [] then Inl (ConflictError (''The selected campaigns have no delivery data in the last '' @ show_int days @ '' days''))
           else Inr \<lparr>ri_campaign_ids = ids, ri_snapshots = ss, ri_campaign_refs = refs ids db, ri_daily_budgets = daily_budgets ids db,
                     ri_campaign_targets = campaign_targets ids db, ri_creative_stats = creative_stats today days ids table,
                     ri_reach = reach today days ids table, ri_existing_creatives = existing_creative_map today ids db table\<rparr>))"

end
