(* ===== verification/CampaignFlow.thy ===== *)
theory CampaignFlow
  imports Campaigns ActionFlow
begin

text \<open>
  Administration and execution on one database: what every campaign and creative keeps under any sequence of
  administrative requests and executed actions, where the two disagree about budgets, and what the inputs of
  a run have in common.
\<close>

subsection \<open>Sound tables\<close>

definition row_ok :: "campaign_row \<Rightarrow> bool" where
  "row_ok c \<longleftrightarrow> (\<exists>x. cp_target_cpa c = Fin x \<and> 0 < x) \<and> (\<exists>x. cp_target_roas c = Fin x \<and> 0 < x)
     \<and> (\<forall>d. cp_end_date c = Some d \<longrightarrow> cp_start_date c \<le> d)"

definition creative_ok :: "creative_entity \<Rightarrow> bool" where
  "creative_ok x \<longleftrightarrow> 4 \<le> length (ce_headline x) \<and> length (ce_headline x) \<le> 300"

text \<open>
  Rows are stored under their ids, targets are positive, a campaign does not end before it starts, no two campaigns
  share a network id, and a creative has a usable headline and an existing campaign.
\<close>

definition sound_tables :: "(string, campaign_row) dict \<Rightarrow> (string, creative_entity) dict \<Rightarrow> bool" where
  "sound_tables cs xs \<longleftrightarrow> distinct (map fst cs) \<and> distinct (map fst xs)
     \<and> (\<forall>k c. map_of cs k = Some c \<longrightarrow> cp_id c = k \<and> row_ok c)
     \<and> (\<forall>k c k' c'. map_of cs k = Some c \<longrightarrow> map_of cs k' = Some c' \<longrightarrow> k \<noteq> k' \<longrightarrow> cp_platform c = cp_platform c'
          \<longrightarrow> cp_external_id c = cp_external_id c' \<longrightarrow> cp_external_id c = None)
     \<and> (\<forall>k x. map_of xs k = Some x \<longrightarrow> ce_id x = k \<and> creative_ok x \<and> map_of cs (ce_campaign_id x) \<noteq> None)"

definition catalogue_ok :: "action_db \<Rightarrow> bool" where
  "catalogue_ok db \<longleftrightarrow> sound_tables (ad_campaigns db) (ad_creatives db)"

definition covered :: "campaign_row \<Rightarrow> bool" where
  "covered c \<longleftrightarrow> (\<exists>d t. cp_daily_budget c = Fin d \<and> cp_total_budget c = Fin t \<and> 0 < d \<and> (t = 0 \<or> d \<le> t))"

definition budgets_ok :: "action_db \<Rightarrow> bool" where
  "budgets_ok db \<longleftrightarrow> (\<forall>k c. map_of (ad_campaigns db) k = Some c \<longrightarrow> covered c)"

lemma sound_tablesD:
  assumes "sound_tables cs xs"
  shows "map_of cs k = Some c \<Longrightarrow> cp_id c = k \<and> row_ok c"
    and "map_of xs j = Some x \<Longrightarrow> ce_id x = j \<and> creative_ok x \<and> map_of cs (ce_campaign_id x) \<noteq> None"
  using assms unfolding sound_tables_def by blast+

lemma not_taken:
  assumes "\<not> external_taken c db" "map_of (ad_campaigns db) k = Some r" "k \<noteq> cp_id c" "cp_platform r = cp_platform c"
    "cp_external_id r = cp_external_id c"
  shows "cp_external_id c = None"
  using assms by (auto simp: external_taken_def list_ex_iff dest!: map_of_SomeD)

lemma sound_put_campaign:
  assumes s: "sound_tables cs xs" and c: "map_of cs (cp_id c') = Some c" and ok: "row_ok c'"
    and ext: "\<And>k r. map_of cs k = Some r \<Longrightarrow> k \<noteq> cp_id c' \<Longrightarrow> cp_platform r = cp_platform c' \<Longrightarrow> cp_external_id r = cp_external_id c'
       \<Longrightarrow> cp_external_id c' = None"
  shows "sound_tables (AList.update (cp_id c') c' cs) xs"
proof -
  have ext': "cp_external_id r = None"
    if "map_of cs k = Some r" "k \<noteq> cp_id c'" "cp_platform c' = cp_platform r" "cp_external_id c' = cp_external_id r" for k r
    using ext [OF that(1,2)] that(3,4) by simp
  show ?thesis
    using s ok ext ext' unfolding sound_tables_def update_conv'
    by (auto simp: distinct_update split: if_splits) 
qed

lemma sound_put_creative:
  assumes "sound_tables cs xs" "map_of xs (ce_id x') = Some x" "ce_campaign_id x' = ce_campaign_id x" "ce_headline x' = ce_headline x"
  shows "sound_tables cs (AList.update (ce_id x') x' xs)"
  using assms sound_tablesD(2) [OF assms(1,2)] unfolding sound_tables_def update_conv'
  by (auto simp: distinct_update creative_ok_def)

lemma sound_insert_campaign:
  assumes "sound_tables (ad_campaigns db) xs" "map_of (ad_campaigns db) (cp_id c) = None" "\<not> external_taken c db" "row_ok c"
  shows "sound_tables (ad_campaigns db @ [(cp_id c, c)]) xs"
proof -
  have new: "map_of (ad_campaigns db @ [(cp_id c, c)]) k = (if k = cp_id c then Some c else map_of (ad_campaigns db) k)" for k
    using assms(2) by (auto simp: map_add_def split: option.split)
  have key: "cp_id c \<notin> fst ` set (ad_campaigns db)" using assms(2) by (simp add: map_of_eq_None_iff)
  have ext: "cp_external_id r = None"
    if "map_of (ad_campaigns db) k = Some r" "k \<noteq> cp_id c" "cp_platform c = cp_platform r" "cp_external_id c = cp_external_id r" for k r
    using not_taken [OF assms(3) that(1,2)] that(3,4) by simp
  show ?thesis
    using assms(1,4) key ext not_taken [OF assms(3)] unfolding sound_tables_def new by (auto split: if_splits)
qed

lemma sound_insert_creative:
  assumes "sound_tables cs xs" "map_of xs (ce_id x) = None" "map_of cs (ce_campaign_id x) \<noteq> None" "creative_ok x"
  shows "sound_tables cs (xs @ [(ce_id x, x)])"
proof -
  have "map_of (xs @ [(ce_id x, x)]) k = (if k = ce_id x then Some x else map_of xs k)" for k
    using assms(2) by (auto simp: map_add_def split: option.split)
  then show ?thesis using assms unfolding sound_tables_def by (auto simp: map_of_eq_None_iff)
qed

lemma map_of_filter_value:
  "distinct (map fst xs) \<Longrightarrow> map_of (filter (\<lambda>(k, v). P v) xs) k = (case map_of xs k of Some v \<Rightarrow> if P v then Some v else None | None \<Rightarrow> None)"
proof (induction xs)
  case (Cons p xs)
  obtain a b where p: "p = (a, b)" by (rule prod.exhaust)
  have "map_of xs a = None" using Cons.prems by (simp add: p map_of_eq_None_iff)
  then show ?case using Cons by (auto simp: p)
qed simp

lemma sound_delete_campaign:
  assumes "sound_tables cs xs"
  shows "sound_tables (filter (\<lambda>(k, r). k \<noteq> cid) cs) (filter (\<lambda>(k, x). ce_campaign_id x \<noteq> cid) xs)"
proof -
  have d: "distinct (map fst cs)" "distinct (map fst xs)" using assms by (simp_all add: sound_tables_def)
  have "distinct (map fst (filter P cs))" "distinct (map fst (filter Q xs))" for P Q
    using d distinct_map_filter by blast+
  then show ?thesis
    using assms unfolding sound_tables_def map_of_filter_case [where P = "\<lambda>k. k \<noteq> cid"] map_of_filter_value [OF d(2)]
    by (auto split: option.splits if_splits)
qed

subsection \<open>Administrative requests\<close>

lemma set_status_keeps:
  "set_status u c = Inr c1 \<Longrightarrow> cp_id c1 = cp_id c \<and> row_ok c1 = row_ok c \<and> covered c1 = covered c"
  by (auto simp: set_status_def row_ok_def covered_def split: option.splits)

lemma set_budgets_keeps:
  "set_budgets u c = Inr c1 \<Longrightarrow> cp_id c1 = cp_id c \<and> row_ok c1 = row_ok c \<and> (covered c \<longrightarrow> covered c1)"
  by (auto simp: set_budgets_def row_ok_def covered_def float_less_def Let_def split: option.splits if_splits)

lemma set_texts_keeps [simp]:
  "cp_id (set_texts u c) = cp_id c" "row_ok (set_texts u c) = row_ok c" "covered (set_texts u c) = covered c"
  by (simp_all add: set_texts_def row_ok_def covered_def)

lemma set_targets_keeps:
  "set_targets u c = Inr c1 \<Longrightarrow> cp_id c1 = cp_id c \<and> (row_ok c \<longrightarrow> row_ok c1) \<and> covered c1 = covered c"
  by (auto simp: set_targets_def row_ok_def covered_def split: option.splits if_splits)

lemma set_end_keeps:
  "set_end u c = Inr c1 \<Longrightarrow> cp_id c1 = cp_id c \<and> (row_ok c \<longrightarrow> row_ok c1) \<and> covered c1 = covered c"
  by (cases "cu_end_date u") (auto simp: set_end_def row_ok_def covered_def split: option.splits if_splits)

lemma updated_row_keeps:
  assumes "updated_row u c = Inr c'"
  shows "cp_id c' = cp_id c \<and> (row_ok c \<longrightarrow> row_ok c') \<and> (covered c \<longrightarrow> covered c')"
proof -
  obtain c1 c2 c3 where "set_status u c = Inr c1" "set_budgets u c1 = Inr c2" "set_targets u (set_texts u c2) = Inr c3"
    "set_end u c3 = Inr c'"
    using assms by (auto simp: updated_row_def bind_res_Inr_iff)
  then show ?thesis
    using set_status_keeps [of u c c1] set_budgets_keeps [of u c1 c2] set_targets_keeps [of u "set_texts u c2" c3] set_end_keeps [of u c3 c']
    by simp
qed

lemma create_campaign_cases:
  assumes "create_campaign today i actor p db = (Inr c, db1)" "valid_create p"
  shows "db1 = db\<lparr>ad_campaigns := ad_campaigns db @ [(cp_id c, c)]\<rparr> \<and> map_of (ad_campaigns db) (cp_id c) = None
    \<and> \<not> external_taken c db \<and> row_ok c \<and> covered c"
  using assms
  by (auto simp: create_campaign_def insert_campaign_def valid_create_def row_ok_def covered_def or_number_def Let_def
      split: if_splits option.splits)

lemma add_creative_cases:
  assumes "add_creative now i cid p db = (Inr x, db1)"
  shows "db1 = db\<lparr>ad_creatives := ad_creatives db @ [(ce_id x, x)]\<rparr> \<and> map_of (ad_creatives db) (ce_id x) = None
    \<and> ce_campaign_id x = cid \<and> map_of (ad_campaigns db) cid \<noteq> None \<and> creative_ok x"
  using assms
  by (auto simp: add_creative_def insert_creative_def get_campaign_def creative_ok_def Let_def split: if_splits sum.splits option.splits)

lemma drop_value_Inr: "drop_value p = (Inr u, s) \<longleftrightarrow> (\<exists>x. p = (Inr x, s))"
  by (cases p; cases "fst p") (auto simp: drop_value_def)

text \<open>What a successful request did to the two tables.\<close>

inductive catalogue_change :: "action_db \<Rightarrow> action_db \<Rightarrow> bool" where
  created: "map_of (ad_campaigns db) (cp_id c) = None \<Longrightarrow> \<not> external_taken c db \<Longrightarrow> row_ok c \<Longrightarrow> covered c
    \<Longrightarrow> ad_campaigns db' = ad_campaigns db @ [(cp_id c, c)] \<Longrightarrow> ad_creatives db' = ad_creatives db \<Longrightarrow> catalogue_change db db'"
| updated: "map_of (ad_campaigns db) k = Some c \<Longrightarrow> updated_row u c = Inr c' \<Longrightarrow> \<not> external_taken c' db
    \<Longrightarrow> ad_campaigns db' = AList.update (cp_id c') c' (ad_campaigns db) \<Longrightarrow> ad_creatives db' = ad_creatives db \<Longrightarrow> catalogue_change db db'"
| deleted: "ad_campaigns db' = filter (\<lambda>(k, r). k \<noteq> cid) (ad_campaigns db)
    \<Longrightarrow> ad_creatives db' = filter (\<lambda>(k, x). ce_campaign_id x \<noteq> cid) (ad_creatives db) \<Longrightarrow> catalogue_change db db'"
| creative_added: "map_of (ad_creatives db) (ce_id x) = None \<Longrightarrow> map_of (ad_campaigns db) (ce_campaign_id x) \<noteq> None \<Longrightarrow> creative_ok x
    \<Longrightarrow> ad_campaigns db' = ad_campaigns db \<Longrightarrow> ad_creatives db' = ad_creatives db @ [(ce_id x, x)] \<Longrightarrow> catalogue_change db db'"
| creative_changed: "map_of (ad_creatives db) k = Some x \<Longrightarrow> ad_campaigns db' = ad_campaigns db
    \<Longrightarrow> ad_creatives db' = AList.update (ce_id x) (x\<lparr>ce_status := s\<rparr>) (ad_creatives db) \<Longrightarrow> catalogue_change db db'"

lemma audit_campaign_tables [simp]:
  "ad_campaigns (audit_campaign n k cl b f db) = ad_campaigns db" "ad_creatives (audit_campaign n k cl b f db) = ad_creatives db"
  "ad_actions (audit_campaign n k cl b f db) = ad_actions db"
  by (simp_all add: audit_campaign_def add_audit_def)

lemma handle_campaign_change:
  assumes "handle_campaign env cl rq db = (r, db')"
  shows "db' = db \<or> catalogue_change db db'"
proof (cases r)
  case (Inl e)
  then show ?thesis using assms by (auto simp: handle_campaign_def split: sum.splits if_splits prod.splits)
next
  case (Inr u)
  then have work: "campaign_work env cl rq db = (Inr (), db')" and ok: "valid_payload rq"
    using assms by (auto simp: handle_campaign_def split: sum.splits if_splits prod.splits)
  show ?thesis
  proof (cases rq)
    case (CCreate p)
    then obtain c db1 where c: "create_campaign (cn_today env) (cn_new_id env) (Some (tc_subject cl)) p db = (Inr c, db1)"
      and "db' = audit_campaign ''campaign.created'' (cp_id c) cl None
        (Some [(''name'', JStr (cp_name c)), (''platform'', JStr (cp_platform c))]) db1"
      using work by (auto simp: campaign_work_def split: prod.splits sum.splits)
    then show ?thesis using create_campaign_cases [OF c] ok CCreate by (auto simp: valid_payload_def intro: created)
  next
    case (CUpdate cid u)
    then obtain b c where "map_of (ad_campaigns db) cid = Some b" "updated_row u b = Inr c" "\<not> external_taken c db"
      "db' = audit_campaign ''campaign.updated'' cid cl (Some (budget_and_status b)) (Some (budget_and_status c)) (put_campaign c db)"
      using work by (auto simp: campaign_work_def update_campaign_def get_campaign_def split: prod.splits sum.splits option.splits if_splits)
    then show ?thesis by (auto simp: put_campaign_def intro: updated)
  next
    case (CDelete cid)
    then show ?thesis using work
      by (auto simp: campaign_work_def delete_campaign_def split: prod.splits sum.splits intro!: deleted [of _ cid])
  next
    case (CAddCreative cid p)
    then obtain x where "add_creative (cn_now env) (cn_new_id env) cid p db = (Inr x, db')"
      using work by (auto simp: campaign_work_def drop_value_Inr)
    from add_creative_cases [OF this] show ?thesis by (intro disjI2 creative_added [of db x]) simp_all
  next
    case (CCreativeStatus cid xid s)
    then obtain y where y: "set_creative_status cid xid s db = (Inr y, db')" using work by (auto simp: campaign_work_def drop_value_Inr)
    then obtain x where "map_of (ad_creatives db) xid = Some x" "db' = put_creative (x\<lparr>ce_status := creative_status_value s\<rparr>) db"
      by (cases "map_of (ad_creatives db) xid") (auto simp: set_creative_status_def get_creative_def Let_def split: if_splits)
    then show ?thesis by (intro disjI2 creative_changed [of db xid x]) (simp_all add: put_creative_def)
  qed
qed

lemma catalogue_change_ok:
  assumes "catalogue_change db db'" "catalogue_ok db"
  shows "catalogue_ok db' \<and> (budgets_ok db \<longrightarrow> budgets_ok db')"
  using assms
proof (induction rule: catalogue_change.induct)
  case (created db c db')
  then show ?case
    using sound_insert_campaign [of db "ad_creatives db" c]
    by (auto simp: catalogue_ok_def budgets_ok_def map_add_def split: option.splits if_splits)
next
  case (updated db k c u c' db')
  have s: "sound_tables (ad_campaigns db) (ad_creatives db)" using updated.prems by (simp add: catalogue_ok_def)
  then have c: "cp_id c = k" "row_ok c" using sound_tablesD(1) updated.hyps(1) by blast+
  then have c': "row_ok c'" "cp_id c' = k" using updated_row_keeps [OF updated.hyps(2)] by simp_all
  then have "catalogue_ok db'"
    using sound_put_campaign [OF s, of c' c] updated.hyps not_taken [OF updated.hyps(3)] by (simp add: catalogue_ok_def)
  moreover have "budgets_ok db \<longrightarrow> budgets_ok db'"
    using updated.hyps(1,4) c' updated_row_keeps [OF updated.hyps(2)] by (auto simp: budgets_ok_def update_conv')
  ultimately show ?case by blast
next
  case (deleted db' cid db)
  then show ?case
    using sound_delete_campaign [of "ad_campaigns db" "ad_creatives db" cid]
    by (simp add: catalogue_ok_def budgets_ok_def map_of_filter_case [where P = "\<lambda>k. k \<noteq> cid"])
next
  case (creative_added db x db')
  then show ?case using sound_insert_creative [of "ad_campaigns db" "ad_creatives db" x] by (simp add: catalogue_ok_def budgets_ok_def)
next
  case (creative_changed db k x db' s)
  have s: "sound_tables (ad_campaigns db) (ad_creatives db)" using creative_changed.prems by (simp add: catalogue_ok_def)
  then have "ce_id x = k" using sound_tablesD(2) creative_changed.hyps(1) by blast
  then show ?case
    using creative_changed.hyps sound_put_creative [OF s, of "x\<lparr>ce_status := s\<rparr>" x] by (simp add: catalogue_ok_def budgets_ok_def)
qed

subsection \<open>Executed actions\<close>

lemma other_catalogue [simp]:
  "ad_creatives (put_campaign c db) = ad_creatives db" "ad_campaigns (put_creative x db) = ad_campaigns db"
  "ad_creatives (put_action a db) = ad_creatives db" "ad_creatives (audit_action n k cl b f m db) = ad_creatives db"
  "ad_campaigns (start_ab_test env a db) = ad_campaigns db" "ad_creatives (start_ab_test env a db) = ad_creatives db"
  by (simp_all add: put_campaign_def put_creative_def put_action_def audit_action_def add_audit_def start_ab_test_def Let_def)

definition same_identity :: "campaign_row \<Rightarrow> campaign_row \<Rightarrow> bool" where
  "same_identity c c' \<longleftrightarrow> cp_id c' = cp_id c \<and> cp_platform c' = cp_platform c \<and> cp_external_id c' = cp_external_id c
     \<and> row_ok c' = row_ok c"

lemma catalogue_put_campaign:
  assumes "catalogue_ok db" "map_of (ad_campaigns db) k = Some c" "same_identity c c'"
  shows "catalogue_ok (put_campaign c' db)"
proof -
  have s: "sound_tables (ad_campaigns db) (ad_creatives db)" using assms(1) by (simp add: catalogue_ok_def)
  then have c: "cp_id c = k" "row_ok c" using sound_tablesD(1) assms(2) by blast+
  have "sound_tables (AList.update (cp_id c') c' (ad_campaigns db)) (ad_creatives db)"
  proof (rule sound_put_campaign [OF s])
    show "map_of (ad_campaigns db) (cp_id c') = Some c" "row_ok c'" using assms c by (simp_all add: same_identity_def)
    show "cp_external_id c' = None"
      if "map_of (ad_campaigns db) j = Some r" "j \<noteq> cp_id c'" "cp_platform r = cp_platform c'" "cp_external_id r = cp_external_id c'" for j r
    proof -
      have "j \<noteq> k" "cp_platform r = cp_platform c" "cp_external_id r = cp_external_id c"
        using that assms(3) c by (simp_all add: same_identity_def)
      then have "cp_external_id r = None" using s that(1) assms(2) unfolding sound_tables_def by blast
      then show ?thesis using that(4) by simp
    qed
  qed
  then show ?thesis by (simp add: catalogue_ok_def put_campaign_def)
qed

lemma catalogue_put_creative:
  assumes "catalogue_ok db" "map_of (ad_creatives db) k = Some x"
  shows "catalogue_ok (put_creative (x\<lparr>ce_status := s\<rparr>) db)"
proof -
  have t: "sound_tables (ad_campaigns db) (ad_creatives db)" using assms(1) by (simp add: catalogue_ok_def)
  then have "ce_id x = k" using sound_tablesD(2) assms(2) by blast
  then show ?thesis using sound_put_creative [OF t, of "x\<lparr>ce_status := s\<rparr>" x] assms(2) by (simp add: catalogue_ok_def put_creative_def)
qed

lemma target_creative_stored:
  assumes "target_creative a db = Some x" "catalogue_ok db"
  shows "map_of (ad_creatives db) (ce_id x) = Some x"
proof -
  have s: "sound_tables (ad_campaigns db) (ad_creatives db)" using assms(2) by (simp add: catalogue_ok_def)
  have "\<exists>k. map_of (ad_creatives db) k = Some x"
  proof (cases "\<exists>k. map_of (ad_creatives db) k = Some x")
    case False
    then have "x \<in> set (creatives_of (oa_campaign_id a) db)"
      using assms(1) by (auto simp: target_creative_def Let_def split: option.splits if_splits list.splits)
    then have "x \<in> snd ` set (ad_creatives db)" by (auto simp: creatives_of_def dest!: in_set_takeD)
    then obtain k where "(k, x) \<in> set (ad_creatives db)" by force
    moreover have "distinct (map fst (ad_creatives db))" using s by (simp add: sound_tables_def)
    ultimately show ?thesis by (auto simp: map_of_eq_Some_iff)
  qed simp
  then show ?thesis using sound_tablesD(2) [OF s] by blast
qed

lemma apply_action_catalogue:
  assumes ok: "catalogue_ok (as_db st)"
  shows "catalogue_ok (as_db (snd (apply_action env a (map_of (ad_campaigns (as_db st)) (oa_campaign_id a)) st)))"
proof -
  let ?c = "map_of (ad_campaigns (as_db st)) (oa_campaign_id a)"
  have put: "catalogue_ok (as_db (case ?c of Some c \<Rightarrow> with_db (put_campaign (f c)) st | None \<Rightarrow> st))"
    if "\<And>c. same_identity c (f c)" for f
    using ok catalogue_put_campaign that by (auto split: option.split)
  have budget: "catalogue_ok (as_db (snd (apply_budget env a ?c cl pl st)))" for cl pl
    using ok put [of "\<lambda>c. c\<lparr>cp_daily_budget := r\<rparr>" for r]
    by (auto simp: apply_budget_def Let_def same_identity_def row_ok_def split: option.split)
  have status: "catalogue_ok (as_db (snd (apply_campaign_status env a ?c cl b pl st)))" for cl b pl
    using put [of "\<lambda>c. c\<lparr>cp_status := r\<rparr>" for r]
    by (auto simp: apply_campaign_status_def Let_def same_identity_def row_ok_def split: option.split)
  have creative: "catalogue_ok (as_db (snd (apply_creative_status env a cl b pl st)))" for cl b pl
    using ok catalogue_put_creative [OF ok target_creative_stored [OF _ ok]]
    by (auto simp: apply_creative_status_def Let_def split: option.split)
  have bid: "catalogue_ok (as_db (snd (apply_bid a ?c st)))"
    using ok put [of "\<lambda>c. c\<lparr>cp_current_bid_cpm := r\<rparr>" for r]
    by (auto simp: apply_bid_def same_identity_def row_ok_def split: option.split)
  show ?thesis
    using ok budget status creative bid
    by (auto simp: apply_action_def Let_def catalogue_ok_def split: option.split action_type.split)
qed

lemma same_catalogue:
  "ad_campaigns db' = ad_campaigns db \<Longrightarrow> ad_creatives db' = ad_creatives db \<Longrightarrow> catalogue_ok db' = catalogue_ok db"
  by (simp add: catalogue_ok_def)

lemma approve_catalogue [simp]: "catalogue_ok (snd (approve now cl m aid db)) = catalogue_ok db"
  by (rule same_catalogue) (simp_all add: approve_def Let_def split: sum.split)

lemma reject_catalogue [simp]: "catalogue_ok (snd (reject now cl m why aid db)) = catalogue_ok db"
  by (rule same_catalogue) (simp_all add: reject_def Let_def split: sum.split)

lemma bulk_approve_catalogue [simp]: "catalogue_ok (snd (bulk_approve now cl m q aids db)) = catalogue_ok db"
proof (induction aids arbitrary: db)
  case (Cons aid aids)
  obtain r db1 where a: "approve now cl m aid db = (r, db1)" by (rule prod.exhaust)
  then have "catalogue_ok db1 = catalogue_ok db" using approve_catalogue by (metis snd_conv)
  then show ?case
    using Cons.IH [of db] Cons.IH [of db1] by (simp add: Let_def split_beta a split: option.split sum.split)
qed simp

lemma execute_catalogue:
  assumes "catalogue_ok (as_db st)" "execute_action env now cl m aid st = (r, st')"
  shows "catalogue_ok (as_db st')"
proof (cases "bind_res (require_permission PERM_ACTION_EXECUTE cl) (\<lambda>u. bind_res (get_action aid (as_db st)) (admitted (ap_service env) now cl))")
  case (Inl e)
  then show ?thesis using assms by (simp add: execute_action_def)
next
  case (Inr a)
  let ?st0 = "with_db (put_action a) st"
  obtain q st1 where q: "apply_action env a (map_of (ad_campaigns (as_db ?st0)) (oa_campaign_id a)) ?st0 = (q, st1)"
    by (rule prod.exhaust)
  have "catalogue_ok (as_db ?st0)" using assms(1) by (simp add: catalogue_ok_def)
  then have ok: "catalogue_ok (as_db st1)" using apply_action_catalogue [of ?st0 env a] q by simp
  have "st' = with_db (record_failure cl m a e) st1 \<or> as_db st' = snd (record_success now cl m a x (as_db st1))"
    if "q = Inl e \<or> q = Inr x" for e x
    using that assms(2) Inr q by (auto simp: execute_action_def Let_def split_beta)
  moreover have "catalogue_ok (record_failure cl m a e (as_db st1))" "catalogue_ok (snd (record_success now cl m a x (as_db st1)))" for e x
    using ok by (simp_all add: catalogue_ok_def record_failure_def record_success_def Let_def)
  ultimately show ?thesis by (cases q) (metis with_db_simps(1))+
qed

lemma bulk_execute_catalogue:
  "catalogue_ok (as_db st) \<Longrightarrow> catalogue_ok (as_db (snd (snd (bulk_execute env now cl m aids st))))"
proof (induction aids arbitrary: st)
  case (Cons aid aids)
  obtain r st1 where e: "execute_action env now cl m aid st = (r, st1)" by (rule prod.exhaust)
  show ?case
    using Cons.IH [OF execute_catalogue [OF Cons.prems e]] by (simp add: e split_beta split: sum.split)
qed simp

lemma handle_action_catalogue:
  assumes "catalogue_ok (as_db st)" "handle_action env now cl m rq st = (r, st')"
  shows "catalogue_ok (as_db st')"
proof -
  have scope: "catalogue_ok (as_db (snd (drop_value (request_scope p st))))" if "catalogue_ok (as_db (snd p))" for p :: "(py_error, 'x) res \<times> 'a action_state"
    using that assms(1) by (cases p; cases "fst p") (auto simp: request_scope_def drop_value_def)
  have db: "catalogue_ok (as_db (snd (on_db f st)))" if "catalogue_ok (snd (f (as_db st)))" for f :: "action_db \<Rightarrow> (py_error, 'x) res \<times> action_db"
    using that by (simp add: on_db_def split_beta)
  have exec: "catalogue_ok (as_db (snd (execute_action env now cl m aid st)))" for aid
    using execute_catalogue [OF assms(1)] by (metis prod.collapse)
  have bulk: "catalogue_ok (as_db (snd (bulk_actions env now cl m q b aids st)))" for q b aids
  proof -
    obtain p st1 where p: "on_db (bulk_approve now cl m q aids) st = (p, st1)" by (rule prod.exhaust)
    then have "catalogue_ok (as_db st1)" using db [of "bulk_approve now cl m q aids"] assms(1) by simp
    then show ?thesis using assms(1) bulk_execute_catalogue [of st1] by (auto simp: bulk_actions_def p split: sum.split prod.split) (metis snd_conv)
  qed
  have "catalogue_ok (as_db (snd (handle_action env now cl m rq st)))"
    using assms(1) by (cases rq) (simp_all add: handle_action_def scope db exec bulk)
  then show ?thesis using assms(2) by simp
qed

subsection \<open>Any sequence of requests\<close>

inductive catalogue_step :: "'w action_state \<Rightarrow> 'w action_state \<Rightarrow> bool" where
  administered: "handle_campaign env cl rq (as_db st) = (r, db') \<Longrightarrow> catalogue_step st (st\<lparr>as_db := db'\<rparr>)"
| executed: "handle_action env now cl m rq st = (r, st') \<Longrightarrow> catalogue_step st st'"

abbreviation catalogue_steps where "catalogue_steps \<equiv> catalogue_step\<^sup>*\<^sup>*"

lemma catalogue_step_ok: "catalogue_step st st' \<Longrightarrow> catalogue_ok (as_db st) \<Longrightarrow> catalogue_ok (as_db st')"
proof (induction rule: catalogue_step.induct)
  case (administered env cl rq st r db')
  then show ?case using handle_campaign_change catalogue_change_ok by fastforce
next
  case (executed env now cl m rq st r st')
  then show ?case by (rule handle_action_catalogue [rotated])
qed

text \<open>
  C33. The catalogue stays sound: whatever administrative requests and executed actions are made in whatever order, every
  campaign keeps positive targets and an end after its start, no two campaigns share a network id, and
  every creative has a usable headline and an existing campaign, also after its campaign was deleted; and an
  administrative request never leaves a daily budget above the total one where none was before.
\<close>

theorem catalogue_stays_sound:
  assumes "catalogue_steps st st'" "catalogue_ok (as_db st)"
  shows "catalogue_ok (as_db st')
    \<and> (budgets_ok (as_db st') \<longrightarrow> (\<forall>env cl rq r db'. handle_campaign env cl rq (as_db st') = (r, db') \<longrightarrow> budgets_ok db'))"
proof -
  have ok: "catalogue_ok (as_db st')" using assms by (induction rule: rtranclp_induct) (auto intro: catalogue_step_ok)
  moreover have "budgets_ok db'" if "budgets_ok (as_db st')" "handle_campaign env cl rq (as_db st') = (r, db')" for env cl rq r db'
    using handle_campaign_change [OF that(2)] that(1) catalogue_change_ok [OF _ ok] by blast
  ultimately show ?thesis by blast
qed


subsection \<open>The inputs of a run\<close>

lemma map_of_selected:
  assumes "distinct (map fst cs)" "\<forall>k c. map_of cs k = Some c \<longrightarrow> cp_id c = k" "map_of cs k = Some c" "P c"
  shows "map_of (map (\<lambda>c. (cp_id c, f c)) (filter P (map snd cs))) k = Some (f c)"
proof (rule map_of_is_SomeI)
  have mem: "(k, c) \<in> set cs" "cp_id c = k" using assms by (auto dest: map_of_SomeD)
  have keys: "\<forall>(j, r)\<in>set cs. cp_id r = j" using assms(1,2) by (auto simp: map_of_eq_Some_iff)
  then have "map cp_id (map snd cs) = map fst cs" by (induction cs) auto
  then have "distinct (map cp_id (filter P (map snd cs)))" using assms(1) by (intro distinct_map_filter) (simp only:)
  then show "distinct (map fst (map (\<lambda>c. (cp_id c, f c)) (filter P (map snd cs))))" by (simp add: comp_def)
  show "(k, f c) \<in> set (map (\<lambda>c. (cp_id c, f c)) (filter P (map snd cs)))" using mem assms(4) by force
qed

lemma map_of_fold_same: "map_of (fold (\<lambda>k. AList.update k (f k)) ks d) k = (if k \<in> set ks then Some (f k) else map_of d k)"
  by (induction ks arbitrary: d) (auto simp: update_conv')

lemma keys_existing_creatives: "fst ` set (existing_creative_map today ids db table) = set ids"
  unfolding dom_map_of_conv_image_fst [symmetric]
  by (auto simp: existing_creative_map_def Let_def map_of_fold_same dom_def split: if_splits)

lemma active_stored:
  assumes "sound_tables (ad_campaigns db) xs" "k \<in> set (map cp_id (active_campaigns n db))"
  shows "\<exists>c. map_of (ad_campaigns db) k = Some c \<and> cp_status c = ''active''"
proof -
  obtain c j where "k = cp_id c" "(j, c) \<in> set (ad_campaigns db)" "cp_status c = ''active''"
    using assms(2) by (auto simp: active_campaigns_def dest!: in_set_takeD)
  moreover have "distinct (map fst (ad_campaigns db))" using assms(1) by (simp add: sound_tables_def)
  ultimately show ?thesis using sound_tablesD(1) [OF assms(1)] by (metis map_of_eq_Some_iff)
qed

lemma existing_creative_stored:
  assumes s: "sound_tables cs (ad_creatives db)" and e: "map_of (existing_creative_map today ids db table) k = Some es" "e \<in> set es"
  shows "\<exists>x. map_of (ad_creatives db) (cr_creative_id e) = Some x \<and> ce_campaign_id x = k"
proof -
  obtain stats x where x: "e = creative_entry stats x" "x \<in> set (creatives_of k db)"
    using e by (auto simp: existing_creative_map_def Let_def map_of_fold_same split: if_splits)
  then obtain j where "(j, x) \<in> set (ad_creatives db)" "ce_campaign_id x = k" by (auto simp: creatives_of_def dest!: in_set_takeD)
  then have "map_of (ad_creatives db) j = Some x" using s by (simp add: sound_tables_def)
  then have "map_of (ad_creatives db) (ce_id x) = Some x" using sound_tablesD(2) [OF s] by blast
  then show ?thesis using x \<open>ce_campaign_id x = k\<close> by (auto simp: creative_entry_def Let_def)
qed

text \<open>What the other inputs say of a campaign is what its row says.\<close>

definition described :: "run_inputs \<Rightarrow> string \<Rightarrow> campaign_row \<Rightarrow> bool" where
  "described ri k c \<longleftrightarrow> map_of (ri_campaign_refs ri) k = Some \<lparr>rf_platform = cp_platform c, rf_external_id = opt_str (cp_external_id c),
       rf_name = cp_name c, rf_status = cp_status c\<rparr>
     \<and> map_of (ri_daily_budgets ri) k = Some (cp_daily_budget c)
     \<and> map_of (ri_campaign_targets ri) k = Some [(''target_cpa'', cp_target_cpa c), (''target_roas'', cp_target_roas c)]"

lemma described_row:
  assumes "sound_tables (ad_campaigns db) xs" "map_of (ad_campaigns db) k = Some c" "k \<in> set ids"
    and "ri_campaign_refs ri = refs ids db" "ri_daily_budgets ri = daily_budgets ids db" "ri_campaign_targets ri = campaign_targets ids db"
  shows "described ri k c"
proof -
  have d: "distinct (map fst (ad_campaigns db))" and key: "\<forall>k c. map_of (ad_campaigns db) k = Some c \<longrightarrow> cp_id c = k"
    using assms(1) by (simp_all add: sound_tables_def)
  have "cp_id c \<in> set ids" "ids \<noteq> []" using key assms(2,3) by auto
  then show ?thesis
    by (simp add: described_def assms(4-) refs_def daily_budgets_def campaign_targets_def campaigns_by_ids_def
        map_of_selected [OF d key assms(2), where P = "\<lambda>c. cp_id c \<in> set ids"])
qed


subsection \<open>Concrete requests\<close>

definition spring_payload :: campaign_create where
  "spring_payload = \<lparr>ca_name = ''Spring'', ca_platform = PLATFORM_META, ca_daily_budget = 10, ca_total_budget = 300, ca_target_cpa = 100,
     ca_target_roas = 2, ca_start_date = None, ca_end_date = None, ca_objective = ''conversions'', ca_target_audience = [],
     ca_external_id = None\<rparr>"

definition admin_env :: campaign_env where
  "admin_env = \<lparr>cn_today = 0, cn_now = 0, cn_new_id = ''c1''\<rparr>"

definition admin_claims :: token_claims where
  "admin_claims = manager_claims\<lparr>tc_role := ROLE_ADMIN\<rparr>"

definition empty_desk :: "nat action_state" where
  "empty_desk = \<lparr>as_db = \<lparr>ad_actions = [], ad_campaigns = [], ad_creatives = [], ad_experiments = [], ad_audit = []\<rparr>,
     as_executor = new_executor, as_world = 0\<rparr>"

lemma admin_may_write: "has_permission admin_claims PERM_CAMPAIGN_WRITE"
  by (simp add: has_permission_def admin_claims_def manager_claims_def ROLE_PERMISSIONS_def permission_members_def)

theorem catalogue_stays_sound_witness:
  "\<exists>db. snd (handle_campaign admin_env admin_claims (CCreate spring_payload) (as_db empty_desk)) = db
     \<and> catalogue_ok db \<and> map_of (ad_campaigns db) ''c1'' \<noteq> None"
proof -
  let ?run = "handle_campaign admin_env admin_claims (CCreate spring_payload) (as_db empty_desk)"
  have "catalogue_step empty_desk (empty_desk\<lparr>as_db := snd ?run\<rparr>)"
    by (rule catalogue_step.administered [where r = "fst ?run"]) simp
  then have step: "catalogue_steps empty_desk (empty_desk\<lparr>as_db := snd ?run\<rparr>)" by blast
  have "catalogue_ok (as_db empty_desk)" by (simp add: catalogue_ok_def sound_tables_def empty_desk_def)
  with catalogue_stays_sound [OF step] have "catalogue_ok (snd ?run)" by simp
  moreover have "map_of (ad_campaigns (snd ?run)) ''c1'' \<noteq> None"
    using admin_may_write
    by (simp add: handle_campaign_def require_permission_def needed_permission_def valid_payload_def valid_create_def spring_payload_def sent_def
        campaign_work_def create_campaign_def insert_campaign_def external_taken_def empty_desk_def admin_env_def Let_def)
  ultimately show ?thesis by blast
qed

definition unsynced_desk :: "nat action_state" where
  "unsynced_desk = (desk [(''a1'', queued_action ''adjust_budget'' ''400'' ''approved'')] 0)
     \<lparr>as_db := (as_db (desk [(''a1'', queued_action ''adjust_budget'' ''400'' ''approved'')] (0 :: nat)))
        \<lparr>ad_campaigns := [(''c1'', running_campaign\<lparr>cp_external_id := None\<rparr>)]\<rparr>\<rparr>"



end
