(* ===== verification/Dashboard.thy ===== *)
theory Dashboard
  imports Metrics Dates Scoring Gateway Runs
begin

text \<open>
  The read models behind the dashboard, \<open>services/analytics.py\<close>: the overview, the daily trend, the detail of one
  campaign, the model spend and the rankings. They read the tables of the other theories and change nothing; groups
  come in the order of their first row, which SQL leaves open. Today's date is an argument.

  The trend and the portfolio are two folds of the same daily table; the theorem shows that they agree.
\<close>

subsection \<open>The daily trend\<close>

record trend_point =
  tp_date :: string
  tp_impressions :: int
  tp_clicks :: int
  tp_conversions :: int
  tp_cost :: real
  tp_revenue :: real
  tp_ctr :: real
  tp_cvr :: real
  tp_cpa :: "real option"
  tp_roas :: real

definition trend_point_of :: "int \<Rightarrow> slot_measures list \<Rightarrow> trend_point" where
  "trend_point_of d bs =
     (let i = sum_list (map sl_impressions bs); c = sum_list (map sl_clicks bs); v = sum_list (map sl_conversions bs);
          m = sum_list (map sl_cost bs); r = sum_list (map sl_revenue bs)
      in \<lparr>tp_date = iso_date d, tp_impressions = i, tp_clicks = c, tp_conversions = v, tp_cost = py_round 2 m,
          tp_revenue = py_round 2 r, tp_ctr = (if i = 0 then 0 else py_round 6 (of_int c / of_int i)),
          tp_cvr = (if c = 0 then 0 else py_round 6 (of_int v / of_int c)),
          tp_cpa = (if v = 0 then None else Some (py_round 2 (m / of_int v))),
          tp_roas = (if m = 0 then 0 else py_round 4 (r / m))\<rparr>)"

definition trend_days :: "(string \<times> int, slot_measures) dict \<Rightarrow> int list" where
  "trend_days slots = sort (remdups (map (snd \<circ> fst) slots))"

definition timeseries :: "int \<Rightarrow> int \<Rightarrow> string option \<Rightarrow> (string, campaign_row) dict \<Rightarrow> daily_metric list \<Rightarrow> trend_point list" where
  "timeseries today days cid campaigns table =
     (let ids = (case cid of None \<Rightarrow> [] | Some c \<Rightarrow> if c = [] then [] else [c]);
          slots = merged_slots (cutoff_for today days) ids campaigns table
      in map (\<lambda>d. trend_point_of d (map snd (filter (\<lambda>p. snd (fst p) = d) slots))) (trend_days slots))"

subsection \<open>Rankings\<close>

record leader =
  lb_campaign_id :: string
  lb_campaign_name :: string
  lb_roas :: real
  lb_ctr :: real
  lb_cvr :: real
  lb_cpa :: "real option"
  lb_cost :: real
  lb_revenue :: real
  lb_impressions :: int
  lb_conversions :: int

definition leader_of :: "snapshot \<Rightarrow> leader" where
  "leader_of s =
     \<lparr>lb_campaign_id = campaign_id s, lb_campaign_name = campaign_name s, lb_roas = roas s, lb_ctr = ctr s, lb_cvr = cvr s,
      lb_cpa = cpa s, lb_cost = py_round 2 (total_cost s), lb_revenue = py_round 2 (total_revenue s),
      lb_impressions = impressions s, lb_conversions = conversions s\<rparr>"

definition leaderboard :: "bool \<Rightarrow> snapshot list \<Rightarrow> leader list" where
  "leaderboard ascending ss = map leader_of (if ascending then sort_key roas ss else sort_desc roas ss)"

definition snapshots_by_spend :: "int \<Rightarrow> int \<Rightarrow> string list \<Rightarrow> (string, campaign_row) dict \<Rightarrow> daily_metric list \<Rightarrow> (py_error, snapshot list) res" where
  "snapshots_by_spend today days ids campaigns table =
     bind_res (snapshots today days ids campaigns table) (\<lambda>ss. Inr (sort_key (\<lambda>s. - total_cost s) ss))"

subsection \<open>Counts\<close>

definition group_counts :: "('a \<Rightarrow> string) \<Rightarrow> 'a list \<Rightarrow> (string, nat) dict" where
  "group_counts f xs = map (\<lambda>(k, ys). (k, length ys)) (group_by_key f xs [])"

definition count_of :: "string \<Rightarrow> (string, nat) dict \<Rightarrow> nat" where
  "count_of k d = (case map_of d k of Some n \<Rightarrow> n | None \<Rightarrow> 0)"

record alert_counts =
  ac_open :: nat
  ac_by_severity :: "(string, nat) dict"
  ac_acknowledged :: nat
  ac_resolved :: nat

definition count_alerts :: "alert_row list \<Rightarrow> alert_counts" where
  "count_alerts alerts =
     (let by_severity = group_counts aw_severity (filter (\<lambda>a. aw_status a \<noteq> ''resolved'') alerts)
      in \<lparr>ac_open = sum_list (map snd by_severity), ac_by_severity = by_severity,
          ac_acknowledged = length (filter (\<lambda>a. aw_status a = ''acknowledged'') alerts),
          ac_resolved = length (filter (\<lambda>a. aw_status a = ''resolved'') alerts)\<rparr>)"

record action_counts =
  nc_by_status :: "(string, nat) dict"
  nc_by_type :: "(string, nat) dict"
  nc_pending :: nat
  nc_executed :: nat

definition count_actions :: "action_row list \<Rightarrow> action_counts" where
  "count_actions actions =
     (let by_status = group_counts oa_status actions
      in \<lparr>nc_by_status = by_status, nc_by_type = group_counts oa_action_type actions,
          nc_pending = count_of (action_status_value ACTION_PROPOSED) by_status,
          nc_executed = count_of (action_status_value ACTION_EXECUTED) by_status\<rparr>)"

record run_counts =
  rc_by_status :: "(string, nat) dict"
  rc_total :: nat
  rc_active :: nat
  rc_latest_run_id :: "string option"
  rc_latest_run_at :: "int option"

definition latest_run :: "run_row list \<Rightarrow> run_row option" where
  "latest_run runs = max_by rr_created_at runs"

definition count_runs :: "run_row list \<Rightarrow> run_counts" where
  "count_runs runs =
     (let by_status = group_counts rr_status runs
      in \<lparr>rc_by_status = by_status, rc_total = sum_list (map snd by_status),
          rc_active = count_of (run_status_value RUN_RUNNING) by_status + count_of (run_status_value RUN_PENDING) by_status,
          rc_latest_run_id = map_option rr_id (latest_run runs), rc_latest_run_at = map_option rr_created_at (latest_run runs)\<rparr>)"

subsection \<open>The overview\<close>

record overview_page =
  ov_window_days :: int
  ov_portfolio :: "summary"
  ov_health_score :: real
  ov_health_status :: string
  ov_campaigns_total :: nat
  ov_campaigns_active :: nat
  ov_campaigns_paused :: nat
  ov_alerts :: alert_counts
  ov_actions :: action_counts
  ov_runs :: run_counts
  ov_best :: "leader list"
  ov_worst :: "leader list"

definition overview :: "int \<Rightarrow> int \<Rightarrow> (string, campaign_row) dict \<Rightarrow> daily_metric list \<Rightarrow> run_db \<Rightarrow> (py_error, overview_page) res" where
  "overview today days campaigns table db =
     bind_res (snapshots today days [] campaigns table) (\<lambda>ss.
       let portfolio = summarize ss; score = health_score portfolio;
           in_status = (\<lambda>st. length (filter (\<lambda>(k, c). cp_status c = st) campaigns))
       in Inr \<lparr>ov_window_days = days, ov_portfolio = portfolio, ov_health_score = py_round 2 score,
               ov_health_status = health_status score, ov_campaigns_total = length campaigns,
               ov_campaigns_active = in_status ''active'', ov_campaigns_paused = in_status ''paused'',
               ov_alerts = count_alerts (rd_alerts db), ov_actions = count_actions (map snd (rd_actions db)),
               ov_runs = count_runs (map snd (rd_runs db)), ov_best = take 5 (leaderboard False ss),
               ov_worst = take 5 (leaderboard True ss)\<rparr>)"

subsection \<open>One campaign\<close>

record scored_creative =
  sx_stats :: creative_row_stats
  sx_score :: real
  sx_components :: "(string, real) dict"

definition scored_of :: "creative_row_stats \<Rightarrow> scored_creative" where
  "scored_of r =
     (let b = score_performance (cs_impressions r) (cs_clicks r) (cs_conversions r) (cs_cost r) (cs_revenue r)
      in \<lparr>sx_stats = r, sx_score = py_round 2 (sb_total b), sx_components = score_as_dict b\<rparr>)"

definition campaign_breakdown :: "int \<Rightarrow> int \<Rightarrow> string \<Rightarrow> (string, campaign_row) dict \<Rightarrow> daily_metric list
   \<Rightarrow> (py_error, (string, pyval) dict option \<times> scored_creative list) res" where
  "campaign_breakdown today days cid campaigns table =
     bind_res (snapshots today days [cid] campaigns table) (\<lambda>ss.
       let rows = (case map_of (creative_stats today days [cid] table) cid of Some rs \<Rightarrow> rs | None \<Rightarrow> []);
           scored = sort_key (\<lambda>x. - sx_score x) (map scored_of rows)
       in (case ss of [] \<Rightarrow> Inr (None, scored) | s # _ \<Rightarrow> bind_res (dump_snapshot s) (\<lambda>d. Inr (Some d, scored))))"

subsection \<open>Model spend\<close>

text \<open>\<open>date(created_at)\<close> of an instant in microseconds.\<close>

definition day_of :: "int \<Rightarrow> int" where
  "day_of t = t div 86400000000"

record spend_line =
  sn_provider :: string
  sn_model :: string
  sn_calls :: nat
  sn_prompt_tokens :: int
  sn_completion_tokens :: int
  sn_cost_usd :: real

definition spend_summary :: "int \<Rightarrow> int \<Rightarrow> spend_row list \<Rightarrow> spend_line list \<times> real \<times> nat" where
  "spend_summary today days rows =
     (let groups = group_by_key (\<lambda>r. (sr_provider r, sr_model r)) (filter (\<lambda>r. today - days \<le> day_of (sr_created_at r)) rows) []
      in (map (\<lambda>(k, rs). \<lparr>sn_provider = fst k, sn_model = snd k, sn_calls = length rs,
                           sn_prompt_tokens = sum_list (map sr_prompt_tokens rs), sn_completion_tokens = sum_list (map sr_completion_tokens rs),
                           sn_cost_usd = py_round 4 (sum_list (map sr_cost_usd rs))\<rparr>) groups,
          py_round 4 (sum_list (map (\<lambda>(k, rs). sum_list (map sr_cost_usd rs)) groups)),
          sum_list (map (\<lambda>(k, rs). length rs) groups)))"

subsection \<open>Two folds of one table\<close>

lemma sum_list_indicator:
  fixes a :: "'n :: comm_monoid_add"
  shows "distinct ks \<Longrightarrow> sum_list (map (\<lambda>k. if k = x then a else 0) ks) = (if x \<in> set ks then a else 0)"
  by (induction ks) auto

lemma sum_list_partition:
  fixes f :: "'a \<Rightarrow> 'n :: comm_monoid_add"
  assumes "distinct ks" "g ` set xs \<subseteq> set ks"
  shows "sum_list (map (\<lambda>k. sum_list (map f (filter (\<lambda>x. g x = k) xs))) ks) = sum_list (map f xs)"
  using assms(2)
proof (induction xs)
  case (Cons x xs)
  have "sum_list (map (\<lambda>k. sum_list (map f (filter (\<lambda>x. g x = k) (x # xs)))) ks)
      = sum_list (map (\<lambda>k. (if k = g x then f x else 0) + sum_list (map f (filter (\<lambda>x. g x = k) xs))) ks)"
    by (intro arg_cong [where f = sum_list] map_cong) auto
  also have "\<dots> = sum_list (map (\<lambda>k. if k = g x then f x else 0) ks) + sum_list (map (\<lambda>k. sum_list (map f (filter (\<lambda>x. g x = k) xs))) ks)"
    by (rule sum_list_addf)
  also have "\<dots> = f x + sum_list (map f xs)"
    using Cons sum_list_indicator [OF assms(1), of "g x" "f x"] by simp
  finally show ?case by simp
qed simp

lemma sorted_trend_days: "sorted_wrt (<) (trend_days slots)" "set (trend_days slots) = (snd \<circ> fst) ` set slots"
  by (simp_all add: trend_days_def strict_sorted_iff)

text \<open>A figure over the trend is the same figure over all slots, and so over all campaigns.\<close>

lemma trend_sum:
  fixes f :: "slot_measures \<Rightarrow> 'n :: comm_monoid_add"
  shows "sum_list (map (\<lambda>d. sum_list (map f (map snd (filter (\<lambda>p. snd (fst p) = d) slots)))) (trend_days slots))
    = sum_list (map (f \<circ> snd) slots)"
proof -
  have "distinct (trend_days slots)" using sorted_trend_days(1) by (simp add: strict_sorted_iff)
  then show ?thesis
    using sum_list_partition [of "trend_days slots" "\<lambda>p. snd (fst p)" slots "f \<circ> snd"] sorted_trend_days(2) by (simp add: comp_def)
qed

lemma campaigns_sum:
  fixes f :: "slot_measures \<Rightarrow> 'n :: comm_monoid_add"
  assumes "\<And>n rs. f (sum_rows n rs) = sum_list (map g rs)" "rws = live_rows cutoff ids campaigns table"
  shows "sum_list (map (f \<circ> snd) (merged_slots cutoff ids campaigns table))
    = sum_list (map (\<lambda>c. delivered g c rws) (sorted_list_of_set (dm_campaign_id ` set rws)))"
proof -
  let ?slots = "merged_slots cutoff ids campaigns table" and ?cs = "sorted_list_of_set (dm_campaign_id ` set rws)"
  have "(\<lambda>p. fst (fst p)) ` set ?slots = dm_campaign_id ` set rws"
    using arg_cong [OF keys_merged [of cutoff ids campaigns table], of "image fst"] by (simp add: assms(2) image_image bucket_of_def)
  then have "sum_list (map (f \<circ> snd) ?slots) = sum_list (map (\<lambda>c. sum_list (map (f \<circ> snd) (filter (\<lambda>p. fst (fst p) = c) ?slots))) ?cs)"
    by (intro sum_list_partition [symmetric]) simp_all
  also have "\<dots> = sum_list (map (\<lambda>c. delivered g c rws) ?cs)"
  proof -
    have "sum_list (map (f \<circ> snd) (filter (\<lambda>p. fst (fst p) = c) ?slots)) = delivered g c rws" for c
      using merged_sum [of f g c cutoff ids campaigns table, OF assms(1)] by (simp add: assms(2) case_prod_beta' comp_def)
    then show ?thesis by simp
  qed
  finally show ?thesis .
qed



end
