(* ===== verification/Warehouse.thy ===== *)
theory Warehouse
  imports Metrics Dates Audience
begin

text \<open>
  The analytical warehouse: what is mirrored into it (\<open>services/warehouse_sync.py\<close>, \<open>infra/analytics/models.py\<close> and
  \<open>sink.py\<close>, \<open>export_daily\<close> of the metric repository) and its two readers (\<open>infra/warehouse.py\<close>).

  The ClickHouse table of daily rows is the list of the versions inserted so far, oldest first. It is a
  \<open>ReplacingMergeTree\<close> over (campaign, creative, day) with the time of insertion as version, so \<open>FINAL\<close> keeps the
  last version of every key; its queries are read as the functions of the rows they denote, like those of the primary
  store. SQL leaves the order of groups open and the first occurrence is taken. An outage is an argument.
\<close>

subsection \<open>Rows\<close>

record ch_row =
  wr_campaign_id :: string
  wr_stat_date :: int
  wr_creative_id :: string
  wr_impressions :: int
  wr_clicks :: int
  wr_conversions :: int
  wr_cost :: real
  wr_revenue :: real
  wr_unique_reach :: "int option"
  wr_source :: string

definition export_row :: "daily_metric \<Rightarrow> ch_row" where
  "export_row r =
     \<lparr>wr_campaign_id = dm_campaign_id r, wr_stat_date = dm_stat_date r, wr_creative_id = opt_str (dm_creative_id r),
      wr_impressions = dm_impressions r, wr_clicks = dm_clicks r, wr_conversions = dm_conversions r, wr_cost = dm_cost r,
      wr_revenue = dm_revenue r, wr_unique_reach = Some (dm_unique_reach r), wr_source = opt_str (dm_source r)\<rparr>"

definition export_daily :: "int \<Rightarrow> int \<Rightarrow> string list \<Rightarrow> daily_metric list \<Rightarrow> ch_row list" where
  "export_daily today days ids table = map export_row (filter (selected (cutoff_for today days) ids) table)"

definition daily_row :: "ch_row \<Rightarrow> ch_row" where
  "daily_row r = r\<lparr>wr_cost := py_round 4 (wr_cost r), wr_revenue := py_round 4 (wr_revenue r)\<rparr>"

text \<open>Delivery events. Money is what the feed sent; the enumerated columns only take their declared values.\<close>

record ad_event =
  ev_event_id :: string
  ev_campaign_id :: string
  ev_event_type :: string
  ev_event_time :: int
  ev_creative_id :: string
  ev_cost :: real
  ev_revenue :: real
  ev_platform :: string
  ev_device :: string
  ev_country :: string
  ev_age_group :: string
  ev_gender :: string

definition STORABLE_PLATFORMS :: "string list" where "STORABLE_PLATFORMS = [''google'', ''meta'', ''tiktok'']"
definition STORABLE_DEVICES :: "string list" where "STORABLE_DEVICES = [''mobile'', ''desktop'', ''tablet'']"
definition STORABLE_GENDERS :: "string list" where "STORABLE_GENDERS = [''male'', ''female'', ''unknown'']"
definition STORABLE_EVENT_TYPES :: "string list" where "STORABLE_EVENT_TYPES = [''impression'', ''click'', ''conversion'']"
definition FALLBACK_DEVICE :: string where "FALLBACK_DEVICE = ''mobile''"
definition FALLBACK_GENDER :: string where "FALLBACK_GENDER = ''unknown''"

text \<open>The refusal of an event, or the row that is stored.\<close>

definition normalise_event :: "ad_event \<Rightarrow> (string, ad_event) res" where
  "normalise_event e =
     (let platform = str_lower (strip (ev_platform e)); device = str_lower (strip (or_str (ev_device e) FALLBACK_DEVICE));
          gender = str_lower (strip (or_str (ev_gender e) FALLBACK_GENDER))
      in if strip (ev_event_id e) = [] then Inl ''missing_event_id''
         else if strip (ev_campaign_id e) = [] then Inl ''missing_campaign_id''
         else if ev_event_type e \<notin> set STORABLE_EVENT_TYPES then Inl ''event_type_not_modelled''
         else if platform \<notin> set STORABLE_PLATFORMS then Inl ''platform_not_modelled''
         else if device \<notin> set STORABLE_DEVICES then Inl ''device_not_modelled''
         else if gender \<notin> set STORABLE_GENDERS then Inl ''gender_not_modelled''
         else Inr (e\<lparr>ev_platform := platform, ev_device := device, ev_gender := gender\<rparr>))"

record write_report =
  wp_table :: string
  wp_written :: nat
  wp_skipped :: nat
  wp_reasons :: "(string, nat) dict"

definition attempted :: "write_report \<Rightarrow> nat" where
  "attempted r = wp_written r + wp_skipped r"

subsection \<open>Writing\<close>

record clickhouse =
  ck_daily :: "ch_row list"
  ck_events :: "ad_event list"

definition EVENTS_TABLE :: string where "EVENTS_TABLE = ''ad_events''"
definition DAILY_TABLE :: string where "DAILY_TABLE = ''campaign_daily_metrics''"
definition BATCH_SIZE :: nat where "BATCH_SIZE = 1000"

text \<open>A sink: the null sink with its reason, or the client, connected or not.\<close>

datatype analytics_sink = NullSink string | ClickHouseSink bool

definition null_report :: "string \<Rightarrow> string \<Rightarrow> nat \<Rightarrow> write_report" where
  "null_report reason table n =
     (if n = 0 then \<lparr>wp_table = table, wp_written = 0, wp_skipped = 0, wp_reasons = []\<rparr>
      else \<lparr>wp_table = table, wp_written = 0, wp_skipped = n, wp_reasons = [(reason, n)]\<rparr>)"

text \<open>The batches in order; what the client raises on a batch ends the write, and the batches before it stay.\<close>

function insert_batches :: "(nat \<Rightarrow> py_error option) \<Rightarrow> nat \<Rightarrow> ('a list \<Rightarrow> 's \<Rightarrow> 's) \<Rightarrow> 'a list \<Rightarrow> 's \<Rightarrow> (py_error, unit) res \<times> 's" where
  "insert_batches fails k put rows s =
     (if rows = [] then (Inr (), s)
      else case fails k of
             Some e \<Rightarrow> (Inl e, s)
           | None \<Rightarrow> insert_batches fails (Suc k) put (drop BATCH_SIZE rows) (put (take BATCH_SIZE rows) s))"
  by pat_completeness auto
termination by (relation "measure (\<lambda>(fails, k, put, rows, s). length rows)") (auto simp: BATCH_SIZE_def)

definition insert_rows :: "bool \<Rightarrow> (nat \<Rightarrow> py_error option) \<Rightarrow> string \<Rightarrow> ('a list \<Rightarrow> clickhouse \<Rightarrow> clickhouse) \<Rightarrow> 'a list \<Rightarrow> clickhouse
   \<Rightarrow> (py_error, nat) res \<times> clickhouse" where
  "insert_rows online fails table put rows s =
     (if \<not> online then (Inl (ExternalServiceError (''ClickHouse sink is not connected; cannot write to '' @ table)), s)
      else case insert_batches fails 0 put rows s of (Inl e, s1) \<Rightarrow> (Inl e, s1) | (Inr _, s1) \<Rightarrow> (Inr (length rows), s1))"

definition put_daily :: "ch_row list \<Rightarrow> clickhouse \<Rightarrow> clickhouse" where
  "put_daily rows s = s\<lparr>ck_daily := ck_daily s @ rows\<rparr>"

definition put_events :: "ad_event list \<Rightarrow> clickhouse \<Rightarrow> clickhouse" where
  "put_events rows s = s\<lparr>ck_events := ck_events s @ rows\<rparr>"

definition write_daily :: "analytics_sink \<Rightarrow> (nat \<Rightarrow> py_error option) \<Rightarrow> ch_row list \<Rightarrow> clickhouse \<Rightarrow> (py_error, write_report) res \<times> clickhouse" where
  "write_daily sk fails rows s =
     (case sk of
        NullSink reason \<Rightarrow> (Inr (null_report reason DAILY_TABLE (length rows)), s)
      | ClickHouseSink online \<Rightarrow>
          (case insert_rows online fails DAILY_TABLE put_daily (map daily_row rows) s of
             (Inl e, s1) \<Rightarrow> (Inl e, s1)
           | (Inr n, s1) \<Rightarrow> (Inr \<lparr>wp_table = DAILY_TABLE, wp_written = n, wp_skipped = 0, wp_reasons = []\<rparr>, s1)))"

definition write_events :: "analytics_sink \<Rightarrow> (nat \<Rightarrow> py_error option) \<Rightarrow> ad_event list \<Rightarrow> clickhouse \<Rightarrow> (py_error, write_report) res \<times> clickhouse" where
  "write_events sk fails events s =
     (case sk of
        NullSink reason \<Rightarrow> (Inr (null_report reason EVENTS_TABLE (length events)), s)
      | ClickHouseSink online \<Rightarrow>
          (let results = map normalise_event events;
               rows = concat (map (\<lambda>x. case x of Inr r \<Rightarrow> [r] | Inl _ \<Rightarrow> []) results);
               reasons = fold (\<lambda>x d. case x of Inl reason \<Rightarrow> dict_add reason 1 d | Inr _ \<Rightarrow> d) results []
           in (case insert_rows online fails EVENTS_TABLE put_events rows s of
                 (Inl e, s1) \<Rightarrow> (Inl e, s1)
               | (Inr n, s1) \<Rightarrow> (Inr \<lparr>wp_table = EVENTS_TABLE, wp_written = n, wp_skipped = length events - n, wp_reasons = reasons\<rparr>, s1))))"

definition build_sink :: "bool \<Rightarrow> bool \<Rightarrow> analytics_sink" where
  "build_sink enabled reachable =
     (if \<not> enabled then NullSink ''clickhouse_disabled'' else if reachable then ClickHouseSink True else NullSink ''clickhouse_unreachable'')"

subsection \<open>Mirroring\<close>

record sync_report =
  sp_days :: int
  sp_dry_run :: bool
  sp_candidates :: nat
  sp_report :: write_report

definition sync_ok :: "sync_report \<Rightarrow> bool" where
  "sync_ok r \<longleftrightarrow> sp_dry_run r \<or> sp_candidates r = 0 \<or> 0 < wp_written (sp_report r)"

record sync_call =
  sc_today :: int
  sc_days :: int
  sc_ids :: "string list"
  sc_dry_run :: bool
  sc_sink :: analytics_sink
  sc_fails :: "nat \<Rightarrow> py_error option"

definition sync :: "sync_call \<Rightarrow> daily_metric list \<Rightarrow> clickhouse \<Rightarrow> (py_error, sync_report) res \<times> clickhouse" where
  "sync c table s =
     (let rows = export_daily (sc_today c) (sc_days c) (sc_ids c) table; n = length rows;
          summary = (\<lambda>dry w. \<lparr>sp_days = sc_days c, sp_dry_run = dry, sp_candidates = n, sp_report = w\<rparr>)
      in if sc_dry_run c
         then (Inr (summary True \<lparr>wp_table = DAILY_TABLE, wp_written = 0, wp_skipped = n,
                     wp_reasons = (if rows = [] then [] else [(''dry_run'', n)])\<rparr>), s)
         else if rows = [] then (Inr (summary False \<lparr>wp_table = DAILY_TABLE, wp_written = 0, wp_skipped = 0, wp_reasons = []\<rparr>), s)
         else case write_daily (sc_sink c) (sc_fails c) rows s of
                (Inl e, s1) \<Rightarrow> (Inl e, s1) | (Inr w, s1) \<Rightarrow> (Inr (summary False w), s1))"

subsection \<open>Reading ClickHouse\<close>

definition ch_key :: "ch_row \<Rightarrow> string \<times> string \<times> int" where
  "ch_key r = (wr_campaign_id r, wr_creative_id r, wr_stat_date r)"

text \<open>\<open>FINAL\<close>.\<close>

fun newest :: "ch_row list \<Rightarrow> ch_row list" where
  "newest [] = []"
| "newest (r # rs) = (if ch_key r \<in> ch_key ` set rs then newest rs else r # newest rs)"

definition window_filter :: "int \<Rightarrow> int \<Rightarrow> ch_row \<Rightarrow> bool" where
  "window_filter today days r \<longleftrightarrow> today - (max days 1 - 1) \<le> wr_stat_date r"

definition ch_sum :: "string \<Rightarrow> ch_row list \<Rightarrow> slot_measures" where
  "ch_sum name rows =
     \<lparr>sl_name = name, sl_impressions = sum_list (map wr_impressions rows), sl_clicks = sum_list (map wr_clicks rows),
      sl_conversions = sum_list (map wr_conversions rows), sl_cost = sum_list (map wr_cost rows),
      sl_revenue = sum_list (map wr_revenue rows)\<rparr>"

text \<open>\<open>_delivery_relation\<close>: the roll-up of a bucket where there is one, its breakdown otherwise.\<close>

definition ch_bucket :: "ch_row \<Rightarrow> string \<times> int" where
  "ch_bucket r = (wr_campaign_id r, wr_stat_date r)"

definition delivery_relation :: "ch_row list \<Rightarrow> (string \<times> int, slot_measures) dict" where
  "delivery_relation rows =
     map (\<lambda>(k, rs). (k, ch_sum [] (if filter (\<lambda>r. wr_creative_id r = []) rs \<noteq> [] then filter (\<lambda>r. wr_creative_id r = []) rs
                                    else filter (\<lambda>r. wr_creative_id r \<noteq> []) rs)))
       (group_by_key ch_bucket rows [])"

definition reconciled_snapshot :: "string \<Rightarrow> string \<Rightarrow> slot_measures list \<Rightarrow> (py_error, snapshot) res" where
  "reconciled_snapshot cid name bs =
     (let d = reconcile_delivery (sum_list (map sl_impressions bs)) (sum_list (map sl_clicks bs)) (sum_list (map sl_conversions bs))
                (sum_list (map sl_cost bs)) (sum_list (map sl_revenue bs))
      in validate_snapshot \<lparr>campaign_id = cid, campaign_name = name, impressions = d_impressions d, clicks = d_clicks d,
           conversions = d_conversions d, total_cost = d_cost d, total_revenue = d_revenue d, window_start = None, window_end = None\<rparr>)"

definition ch_window :: "int \<Rightarrow> int \<Rightarrow> string list \<Rightarrow> clickhouse \<Rightarrow> ch_row list" where
  "ch_window today days ids s = filter (\<lambda>r. window_filter today days r \<and> (ids = [] \<or> wr_campaign_id r \<in> set ids)) (newest (ck_daily s))"

text \<open>The reads with \<open>METRICS_SOURCE=daily\<close>. The names come from another table, which nothing in the repository fills.\<close>

definition ch_snapshots :: "(string \<Rightarrow> string) \<Rightarrow> int \<Rightarrow> int \<Rightarrow> string list \<Rightarrow> clickhouse \<Rightarrow> (py_error, snapshot list) res" where
  "ch_snapshots name today days ids s =
     (let buckets = delivery_relation (ch_window today days ids s)
      in map_res (\<lambda>(cid, bs). reconciled_snapshot cid (name cid) (map snd bs)) (group_by_key (fst \<circ> fst) buckets []))"

definition ch_creative_snapshots :: "int \<Rightarrow> int \<Rightarrow> string \<Rightarrow> clickhouse \<Rightarrow> creative_row_stats list" where
  "ch_creative_snapshots today days cid s =
     map (\<lambda>(x, rs). let m = ch_sum [] rs in
            \<lparr>cs_creative_id = x, cs_impressions = sl_impressions m, cs_clicks = sl_clicks m, cs_conversions = sl_conversions m,
             cs_cost = sl_cost m, cs_revenue = sl_revenue m\<rparr>)
       (group_by_key wr_creative_id
          (filter (\<lambda>r. window_filter today days r \<and> wr_campaign_id r = cid \<and> wr_creative_id r \<noteq> []) (newest (ck_daily s))) [])"

definition observation_of :: "snapshot \<Rightarrow> segment_observation" where
  "observation_of x =
     \<lparr>so_key = or_str (campaign_name x) (campaign_id x), so_dimension = ''campaign'', so_impressions = impressions x, so_clicks = clicks x,
      so_conversions = conversions x, so_cost = total_cost x, so_revenue = total_revenue x\<rparr>"

definition campaign_split :: "(string \<Rightarrow> string) \<Rightarrow> int \<Rightarrow> int \<Rightarrow> string list \<Rightarrow> clickhouse \<Rightarrow> (py_error, segment_observation list) res" where
  "campaign_split name today days ids s = bind_res (ch_snapshots name today days ids s) (\<lambda>ss. Inr (map observation_of ss))"

text \<open>The reads with \<open>METRICS_SOURCE=events\<close>: a rolling window over the event times, here in seconds.\<close>

definition event_sum :: "string \<Rightarrow> string \<Rightarrow> ad_event list \<Rightarrow> segment_observation" where
  "event_sum dimension key es =
     (let typed = (\<lambda>t. filter (\<lambda>e. ev_event_type e = t) es)
      in \<lparr>so_key = key, so_dimension = dimension, so_impressions = int (length (typed ''impression'')), so_clicks = int (length (typed ''click'')),
          so_conversions = int (length (typed ''conversion'')),
          so_cost = sum_list (map ev_cost (filter (\<lambda>e. ev_event_type e \<in> {''impression'', ''click''}) es)),
          so_revenue = sum_list (map ev_revenue (typed ''conversion''))\<rparr>)"

definition AUDIENCE_DIMENSIONS :: "(string \<times> (ad_event \<Rightarrow> string)) list" where
  "AUDIENCE_DIMENSIONS = [(''device'', ev_device), (''country'', ev_country), (''age_group'', ev_age_group), (''gender'', ev_gender)]"

definition event_window :: "int \<Rightarrow> int \<Rightarrow> string list \<Rightarrow> clickhouse \<Rightarrow> ad_event list" where
  "event_window now days ids s = filter (\<lambda>e. now - days * 86400 \<le> ev_event_time e \<and> (ids = [] \<or> ev_campaign_id e \<in> set ids)) (ck_events s)"

definition event_observations :: "int \<Rightarrow> int \<Rightarrow> string list \<Rightarrow> clickhouse \<Rightarrow> segment_observation list" where
  "event_observations now days ids s =
     concat (map (\<lambda>(dimension, f). map (\<lambda>(key, es). event_sum dimension key es) (group_by_key f (event_window now days ids s) []))
       AUDIENCE_DIMENSIONS)"

text \<open>\<open>audience_observations\<close>; an unreachable warehouse answers with no rows.\<close>

definition audience_observations :: "bool \<Rightarrow> bool \<Rightarrow> (string \<Rightarrow> string) \<Rightarrow> int \<Rightarrow> int \<Rightarrow> int \<Rightarrow> string list \<Rightarrow> clickhouse
   \<Rightarrow> (py_error, segment_observation list) res" where
  "audience_observations online daily name now today days ids s =
     (if \<not> online then Inr []
      else if daily then campaign_split name today days ids s else Inr (event_observations now days ids s))"

subsection \<open>Reading the primary store\<close>

text \<open>\<open>SqlAggregateWarehouse\<close>: its days are ISO strings, and its window is not clamped. An empty campaign id selects all.\<close>

definition sql_slots :: "int \<Rightarrow> bool \<Rightarrow> string list \<Rightarrow> string \<Rightarrow> (string, campaign_row) dict \<Rightarrow> daily_metric list
   \<Rightarrow> (string \<times> string, slot_measures) dict" where
  "sql_slots cutoff breakdown ids cid campaigns table =
     (let rows = filter (\<lambda>r. cutoff \<le> dm_stat_date r \<and> (dm_creative_id r \<noteq> None) = breakdown \<and> map_of campaigns (dm_campaign_id r) \<noteq> None
                   \<and> (ids = [] \<or> dm_campaign_id r \<in> set ids) \<and> (cid = [] \<or> dm_campaign_id r = cid)) table
      in fold (\<lambda>(k, rs). AList.update (fst k, iso_date (snd k))
            (sum_rows (case map_of campaigns (fst k) of Some c \<Rightarrow> cp_name c | None \<Rightarrow> []) rs)) (group_by_key bucket_of rows []) [])"

definition sql_merged :: "int \<Rightarrow> string list \<Rightarrow> string \<Rightarrow> (string, campaign_row) dict \<Rightarrow> daily_metric list
   \<Rightarrow> (string \<times> string, slot_measures) dict" where
  "sql_merged cutoff ids cid campaigns table =
     (let slots = sql_slots cutoff False ids cid campaigns table
      in slots @ filter (\<lambda>(k, v). map_of slots k = None) (sql_slots cutoff True ids cid campaigns table))"

definition sql_snapshots :: "int \<Rightarrow> int \<Rightarrow> string list \<Rightarrow> (string, campaign_row) dict \<Rightarrow> daily_metric list \<Rightarrow> (py_error, snapshot list) res" where
  "sql_snapshots today days ids campaigns table =
     (let slots = sql_merged (today - (days - 1)) ids [] campaigns table;
          part = (\<lambda>cid. map snd (filter (\<lambda>(k, v). fst k = cid) slots))
      in map_res (\<lambda>cid. reconciled_snapshot cid (case part cid of [] \<Rightarrow> [] | b # _ \<Rightarrow> sl_name b) (part cid))
           (sort (remdups (map (fst \<circ> fst) slots))))"

definition sql_observations :: "int \<Rightarrow> int \<Rightarrow> string list \<Rightarrow> (string, campaign_row) dict \<Rightarrow> daily_metric list
   \<Rightarrow> (py_error, segment_observation list) res" where
  "sql_observations today days ids campaigns table = bind_res (sql_snapshots today days ids campaigns table) (\<lambda>ss. Inr (map observation_of ss))"

record day_point =
  dy_date :: string
  dy_impressions :: int
  dy_clicks :: int
  dy_conversions :: int
  dy_cost :: real
  dy_revenue :: real

definition day_point_of :: "string \<Rightarrow> slot_measures list \<Rightarrow> day_point" where
  "day_point_of day bs =
     \<lparr>dy_date = day, dy_impressions = sum_list (map sl_impressions bs), dy_clicks = sum_list (map sl_clicks bs),
      dy_conversions = sum_list (map sl_conversions bs), dy_cost = py_round 2 (sum_list (map sl_cost bs)),
      dy_revenue = py_round 2 (sum_list (map sl_revenue bs))\<rparr>"

definition sql_timeseries :: "int \<Rightarrow> int \<Rightarrow> string \<Rightarrow> (string, campaign_row) dict \<Rightarrow> daily_metric list \<Rightarrow> day_point list" where
  "sql_timeseries today days cid campaigns table =
     (let slots = sql_merged (today - (days - 1)) [] cid campaigns table
      in map (\<lambda>day. day_point_of day (map snd (filter (\<lambda>(k, v). snd k = day) slots))) (sort (remdups (map (snd \<circ> fst) slots))))"

definition ch_timeseries :: "int \<Rightarrow> int \<Rightarrow> string \<Rightarrow> clickhouse \<Rightarrow> day_point list" where
  "ch_timeseries today days cid s =
     (let buckets = delivery_relation (ch_window today days (if cid = [] then [] else [cid]) s)
      in map (\<lambda>day. day_point_of (iso_date day) (map snd (filter (\<lambda>(k, v). snd k = day) buckets)))
           (sort (remdups (map (snd \<circ> fst) buckets))))"

definition sql_creative_snapshots :: "int \<Rightarrow> int \<Rightarrow> string \<Rightarrow> daily_metric list \<Rightarrow> creative_row_stats list" where
  "sql_creative_snapshots today days cid table =
     map (\<lambda>(x, rs). let m = sum_rows [] rs in
            \<lparr>cs_creative_id = x, cs_impressions = sl_impressions m, cs_clicks = sl_clicks m, cs_conversions = sl_conversions m,
             cs_cost = sl_cost m, cs_revenue = sl_revenue m\<rparr>)
       (filter (\<lambda>(x, rs). x \<noteq> [])
         (group_by_key (\<lambda>r. opt_str (dm_creative_id r))
            (filter (\<lambda>r. dm_campaign_id r = cid \<and> today - (days - 1) \<le> dm_stat_date r \<and> dm_creative_id r \<noteq> None) table) []))"

end
