(* ===== verification/WarehouseFlow.thy ===== *)
theory WarehouseFlow
  imports Warehouse Dashboard Calendar
begin

text \<open>
  The warehouse over time: any history of syncs, complete, partial, failed or rehearsed, followed by one that
  succeeds, leaves a mirror whose readers report what the primary store reports.
\<close>

subsection \<open>Versions\<close>

lemma newest_subset: "set (newest xs) \<subseteq> set xs"
  by (induction xs) auto

lemma newest_distinct [simp]: "distinct (map ch_key ys) \<Longrightarrow> newest ys = ys"
  by (induction ys) auto

lemma newest_append:
  assumes "distinct (map ch_key ys)"
  shows "newest (xs @ ys) = filter (\<lambda>r. ch_key r \<notin> ch_key ` set ys) (newest xs) @ ys"
  using assms by (induction xs) auto

subsection \<open>What a sync inserts\<close>

lemma insert_batches_put:
  "insert_batches fails k put_daily rows s = (out, s1) \<Longrightarrow>
     (\<exists>n. ck_daily s1 = ck_daily s @ take n rows) \<and> (out = Inr () \<longrightarrow> ck_daily s1 = ck_daily s @ rows)"
proof (induction fails k "put_daily" rows s arbitrary: out s1 rule: insert_batches.induct)
  case (1 fails k rows s)
  show ?case
  proof (cases "rows = [] \<or> fails k \<noteq> None")
    case True
    then show ?thesis using "1.prems" by (auto split: option.splits if_splits intro!: exI [of _ 0])
  next
    case False
    then have run: "insert_batches fails (Suc k) put_daily (drop BATCH_SIZE rows) (put_daily (take BATCH_SIZE rows) s) = (out, s1)"
      using "1.prems" by (subst (asm) insert_batches.simps) simp
    from "1.hyps" [OF _ _ this] False obtain n where n: "ck_daily s1 = ck_daily s @ take BATCH_SIZE rows @ take n (drop BATCH_SIZE rows)"
      "out = Inr () \<longrightarrow> ck_daily s1 = ck_daily s @ rows"
      by (auto simp: put_daily_def)
    then show ?thesis by (auto simp: take_add [symmetric])
  qed
qed

definition mirrored :: "sync_call \<Rightarrow> daily_metric list \<Rightarrow> ch_row list" where
  "mirrored c table = map daily_row (export_daily (sc_today c) (sc_days c) (sc_ids c) table)"

lemma sync_inserts:
  assumes "sync c table s = (out, s1)"
  shows "\<exists>n. ck_daily s1 = ck_daily s @ take n (mirrored c table)"
    and "out = Inr rep \<Longrightarrow> sc_sink c = ClickHouseSink True \<Longrightarrow> \<not> sc_dry_run c \<Longrightarrow> ck_daily s1 = ck_daily s @ mirrored c table
      \<and> wp_written (sp_report rep) = length (mirrored c table)"
proof -
  let ?rows = "mirrored c table"
  have none: "\<exists>n. ck_daily s = ck_daily s @ take n ?rows" by (intro exI [of _ 0]) simp
  have all: "\<exists>n. xs = take n xs" for xs :: "ch_row list" by (intro exI [of _ "length xs"]) simp
  have ins: "insert_rows b (sc_fails c) DAILY_TABLE put_daily ?rows s = (q, s2) \<Longrightarrow>
      (\<exists>n. ck_daily s2 = ck_daily s @ take n ?rows) \<and> (\<forall>n. q = Inr n \<longrightarrow> ck_daily s2 = ck_daily s @ ?rows \<and> n = length ?rows)" for b q s2
    using none all [of ?rows] insert_batches_put [of "sc_fails c" 0 ?rows s]
    by (auto simp: insert_rows_def simp del: insert_batches.simps split: if_splits prod.splits sum.splits)
  have ex: "mirrored c table = map daily_row (export_daily (sc_today c) (sc_days c) (sc_ids c) table)" by (simp add: mirrored_def)
  show "\<exists>n. ck_daily s1 = ck_daily s @ take n ?rows"
    using assms none ins all [of ?rows] unfolding ex
    by (auto simp: sync_def Let_def write_daily_def split: if_splits analytics_sink.splits prod.splits sum.splits)
  show "ck_daily s1 = ck_daily s @ ?rows \<and> wp_written (sp_report rep) = length ?rows"
    if "out = Inr rep" "sc_sink c = ClickHouseSink True" "\<not> sc_dry_run c"
    using assms that ins unfolding ex
    by (auto simp: sync_def Let_def write_daily_def split: if_splits prod.splits sum.splits)
qed

subsection \<open>Two readers of one delivery\<close>

text \<open>A mirrored row as a row of the primary table.\<close>

definition as_daily :: "ch_row \<Rightarrow> daily_metric" where
  "as_daily r =
     \<lparr>dm_campaign_id = wr_campaign_id r, dm_creative_id = (if wr_creative_id r = [] then None else Some (wr_creative_id r)),
      dm_stat_date = wr_stat_date r, dm_impressions = wr_impressions r, dm_clicks = wr_clicks r, dm_conversions = wr_conversions r,
      dm_cost = wr_cost r, dm_revenue = wr_revenue r, dm_unique_reach = 0, dm_source = None, dm_batch_id = None\<rparr>"

lemma as_daily_sel [simp]:
  "bucket_of (as_daily r) = ch_bucket r" "dm_creative_id (as_daily r) = None \<longleftrightarrow> wr_creative_id r = []"
  "dm_campaign_id (as_daily r) = wr_campaign_id r" "dm_stat_date (as_daily r) = wr_stat_date r"
  by (simp_all add: as_daily_def bucket_of_def ch_bucket_def)

lemma ch_sum_daily: "ch_sum name rows = sum_rows name (map as_daily rows)"
  by (simp add: ch_sum_def sum_rows_def comp_def as_daily_def)

lemma filter_map_daily: "filter P (map as_daily rows) = map as_daily (filter (\<lambda>r. P (as_daily r)) rows)"
  by (simp add: filter_map comp_def)

lemma relation_bucket:
  "map_of (delivery_relation rows) k =
     (let ds = delivery_rows k (map as_daily rows) in if ds = [] then None else Some (sum_rows [] ds))"
proof -
  let ?g = "filter (\<lambda>r. ch_bucket r = k) rows"
  have one: "filter (\<lambda>r. wr_creative_id r \<noteq> []) ?g = ?g" if "filter (\<lambda>r. wr_creative_id r = []) ?g = []"
    unfolding filter_id_conv using that unfolding filter_empty_conv by blast
  have "delivery_rows k (map as_daily rows)
      = map as_daily (if filter (\<lambda>r. wr_creative_id r = []) ?g = [] then ?g else filter (\<lambda>r. wr_creative_id r = []) ?g)"
    by (simp only: delivery_rows_def Let_def filter_map_daily as_daily_sel map_is_Nil_conv if_distrib [of "map as_daily"])
  then show ?thesis
    using one unfolding delivery_relation_def map_of_map_snd map_of_group
    by (auto simp: ch_sum_daily Let_def filter_empty_conv)
qed

lemma relation_keys:
  "distinct (map fst (delivery_relation rows))" "fst ` set (delivery_relation rows) = ch_bucket ` set rows"
proof -
  show "distinct (map fst (delivery_relation rows))" unfolding delivery_relation_def map_fst_map by (simp add: distinct_keys_group)
  have "k \<in> fst ` set (delivery_relation rows) \<longleftrightarrow> k \<in> ch_bucket ` set rows" for k
    using map_of_eq_None_iff [of "delivery_relation rows" k] relation_bucket [of rows k] delivery_rows_empty [of k "map as_daily rows"]
    by (auto simp: Let_def image_image split: if_splits)
  then show "fst ` set (delivery_relation rows) = ch_bucket ` set rows" by blast
qed

lemma relation_sum:
  fixes f :: "slot_measures \<Rightarrow> 'n :: comm_monoid_add"
  assumes "\<And>n rs. f (sum_rows n rs) = sum_list (map g rs)"
  shows "sum_list (map f (map snd (filter (\<lambda>(k, v). fst k = cid) (delivery_relation rows)))) = delivered g cid (map as_daily rows)"
proof -
  let ?m = "delivery_relation rows" and ?ds = "map as_daily rows"
  have days: "delivered_days cid ?ds = wr_stat_date ` {r \<in> set rows. wr_campaign_id r = cid}"
    unfolding delivered_days_def set_map by force
  have "sum_list (map f (map snd (filter (\<lambda>(k, v). fst k = cid) ?m))) = sum_list (map (\<lambda>(k, v). f v) (filter (\<lambda>(k, v). fst k = cid) ?m))"
    unfolding map_map comp_def split_beta ..
  also have "\<dots> = (\<Sum>k\<in>{k \<in> ch_bucket ` set rows. fst k = cid}. case map_of ?m k of Some v \<Rightarrow> f v | None \<Rightarrow> 0)"
    unfolding sum_list_keys [OF relation_keys(1)] relation_keys(2) ..
  also have "{k \<in> ch_bucket ` set rows. fst k = cid} = Pair cid ` delivered_days cid ?ds"
    by (auto simp: days ch_bucket_def)
  also have "(\<Sum>k\<in>Pair cid ` delivered_days cid ?ds. case map_of ?m k of Some v \<Rightarrow> f v | None \<Rightarrow> 0)
      = (\<Sum>d\<in>delivered_days cid ?ds. case map_of ?m (cid, d) of Some v \<Rightarrow> f v | None \<Rightarrow> 0)"
    by (rule sum.reindex [unfolded comp_def]) (simp add: inj_on_def)
  also have "\<dots> = delivered g cid ?ds"
    unfolding delivered_def
    by (rule sum.cong) (simp_all add: relation_bucket Let_def assms)
  finally show ?thesis .
qed

text \<open>Rows that say the same about a bucket, seen through a map.\<close>

lemma delivered_map:
  assumes "\<And>r. r \<in> set rows \<Longrightarrow> bucket_of (h r) = bucket_of r \<and> (dm_creative_id (h r) = None \<longleftrightarrow> dm_creative_id r = None) \<and> g (h r) = g' r"
  shows "delivered g cid (map h rows) = delivered g' cid rows"
proof -
  have "delivery_rows k (map h rows) = map h (delivery_rows k rows)" for k
  proof -
    have "filter (\<lambda>r. bucket_of r = k) (map h rows) = map h (filter (\<lambda>r. bucket_of r = k) rows)"
      unfolding filter_map comp_def using assms by (intro arg_cong [where f = "map h"] filter_cong) auto
    moreover have "filter (\<lambda>r. dm_creative_id r = None) (map h (filter (\<lambda>r. bucket_of r = k) rows))
        = map h (filter (\<lambda>r. dm_creative_id r = None) (filter (\<lambda>r. bucket_of r = k) rows))"
      unfolding filter_map comp_def using assms by (intro arg_cong [where f = "map h"] filter_cong) auto
    ultimately show ?thesis by (simp only: delivery_rows_def Let_def map_is_Nil_conv if_distrib [of "map h"])
  qed
  moreover have "map (\<lambda>r. g (h r)) (delivery_rows k rows) = map g' (delivery_rows k rows)" for k
    using assms by (intro map_cong refl) (auto simp: delivery_rows_def Let_def split: if_splits)
  moreover have "delivered_days cid (map h rows) = delivered_days cid rows"
  proof -
    have "dm_campaign_id (h r) = dm_campaign_id r \<and> dm_stat_date (h r) = dm_stat_date r" if "r \<in> set rows" for r
      using assms [OF that] by (simp add: bucket_of_def)
    then show ?thesis by (force simp: delivered_days_def image_iff)
  qed
  ultimately show ?thesis by (simp only: delivered_def map_map comp_def)
qed

definition figures_of :: "snapshot \<Rightarrow> string \<times> int \<times> int \<times> int \<times> real \<times> real" where
  "figures_of x = (campaign_id x, impressions x, clicks x, conversions x, total_cost x, total_revenue x)"

text \<open>The figures of a campaign over a list of rows.\<close>

definition figures_over :: "daily_metric list \<Rightarrow> string \<Rightarrow> string \<times> int \<times> int \<times> int \<times> real \<times> real" where
  "figures_over ds cid =
     (let i = delivered dm_impressions cid ds; c = min (delivered dm_clicks cid ds) i
      in (cid, i, c, min (delivered dm_conversions cid ds) c, py_round MONEY_DECIMALS (delivered dm_cost cid ds),
          py_round MONEY_DECIMALS (delivered dm_revenue cid ds)))"

lemma ch_snapshots_spec:
  assumes "\<forall>r\<in>set (ch_window today days ids s). counts_nonneg (as_daily r)"
  shows "\<exists>ss. ch_snapshots name today days ids s = Inr ss
    \<and> set (map campaign_id ss) = wr_campaign_id ` set (ch_window today days ids s) \<and> distinct (map campaign_id ss)
    \<and> (\<forall>x\<in>set ss. valid_snapshot x \<and> figures_of x = figures_over (map as_daily (ch_window today days ids s)) (campaign_id x))"
proof -
  define rows where "rows = ch_window today days ids s"
  define ds where "ds = map as_daily rows"
  let ?m = "delivery_relation rows"
  let ?g = "group_by_key (fst \<circ> fst) ?m []"
  define snap where "snap cid = (let d = reconcile_delivery (delivered dm_impressions cid ds) (delivered dm_clicks cid ds)
      (delivered dm_conversions cid ds) (delivered dm_cost cid ds) (delivered dm_revenue cid ds)
    in \<lparr>campaign_id = cid, campaign_name = name cid, impressions = d_impressions d, clicks = d_clicks d, conversions = d_conversions d,
        total_cost = d_cost d, total_revenue = d_revenue d, window_start = None, window_end = None\<rparr>)" for cid
  have "\<forall>r\<in>set ds. counts_nonneg r" using assms by (simp add: ds_def rows_def)
  then have nn: "0 \<le> delivered dm_impressions c ds" "0 \<le> delivered dm_clicks c ds" "0 \<le> delivered dm_conversions c ds"
    "0 \<le> delivered dm_cost c ds" "0 \<le> delivered dm_revenue c ds" for c
    by (auto intro!: delivered_nonneg simp: counts_nonneg_def)
  have valid: "valid_snapshot (snap c)" for c
    using nn [of c] by (auto simp: snap_def reconcile_delivery_def Let_def valid_snapshot_def py_round_nonneg)
  have run: "reconciled_snapshot cid (name cid) (map snd bs) = Inr (snap cid)" if "(cid, bs) \<in> set ?g" for cid bs
  proof -
    have bs: "bs = filter (\<lambda>(k, v). fst k = cid) ?m" using that by (simp add: mem_group_iff comp_def case_prod_unfold)
    have sums: "sum_list (map sl_impressions (map snd bs)) = delivered dm_impressions cid ds"
      "sum_list (map sl_clicks (map snd bs)) = delivered dm_clicks cid ds"
      "sum_list (map sl_conversions (map snd bs)) = delivered dm_conversions cid ds"
      "sum_list (map sl_cost (map snd bs)) = delivered dm_cost cid ds"
      "sum_list (map sl_revenue (map snd bs)) = delivered dm_revenue cid ds"
      unfolding bs ds_def by (rule relation_sum, simp add: sum_rows_def)+
    show ?thesis using valid [of cid] unfolding reconciled_snapshot_def sums by (simp add: snap_def Let_def validate_snapshot_iff)
  qed
  define ss where "ss = map (\<lambda>(cid, bs). snap cid) ?g"
  have "ch_snapshots name today days ids s = Inr ss"
    unfolding ch_snapshots_def Let_def rows_def [symmetric] ss_def by (rule map_res_total) (use run in auto)
  moreover have ids: "map campaign_id ss = map fst ?g" by (simp add: ss_def comp_def split_beta snap_def Let_def)
  moreover have "distinct (map campaign_id ss)" unfolding ids by (simp add: distinct_keys_group)
  moreover have "set (map campaign_id ss) = wr_campaign_id ` set rows"
  proof -
    have "c \<in> fst ` set ?g \<longleftrightarrow> filter (\<lambda>x. fst (fst x) = c) ?m \<noteq> []" for c
      using map_of_eq_None_iff [of ?g c] map_of_group [of "fst \<circ> fst" ?m c] by (simp add: comp_def split: if_splits)
    then have "c \<in> set (map fst ?g) \<longleftrightarrow> (\<exists>x\<in>set ?m. fst (fst x) = c)" for c
      unfolding set_map filter_empty_conv by blast
    moreover have "c \<in> fst ` (fst ` set ?m) \<longleftrightarrow> (\<exists>x\<in>set ?m. fst (fst x) = c)" for c by (simp add: image_image) blast
    ultimately have "set (map fst ?g) = fst ` (fst ` set ?m)" by blast
    then show ?thesis unfolding ids relation_keys(2) by (simp add: image_image ch_bucket_def)
  qed
  moreover have "figures_of (snap c) = figures_over ds c" "campaign_id (snap c) = c" for c
    by (simp_all add: figures_of_def figures_over_def snap_def reconcile_delivery_def Let_def)
  then have "\<forall>x\<in>set ss. valid_snapshot x \<and> figures_of x = figures_over ds (campaign_id x)"
    using valid unfolding ss_def by auto
  ultimately show ?thesis unfolding rows_def [symmetric] ds_def [symmetric] by blast
qed

subsection \<open>The mirror\<close>

text \<open>What a table must be to be mirrored without loss: no empty creative id, and money in ten-thousandths.\<close>

definition mirrorable :: "daily_metric list \<Rightarrow> bool" where
  "mirrorable table \<longleftrightarrow> unique_slots table
     \<and> (\<forall>r\<in>set table. dm_creative_id r \<noteq> Some [] \<and> py_round 4 (dm_cost r) = dm_cost r \<and> py_round 4 (dm_revenue r) = dm_revenue r)"

definition slot_key :: "slot \<Rightarrow> string \<times> string \<times> int" where
  "slot_key k = (fst k, opt_str (fst (snd k)), snd (snd k))"

lemma key_of_mirrored: "ch_key (daily_row (export_row r)) = slot_key (slot_of r)"
  by (simp add: ch_key_def daily_row_def export_row_def slot_key_def slot_of_def)

lemma mirrored_rows:
  "mirrored c table = map (daily_row \<circ> export_row) (filter (selected (cutoff_for (sc_today c) (sc_days c)) (sc_ids c)) table)"
  by (simp add: mirrored_def export_daily_def)

lemma opt_str_inj: "x \<noteq> Some [] \<Longrightarrow> y \<noteq> Some [] \<Longrightarrow> opt_str x = opt_str y \<Longrightarrow> x = y"
  by (cases x; cases y) (auto simp: opt_str_def)

lemma mirrored_distinct:
  assumes "mirrorable table"
  shows "distinct (map ch_key (mirrored c table))"
proof -
  have "inj_on slot_key (slot_of ` set table)"
    using assms opt_str_inj by (auto simp: inj_on_def mirrorable_def slot_key_def slot_of_def)
  then have "distinct (map slot_key (map slot_of table))"
    using assms comp_inj_on [of slot_of "set table" slot_key] by (simp add: mirrorable_def unique_slots_def distinct_map)
  then show ?thesis
    unfolding mirrored_rows map_map comp_def key_of_mirrored by (simp add: comp_def distinct_map_filter)
qed

text \<open>Whatever syncs were tried before, of whatever earlier tables.\<close>

definition after_syncs :: "(sync_call \<times> daily_metric list) list \<Rightarrow> clickhouse" where
  "after_syncs past = fold (\<lambda>(c, table) s. snd (sync c table s)) past \<lparr>ck_daily = [], ck_events = []\<rparr>"

lemma after_syncs_keys:
  assumes "\<forall>(c, table)\<in>set past. slot_of ` set table \<subseteq> K"
  shows "ch_key ` set (ck_daily (after_syncs past)) \<subseteq> slot_key ` K"
proof -
  have "ch_key ` set (ck_daily s) \<subseteq> slot_key ` K \<Longrightarrow>
      ch_key ` set (ck_daily (fold (\<lambda>(c, table) s. snd (sync c table s)) past s)) \<subseteq> slot_key ` K" for s
    using assms
  proof (induction past arbitrary: s)
    case (Cons p past)
    obtain c table where p: "p = (c, table)" by (cases p)
    obtain out s1 where s1: "sync c table s = (out, s1)" by (rule prod.exhaust)
    obtain n where n: "ck_daily s1 = ck_daily s @ take n (mirrored c table)" using sync_inserts(1) [OF s1] by blast
    have "ch_key ` set (mirrored c table) \<subseteq> slot_key ` (slot_of ` set table)"
      unfolding mirrored_rows set_map image_comp comp_def key_of_mirrored by auto
    moreover have "slot_of ` set table \<subseteq> K" using Cons.prems(2) p by simp
    ultimately have "ch_key ` set (take n (mirrored c table)) \<subseteq> slot_key ` K"
      by (meson image_mono set_take_subset subset_trans)
    then have "ch_key ` set (ck_daily s1) \<subseteq> slot_key ` K" using Cons.prems(1) n by auto
    then show ?case using Cons.IH [of s1] Cons.prems(2) p s1 by simp
  qed simp
  then show ?thesis by (simp add: after_syncs_def)
qed

text \<open>After a complete sync the window of the mirror is the window of the primary table.\<close>

lemma mirror_window:
  assumes "mirrorable table" "ch_key ` set (ck_daily s) \<subseteq> slot_key ` slot_of ` set table"
    and "ck_daily s1 = ck_daily s @ mirrored c table" "sc_ids c = []" "sc_today c = today" "days \<le> sc_days c"
  shows "ch_window today days [] s1 = map (daily_row \<circ> export_row) (filter (\<lambda>r. cutoff_for today days \<le> dm_stat_date r) table)"
proof -
  let ?win = "window_filter today days"
  have w: "?win r \<longleftrightarrow> cutoff_for today days \<le> wr_stat_date r" for r by (simp add: window_filter_def cutoff_for_def max.commute)
  have cut: "cutoff_for today (sc_days c) \<le> cutoff_for today days" using assms(6) by (simp add: cutoff_for_def)
  have old: "\<not> ?win r" if "r \<in> set (newest (ck_daily s))" "ch_key r \<notin> ch_key ` set (mirrored c table)" for r
  proof
    assume "?win r"
    have "r \<in> set (ck_daily s)" using subsetD [OF newest_subset that(1)] .
    then have "ch_key r \<in> slot_key ` slot_of ` set table" by (rule subsetD [OF assms(2) imageI])
    then obtain d where d: "d \<in> set table" "ch_key r = slot_key (slot_of d)" by (elim imageE) simp
    then have "wr_stat_date r = dm_stat_date d" by (simp add: ch_key_def slot_key_def slot_of_def)
    then have "selected (cutoff_for (sc_today c) (sc_days c)) (sc_ids c) d"
      using \<open>?win r\<close> cut assms(4,5) by (simp add: selected_def w)
    then have "daily_row (export_row d) \<in> set (mirrored c table)" using d(1) by (simp add: mirrored_rows)
    then show False using that(2) d(2) by (metis image_eqI key_of_mirrored)
  qed
  have "ch_window today days [] s1 = filter ?win (newest (ck_daily s @ mirrored c table))" by (simp add: ch_window_def assms(3))
  also have "\<dots> = filter ?win (mirrored c table)"
    unfolding newest_append [OF mirrored_distinct [OF assms(1)]] filter_append filter_filter
    using old by (simp add: filter_empty_conv) blast
  also have "\<dots> = map (daily_row \<circ> export_row) (filter (\<lambda>r. cutoff_for today days \<le> dm_stat_date r) table)"
    unfolding mirrored_rows filter_map filter_filter
    using cut by (intro arg_cong [where f = "map (daily_row \<circ> export_row)"] filter_cong refl)
      (simp add: w selected_def assms(4,5) daily_row_def export_row_def; linarith)
  finally show ?thesis .
qed

lemma mirrored_delivery:
  assumes "mirrorable table" "set rows \<subseteq> set table"
  shows "figures_over (map as_daily (map (daily_row \<circ> export_row) rows)) cid = figures_over rows cid"
proof -
  let ?h = "as_daily \<circ> (daily_row \<circ> export_row)"
  have h: "bucket_of (?h r) = bucket_of r \<and> (dm_creative_id (?h r) = None \<longleftrightarrow> dm_creative_id r = None) \<and> dm_impressions (?h r) = dm_impressions r
      \<and> dm_clicks (?h r) = dm_clicks r \<and> dm_conversions (?h r) = dm_conversions r \<and> dm_cost (?h r) = dm_cost r
      \<and> dm_revenue (?h r) = dm_revenue r" if "r \<in> set rows" for r
  proof -
    have "dm_creative_id r \<noteq> Some []" "py_round 4 (dm_cost r) = dm_cost r" "py_round 4 (dm_revenue r) = dm_revenue r"
      using assms that by (auto simp: mirrorable_def)
    then show ?thesis
      by (auto simp: as_daily_def daily_row_def export_row_def bucket_of_def opt_str_def split: option.splits)
  qed
  have "delivered dm_impressions cid (map ?h rows) = delivered dm_impressions cid rows"
    "delivered dm_clicks cid (map ?h rows) = delivered dm_clicks cid rows"
    "delivered dm_conversions cid (map ?h rows) = delivered dm_conversions cid rows"
    "delivered dm_cost cid (map ?h rows) = delivered dm_cost cid rows"
    "delivered dm_revenue cid (map ?h rows) = delivered dm_revenue cid rows"
    by (rule delivered_map, use h in blast)+
  then show ?thesis by (simp only: figures_over_def map_map)
qed


subsection \<open>The reader of the primary store\<close>

definition in_calendar :: "int \<Rightarrow> bool" where
  "in_calendar z \<longleftrightarrow> (case civil_of_days z of (y, m, d) \<Rightarrow> 1 \<le> y \<and> y \<le> 9999)"

lemma from_isoformat_calendar: "in_calendar z \<Longrightarrow> from_isoformat (iso_date z) = Some z"
  using from_isoformat_iso_date [of z] by (cases "civil_of_days z") (auto simp: in_calendar_def)

lemma iso_date_inj: "in_calendar a \<Longrightarrow> in_calendar b \<Longrightarrow> iso_date a = iso_date b \<Longrightarrow> a = b"
  by (metis from_isoformat_calendar option.inject)

lemma update_fresh: "k \<notin> fst ` set d \<Longrightarrow> AList.update k v d = d @ [(k, v)]"
  by (induction d) auto

lemma fold_update_fresh:
  "distinct (map (g \<circ> fst) xs) \<Longrightarrow> fst ` set d \<inter> (g \<circ> fst) ` set xs = {} \<Longrightarrow>
     fold (\<lambda>(k, v). AList.update (g k) (f k v)) xs d = d @ map (\<lambda>(k, v). (g k, f k v)) xs"
proof (induction xs arbitrary: d)
  case (Cons x xs)
  obtain k v where x: "x = (k, v)" by (cases x)
  have "g k \<notin> fst ` set d" using Cons.prems(2) x by auto
  then have u: "AList.update (g k) (f k v) d = d @ [(g k, f k v)]" by (rule update_fresh)
  have "fst ` set (d @ [(g k, f k v)]) \<inter> (g \<circ> fst) ` set xs = {}" using Cons.prems x by auto
  then show ?case using Cons.IH [of "d @ [(g k, f k v)]"] Cons.prems(1) by (simp add: x u)
qed simp

definition iso_key :: "string \<times> int \<Rightarrow> string \<times> string" where
  "iso_key k = (fst k, iso_date (snd k))"

lemma iso_key_inj:
  assumes "\<forall>r\<in>set table. in_calendar (dm_stat_date r)"
  shows "inj_on iso_key (bucket_of ` set table)"
proof (rule inj_onI)
  fix k j assume kj: "k \<in> bucket_of ` set table" "j \<in> bucket_of ` set table" "iso_key k = iso_key j"
  have "in_calendar (snd k)" "in_calendar (snd j)" using kj(1,2) assms by (auto simp: bucket_of_def)
  from iso_date_inj [OF this] kj(3) show "k = j" by (simp add: iso_key_def prod_eq_iff)
qed

lemma sql_slots_daily:
  assumes "\<forall>r\<in>set table. in_calendar (dm_stat_date r)"
  shows "sql_slots cutoff b ids [] campaigns table = map (\<lambda>(k, v). (iso_key k, v)) (daily_slots cutoff ids b campaigns table)"
proof -
  let ?rows = "filter (\<lambda>r. selected cutoff ids r \<and> (dm_creative_id r \<noteq> None) = b \<and> map_of campaigns (dm_campaign_id r) \<noteq> None) table"
  let ?g = "group_by_key bucket_of ?rows []"
  have rows: "filter (\<lambda>r. cutoff \<le> dm_stat_date r \<and> (dm_creative_id r \<noteq> None) = b \<and> map_of campaigns (dm_campaign_id r) \<noteq> None
      \<and> (ids = [] \<or> dm_campaign_id r \<in> set ids) \<and> ([] = [] \<or> dm_campaign_id r = [])) table = ?rows"
    by (rule filter_cong) (auto simp: selected_def)
  have "fst ` set ?g \<subseteq> bucket_of ` set table"
  proof
    fix k assume "k \<in> fst ` set ?g"
    then obtain vs where "(k, vs) \<in> set ?g" by auto
    then have vs: "vs = filter (\<lambda>x. bucket_of x = k) ?rows \<and> vs \<noteq> []" unfolding mem_group_iff .
    from vs have "vs \<noteq> []" by blast
    then obtain r where "r \<in> set vs" by (cases vs) auto
    then show "k \<in> bucket_of ` set table" using vs by auto
  qed
  then have "inj_on iso_key (fst ` set ?g)" by (rule inj_on_subset [OF iso_key_inj [OF assms]])
  then have "distinct (map (iso_key \<circ> fst) ?g)"
    using distinct_keys_group [of "[]" bucket_of ?rows] by (simp add: distinct_map comp_inj_on)
  from fold_update_fresh [OF this, of "[]"]
  show ?thesis
    unfolding sql_slots_def Let_def rows daily_slots_def iso_key_def [symmetric] by (simp add: comp_def case_prod_unfold)
qed

lemma sql_merged_daily:
  assumes "\<forall>r\<in>set table. in_calendar (dm_stat_date r)"
  shows "sql_merged cutoff ids [] campaigns table = map (\<lambda>(k, v). (iso_key k, v)) (merged_slots cutoff ids campaigns table)"
proof -
  let ?up = "daily_slots cutoff ids False campaigns table" and ?down = "daily_slots cutoff ids True campaigns table"
  have keys: "fst ` set (daily_slots cutoff ids b campaigns table) \<subseteq> bucket_of ` set table" for b
  proof
    fix k assume "k \<in> fst ` set (daily_slots cutoff ids b campaigns table)"
    then have "map_of (daily_slots cutoff ids b campaigns table) k \<noteq> None" by (simp add: map_of_eq_None_iff)
    then have "filter (\<lambda>r. bucket_of r = k \<and> (dm_creative_id r \<noteq> None) = b) (live_rows cutoff ids campaigns table) \<noteq> []"
      unfolding map_of_daily_slots Let_def by (simp split: if_splits)
    then show "k \<in> bucket_of ` set table" by (auto simp: filter_empty_conv live_rows_def)
  qed
  have look: "map_of (map (\<lambda>(k, v). (iso_key k, v)) ?up) (iso_key k) = None \<longleftrightarrow> map_of ?up k = None" if "k \<in> fst ` set ?down" for k
  proof -
    have "k \<in> bucket_of ` set table" using keys that by blast
    then have "iso_key k \<in> iso_key ` fst ` set ?up \<longleftrightarrow> k \<in> fst ` set ?up"
      by (rule inj_on_image_mem_iff [OF iso_key_inj [OF assms] _ keys])
    moreover have "fst ` set (map (\<lambda>(k, v). (iso_key k, v)) ?up) = iso_key ` fst ` set ?up" by force
    ultimately show ?thesis by (simp only: map_of_eq_None_iff)
  qed
  have "filter (\<lambda>(k, v). map_of (map (\<lambda>(k, v). (iso_key k, v)) ?up) k = None) (map (\<lambda>(k, v). (iso_key k, v)) ?down)
      = map (\<lambda>(k, v). (iso_key k, v)) (filter (\<lambda>(k, v). map_of ?up k = None) ?down)"
    unfolding filter_map by (intro arg_cong [where f = "map _"] filter_cong refl) (use look in force)
  then show ?thesis unfolding sql_merged_def merged_slots_def Let_def sql_slots_daily [OF assms] by simp
qed

text \<open>
  C40. The two readers of the primary store cannot drift apart: on a table of calendar dates the snapshots of the SQL
  warehouse, which keys its days by ISO strings and merges them on its own, are those of the metric repository,
  for every window of at least one day and every choice of campaigns.
\<close>

theorem sql_warehouse_reads_as_the_repository:
  assumes "1 \<le> days" "\<forall>r\<in>set table. in_calendar (dm_stat_date r)"
  shows "sql_snapshots today days ids campaigns table = snapshots today days ids campaigns table"
proof -
  let ?m = "merged_slots (today - (days - 1)) ids campaigns table"
  have part: "map snd (filter (\<lambda>(k, v). fst k = cid) (map (\<lambda>(k, v). (iso_key k, v)) ?m)) = map snd (filter (\<lambda>(k, v). fst k = cid) ?m)" for cid
    by (simp add: filter_map comp_def case_prod_unfold iso_key_def)
  have ids: "map (fst \<circ> fst) (map (\<lambda>(k, v). (iso_key k, v)) ?m) = map (fst \<circ> fst) ?m"
    by (simp add: comp_def case_prod_unfold iso_key_def)
  have "reconciled_snapshot cid (case bs of [] \<Rightarrow> [] | b # _ \<Rightarrow> sl_name b) bs = snapshot_from cid bs" for cid bs
    by (simp add: reconciled_snapshot_def snapshot_from_def)
  moreover have "cutoff_for today days = today - (days - 1)" using assms(1) by (simp add: cutoff_for_def)
  ultimately show ?thesis
    unfolding sql_snapshots_def snapshots_def Let_def sql_merged_daily [OF assms(2)] part ids by simp
qed

subsection \<open>Instances\<close>

lemma insert_batches_succeeds: "\<forall>k. fails k = None \<Longrightarrow> \<exists>s1. insert_batches fails k put rows s = (Inr (), s1)"
proof (induction fails k put rows s rule: insert_batches.induct)
  case (1 fails k put rows s)
  then show ?case by (cases "rows = []") simp_all
qed

lemma sync_succeeds:
  assumes "\<forall>k. sc_fails c k = None" "sc_sink c = ClickHouseSink True"
  shows "\<exists>rep s1. sync c table s = (Inr rep, s1)"
proof -
  obtain s1 where "insert_batches (sc_fails c) 0 put_daily (mirrored c table) s = (Inr (), s1)"
    using insert_batches_succeeds [OF assms(1), of 0 put_daily "mirrored c table" s] by (elim exE)
  then show ?thesis
    by (auto simp: sync_def Let_def write_daily_def insert_rows_def mirrored_def assms(2) simp del: insert_batches.simps)
qed

definition nightly_sync :: "int \<Rightarrow> sync_call" where
  "nightly_sync today = \<lparr>sc_today = today, sc_days = 30, sc_ids = [], sc_dry_run = False, sc_sink = ClickHouseSink True, sc_fails = (\<lambda>k. None)\<rparr>"

definition mirrored_days :: "daily_metric list" where
  "mirrored_days = [day_row None 100, day_row (Some ''k1'') 60]"


theorem sql_warehouse_reads_as_the_repository_witness:
  "sql_snapshots 10 7 [''c1''] [(''c1'', shop_campaign)] mirrored_days = snapshots 10 7 [''c1''] [(''c1'', shop_campaign)] mirrored_days"
proof -
  have "in_calendar 8" by code_simp
  then show ?thesis by (intro sql_warehouse_reads_as_the_repository) (simp_all add: mirrored_days_def day_row_def)
qed

end
