(* ===== verification/Spec2Isabelle.thy ===== *)
theory Spec2Isabelle
  imports Prelude PyFloat Errors Enums Statistics Kpi Scoring Pricing Anomaly Budget Proposal Critic Json Tools
    Platform AgentState AgentBase Bidding Dates Monitor OptimizeAgent Events Orchestrator Cache RateLimiter
    Gateway Structured Audience AudienceAgent Creative Security Identity Accounts
    Actions ActionFlow Metrics Ingest IngestFlow Scheduling ScheduleFlow Runs RunFlow AdsHttp AdsClients AdsFlow
    Calendar Feeds Campaigns CampaignFlow Dashboard Warehouse WarehouseFlow
begin

text \<open>
  A verification development for the backend of the multi-agent ad optimizer. All source paths are relative to
  \<open>src/backend/src/adoptimizer/\<close>; each theory opens with the files it translates.

  THE PROGRAM. An optimization run reads the delivery of campaigns and sends it through a fixed sequence of
  agents (monitor, audience, creative, bidding, optimize, critic). The agents share one state of typed channels, read
  the pure functions of \<open>domain/\<close>, ask a language model through a gateway that caches and accounts, and
  reach the ad networks only through a tool executor. What a run proposes is stored as rows that people approve
  and execute over HTTP. Metric feeds are pulled on a schedule and written to the tables the next run reads. Around it
  are accounts and sessions, an event bus that streams a run to its viewers, a rate limiter and a cache.

  THE MODEL. A Python class whose instances are updated is a record, threaded through every operation that changes it;
  a frozen dataclass is a record; an enumeration is a datatype with its value strings; an exception is an
  \<open>Inl\<close> of \<open>py_error\<close> (theory Errors), which keeps the class and the message. A dictionary is an association list in
  insertion order; a float is a real number and every \<open>round\<close> and format of the code is written out, with
  \<open>pyfloat\<close> (theory PyFloat) where an infinity or NaN can come in from a string; integers are unbounded as in Python.
  JSON is the datatype of theory Json. Clock readings, fresh identifiers, random draws and whatever a third-party
  library computes are arguments; a locale or a named hypothesis states what the code relies on of them.

  THEORIES, in the order of the imports.

  Shared: Prelude (results, rounding, formatting, strings, dictionaries, \<open>max\<close> and stable descending sort), PyFloat
  (\<open>float(s)\<close> with its round trip against \<open>format\<close>), Errors (\<open>core/errors.py\<close>), Enums (\<open>domain/enums.py\<close>), Json,
  Dates (\<open>isoformat\<close>).

  Domain: Statistics, Kpi, Scoring, Pricing, Anomaly, Budget, Audience, one theory per file of \<open>domain/\<close>. The lemmas
  bound every estimator, show the Wilson interval encloses the rate, characterise each alert rule and
  the decision to pause a creative, and prove the greedy budget fill feasible and optimal for its linear program.
  The locale \<open>keyed_best\<close> (Anomaly) is the contract of keeping the strongest entry per key; alerts and proposals
  interpret it.

  Tools: Tools (\<open>tools/spec.py\<close>, \<open>registry.py\<close>, \<open>executor.py\<close>) and Platform (\<open>tools/platform.py\<close>). The executor's
  lemmas say when a call reaches its handler, that a keyed success is replayed, and that a run stays within its budget.

  Agents: Proposal, AgentState (\<open>orchestrator/state.py\<close>: the channels and their reducers, with the locale \<open>reducer\<close>),
  AgentBase, Bidding, Monitor, OptimizeAgent, Critic, AudienceAgent, Creative, one per file of \<open>agents/\<close>. Every step is the
  whole step, from the state to the partial update.

  Supervision: Events (\<open>orchestrator/events.py\<close>, publishers interleaved as a step relation) and Orchestrator
  (\<open>orchestrator/graph.py\<close>: the graph walk, the sequential loop, the run lifecycle).

  Model access: Cache (\<open>infra/cache.py\<close>, locale \<open>forgetful_store\<close>), Gateway (\<open>llm/base.py\<close>, \<open>ledger.py\<close>,
  \<open>gateway.py\<close>), Structured (\<open>llm/structured.py\<close>).

  HTTP and accounts: RateLimiter (\<open>core/middleware.py\<close>), Security (\<open>core/security.py\<close>), Identity (\<open>services/auth.py\<close>,
  \<open>repositories/users.py\<close> and the endpoints), Accounts (their life as a step relation).

  Actions: Actions (\<open>services/actions.py\<close>, \<open>api/v1/actions.py\<close>), ActionFlow (their life under any requests).

  Ingestion: Metrics (\<open>repositories/campaigns.py\<close>), Ingest (\<open>services/ingest.py\<close> and its schemas), IngestFlow, Scheduling
  (\<open>services/scheduling.py\<close>, \<open>repositories/scheduling.py\<close>), ScheduleFlow.

  Runs: Runs (\<open>services/optimization.py\<close>, \<open>repositories/runs.py\<close>, \<open>repositories/alerts.py\<close>), RunFlow.

  Ad networks: AdsHttp (\<open>infra/ads/http_client.py\<close>), AdsClients (\<open>google.py\<close>, \<open>meta.py\<close>, \<open>tiktok.py\<close>, \<open>mock.py\<close>), AdsFlow
  (\<open>registry.py\<close> and what one operation puts on the wire).

  Administration: Campaigns (\<open>services/campaigns.py\<close>, \<open>api/v1/campaigns.py\<close>, the payloads of \<open>schemas/api.py\<close>; also what a
  run collects), CampaignFlow (administrative requests interleaved with executed actions), Dashboard (\<open>services/analytics.py\<close>).

  Feeds: Calendar (\<open>date.fromisoformat\<close> and its round trip with \<open>isoformat\<close>), Feeds (\<open>infra/ingest/platform_report.py\<close> over
  the reports of AdsFlow, \<open>infra/ingest/synthetic.py\<close> over an arbitrary generator).

  Warehouse: Warehouse (\<open>services/warehouse_sync.py\<close>, \<open>infra/analytics\<close>, \<open>infra/warehouse.py\<close>; a ClickHouse table is the list
  of the versions inserted, a query the function of the rows it denotes), WarehouseFlow (the mirror after any history of syncs).

  A theory whose name ends in Flow (and Accounts) holds no code of its own: it puts the operations of its
  component together as a relation on reachable states and proves what holds in all of them.

  CONCURRENCY. The backend is a set of asyncio tasks and processes over one database. A unit of work is one function
  of the tables. Where the code commits in between, the units are separate steps and what
  other requests commit meanwhile is an arbitrary function constrained by named hypotheses (a lease insert, an
  idempotency key); the step relations interleave whole requests. Two units that run at the same instant are ordered by
  the database, which the model takes as given.

  LOOPS. No definition has fuel except where the code itself counts: the retries of the HTTP client (\<open>MAX_ATTEMPTS\<close>), of
  the gateway (\<open>lm_max_retries\<close>), and the rounds of the supervisor, bounded by the configured iterations, which are proved
  enough (theorem \<open>run_timeline_well_formed\<close>). The resident scheduler loop is a recursion on the list of its
  passes, a stream a recursion on the items delivered.

  HYPOTHESES. Assumed of code outside the repository: LangGraph steps a compiled graph along its edges
  (\<open>graph_matches_sequential\<close>); PyJWT decodes what it encoded and only under the same key
  (\<open>token_pair_roundtrip\<close>); a solver may return any vector; a provider may answer anything. Each property with
  hypotheses has a witness that meets them at a concrete input.

  NOT MODELLED. SQL that only lists and pages; the text of the ClickHouse statements (what they denote is modelled) and
  its connection; the OpenAI client; log lines and Prometheus counters; start-up, containers and
  settings loading; the FastAPI routers beyond the endpoints that change state; the command line, the seeded demo
  data, the migrations and the TypeScript dashboard. Machine floating point is not modelled: a claim about a bound is one
  about exact arithmetic with the roundings the code asks for.
\<close>

end
